(* ===== verification/Hefur_Prelude.thy ===== *)
theory Hefur_Prelude
  imports Complex_Main "HOL-Library.Multiset" "HOL-Library.List_Lexorder" "HOL-Library.Char_ord"
begin

text \<open>
  What the component theories share: the collections of rewrite rules, the JavaScript
  numbers and strings the scripts under \<^verbatim>\<open>www/js\<close> use, the stable \<^verbatim>\<open>Array.prototype.sort\<close>
  with its contract for consistent comparators (the locale \<open>comparator_on\<close>), and generic facts
  on lists.
\<close>

section \<open>Collections\<close>

named_theorems js_defs \<open>definitions of the JavaScript helpers, unfolded on demand\<close>
named_theorems cmp_intros \<open>ways to show that a comparator is consistent\<close>

section \<open>JavaScript numbers and strings\<close>

text \<open>
  A JavaScript number is modelled by an exact rational, with \<open>None\<close> for \<^verbatim>\<open>NaN\<close>. Rounding to
  double precision and the infinities are left out: every number of the modelled scripts is a
  pixel length, a count or a size below two to the fifty-third, or is computed from such numbers by a few
  additions, products and halvings.
\<close>

type_synonym jsnum = "rat option"

definition js_sub :: "jsnum \<Rightarrow> jsnum \<Rightarrow> jsnum" where
  "js_sub a b = (case (a, b) of (Some x, Some y) \<Rightarrow> Some (x - y) | _ \<Rightarrow> None)"

text \<open>The comparator result as \<^verbatim>\<open>sort\<close> reads it: \<^verbatim>\<open>NaN\<close> counts as zero.\<close>

definition js_pos :: "jsnum \<Rightarrow> bool" where
  "js_pos v = (case v of None \<Rightarrow> False | Some x \<Rightarrow> 0 < x)"

lemma js_pos_simps [simp]: "\<not> js_pos None" "js_pos (Some x) \<longleftrightarrow> 0 < x"
  by (simp_all add: js_pos_def)

lemma js_sub_simps [simp]:
  "js_sub (Some x) (Some y) = Some (x - y)" "js_sub None b = None" "js_sub a None = None"
  by (simp_all add: js_sub_def split: option.splits)

definition js_ws :: "char \<Rightarrow> bool" where
  "js_ws c = (of_char c \<in> {9, 10, 11, 12, 13, 32, 160 :: nat})"

definition js_trim_start :: "string \<Rightarrow> string" where
  "js_trim_start s = dropWhile js_ws s"

definition js_trim :: "string \<Rightarrow> string" where
  "js_trim s = rev (dropWhile js_ws (rev (dropWhile js_ws s)))"

definition digit_val :: "nat \<Rightarrow> char \<Rightarrow> nat option" where
  "digit_val r c =
     (let n = of_char c :: nat;
          d = (if 48 \<le> n \<and> n \<le> 57 then n - 48
               else if 97 \<le> n \<and> n \<le> 122 then n - 87
               else if 65 \<le> n \<and> n \<le> 90 then n - 55 else r)
      in if d < r then Some d else None)"

definition digits_value :: "nat \<Rightarrow> string \<Rightarrow> nat" where
  "digits_value r s = foldl (\<lambda>v c. v * r + the (digit_val r c)) 0 s"

definition is_dec_digit :: "char \<Rightarrow> bool" where
  "is_dec_digit c = (digit_val 10 c \<noteq> None)"

text \<open>Decimal numerals, least significant digit last, as \<^verbatim>\<open>String(n)\<close> prints them.\<close>

definition dec_digit :: "nat \<Rightarrow> char" where
  "dec_digit d = ''0123456789'' ! d"

fun show_nat :: "nat \<Rightarrow> string" where
  "show_nat n = (if n < 10 then [dec_digit n] else show_nat (n div 10) @ [dec_digit (n mod 10)])"

declare show_nat.simps [simp del]

lemma digit_val_dec_digit: "d < 10 \<Longrightarrow> digit_val 10 (dec_digit d) = Some d"
proof -
  assume "d < 10"
  then have "d \<in> {0, 1, 2, 3, 4, 5, 6, 7, 8, 9}" by auto
  then show ?thesis by (auto simp: digit_val_def dec_digit_def Let_def)
qed

lemma is_dec_digit_dec_digit: "d < 10 \<Longrightarrow> is_dec_digit (dec_digit d)"
  by (simp add: is_dec_digit_def digit_val_dec_digit)

lemma show_nat_digits: "\<forall>c \<in> set (show_nat n). is_dec_digit c"
proof (induction n rule: show_nat.induct)
  case (1 n)
  then show ?case
    by (subst show_nat.simps) (auto simp: is_dec_digit_dec_digit)
qed

lemma show_nat_nonempty: "show_nat n \<noteq> []"
  by (subst show_nat.simps) simp

lemma digits_value_show_nat: "digits_value 10 (show_nat n) = n"
proof (induction n rule: show_nat.induct)
  case (1 n)
  show ?case
  proof (cases "n < 10")
    case True
    then show ?thesis
      by (subst show_nat.simps) (simp add: digits_value_def digit_val_dec_digit)
  next
    case False
    have "digits_value 10 (show_nat (n div 10)) = n div 10"
      using 1 False by simp
    then show ?thesis using False
      by (subst show_nat.simps) (simp add: digits_value_def digit_val_dec_digit)
  qed
qed

section \<open>Lists\<close>

lemma takeWhile_all: "(\<forall>x \<in> set xs. P x) \<Longrightarrow> takeWhile P (xs @ ys) = xs @ takeWhile P ys"
  by (induction xs) auto

lemma dropWhile_all: "(\<forall>x \<in> set xs. P x) \<Longrightarrow> dropWhile P (xs @ ys) = dropWhile P ys"
  by (induction xs) auto

lemma distinct_remove1_filter: "distinct xs \<Longrightarrow> remove1 p xs = filter (\<lambda>q. q \<noteq> p) xs"
  by (induction xs) (auto intro!: filter_True [symmetric])

lemma sorted_wrt_remove1: "sorted_wrt R xs \<Longrightarrow> sorted_wrt R (remove1 x xs)"
  by (induction xs) (auto dest: notin_set_remove1)

section \<open>The stable sort of the language\<close>

text \<open>
  \<^verbatim>\<open>Array.prototype.sort(c)\<close> is stable; for a consistent comparator its result is
  determined (lemma \<open>js_sort_unique\<close> below), so any stable algorithm models it.
\<close>

fun js_insert :: "('a \<Rightarrow> 'a \<Rightarrow> jsnum) \<Rightarrow> 'a \<Rightarrow> 'a list \<Rightarrow> 'a list" where
  "js_insert c x [] = [x]"
| "js_insert c x (y # ys) = (if js_pos (c x y) then y # js_insert c x ys else x # y # ys)"

fun js_sort :: "('a \<Rightarrow> 'a \<Rightarrow> jsnum) \<Rightarrow> 'a list \<Rightarrow> 'a list" where
  "js_sort c [] = []"
| "js_sort c (x # xs) = js_insert c x (js_sort c xs)"

definition cmp_le :: "('a \<Rightarrow> 'a \<Rightarrow> jsnum) \<Rightarrow> 'a \<Rightarrow> 'a \<Rightarrow> bool" where
  "cmp_le c a b = (\<not> js_pos (c a b))"

definition cmp_eq :: "('a \<Rightarrow> 'a \<Rightarrow> jsnum) \<Rightarrow> 'a \<Rightarrow> 'a \<Rightarrow> bool" where
  "cmp_eq c a b = (cmp_le c a b \<and> cmp_le c b a)"

lemma mset_js_insert [simp]: "mset (js_insert c x ys) = add_mset x (mset ys)"
  by (induction ys) auto

lemma mset_js_sort [simp]: "mset (js_sort c xs) = mset xs"
  by (induction xs) auto

lemma set_js_insert [simp]: "set (js_insert c x ys) = insert x (set ys)"
  by (metis mset_js_insert set_mset_add_mset_insert set_mset_mset)

lemma set_js_sort [simp]: "set (js_sort c xs) = set xs"
  by (metis mset_js_sort set_mset_mset)

lemma length_js_sort [simp]: "length (js_sort c xs) = length xs"
  by (metis mset_js_sort size_mset)

text \<open>
  The contract a caller of \<^verbatim>\<open>sort\<close> has to meet, on the elements it sorts: the comparator
  is a total preorder. Everything a client needs of the sorted array follows from it.
\<close>

locale comparator_on =
  fixes A :: "'a set" and c :: "'a \<Rightarrow> 'a \<Rightarrow> jsnum"
  assumes cmp_total: "a \<in> A \<Longrightarrow> b \<in> A \<Longrightarrow> cmp_le c a b \<or> cmp_le c b a"
    and cmp_trans: "a \<in> A \<Longrightarrow> b \<in> A \<Longrightarrow> d \<in> A \<Longrightarrow> cmp_le c a b \<Longrightarrow> cmp_le c b d \<Longrightarrow> cmp_le c a d"
begin

lemma sorted_js_insert:
  "x \<in> A \<Longrightarrow> set ys \<subseteq> A \<Longrightarrow> sorted_wrt (cmp_le c) ys \<Longrightarrow> sorted_wrt (cmp_le c) (js_insert c x ys)"
proof (induction ys)
  case Nil
  then show ?case by simp
next
  case (Cons y ys)
  show ?case
  proof (cases "js_pos (c x y)")
    case True
    then have "\<not> cmp_le c x y" by (simp add: cmp_le_def)
    with Cons.prems have "cmp_le c y x" using cmp_total by auto
    with True Cons show ?thesis by simp
  next
    case False
    then have "cmp_le c x y" by (simp add: cmp_le_def)
    moreover have "cmp_le c x z" if "z \<in> set ys" for z
    proof (rule cmp_trans)
      show "cmp_le c x y" by fact
      show "cmp_le c y z" using Cons.prems(3) that by simp
    qed (use Cons.prems that in auto)
    ultimately show ?thesis using False Cons.prems by simp
  qed
qed

lemma sorted_js_sort: "set xs \<subseteq> A \<Longrightarrow> sorted_wrt (cmp_le c) (js_sort c xs)"
  by (induction xs) (simp_all add: sorted_js_insert)

lemma stable_js_insert:
  assumes "x \<in> A" and "set ys \<subseteq> A" and "a \<in> A" and "sorted_wrt (cmp_le c) ys"
  shows "filter (cmp_eq c a) (js_insert c x ys) = filter (cmp_eq c a) (x # ys)"
  using assms(2,4)
proof (induction ys)
  case Nil
  then show ?case by simp
next
  case (Cons y ys)
  show ?case
  proof (cases "js_pos (c x y)")
    case True
    then have "\<not> cmp_le c x y" by (simp add: cmp_le_def)
    then have "\<not> (cmp_eq c a x \<and> cmp_eq c a y)"
      using cmp_trans [of x a y] assms(1,3) Cons.prems(1) by (auto simp: cmp_eq_def)
    with True Cons show ?thesis by auto
  next
    case False
    then show ?thesis by simp
  qed
qed

lemma stable_js_sort:
  "set xs \<subseteq> A \<Longrightarrow> a \<in> A \<Longrightarrow> filter (cmp_eq c a) (js_sort c xs) = filter (cmp_eq c a) xs"
proof (induction xs)
  case Nil
  then show ?case by simp
next
  case (Cons x xs)
  then have "filter (cmp_eq c a) (js_insert c x (js_sort c xs)) = filter (cmp_eq c a) (x # js_sort c xs)"
    by (intro stable_js_insert) (auto intro: sorted_js_sort)
  with Cons show ?case by simp
qed

lemma cmp_refl: "a \<in> A \<Longrightarrow> cmp_le c a a"
  using cmp_total by blast

text \<open>An array that is already in order is left as it is.\<close>

lemma js_sort_sorted: "set xs \<subseteq> A \<Longrightarrow> sorted_wrt (cmp_le c) xs \<Longrightarrow> js_sort c xs = xs"
proof (induction xs)
  case Nil
  then show ?case by simp
next
  case (Cons x xs)
  then show ?case by (cases xs) (auto simp: cmp_le_def)
qed

lemma sorted_stable_eq:
  assumes "sorted_wrt (cmp_le c) xs" and "sorted_wrt (cmp_le c) ys" and "set xs \<subseteq> A" and "set ys \<subseteq> A"
    and "\<And>a. a \<in> A \<Longrightarrow> filter (cmp_eq c a) xs = filter (cmp_eq c a) ys"
  shows "xs = ys"
  using assms
proof (induction xs arbitrary: ys)
  case Nil
  show ?case
  proof (cases ys)
    case (Cons y ys')
    then have "y \<in> set (filter (cmp_eq c y) ys)" using Nil.prems(4) by (auto simp: cmp_eq_def cmp_refl)
    moreover have "y \<in> A" using Nil.prems(4) Cons by simp
    ultimately show ?thesis using Nil.prems(5) [of y] by (metis empty_iff filter.simps(1) list.set(1))
  qed simp
next
  case (Cons x xs)
  have x: "x \<in> A" and xx: "cmp_eq c x x" using Cons.prems(3) by (auto simp: cmp_eq_def cmp_refl)
  have "x \<in> set (filter (cmp_eq c x) ys)"
    using Cons.prems(5) [OF x] xx by (metis filter.simps(2) list.set_intros(1))
  then have x_ys: "x \<in> set ys" by simp
  then obtain y ys' where ys: "ys = y # ys'" by (cases ys) auto
  have y: "y \<in> A" and yy: "cmp_eq c y y" using Cons.prems(4) ys by (auto simp: cmp_eq_def cmp_refl)
  have "y \<in> set (filter (cmp_eq c y) (x # xs))"
    using Cons.prems(5) [OF y] yy ys by (metis filter.simps(2) list.set_intros(1))
  then have "y \<in> set (x # xs)" by (auto split: if_splits)
  then have "cmp_eq c x y"
    using Cons.prems(1,2) x_ys ys xx by (auto simp: cmp_eq_def)
  then have "x = y" using Cons.prems(5) [OF x] xx ys by simp
  moreover have "xs = ys'"
  proof (rule Cons.IH)
    show "filter (cmp_eq c a) xs = filter (cmp_eq c a) ys'" if "a \<in> A" for a
      using Cons.prems(5) [OF that] ys \<open>x = y\<close> by (simp split: if_splits)
  qed (use Cons.prems ys in auto)
  ultimately show ?case using ys by simp
qed

text \<open>The result of a stable sort is determined by the contract.\<close>

lemma js_sort_unique:
  assumes "set xs \<subseteq> A" and "mset ys = mset xs" and "sorted_wrt (cmp_le c) ys"
    and "\<And>a. a \<in> A \<Longrightarrow> filter (cmp_eq c a) ys = filter (cmp_eq c a) xs"
  shows "js_sort c xs = ys"
proof (rule sorted_stable_eq)
  show "set ys \<subseteq> A" using assms(1,2) by (metis set_mset_mset)
qed (use assms in \<open>auto simp: sorted_js_sort stable_js_sort\<close>)

end

text \<open>Comparing through a projection (a cell of a row) keeps the contract.\<close>

lemma comparator_on_vimage [cmp_intros]:
  assumes "comparator_on A c"
  shows "comparator_on {x. f x \<in> A} (\<lambda>x y. c (f x) (f y))"
  using assms unfolding comparator_on_def cmp_le_def by blast

text \<open>A comparator that subtracts two numbers is consistent where both are numbers.\<close>

lemma comparator_on_js_sub [cmp_intros]:
  "comparator_on {x. f x \<noteq> None} (\<lambda>x y. js_sub (f x) (f y))"
  by unfold_locales (auto simp: cmp_le_def)

end
