(* ===== verification/Js_Base.thy ===== *)
theory Js_Base
  imports Hefur_Prelude
begin

text \<open>
  The part of the JavaScript language that the scripts under \<^verbatim>\<open>www/js\<close> rely on: arithmetic and
  truth values of numbers that may be \<^verbatim>\<open>NaN\<close>, the number parsers, and the string functions
  \<^verbatim>\<open>replace\<close>, \<^verbatim>\<open>split\<close> and \<^verbatim>\<open>indexOf\<close>.
\<close>

section \<open>Arithmetic\<close>

text \<open>The operators give \<^verbatim>\<open>NaN\<close> as soon as an operand is \<^verbatim>\<open>NaN\<close> or \<^verbatim>\<open>undefined\<close>; both are
  \<open>None\<close>, which no modelled arithmetic tells apart.\<close>

instantiation option :: (plus) plus
begin
definition plus_option :: "'a option \<Rightarrow> 'a option \<Rightarrow> 'a option" where
  "plus_option a b = (case (a, b) of (Some x, Some y) \<Rightarrow> Some (x + y) | _ \<Rightarrow> None)"
instance ..
end

instantiation option :: (minus) minus
begin
definition minus_option :: "'a option \<Rightarrow> 'a option \<Rightarrow> 'a option" where
  "minus_option a b = (case (a, b) of (Some x, Some y) \<Rightarrow> Some (x - y) | _ \<Rightarrow> None)"
instance ..
end

instantiation option :: (times) times
begin
definition times_option :: "'a option \<Rightarrow> 'a option \<Rightarrow> 'a option" where
  "times_option a b = (case (a, b) of (Some x, Some y) \<Rightarrow> Some (x * y) | _ \<Rightarrow> None)"
instance ..
end

lemma option_arith [simp]:
  "Some x + Some y = Some (x + y)" "Some x - Some y = Some (x - y)" "Some x * Some y = Some (x * y)"
  "None + b = None" "a + None = None" "None - b = None" "a - None = None" "None * b = None" "a * None = None"
  by (cases a; cases b; simp add: plus_option_def minus_option_def times_option_def)+

definition js_half :: "jsnum \<Rightarrow> jsnum" where
  "js_half a = map_option (\<lambda>x. x / 2) a"

definition js_lt :: "jsnum \<Rightarrow> jsnum \<Rightarrow> bool" where
  "js_lt a b = (case (a, b) of (Some x, Some y) \<Rightarrow> x < y | _ \<Rightarrow> False)"

definition js_le :: "jsnum \<Rightarrow> jsnum \<Rightarrow> bool" where
  "js_le a b = (case (a, b) of (Some x, Some y) \<Rightarrow> x \<le> y | _ \<Rightarrow> False)"

definition js_max :: "jsnum \<Rightarrow> jsnum \<Rightarrow> jsnum" where
  "js_max a b = (case (a, b) of (Some x, Some y) \<Rightarrow> Some (max x y) | _ \<Rightarrow> None)"

definition js_min :: "jsnum \<Rightarrow> jsnum \<Rightarrow> jsnum" where
  "js_min a b = (case (a, b) of (Some x, Some y) \<Rightarrow> Some (min x y) | _ \<Rightarrow> None)"

definition js_truthy :: "jsnum \<Rightarrow> bool" where
  "js_truthy a = (a \<noteq> None \<and> a \<noteq> Some 0)"

text \<open>\<^verbatim>\<open>a || b\<close> on numbers.\<close>

definition js_or :: "jsnum \<Rightarrow> jsnum \<Rightarrow> jsnum" where
  "js_or a b = (if js_truthy a then a else b)"

text \<open>\<^verbatim>\<open>Math.round\<close>, halves upwards, and \<^verbatim>\<open>Math.floor\<close>.\<close>

definition js_round :: "jsnum \<Rightarrow> jsnum" where
  "js_round a = map_option (\<lambda>x. of_int \<lfloor>x + 1 / 2\<rfloor>) a"

definition js_floor :: "jsnum \<Rightarrow> jsnum" where
  "js_floor a = map_option (\<lambda>x. of_int \<lfloor>x\<rfloor>) a"

lemma js_num_simps [simp]:
  "js_half (Some x) = Some (x / 2)" "js_half None = None"
  "js_lt (Some x) (Some y) = (x < y)" "\<not> js_lt None b" "\<not> js_lt a None"
  "js_le (Some x) (Some y) = (x \<le> y)" "\<not> js_le None b" "\<not> js_le a None"
  "js_max (Some x) (Some y) = Some (max x y)" "js_max None b = None" "js_max a None = None"
  "js_min (Some x) (Some y) = Some (min x y)" "js_min None b = None" "js_min a None = None"
  "js_truthy (Some x) = (x \<noteq> 0)" "\<not> js_truthy None"
  "js_or None b = b" "js_or (Some x) b = (if x = 0 then b else Some x)"
  "js_round (Some x) = Some (of_int \<lfloor>x + 1 / 2\<rfloor>)" "js_round None = None"
  "js_floor (Some x) = Some (of_int \<lfloor>x\<rfloor>)" "js_floor None = None"
  by (simp_all add: js_half_def js_lt_def js_le_def js_max_def js_min_def js_truthy_def js_or_def
      js_round_def js_floor_def split: option.splits)

section \<open>Strings and number parsers\<close>

text \<open>\<^verbatim>\<open>str.replace(pat, rep)\<close> with a string pattern: the first occurrence only.\<close>

fun js_replace :: "string \<Rightarrow> string \<Rightarrow> string \<Rightarrow> string" where
  "js_replace [] pat rep = (if pat = [] then rep else [])"
| "js_replace (x # xs) pat rep =
     (if take (length pat) (x # xs) = pat then rep @ drop (length pat) (x # xs)
      else x # js_replace xs pat rep)"

text \<open>\<^verbatim>\<open>parseInt\<close> of a string: leading blanks, a sign, an optional \<^verbatim>\<open>0x\<close>, then as many
  digits as there are; no digit gives \<^verbatim>\<open>NaN\<close>.\<close>

definition parse_int :: "string \<Rightarrow> int option" where
  "parse_int str =
     (let s0 = js_trim_start str;
          neg = (take 1 s0 = ''-'');
          s1 = (if take 1 s0 = ''-'' \<or> take 1 s0 = ''+'' then drop 1 s0 else s0);
          hex = (take 2 s1 = ''0x'' \<or> take 2 s1 = ''0X'');
          r = (if hex then 16 else 10);
          ds = takeWhile (\<lambda>c. digit_val r c \<noteq> None) (if hex then drop 2 s1 else s1)
      in if ds = [] then None
         else Some ((if neg then -1 else 1) * int (digits_value r ds)))"

text \<open>\<^verbatim>\<open>parseInt\<close> of a number first prints it. Numbers from \<open>10 ^ 21\<close> up, and below
  \<open>10 ^ -6\<close>, print in exponent form, of which \<^verbatim>\<open>parseInt\<close> reads the leading digit only.\<close>

fun lead_digit :: "nat \<Rightarrow> nat" where
  "lead_digit n = (if n < 10 then n else lead_digit (n div 10))"

declare lead_digit.simps [simp del]

function lead_frac :: "nat \<Rightarrow> nat \<Rightarrow> nat" where
  "lead_frac p q = (if p = 0 \<or> q \<le> p then p div q else lead_frac (10 * p) q)"
  by pat_completeness auto
termination
  by (relation "measure (\<lambda>(p, q). q - p)") auto

declare lead_frac.simps [simp del]

definition parse_int_num :: "rat \<Rightarrow> int" where
  "parse_int_num v =
     (let a = \<bar>v\<bar>; m = (if a = 0 then 0
                       else if 10 ^ 21 \<le> a then int (lead_digit (nat \<lfloor>a\<rfloor>))
                       else if a < 1 / 10 ^ 6 then int (case quotient_of a of (p, q) \<Rightarrow> lead_frac (nat p) (nat q))
                       else \<lfloor>a\<rfloor>)
      in if v < 0 then - m else m)"

text \<open>The longest decimal numeral at the front of a text, with its value and the text after it: a
  sign, digits with an optional fraction, and an exponent. The spelled-out infinity and the hexadecimal,
  octal and binary forms are left out.\<close>

definition float_prefix :: "string \<Rightarrow> (rat \<times> string) option" where
  "float_prefix s0 =
     (let neg = (take 1 s0 = ''-'');
          s1 = (if take 1 s0 = ''-'' \<or> take 1 s0 = ''+'' then drop 1 s0 else s0);
          ip = takeWhile is_dec_digit s1; s2 = dropWhile is_dec_digit s1;
          dot = (take 1 s2 = ''.'');
          fp = (if dot then takeWhile is_dec_digit (drop 1 s2) else []);
          s3 = (if dot then dropWhile is_dec_digit (drop 1 s2) else s2);
          s4 = drop 1 s3;
          eneg = (take 1 s4 = ''-'');
          s5 = (if take 1 s4 = ''-'' \<or> take 1 s4 = ''+'' then drop 1 s4 else s4);
          ed = takeWhile is_dec_digit s5;
          has_e = ((take 1 s3 = ''e'' \<or> take 1 s3 = ''E'') \<and> ed \<noteq> []);
          ex = digits_value 10 ed;
          m = of_nat (digits_value 10 (ip @ fp)) / 10 ^ length fp :: rat;
          v = (if has_e then if eneg then m / 10 ^ ex else m * 10 ^ ex else m)
      in if ip = [] \<and> fp = [] then None
         else Some (if neg then - v else v, if has_e then dropWhile is_dec_digit s5 else s3))"

text \<open>\<^verbatim>\<open>parseFloat(s)\<close>, and \<^verbatim>\<open>Number(s)\<close>, which wants the whole text to be a numeral and reads
  the blank one as zero.\<close>

definition parse_float :: "string \<Rightarrow> jsnum" where
  "parse_float s = map_option fst (float_prefix (js_trim_start s))"

definition js_number :: "string \<Rightarrow> jsnum" where
  "js_number s =
     (if js_trim s = [] then Some 0
      else case float_prefix (js_trim s) of Some (v, []) \<Rightarrow> Some v | _ \<Rightarrow> None)"

text \<open>\<^verbatim>\<open>toLowerCase\<close> and \<^verbatim>\<open>toUpperCase\<close>, on the letters of ASCII.\<close>

definition to_lower_char :: "char \<Rightarrow> char" where
  "to_lower_char c = (let n = of_char c :: nat in if 65 \<le> n \<and> n \<le> 90 then char_of (n + 32) else c)"

definition toLowerCase :: "string \<Rightarrow> string" where
  "toLowerCase s = map to_lower_char s"

definition to_upper_char :: "char \<Rightarrow> char" where
  "to_upper_char c = (let n = of_char c :: nat in if 97 \<le> n \<and> n \<le> 122 then char_of (n - 32) else c)"

definition toUpperCase :: "string \<Rightarrow> string" where
  "toUpperCase s = map to_upper_char s"

text \<open>\<^verbatim>\<open>s.split(c)\<close> for a one-character separator.\<close>

fun js_split :: "char \<Rightarrow> string \<Rightarrow> string list" where
  "js_split c [] = [[]]"
| "js_split c (x # xs) =
     (case js_split c xs of
        [] \<Rightarrow> []
      | p # ps \<Rightarrow> if x = c then [] # p # ps else (x # p) # ps)"

text \<open>\<^verbatim>\<open>s.indexOf(pat) !== -1\<close>.\<close>

fun js_contains :: "string \<Rightarrow> string \<Rightarrow> bool" where
  "js_contains [] pat = (pat = [])"
| "js_contains (x # xs) pat = (take (length pat) (x # xs) = pat \<or> js_contains xs pat)"

lemma js_split_nonempty [simp]: "js_split c s \<noteq> []"
  by (induction s) (auto split: list.splits)

lemma js_split_none: "c \<notin> set s \<Longrightarrow> js_split c s = [s]"
  by (induction s) auto

lemma js_split_append: "c \<notin> set s \<Longrightarrow> js_split c (s @ c # t) = s # js_split c t"
  by (induction s) (auto split: list.splits dest: js_split_nonempty [THEN notE])

lemma dec_digit_char:
  assumes "is_dec_digit c"
  shows "c \<noteq> CHR ''+''" "c \<noteq> CHR ''-''" "c \<noteq> CHR ''.''" "c \<noteq> CHR '' ''" "\<not> js_ws c"
proof -
  have r: "48 \<le> (of_char c :: nat) \<and> (of_char c :: nat) \<le> 57"
    using assms by (auto simp: is_dec_digit_def digit_val_def Let_def split: if_splits)
  then show "c \<noteq> CHR ''+''" "c \<noteq> CHR ''-''" "c \<noteq> CHR ''.''" "c \<noteq> CHR '' ''"
    by auto
  show "\<not> js_ws c" using r by (auto simp: js_ws_def)
qed

lemma show_nat_chars: "c \<in> set (show_nat n) \<Longrightarrow> is_dec_digit c"
  using show_nat_digits by blast

lemma dropWhile_hd: "s = [] \<or> \<not> P (hd s) \<Longrightarrow> dropWhile P s = s"
  by (cases s) auto

lemma js_trim_id: "s = [] \<or> \<not> js_ws (hd s) \<and> \<not> js_ws (last s) \<Longrightarrow> js_trim s = s"
  using dropWhile_hd [of s js_ws] dropWhile_hd [of "rev s" js_ws] by (auto simp: js_trim_def hd_rev)

lemma float_prefix_digits:
  assumes "ds \<noteq> []" and "\<forall>c \<in> set ds. is_dec_digit c"
  shows "float_prefix ds = Some (of_nat (digits_value 10 ds), [])"
proof -
  obtain c cs where ds: "ds = c # cs" using assms(1) by (cases ds) auto
  have tw: "takeWhile is_dec_digit ds = ds" "dropWhile is_dec_digit ds = []" using assms(2) by simp_all
  have "take 1 ds \<noteq> ''-''" "take 1 ds \<noteq> ''+''" using assms(2) ds dec_digit_char(1,2) [of c] by simp_all
  then show ?thesis unfolding float_prefix_def Let_def using assms(1) by (simp add: tw)
qed

lemma js_number_show_nat: "js_number (show_nat n) = Some (of_nat n)"
proof -
  have ne: "show_nat n \<noteq> []" by (rule show_nat_nonempty)
  then have "is_dec_digit (hd (show_nat n))" "is_dec_digit (last (show_nat n))"
    using show_nat_chars hd_in_set last_in_set by blast+
  then have "js_trim (show_nat n) = show_nat n" by (intro js_trim_id) (simp add: dec_digit_char(5))
  then show ?thesis using ne float_prefix_digits [OF ne show_nat_digits]
    by (simp add: js_number_def digits_value_show_nat)
qed

section \<open>Comparators on a numeric key\<close>

lemma js_pos_minus: "js_pos (a - b) \<longleftrightarrow> js_lt b a"
  by (cases a; cases b) auto

lemma comparator_key: "comparator_on {x. k x \<noteq> None} (\<lambda>a b. k a - k b)"
  by unfold_locales (auto simp: cmp_le_def js_pos_minus js_lt_def split: option.splits)

lemma comparator_key_desc: "comparator_on {x. k x \<noteq> None} (\<lambda>a b. k b - k a)"
  by unfold_locales (auto simp: cmp_le_def js_pos_minus js_lt_def split: option.splits)

end
