(* ===== verification/Js_Double.thy ===== *)
theory Js_Double
  imports Js_Base
begin

text \<open>
  The rounding of JavaScript numbers, for the scripts whose results depend on it: the nearest number of 53
  binary digits, the even one of two, and the leading digit of the shortest decimal that reads back as a number.
\<close>

section \<open>Rounding\<close>

text \<open>How many digits a number has, and the exponent of the leading digit of a positive rational.\<close>

function num_digits :: "int \<Rightarrow> int \<Rightarrow> int" where
  "num_digits b n = (if n \<le> 0 \<or> b < 2 then 0 else 1 + num_digits b (n div b))"
  by pat_completeness auto
termination
proof (relation "measure (\<lambda>(b, n). nat n)")
  fix b n :: int
  assume "\<not> (n \<le> 0 \<or> b < 2)"
  then show "((b, n div b), b, n) \<in> measure (\<lambda>(b, n). nat n)"
    using int_div_less_self [of n b] by simp
qed simp

declare num_digits.simps [simp del]

definition exponent_of :: "int \<Rightarrow> rat \<Rightarrow> int" where
  "exponent_of b x =
     (if 1 \<le> x then num_digits b \<lfloor>x\<rfloor> - 1 else - num_digits b (\<lceil>1 / x\<rceil> - 1))"

definition pow :: "rat \<Rightarrow> int \<Rightarrow> rat" where
  "pow b e = (if 0 \<le> e then b ^ nat e else 1 / b ^ nat (- e))"

definition round_even :: "rat \<Rightarrow> int" where
  "round_even x =
     (let f = \<lfloor>x\<rfloor>; d = x - of_int f in if d < 1 / 2 \<or> d = 1 / 2 \<and> even f then f else f + 1)"

text \<open>The nearest number of 53 digits to one that is not negative; below the smallest exponent there are fewer
  digits.\<close>

definition nearest :: "rat \<Rightarrow> rat" where
  "nearest x =
     (if x = 0 then 0
      else let u = pow 2 (max (exponent_of 2 x - 52) (- 1074)) in of_int (round_even (x / u)) * u)"

text \<open>What is too large becomes infinite, which is the value \<open>2 ^ 1024\<close> here.\<close>

definition infinite :: rat where
  "infinite = 2 ^ 1024"

definition js_double :: "rat \<Rightarrow> rat" where
  "js_double x = (let r = min (nearest \<bar>x\<bar>) infinite in if x < 0 then - r else r)"

text \<open>A finite result; infinity is \<open>None\<close> like \<^verbatim>\<open>NaN\<close>.\<close>

definition js_finite :: "rat \<Rightarrow> jsnum" where
  "js_finite x = (if \<bar>js_double x\<bar> < infinite then Some (js_double x) else None)"

section \<open>Printed numbers\<close>

text \<open>The shortest decimal that reads back as a positive number, the nearest of two.\<close>

definition reads_back :: "rat \<Rightarrow> int \<Rightarrow> int \<Rightarrow> bool" where
  "reads_back x s q \<longleftrightarrow> nearest (of_int s * pow 10 q) = x"

fun shortest :: "rat \<Rightarrow> int \<Rightarrow> nat \<Rightarrow> int" where
  "shortest x q 0 = \<lfloor>x / pow 10 q\<rfloor>"
| "shortest x q (Suc fuel) =
     (let s = \<lfloor>x / pow 10 q\<rfloor>; nearer = (if x / pow 10 q - of_int s \<le> 1 / 2 then s else s + 1)
      in if reads_back x s q \<and> reads_back x (s + 1) q then nearer
         else if reads_back x s q then s
         else if reads_back x (s + 1) q then s + 1
         else shortest x (q - 1) fuel)"

function first_digit :: "int \<Rightarrow> int" where
  "first_digit s = (if s < 10 then s else first_digit (s div 10))"
  by pat_completeness auto
termination
  by (relation "measure nat") auto

declare first_digit.simps [simp del]

text \<open>Seventeen digits are always enough.\<close>

definition shortest_digits :: "rat \<Rightarrow> int" where
  "shortest_digits x = shortest x (exponent_of 10 x) 17"

text \<open>\<^verbatim>\<open>parseInt\<close> of a number that is not negative. Numbers from \<open>10 ^ 21\<close> up, and below the one that prints
  as \<open>10 ^ -6\<close>, print in exponent form, of which \<^verbatim>\<open>parseInt\<close> reads the leading digit only.\<close>

definition parse_int_double :: "rat \<Rightarrow> int" where
  "parse_int_double x =
     (if x = 0 then 0
      else if 10 ^ 21 \<le> x \<or> x < nearest (1 / 10 ^ 6) then first_digit (shortest_digits x)
      else \<lfloor>x\<rfloor>)"

section \<open>Numbers that need no rounding\<close>

lemma num_digits_bounds: "0 < n \<Longrightarrow> \<exists>k. num_digits 2 n = int (Suc k) \<and> 2 ^ k \<le> n \<and> n < 2 ^ Suc k"
proof (induction "nat n" arbitrary: n rule: less_induct)
  case less
  have s: "num_digits 2 n = 1 + num_digits 2 (n div 2)" using less.prems by (subst num_digits.simps) simp
  show ?case
  proof (cases "n = 1")
    case True
    then have "num_digits 2 n = int (Suc 0) \<and> 2 ^ 0 \<le> n \<and> n < 2 ^ Suc 0" by (simp add: s) (simp add: num_digits.simps)
    then show ?thesis by blast
  next
    case False
    then have "0 < n div 2" "nat (n div 2) < nat n" using less.prems by auto
    from less.hyps [OF this(2,1)] obtain k where k: "num_digits 2 (n div 2) = int (Suc k)" "2 ^ k \<le> n div 2" "n div 2 < 2 ^ Suc k"
      by blast
    moreover have "2 * m \<le> n \<and> n < 4 * m" if "m \<le> n div 2" "n div 2 < 2 * m" for m using that by auto
    ultimately have "num_digits 2 n = int (Suc (Suc k)) \<and> 2 ^ Suc k \<le> n \<and> n < 2 ^ Suc (Suc k)" by (simp add: s)
    then show ?thesis by blast
  qed
qed

lemma round_even_int [simp]: "round_even (of_int i) = i"
  by (simp add: round_even_def)

lemma pow_divides:
  assumes "0 < n" "n \<le> 2 ^ 53" "e = num_digits 2 (int (n * 2 ^ j)) - 53"
  shows "\<exists>i. (of_nat (n * 2 ^ j) :: rat) / pow 2 e = of_int i"
proof (cases "0 \<le> e")
  case False
  then have "(of_nat (n * 2 ^ j) :: rat) / pow 2 e = of_int (int (n * 2 ^ j) * 2 ^ nat (- e))"
    by (simp add: pow_def)
  then show ?thesis by blast
next
  case True
  define k where "k = nat e"
  have "0 < int (n * 2 ^ j)" using assms(1) by simp
  from num_digits_bounds [OF this] obtain m where m: "num_digits 2 (int (n * 2 ^ j)) = int (Suc m)" "2 ^ m \<le> int (n * 2 ^ j)" by blast
  have d: "m = 52 + k" using assms(3) True m(1) by (simp add: k_def)
  have le: "(2 :: nat) ^ (52 + k) \<le> n * 2 ^ j" using m(2) unfolding d by (metis of_nat_le_iff of_nat_numeral of_nat_power)
  have "2 ^ k dvd n * 2 ^ j"
  proof (cases "k \<le> j")
    case True
    then show ?thesis by (simp add: dvd_mult le_imp_power_dvd)
  next
    case False
    then have "(2 :: nat) ^ (53 + j) \<le> 2 ^ (52 + k)" by (intro power_increasing) auto
    then have "(2 :: nat) ^ (53 + j) \<le> n * 2 ^ j" using le by (rule le_trans)
    then have "(2 :: nat) ^ 53 * 2 ^ j \<le> n * 2 ^ j" by (simp only: power_add)
    then have "n = 2 ^ 53" using assms(2) by simp
    then have n: "n * 2 ^ j = 2 ^ (53 + j)" by (simp add: power_add)
    then have "(2 :: nat) ^ (52 + k) \<le> 2 ^ (53 + j)" using le by simp
    then have "52 + k \<le> 53 + j" by (rule power_le_imp_le_exp [rotated]) simp
    then show ?thesis unfolding n by (intro le_imp_power_dvd) simp
  qed
  then obtain m where "n * 2 ^ j = 2 ^ k * m" by blast
  then have "(of_nat (n * 2 ^ j) :: rat) = 2 ^ k * of_nat m" by (metis of_nat_mult of_nat_numeral of_nat_power)
  then have "(of_nat (n * 2 ^ j) :: rat) / pow 2 e = of_int (int m)"
    using True by (simp add: pow_def k_def)
  then show ?thesis by blast
qed

lemma js_double_exact:
  assumes "n \<le> 2 ^ 53" "n * 2 ^ j < 2 ^ 1024"
  shows "js_double (of_nat (n * 2 ^ j)) = of_nat (n * 2 ^ j)" "js_finite (of_nat (n * 2 ^ j)) = Some (of_nat (n * 2 ^ j))"
proof -
  define x where "x = n * 2 ^ j"
  have lt: "(of_nat x :: rat) < infinite"
    unfolding infinite_def using assms(2) of_nat_less_iff [of x "2 ^ 1024", where 'a = rat] by (simp only: x_def of_nat_power of_nat_numeral)
  have "nearest (of_nat x) = of_nat x"
  proof (cases "n = 0")
    case False
    define e where "e = num_digits 2 (int x) - 53"
    have x: "0 < x" using False by (simp add: x_def)
    then have one: "1 \<le> (of_nat x :: rat)" "0 < int x" by simp_all
    have "1 \<le> num_digits 2 (int x)" using num_digits_bounds [OF one(2)] by auto
    then have ex: "max (exponent_of 2 (of_nat x) - 52) (- 1074) = e" unfolding exponent_of_def e_def using one by simp
    obtain i where i: "(of_nat x :: rat) / pow 2 e = of_int i"
      using pow_divides [of n e j] False assms(1) by (auto simp: x_def e_def)
    have p: "0 < pow 2 e" by (simp add: pow_def)
    have "of_int i * pow 2 e = of_nat x" unfolding i [symmetric] using p by simp
    then show ?thesis using x unfolding nearest_def Let_def ex by (simp add: i)
  qed (simp add: nearest_def x_def)
  then have d: "js_double (of_nat x) = of_nat x" unfolding js_double_def Let_def using lt by simp
  then show "js_double (of_nat (n * 2 ^ j)) = of_nat (n * 2 ^ j)" by (simp only: x_def)
  show "js_finite (of_nat (n * 2 ^ j)) = Some (of_nat (n * 2 ^ j))"
    unfolding x_def [symmetric] js_finite_def d using lt by simp
qed

end
