(* ===== verification/Table_Sorter.thy ===== *)
theory Table_Sorter
  imports Js_Double
begin

text \<open>
  The script \<^verbatim>\<open>www/js/table-sorter.js\<close> that the statistics pages load: the three cell
  comparators, the parser of printed byte sizes, and the two functions that reorder the rows of a
  table body. A row is the list of the \<^verbatim>\<open>textContent\<close> of its cells; a table body also keeps the
  two expando properties that \<^verbatim>\<open>sortTbody\<close> writes on it. Numbers are rounded as JavaScript rounds
  them, but for the differences a comparator returns, of which the sort only sees the sign.
\<close>

section \<open>Evaluated products\<close>

datatype js_error = TypeError | EvalUnmodelled

text \<open>\<^verbatim>\<open>eval\<close> on the only texts this script gives it on purpose: decimal literals multiplied
  with \<^verbatim>\<open>*\<close>, and the empty text. Any other text is outside the model.\<close>

datatype js_eval = EvUndefined | EvNum jsnum | EvOther

definition dec_literal :: "string \<Rightarrow> (rat \<times> string) option" where
  "dec_literal s =
     (let ip = takeWhile is_dec_digit s; rest = dropWhile is_dec_digit s;
          fp = (if take 1 rest = ''.'' then takeWhile is_dec_digit (drop 1 rest) else []);
          rest' = (if take 1 rest = ''.'' then dropWhile is_dec_digit (drop 1 rest) else rest)
      in if ip = [] \<and> fp = [] then None
         else if length ip > 1 \<and> take 1 ip = ''0'' then None
         else Some (of_nat (digits_value 10 (ip @ fp)) / 10 ^ length fp, rest'))"

function factors :: "string \<Rightarrow> rat list option" where
  "factors s =
     (case dec_literal (js_trim_start s) of
        None \<Rightarrow> None
      | Some (v, rest) \<Rightarrow>
          (case js_trim_start rest of
             [] \<Rightarrow> Some [v]
           | c # cs \<Rightarrow>
               if c = CHR ''*'' \<and> length cs < length s then map_option ((#) v) (factors cs)
               else None))"
  by pat_completeness auto
termination
  by (relation "measure length") auto

declare factors.simps [simp del]

text \<open>The product from the left; every literal and every product is rounded.\<close>

definition js_mult :: "jsnum \<Rightarrow> jsnum \<Rightarrow> jsnum" where
  "js_mult a b = (case (a, b) of (Some x, Some y) \<Rightarrow> js_finite (x * y) | _ \<Rightarrow> None)"

definition product :: "rat list \<Rightarrow> jsnum" where
  "product vs = foldl (\<lambda>a v. js_mult a (js_finite v)) (js_finite (hd vs)) (tl vs)"

definition eval_js :: "string \<Rightarrow> js_eval" where
  "eval_js s =
     (if js_trim s = [] then EvUndefined
      else case factors s of None \<Rightarrow> EvOther | Some vs \<Rightarrow> EvNum (product vs))"

section \<open>The functions of the script\<close>

definition unit_rewrites :: "(string \<times> string) list" where
  "unit_rewrites =
     [(''YiB'', ''*1024*1024*1024*1024*1024*1024*1024*1024''),
      (''ZiB'', ''*1024*1024*1024*1024*1024*1024*1024''),
      (''EiB'', ''*1024*1024*1024*1024*1024*1024''),
      (''PiB'', ''*1024*1024*1024*1024*1024''),
      (''TiB'', ''*1024*1024*1024*1024''),
      (''GiB'', ''*1024*1024*1024''),
      (''MiB'', ''*1024*1024''),
      (''KiB'', ''*1024''),
      (''B'', [])]"

definition parse_byte_size :: "string \<Rightarrow> js_error + jsnum" where
  "parse_byte_size str =
     (case eval_js (fold (\<lambda>(pat, rep) s. js_replace s pat rep) unit_rewrites str) of
        EvUndefined \<Rightarrow> Inr None
      | EvNum v \<Rightarrow> Inr (map_option (\<lambda>x. of_int (parse_int_double x)) v)
      | EvOther \<Rightarrow> Inl EvalUnmodelled)"

type_synonym cell_cmp = "string \<Rightarrow> string \<Rightarrow> js_error + jsnum"

definition sort_str :: cell_cmp where
  "sort_str a b = Inr (Some (if a > b then 1 else if a = b then 0 else -1))"

definition int_num :: "string \<Rightarrow> jsnum" where
  "int_num s = map_option (\<lambda>i. js_double (of_int i)) (parse_int s)"

definition sort_int :: cell_cmp where
  "sort_int a b = Inr (js_sub (int_num a) (int_num b))"

definition sort_byte :: cell_cmp where
  "sort_byte a b =
     (case parse_byte_size a of Inl e \<Rightarrow> Inl e
      | Inr x \<Rightarrow> (case parse_byte_size b of Inl e \<Rightarrow> Inl e | Inr y \<Rightarrow> Inr (js_sub x y)))"

type_synonym row = "string list"

record tbody =
  tb_rows :: "row list"
  tableSorterCol :: "nat option"
  tableSorterReverse :: bool

text \<open>The call the sort makes on two rows; a missing cell is \<^verbatim>\<open>undefined\<close>, whose
  \<^verbatim>\<open>textContent\<close> raises a TypeError. A comparator of this script fails on an argument, never
  on a pair, so whether a row makes the sort raise is read off the row against itself.\<close>

definition row_cmp :: "cell_cmp \<Rightarrow> nat \<Rightarrow> row \<Rightarrow> row \<Rightarrow> js_error + jsnum" where
  "row_cmp lt col a b =
     (if col < length a \<and> col < length b then lt (a ! col) (b ! col) else Inl TypeError)"

definition cmp_val :: "js_error + jsnum \<Rightarrow> jsnum" where
  "cmp_val r = (case r of Inl e \<Rightarrow> None | Inr v \<Rightarrow> v)"

definition row_error :: "cell_cmp \<Rightarrow> nat \<Rightarrow> row \<Rightarrow> js_error option" where
  "row_error lt col a = (case row_cmp lt col a a of Inl e \<Rightarrow> Some e | Inr v \<Rightarrow> None)"

definition sort_rows :: "cell_cmp \<Rightarrow> nat \<Rightarrow> row list \<Rightarrow> js_error + row list" where
  "sort_rows lt col rows =
     (if length rows < 2 then Inr rows
      else case List.map_filter (row_error lt col) rows of
             e # es \<Rightarrow> Inl e
           | [] \<Rightarrow> Inr (js_sort (\<lambda>a b. cmp_val (row_cmp lt col a b)) rows))"

text \<open>\<^verbatim>\<open>deleteRow(0)\<close> until the body is empty, then \<^verbatim>\<open>appendChild\<close> of each row in turn.\<close>

fun delete_rows :: "tbody \<Rightarrow> nat \<Rightarrow> tbody" where
  "delete_rows tb 0 = tb"
| "delete_rows tb (Suc n) =
     (if length (tb_rows tb) > 0 then delete_rows (tb\<lparr>tb_rows := tl (tb_rows tb)\<rparr>) n else tb)"

definition append_rows :: "row list \<Rightarrow> tbody \<Rightarrow> tbody" where
  "append_rows rows tb = fold (\<lambda>r t. t\<lparr>tb_rows := tb_rows t @ [r]\<rparr>) rows tb"

definition sort_tbody2 :: "tbody \<Rightarrow> nat \<Rightarrow> cell_cmp \<Rightarrow> bool \<Rightarrow> js_error + tbody \<times> row list" where
  "sort_tbody2 tb col lt reverse =
     (case sort_rows lt col (tb_rows tb) of
        Inl e \<Rightarrow> Inl e
      | Inr rows \<Rightarrow>
          (let rows' = (if reverse then rev rows else rows)
           in Inr (append_rows rows' (delete_rows tb (length (tb_rows tb))), rows')))"

text \<open>The document is the map from ids to table bodies; \<^verbatim>\<open>getElementById\<close> of an unknown id is
  \<^verbatim>\<open>null\<close>, and reading a property of it raises.\<close>

type_synonym document = "string \<rightharpoonup> tbody"

definition sort_tbody ::
  "document \<Rightarrow> nat \<Rightarrow> string \<Rightarrow> cell_cmp \<Rightarrow> document \<times> (js_error + row list)" where
  "sort_tbody doc col tbody_id lt =
     (case doc tbody_id of
        None \<Rightarrow> (doc, Inl TypeError)
      | Some tb \<Rightarrow>
          (let reverse = (if tableSorterCol tb = Some col then \<not> tableSorterReverse tb else False);
               tb1 = tb\<lparr>tableSorterCol := Some col, tableSorterReverse := reverse\<rparr>
           in case sort_tbody2 tb1 col lt reverse of
                Inl e \<Rightarrow> (doc(tbody_id \<mapsto> tb1), Inl e)
              | Inr (tb2, rows) \<Rightarrow> (doc(tbody_id \<mapsto> tb2), Inr rows)))"


section \<open>Comparators\<close>

text \<open>The three comparators meet the contract of \<^verbatim>\<open>sort\<close>: on every cell, on the cells that hold
  a number, on the cells that hold a printed size.\<close>

abbreviation cell_val :: "cell_cmp \<Rightarrow> string \<Rightarrow> string \<Rightarrow> jsnum" where
  "cell_val lt a b \<equiv> cmp_val (lt a b)"

definition byte_num :: "string \<Rightarrow> jsnum" where
  "byte_num s = (case parse_byte_size s of Inl e \<Rightarrow> None | Inr v \<Rightarrow> v)"

lemma cell_val_sort_byte: "cell_val sort_byte = (\<lambda>a b. js_sub (byte_num a) (byte_num b))"
  by (auto simp: fun_eq_iff sort_byte_def byte_num_def cmp_val_def split: sum.splits)

lemma cell_val_sort_int:
  "cell_val sort_int = (\<lambda>a b. js_sub (int_num a) (int_num b))"
  by (simp add: fun_eq_iff sort_int_def cmp_val_def)

interpretation str_cmp: comparator_on UNIV "cell_val sort_str"
  by unfold_locales (auto simp: cmp_le_def cmp_val_def sort_str_def split: if_splits)

interpretation int_cmp: comparator_on "{s. parse_int s \<noteq> None}" "cell_val sort_int"
  using comparator_on_js_sub [of int_num]
  by (simp add: cell_val_sort_int int_num_def)

interpretation byte_cmp: comparator_on "{s. byte_num s \<noteq> None}" "cell_val sort_byte"
  unfolding cell_val_sort_byte by (rule comparator_on_js_sub)

section \<open>Reordering the rows\<close>

definition column_ok :: "string set \<Rightarrow> cell_cmp \<Rightarrow> nat \<Rightarrow> row list \<Rightarrow> bool" where
  "column_ok A lt col rows =
     (\<forall>r \<in> set rows. col < length r \<and> r ! col \<in> A \<and> (\<exists>v. lt (r ! col) (r ! col) = Inr v))"

abbreviation row_val :: "cell_cmp \<Rightarrow> nat \<Rightarrow> row \<Rightarrow> row \<Rightarrow> jsnum" where
  "row_val lt col a b \<equiv> cmp_val (row_cmp lt col a b)"

text \<open>The rows whose cell lies in \<open>A\<close>, compared by that cell, meet the contract again.\<close>

lemma comparator_on_row [cmp_intros]:
  assumes "comparator_on A (cell_val lt)"
  shows "comparator_on {r. col < length r \<and> r ! col \<in> A} (row_val lt col)"
  using assms unfolding comparator_on_def cmp_le_def row_cmp_def by (simp; blast)

lemma delete_rows_empty:
  "length (tb_rows tb) \<le> n \<Longrightarrow> delete_rows tb n = tb\<lparr>tb_rows := []\<rparr>"
  by (induction tb n rule: delete_rows.induct) auto

lemma append_rows_eq: "append_rows rows tb = tb\<lparr>tb_rows := tb_rows tb @ rows\<rparr>"
  unfolding append_rows_def by (induction rows arbitrary: tb) auto

lemma map_filter_Nil: "(\<forall>x \<in> set xs. f x = None) \<Longrightarrow> List.map_filter f xs = []"
  by (induction xs) (auto simp: List.map_filter_simps)

lemma column_ok_no_error: "column_ok A lt col rows \<Longrightarrow> r \<in> set rows \<Longrightarrow> row_error lt col r = None"
  by (auto simp: column_ok_def row_error_def row_cmp_def split: sum.splits)

lemma sort_rows_ok:
  assumes "column_ok A lt col rows" and "comparator_on A (cell_val lt)"
  shows "sort_rows lt col rows = Inr (js_sort (row_val lt col) rows)"
proof (cases "length rows < 2")
  case True
  then have "js_sort (row_val lt col) rows = rows"
    by (cases rows; cases "tl rows") auto
  with True show ?thesis by (simp add: sort_rows_def)
next
  case False
  have "List.map_filter (row_error lt col) rows = []"
    using column_ok_no_error [OF assms(1)] by (intro map_filter_Nil) blast
  with False show ?thesis by (simp add: sort_rows_def)
qed

lemma sort_tbody2_ok:
  assumes "column_ok A lt col (tb_rows tb)" and "comparator_on A (cell_val lt)"
  shows "sort_tbody2 tb col lt reverse =
    (let rows = js_sort (row_val lt col) (tb_rows tb); rows' = (if reverse then rev rows else rows)
     in Inr (tb\<lparr>tb_rows := rows'\<rparr>, rows'))"
  by (simp add: sort_tbody2_def sort_rows_ok [OF assms] Let_def delete_rows_empty append_rows_eq)

lemma column_ok_mset: "mset xs = mset ys \<Longrightarrow> column_ok A lt col xs = column_ok A lt col ys"
  unfolding column_ok_def using mset_eq_setD by blast

lemma column_ok_subset:
  "column_ok A lt col rows \<Longrightarrow> set rows \<subseteq> {r. col < length r \<and> r ! col \<in> A}"
  by (auto simp: column_ok_def)

text \<open>C17. \<^verbatim>\<open>sortTbody2\<close> leaves exactly the rows it found, in the order of the chosen column
  (in the opposite order when asked to reverse), rows with equal cells in their old order, for
  every comparator that is consistent on the cells of that column; the body's own properties
  stay.\<close>

theorem sort_tbody2_sorts:
  assumes "column_ok A lt col (tb_rows tb)" and "comparator_on A (cell_val lt)"
  shows "\<exists>rows. sort_tbody2 tb col lt reverse = Inr (tb\<lparr>tb_rows := rows\<rparr>, rows)
    \<and> mset rows = mset (tb_rows tb)
    \<and> sorted_wrt (cmp_le (row_val lt col)) (if reverse then rev rows else rows)
    \<and> (\<forall>r \<in> set rows. filter (cmp_eq (row_val lt col) r) (if reverse then rev rows else rows)
         = filter (cmp_eq (row_val lt col) r) (tb_rows tb))"
proof -
  note C = comparator_on_row [OF assms(2), of col] and S = column_ok_subset [OF assms(1)]
  show ?thesis
    unfolding sort_tbody2_ok [OF assms] Let_def
    using comparator_on.sorted_js_sort [OF C S] comparator_on.stable_js_sort [OF C S] S
    by (cases reverse) auto
qed

theorem sort_tbody2_sorts_witness:
  "\<exists>rows. sort_tbody2 \<lparr>tb_rows = [[''2B''], [''1KiB''], [''7B'']], tableSorterCol = None, tableSorterReverse = False\<rparr>
      0 sort_str False = Inr (\<lparr>tb_rows = rows, tableSorterCol = None, tableSorterReverse = False\<rparr>, rows)
    \<and> mset rows = {#[''2B''], [''1KiB''], [''7B'']#}"
  using sort_tbody2_sorts [of UNIV sort_str 0
      "\<lparr>tb_rows = [[''2B''], [''1KiB''], [''7B'']], tableSorterCol = None, tableSorterReverse = False\<rparr>" False]
    str_cmp.comparator_on_axioms
  by (auto simp: column_ok_def sort_str_def)

lemma sort_tbody_ok:
  assumes "doc tid = Some tb" and "column_ok A lt col (tb_rows tb)" and "comparator_on A (cell_val lt)"
  shows "sort_tbody doc col tid lt =
    (let reverse = (tableSorterCol tb = Some col \<and> \<not> tableSorterReverse tb);
         rows = js_sort (row_val lt col) (tb_rows tb); rows' = (if reverse then rev rows else rows)
     in (doc(tid \<mapsto> \<lparr>tb_rows = rows', tableSorterCol = Some col, tableSorterReverse = reverse\<rparr>), Inr rows'))"
  using assms(1) sort_tbody2_ok [OF _ assms(3), of col "tb\<lparr>tableSorterCol := Some col, tableSorterReverse := _\<rparr>"] assms(2)
  by (cases tb) (simp add: sort_tbody_def Let_def)

text \<open>A first click on a column header sorts by that column, a second click on the same header
  gives exactly the reversed order.\<close>

theorem sort_tbody_click_twice:
  assumes "doc tid = Some tb" and "column_ok A lt col (tb_rows tb)" and "comparator_on A (cell_val lt)"
    and "tableSorterCol tb \<noteq> Some col"
    and "sort_tbody doc col tid lt = (doc1, r1)" and "sort_tbody doc1 col tid lt = (doc2, r2)"
  shows "\<exists>rows. r1 = Inr rows \<and> r2 = Inr (rev rows) \<and> sorted_wrt (cmp_le (row_val lt col)) rows
    \<and> mset rows = mset (tb_rows tb) \<and> map_option tb_rows (doc2 tid) = Some (rev rows)"
proof -
  let ?rows = "js_sort (row_val lt col) (tb_rows tb)"
  note C = comparator_on_row [OF assms(3), of col]
  have S: "set ?rows \<subseteq> {r. col < length r \<and> r ! col \<in> A}"
    using column_ok_subset [OF assms(2)] by simp
  have sorted: "sorted_wrt (cmp_le (row_val lt col)) ?rows"
    by (rule comparator_on.sorted_js_sort [OF C column_ok_subset [OF assms(2)]])
  have 1: "r1 = Inr ?rows" "doc1 = doc(tid \<mapsto> \<lparr>tb_rows = ?rows, tableSorterCol = Some col, tableSorterReverse = False\<rparr>)"
    using sort_tbody_ok [where doc = doc and tid = tid, OF assms(1-3)] assms(4,5) by (simp_all add: Let_def)
  have "column_ok A lt col ?rows"
    using assms(2) column_ok_mset [of ?rows "tb_rows tb"] by simp
  then have "sort_tbody doc1 col tid lt =
      (doc1(tid \<mapsto> \<lparr>tb_rows = rev (js_sort (row_val lt col) ?rows), tableSorterCol = Some col, tableSorterReverse = True\<rparr>),
       Inr (rev (js_sort (row_val lt col) ?rows)))"
    using sort_tbody_ok [where doc = doc1 and tid = tid, OF _ _ assms(3)] 1(2) by (simp add: Let_def)
  moreover have "js_sort (row_val lt col) ?rows = ?rows"
    by (rule comparator_on.js_sort_sorted [OF C S sorted])
  ultimately show ?thesis using assms(6) 1 sorted by (intro exI [of _ ?rows]) auto
qed

definition demo_doc :: document where
  "demo_doc = [''peers-tbody'' \<mapsto>
     \<lparr>tb_rows = [[''b'', ''7''], [''a'', ''12''], [''c'', ''3'']], tableSorterCol = None, tableSorterReverse = False\<rparr>]"

theorem sort_tbody_click_twice_witness:
  "\<exists>rows. snd (sort_tbody demo_doc 0 ''peers-tbody'' sort_str) = Inr rows
    \<and> snd (sort_tbody (fst (sort_tbody demo_doc 0 ''peers-tbody'' sort_str)) 0 ''peers-tbody'' sort_str) = Inr (rev rows)"
  using sort_tbody_click_twice [of demo_doc "''peers-tbody''" _ UNIV sort_str 0, OF _ _ str_cmp.comparator_on_axioms]
  by (fastforce simp: demo_doc_def column_ok_def sort_str_def prod_eq_iff)

text \<open>When a cell is missing or cannot be read, or the table body does not exist, the script
  raises before it deletes any row: no table loses or moves a row.\<close>

theorem sort_tbody_error_keeps_rows:
  assumes "sort_tbody doc col tid lt = (doc', Inl e)"
  shows "map_option tb_rows (doc' t) = map_option tb_rows (doc t)"
  using assms
  by (auto simp: sort_tbody_def Let_def sort_tbody2_def split: option.splits sum.splits if_splits prod.splits)

theorem sort_tbody_error_keeps_rows_witness:
  "map_option tb_rows (fst (sort_tbody demo_doc 5 ''peers-tbody'' sort_int) ''peers-tbody'')
    = map_option tb_rows (demo_doc ''peers-tbody'')"
proof -
  have "sort_tbody demo_doc 5 ''peers-tbody'' sort_int
    = (fst (sort_tbody demo_doc 5 ''peers-tbody'' sort_int), Inl TypeError)"
    by (simp add: demo_doc_def sort_tbody_def sort_tbody2_def sort_rows_def row_error_def row_cmp_def
        List.map_filter_simps)
  then show ?thesis by (rule sort_tbody_error_keeps_rows)
qed

section \<open>Printed sizes\<close>

lemma js_replace_prefix:
  assumes "\<forall>x \<in> set ds. is_dec_digit x" and "\<not> is_dec_digit p"
  shows "js_replace (ds @ s) (p # ps) rep = ds @ js_replace s (p # ps) rep"
  using assms by (induction ds) auto

lemma js_replace_nil [simp]: "js_replace [] (p # ps) rep = []"
  by simp

definition size_units :: "string list" where
  "size_units = [''B'', ''KiB'', ''MiB'', ''GiB'', ''TiB'', ''PiB'', ''EiB'', ''ZiB'', ''YiB'']"

definition times_1024 :: "nat \<Rightarrow> string" where
  "times_1024 k = concat (replicate k ''*1024'')"

lemma unit_letters:
  "\<not> is_dec_digit CHR ''Y''" "\<not> is_dec_digit CHR ''Z''" "\<not> is_dec_digit CHR ''E''"
  "\<not> is_dec_digit CHR ''P''" "\<not> is_dec_digit CHR ''T''" "\<not> is_dec_digit CHR ''G''"
  "\<not> is_dec_digit CHR ''M''" "\<not> is_dec_digit CHR ''K''" "\<not> is_dec_digit CHR ''B''"
  "\<not> is_dec_digit CHR ''*''"
  by (simp_all add: is_dec_digit_def digit_val_def Let_def)

lemma rewrites_unit:
  assumes "\<forall>x \<in> set ds. is_dec_digit x" and "k < 9"
  shows "fold (\<lambda>(pat, rep) s. js_replace s pat rep) unit_rewrites (ds @ size_units ! k) = ds @ times_1024 k"
proof -
  have "k \<in> {0, 1, 2, 3, 4, 5, 6, 7, 8}" using assms(2) by auto
  then show ?thesis
    by (auto simp: unit_rewrites_def size_units_def times_1024_def numeral_eq_Suc
        js_replace_prefix [OF assms(1)] unit_letters)
qed

lemma show_nat_hd: "take 1 (show_nat n) = ''0'' \<Longrightarrow> n = 0"
proof (induction n rule: show_nat.induct)
  case (1 n)
  show ?case
  proof (cases "n < 10")
    case True
    then have "n \<in> {0, 1, 2, 3, 4, 5, 6, 7, 8, 9}" by auto
    then show ?thesis using 1(2) by (subst (asm) show_nat.simps) (auto simp: dec_digit_def)
  next
    case False
    then have "take 1 (show_nat (n div 10)) = ''0''"
      using 1(2) by (subst (asm) show_nat.simps) (simp add: show_nat_nonempty Suc_le_eq)
    then have "n div 10 = 0" using 1(1) False by simp
    then show ?thesis using False by simp
  qed
qed

lemma dec_digit_not_ws: "is_dec_digit c \<Longrightarrow> \<not> js_ws c"
  by (auto simp: is_dec_digit_def digit_val_def js_ws_def Let_def split: if_splits)

lemma trim_start_digits:
  "ds \<noteq> [] \<Longrightarrow> \<forall>x \<in> set ds. is_dec_digit x \<Longrightarrow> js_trim_start (ds @ s) = ds @ s"
  by (cases ds) (auto simp: js_trim_start_def dec_digit_not_ws)

lemma trim_start_simps [simp]: "js_trim_start [] = []" "js_trim_start (CHR ''*'' # cs) = CHR ''*'' # cs"
  by (simp_all add: js_trim_start_def js_ws_def)

lemma dec_literal_show_nat:
  assumes "s = [] \<or> (\<exists>cs. s = CHR ''*'' # cs)"
  shows "dec_literal (show_nat n @ s) = Some (of_nat n, s)"
proof -
  have tw: "takeWhile is_dec_digit (show_nat n @ s) = show_nat n"
    and dw: "dropWhile is_dec_digit (show_nat n @ s) = s"
    using show_nat_digits [of n] assms by (auto simp: takeWhile_all dropWhile_all unit_letters)
  have "\<not> (length (show_nat n) > 1 \<and> take 1 (show_nat n) = ''0'')"
    using show_nat_hd [of n] by (auto simp: show_nat.simps [of 0])
  then show ?thesis
    using assms by (auto simp: dec_literal_def Let_def tw dw show_nat_nonempty digits_value_show_nat)
qed

lemma factors_show_nat:
  assumes "s = [] \<or> (\<exists>cs. s = CHR ''*'' # cs)"
  shows "factors (show_nat n @ s)
    = (if s = [] then Some [of_nat n] else map_option ((#) (of_nat n)) (factors (tl s)))"
  using assms
  by (subst factors.simps)
    (auto simp: trim_start_digits show_nat_digits show_nat_nonempty dec_literal_show_nat
      trim_start_digits [where s = "[]", simplified] dec_literal_show_nat [where s = "[]", simplified])

lemma show_nat_1024: "show_nat 1024 = ''1024''"
  by (simp add: show_nat.simps dec_digit_def)

lemma times_1024_Suc: "times_1024 (Suc k) = CHR ''*'' # show_nat 1024 @ times_1024 k"
  by (simp add: times_1024_def show_nat_1024)

lemma times_1024_cases: "times_1024 k = [] \<or> (\<exists>cs. times_1024 k = CHR ''*'' # cs)"
  by (cases k) (auto simp: times_1024_def)

lemma factors_times_1024: "factors (show_nat n @ times_1024 k) = Some (of_nat n # replicate k 1024)"
proof (induction k arbitrary: n)
  case 0
  then show ?case using factors_show_nat [of "[]" n] by (simp add: times_1024_def)
next
  case (Suc k)
  then show ?case
    using factors_show_nat [OF times_1024_cases, of n "Suc k"] by (simp add: times_1024_Suc)
qed

text \<open>No step of the product is rounded when the number has 53 digits at most.\<close>

lemma product_times_1024:
  assumes "n \<le> 2 ^ 53" "n * 1024 ^ k < 2 ^ 1024"
  shows "product (of_nat n # replicate k 1024) = Some (of_nat (n * 1024 ^ k))"
  using assms(2)
proof (induction k)
  case 0
  then show ?case using js_double_exact(2) [of n 0] assms(1) by (simp add: product_def)
next
  case (Suc k)
  have "n * 1024 ^ k \<le> n * 1024 ^ Suc k" by simp
  then have "n * 1024 ^ k < 2 ^ 1024" using Suc.prems by (rule le_less_trans)
  then have "product (of_nat n # replicate k 1024) = Some (of_nat (n * 1024 ^ k))" by (rule Suc.IH)
  moreover have "product (of_nat n # replicate (Suc k) 1024) = js_mult (product (of_nat n # replicate k 1024)) (js_finite 1024)"
    unfolding product_def by (simp add: replicate_append_same [symmetric])
  moreover have "js_finite 1024 = Some 1024" using js_double_exact(2) [of 1 10] by simp
  ultimately have "product (of_nat n # replicate (Suc k) 1024) = js_finite (of_nat (n * 1024 ^ Suc k))"
    by (simp add: js_mult_def mult_ac)
  moreover have "(1024 :: nat) ^ Suc k = 2 ^ (10 * Suc k)" unfolding power_mult by simp
  ultimately show ?case
    using js_double_exact(2) [OF assms(1), of "10 * Suc k"] Suc.prems by (simp only:)
qed

lemma js_trim_nonempty: "s \<noteq> [] \<Longrightarrow> \<not> js_ws (hd s) \<Longrightarrow> js_trim s \<noteq> []"
  by (cases s) (auto simp: js_trim_def dropWhile_eq_Nil_conv)

lemma eval_js_times_1024: "eval_js (show_nat n @ times_1024 k) = EvNum (product (of_nat n # replicate k 1024))"
proof -
  have "\<not> js_ws (hd (show_nat n @ times_1024 k))"
    using show_nat_digits [of n] show_nat_nonempty [of n] by (cases "show_nat n") (auto simp: dec_digit_not_ws)
  then have "js_trim (show_nat n @ times_1024 k) \<noteq> []"
    by (intro js_trim_nonempty) (simp_all add: show_nat_nonempty)
  then show ?thesis by (simp add: eval_js_def factors_times_1024)
qed

lemma parse_byte_size_product:
  "k < 9 \<Longrightarrow> parse_byte_size (show_nat n @ size_units ! k)
     = Inr (map_option (\<lambda>x. of_int (parse_int_double x)) (product (of_nat n # replicate k 1024)))"
  by (simp add: parse_byte_size_def rewrites_unit show_nat_digits eval_js_times_1024)

lemma parse_byte_size_unit:
  assumes "k < 9" "n \<le> 2 ^ 53" "n * 1024 ^ k < 2 ^ 1024"
  shows "parse_byte_size (show_nat n @ size_units ! k) = Inr (Some (of_int (parse_int_double (of_nat (n * 1024 ^ k)))))"
  unfolding parse_byte_size_product [OF assms(1)] product_times_1024 [OF assms(2,3)] by simp

lemma parse_int_double_of_nat: "m < 10 ^ 21 \<Longrightarrow> parse_int_double (of_nat m) = int m"
proof -
  assume m: "m < 10 ^ 21"
  have "(of_nat m :: rat) < 10 ^ 21"
    using m by (metis of_nat_less_iff of_nat_numeral of_nat_power)
  moreover have "nearest (1 / 10 ^ 6) \<le> 1" by code_simp
  then have "m \<noteq> 0 \<Longrightarrow> \<not> (of_nat m :: rat) < nearest (1 / 10 ^ 6)" by (simp add: not_less order_trans)
  ultimately show ?thesis by (simp add: parse_int_double_def not_le del: of_nat_less_iff)
qed

text \<open>C18. A whole number of at most 53 binary digits, printed with one of the nine binary units, is read back as
  that many bytes, as long as the size stays below \<open>10 ^ 21\<close>. A larger number is rounded, and a larger size
  prints in exponent form.\<close>

theorem parse_byte_size_roundtrip:
  assumes "k < length size_units" and "n \<le> 2 ^ 53" and "n * 1024 ^ k < 10 ^ 21"
  shows "parse_byte_size (show_nat n @ size_units ! k) = Inr (Some (of_nat (n * 1024 ^ k)))"
proof -
  have "k < 9" using assms(1) by (simp add: size_units_def)
  moreover have "(10 :: nat) ^ 21 < 2 ^ 1024" by simp
  then have "n * 1024 ^ k < 2 ^ 1024" using assms(3) by (rule less_trans [rotated])
  ultimately show ?thesis
    by (simp only: parse_byte_size_unit [OF _ assms(2)] parse_int_double_of_nat [OF assms(3)] of_int_of_nat_eq)
qed

theorem parse_byte_size_roundtrip_witness:
  "parse_byte_size ''15KiB'' = Inr (Some 15360)"
  using parse_byte_size_roundtrip [of 1 15]
  by (simp add: size_units_def show_nat.simps dec_digit_def)

text \<open>From \<open>10 ^ 21\<close> bytes up, the reader sees only the leading digit of the number's
  exponent form: one yobibyte is read as a single byte, and a column of sizes puts it before two
  bytes. A number of 54 binary digits loses the last one.\<close>

theorem parse_byte_size_yobibyte:
  "parse_byte_size ''1YiB'' = Inr (Some 1)
   \<and> sort_byte ''1YiB'' ''2B'' = Inr (Some (- 1))
   \<and> parse_byte_size ''9007199254740993B'' = Inr (Some 9007199254740992)"
proof -
  have "shortest_digits (1024 ^ 8) = 12089258196146292" by code_simp
  moreover have "first_digit 12089258196146292 = 1" by code_simp
  ultimately have "parse_int_double (1024 ^ 8) = 1" by (simp add: parse_int_double_def)
  then have 1: "parse_byte_size ''1YiB'' = Inr (Some 1)"
    using parse_byte_size_unit [of 8 1] by (simp add: size_units_def show_nat.simps dec_digit_def)
  moreover have "parse_byte_size ''2B'' = Inr (Some 2)"
    using parse_byte_size_unit [of 0 2] parse_int_double_of_nat [of 2]
    by (simp add: size_units_def show_nat.simps dec_digit_def)
  moreover have "parse_byte_size ''9007199254740993B'' = Inr (Some 9007199254740992)"
  proof -
    have "nearest 9007199254740993 = 9007199254740992" by code_simp
    then have "js_finite 9007199254740993 = Some 9007199254740992" by (simp add: js_finite_def js_double_def Let_def infinite_def)
    moreover have "parse_int_double 9007199254740992 = 9007199254740992" using parse_int_double_of_nat [of 9007199254740992] by simp
    moreover have "show_nat 9007199254740993 = ''9007199254740993''" by (simp add: show_nat.simps dec_digit_def)
    ultimately show ?thesis
      using parse_byte_size_product [of 0 9007199254740993] by (simp add: size_units_def product_def)
  qed
  ultimately show ?thesis by (simp add: sort_byte_def)
qed

end
