(* ===== verification/Mimosa.thy ===== *)
theory Mimosa
  imports Hefur_Prelude "HOL-Library.Word"
begin

text \<open>
  The containers of the mimosa library that the tracker uses. Mimosa is a submodule whose sources
  are not part of the repository, so its operations are parameters: records of functions over
  abstract container types, with the documented behaviour the tracker relies on as the laws of the
  locales \<open>trie_laws\<close> and \<open>dlist_laws\<close>. The association list and the plain list at the end
  are reference instances: they show that the laws can hold together and let concrete runs be
  evaluated.
\<close>

type_synonym byte = "8 word"
type_synonym bytes = "byte list"

section \<open>m::Trie\<close>

text \<open>\<^verbatim>\<open>Trie<T, key>\<close>: an index of pointers by a key that is computed from the pointee.
  \<^verbatim>\<open>insert\<close> keeps an entry that is already there, \<^verbatim>\<open>find\<close> gives a null pointer for an unknown
  key, \<^verbatim>\<open>foreach\<close> visits every entry once.\<close>

record ('k, 'v, 't) trie_ops =
  tr_empty :: 't
  tr_find :: "'t \<Rightarrow> 'k \<Rightarrow> 'v option"
  tr_insert :: "'k \<Rightarrow> 'v \<Rightarrow> 't \<Rightarrow> 't"
  tr_erase :: "'k \<Rightarrow> 't \<Rightarrow> 't"
  tr_values :: "'t \<Rightarrow> 'v list"

locale trie_laws =
  fixes T :: "('k, 'v, 't) trie_ops"
  assumes find_empty: "tr_find T (tr_empty T) k = None"
    and find_insert: "tr_find T (tr_insert T k v t) k' =
      (if k' = k then Some (case tr_find T t k of None \<Rightarrow> v | Some w \<Rightarrow> w) else tr_find T t k')"
    and find_erase: "tr_find T (tr_erase T k t) k' = (if k' = k then None else tr_find T t k')"
    and set_values: "v \<in> set (tr_values T t) \<longleftrightarrow> (\<exists>k. tr_find T t k = Some v)"
begin

lemmas trie_specs = find_empty find_insert find_erase set_values

lemma find_insert_new: "tr_find T t k = None \<Longrightarrow> tr_find T (tr_insert T k v t) = (tr_find T t)(k \<mapsto> v)"
  by (auto simp: fun_eq_iff find_insert)

lemma find_insert_old:
  "tr_find T t k = Some w \<Longrightarrow> tr_find T (tr_insert T k v t) = tr_find T t"
  by (auto simp: fun_eq_iff find_insert)

end

section \<open>m::IntrusiveDList\<close>

text \<open>\<^verbatim>\<open>IntrusiveDList\<close>: a doubly linked list whose links are stored in the elements. An element
  is in the list at most once, and only an element of the list may be erased.\<close>

record ('a, 'd) dlist_ops =
  dl_nil :: 'd
  dl_empty :: "'d \<Rightarrow> bool"
  dl_front :: "'d \<Rightarrow> 'a"
  dl_erase :: "'a \<Rightarrow> 'd \<Rightarrow> 'd"
  dl_pushBack :: "'a \<Rightarrow> 'd \<Rightarrow> 'd"
  dl_list :: "'d \<Rightarrow> 'a list"

locale dlist_laws =
  fixes D :: "('a, 'd) dlist_ops"
  assumes list_nil: "dl_list D (dl_nil D) = []"
    and list_empty: "dl_empty D d \<longleftrightarrow> dl_list D d = []"
    and list_front: "dl_list D d \<noteq> [] \<Longrightarrow> dl_front D d = hd (dl_list D d)"
    and list_erase: "distinct (dl_list D d) \<Longrightarrow> x \<in> set (dl_list D d) \<Longrightarrow>
      dl_list D (dl_erase D x d) = remove1 x (dl_list D d)"
    and list_pushBack: "x \<notin> set (dl_list D d) \<Longrightarrow> dl_list D (dl_pushBack D x d) = dl_list D d @ [x]"
begin

lemmas dlist_specs = list_nil list_empty list_front list_erase list_pushBack

end

section \<open>Reference instances\<close>

definition alist_insert :: "'k \<Rightarrow> 'v \<Rightarrow> ('k \<times> 'v) list \<Rightarrow> ('k \<times> 'v) list" where
  "alist_insert k v t = (if map_of t k = None then (k, v) # t else t)"

definition ref_trie :: "('k, 'v, ('k \<times> 'v) list) trie_ops" where
  "ref_trie = \<lparr>tr_empty = [], tr_find = map_of, tr_insert = alist_insert,
     tr_erase = (\<lambda>k. filter (\<lambda>e. fst e \<noteq> k)),
     tr_values = (\<lambda>t. map snd (filter (\<lambda>e. map_of t (fst e) = Some (snd e)) t))\<rparr>"

definition ref_dlist :: "('a, 'a list) dlist_ops" where
  "ref_dlist = \<lparr>dl_nil = [], dl_empty = (\<lambda>d. d = []), dl_front = hd, dl_erase = remove1,
     dl_pushBack = (\<lambda>x d. d @ [x]), dl_list = (\<lambda>d. d)\<rparr>"

lemma map_of_filter_ne: "map_of (filter (\<lambda>e. fst e \<noteq> k) t) k' = (if k' = k then None else map_of t k')"
  by (induction t) auto

interpretation ref_trie: trie_laws "ref_trie :: ('k, 'v, ('k \<times> 'v) list) trie_ops"
proof
  fix v :: 'v and t :: "('k \<times> 'v) list"
  show "v \<in> set (tr_values ref_trie t) \<longleftrightarrow> (\<exists>k. tr_find ref_trie t k = Some v)"
    by (force simp: ref_trie_def dest: map_of_SomeD)
qed (auto simp: ref_trie_def alist_insert_def map_of_filter_ne split: option.splits)

interpretation ref_dlist: dlist_laws "ref_dlist :: ('a, 'a list) dlist_ops"
  by unfold_locales (simp_all add: ref_dlist_def)

end
