(* ===== verification/Address.thy ===== *)
theory Address
  imports Mimosa
begin

text \<open>
  Peer addresses (\<^verbatim>\<open>hefur/address.cc\<close>, \<^verbatim>\<open>address.hh\<close>, \<^verbatim>\<open>address.hxx\<close>) and info hashes
  (\<^verbatim>\<open>hefur/info-hash.cc\<close>, \<^verbatim>\<open>info-hash.hh\<close>). The union of the class is kept as its eighteen
  bytes of storage: \<^verbatim>\<open>in_\<close> overlays the first six (four of address, two of port), \<^verbatim>\<open>in6_\<close> all of
  them (sixteen and two). Ports are stored in network byte order.
\<close>

section \<open>Byte order\<close>

definition htons :: "16 word \<Rightarrow> bytes" where
  "htons w = [ucast (drop_bit 8 w), ucast w]"

definition ntohs :: "bytes \<Rightarrow> 16 word" where
  "ntohs bs = (case bs of [a, b] \<Rightarrow> or (push_bit 8 (ucast a)) (ucast b) | _ \<Rightarrow> 0)"

lemma length_htons [simp]: "length (htons w) = 2"
  by (simp add: htons_def)

lemma ntohs_htons [simp]: "ntohs (htons w) = w"
proof -
  have "or (push_bit 8 (ucast (ucast (drop_bit 8 w) :: byte))) (ucast (ucast w :: byte)) = w"
    by (rule bit_eqI) (auto simp: bit_simps)
  then show ?thesis by (simp add: htons_def ntohs_def)
qed

section \<open>Address\<close>

datatype family = AF_UNSPEC | AF_INET | AF_INET6 | AF_OTHER

record address =
  a_family :: family
  a_store :: bytes

datatype sockaddr =
    Sockaddr_in (sin_port: bytes) (sin_addr: bytes)
  | Sockaddr_in6 (sin6_port: bytes) (sin6_addr: bytes)
  | Sockaddr_other

text \<open>The sizes the system headers fix: four and sixteen address bytes, two port bytes.\<close>

fun sockaddr_ok :: "sockaddr \<Rightarrow> bool" where
  "sockaddr_ok (Sockaddr_in p a) = (length p = 2 \<and> length a = 4)"
| "sockaddr_ok (Sockaddr_in6 p a) = (length p = 2 \<and> length a = 16)"
| "sockaddr_ok Sockaddr_other = True"

definition address_ok :: "address \<Rightarrow> bool" where
  "address_ok a = (length (a_store a) = 18)"

definition in_addr :: "address \<Rightarrow> bytes" where "in_addr a = take 4 (a_store a)"
definition in_port :: "address \<Rightarrow> bytes" where "in_port a = take 2 (drop 4 (a_store a))"
definition in6_addr :: "address \<Rightarrow> bytes" where "in6_addr a = take 16 (a_store a)"
definition in6_port :: "address \<Rightarrow> bytes" where "in6_port a = take 2 (drop 16 (a_store a))"

definition set_in :: "bytes \<Rightarrow> bytes \<Rightarrow> address \<Rightarrow> address" where
  "set_in ip port a = a\<lparr>a_family := AF_INET, a_store := ip @ port @ drop 6 (a_store a)\<rparr>"

definition set_in6 :: "bytes \<Rightarrow> bytes \<Rightarrow> address \<Rightarrow> address" where
  "set_in6 ip port a = a\<lparr>a_family := AF_INET6, a_store := ip @ port\<rparr>"

text \<open>\<^verbatim>\<open>Address()\<close> sets the family only; the union keeps what the memory held.\<close>

definition Address_new :: "bytes \<Rightarrow> address" where
  "Address_new junk = \<lparr>a_family = AF_UNSPEC, a_store = junk\<rparr>"

definition Address_eq :: "address \<Rightarrow> address \<Rightarrow> bool" where
  "Address_eq a b =
     (if a_family a \<noteq> a_family b then False
      else case a_family a of
             AF_INET \<Rightarrow> take 6 (a_store a) = take 6 (a_store b)
           | AF_INET6 \<Rightarrow> take 18 (a_store a) = take 18 (a_store b)
           | _ \<Rightarrow> False)"

definition key :: "address \<Rightarrow> bytes" where
  "key a = (if a_family a = AF_INET then take 6 (a_store a) else take 18 (a_store a))"

definition port :: "address \<Rightarrow> 16 word" where
  "port a = (case a_family a of
      AF_INET \<Rightarrow> ntohs (in_port a)
    | AF_INET6 \<Rightarrow> ntohs (in6_port a)
    | _ \<Rightarrow> 0)"

definition setPort :: "16 word \<Rightarrow> address \<Rightarrow> address" where
  "setPort p a = (case a_family a of
      AF_INET \<Rightarrow> a\<lparr>a_store := take 4 (a_store a) @ htons p @ drop 6 (a_store a)\<rparr>
    | AF_INET6 \<Rightarrow> a\<lparr>a_store := take 16 (a_store a) @ htons p\<rparr>
    | _ \<Rightarrow> a)"

definition v4_mapped :: "bytes \<Rightarrow> bool" where
  "v4_mapped ip = (take 12 ip = replicate 10 0 @ [255, 255])"

definition assign_in6 :: "bytes \<Rightarrow> bytes \<Rightarrow> address \<Rightarrow> address" where
  "assign_in6 p ip a = (if \<not> v4_mapped ip then set_in6 ip p a else set_in (drop 12 ip) p a)"

text \<open>\<^verbatim>\<open>operator=(const struct sockaddr *)\<close>; a null pointer changes nothing.\<close>

definition assign :: "sockaddr option \<Rightarrow> address \<Rightarrow> address" where
  "assign sa a = (case sa of
      None \<Rightarrow> a
    | Some (Sockaddr_in p ip) \<Rightarrow> set_in ip p a
    | Some (Sockaddr_in6 p ip) \<Rightarrow> assign_in6 p ip a
    | Some Sockaddr_other \<Rightarrow> a\<lparr>a_family := AF_UNSPEC\<rparr>)"

section \<open>InfoHash\<close>

datatype hash_type = NONE | SHA1 | SHA256

record info_hash =
  ih_type :: hash_type
  ih_bytes :: bytes

definition hashSize :: "hash_type \<Rightarrow> nat" where
  "hashSize t = (case t of SHA1 \<Rightarrow> 20 | SHA256 \<Rightarrow> 32 | NONE \<Rightarrow> 0)"

definition isValidHashSize :: "int \<Rightarrow> bool" where
  "isValidHashSize n = (n = 20 \<or> n = 32)"

definition InfoHash_default :: info_hash where
  "InfoHash_default = \<lparr>ih_type = NONE, ih_bytes = replicate 32 0\<rparr>"

definition InfoHash_new :: "hash_type \<Rightarrow> bytes \<Rightarrow> info_hash" where
  "InfoHash_new t data =
     \<lparr>ih_type = t, ih_bytes = take (hashSize t) data @ drop (hashSize t) (replicate 32 0)\<rparr>"

definition hash_bytes :: "info_hash \<Rightarrow> bytes" where
  "hash_bytes h = take (hashSize (ih_type h)) (ih_bytes h)"

definition InfoHash_eq :: "info_hash \<Rightarrow> info_hash \<Rightarrow> bool" where
  "InfoHash_eq a b = (if ih_type a \<noteq> ih_type b then False else hash_bytes a = hash_bytes b)"

section \<open>Facts about addresses\<close>

lemma setPort_family [simp]: "a_family (setPort p a) = a_family a"
  by (simp add: setPort_def split: family.split)

lemma address_ok_assign:
  "address_ok a \<Longrightarrow> (\<And>s. sa = Some s \<Longrightarrow> sockaddr_ok s) \<Longrightarrow> address_ok (assign sa a)"
  by (auto simp: address_ok_def assign_def set_in_def set_in6_def assign_in6_def
      split: option.splits sockaddr.splits)

lemma address_ok_setPort: "address_ok a \<Longrightarrow> address_ok (setPort p a)"
  by (simp add: address_ok_def setPort_def split: family.splits)

lemma port_setPort:
  "address_ok a \<Longrightarrow> a_family a \<in> {AF_INET, AF_INET6} \<Longrightarrow> port (setPort p a) = p"
  by (auto simp: address_ok_def setPort_def port_def in_port_def in6_port_def)

lemma key_length:
  "address_ok a \<Longrightarrow> length (key a) = (if a_family a = AF_INET then 6 else 18)"
  by (simp add: address_ok_def key_def)

lemma Address_eq_refl: "a_family a \<in> {AF_INET, AF_INET6} \<Longrightarrow> Address_eq a a"
  by (auto simp: Address_eq_def)

lemma Address_eq_key:
  assumes "address_ok a" and "address_ok b"
    and "a_family a \<in> {AF_INET, AF_INET6}" and "a_family b \<in> {AF_INET, AF_INET6}"
  shows "Address_eq a b \<longleftrightarrow> key a = key b"
proof (cases "a_family a = a_family b")
  case True
  then show ?thesis using assms by (auto simp: Address_eq_def key_def)
next
  case False
  then have "length (key a) \<noteq> length (key b)" using assms by (auto simp: key_length)
  then show ?thesis using False by (auto simp: Address_eq_def)
qed

text \<open>The trie key of an address identifies it: two internet addresses compare equal exactly
  when their keys are the same bytes, although the family is not part of the key; and a peer seen
  through an IPv4-mapped IPv6 socket gets the key of the plain IPv4 address.\<close>

theorem address_key_identifies:
  assumes "address_ok a" and "address_ok b"
    and "a_family a \<in> {AF_INET, AF_INET6}" and "a_family b \<in> {AF_INET, AF_INET6}"
    and "length ip = 4" and "length p = 2"
  shows "(Address_eq a b \<longleftrightarrow> key a = key b)
    \<and> key (assign (Some (Sockaddr_in6 p (replicate 10 0 @ [255, 255] @ ip))) a)
      = key (assign (Some (Sockaddr_in p ip)) b)"
  using Address_eq_key [OF assms(1-4)] assms(5,6)
  by (simp add: assign_def assign_in6_def v4_mapped_def set_in_def key_def)

theorem address_key_identifies_witness:
  "\<exists>a b. key (assign (Some (Sockaddr_in6 [26, 225] (replicate 10 0 @ [255, 255] @ [10, 0, 0, 1]))) a)
      = key (assign (Some (Sockaddr_in [26, 225] [10, 0, 0, 1])) b) \<and> (Address_eq a b \<longleftrightarrow> key a = key b)"
  using address_key_identifies [of "\<lparr>a_family = AF_INET, a_store = replicate 18 0\<rparr>"
      "\<lparr>a_family = AF_INET6, a_store = replicate 18 1\<rparr>" "[10, 0, 0, 1]" "[26, 225]"]
  by (auto simp: address_ok_def)

lemma length_hash_bytes:
  "length (ih_bytes h) = 32 \<Longrightarrow> length (hash_bytes h) = hashSize (ih_type h)"
  by (simp add: hash_bytes_def hashSize_def split: hash_type.splits)

end
