(* ===== verification/Torrent.thy ===== *)
theory Torrent
  imports Address "HOL-Library.Monad_Syntax"
begin

text \<open>
  One torrent and its peers: \<^verbatim>\<open>hefur/torrent.cc\<close>, \<^verbatim>\<open>torrent.hh\<close>, \<^verbatim>\<open>peer.hh\<close>, the announce
  request and response structures, and the options they read (\<^verbatim>\<open>options.cc\<close>). A \<^verbatim>\<open>Peer *\<close> is an
  address of the torrent's part of the heap, shared by the timeout list and by the index; an
  operation that follows a dangling pointer has no result (\<open>None\<close>). The clock is an argument of
  every operation that reads it.
\<close>

section \<open>Options and messages\<close>

record options =
  MAX_PEERS :: "32 word"
  MAX_NUMWANT :: "32 word"
  MIN_NUMWANT :: "32 word"
  ANNOUNCE_INTERVAL :: "32 word"
  SCRAPE_INTERVAL :: "32 word"
  ALLOW_PROXY :: bool

definition default_options :: options where
  "default_options = \<lparr>MAX_PEERS = 1024, MAX_NUMWANT = 100, MIN_NUMWANT = 50,
     ANNOUNCE_INTERVAL = 15, SCRAPE_INTERVAL = 15, ALLOW_PROXY = False\<rparr>"

datatype event = kNone | kStarted | kCompleted | kStopped

definition parseEvent :: "string \<Rightarrow> event" where
  "parseEvent str =
     (let lower = (\<lambda>c. if of_char c \<in> {65..90 :: nat} then char_of (of_char c + 32 :: nat) else c);
          s = map lower (takeWhile (\<lambda>c. of_char c \<noteq> (0 :: nat)) str)
      in if s = ''started'' then kStarted
         else if s = ''completed'' then kCompleted
         else if s = ''stopped'' then kStopped else kNone)"

record announce_request =
  rq_peerid :: bytes
  rq_info_hash :: info_hash
  rq_num_want :: "32 word"
  rq_event :: event
  rq_downloaded :: "64 word"
  rq_uploaded :: "64 word"
  rq_left :: "64 word"
  rq_addr :: address
  rq_skip_ipv6 :: bool

text \<open>A field the code leaves uninitialised is \<open>None\<close>.\<close>

record announce_response =
  rp_error :: bool
  rp_error_msg :: string
  rp_nleechers :: "32 word option"
  rp_nseeders :: "32 word option"
  rp_ncompleted :: "32 word option"
  rp_interval :: "32 word option"
  rp_addrs :: "address list"

section \<open>State\<close>

record peer =
  p_addr :: address
  p_left :: "64 word"
  p_downloaded :: "64 word"
  p_uploaded :: "64 word"
  p_timeout_ts :: int
  p_peerid :: bytes

record ('d, 'i) torrent =
  t_info_hash :: info_hash
  t_name :: string
  t_path :: string
  t_length :: "64 word"
  t_timeouts :: 'd
  t_peers :: 'i
  t_leechers :: "32 word"
  t_seeders :: "32 word"
  t_completed :: "32 word"
  t_heap :: "nat \<Rightarrow> peer option"
  t_fresh :: nat

text \<open>The library the class is built on: the timeout list, the peer index, and the length of a
  minute on its clock.\<close>

record ('d, 'i) mimosa =
  m_dl :: "(nat, 'd) dlist_ops"
  m_ix :: "(bytes, nat, 'i) trie_ops"
  m_minute :: int

section \<open>Operations\<close>

definition Torrent_new ::
  "('d, 'i) mimosa \<Rightarrow> info_hash \<Rightarrow> string \<Rightarrow> string \<Rightarrow> 64 word \<Rightarrow> ('d, 'i) torrent" where
  "Torrent_new M h name path len =
     \<lparr>t_info_hash = h, t_name = name, t_path = path, t_length = len,
      t_timeouts = dl_nil (m_dl M), t_peers = tr_empty (m_ix M),
      t_leechers = 0, t_seeders = 0, t_completed = 0, t_heap = (\<lambda>_. None), t_fresh = 0\<rparr>"

definition removePeer :: "('d, 'i) mimosa \<Rightarrow> nat \<Rightarrow> ('d, 'i) torrent \<Rightarrow> ('d, 'i) torrent option" where
  "removePeer M p t =
     (case t_heap t p of
        None \<Rightarrow> None
      | Some pr \<Rightarrow>
          (let t1 = (if p_left pr = 0 then t\<lparr>t_seeders := t_seeders t - 1\<rparr>
                     else t\<lparr>t_leechers := t_leechers t - 1\<rparr>);
               t2 = t1\<lparr>t_timeouts := dl_erase (m_dl M) p (t_timeouts t1)\<rparr>;
               t3 = t2\<lparr>t_peers := tr_erase (m_ix M) (key (p_addr pr)) (t_peers t2)\<rparr>
           in Some (t3\<lparr>t_heap := (t_heap t3)(p := None)\<rparr>)))"

definition updateTimeout ::
  "('d, 'i) mimosa \<Rightarrow> options \<Rightarrow> int \<Rightarrow> nat \<Rightarrow> bool \<Rightarrow> ('d, 'i) torrent \<Rightarrow> ('d, 'i) torrent option" where
  "updateTimeout M opt now p remove t =
     (case t_heap t p of
        None \<Rightarrow> None
      | Some pr \<Rightarrow>
          (let t1 = (if remove then t\<lparr>t_timeouts := dl_erase (m_dl M) p (t_timeouts t)\<rparr> else t);
               ts = now + m_minute M * uint (ANNOUNCE_INTERVAL opt + 5);
               t2 = t1\<lparr>t_heap := (t_heap t1)(p \<mapsto> pr\<lparr>p_timeout_ts := ts\<rparr>)\<rparr>
           in Some (t2\<lparr>t_timeouts := dl_pushBack (m_dl M) p (t_timeouts t2)\<rparr>)))"

text \<open>The fields of the request copied into the peer; the timeout stays as it was.\<close>

definition fill_peer :: "announce_request \<Rightarrow> peer \<Rightarrow> peer" where
  "fill_peer rq pr = pr\<lparr>p_left := rq_left rq, p_downloaded := rq_downloaded rq,
     p_uploaded := rq_uploaded rq, p_addr := rq_addr rq, p_peerid := rq_peerid rq\<rparr>"

definition Peer_default :: peer where
  "Peer_default = \<lparr>p_addr = Address_new (replicate 18 0), p_left = 0, p_downloaded = 0,
     p_uploaded = 0, p_timeout_ts = 0, p_peerid = replicate 20 0\<rparr>"

definition createOrUpdatePeer ::
  "('d, 'i) mimosa \<Rightarrow> options \<Rightarrow> int \<Rightarrow> announce_request \<Rightarrow> nat option \<Rightarrow> ('d, 'i) torrent
   \<Rightarrow> (nat \<times> ('d, 'i) torrent) option" where
  "createOrUpdatePeer M opt now rq peer t =
     do {
       t1 \<leftarrow> (case peer of
                None \<Rightarrow> Some t
              | Some p \<Rightarrow> (case t_heap t p of
                  None \<Rightarrow> None
                | Some pr \<Rightarrow> Some (if p_left pr = 0 then t\<lparr>t_seeders := t_seeders t - 1\<rparr>
                                   else t\<lparr>t_leechers := t_leechers t - 1\<rparr>)));
       let (p, t2) = (case peer of
                Some p \<Rightarrow> (p, t1)
              | None \<Rightarrow> (t_fresh t1, t1\<lparr>t_heap := (t_heap t1)(t_fresh t1 \<mapsto> Peer_default),
                                         t_fresh := Suc (t_fresh t1)\<rparr>));
       pr \<leftarrow> t_heap t2 p;
       let pr' = fill_peer rq pr;
       let t3 = t2\<lparr>t_heap := (t_heap t2)(p \<mapsto> pr')\<rparr>;
       let t4 = (if p_left pr' = 0 then t3\<lparr>t_seeders := t_seeders t3 + 1\<rparr>
                 else t3\<lparr>t_leechers := t_leechers t3 + 1\<rparr>);
       let t5 = (if peer = None
                 then t4\<lparr>t_peers := tr_insert (m_ix M) (key (p_addr pr')) p (t_peers t4)\<rparr>
                 else t4);
       t6 \<leftarrow> updateTimeout M opt now p (peer \<noteq> None) t5;
       Some (p, t6)
     }"

text \<open>\<^verbatim>\<open>std::clamp<int>\<close> on unsigned arguments: they are read as signed 32-bit values.\<close>

definition clamp_int :: "32 word \<Rightarrow> 32 word \<Rightarrow> 32 word \<Rightarrow> 32 word" where
  "clamp_int v lo hi = (if sint v < sint lo then lo else if sint hi < sint v then hi else v)"

definition skip_peer :: "announce_request \<Rightarrow> peer \<Rightarrow> bool" where
  "skip_peer rq pr =
     ((a_family (rq_addr rq) = AF_INET \<or> rq_skip_ipv6 rq) \<and> a_family (p_addr pr) = AF_INET6
      \<or> p_peerid pr = rq_peerid rq \<or> Address_eq (rq_addr rq) (p_addr pr))"

text \<open>The loop over the timeout list from its back, until enough addresses are collected.\<close>

fun select_addrs ::
  "(nat \<Rightarrow> peer option) \<Rightarrow> announce_request \<Rightarrow> nat \<Rightarrow> nat list \<Rightarrow> address list \<Rightarrow> address list option" where
  "select_addrs h rq n [] addrs = Some addrs"
| "select_addrs h rq n (p # ps) addrs =
     (if length addrs \<ge> n then Some addrs
      else case h p of
             None \<Rightarrow> None
           | Some pr \<Rightarrow> if skip_peer rq pr then select_addrs h rq n ps addrs
                        else select_addrs h rq n ps (addrs @ [p_addr pr]))"

definition announce ::
  "('d, 'i) mimosa \<Rightarrow> options \<Rightarrow> int \<Rightarrow> announce_request \<Rightarrow> ('d, 'i) torrent
   \<Rightarrow> (('d, 'i) torrent \<times> announce_response) option" where
  "announce M opt now rq t =
     (let rp = \<lparr>rp_error = False, rp_error_msg = [], rp_nleechers = Some (t_leechers t),
                rp_nseeders = Some (t_seeders t), rp_ncompleted = Some (t_completed t),
                rp_interval = None, rp_addrs = []\<rparr>;
          peer = tr_find (m_ix M) (t_peers t) (key (rq_addr rq))
      in do {
        left \<leftarrow> (case peer of None \<Rightarrow> Some None | Some p \<Rightarrow> map_option (Some \<circ> p_left) (t_heap t p));
        let t1 = (if (case left of None \<Rightarrow> False | Some l \<Rightarrow> l > 0)
                     \<and> rq_left rq = 0 \<and> rq_event rq = kCompleted
                  then t\<lparr>t_completed := t_completed t + 1\<rparr> else t);
        if rq_event rq = kStopped
        then (case peer of
                None \<Rightarrow> Some (t1, rp)
              | Some p \<Rightarrow> do { t2 \<leftarrow> removePeer M p t1; Some (t2, rp) })
        else do {
          (p, t2) \<leftarrow> createOrUpdatePeer M opt now rq peer t1;
          let num_want = clamp_int (rq_num_want rq) (MIN_NUMWANT opt) (MAX_NUMWANT opt);
          addrs \<leftarrow> select_addrs (t_heap t2) rq (unat num_want) (rev (dl_list (m_dl M) (t_timeouts t2))) [];
          t3 \<leftarrow> (if t_leechers t2 + t_seeders t2 > MAX_PEERS opt
                 then removePeer M (dl_front (m_dl M) (t_timeouts t2)) t2 else Some t2);
          Some (t3, rp\<lparr>rp_addrs := addrs\<rparr>)
        }
      })"

text \<open>\<^verbatim>\<open>Torrent::cleanup\<close>: the loop may read a dangling pointer or, for all its code shows, never
  end; both are \<open>None\<close> here.\<close>

partial_function (option) cleanup ::
  "('d, 'i) mimosa \<Rightarrow> int \<Rightarrow> ('d, 'i) torrent \<Rightarrow> ('d, 'i) torrent option" where
  "cleanup M now t =
     (if dl_empty (m_dl M) (t_timeouts t) then Some t
      else Option.bind (t_heap t (dl_front (m_dl M) (t_timeouts t)))
        (\<lambda>pr. if p_timeout_ts pr > now then Some t
              else Option.bind (removePeer M (dl_front (m_dl M) (t_timeouts t)) t) (cleanup M now)))"

declare cleanup.simps [code]

text \<open>\<^verbatim>\<open>Torrent::version\<close>; the other type of hash ends the process.\<close>

definition version :: "('d, 'i) torrent \<Rightarrow> int option" where
  "version t = (case ih_type (t_info_hash t) of SHA1 \<Rightarrow> Some 1 | SHA256 \<Rightarrow> Some 2 | NONE \<Rightarrow> None)"

definition Torrent_key :: "('d, 'i) torrent \<Rightarrow> bytes" where
  "Torrent_key t = hash_bytes (t_info_hash t)"

section \<open>Well-formed torrents\<close>

named_theorems torrent_simps \<open>how the operations change the parts of a torrent\<close>

definition peer_ids :: "('d, 'i) mimosa \<Rightarrow> ('d, 'i) torrent \<Rightarrow> nat list" where
  "peer_ids M t = dl_list (m_dl M) (t_timeouts t)"

definition peer_at :: "('d, 'i) torrent \<Rightarrow> nat \<Rightarrow> peer" where
  "peer_at t p = the (t_heap t p)"

definition is_seeder :: "('d, 'i) torrent \<Rightarrow> nat \<Rightarrow> bool" where
  "is_seeder t p = (p_left (peer_at t p) = 0)"

text \<open>The list, the index and the heap hold the same peers, and the counters count them.\<close>

definition torrent_wf :: "('d, 'i) mimosa \<Rightarrow> ('d, 'i) torrent \<Rightarrow> bool" where
  "torrent_wf M t \<longleftrightarrow>
     distinct (peer_ids M t)
   \<and> (\<forall>p. t_heap t p \<noteq> None \<longleftrightarrow> p \<in> set (peer_ids M t))
   \<and> (\<forall>k p. tr_find (m_ix M) (t_peers t) k = Some p \<longleftrightarrow>
        p \<in> set (peer_ids M t) \<and> key (p_addr (peer_at t p)) = k)
   \<and> (\<forall>p \<in> set (peer_ids M t). p < t_fresh t)
   \<and> unat (t_seeders t) = length (filter (is_seeder t) (peer_ids M t))
   \<and> unat (t_leechers t) = length (filter (\<lambda>p. \<not> is_seeder t p) (peer_ids M t))"

text \<open>The list is in the order of the timeouts, and no timeout is further away than one interval.\<close>

definition deadline :: "('d, 'i) mimosa \<Rightarrow> options \<Rightarrow> int \<Rightarrow> int" where
  "deadline M opt now = now + m_minute M * uint (ANNOUNCE_INTERVAL opt + 5)"

definition torrent_timed :: "('d, 'i) mimosa \<Rightarrow> options \<Rightarrow> int \<Rightarrow> ('d, 'i) torrent \<Rightarrow> bool" where
  "torrent_timed M opt now t \<longleftrightarrow>
     sorted_wrt (\<lambda>p q. p_timeout_ts (peer_at t p) \<le> p_timeout_ts (peer_at t q)) (peer_ids M t)
   \<and> (\<forall>p \<in> set (peer_ids M t). p_timeout_ts (peer_at t p) \<le> deadline M opt now)"

definition torrent_inv :: "('d, 'i) mimosa \<Rightarrow> options \<Rightarrow> int \<Rightarrow> ('d, 'i) torrent \<Rightarrow> bool" where
  "torrent_inv M opt now t \<longleftrightarrow>
     torrent_wf M t \<and> torrent_timed M opt now t
   \<and> length (peer_ids M t) \<le> unat (MAX_PEERS opt)"

text \<open>What a client sees: the peer record an announce leaves, the first part of the answer, the
  addresses of an answer, and whether a completion is counted.\<close>

definition announced :: "('d, 'i) mimosa \<Rightarrow> options \<Rightarrow> int \<Rightarrow> announce_request \<Rightarrow> peer \<Rightarrow> peer" where
  "announced M opt now rq pr = (fill_peer rq pr)\<lparr>p_timeout_ts := deadline M opt now\<rparr>"

definition first_response :: "('d, 'i) torrent \<Rightarrow> announce_response" where
  "first_response t = \<lparr>rp_error = False, rp_error_msg = [], rp_nleechers = Some (t_leechers t),
     rp_nseeders = Some (t_seeders t), rp_ncompleted = Some (t_completed t), rp_interval = None, rp_addrs = []\<rparr>"

definition answer_addrs ::
  "('d, 'i) mimosa \<Rightarrow> options \<Rightarrow> announce_request \<Rightarrow> ('d, 'i) torrent \<Rightarrow> address list" where
  "answer_addrs M opt rq t =
     take (unat (clamp_int (rq_num_want rq) (MIN_NUMWANT opt) (MAX_NUMWANT opt)))
       (map p_addr (filter (\<lambda>pr. \<not> skip_peer rq pr) (map (peer_at t) (rev (peer_ids M t)))))"

definition bump_completed :: "('d, 'i) mimosa \<Rightarrow> announce_request \<Rightarrow> ('d, 'i) torrent \<Rightarrow> bool" where
  "bump_completed M rq t =
     (case tr_find (m_ix M) (t_peers t) (key (rq_addr rq)) of
        None \<Rightarrow> False | Some p \<Rightarrow> \<not> is_seeder t p)"

definition before_peer :: "('d, 'i) mimosa \<Rightarrow> announce_request \<Rightarrow> ('d, 'i) torrent \<Rightarrow> ('d, 'i) torrent" where
  "before_peer M rq t = (if bump_completed M rq t \<and> rq_left rq = 0 \<and> rq_event rq = kCompleted
     then t\<lparr>t_completed := t_completed t + 1\<rparr> else t)"

lemma length_filter_remove1:
  assumes "distinct xs" and "p \<in> set xs" and "\<And>q. q \<in> set xs \<Longrightarrow> q \<noteq> p \<Longrightarrow> Q' q = Q q"
  shows "length (filter Q' (remove1 p xs)) = length (filter Q xs) - (if Q p then 1 else 0)"
proof -
  have "filter Q' (remove1 p xs) = filter Q (remove1 p xs)"
    using assms by (intro filter_cong refl) (simp add: set_remove1_eq)
  then show ?thesis using assms(2) by (auto simp: filter_remove1 length_remove1)
qed

lemma unat_dec: "x \<noteq> 0 \<Longrightarrow> unat (x - 1) = unat x - 1" for x :: "32 word"
  by (rule unat_minus_one)

lemma unat_inc: "unat x + 1 < 2 ^ 32 \<Longrightarrow> unat (x + 1) = unat x + 1" for x :: "32 word"
  by (simp add: unat_word_ariths)

lemma torrent_wfD:
  assumes "torrent_wf M t"
  shows "distinct (peer_ids M t)"
    and "t_heap t p \<noteq> None \<longleftrightarrow> p \<in> set (peer_ids M t)"
    and "tr_find (m_ix M) (t_peers t) k = Some p \<longleftrightarrow> p \<in> set (peer_ids M t) \<and> key (p_addr (peer_at t p)) = k"
    and "p \<in> set (peer_ids M t) \<Longrightarrow> p < t_fresh t"
    and "unat (t_seeders t) = length (filter (is_seeder t) (peer_ids M t))"
    and "unat (t_leechers t) = length (filter (\<lambda>p. \<not> is_seeder t p) (peer_ids M t))"
  using assms unfolding torrent_wf_def by blast+

lemma torrent_wf_heap: "torrent_wf M t \<Longrightarrow> p \<in> set (peer_ids M t) \<Longrightarrow> t_heap t p = Some (peer_at t p)"
  using torrent_wfD(2) [of M t p] by (auto simp: peer_at_def)

lemma torrent_wf_key_inj:
  "torrent_wf M t \<Longrightarrow> p \<in> set (peer_ids M t) \<Longrightarrow> q \<in> set (peer_ids M t) \<Longrightarrow>
   key (p_addr (peer_at t p)) = key (p_addr (peer_at t q)) \<Longrightarrow> p = q"
  using torrent_wfD(3) [of M t "key (p_addr (peer_at t p))"] by (metis option.inject)

lemma torrent_wf_seeder_pos:
  "torrent_wf M t \<Longrightarrow> p \<in> set (peer_ids M t) \<Longrightarrow> is_seeder t p \<Longrightarrow> t_seeders t \<noteq> 0"
  using torrent_wfD(5) [of M t] by (auto simp: unat_eq_zero [symmetric] filter_empty_conv)

lemma torrent_wf_leecher_pos:
  "torrent_wf M t \<Longrightarrow> p \<in> set (peer_ids M t) \<Longrightarrow> \<not> is_seeder t p \<Longrightarrow> t_leechers t \<noteq> 0"
  using torrent_wfD(6) [of M t] by (auto simp: unat_eq_zero [symmetric] filter_empty_conv)

lemma torrent_wf_count: "torrent_wf M t \<Longrightarrow> unat (t_leechers t) + unat (t_seeders t) = length (peer_ids M t)"
  using torrent_wfD(5,6) [of M t] sum_length_filter_compl [of "is_seeder t" "peer_ids M t"] by simp

section \<open>The operations under the laws of the library\<close>

locale mimosa_laws = dl: dlist_laws "m_dl M" + ix: trie_laws "m_ix M" for M :: "('d, 'i) mimosa" +
  assumes minute_nonneg: "0 \<le> m_minute M"
begin

lemma peer_ids_new: "peer_ids M (Torrent_new M h name path len) = []"
  by (simp add: peer_ids_def Torrent_new_def dl.list_nil)

lemma torrent_inv_new: "torrent_inv M opt now (Torrent_new M h name path len)"
  unfolding torrent_inv_def torrent_wf_def torrent_timed_def peer_ids_new
  by (simp add: Torrent_new_def ix.find_empty)

text \<open>\<^verbatim>\<open>removePeer\<close> on a peer of the torrent: what it leaves, field by field.\<close>

lemma removePeer_eqs:
  assumes wf: "torrent_wf M t" and p: "p \<in> set (peer_ids M t)" and t': "removePeer M p t = Some t'"
  shows "peer_ids M t' = remove1 p (peer_ids M t)" and "t_heap t' = (t_heap t)(p := None)"
    and "t_fresh t' = t_fresh t" and "t_completed t' = t_completed t"
    and "t_peers t' = tr_erase (m_ix M) (key (p_addr (peer_at t p))) (t_peers t)"
    and "t_seeders t' = (if is_seeder t p then t_seeders t - 1 else t_seeders t)"
    and "t_leechers t' = (if is_seeder t p then t_leechers t else t_leechers t - 1)"
    and "t_info_hash t' = t_info_hash t" and "t_path t' = t_path t"
  using t' torrent_wf_heap [OF wf p] torrent_wfD(1) [OF wf] p
  by (auto simp: removePeer_def Let_def peer_ids_def dl.list_erase is_seeder_def)

lemma removePeer_defined: "torrent_wf M t \<Longrightarrow> p \<in> set (peer_ids M t) \<Longrightarrow> \<exists>t'. removePeer M p t = Some t'"
  using torrent_wf_heap [of M t p] by (simp add: removePeer_def Let_def)

lemma removePeer_index:
  assumes wf: "torrent_wf M t" and p: "p \<in> set (peer_ids M t)" and t': "removePeer M p t = Some t'"
  shows "tr_find (m_ix M) (t_peers t') k = Some q \<longleftrightarrow>
    q \<in> set (remove1 p (peer_ids M t)) \<and> key (p_addr (peer_at t' q)) = k"
proof -
  note eqs = removePeer_eqs [OF wf p t']
  have at: "q \<noteq> p \<Longrightarrow> peer_at t' q = peer_at t q" by (simp add: peer_at_def eqs(2))
  have "q \<in> set (peer_ids M t) \<Longrightarrow> key (p_addr (peer_at t p)) = key (p_addr (peer_at t q)) \<Longrightarrow> q = p"
    using torrent_wf_key_inj [OF wf p, of q] by simp
  then show ?thesis
    using torrent_wfD(1) [OF wf] torrent_wfD(3) [OF wf, of k q] at
    by (cases "q = p") (auto simp: eqs(5) ix.find_erase set_remove1_eq)
qed

lemma removePeer_wf:
  assumes wf: "torrent_wf M t" and p: "p \<in> set (peer_ids M t)" and t': "removePeer M p t = Some t'"
  shows "torrent_wf M t'"
proof -
  note eqs = removePeer_eqs [OF wf p t']
  have seeder: "q \<noteq> p \<Longrightarrow> is_seeder t' q = is_seeder t q" for q by (simp add: is_seeder_def peer_at_def eqs(2))
  note cnt = length_filter_remove1 [OF torrent_wfD(1) [OF wf] p]
  show ?thesis
    unfolding torrent_wf_def eqs(1)
  proof (intro conjI allI ballI)
    show "distinct (remove1 p (peer_ids M t))" using torrent_wfD(1) [OF wf] by simp
    show "(t_heap t' q \<noteq> None) = (q \<in> set (remove1 p (peer_ids M t)))" for q
      using torrent_wfD(1,2) [OF wf] by (auto simp: eqs(2) set_remove1_eq)
    show "q < t_fresh t'" if "q \<in> set (remove1 p (peer_ids M t))" for q
      using that torrent_wfD(4) [OF wf] eqs(3) notin_set_remove1 by fastforce
    show "unat (t_seeders t') = length (filter (is_seeder t') (remove1 p (peer_ids M t)))"
      using cnt [of "is_seeder t'" "is_seeder t"] seeder torrent_wfD(5) [OF wf] torrent_wf_seeder_pos [OF wf p]
      by (simp add: eqs(6) unat_dec)
    show "unat (t_leechers t') = length (filter (\<lambda>q. \<not> is_seeder t' q) (remove1 p (peer_ids M t)))"
      using cnt [of "\<lambda>q. \<not> is_seeder t' q" "\<lambda>q. \<not> is_seeder t q"] seeder torrent_wfD(6) [OF wf]
        torrent_wf_leecher_pos [OF wf p]
      by (simp add: eqs(7) unat_dec)
  qed (use removePeer_index [OF wf p t'] in blast)
qed

lemma removePeer_timed:
  assumes wf: "torrent_wf M t" and p: "p \<in> set (peer_ids M t)" and t': "removePeer M p t = Some t'"
    and "torrent_timed M opt now t"
  shows "torrent_timed M opt now t'"
proof -
  note eqs = removePeer_eqs [OF wf p t']
  have at: "peer_at t' q = peer_at t q" if "q \<in> set (remove1 p (peer_ids M t))" for q
    using that torrent_wfD(1) [OF wf] by (auto simp: peer_at_def eqs(2))
  have "sorted_wrt (\<lambda>a b. p_timeout_ts (peer_at t a) \<le> p_timeout_ts (peer_at t b)) (remove1 p (peer_ids M t))"
    using assms(4) by (simp add: torrent_timed_def sorted_wrt_remove1)
  then have "sorted_wrt (\<lambda>a b. p_timeout_ts (peer_at t' a) \<le> p_timeout_ts (peer_at t' b)) (remove1 p (peer_ids M t))"
    by (rule sorted_wrt_mono_rel [rotated]) (simp add: at)
  moreover have "p_timeout_ts (peer_at t' q) \<le> deadline M opt now" if "q \<in> set (remove1 p (peer_ids M t))" for q
  proof -
    have "q \<in> set (peer_ids M t)" using that notin_set_remove1 by fast
    then show ?thesis using assms(4) that by (simp add: torrent_timed_def at)
  qed
  ultimately show ?thesis by (simp add: torrent_timed_def eqs(1))
qed

text \<open>\<^verbatim>\<open>createOrUpdatePeer\<close> for a peer that is not in the index, and for one that is.\<close>

lemma announced_sel [simp]:
  "p_addr (announced M opt now rq pr) = rq_addr rq" "p_left (announced M opt now rq pr) = rq_left rq"
  "p_timeout_ts (announced M opt now rq pr) = deadline M opt now"
  "p_peerid (announced M opt now rq pr) = rq_peerid rq"
  by (simp_all add: announced_def fill_peer_def)

lemma create_eq:
  "createOrUpdatePeer M opt now rq None t = Some (t_fresh t,
     t\<lparr>t_heap := (t_heap t)(t_fresh t \<mapsto> announced M opt now rq Peer_default), t_fresh := Suc (t_fresh t),
       t_seeders := (if rq_left rq = 0 then t_seeders t + 1 else t_seeders t),
       t_leechers := (if rq_left rq = 0 then t_leechers t else t_leechers t + 1),
       t_peers := tr_insert (m_ix M) (key (rq_addr rq)) (t_fresh t) (t_peers t),
       t_timeouts := dl_pushBack (m_dl M) (t_fresh t) (t_timeouts t)\<rparr>)"
  by (simp add: createOrUpdatePeer_def updateTimeout_def Let_def announced_def fill_peer_def deadline_def)

lemma update_eq:
  "t_heap t p = Some pr \<Longrightarrow> createOrUpdatePeer M opt now rq (Some p) t = Some (p,
     t\<lparr>t_heap := (t_heap t)(p \<mapsto> announced M opt now rq pr),
       t_seeders := (let s = (if p_left pr = 0 then t_seeders t - 1 else t_seeders t)
                     in if rq_left rq = 0 then s + 1 else s),
       t_leechers := (let l = (if p_left pr = 0 then t_leechers t else t_leechers t - 1)
                      in if rq_left rq = 0 then l else l + 1),
       t_timeouts := dl_pushBack (m_dl M) p (dl_erase (m_dl M) p (t_timeouts t))\<rparr>)"
  by (simp add: createOrUpdatePeer_def updateTimeout_def Let_def announced_def fill_peer_def deadline_def)

lemma create_wf:
  assumes wf: "torrent_wf M t" and new: "tr_find (m_ix M) (t_peers t) (key (rq_addr rq)) = None"
    and room: "length (peer_ids M t) + 1 < 2 ^ 32"
    and t': "createOrUpdatePeer M opt now rq None t = Some (p, t')"
  shows "torrent_wf M t'" and "p = t_fresh t" and "p \<notin> set (peer_ids M t)"
    and "peer_ids M t' = peer_ids M t @ [p]"
    and "t_heap t' = (t_heap t)(p \<mapsto> announced M opt now rq Peer_default)"
proof -
  show p: "p = t_fresh t" using t' by (simp add: create_eq)
  show notin: "p \<notin> set (peer_ids M t)" using torrent_wfD(4) [OF wf] p by blast
  show ids: "peer_ids M t' = peer_ids M t @ [p]"
    using t' notin by (auto simp: create_eq peer_ids_def dl.list_pushBack)
  show heap: "t_heap t' = (t_heap t)(p \<mapsto> announced M opt now rq Peer_default)"
    using t' by (auto simp: create_eq)
  have at: "peer_at t' q = (if q = p then announced M opt now rq Peer_default else peer_at t q)" for q
    by (simp add: peer_at_def heap)
  have seeder: "is_seeder t' q = (if q = p then rq_left rq = 0 else is_seeder t q)" for q
    by (simp add: is_seeder_def at)
  have filt: "filter (\<lambda>q. Q (is_seeder t' q)) (peer_ids M t) = filter (\<lambda>q. Q (is_seeder t q)) (peer_ids M t)" for Q
    using notin by (intro filter_cong) (auto simp: seeder)
  have key_new: "q \<in> set (peer_ids M t) \<Longrightarrow> key (p_addr (peer_at t q)) \<noteq> key (rq_addr rq)" for q
    using new torrent_wfD(3) [OF wf, of "key (rq_addr rq)" q] by auto
  have index: "tr_find (m_ix M) (t_peers t') = (tr_find (m_ix M) (t_peers t))(key (rq_addr rq) \<mapsto> p)"
    using t' by (auto simp: create_eq ix.find_insert_new [OF new])
  have room': "unat (t_seeders t) + 1 < 2 ^ 32" "unat (t_leechers t) + 1 < 2 ^ 32"
    using torrent_wf_count [OF wf] room by auto
  then have sd_unat: "unat (t_seeders t') = unat (t_seeders t) + (if rq_left rq = 0 then 1 else 0)"
    and lc_unat: "unat (t_leechers t') = unat (t_leechers t) + (if rq_left rq = 0 then 0 else 1)"
    using t' by (auto simp: create_eq unat_inc)
  show "torrent_wf M t'"
    unfolding torrent_wf_def ids
  proof (intro conjI allI ballI)
    show "distinct (peer_ids M t @ [p])" using torrent_wfD(1) [OF wf] notin by simp
    show "(t_heap t' q \<noteq> None) = (q \<in> set (peer_ids M t @ [p]))" for q
      using torrent_wfD(2) [OF wf, of q] by (auto simp: heap)
    show "(tr_find (m_ix M) (t_peers t') k = Some q) \<longleftrightarrow>
        q \<in> set (peer_ids M t @ [p]) \<and> key (p_addr (peer_at t' q)) = k" for k q
      using key_new [of q] torrent_wfD(3) [OF wf, of k q] notin
      by (auto simp: index at split: if_splits)
    show "q < t_fresh t'" if "q \<in> set (peer_ids M t @ [p])" for q
      using that torrent_wfD(4) [OF wf, of q] t' by (auto simp: create_eq)
    show "unat (t_seeders t') = length (filter (is_seeder t') (peer_ids M t @ [p]))"
      using filt [of "\<lambda>b. b"] torrent_wfD(5) [OF wf] by (simp add: sd_unat seeder [of p])
    show "unat (t_leechers t') = length (filter (\<lambda>q. \<not> is_seeder t' q) (peer_ids M t @ [p]))"
      using filt [of Not] torrent_wfD(6) [OF wf] by (simp add: lc_unat seeder [of p])
  qed
qed

lemma update_wf:
  assumes wf: "torrent_wf M t" and old: "tr_find (m_ix M) (t_peers t) (key (rq_addr rq)) = Some p"
    and room: "length (peer_ids M t) < 2 ^ 32"
    and t': "createOrUpdatePeer M opt now rq (Some p) t = Some (p', t')"
  shows "torrent_wf M t'" and "p' = p" and "p \<in> set (peer_ids M t)"
    and "peer_ids M t' = remove1 p (peer_ids M t) @ [p]"
    and "t_heap t' = (t_heap t)(p \<mapsto> announced M opt now rq (peer_at t p))"
proof -
  show p: "p \<in> set (peer_ids M t)" using torrent_wfD(3) [OF wf] old by blast
  have pkey: "key (p_addr (peer_at t p)) = key (rq_addr rq)" using torrent_wfD(3) [OF wf] old by blast
  note eq = update_eq [OF torrent_wf_heap [OF wf p], of opt now rq] and dist = torrent_wfD(1) [OF wf]
  show "p' = p" using t' eq by simp
  show ids: "peer_ids M t' = remove1 p (peer_ids M t) @ [p]"
    using t' eq p dist by (auto simp: peer_ids_def dl.list_pushBack dl.list_erase)
  show heap: "t_heap t' = (t_heap t)(p \<mapsto> announced M opt now rq (peer_at t p))"
    using t' eq by auto
  have at: "peer_at t' q = (if q = p then announced M opt now rq (peer_at t p) else peer_at t q)" for q
    by (simp add: peer_at_def heap)
  have seeder: "is_seeder t' q = (if q = p then rq_left rq = 0 else is_seeder t q)" for q
    by (simp add: is_seeder_def at)
  have cnt: "length (filter (\<lambda>q. Q (is_seeder t' q)) (remove1 p (peer_ids M t)))
      = length (filter (\<lambda>q. Q (is_seeder t q)) (peer_ids M t)) - (if Q (is_seeder t p) then 1 else 0)" for Q
    by (rule length_filter_remove1 [OF dist p]) (simp add: seeder)
  have small: "unat (t_seeders t) + unat (t_leechers t) < 2 ^ 32"
    using torrent_wf_count [OF wf] room by simp
  note pos = torrent_wf_seeder_pos [OF wf p] torrent_wf_leecher_pos [OF wf p]
  have sd_unat: "unat (t_seeders t') = unat (t_seeders t) - (if is_seeder t p then 1 else 0) + (if rq_left rq = 0 then 1 else 0)"
    and lc_unat: "unat (t_leechers t') = unat (t_leechers t) - (if is_seeder t p then 0 else 1) + (if rq_left rq = 0 then 0 else 1)"
    using t' eq pos small by (auto simp: Let_def is_seeder_def unat_inc unat_dec unat_eq_zero [symmetric])
  show "torrent_wf M t'"
    unfolding torrent_wf_def ids
  proof (intro conjI allI ballI)
    show "distinct (remove1 p (peer_ids M t) @ [p])" using dist by simp
    show "(t_heap t' q \<noteq> None) = (q \<in> set (remove1 p (peer_ids M t) @ [p]))" for q
      using torrent_wfD(2) [OF wf, of q] dist by (auto simp: heap)
    show "(tr_find (m_ix M) (t_peers t') k = Some q) \<longleftrightarrow>
        q \<in> set (remove1 p (peer_ids M t) @ [p]) \<and> key (p_addr (peer_at t' q)) = k" for k q
      using t' eq torrent_wfD(3) [OF wf, of k q] dist p pkey by (auto simp: at)
    show "q < t_fresh t'" if "q \<in> set (remove1 p (peer_ids M t) @ [p])" for q
      using that torrent_wfD(4) [OF wf, of q] t' eq p dist by auto
    show "unat (t_seeders t') = length (filter (is_seeder t') (remove1 p (peer_ids M t) @ [p]))"
      using cnt [of "\<lambda>b. b"] torrent_wfD(5) [OF wf] by (simp add: sd_unat seeder [of p])
    show "unat (t_leechers t') = length (filter (\<lambda>q. \<not> is_seeder t' q) (remove1 p (peer_ids M t) @ [p]))"
      using cnt [of Not] torrent_wfD(6) [OF wf] by (simp add: lc_unat seeder [of p])
  qed
qed

lemma touched_timed:
  assumes wf: "torrent_wf M t" and timed: "torrent_timed M opt now0 t" and "now0 \<le> now"
    and ids: "peer_ids M t' = remove1 p (peer_ids M t) @ [p]"
    and heap: "t_heap t' = (t_heap t)(p \<mapsto> announced M opt now rq pr)"
  shows "torrent_timed M opt now t'"
proof -
  let ?R = "\<lambda>s a b. p_timeout_ts (peer_at s a) \<le> p_timeout_ts (peer_at s b)"
  have at: "peer_at t' q = peer_at t q" if "q \<in> set (remove1 p (peer_ids M t))" for q
    using that torrent_wfD(1) [OF wf] by (auto simp: peer_at_def heap)
  have at_p: "p_timeout_ts (peer_at t' p) = deadline M opt now" by (simp add: peer_at_def heap)
  have le: "p_timeout_ts (peer_at t' q) \<le> deadline M opt now" if "q \<in> set (remove1 p (peer_ids M t))" for q
  proof -
    have "q \<in> set (peer_ids M t)" using that notin_set_remove1 by fast
    then show ?thesis using timed that \<open>now0 \<le> now\<close> by (force simp: torrent_timed_def at deadline_def)
  qed
  have "sorted_wrt (?R t) (remove1 p (peer_ids M t))"
    using timed by (simp add: torrent_timed_def sorted_wrt_remove1)
  then have "sorted_wrt (?R t') (remove1 p (peer_ids M t))"
    by (rule sorted_wrt_mono_rel [rotated]) (simp add: at)
  then show ?thesis using le at_p by (auto simp: torrent_timed_def ids sorted_wrt_append)
qed

text \<open>Both cases together: what an announce that is no stop does to the peers.\<close>

lemma touch_peer:
  assumes wf: "torrent_wf M t" and timed: "torrent_timed M opt now0 t" and "now0 \<le> now"
    and room: "length (peer_ids M t) + 1 < 2 ^ 32"
  obtains p t' pr where "createOrUpdatePeer M opt now rq (tr_find (m_ix M) (t_peers t) (key (rq_addr rq))) t = Some (p, t')"
    and "torrent_wf M t'" and "torrent_timed M opt now t'"
    and "peer_ids M t' = remove1 p (peer_ids M t) @ [p]"
    and "t_heap t' = (t_heap t)(p \<mapsto> announced M opt now rq pr)"
    and "length (peer_ids M t') \<le> length (peer_ids M t) + 1"
    and "t_completed t' = t_completed t"
    and "p \<in> set (peer_ids M t) \<Longrightarrow> key (p_addr (peer_at t p)) = key (rq_addr rq)"
    and "\<And>q. q \<in> set (peer_ids M t) \<Longrightarrow> key (p_addr (peer_at t q)) = key (rq_addr rq) \<Longrightarrow> q = p"
proof (cases "tr_find (m_ix M) (t_peers t) (key (rq_addr rq))")
  case None
  obtain p t' where t': "createOrUpdatePeer M opt now rq None t = Some (p, t')" by (simp add: create_eq)
  note c = create_wf [OF wf None room t']
  have ids: "peer_ids M t' = remove1 p (peer_ids M t) @ [p]" using c(3,4) by (simp add: remove1_idem)
  have "q \<notin> set (peer_ids M t) \<or> key (p_addr (peer_at t q)) \<noteq> key (rq_addr rq)" for q
    using torrent_wfD(3) [OF wf, of "key (rq_addr rq)" q] None by auto
  then show ?thesis
    using None t' c ids touched_timed [OF wf timed \<open>now0 \<le> now\<close> ids c(5)]
    by (intro that [of p t' Peer_default]) (auto simp: create_eq)
next
  case (Some p)
  have "p \<in> set (peer_ids M t)" and pkey: "key (p_addr (peer_at t p)) = key (rq_addr rq)"
    using torrent_wfD(3) [OF wf] Some by blast+
  then obtain t' where t': "createOrUpdatePeer M opt now rq (Some p) t = Some (p, t')"
    using update_eq [OF torrent_wf_heap [OF wf]] by blast
  have "length (peer_ids M t) < 2 ^ 32" using room by simp
  note u = update_wf [OF wf Some this t']
  have inj: "q = p" if "q \<in> set (peer_ids M t)" "key (p_addr (peer_at t q)) = key (rq_addr rq)" for q
    using torrent_wf_key_inj [OF wf u(3) that(1)] pkey that(2) by simp
  show ?thesis
  proof (rule that [of p t' "peer_at t p"])
    show "createOrUpdatePeer M opt now rq (tr_find (m_ix M) (t_peers t) (key (rq_addr rq))) t = Some (p, t')"
      using Some t' by simp
    show "length (peer_ids M t') \<le> length (peer_ids M t) + 1" by (simp add: u(4) length_remove1)
    show "t_completed t' = t_completed t"
      using t' update_eq [OF torrent_wf_heap [OF wf u(3)], of opt now rq] by auto
    show "torrent_timed M opt now t'" by (rule touched_timed [OF wf timed \<open>now0 \<le> now\<close> u(4,5)])
  qed (use u pkey inj in blast)+
qed

end

lemma select_addrs_eq:
  "(\<forall>p \<in> set ps. h p \<noteq> None) \<Longrightarrow> select_addrs h rq n ps acc =
     Some (acc @ take (n - length acc) (map p_addr (filter (\<lambda>pr. \<not> skip_peer rq pr) (map (\<lambda>p. the (h p)) ps))))"
proof (induction h rq n ps acc rule: select_addrs.induct)
  case (2 h rq n p ps addrs)
  then obtain pr where pr: "h p = Some pr" by auto
  show ?case
  proof (cases "length addrs \<ge> n")
    case False
    then have "n - length addrs = Suc (n - Suc (length addrs))" by simp
    then show ?thesis using 2 False pr by simp
  qed simp
qed simp

lemma peer_parts_completed [simp]:
  "peer_ids M (t\<lparr>t_completed := c\<rparr>) = peer_ids M t"
  "peer_at (t\<lparr>t_completed := c\<rparr>) = peer_at t"
  "is_seeder (t\<lparr>t_completed := c\<rparr>) = is_seeder t"
  by (simp_all add: peer_ids_def peer_at_def is_seeder_def fun_eq_iff)

lemma torrent_wf_completed [simp]:
  "torrent_wf M (t\<lparr>t_completed := c\<rparr>) = torrent_wf M t"
  "torrent_timed M opt now (t\<lparr>t_completed := c\<rparr>) = torrent_timed M opt now t"
  by (simp_all add: torrent_wf_def torrent_timed_def)

section \<open>The whole announce\<close>

text \<open>The limit on the peers leaves room for one more in a 32-bit counter.\<close>

definition peers_limit_ok :: "options \<Rightarrow> bool" where
  "peers_limit_ok opt = (unat (MAX_PEERS opt) + 1 < 2 ^ 32)"

context mimosa_laws begin

lemma before_peer_simps [simp]:
  "torrent_wf M (before_peer M rq t) = torrent_wf M t"
  "torrent_timed M opt now (before_peer M rq t) = torrent_timed M opt now t"
  "peer_ids M (before_peer M rq t) = peer_ids M t" "peer_at (before_peer M rq t) = peer_at t"
  "t_heap (before_peer M rq t) = t_heap t" "t_peers (before_peer M rq t) = t_peers t"
  by (simp_all add: before_peer_def)

lemma announce_unfold:
  fixes rq :: announce_request
  assumes wf: "torrent_wf M t"
  defines "peer \<equiv> tr_find (m_ix M) (t_peers t) (key (rq_addr rq))"
  shows "announce M opt now rq t =
    (if rq_event rq = kStopped
     then (case peer of None \<Rightarrow> Some (before_peer M rq t, first_response t)
           | Some p \<Rightarrow> map_option (\<lambda>t2. (t2, first_response t)) (removePeer M p (before_peer M rq t)))
     else Option.bind (createOrUpdatePeer M opt now rq peer (before_peer M rq t)) (\<lambda>(p, t2).
       Option.bind (select_addrs (t_heap t2) rq
           (unat (clamp_int (rq_num_want rq) (MIN_NUMWANT opt) (MAX_NUMWANT opt))) (rev (peer_ids M t2)) []) (\<lambda>addrs.
         map_option (\<lambda>t3. (t3, (first_response t)\<lparr>rp_addrs := addrs\<rparr>))
           (if t_leechers t2 + t_seeders t2 > MAX_PEERS opt
            then removePeer M (dl_front (m_dl M) (t_timeouts t2)) t2 else Some t2))))"
proof -
  have "peer = Some p \<Longrightarrow> t_heap t p = Some (peer_at t p)" for p
    using torrent_wfD(3) [OF wf] torrent_wf_heap [OF wf] by (auto simp: peer_def)
  moreover have "(if (case peer of None \<Rightarrow> False | Some p \<Rightarrow> p_left (peer_at t p) > 0)
      \<and> rq_left rq = 0 \<and> rq_event rq = kCompleted then t\<lparr>t_completed := t_completed t + 1\<rparr> else t)
      = before_peer M rq t"
    by (auto simp: before_peer_def bump_completed_def is_seeder_def peer_def word_gt_0 split: option.splits)
  ultimately show ?thesis
    by (cases peer)
      (simp_all add: announce_def first_response_def peer_ids_def peer_def [symmetric]
        map_conv_bind_option comp_def before_peer_def bump_completed_def is_seeder_def word_gt_0)
qed

lemma select_peers:
  "torrent_wf M t \<Longrightarrow> select_addrs (t_heap t) rq
     (unat (clamp_int (rq_num_want rq) (MIN_NUMWANT opt) (MAX_NUMWANT opt))) (rev (peer_ids M t)) []
   = Some (answer_addrs M opt rq t)"
  by (subst select_addrs_eq) (auto simp: answer_addrs_def peer_at_def [abs_def] dest: torrent_wf_heap)

lemma evict:
  assumes wf: "torrent_wf M t" and timed: "torrent_timed M opt now t" and small: "length (peer_ids M t) < 2 ^ 32"
    and bound: "length (peer_ids M t) \<le> unat (MAX_PEERS opt) + 1"
  obtains t' where "(if t_leechers t + t_seeders t > MAX_PEERS opt
      then removePeer M (dl_front (m_dl M) (t_timeouts t)) t else Some t) = Some t'"
    and "torrent_inv M opt now t'"
    and "peer_ids M t' = (if length (peer_ids M t) > unat (MAX_PEERS opt) then tl (peer_ids M t) else peer_ids M t)"
    and "\<And>q. q \<in> set (peer_ids M t') \<Longrightarrow> peer_at t' q = peer_at t q"
    and "t_completed t' = t_completed t"
proof -
  have over: "t_leechers t + t_seeders t > MAX_PEERS opt \<longleftrightarrow> length (peer_ids M t) > unat (MAX_PEERS opt)"
    using torrent_wf_count [OF wf] small by (simp add: word_less_nat_alt unat_word_ariths)
  show ?thesis
  proof (cases "length (peer_ids M t) > unat (MAX_PEERS opt)")
    case True
    then obtain f rest where ids: "peer_ids M t = f # rest" by (cases "peer_ids M t") auto
    then have f: "f \<in> set (peer_ids M t)" and front: "dl_front (m_dl M) (t_timeouts t) = f"
      using dl.list_front by (auto simp: peer_ids_def)
    obtain t' where t': "removePeer M f t = Some t'" using removePeer_defined [OF wf f] by blast
    note eqs = removePeer_eqs [OF wf f t']
    have "peer_at t' q = peer_at t q" if "q \<in> set (peer_ids M t')" for q
      using that torrent_wfD(1) [OF wf] by (auto simp: eqs(1,2) peer_at_def)
    moreover have "torrent_inv M opt now t'"
      using removePeer_wf [OF wf f t'] removePeer_timed [OF wf f t' timed] bound eqs(1) ids by (simp add: torrent_inv_def)
    ultimately show ?thesis using True over front t' eqs(1,4) ids by (intro that [of t']) auto
  next
    case False
    then show ?thesis using over wf timed by (intro that [of t]) (auto simp: torrent_inv_def)
  qed
qed

definition live_effect :: "options \<Rightarrow> int \<Rightarrow> announce_request \<Rightarrow> ('d, 'i) torrent \<Rightarrow> ('d, 'i) torrent
    \<Rightarrow> nat \<Rightarrow> ('d, 'i) torrent \<Rightarrow> bool" where
  "live_effect opt now rq t t2 p t' \<longleftrightarrow>
     torrent_inv M opt now t' \<and> torrent_wf M t2
   \<and> peer_ids M t2 = remove1 p (peer_ids M t) @ [p]
   \<and> (\<exists>pr. t_heap t2 = (t_heap t)(p \<mapsto> announced M opt now rq pr))
   \<and> peer_ids M t' = (if length (peer_ids M t2) > unat (MAX_PEERS opt) then tl (peer_ids M t2) else peer_ids M t2)
   \<and> (\<forall>q \<in> set (peer_ids M t'). peer_at t' q = peer_at t2 q)
   \<and> t_completed t' = t_completed (before_peer M rq t)
   \<and> (\<forall>q \<in> set (peer_ids M t). key (p_addr (peer_at t q)) = key (rq_addr rq) \<longleftrightarrow> q = p)"

lemma announce_live:
  assumes inv: "torrent_inv M opt now0 t" and "now0 \<le> now" and limit: "peers_limit_ok opt"
    and live: "rq_event rq \<noteq> kStopped"
  shows "\<exists>t' t2 p. announce M opt now rq t = Some (t', (first_response t)\<lparr>rp_addrs := answer_addrs M opt rq t2\<rparr>)
    \<and> live_effect opt now rq t t2 p t'"
proof -
  have wf: "torrent_wf M t" and timed: "torrent_timed M opt now0 t" and len: "length (peer_ids M t) \<le> unat (MAX_PEERS opt)"
    using inv by (simp_all add: torrent_inv_def)
  have small: "unat (MAX_PEERS opt) + 1 < 2 ^ 32" using limit by (simp add: peers_limit_ok_def)
  have room: "length (peer_ids M (before_peer M rq t)) + 1 < 2 ^ 32" using len small by simp
  obtain p t2 pr where c: "createOrUpdatePeer M opt now rq (tr_find (m_ix M) (t_peers t) (key (rq_addr rq))) (before_peer M rq t) = Some (p, t2)"
    and t2: "torrent_wf M t2" "torrent_timed M opt now t2" "peer_ids M t2 = remove1 p (peer_ids M t) @ [p]"
      "t_heap t2 = (t_heap t)(p \<mapsto> announced M opt now rq pr)" "length (peer_ids M t2) \<le> length (peer_ids M t) + 1"
      "t_completed t2 = t_completed (before_peer M rq t)"
    and keys: "p \<in> set (peer_ids M t) \<Longrightarrow> key (p_addr (peer_at t p)) = key (rq_addr rq)"
      "\<And>q. q \<in> set (peer_ids M t) \<Longrightarrow> key (p_addr (peer_at t q)) = key (rq_addr rq) \<Longrightarrow> q = p"
    using touch_peer [OF _ _ \<open>now0 \<le> now\<close> room, of opt rq] wf timed by (simp only: before_peer_simps) blast
  have "length (peer_ids M t2) < 2 ^ 32" and "length (peer_ids M t2) \<le> unat (MAX_PEERS opt) + 1"
    using t2(5) len small by simp_all
  then obtain t' where e: "(if t_leechers t2 + t_seeders t2 > MAX_PEERS opt
      then removePeer M (dl_front (m_dl M) (t_timeouts t2)) t2 else Some t2) = Some t'"
    and t': "torrent_inv M opt now t'"
      "peer_ids M t' = (if length (peer_ids M t2) > unat (MAX_PEERS opt) then tl (peer_ids M t2) else peer_ids M t2)"
      "\<And>q. q \<in> set (peer_ids M t') \<Longrightarrow> peer_at t' q = peer_at t2 q"
      "t_completed t' = t_completed t2"
    using evict [OF t2(1,2)] by blast
  have "announce M opt now rq t = Some (t', (first_response t)\<lparr>rp_addrs := answer_addrs M opt rq t2\<rparr>)"
    using live by (simp add: announce_unfold [OF wf] c select_peers [OF t2(1)] e)
  moreover have "live_effect opt now rq t t2 p t'"
    unfolding live_effect_def using t' t2(1,3,4,6) keys by metis
  ultimately show ?thesis by blast
qed

lemma announce_stopped:
  assumes inv: "torrent_inv M opt now0 t" and "now0 \<le> now" and stop: "rq_event rq = kStopped"
  obtains t' where "announce M opt now rq t = Some (t', first_response t)"
    and "torrent_inv M opt now t'"
    and "peer_ids M t' = filter (\<lambda>q. key (p_addr (peer_at t q)) \<noteq> key (rq_addr rq)) (peer_ids M t)"
    and "\<And>q. q \<in> set (peer_ids M t') \<Longrightarrow> peer_at t' q = peer_at t q"
proof -
  have wf: "torrent_wf M t" using inv by (simp add: torrent_inv_def)
  have later: "torrent_inv M opt now t"
    using inv \<open>now0 \<le> now\<close> by (force simp: torrent_inv_def torrent_timed_def deadline_def)
  show ?thesis
  proof (cases "tr_find (m_ix M) (t_peers t) (key (rq_addr rq))")
    case None
    then have "\<forall>q \<in> set (peer_ids M t). key (p_addr (peer_at t q)) \<noteq> key (rq_addr rq)"
      using torrent_wfD(3) [OF wf, of "key (rq_addr rq)"] by auto
    then show ?thesis using None stop later
      by (intro that [of "before_peer M rq t"]) (auto simp: announce_unfold [OF wf] torrent_inv_def filter_id_conv)
  next
    case (Some p)
    then have p: "p \<in> set (peer_ids M t)" and pkey: "key (p_addr (peer_at t p)) = key (rq_addr rq)"
      using torrent_wfD(3) [OF wf] by blast+
    let ?t = "before_peer M rq t"
    have wf': "torrent_wf M ?t" and p': "p \<in> set (peer_ids M ?t)" using wf p by simp_all
    obtain t' where t': "removePeer M p ?t = Some t'" using removePeer_defined [OF wf' p'] by blast
    note eqs = removePeer_eqs [OF wf' p' t']
    have "remove1 p (peer_ids M t) = filter (\<lambda>q. key (p_addr (peer_at t q)) \<noteq> key (rq_addr rq)) (peer_ids M t)"
      using torrent_wf_key_inj [OF wf p] pkey
      by (auto simp: distinct_remove1_filter [OF torrent_wfD(1) [OF wf]] intro!: filter_cong)
    moreover have "torrent_inv M opt now t'"
      using removePeer_wf [OF wf' p' t'] removePeer_timed [OF wf' p' t', of opt now] later eqs(1) p
      by (auto simp: torrent_inv_def length_remove1)
    moreover have "q \<in> set (peer_ids M t') \<Longrightarrow> peer_at t' q = peer_at t q" for q
      using torrent_wfD(1) [OF wf] by (auto simp: eqs(1,2) peer_at_def)
    ultimately show ?thesis using stop Some t' eqs(1)
      by (intro that [of t']) (simp_all add: announce_unfold [OF wf])
  qed
qed

lemma cleanup_peers:
  assumes "torrent_wf M t"
  shows "\<exists>t'. cleanup M now t = Some t' \<and> torrent_wf M t'
    \<and> peer_ids M t' = dropWhile (\<lambda>p. p_timeout_ts (peer_at t p) \<le> now) (peer_ids M t)
    \<and> (\<forall>p \<in> set (peer_ids M t'). peer_at t' p = peer_at t p)"
  using assms
proof (induction "length (peer_ids M t)" arbitrary: t)
  case 0
  then have "dl_empty (m_dl M) (t_timeouts t)" by (simp add: dl.list_empty peer_ids_def)
  then have "cleanup M now t = Some t" by (simp add: cleanup.simps)
  with 0 show ?case by simp
next
  case (Suc n)
  then obtain f rest where ids: "peer_ids M t = f # rest" by (cases "peer_ids M t") auto
  then have ne: "\<not> dl_empty (m_dl M) (t_timeouts t)" and front: "dl_front (m_dl M) (t_timeouts t) = f"
    using dl.list_front by (auto simp: peer_ids_def dl.list_empty)
  have f: "f \<in> set (peer_ids M t)" using ids by simp
  note heap = torrent_wf_heap [OF Suc.prems f]
  show ?case
  proof (cases "p_timeout_ts (peer_at t f) > now")
    case True
    then show ?thesis using Suc.prems ids ne front heap by (simp add: cleanup.simps [of M now t])
  next
    case False
    obtain t1 where t1: "removePeer M f t = Some t1" using removePeer_defined [OF Suc.prems f] by blast
    note eqs = removePeer_eqs [OF Suc.prems f t1]
    have ids1: "peer_ids M t1 = rest" using eqs(1) ids by simp
    have at1: "p \<in> set rest \<Longrightarrow> peer_at t1 p = peer_at t p" for p
      using torrent_wfD(1) [OF Suc.prems] ids by (auto simp: peer_at_def eqs(2))
    obtain t' where t': "cleanup M now t1 = Some t'" "torrent_wf M t'"
      "peer_ids M t' = dropWhile (\<lambda>p. p_timeout_ts (peer_at t1 p) \<le> now) rest"
      "\<forall>p \<in> set (peer_ids M t'). peer_at t' p = peer_at t1 p"
      using Suc.hyps(1) [of t1] Suc.hyps(2) removePeer_wf [OF Suc.prems f t1] ids1 ids by auto
    have "dropWhile (\<lambda>p. p_timeout_ts (peer_at t1 p) \<le> now) rest = dropWhile (\<lambda>p. p_timeout_ts (peer_at t p) \<le> now) rest"
      by (intro dropWhile_cong refl) (simp add: at1)
    then show ?thesis using t' False ids ne front heap t1 at1
      by (auto simp: cleanup.simps [of M now t] dest: set_dropWhileD)
  qed
qed

end

lemma dropWhile_sorted_filter:
  "sorted_wrt (\<lambda>a b. f a \<le> f b) xs \<Longrightarrow> dropWhile (\<lambda>x. f x \<le> c) xs = filter (\<lambda>x. c < f x) xs"
  for f :: "'a \<Rightarrow> int"
proof (induction xs)
  case (Cons x xs)
  show ?case
  proof (cases "f x \<le> c")
    case False
    then have "\<forall>y \<in> set xs. c < f y" using Cons.prems by fastforce
    then have "filter (\<lambda>x. c < f x) xs = xs" by (simp add: filter_id_conv)
    then show ?thesis using False by simp
  qed (use Cons in simp)
qed simp

section \<open>What a torrent promises\<close>

text \<open>The abstract state of a torrent: the peers it knows by the key of their address.\<close>

definition peer_map :: "('d, 'i) mimosa \<Rightarrow> ('d, 'i) torrent \<Rightarrow> bytes \<Rightarrow> peer option" where
  "peer_map M t k = map_option (peer_at t) (tr_find (m_ix M) (t_peers t) k)"

lemma peer_map_iff:
  "torrent_wf M t \<Longrightarrow> peer_map M t k = Some pr \<longleftrightarrow>
     (\<exists>p \<in> set (peer_ids M t). key (p_addr (peer_at t p)) = k \<and> pr = peer_at t p)"
  using torrent_wfD(3) [of M t k] by (auto simp: peer_map_def)

lemma peer_map_eqI:
  assumes "torrent_wf M t'"
    and "\<And>k pr. m k = Some pr \<longleftrightarrow> (\<exists>p \<in> set (peer_ids M t'). key (p_addr (peer_at t' p)) = k \<and> pr = peer_at t' p)"
  shows "peer_map M t' = m"
proof
  fix k
  have "peer_map M t' k = Some pr \<longleftrightarrow> m k = Some pr" for pr
    by (simp add: peer_map_iff [OF assms(1)] assms(2))
  then show "peer_map M t' k = m k" by (metis not_None_eq)
qed

lemma same_peers_map:
  "torrent_wf M t' \<Longrightarrow> torrent_wf M t \<Longrightarrow> peer_ids M t' = peer_ids M t \<Longrightarrow>
   \<forall>p \<in> set (peer_ids M t'). peer_at t' p = peer_at t p \<Longrightarrow> peer_map M t' = peer_map M t"
  by (rule peer_map_eqI) (auto simp: peer_map_iff)

lemma dropped_peer_map:
  assumes "torrent_wf M t'" and "torrent_wf M t" and "peer_ids M t = f # rest" and "peer_ids M t' = rest"
    and "\<forall>p \<in> set rest. peer_at t' p = peer_at t p"
  shows "peer_map M t' = (peer_map M t)(key (p_addr (peer_at t f)) := None)"
proof (rule peer_map_eqI [OF assms(1)])
  fix k pr
  have "key (p_addr (peer_at t p)) \<noteq> key (p_addr (peer_at t f))" if "p \<in> set rest" for p
    using torrent_wf_key_inj [OF assms(2), of p f] that torrent_wfD(1) [OF assms(2)] assms(3) by auto
  then show "((peer_map M t)(key (p_addr (peer_at t f)) := None)) k = Some pr \<longleftrightarrow>
      (\<exists>p \<in> set (peer_ids M t'). key (p_addr (peer_at t' p)) = k \<and> pr = peer_at t' p)"
    using assms(3-5) peer_map_iff [OF assms(2), of k pr] by auto
qed

lemma touched_peer_map:
  assumes wf: "torrent_wf M t" and wf2: "torrent_wf M t2"
    and ids: "peer_ids M t2 = remove1 p (peer_ids M t) @ [p]"
    and heap: "t_heap t2 = (t_heap t)(p \<mapsto> announced M opt now rq pr)"
    and keys: "\<forall>q \<in> set (peer_ids M t). key (p_addr (peer_at t q)) = key (rq_addr rq) \<longleftrightarrow> q = p"
  shows "peer_map M t2 = (peer_map M t)(key (rq_addr rq) \<mapsto> announced M opt now rq pr)"
proof (rule peer_map_eqI [OF wf2])
  fix k pr'
  have at: "peer_at t2 q = (if q = p then announced M opt now rq pr else peer_at t q)" for q
    by (simp add: peer_at_def heap)
  have set: "set (peer_ids M t2) = insert p (set (peer_ids M t))"
    using torrent_wfD(1) [OF wf] by (auto simp: ids)
  show "((peer_map M t)(key (rq_addr rq) \<mapsto> announced M opt now rq pr)) k = Some pr' \<longleftrightarrow>
      (\<exists>q \<in> set (peer_ids M t2). key (p_addr (peer_at t2 q)) = k \<and> pr' = peer_at t2 q)"
    using keys peer_map_iff [OF wf, of k pr'] by (auto simp: set at announced_def fill_peer_def)
qed

lemma announced_whole: "announced M opt now rq pr = announced M opt now rq pr'"
  by (cases pr; cases pr') (simp add: announced_def fill_peer_def)

text \<open>Steps of a torrent: announces and cleanups, at times that never go back.\<close>

inductive torrent_step ::
  "('d, 'i) mimosa \<Rightarrow> options \<Rightarrow> int \<times> ('d, 'i) torrent \<Rightarrow> int \<times> ('d, 'i) torrent \<Rightarrow> bool"
  for M :: "('d, 'i) mimosa" and opt :: options where
  step_announce: "now \<le> now' \<Longrightarrow> announce M opt now' rq t = Some (t', rp) \<Longrightarrow>
     torrent_step M opt (now, t) (now', t')"
| step_cleanup: "now \<le> now' \<Longrightarrow> cleanup M now' t = Some t' \<Longrightarrow> torrent_step M opt (now, t) (now', t')"

inductive torrent_reach ::
  "('d, 'i) mimosa \<Rightarrow> options \<Rightarrow> int \<times> ('d, 'i) torrent \<Rightarrow> bool"
  for M :: "('d, 'i) mimosa" and opt :: options where
  reach_new: "torrent_reach M opt (now, Torrent_new M h name path len)"
| reach_step: "torrent_reach M opt s \<Longrightarrow> torrent_step M opt s s' \<Longrightarrow> torrent_reach M opt s'"

context mimosa_laws begin

lemma announce_inv:
  assumes "torrent_inv M opt now0 t" and "now0 \<le> now" and "peers_limit_ok opt"
  shows "\<exists>t' rp. announce M opt now rq t = Some (t', rp) \<and> torrent_inv M opt now t'"
proof (cases "rq_event rq = kStopped")
  case True
  then show ?thesis using announce_stopped [OF assms(1,2)] by blast
next
  case False
  then show ?thesis using announce_live [OF assms] unfolding live_effect_def by blast
qed

lemma cleanup_inv:
  assumes "torrent_inv M opt now0 t" and "now0 \<le> now"
  shows "\<exists>t'. cleanup M now t = Some t' \<and> torrent_inv M opt now t'
    \<and> peer_ids M t' = filter (\<lambda>p. now < p_timeout_ts (peer_at t p)) (peer_ids M t)
    \<and> (\<forall>p \<in> set (peer_ids M t'). peer_at t' p = peer_at t p)"
proof -
  have wf: "torrent_wf M t" and timed: "torrent_timed M opt now0 t" using assms by (simp_all add: torrent_inv_def)
  obtain t' where t': "cleanup M now t = Some t'" "torrent_wf M t'"
    "peer_ids M t' = dropWhile (\<lambda>p. p_timeout_ts (peer_at t p) \<le> now) (peer_ids M t)"
    "\<forall>p \<in> set (peer_ids M t'). peer_at t' p = peer_at t p"
    using cleanup_peers [OF wf] by blast
  have ids: "peer_ids M t' = filter (\<lambda>p. now < p_timeout_ts (peer_at t p)) (peer_ids M t)"
    using t'(3) timed dropWhile_sorted_filter [of "\<lambda>p. p_timeout_ts (peer_at t p)"] by (simp add: torrent_timed_def)
  have "sorted_wrt (\<lambda>a b. p_timeout_ts (peer_at t a) \<le> p_timeout_ts (peer_at t b)) (peer_ids M t')"
    using timed by (simp add: ids torrent_timed_def sorted_wrt_filter)
  then have "sorted_wrt (\<lambda>a b. p_timeout_ts (peer_at t' a) \<le> p_timeout_ts (peer_at t' b)) (peer_ids M t')"
    by (rule sorted_wrt_mono_rel [rotated]) (simp add: t'(4))
  moreover have "\<forall>p \<in> set (peer_ids M t'). p_timeout_ts (peer_at t' p) \<le> deadline M opt now"
    using timed t'(4) assms(2) by (force simp: ids torrent_timed_def deadline_def)
  moreover have "length (peer_ids M t') \<le> unat (MAX_PEERS opt)"
    using assms(1) length_filter_le [of _ "peer_ids M t"] unfolding ids torrent_inv_def by (meson order_trans)
  ultimately show ?thesis using t'(1,2,4) ids by (auto simp: torrent_inv_def torrent_timed_def)
qed

lemma reach_inv:
  "torrent_reach M opt s \<Longrightarrow> peers_limit_ok opt \<Longrightarrow> torrent_inv M opt (fst s) (snd s)"
proof (induction rule: torrent_reach.induct)
  case (reach_new now h name path len)
  then show ?case by (simp add: torrent_inv_new)
next
  case (reach_step s s')
  then have inv: "torrent_inv M opt (fst s) (snd s)" by simp
  from reach_step.hyps(2) show ?case
  proof (cases rule: torrent_step.cases)
    case (step_announce now now' rq t t' rp)
    then show ?thesis using announce_inv [of opt now t now' rq] inv reach_step.prems by auto
  next
    case (step_cleanup now now' t t')
    then show ?thesis using cleanup_inv [of opt now t now'] inv by auto
  qed
qed

end

text \<open>The library at work: plain lists, a minute of sixty seconds in milliseconds.\<close>

definition ref_mimosa :: "(nat list, (bytes \<times> nat) list) mimosa" where
  "ref_mimosa = \<lparr>m_dl = ref_dlist, m_ix = ref_trie, m_minute = 60000\<rparr>"

interpretation ref: mimosa_laws ref_mimosa
  by (intro mimosa_laws.intro mimosa_laws_axioms.intro)
    (simp_all add: ref_mimosa_def ref_dlist.dlist_laws_axioms ref_trie.trie_laws_axioms)

definition demo_addr :: "nat \<Rightarrow> address" where
  "demo_addr n = \<lparr>a_family = AF_INET, a_store = [10, 0, 0, of_nat n, 26, 225] @ replicate 12 0\<rparr>"

definition demo_rq :: "nat \<Rightarrow> event \<Rightarrow> 64 word \<Rightarrow> announce_request" where
  "demo_rq n ev left = \<lparr>rq_peerid = replicate 20 (of_nat n), rq_info_hash = InfoHash_new SHA1 (replicate 20 7),
     rq_num_want = 10, rq_event = ev, rq_downloaded = 0, rq_uploaded = 0, rq_left = left,
     rq_addr = demo_addr n, rq_skip_ipv6 = False\<rparr>"

definition demo_torrent :: "(nat list, (bytes \<times> nat) list) torrent" where
  "demo_torrent = Torrent_new ref_mimosa (InfoHash_new SHA1 (replicate 20 7)) ''demo'' ''/srv/demo.torrent'' 4096"

lemma default_limit_ok: "peers_limit_ok default_options"
  by (simp add: peers_limit_ok_def default_options_def)

text \<open>C1. In every state a torrent can reach by announces and cleanups, the timeout list, the
  address index and the allocated peers agree, the seeder and leecher counters are the number of
  peers with nothing left and with something left, the list is sorted by timeout and holds at most
  \<^verbatim>\<open>MAX_PEERS\<close> peers; and every further announce or cleanup runs to its end without following a
  dangling pointer.\<close>

theorem torrent_reachable_consistent:
  assumes "mimosa_laws M" and "peers_limit_ok opt" and "torrent_reach M opt (now, t)" and "now \<le> now'"
  shows "torrent_inv M opt now t
    \<and> (\<exists>t' rp. announce M opt now' rq t = Some (t', rp)) \<and> (\<exists>t'. cleanup M now' t = Some t')"
  using mimosa_laws.reach_inv [OF assms(1,3,2)] mimosa_laws.announce_inv [OF assms(1) _ assms(4,2)]
    mimosa_laws.cleanup_inv [OF assms(1) _ assms(4)] by fastforce

theorem torrent_reachable_consistent_witness:
  "torrent_inv ref_mimosa default_options 5 demo_torrent
    \<and> (\<exists>t' rp. announce ref_mimosa default_options 9 (demo_rq 1 kStarted 100) demo_torrent = Some (t', rp))"
  using torrent_reachable_consistent [OF ref.mimosa_laws_axioms default_limit_ok
      reach_new [of _ _ 5 "InfoHash_new SHA1 (replicate 20 7)" "''demo''" "''/srv/demo.torrent''" 4096], of 9 "demo_rq 1 kStarted 100"]
  by (simp add: demo_torrent_def)

lemma skip_peer_key:
  "\<not> skip_peer rq pr \<and> key (p_addr pr) \<noteq> key (rq_addr rq) \<longleftrightarrow>
     p_peerid pr \<noteq> rq_peerid rq \<and> key (p_addr pr) \<noteq> key (rq_addr rq)
     \<and> \<not> ((a_family (rq_addr rq) = AF_INET \<or> rq_skip_ipv6 rq) \<and> a_family (p_addr pr) = AF_INET6)"
proof -
  have "Address_eq (rq_addr rq) (p_addr pr) \<Longrightarrow> key (p_addr pr) = key (rq_addr rq)"
    by (auto simp: Address_eq_def key_def split: family.splits if_splits)
  then show ?thesis unfolding skip_peer_def by blast
qed

text \<open>The addresses an announce answers with, read off the state before it.\<close>

lemma other_peers:
  assumes "mimosa_laws M" and "torrent_inv M opt now0 t" and "now0 \<le> now" and "peers_limit_ok opt"
    and "rq_event rq \<noteq> kStopped"
  shows "\<exists>t'. announce M opt now rq t = Some (t', (first_response t)\<lparr>rp_addrs :=
     take (unat (clamp_int (rq_num_want rq) (MIN_NUMWANT opt) (MAX_NUMWANT opt)))
       (map p_addr (filter (\<lambda>pr. p_peerid pr \<noteq> rq_peerid rq \<and> key (p_addr pr) \<noteq> key (rq_addr rq)
             \<and> \<not> ((a_family (rq_addr rq) = AF_INET \<or> rq_skip_ipv6 rq) \<and> a_family (p_addr pr) = AF_INET6))
          (map (peer_at t) (rev (peer_ids M t)))))\<rparr>)"
proof -
  have wf: "torrent_wf M t" using assms(2) by (simp add: torrent_inv_def)
  obtain t' t2 p where t': "announce M opt now rq t = Some (t', (first_response t)\<lparr>rp_addrs := answer_addrs M opt rq t2\<rparr>)"
    and eff: "mimosa_laws.live_effect M opt now rq t t2 p t'"
    using mimosa_laws.announce_live [OF assms] by blast
  then obtain pr where heap: "t_heap t2 = (t_heap t)(p \<mapsto> announced M opt now rq pr)"
    and ids: "peer_ids M t2 = remove1 p (peer_ids M t) @ [p]"
    and keys: "\<forall>q \<in> set (peer_ids M t). key (p_addr (peer_at t q)) = key (rq_addr rq) \<longleftrightarrow> q = p"
    unfolding mimosa_laws.live_effect_def [OF assms(1)] by blast
  have self: "skip_peer rq (peer_at t2 p)"
    by (simp add: skip_peer_def peer_at_def heap announced_def fill_peer_def)
  have rm: "remove1 p (peer_ids M t) = filter (\<lambda>q. q \<noteq> p) (peer_ids M t)"
    by (rule distinct_remove1_filter [OF torrent_wfD(1) [OF wf]])
  have others: "map (peer_at t2) (rev (filter (\<lambda>q. q \<noteq> p) (peer_ids M t))) = map (peer_at t) (rev (filter (\<lambda>q. q \<noteq> p) (peer_ids M t)))"
    by (intro map_cong refl) (simp add: peer_at_def heap)
  have "filter (\<lambda>pr. \<not> skip_peer rq pr) (map (peer_at t2) (rev (peer_ids M t2)))
      = filter (\<lambda>pr. \<not> skip_peer rq pr) (map (peer_at t) (rev (filter (\<lambda>q. q \<noteq> p) (peer_ids M t))))"
    using self by (simp add: ids rm others)
  also have "\<dots> = filter (\<lambda>pr. \<not> skip_peer rq pr \<and> key (p_addr pr) \<noteq> key (rq_addr rq)) (map (peer_at t) (rev (peer_ids M t)))"
    using keys by (auto simp: filter_map rev_filter comp_def intro!: arg_cong [where f = "map _"] filter_cong)
  finally show ?thesis using t' by (simp add: answer_addrs_def skip_peer_key)
qed

text \<open>C3. An announce that is no stop answers with the addresses of the other known peers, the most
  recently announced first, leaving out those with the same peer id, the asking address itself, and
  the IPv6 peers when the asking peer is on IPv4 or asked without them; the number wanted is read as
  a signed value and kept between the two configured limits. The counters are those before the
  announce.\<close>

theorem announce_answer:
  assumes "mimosa_laws M" and "torrent_inv M opt now0 t" and "now0 \<le> now" and "peers_limit_ok opt"
    and "rq_event rq \<noteq> kStopped"
  shows "\<exists>t'. announce M opt now rq t = Some (t', (first_response t)\<lparr>rp_addrs :=
     take (unat (clamp_int (rq_num_want rq) (MIN_NUMWANT opt) (MAX_NUMWANT opt)))
       (map p_addr (filter (\<lambda>pr. p_peerid pr \<noteq> rq_peerid rq \<and> key (p_addr pr) \<noteq> key (rq_addr rq)
             \<and> \<not> ((a_family (rq_addr rq) = AF_INET \<or> rq_skip_ipv6 rq) \<and> a_family (p_addr pr) = AF_INET6))
          (map (peer_at t) (rev (peer_ids M t)))))\<rparr>)"
  by (rule other_peers [OF assms])

text \<open>Two peers announced, the second a seeder: the state the witnesses below start from.\<close>

definition demo_state :: "(nat list, (bytes \<times> nat) list) torrent" where
  "demo_state = (case announce ref_mimosa default_options 5 (demo_rq 1 kStarted 100) demo_torrent of
     Some (t1, _) \<Rightarrow> (case announce ref_mimosa default_options 6 (demo_rq 2 kStarted 0) t1 of
       Some (t2, _) \<Rightarrow> t2 | None \<Rightarrow> t1) | None \<Rightarrow> demo_torrent)"

lemma demo_state_inv: "torrent_inv ref_mimosa default_options 6 demo_state"
proof -
  have "torrent_inv ref_mimosa default_options 0 demo_torrent"
    by (simp add: demo_torrent_def ref.torrent_inv_new)
  then obtain t1 rp1 where 1: "announce ref_mimosa default_options 5 (demo_rq 1 kStarted 100) demo_torrent = Some (t1, rp1)"
    "torrent_inv ref_mimosa default_options 5 t1"
    using ref.announce_inv [of default_options 0 demo_torrent 5 "demo_rq 1 kStarted 100"] default_limit_ok by auto
  then obtain t2 rp2 where "announce ref_mimosa default_options 6 (demo_rq 2 kStarted 0) t1 = Some (t2, rp2)"
    "torrent_inv ref_mimosa default_options 6 t2"
    using ref.announce_inv [of default_options 5 t1 6 "demo_rq 2 kStarted 0"] default_limit_ok by auto
  with 1 show ?thesis by (simp add: demo_state_def)
qed

theorem announce_answer_witness:
  "\<exists>t'. announce ref_mimosa default_options 7 (demo_rq 3 kStarted 50) demo_state = Some (t', (first_response demo_state)\<lparr>rp_addrs :=
     take 50 (map p_addr (filter (\<lambda>pr. p_peerid pr \<noteq> rq_peerid (demo_rq 3 kStarted 50) \<and> key (p_addr pr) \<noteq> key (demo_addr 3)
             \<and> \<not> ((a_family (demo_addr 3) = AF_INET \<or> rq_skip_ipv6 (demo_rq 3 kStarted 50)) \<and> a_family (p_addr pr) = AF_INET6))
          (map (peer_at demo_state) (rev (peer_ids ref_mimosa demo_state)))))\<rparr>)"
proof -
  have "unat (clamp_int 10 50 100) = 50" by (simp add: clamp_int_def)
  then show ?thesis
    using announce_answer [OF ref.mimosa_laws_axioms demo_state_inv _ default_limit_ok, of 7 "demo_rq 3 kStarted 50"]
    by (simp add: demo_rq_def default_options_def)
qed

text \<open>C2. Seen from outside, an announce that is no stop writes the peer under the key of its address
  and keeps all others; only when that would make more than \<^verbatim>\<open>MAX_PEERS\<close> peers is one dropped, the
  one that has not announced for longest.\<close>

theorem announce_refines_map_update:
  assumes "mimosa_laws M" and "torrent_inv M opt now0 t" and "now0 \<le> now" and "peers_limit_ok opt"
    and "rq_event rq \<noteq> kStopped" and "0 < MAX_PEERS opt"
    and "announce M opt now rq t = Some (t', rp)"
  shows "peer_map M t' =
    (let m = (peer_map M t)(key (rq_addr rq) \<mapsto> announced M opt now rq Peer_default)
     in if peer_map M t (key (rq_addr rq)) \<noteq> None \<or> length (peer_ids M t) < unat (MAX_PEERS opt) then m
        else m(key (p_addr (peer_at t (hd (peer_ids M t)))) := None))"
proof -
  have wf: "torrent_wf M t" and len: "length (peer_ids M t) \<le> unat (MAX_PEERS opt)" using assms(2) by (simp_all add: torrent_inv_def)
  obtain t2 p where eff: "mimosa_laws.live_effect M opt now rq t t2 p t'"
    using mimosa_laws.announce_live [OF assms(1-5)] assms(7) by auto
  then obtain pr where heap: "t_heap t2 = (t_heap t)(p \<mapsto> announced M opt now rq pr)"
    and wf2: "torrent_wf M t2" and wf': "torrent_wf M t'"
    and ids: "peer_ids M t2 = remove1 p (peer_ids M t) @ [p]"
    and ids': "peer_ids M t' = (if length (peer_ids M t2) > unat (MAX_PEERS opt) then tl (peer_ids M t2) else peer_ids M t2)"
    and at': "\<forall>q \<in> set (peer_ids M t'). peer_at t' q = peer_at t2 q"
    and keys: "\<forall>q \<in> set (peer_ids M t). key (p_addr (peer_at t q)) = key (rq_addr rq) \<longleftrightarrow> q = p"
    unfolding mimosa_laws.live_effect_def [OF assms(1)] torrent_inv_def by blast
  have m2: "peer_map M t2 = (peer_map M t)(key (rq_addr rq) \<mapsto> announced M opt now rq pr)"
    by (rule touched_peer_map [OF wf wf2 ids heap keys])
  have new: "announced M opt now rq pr = announced M opt now rq Peer_default" by (rule announced_whole)
  have known: "peer_map M t (key (rq_addr rq)) \<noteq> None \<longleftrightarrow> p \<in> set (peer_ids M t)"
    using keys peer_map_iff [OF wf, of "key (rq_addr rq)"] by auto
  show ?thesis
  proof (cases "p \<in> set (peer_ids M t) \<or> length (peer_ids M t) < unat (MAX_PEERS opt)")
    case True
    then have "length (peer_ids M t2) \<le> unat (MAX_PEERS opt)"
      using ids len length_pos_if_in_set [of p "peer_ids M t"]
      by (cases "p \<in> set (peer_ids M t)") (auto simp: length_remove1 remove1_idem)
    then have "peer_map M t' = peer_map M t2" using at' ids' by (intro same_peers_map [OF wf' wf2]) auto
    then show ?thesis using m2 True known by (auto simp: Let_def new)
  next
    case False
    then have p: "p \<notin> set (peer_ids M t)" and full: "length (peer_ids M t) = unat (MAX_PEERS opt)" using len by auto
    moreover have "0 < unat (MAX_PEERS opt)" using assms(6) by (simp add: word_less_nat_alt)
    ultimately obtain f rest where t: "peer_ids M t = f # rest" by (cases "peer_ids M t") auto
    have "peer_ids M t2 = f # rest @ [p]" and "peer_ids M t' = rest @ [p]"
      using p t ids ids' full by (auto simp: remove1_idem)
    then have "peer_map M t' = (peer_map M t2)(key (p_addr (peer_at t2 f)) := None)"
      using at' by (intro dropped_peer_map [OF wf' wf2]) auto
    moreover have "peer_at t2 f = peer_at t f" using p t heap by (auto simp: peer_at_def)
    ultimately show ?thesis using m2 p full known t by (simp add: Let_def new)
  qed
qed

theorem announce_refines_map_update_witness:
  "\<exists>t' rp. announce ref_mimosa default_options 7 (demo_rq 3 kStarted 50) demo_state = Some (t', rp)
     \<and> peer_map ref_mimosa t' =
       (let m = (peer_map ref_mimosa demo_state)(key (demo_addr 3) \<mapsto>
                  announced ref_mimosa default_options 7 (demo_rq 3 kStarted 50) Peer_default)
        in if peer_map ref_mimosa demo_state (key (demo_addr 3)) \<noteq> None \<or> length (peer_ids ref_mimosa demo_state) < 1024
           then m else m(key (p_addr (peer_at demo_state (hd (peer_ids ref_mimosa demo_state)))) := None))"
proof -
  obtain t' rp where "announce ref_mimosa default_options 7 (demo_rq 3 kStarted 50) demo_state = Some (t', rp)"
    using ref.announce_inv [OF demo_state_inv _ default_limit_ok, of 7 "demo_rq 3 kStarted 50"] by auto
  then show ?thesis
    using announce_refines_map_update [OF ref.mimosa_laws_axioms demo_state_inv _ default_limit_ok,
        of 7 "demo_rq 3 kStarted 50" t' rp]
    by (auto simp: demo_rq_def default_options_def)
qed

text \<open>A stop removes the peer announced under that address and nothing else, whether it was known
  or not, and answers with the counters as they were and no address.\<close>

theorem announce_stop_removes:
  assumes "mimosa_laws M" and "torrent_inv M opt now0 t" and "now0 \<le> now" and "rq_event rq = kStopped"
  shows "\<exists>t'. announce M opt now rq t = Some (t', first_response t)
    \<and> peer_map M t' = (peer_map M t)(key (rq_addr rq) := None)"
proof -
  have wf: "torrent_wf M t" using assms(2) by (simp add: torrent_inv_def)
  obtain t' where t': "announce M opt now rq t = Some (t', first_response t)"
    and "torrent_inv M opt now t'"
    and ids: "peer_ids M t' = filter (\<lambda>q. key (p_addr (peer_at t q)) \<noteq> key (rq_addr rq)) (peer_ids M t)"
    and at: "\<And>q. q \<in> set (peer_ids M t') \<Longrightarrow> peer_at t' q = peer_at t q"
    using mimosa_laws.announce_stopped [OF assms] by blast
  then have wf': "torrent_wf M t'" by (simp add: torrent_inv_def)
  have "peer_map M t' = (peer_map M t)(key (rq_addr rq) := None)"
    by (rule peer_map_eqI [OF wf']) (use at in \<open>auto simp: ids peer_map_iff [OF wf]\<close>)
  then show ?thesis using t' by blast
qed

theorem announce_stop_removes_witness:
  "\<exists>t'. announce ref_mimosa default_options 7 (demo_rq 1 kStopped 0) demo_state = Some (t', first_response demo_state)
     \<and> peer_map ref_mimosa t' = (peer_map ref_mimosa demo_state)(key (demo_addr 1) := None)"
  using announce_stop_removes [OF ref.mimosa_laws_axioms demo_state_inv, of 7 "demo_rq 1 kStopped 0"]
  by (simp add: demo_rq_def)

text \<open>The completed counter grows, by one, exactly when a peer that is known as a leecher announces
  the event \<^verbatim>\<open>completed\<close> with nothing left; no other announce that is no stop changes it.\<close>

theorem announce_completed_counter:
  assumes "mimosa_laws M" and "torrent_inv M opt now0 t" and "now0 \<le> now" and "peers_limit_ok opt"
    and "rq_event rq \<noteq> kStopped"
  shows "\<exists>t' rp. announce M opt now rq t = Some (t', rp) \<and>
    t_completed t' = t_completed t +
      (if rq_event rq = kCompleted \<and> rq_left rq = 0
          \<and> (\<exists>pr. peer_map M t (key (rq_addr rq)) = Some pr \<and> p_left pr \<noteq> 0) then 1 else 0)"
proof -
  have wf: "torrent_wf M t" using assms(2) by (simp add: torrent_inv_def)
  obtain t' t2 p rp where t': "announce M opt now rq t = Some (t', rp)"
    and eff: "mimosa_laws.live_effect M opt now rq t t2 p t'"
    using mimosa_laws.announce_live [OF assms] by blast
  have "bump_completed M rq t \<longleftrightarrow> (\<exists>pr. peer_map M t (key (rq_addr rq)) = Some pr \<and> p_left pr \<noteq> 0)"
    by (auto simp: bump_completed_def peer_map_def is_seeder_def split: option.splits)
  moreover have "t_completed t' = t_completed (before_peer M rq t)"
    using eff unfolding mimosa_laws.live_effect_def [OF assms(1)] by blast
  ultimately show ?thesis using t' by (auto simp: before_peer_def)
qed

theorem announce_completed_counter_witness:
  "\<exists>t' rp. announce ref_mimosa default_options 7 (demo_rq 1 kCompleted 0) demo_state = Some (t', rp) \<and>
    t_completed t' = t_completed demo_state +
      (if \<exists>pr. peer_map ref_mimosa demo_state (key (demo_addr 1)) = Some pr \<and> p_left pr \<noteq> 0 then 1 else 0)"
  using announce_completed_counter [OF ref.mimosa_laws_axioms demo_state_inv _ default_limit_ok, of 7 "demo_rq 1 kCompleted 0"]
  by (simp add: demo_rq_def)

text \<open>C13. \<^verbatim>\<open>cleanup\<close> ends, and keeps exactly the peers whose timeout is still to come.\<close>

theorem cleanup_keeps_live_peers:
  assumes "mimosa_laws M" and "torrent_inv M opt now0 t" and "now0 \<le> now"
  shows "\<exists>t'. cleanup M now t = Some t' \<and> torrent_inv M opt now t'
    \<and> (\<forall>k. peer_map M t' k = (case peer_map M t k of None \<Rightarrow> None
           | Some pr \<Rightarrow> if now < p_timeout_ts pr then Some pr else None))"
proof -
  have wf: "torrent_wf M t" using assms(2) by (simp add: torrent_inv_def)
  obtain t' where t': "cleanup M now t = Some t'" "torrent_inv M opt now t'"
    and ids: "peer_ids M t' = filter (\<lambda>p. now < p_timeout_ts (peer_at t p)) (peer_ids M t)"
    and at: "\<forall>p \<in> set (peer_ids M t'). peer_at t' p = peer_at t p"
    using mimosa_laws.cleanup_inv [OF assms] by blast
  have wf': "torrent_wf M t'" using t' by (simp add: torrent_inv_def)
  have "peer_map M t' = (\<lambda>k. case peer_map M t k of None \<Rightarrow> None | Some pr \<Rightarrow> if now < p_timeout_ts pr then Some pr else None)"
  proof (rule peer_map_eqI [OF wf'])
    fix k pr
    have "(case peer_map M t k of None \<Rightarrow> None | Some pr \<Rightarrow> if now < p_timeout_ts pr then Some pr else None) = Some pr
        \<longleftrightarrow> peer_map M t k = Some pr \<and> now < p_timeout_ts pr"
      by (auto split: option.splits)
    then show "(case peer_map M t k of None \<Rightarrow> None | Some pr \<Rightarrow> if now < p_timeout_ts pr then Some pr else None) = Some pr
        \<longleftrightarrow> (\<exists>p \<in> set (peer_ids M t'). key (p_addr (peer_at t' p)) = k \<and> pr = peer_at t' p)"
      using at by (auto simp: ids peer_map_iff [OF wf])
  qed
  then show ?thesis using t' by auto
qed

theorem cleanup_keeps_live_peers_witness:
  "\<exists>t'. cleanup ref_mimosa 2000000 demo_state = Some t' \<and> torrent_inv ref_mimosa default_options 2000000 t'
    \<and> (\<forall>k. peer_map ref_mimosa t' k = (case peer_map ref_mimosa demo_state k of None \<Rightarrow> None
           | Some pr \<Rightarrow> if 2000000 < p_timeout_ts pr then Some pr else None))"
  using cleanup_keeps_live_peers [OF ref.mimosa_laws_axioms demo_state_inv, of 2000000] by simp

end
