(* ===== verification/Popper_Dom.thy ===== *)
theory Popper_Dom
  imports Js_Base "HOL-Library.Monad_Syntax" "HOL-Library.Sublist"
begin

text \<open>
  The first half of the Popper library in \<^verbatim>\<open>www/js/bootstrap.bundle.js\<close>: how it reads the
  document. The document is a heap of nodes, addressed by numbers; a node holds the tree links and
  the geometry the browser reports for it. A function that follows a missing node throws in the
  program and gives \<open>None\<close> here, as does a walk that does not end; that the walks end is proved for
  well-formed documents. Every node of the model is an HTML element, the document, a shadow root, or
  a plain object used as a virtual reference.
\<close>

named_theorems popper_defs \<open>definitions of the layout functions, unfolded on demand\<close>

section \<open>The document\<close>

text \<open>A value written to an inline style: a text, a bare number, a number of pixels, or a
  translation by two pixel lengths. Numbers are kept as numbers instead of being printed.\<close>

datatype css_value = CssText string | CssNum jsnum | CssPx jsnum | CssTranslate3d jsnum jsnum

record node =
  nodeType :: nat
  nodeName :: string
  parentNode :: "nat option"
  childNodes :: "nat list"
  host :: "nat option"
  referenceNode :: "nat option"
  offsetParent :: "nat option"
  computedStyle :: "string \<Rightarrow> string option"
  clientWidth :: jsnum
  clientHeight :: jsnum
  offsetWidth :: jsnum
  offsetHeight :: jsnum
  scrollWidth :: jsnum
  scrollHeight :: jsnum
  scrollTop :: jsnum
  scrollLeft :: jsnum
  clientRect :: "(jsnum \<times> jsnum \<times> jsnum \<times> jsnum) option"
  inlineStyle :: "string \<Rightarrow> css_value"
  attributes :: "string \<Rightarrow> string option"

text \<open>The client rectangle is left, top, right, bottom; \<open>None\<close> when asking for it throws.\<close>

record dom =
  nodes :: "nat \<Rightarrow> node option"
  documentNode :: nat
  documentElement :: nat
  body :: nat
  scrollingElement :: "nat option"

text \<open>What the browser adds: its kind, its window, the order it gives to nodes of different trees,
  the style properties it knows, its selector engine, and the layout it computes after a change.\<close>

record browser =
  isIE10 :: bool
  isIE11 :: bool
  userAgent :: string
  hasPromise :: bool
  innerWidth :: jsnum
  innerHeight :: jsnum
  disconnectedFollows :: "nat \<Rightarrow> nat \<Rightarrow> bool"
  devicePixelRatio :: jsnum
  supportsStyle :: "string \<Rightarrow> bool"
  querySelector :: "dom \<Rightarrow> nat \<Rightarrow> string \<Rightarrow> nat option"
  reflow :: "dom \<Rightarrow> dom"

definition timeoutDuration :: "browser \<Rightarrow> nat" where
  "timeoutDuration B = (if \<exists>b \<in> set [''Edge'', ''Trident'', ''Firefox'']. js_contains (userAgent B) b then 1 else 0)"

definition isIE :: "browser \<Rightarrow> nat option \<Rightarrow> bool" where
  "isIE B version =
     (if version = Some 11 then isIE11 B else if version = Some 10 then isIE10 B else isIE11 B \<or> isIE10 B)"

section \<open>Tree links\<close>

definition parentElement :: "dom \<Rightarrow> nat \<Rightarrow> nat option" where
  "parentElement d n =
     (case nodes d n of
        None \<Rightarrow> None
      | Some nd \<Rightarrow> (case parentNode nd of
          None \<Rightarrow> None
        | Some p \<Rightarrow> (case nodes d p of
            None \<Rightarrow> None
          | Some pd \<Rightarrow> if nodeType pd = 1 then Some p else None)))"

definition firstElementChild :: "node \<Rightarrow> nat option" where
  "firstElementChild nd = (case childNodes nd of [] \<Rightarrow> None | c # _ \<Rightarrow> Some c)"

text \<open>The siblings after a node: the ones \<^verbatim>\<open>nextElementSibling\<close> visits.\<close>

definition nextSiblings :: "dom \<Rightarrow> nat \<Rightarrow> nat list" where
  "nextSiblings d n =
     (case nodes d n of
        None \<Rightarrow> []
      | Some nd \<Rightarrow> (case parentNode nd of
          None \<Rightarrow> []
        | Some p \<Rightarrow> (case nodes d p of
            None \<Rightarrow> []
          | Some pd \<Rightarrow> drop 1 (dropWhile (\<lambda>c. c \<noteq> n) (childNodes pd)))))"

text \<open>The path from the root of a node's tree down to the node.\<close>

partial_function (option) rootPath :: "dom \<Rightarrow> nat \<Rightarrow> nat list option" where
  "rootPath d n =
     Option.bind (nodes d n) (\<lambda>nd. case parentNode nd of
        None \<Rightarrow> Some [n]
      | Some p \<Rightarrow> Option.bind (rootPath d p) (\<lambda>ns. Some (ns @ [n])))"

text \<open>\<^verbatim>\<open>a.contains(b)\<close>.\<close>

definition containsNode :: "dom \<Rightarrow> nat \<Rightarrow> nat \<Rightarrow> bool option" where
  "containsNode d a b = map_option (\<lambda>ns. a \<in> set ns) (rootPath d b)"

text \<open>\<^verbatim>\<open>a.compareDocumentPosition(b) & DOCUMENT_POSITION_FOLLOWING\<close>: \<open>b\<close> comes after \<open>a\<close> in
  tree order. On the two paths this is decided where they part.\<close>

definition follows :: "browser \<Rightarrow> dom \<Rightarrow> nat \<Rightarrow> nat \<Rightarrow> bool option" where
  "follows B d a b =
     do {
       pa \<leftarrow> rootPath d a;
       pb \<leftarrow> rootPath d b;
       let ps = longest_common_prefix pa pb;
       if ps = [] then Some (disconnectedFollows B a b)
       else if pa = ps then Some (pb \<noteq> ps)
       else if pb = ps then Some False
       else do {
         pd \<leftarrow> nodes d (last ps);
         Some (pb ! length ps \<in> set (drop 1 (dropWhile (\<lambda>c. c \<noteq> pa ! length ps) (childNodes pd))))
       }
     }"

text \<open>\<^verbatim>\<open>range.commonAncestorContainer\<close> after the start and then the end were set: the lowest common
  ancestor, or, when the two are in different trees, the end alone.\<close>

definition commonAncestorContainer :: "dom \<Rightarrow> nat \<Rightarrow> nat \<Rightarrow> nat option" where
  "commonAncestorContainer d start end' =
     do {
       ps \<leftarrow> rootPath d start;
       pe \<leftarrow> rootPath d end';
       let common = longest_common_prefix ps pe;
       Some (if common = [] then end' else last common)
     }"

section \<open>Looking for parents\<close>

definition getStyleComputedProperty :: "dom \<Rightarrow> nat \<Rightarrow> string \<Rightarrow> string option option" where
  "getStyleComputedProperty d n property =
     do { nd \<leftarrow> nodes d n; Some (if nodeType nd \<noteq> 1 then None else computedStyle nd property) }"

definition getParentNode :: "dom \<Rightarrow> nat \<Rightarrow> nat option option" where
  "getParentNode d n =
     do {
       nd \<leftarrow> nodes d n;
       Some (if nodeName nd = ''HTML'' then Some n
             else case parentNode nd of None \<Rightarrow> host nd | Some p \<Rightarrow> Some p)
     }"

text \<open>The test \<^verbatim>\<open>/(auto|scroll|overlay)/\<close> on the three overflow properties; a missing one is printed
  as \<^verbatim>\<open>undefined\<close>.\<close>

definition scrolls :: "dom \<Rightarrow> nat \<Rightarrow> bool option" where
  "scrolls d n =
     do {
       ov \<leftarrow> getStyleComputedProperty d n ''overflow'';
       ox \<leftarrow> getStyleComputedProperty d n ''overflowX'';
       oy \<leftarrow> getStyleComputedProperty d n ''overflowY'';
       let str = (\<lambda>v. case v of None \<Rightarrow> ''undefined'' | Some s \<Rightarrow> s);
       let text = str ov @ str oy @ str ox;
       Some (js_contains text ''auto'' \<or> js_contains text ''scroll'' \<or> js_contains text ''overlay'')
     }"

partial_function (option) getScrollParent :: "dom \<Rightarrow> nat option \<Rightarrow> nat option" where
  "getScrollParent d element =
     (case element of
        None \<Rightarrow> Some (body d)
      | Some n \<Rightarrow>
          Option.bind (nodes d n) (\<lambda>nd.
            if nodeName nd = ''HTML'' \<or> nodeName nd = ''BODY'' then Some (body d)
            else if nodeName nd = ''#document'' then Some (body d)
            else Option.bind (scrolls d n) (\<lambda>sc.
              if sc then Some n
              else Option.bind (getParentNode d n) (\<lambda>p. getScrollParent d p))))"

definition getReferenceNode :: "dom \<Rightarrow> nat \<Rightarrow> nat" where
  "getReferenceNode d r = (case nodes d r of None \<Rightarrow> r
     | Some nd \<Rightarrow> (case referenceNode nd of None \<Rightarrow> r | Some n \<Rightarrow> n))"

text \<open>The loop over the siblings that skips hidden elements.\<close>

fun skipHidden :: "dom \<Rightarrow> nat option \<Rightarrow> nat option \<Rightarrow> nat list \<Rightarrow> nat option option" where
  "skipHidden d noOffsetParent off [] = Some off"
| "skipHidden d noOffsetParent off (s # ss) =
     (if off = noOffsetParent
      then do { sd \<leftarrow> nodes d s; skipHidden d noOffsetParent (offsetParent sd) ss }
      else Some off)"

partial_function (option) getOffsetParent :: "browser \<Rightarrow> dom \<Rightarrow> nat option \<Rightarrow> nat option" where
  "getOffsetParent B d element =
     (case element of
        None \<Rightarrow> Some (documentElement d)
      | Some n \<Rightarrow>
          Option.bind (nodes d n) (\<lambda>nd.
          Option.bind (skipHidden d (if isIE B (Some 10) then Some (body d) else None) (offsetParent nd) (nextSiblings d n)) (\<lambda>off.
            case off of
              None \<Rightarrow> Some (documentElement d)
            | Some o' \<Rightarrow>
                Option.bind (nodes d o') (\<lambda>od.
                  if nodeName od = [] \<or> nodeName od = ''BODY'' \<or> nodeName od = ''HTML'' then Some (documentElement d)
                  else Option.bind (getStyleComputedProperty d o' ''position'') (\<lambda>pos.
                    if nodeName od \<in> set [''TH'', ''TD'', ''TABLE''] \<and> pos = Some ''static''
                    then getOffsetParent B d (Some o')
                    else Some o')))))"

definition isOffsetContainer :: "browser \<Rightarrow> dom \<Rightarrow> nat \<Rightarrow> bool option" where
  "isOffsetContainer B d n =
     do {
       nd \<leftarrow> nodes d n;
       if nodeName nd = ''BODY'' then Some False
       else if nodeName nd = ''HTML'' then Some True
       else do { p \<leftarrow> getOffsetParent B d (firstElementChild nd); Some (p = n) }
     }"

partial_function (option) getRoot :: "dom \<Rightarrow> nat \<Rightarrow> nat option" where
  "getRoot d n = Option.bind (nodes d n) (\<lambda>nd. case parentNode nd of
     Some p \<Rightarrow> getRoot d p | None \<Rightarrow> Some n)"

text \<open>\<^verbatim>\<open>getRoot(n).host\<close>.\<close>

definition rootHost :: "dom \<Rightarrow> nat \<Rightarrow> nat option option" where
  "rootHost d n = do { r \<leftarrow> getRoot d n; rd \<leftarrow> nodes d r; Some (host rd) }"

partial_function (option) findCommonOffsetParent ::
  "browser \<Rightarrow> dom \<Rightarrow> nat option \<Rightarrow> nat option \<Rightarrow> nat option" where
  "findCommonOffsetParent B d element1 element2 =
     (case (element1, element2) of
        (Some e1, Some e2) \<Rightarrow>
          Option.bind (nodes d e1) (\<lambda>n1. Option.bind (nodes d e2) (\<lambda>n2.
          if nodeType n1 = 0 \<or> nodeType n2 = 0 then Some (documentElement d)
          else
          Option.bind (follows B d e1 e2) (\<lambda>order.
          let start = (if order then e1 else e2); end' = (if order then e2 else e1) in
          Option.bind (commonAncestorContainer d start end') (\<lambda>common.
          Option.bind (containsNode d start end') (\<lambda>inside.
          if e1 \<noteq> common \<and> e2 \<noteq> common \<or> inside
          then Option.bind (isOffsetContainer B d common) (\<lambda>oc.
                 if oc then Some common else getOffsetParent B d (Some common))
          else Option.bind (rootHost d e1) (\<lambda>h1.
                 case h1 of
                   Some h \<Rightarrow> findCommonOffsetParent B d (Some h) (Some e2)
                 | None \<Rightarrow> Option.bind (rootHost d e2) (\<lambda>h2. findCommonOffsetParent B d (Some e1) h2)))))))
      | _ \<Rightarrow> Some (documentElement d))"

partial_function (option) isFixed :: "dom \<Rightarrow> nat \<Rightarrow> bool option" where
  "isFixed d n =
     Option.bind (nodes d n) (\<lambda>nd.
       if nodeName nd = ''BODY'' \<or> nodeName nd = ''HTML'' then Some False
       else Option.bind (getStyleComputedProperty d n ''position'') (\<lambda>pos.
         if pos = Some ''fixed'' then Some True
         else Option.bind (getParentNode d n) (\<lambda>p.
           case p of None \<Rightarrow> Some False | Some q \<Rightarrow> isFixed d q)))"

partial_function (option) transformedParent :: "dom \<Rightarrow> nat option \<Rightarrow> nat option" where
  "transformedParent d el =
     (case el of
        None \<Rightarrow> Some (documentElement d)
      | Some n \<Rightarrow>
          Option.bind (getStyleComputedProperty d n ''transform'') (\<lambda>tr.
            if tr = Some ''none'' then transformedParent d (parentElement d n) else Some n))"

definition getFixedPositionOffsetParent :: "browser \<Rightarrow> dom \<Rightarrow> nat option \<Rightarrow> nat option" where
  "getFixedPositionOffsetParent B d element =
     (case element of
        None \<Rightarrow> Some (documentElement d)
      | Some n \<Rightarrow>
          if parentElement d n = None \<or> isIE B None then Some (documentElement d)
          else transformedParent d (parentElement d n))"

declare rootPath.simps [code] getScrollParent.simps [code] getOffsetParent.simps [code] getRoot.simps [code]
  findCommonOffsetParent.simps [code] isFixed.simps [code] transformedParent.simps [code]

section \<open>Well-formed documents\<close>

text \<open>Every node has a depth, one more than its parent's; shadow roots are below their hosts; an
  offset parent is higher up; links lead to nodes. The names of the three page nodes are where the
  walks stop.\<close>

definition node_wf :: "(nat \<Rightarrow> nat) \<Rightarrow> dom \<Rightarrow> nat \<Rightarrow> node \<Rightarrow> bool" where
  "node_wf r d n nd \<longleftrightarrow>
     (\<forall>p. parentNode nd = Some p \<longrightarrow> nodes d p \<noteq> None \<and> r n = Suc (r p))
   \<and> (\<forall>h. host nd = Some h \<longrightarrow> nodes d h \<noteq> None \<and> r h < r n)
   \<and> (\<forall>q. offsetParent nd = Some q \<longrightarrow> nodes d q \<noteq> None \<and> r q < r n)
   \<and> (\<forall>c \<in> set (childNodes nd). \<exists>cd. nodes d c = Some cd \<and> parentNode cd = Some n)
   \<and> (\<forall>q. referenceNode nd = Some q \<longrightarrow> nodes d q \<noteq> None)"

definition dom_wf :: "(nat \<Rightarrow> nat) \<Rightarrow> dom \<Rightarrow> bool" where
  "dom_wf r d \<longleftrightarrow>
     (\<forall>n nd. nodes d n = Some nd \<longrightarrow> node_wf r d n nd)
   \<and> (\<forall>n \<in> {documentNode d, documentElement d, body d} \<union> set_option (scrollingElement d). nodes d n \<noteq> None)"

text \<open>The upward walk of \<^verbatim>\<open>getScrollParent\<close>: where it stops, and the nodes it visits.\<close>

definition page_root :: "dom \<Rightarrow> nat \<Rightarrow> bool" where
  "page_root d n = (case nodes d n of None \<Rightarrow> False
     | Some nd \<Rightarrow> nodeName nd = ''HTML'' \<or> nodeName nd = ''BODY'' \<or> nodeName nd = ''#document'')"

fun upward :: "dom \<Rightarrow> nat list \<Rightarrow> bool" where
  "upward d [] = False"
| "upward d [n] = (nodes d n \<noteq> None)"
| "upward d (n # m # ns) = (getParentNode d n = Some (Some m) \<and> upward d (m # ns))"

lemma dom_wfD:
  assumes "dom_wf r d" and "nodes d n = Some nd"
  shows "parentNode nd = Some p \<Longrightarrow> nodes d p \<noteq> None \<and> r n = Suc (r p)"
    and "host nd = Some h \<Longrightarrow> nodes d h \<noteq> None \<and> r h < r n"
    and "offsetParent nd = Some q \<Longrightarrow> nodes d q \<noteq> None \<and> r q < r n"
    and "c \<in> set (childNodes nd) \<Longrightarrow> \<exists>cd. nodes d c = Some cd \<and> parentNode cd = Some n"
    and "referenceNode nd = Some q \<Longrightarrow> nodes d q \<noteq> None"
  using assms unfolding dom_wf_def node_wf_def by blast+

lemma dom_wf_page:
  assumes "dom_wf r d"
  shows "nodes d (documentElement d) \<noteq> None" and "nodes d (body d) \<noteq> None"
    and "scrollingElement d = Some s \<Longrightarrow> nodes d s \<noteq> None"
  using assms unfolding dom_wf_def by auto

lemma getStyle_total: "nodes d n \<noteq> None \<Longrightarrow> \<exists>v. getStyleComputedProperty d n p = Some v"
  by (auto simp: getStyleComputedProperty_def)

lemma scrolls_total: "nodes d n \<noteq> None \<Longrightarrow> \<exists>b. scrolls d n = Some b"
  by (auto simp: scrolls_def getStyleComputedProperty_def Let_def)

lemma getParentNode_wf:
  assumes "dom_wf r d" and "nodes d n \<noteq> None" and "\<not> page_root d n"
  obtains "getParentNode d n = Some None"
  | p where "getParentNode d n = Some (Some p)" and "nodes d p \<noteq> None" and "r p < r n"
proof -
  obtain nd where nd: "nodes d n = Some nd" using assms(2) by auto
  show ?thesis
  proof (cases "parentNode nd")
    case (Some p)
    then show ?thesis using that(2) [of p] dom_wfD(1) [OF assms(1) nd Some] assms(3) nd
      by (simp add: getParentNode_def page_root_def)
  next
    case None
    then show ?thesis using that dom_wfD(2) [OF assms(1) nd] assms(3) nd
      by (cases "host nd") (simp_all add: getParentNode_def page_root_def)
  qed
qed

lemma getScrollParent_spec:
  assumes "dom_wf r d" and "nodes d n \<noteq> None"
  shows "\<exists>path. upward d (n # path) \<and> (\<forall>m \<in> set (butlast (n # path)). \<not> page_root d m \<and> scrolls d m = Some False)
    \<and> (let l = last (n # path) in
         if page_root d l then getScrollParent d (Some n) = Some (body d)
         else if scrolls d l = Some True then getScrollParent d (Some n) = Some l
         else getParentNode d l = Some None \<and> getScrollParent d (Some n) = Some (body d))"
  using assms(2)
proof (induction "r n" arbitrary: n rule: less_induct)
  case less
  obtain nd where nd: "nodes d n = Some nd" using less.prems by auto
  obtain b where b: "scrolls d n = Some b" using scrolls_total [OF less.prems] by blast
  show ?case
  proof (cases "page_root d n \<or> b")
    case True
    then show ?thesis using nd b
      by (intro exI [of _ "[]"]) (auto simp: page_root_def getScrollParent.simps Let_def)
  next
    case False
    then have step: "getScrollParent d (Some n) = Option.bind (getParentNode d n) (getScrollParent d)"
      using nd b by (subst getScrollParent.simps) (auto simp: page_root_def)
    show ?thesis
    proof (rule getParentNode_wf [OF assms(1) less.prems])
      show "\<not> page_root d n" using False by simp
      assume "getParentNode d n = Some None"
      then show ?thesis using False nd b step
        by (intro exI [of _ "[]"]) (simp add: Let_def getScrollParent.simps [of _ None])
    next
      fix p assume p: "getParentNode d n = Some (Some p)" "nodes d p \<noteq> None" "r p < r n"
      from less.hyps [OF p(3,2)] obtain path where "upward d (p # path)"
        "\<forall>m \<in> set (butlast (p # path)). \<not> page_root d m \<and> scrolls d m = Some False"
        "let l = last (p # path) in if page_root d l then getScrollParent d (Some p) = Some (body d)
         else if scrolls d l = Some True then getScrollParent d (Some p) = Some l
         else getParentNode d l = Some None \<and> getScrollParent d (Some p) = Some (body d)" by blast
      then show ?thesis using p step False b by (intro exI [of _ "p # path"]) (auto simp: Let_def)
    qed
  qed
qed

text \<open>Every walk ends in a node of the document.\<close>

definition returns_node :: "dom \<Rightarrow> nat option \<Rightarrow> bool" where
  "returns_node d res = (case res of None \<Rightarrow> False | Some n \<Rightarrow> nodes d n \<noteq> None)"

lemma returns_nodeE: "returns_node d res \<Longrightarrow> (\<And>n. res = Some n \<Longrightarrow> nodes d n \<noteq> None \<Longrightarrow> P) \<Longrightarrow> P"
  by (auto simp: returns_node_def split: option.splits)

lemma upward_nodes: "dom_wf r d \<Longrightarrow> upward d ns \<Longrightarrow> m \<in> set ns \<Longrightarrow> nodes d m \<noteq> None"
  by (induction ns rule: upward.induct) (auto simp: getParentNode_def bind_eq_Some_conv)

lemma getScrollParent_total:
  assumes "dom_wf r d" and "\<And>n. el = Some n \<Longrightarrow> nodes d n \<noteq> None"
  shows "returns_node d (getScrollParent d el)"
proof (cases el)
  case None
  then show ?thesis using dom_wf_page(2) [OF assms(1)] by (simp add: getScrollParent.simps returns_node_def)
next
  case (Some n)
  then obtain path where path: "upward d (n # path)" and res:
    "let l = last (n # path) in if page_root d l then getScrollParent d (Some n) = Some (body d)
     else if scrolls d l = Some True then getScrollParent d (Some n) = Some l
     else getParentNode d l = Some None \<and> getScrollParent d (Some n) = Some (body d)"
    using getScrollParent_spec [OF assms(1), of n] assms(2) by blast
  have "nodes d (last (n # path)) \<noteq> None" by (rule upward_nodes [OF assms(1) path last_in_set]) simp
  then show ?thesis using res dom_wf_page(2) [OF assms(1)] Some
    by (auto simp: Let_def returns_node_def split: if_splits)
qed

lemma nextSiblings_wf:
  assumes "dom_wf r d" and "s \<in> set (nextSiblings d n)"
  shows "\<exists>sd. nodes d s = Some sd \<and> r s = r n"
proof -
  obtain nd where n1: "nodes d n = Some nd" using assms(2) by (cases "nodes d n") (auto simp: nextSiblings_def)
  then obtain p where n2: "parentNode nd = Some p" using assms(2) by (cases "parentNode nd") (auto simp: nextSiblings_def)
  then obtain pd where n3: "nodes d p = Some pd" using assms(2) n1 by (cases "nodes d p") (auto simp: nextSiblings_def)
  note n = n1 n2 n3
  have "s \<in> set (drop 1 (dropWhile (\<lambda>c. c \<noteq> n) (childNodes pd)))" using assms(2) n by (simp add: nextSiblings_def)
  then have "s \<in> set (childNodes pd)" by (meson in_set_dropD set_dropWhileD)
  then obtain sd where "nodes d s = Some sd" "parentNode sd = Some p" using dom_wfD(4) [OF assms(1) n(3)] by blast
  then show ?thesis using dom_wfD(1) [OF assms(1)] n by metis
qed

lemma skipHidden_wf:
  assumes "dom_wf r d" and "\<forall>s \<in> set ss. \<exists>sd. nodes d s = Some sd \<and> r s = k"
    and "\<And>q. off = Some q \<Longrightarrow> nodes d q \<noteq> None \<and> r q < k"
  shows "\<exists>res. skipHidden d no off ss = Some res \<and> (\<forall>q. res = Some q \<longrightarrow> nodes d q \<noteq> None \<and> r q < k)"
  using assms(2,3)
proof (induction ss arbitrary: off)
  case Nil
  then show ?case by auto
next
  case (Cons s ss)
  then obtain sd where sd: "nodes d s = Some sd" "r s = k" by auto
  have "\<exists>res. skipHidden d no (offsetParent sd) ss = Some res \<and> (\<forall>q. res = Some q \<longrightarrow> nodes d q \<noteq> None \<and> r q < k)"
    using Cons.prems(1) dom_wfD(3) [OF assms(1) sd(1)] sd(2) by (intro Cons.IH) auto
  then show ?case using sd Cons.prems(2) by auto
qed

lemma getOffsetParent_total:
  assumes wf: "dom_wf r d"
  shows "(\<And>n. el = Some n \<Longrightarrow> nodes d n \<noteq> None) \<Longrightarrow> returns_node d (getOffsetParent B d el)"
proof (induction "case el of None \<Rightarrow> 0 | Some n \<Rightarrow> Suc (r n)" arbitrary: el rule: less_induct)
  case less
  have html: "returns_node d (Some (documentElement d))" using dom_wf_page(1) [OF wf] by (simp add: returns_node_def)
  show ?case
  proof (cases el)
    case None
    then show ?thesis using html by (simp add: getOffsetParent.simps)
  next
    case (Some n)
    then obtain nd where nd: "nodes d n = Some nd" using less.prems by auto
    obtain off where off: "skipHidden d (if isIE B (Some 10) then Some (body d) else None) (offsetParent nd) (nextSiblings d n) = Some off"
      and low: "\<And>q. off = Some q \<Longrightarrow> nodes d q \<noteq> None \<and> r q < r n"
      using skipHidden_wf [OF wf, of "nextSiblings d n" "r n" "offsetParent nd"] nextSiblings_wf [OF wf] dom_wfD(3) [OF wf nd]
      by metis
    show ?thesis
    proof (cases off)
      case None
      then show ?thesis using Some nd off html by (subst getOffsetParent.simps) simp
    next
      case q: (Some q)
      then obtain qd where qd: "nodes d q = Some qd" and "r q < r n" using low by auto
      moreover have "returns_node d (getOffsetParent B d (Some q))" using less.hyps [of "Some q"] qd \<open>r q < r n\<close> Some by simp
      moreover obtain v where "getStyleComputedProperty d q ''position'' = Some v" using getStyle_total [of d q] qd by auto
      ultimately show ?thesis using Some nd off q html by (subst getOffsetParent.simps) (auto simp: returns_node_def)
    qed
  qed
qed

lemma rootPath_total:
  assumes wf: "dom_wf r d"
  shows "nodes d n \<noteq> None \<Longrightarrow> \<exists>ns. rootPath d n = Some ns \<and> ns \<noteq> [] \<and> last ns = n \<and> (\<forall>m \<in> set ns. nodes d m \<noteq> None)"
proof (induction "r n" arbitrary: n rule: less_induct)
  case less
  then obtain nd where nd: "nodes d n = Some nd" by auto
  show ?case
  proof (cases "parentNode nd")
    case None
    then show ?thesis using nd by (subst rootPath.simps) simp
  next
    case (Some p)
    then show ?thesis using less.hyps [of p] dom_wfD(1) [OF wf nd Some] nd by (subst rootPath.simps) auto
  qed
qed

lemma getRoot_total:
  assumes wf: "dom_wf r d"
  shows "nodes d n \<noteq> None \<Longrightarrow> \<exists>m. getRoot d n = Some m \<and> nodes d m \<noteq> None \<and> r m \<le> r n"
proof (induction "r n" arbitrary: n rule: less_induct)
  case less
  then obtain nd where nd: "nodes d n = Some nd" by auto
  show ?case
  proof (cases "parentNode nd")
    case None
    then show ?thesis using nd by (subst getRoot.simps) simp
  next
    case (Some p)
    then have p: "nodes d p \<noteq> None" "r n = Suc (r p)" using dom_wfD(1) [OF wf nd] by blast+
    then obtain m where "getRoot d p = Some m" "nodes d m \<noteq> None" "r m \<le> r p" using less.hyps [of p] by auto
    then show ?thesis using nd p Some by (subst getRoot.simps) simp
  qed
qed

lemma rootHost_total:
  assumes "dom_wf r d" and "nodes d n \<noteq> None"
  shows "\<exists>h. rootHost d n = Some h \<and> (\<forall>m. h = Some m \<longrightarrow> nodes d m \<noteq> None \<and> r m < r n)"
proof -
  obtain m md where "getRoot d n = Some m" and md: "nodes d m = Some md" and "r m \<le> r n"
    using getRoot_total [OF assms] by auto
  then show ?thesis using dom_wfD(2) [OF assms(1) md] by (auto simp: rootHost_def intro: less_le_trans)
qed

lemma containsNode_total: "dom_wf r d \<Longrightarrow> nodes d b \<noteq> None \<Longrightarrow> \<exists>v. containsNode d a b = Some v"
  using rootPath_total [of r d b] by (auto simp: containsNode_def)

lemma common_prefix_nodes:
  assumes "\<forall>m \<in> set xs. nodes d m \<noteq> None" and "longest_common_prefix xs ys \<noteq> []"
  shows "nodes d (last (longest_common_prefix xs ys)) \<noteq> None"
proof -
  have "last (longest_common_prefix xs ys) \<in> set (longest_common_prefix xs ys)" using assms(2) by simp
  then have "last (longest_common_prefix xs ys) \<in> set xs"
    using longest_common_prefix_prefix1 [of xs ys] by (auto dest: set_mono_prefix)
  then show ?thesis using assms(1) by blast
qed

lemma follows_total:
  assumes "dom_wf r d" and "nodes d a \<noteq> None" and "nodes d b \<noteq> None"
  shows "\<exists>v. follows B d a b = Some v"
proof -
  obtain pa pb where "rootPath d a = Some pa" "rootPath d b = Some pb" "\<forall>m \<in> set pa. nodes d m \<noteq> None"
    using rootPath_total [OF assms(1)] assms(2,3) by metis
  then show ?thesis using common_prefix_nodes [of pa d pb] by (auto simp: follows_def Let_def)
qed

lemma commonAncestorContainer_total:
  assumes "dom_wf r d" and "nodes d a \<noteq> None" and "nodes d b \<noteq> None"
  shows "returns_node d (commonAncestorContainer d a b)"
proof -
  obtain pa pb where "rootPath d a = Some pa" "rootPath d b = Some pb" "\<forall>m \<in> set pa. nodes d m \<noteq> None"
    using rootPath_total [OF assms(1)] assms(2,3) by metis
  then show ?thesis using assms(3) common_prefix_nodes [of pa d pb]
    by (auto simp: commonAncestorContainer_def Let_def returns_node_def)
qed

lemma isOffsetContainer_total:
  assumes "dom_wf r d" and "nodes d n \<noteq> None"
  shows "\<exists>v. isOffsetContainer B d n = Some v"
proof -
  obtain nd where nd: "nodes d n = Some nd" using assms(2) by auto
  have "returns_node d (getOffsetParent B d (firstElementChild nd))"
    using dom_wfD(4) [OF assms(1) nd]
    by (intro getOffsetParent_total [OF assms(1)]) (auto simp: firstElementChild_def split: list.splits)
  then show ?thesis using nd by (auto simp: isOffsetContainer_def returns_node_def split: option.splits)
qed

lemma findCommonOffsetParent_total:
  assumes wf: "dom_wf r d"
  shows "nodes d e1 \<noteq> None \<Longrightarrow> nodes d e2 \<noteq> None \<Longrightarrow> returns_node d (findCommonOffsetParent B d (Some e1) (Some e2))"
proof (induction "r e1 + r e2" arbitrary: e1 e2 rule: less_induct)
  case less
  obtain n1 n2 where n: "nodes d e1 = Some n1" "nodes d e2 = Some n2" using less.prems by auto
  have html: "returns_node d (Some (documentElement d))" using dom_wf_page(1) [OF wf] by (simp add: returns_node_def)
  obtain order where order: "follows B d e1 e2 = Some order" using follows_total [OF wf less.prems] by blast
  let ?s = "if order then e1 else e2" and ?e = "if order then e2 else e1"
  have se: "nodes d ?s \<noteq> None" "nodes d ?e \<noteq> None" using n by auto
  obtain common where common: "commonAncestorContainer d ?s ?e = Some common" "nodes d common \<noteq> None"
    using commonAncestorContainer_total [OF wf se] by (auto elim: returns_nodeE)
  obtain inside where inside: "containsNode d ?s ?e = Some inside" using containsNode_total [OF wf se(2)] by blast
  obtain oc where oc: "isOffsetContainer B d common = Some oc" using isOffsetContainer_total [OF wf common(2)] by blast
  have op: "returns_node d (getOffsetParent B d (Some common))" using common by (intro getOffsetParent_total [OF wf]) auto
  obtain h1 where h1: "rootHost d e1 = Some h1" "\<And>m. h1 = Some m \<Longrightarrow> nodes d m \<noteq> None \<and> r m < r e1"
    using rootHost_total [OF wf less.prems(1)] by blast
  obtain h2 where h2: "rootHost d e2 = Some h2" "\<And>m. h2 = Some m \<Longrightarrow> nodes d m \<noteq> None \<and> r m < r e2"
    using rootHost_total [OF wf less.prems(2)] by blast
  have r1: "h1 = Some m \<Longrightarrow> returns_node d (findCommonOffsetParent B d (Some m) (Some e2))" for m
    using h1(2) less.hyps less.prems by simp
  have r2: "returns_node d (findCommonOffsetParent B d (Some e1) h2)"
    using h2(2) less.hyps less.prems html by (cases h2) (simp_all add: findCommonOffsetParent.simps [of _ _ _ None])
  show ?case
    using n order common inside oc op h1(1) h2(1) r1 r2 html
    by (subst findCommonOffsetParent.simps) (auto simp: Let_def returns_node_def split: option.splits)
qed

lemma isFixed_total:
  assumes wf: "dom_wf r d"
  shows "nodes d n \<noteq> None \<Longrightarrow> \<exists>v. isFixed d n = Some v"
proof (induction "r n" arbitrary: n rule: less_induct)
  case less
  then obtain nd v where nd: "nodes d n = Some nd" and v: "getStyleComputedProperty d n ''position'' = Some v"
    using getStyle_total by blast
  show ?case
  proof (cases "page_root d n \<and> nodeName nd \<noteq> ''#document''")
    case True
    then show ?thesis using nd by (subst isFixed.simps) (auto simp: page_root_def)
  next
    case False
    then obtain p where p: "getParentNode d n = Some p" "\<And>q. p = Some q \<Longrightarrow> nodes d q \<noteq> None \<and> r q < r n"
      using nd dom_wfD(1,2) [OF wf nd] by (cases "parentNode nd") (auto simp: getParentNode_def page_root_def)
    have "\<exists>w. (case p of None \<Rightarrow> Some False | Some q \<Rightarrow> isFixed d q) = Some w"
      using p(2) less.hyps by (cases p) auto
    then show ?thesis using nd v p(1) by (subst isFixed.simps) auto
  qed
qed

lemma parentElement_wf:
  assumes "dom_wf r d" and "parentElement d n = Some p"
  shows "nodes d p \<noteq> None \<and> r p < r n"
proof -
  obtain nd where nd: "nodes d n = Some nd" using assms(2) by (cases "nodes d n") (auto simp: parentElement_def)
  then have "parentNode nd = Some p"
    using assms(2) by (auto simp: parentElement_def split: option.splits if_splits)
  then show ?thesis using dom_wfD(1) [OF assms(1) nd] by simp
qed

lemma transformedParent_total:
  assumes wf: "dom_wf r d"
  shows "(\<And>n. el = Some n \<Longrightarrow> nodes d n \<noteq> None) \<Longrightarrow> returns_node d (transformedParent d el)"
proof (induction "case el of None \<Rightarrow> 0 | Some n \<Rightarrow> Suc (r n)" arbitrary: el rule: less_induct)
  case less
  show ?case
  proof (cases el)
    case None
    then show ?thesis using dom_wf_page(1) [OF wf] by (simp add: transformedParent.simps returns_node_def)
  next
    case (Some n)
    then obtain v where v: "getStyleComputedProperty d n ''transform'' = Some v" using less.prems getStyle_total by blast
    have "returns_node d (transformedParent d (parentElement d n))"
      using parentElement_wf [OF wf, of n] Some by (intro less.hyps) (auto split: option.splits)
    then show ?thesis using v Some less.prems by (subst transformedParent.simps) (auto simp: returns_node_def)
  qed
qed

lemma getFixedPositionOffsetParent_total:
  assumes "dom_wf r d" and "\<And>n. el = Some n \<Longrightarrow> nodes d n \<noteq> None"
  shows "returns_node d (getFixedPositionOffsetParent B d el)"
proof -
  have "returns_node d (transformedParent d (parentElement d n))" for n
    using parentElement_wf [OF assms(1)] by (intro transformedParent_total [OF assms(1)]) blast
  then show ?thesis using dom_wf_page(1) [OF assms(1)]
    by (cases el) (simp_all add: getFixedPositionOffsetParent_def returns_node_def)
qed

section \<open>A small page\<close>

text \<open>A page with a scrolling box that holds a button, and a popper beside the box: the document the
  concrete runs below use. It is 800 by 600 pixels, the button 100 by 20.\<close>

definition plain_node :: "nat \<Rightarrow> string \<Rightarrow> nat option \<Rightarrow> nat list \<Rightarrow> (string \<times> string) list \<Rightarrow> rat \<times> rat \<times> rat \<times> rat \<Rightarrow> node" where
  "plain_node ty name parent kids css box = (case box of (l, t, w, h) \<Rightarrow>
     \<lparr>nodeType = ty, nodeName = name, parentNode = parent, childNodes = kids, host = None, referenceNode = None,
      offsetParent = None,
      computedStyle = map_of (css @ [(''position'', ''static''), (''transform'', ''none''), (''overflow'', ''visible''),
        (''overflowX'', ''visible''), (''overflowY'', ''visible''), (''borderTopWidth'', ''0px''), (''borderLeftWidth'', ''0px''),
        (''borderRightWidth'', ''0px''), (''borderBottomWidth'', ''0px''), (''marginTop'', ''0px''), (''marginLeft'', ''0px''),
        (''marginRight'', ''0px''), (''marginBottom'', ''0px'')]),
      clientWidth = Some w, clientHeight = Some h, offsetWidth = Some w, offsetHeight = Some h,
      scrollWidth = Some w, scrollHeight = Some h, scrollTop = Some 0, scrollLeft = Some 0,
      clientRect = Some (Some l, Some t, Some (l + w), Some (t + h)),
      inlineStyle = (\<lambda>_. CssText []), attributes = (\<lambda>_. None)\<rparr>)"

definition demo_page :: dom where
  "demo_page =
     \<lparr>nodes = map_of
        [(0, plain_node 9 ''#document'' None [1] [] (0, 0, 800, 600)),
         (1, plain_node 1 ''HTML'' (Some 0) [2] [] (0, 0, 800, 600)),
         (2, plain_node 1 ''BODY'' (Some 1) [3, 5] [] (0, 0, 800, 600)),
         (3, plain_node 1 ''DIV'' (Some 2) [4] [(''overflow'', ''auto'')] (100, 100, 400, 300)),
         (4, plain_node 1 ''BUTTON'' (Some 3) [] [] (150, 150, 100, 20)),
         (5, plain_node 1 ''DIV'' (Some 2) [] [(''position'', ''absolute'')] (0, 0, 60, 30))],
      documentNode = 0, documentElement = 1, body = 2, scrollingElement = Some 1\<rparr>"

definition demo_depth :: "nat \<Rightarrow> nat" where
  "demo_depth n = (if n = 5 then 3 else n)"

definition demo_browser :: browser where
  "demo_browser = \<lparr>isIE10 = False, isIE11 = False, userAgent = ''Chrome'', hasPromise = True,
     innerWidth = Some 800, innerHeight = Some 600, disconnectedFollows = (\<lambda>_ _. False), devicePixelRatio = Some 1,
     supportsStyle = (\<lambda>p. p = ''transform''), querySelector = (\<lambda>_ _ _. None), reflow = id\<rparr>"

lemma plain_node_sel [simp]:
  "nodeType (plain_node ty name par kids css box) = ty" "nodeName (plain_node ty name par kids css box) = name"
  "parentNode (plain_node ty name par kids css box) = par" "childNodes (plain_node ty name par kids css box) = kids"
  "host (plain_node ty name par kids css box) = None" "referenceNode (plain_node ty name par kids css box) = None"
  "offsetParent (plain_node ty name par kids css box) = None"
  by (simp_all add: plain_node_def split: prod.splits)

lemma demo_page_sel [simp]:
  "documentNode demo_page = 0" "documentElement demo_page = 1" "body demo_page = 2" "scrollingElement demo_page = Some 1"
  by (simp_all add: demo_page_def)

lemma demo_page_nodes: "(\<exists>nd. nodes demo_page n = Some nd) \<longleftrightarrow> n \<in> {0, 1, 2, 3, 4, 5}"
  by (simp add: demo_page_def)

lemma demo_page_node_wf: "nodes demo_page n = Some nd \<Longrightarrow> node_wf demo_depth demo_page n nd"
  by (simp add: demo_page_def node_wf_def demo_depth_def split: if_split_asm) (auto)

lemma demo_page_wf: "dom_wf demo_depth demo_page"
  by (auto simp: dom_wf_def demo_page_nodes demo_page_node_wf)

text \<open>\<^verbatim>\<open>getScrollParent\<close> ends on every well-formed document. It walks up through parents and shadow
  hosts, past elements that do not scroll, and gives the first one that does; when it meets the page
  itself (document, \<^verbatim>\<open>HTML\<close> or \<^verbatim>\<open>BODY\<close>) or the end of a detached tree first, it gives the body.\<close>

theorem getScrollParent_nearest:
  assumes "dom_wf r d" and "nodes d n \<noteq> None"
  shows "\<exists>path. upward d (n # path) \<and> (\<forall>m \<in> set (butlast (n # path)). \<not> page_root d m \<and> scrolls d m = Some False)
    \<and> (let l = last (n # path) in
         if page_root d l then getScrollParent d (Some n) = Some (body d)
         else if scrolls d l = Some True then getScrollParent d (Some n) = Some l
         else getParentNode d l = Some None \<and> getScrollParent d (Some n) = Some (body d))"
  by (rule getScrollParent_spec [OF assms])

theorem getScrollParent_nearest_witness:
  "\<exists>path. upward demo_page (4 # path) \<and> (let l = last (4 # path) in
         if page_root demo_page l then getScrollParent demo_page (Some 4) = Some (body demo_page)
         else if scrolls demo_page l = Some True then getScrollParent demo_page (Some 4) = Some l
         else getParentNode demo_page l = Some None \<and> getScrollParent demo_page (Some 4) = Some (body demo_page))"
proof -
  have "nodes demo_page 4 \<noteq> None" by (simp add: demo_page_nodes)
  then show ?thesis using getScrollParent_nearest [OF demo_page_wf, of 4] by blast
qed

end
