(* ===== verification/Popper_Layout.thy ===== *)
theory Popper_Layout
  imports Popper_Dom
begin

text \<open>
  Rectangles and placements of the Popper library: scrolled offsets, bounding rectangles, the
  boundaries a popper has to stay in, the automatic placement, and the offsets of a popper beside
  its reference. A missing field of a rectangle is \<open>None\<close>.
\<close>

section \<open>Rectangles\<close>

record rect =
  r_left :: jsnum
  r_top :: jsnum
  r_width :: jsnum
  r_height :: jsnum
  r_right :: jsnum
  r_bottom :: jsnum
  r_marginTop :: jsnum
  r_marginLeft :: jsnum

definition no_rect :: rect where
  "no_rect = \<lparr>r_left = None, r_top = None, r_width = None, r_height = None, r_right = None, r_bottom = None,
     r_marginTop = None, r_marginLeft = None\<rparr>"

text \<open>\<^verbatim>\<open>rect[side]\<close> with a computed name, read and written.\<close>

definition rect_get :: "rect \<Rightarrow> string \<Rightarrow> jsnum" where
  "rect_get r s =
     (if s = ''left'' then r_left r else if s = ''top'' then r_top r
      else if s = ''right'' then r_right r else if s = ''bottom'' then r_bottom r
      else if s = ''width'' then r_width r else if s = ''height'' then r_height r else None)"

definition rect_set :: "string \<Rightarrow> jsnum \<Rightarrow> rect \<Rightarrow> rect" where
  "rect_set s v r =
     (if s = ''left'' then r\<lparr>r_left := v\<rparr> else if s = ''top'' then r\<lparr>r_top := v\<rparr>
      else if s = ''right'' then r\<lparr>r_right := v\<rparr> else if s = ''bottom'' then r\<lparr>r_bottom := v\<rparr>
      else if s = ''width'' then r\<lparr>r_width := v\<rparr> else if s = ''height'' then r\<lparr>r_height := v\<rparr> else r)"

definition getClientRect :: "rect \<Rightarrow> rect" where
  "getClientRect offsets =
     offsets\<lparr>r_right := r_left offsets + r_width offsets, r_bottom := r_top offsets + r_height offsets\<rparr>"

section \<open>Scroll and size\<close>

datatype axis = Height | Width

definition getScroll :: "dom \<Rightarrow> nat \<Rightarrow> string \<Rightarrow> jsnum option" where
  "getScroll d n side =
     do {
       let upperSide = (if side = ''top'' then scrollTop else scrollLeft);
       nd \<leftarrow> nodes d n;
       if nodeName nd = ''BODY'' \<or> nodeName nd = ''HTML''
       then do {
         sd \<leftarrow> nodes d (case scrollingElement d of None \<Rightarrow> documentElement d | Some s \<Rightarrow> s);
         Some (upperSide sd)
       }
       else Some (upperSide nd)
     }"

definition includeScroll :: "dom \<Rightarrow> rect \<Rightarrow> nat \<Rightarrow> bool \<Rightarrow> rect option" where
  "includeScroll d rect n subtract =
     do {
       scrollTop \<leftarrow> getScroll d n ''top'';
       scrollLeft \<leftarrow> getScroll d n ''left'';
       let modifier = (if subtract then Some (-1) else Some 1);
       Some (rect\<lparr>r_top := r_top rect + scrollTop * modifier, r_bottom := r_bottom rect + scrollTop * modifier,
                  r_left := r_left rect + scrollLeft * modifier, r_right := r_right rect + scrollLeft * modifier\<rparr>)
     }"

text \<open>\<^verbatim>\<open>parseFloat\<close> of a computed property that may be missing.\<close>

definition cssFloat :: "dom \<Rightarrow> nat \<Rightarrow> string \<Rightarrow> jsnum option" where
  "cssFloat d n property = do { v \<leftarrow> getStyleComputedProperty d n property;
     Some (parse_float (case v of None \<Rightarrow> ''undefined'' | Some s \<Rightarrow> s)) }"

definition getBordersSize :: "dom \<Rightarrow> nat \<Rightarrow> string \<Rightarrow> jsnum option" where
  "getBordersSize d n axis =
     do {
       let sideA = (if axis = ''x'' then ''Left'' else ''Top'');
       let sideB = (if sideA = ''Left'' then ''Right'' else ''Bottom'');
       a \<leftarrow> cssFloat d n (''border'' @ sideA @ ''Width'');
       b \<leftarrow> cssFloat d n (''border'' @ sideB @ ''Width'');
       Some (a + b)
     }"

definition dims :: "axis \<Rightarrow> node \<Rightarrow> jsnum \<times> jsnum \<times> jsnum" where
  "dims axis nd = (case axis of
     Height \<Rightarrow> (offsetHeight nd, scrollHeight nd, clientHeight nd)
   | Width \<Rightarrow> (offsetWidth nd, scrollWidth nd, clientWidth nd))"

text \<open>\<^verbatim>\<open>parseInt\<close> of a style value, and of a number.\<close>

definition styleInt :: "node \<Rightarrow> string \<Rightarrow> jsnum" where
  "styleInt nd property = (case computedStyle nd property of
     None \<Rightarrow> None | Some s \<Rightarrow> map_option of_int (parse_int s))"

definition getSize :: "browser \<Rightarrow> axis \<Rightarrow> node \<Rightarrow> node \<Rightarrow> jsnum" where
  "getSize B axis bodyNode html =
     (case (dims axis bodyNode, dims axis html) of
       ((bo, bs, _), (ho, hs, hc)) \<Rightarrow>
         js_max bo (js_max bs (js_max hc (js_max ho (js_max hs
           (if isIE B (Some 10)
            then map_option (of_int \<circ> parse_int_num) ho
               + styleInt html (''margin'' @ (if axis = Height then ''Top'' else ''Left''))
               + styleInt html (''margin'' @ (if axis = Height then ''Bottom'' else ''Right''))
            else Some 0))))))"

definition getWindowSizes :: "browser \<Rightarrow> dom \<Rightarrow> (jsnum \<times> jsnum) option" where
  "getWindowSizes B d =
     do {
       bd \<leftarrow> nodes d (body d);
       html \<leftarrow> nodes d (documentElement d);
       Some (getSize B Height bd html, getSize B Width bd html)
     }"

section \<open>Bounding rectangles\<close>

definition getBoundingClientRect :: "browser \<Rightarrow> dom \<Rightarrow> nat \<Rightarrow> rect option" where
  "getBoundingClientRect B d n =
     do {
       nd \<leftarrow> nodes d n;
       (left, top, right, bottom) \<leftarrow>
         (case clientRect nd of
            None \<Rightarrow> Some (None, None, None, None)
          | Some (l, t, r, b) \<Rightarrow>
              if isIE B (Some 10)
              then do { st \<leftarrow> getScroll d n ''top''; sl \<leftarrow> getScroll d n ''left'';
                        Some (l + sl, t + st, r + sl, b + st) }
              else Some (l, t, r, b));
       let result = no_rect\<lparr>r_left := left, r_top := top, r_width := right - left, r_height := bottom - top\<rparr>;
       (sh, sw) \<leftarrow> (if nodeName nd = ''HTML'' then getWindowSizes B d else Some (None, None));
       let width = js_or sw (js_or (clientWidth nd) (r_width result));
       let height = js_or sh (js_or (clientHeight nd) (r_height result));
       let horizScrollbar = offsetWidth nd - width;
       let vertScrollbar = offsetHeight nd - height;
       if js_truthy horizScrollbar \<or> js_truthy vertScrollbar
       then do {
         bx \<leftarrow> getBordersSize d n ''x'';
         by' \<leftarrow> getBordersSize d n ''y'';
         Some (getClientRect (result\<lparr>r_width := r_width result - (horizScrollbar - bx),
                                     r_height := r_height result - (vertScrollbar - by')\<rparr>))
       }
       else Some (getClientRect result)
     }"

definition getOffsetRectRelativeToArbitraryNode :: "browser \<Rightarrow> dom \<Rightarrow> nat \<Rightarrow> nat \<Rightarrow> bool \<Rightarrow> rect option" where
  "getOffsetRectRelativeToArbitraryNode B d children parent fixedPosition =
     do {
       pd \<leftarrow> nodes d parent;
       let isHTML = (nodeName pd = ''HTML'');
       childrenRect \<leftarrow> getBoundingClientRect B d children;
       parentRect0 \<leftarrow> getBoundingClientRect B d parent;
       scrollParent \<leftarrow> getScrollParent d (Some children);
       borderTopWidth \<leftarrow> cssFloat d parent ''borderTopWidth'';
       borderLeftWidth \<leftarrow> cssFloat d parent ''borderLeftWidth'';
       let parentRect = (if fixedPosition \<and> isHTML
             then parentRect0\<lparr>r_top := js_max (r_top parentRect0) (Some 0), r_left := js_max (r_left parentRect0) (Some 0)\<rparr>
             else parentRect0);
       let offsets = (getClientRect (no_rect\<lparr>
             r_top := r_top childrenRect - r_top parentRect - borderTopWidth,
             r_left := r_left childrenRect - r_left parentRect - borderLeftWidth,
             r_width := r_width childrenRect, r_height := r_height childrenRect\<rparr>))\<lparr>
             r_marginTop := Some 0, r_marginLeft := Some 0\<rparr>;
       offsets1 \<leftarrow> (if \<not> isIE B (Some 10) \<and> isHTML
         then do {
           marginTop \<leftarrow> cssFloat d parent ''marginTop'';
           marginLeft \<leftarrow> cssFloat d parent ''marginLeft'';
           Some (offsets\<lparr>r_top := r_top offsets - (borderTopWidth - marginTop),
                         r_bottom := r_bottom offsets - (borderTopWidth - marginTop),
                         r_left := r_left offsets - (borderLeftWidth - marginLeft),
                         r_right := r_right offsets - (borderLeftWidth - marginLeft),
                         r_marginTop := marginTop, r_marginLeft := marginLeft\<rparr>)
         }
         else Some offsets);
       scroll \<leftarrow> (if isIE B (Some 10) \<and> \<not> fixedPosition then containsNode d parent scrollParent
                  else do { sd \<leftarrow> nodes d scrollParent; Some (parent = scrollParent \<and> nodeName sd \<noteq> ''BODY'') });
       if scroll then includeScroll d offsets1 parent False else Some offsets1
     }"

definition getViewportOffsetRectRelativeToArtbitraryNode :: "browser \<Rightarrow> dom \<Rightarrow> nat \<Rightarrow> bool \<Rightarrow> rect option" where
  "getViewportOffsetRectRelativeToArtbitraryNode B d element excludeScroll =
     do {
       let html = documentElement d;
       hd' \<leftarrow> nodes d html;
       relativeOffset \<leftarrow> getOffsetRectRelativeToArbitraryNode B d element html False;
       let width = js_max (clientWidth hd') (js_or (innerWidth B) (Some 0));
       let height = js_max (clientHeight hd') (js_or (innerHeight B) (Some 0));
       scrollTop \<leftarrow> (if \<not> excludeScroll then getScroll d html ''top'' else Some (Some 0));
       scrollLeft \<leftarrow> (if \<not> excludeScroll then getScroll d html ''left'' else Some (Some 0));
       Some (getClientRect (no_rect\<lparr>
         r_top := scrollTop - r_top relativeOffset + r_marginTop relativeOffset,
         r_left := scrollLeft - r_left relativeOffset + r_marginLeft relativeOffset,
         r_width := width, r_height := height\<rparr>))
     }"

section \<open>Boundaries\<close>

datatype boundaries_element = BViewport | BScrollParent | BWindow | BElement nat

datatype padding = PadNumber jsnum | PadSides jsnum jsnum jsnum jsnum

text \<open>\<^verbatim>\<open>padding = padding || 0\<close>, then the number itself or one of left, top, right, bottom.\<close>

definition pad_side :: "padding \<Rightarrow> string \<Rightarrow> jsnum" where
  "pad_side padding side =
     (case padding of
        PadNumber v \<Rightarrow> js_or v (Some 0)
      | PadSides l t r b \<Rightarrow>
          js_or (if side = ''left'' then l else if side = ''top'' then t else if side = ''right'' then r else b) (Some 0))"

definition getBoundaries ::
  "browser \<Rightarrow> dom \<Rightarrow> nat \<Rightarrow> nat \<Rightarrow> padding \<Rightarrow> boundaries_element \<Rightarrow> bool \<Rightarrow> rect option" where
  "getBoundaries B d popper reference padding boundariesElement fixedPosition =
     do {
       offsetParent \<leftarrow> (if fixedPosition then getFixedPositionOffsetParent B d (Some popper)
                        else findCommonOffsetParent B d (Some popper) (Some (getReferenceNode d reference)));
       boundaries \<leftarrow>
         (if boundariesElement = BViewport
          then getViewportOffsetRectRelativeToArtbitraryNode B d offsetParent fixedPosition
          else do {
            boundariesNode \<leftarrow>
              (case boundariesElement of
                 BScrollParent \<Rightarrow> do {
                   p \<leftarrow> getParentNode d reference;
                   s \<leftarrow> getScrollParent d p;
                   sd \<leftarrow> nodes d s;
                   Some (if nodeName sd = ''BODY'' then documentElement d else s) }
               | BElement e \<Rightarrow> Some e
               | _ \<Rightarrow> Some (documentElement d));
            offsets \<leftarrow> getOffsetRectRelativeToArbitraryNode B d boundariesNode offsetParent fixedPosition;
            bn \<leftarrow> nodes d boundariesNode;
            html \<leftarrow> (if nodeName bn = ''HTML'' then map_option Not (isFixed d offsetParent) else Some False);
            if html
            then do {
              (height, width) \<leftarrow> getWindowSizes B d;
              Some (no_rect\<lparr>r_top := Some 0 + (r_top offsets - r_marginTop offsets),
                            r_bottom := height + r_top offsets,
                            r_left := Some 0 + (r_left offsets - r_marginLeft offsets),
                            r_right := width + r_left offsets\<rparr>)
            }
            else Some offsets
          });
       Some (boundaries\<lparr>r_left := r_left boundaries + pad_side padding ''left'',
                        r_top := r_top boundaries + pad_side padding ''top'',
                        r_right := r_right boundaries - pad_side padding ''right'',
                        r_bottom := r_bottom boundaries - pad_side padding ''bottom''\<rparr>)
     }"

section \<open>Placements\<close>

definition getArea :: "jsnum \<Rightarrow> jsnum \<Rightarrow> jsnum" where
  "getArea width height = width * height"

text \<open>One candidate side with the room it has.\<close>

record side_room =
  sr_key :: string
  sr_width :: jsnum
  sr_height :: jsnum

definition side_rooms :: "rect \<Rightarrow> rect \<Rightarrow> side_room list" where
  "side_rooms boundaries refRect =
     [\<lparr>sr_key = ''top'', sr_width = r_width boundaries, sr_height = r_top refRect - r_top boundaries\<rparr>,
      \<lparr>sr_key = ''right'', sr_width = r_right boundaries - r_right refRect, sr_height = r_height boundaries\<rparr>,
      \<lparr>sr_key = ''bottom'', sr_width = r_width boundaries, sr_height = r_bottom boundaries - r_bottom refRect\<rparr>,
      \<lparr>sr_key = ''left'', sr_width = r_left refRect - r_left boundaries, sr_height = r_height boundaries\<rparr>]"

definition room_area :: "side_room \<Rightarrow> jsnum" where
  "room_area s = getArea (sr_width s) (sr_height s)"

text \<open>The choice among the candidates, and \<^verbatim>\<open>computeAutoPlacement\<close> itself.\<close>

definition pick_side :: "rect \<Rightarrow> rect \<Rightarrow> jsnum \<Rightarrow> jsnum \<Rightarrow> string" where
  "pick_side boundaries refRect w h =
     (let sortedAreas = js_sort (\<lambda>a b. room_area b - room_area a) (side_rooms boundaries refRect);
          filteredAreas = filter (\<lambda>s. js_le w (sr_width s) \<and> js_le h (sr_height s)) sortedAreas
      in sr_key (if filteredAreas \<noteq> [] then hd filteredAreas else hd sortedAreas))"

definition variation_of :: "string \<Rightarrow> string option" where
  "variation_of placement = (case js_split CHR ''-'' placement of _ # v # _ \<Rightarrow> Some v | _ \<Rightarrow> None)"

definition with_variation :: "string \<Rightarrow> string option \<Rightarrow> string" where
  "with_variation base v = base @ (case v of None \<Rightarrow> [] | Some s \<Rightarrow> if s = [] then [] else ''-'' @ s)"

definition computeAutoPlacement ::
  "browser \<Rightarrow> dom \<Rightarrow> string \<Rightarrow> rect \<Rightarrow> nat \<Rightarrow> nat \<Rightarrow> boundaries_element \<Rightarrow> padding \<Rightarrow> string option" where
  "computeAutoPlacement B d placement refRect popper reference boundariesElement padding =
     (if \<not> js_contains placement ''auto'' then Some placement
      else do {
        boundaries \<leftarrow> getBoundaries B d popper reference padding boundariesElement False;
        pd \<leftarrow> nodes d popper;
        Some (with_variation (pick_side boundaries refRect (clientWidth pd) (clientHeight pd)) (variation_of placement))
      })"

definition getReferenceOffsets :: "browser \<Rightarrow> dom \<Rightarrow> nat \<Rightarrow> nat \<Rightarrow> bool \<Rightarrow> rect option" where
  "getReferenceOffsets B d popper reference fixedPosition =
     do {
       commonOffsetParent \<leftarrow>
         (if fixedPosition then getFixedPositionOffsetParent B d (Some popper)
          else findCommonOffsetParent B d (Some popper) (Some (getReferenceNode d reference)));
       getOffsetRectRelativeToArbitraryNode B d reference commonOffsetParent fixedPosition
     }"

text \<open>\<^verbatim>\<open>parseFloat(styles.marginTop || 0)\<close>.\<close>

definition marginFloat :: "node \<Rightarrow> string \<Rightarrow> jsnum" where
  "marginFloat nd property = (case computedStyle nd property of
     None \<Rightarrow> Some 0 | Some s \<Rightarrow> if s = [] then Some 0 else parse_float s)"

definition getOuterSizes :: "dom \<Rightarrow> nat \<Rightarrow> (jsnum \<times> jsnum) option" where
  "getOuterSizes d n =
     do {
       nd \<leftarrow> nodes d n;
       let x = marginFloat nd ''marginTop'' + marginFloat nd ''marginBottom'';
       let y = marginFloat nd ''marginLeft'' + marginFloat nd ''marginRight'';
       Some (offsetWidth nd + y, offsetHeight nd + x)
     }"

text \<open>\<^verbatim>\<open>placement.replace(/left|right|bottom|top/g, ...)\<close>.\<close>

function getOppositePlacement :: "string \<Rightarrow> string" where
  "getOppositePlacement s =
     (if take 4 s = ''left'' then ''right'' @ getOppositePlacement (drop 4 s)
      else if take 5 s = ''right'' then ''left'' @ getOppositePlacement (drop 5 s)
      else if take 6 s = ''bottom'' then ''top'' @ getOppositePlacement (drop 6 s)
      else if take 3 s = ''top'' then ''bottom'' @ getOppositePlacement (drop 3 s)
      else case s of [] \<Rightarrow> [] | c # cs \<Rightarrow> c # getOppositePlacement cs)"
  by pat_completeness auto
termination
  by (relation "measure length") (auto simp: neq_Nil_conv dest: arg_cong [where f = length])

declare getOppositePlacement.simps [simp del]

text \<open>The base of a placement: \<^verbatim>\<open>placement.split('-')[0]\<close>.\<close>

definition base_of :: "string \<Rightarrow> string" where
  "base_of placement = hd (js_split CHR ''-'' placement)"

definition place_beside :: "jsnum \<times> jsnum \<Rightarrow> rect \<Rightarrow> string \<Rightarrow> rect" where
  "place_beside outer referenceOffsets placement =
     (let popperRect = no_rect\<lparr>r_width := fst outer, r_height := snd outer\<rparr>;
          isHoriz = (placement \<in> set [''right'', ''left'']);
          mainSide = (if isHoriz then ''top'' else ''left'');
          secondarySide = (if isHoriz then ''left'' else ''top'');
          measurement = (if isHoriz then ''height'' else ''width'');
          secondaryMeasurement = (if \<not> isHoriz then ''height'' else ''width'');
          popperOffsets = rect_set mainSide
            (rect_get referenceOffsets mainSide + js_half (rect_get referenceOffsets measurement)
             - js_half (rect_get popperRect measurement)) popperRect
      in if placement = secondarySide
         then rect_set secondarySide (rect_get referenceOffsets secondarySide - rect_get popperRect secondaryMeasurement) popperOffsets
         else rect_set secondarySide (rect_get referenceOffsets (getOppositePlacement secondarySide)) popperOffsets)"

definition getPopperOffsets :: "dom \<Rightarrow> nat \<Rightarrow> rect \<Rightarrow> string \<Rightarrow> rect option" where
  "getPopperOffsets d popper referenceOffsets placement =
     do {
       popperRect \<leftarrow> getOuterSizes d popper;
       Some (place_beside popperRect referenceOffsets (base_of placement))
     }"

section \<open>The measurements are defined on well-formed documents\<close>

lemma getScroll_total: "dom_wf r d \<Longrightarrow> nodes d n \<noteq> None \<Longrightarrow> \<exists>v. getScroll d n side = Some v"
  using dom_wf_page [of r d] by (auto simp: getScroll_def Let_def split: option.splits)

lemma includeScroll_total: "dom_wf r d \<Longrightarrow> nodes d n \<noteq> None \<Longrightarrow> \<exists>v. includeScroll d rect n sub = Some v"
  using getScroll_total [of r d n "''top''"] getScroll_total [of r d n "''left''"] by (auto simp: includeScroll_def Let_def)

lemma cssFloat_total: "nodes d n \<noteq> None \<Longrightarrow> \<exists>v. cssFloat d n p = Some v"
  using getStyle_total [of d n p] by (auto simp: cssFloat_def)

lemma getBordersSize_total: "nodes d n \<noteq> None \<Longrightarrow> \<exists>v. getBordersSize d n axis = Some v"
  using cssFloat_total [of d n] by (simp add: getBordersSize_def Let_def) (metis bind.bind_lunit)

lemma getWindowSizes_total: "dom_wf r d \<Longrightarrow> \<exists>h w. getWindowSizes B d = Some (h, w)"
  using dom_wf_page [of r d] by (auto simp: getWindowSizes_def)

lemma getBoundingClientRect_total:
  assumes "dom_wf r d" and "nodes d n \<noteq> None"
  shows "\<exists>v. getBoundingClientRect B d n = Some v"
proof -
  obtain nd where nd: "nodes d n = Some nd" using assms(2) by auto
  obtain st sl where sc: "getScroll d n ''top'' = Some st" "getScroll d n ''left'' = Some sl"
    using getScroll_total [OF assms] by metis
  obtain bx by' where b: "getBordersSize d n ''x'' = Some bx" "getBordersSize d n ''y'' = Some by'"
    using getBordersSize_total [OF assms(2)] by metis
  obtain h w where "getWindowSizes B d = Some (h, w)" using getWindowSizes_total [OF assms(1)] by blast
  then show ?thesis using nd sc b
    by (cases "clientRect nd") (auto simp: getBoundingClientRect_def Let_def split: prod.splits)
qed

lemma getOffsetRect_total:
  assumes "dom_wf r d" and "nodes d c \<noteq> None" and "nodes d p \<noteq> None"
  shows "\<exists>v. getOffsetRectRelativeToArbitraryNode B d c p fixed = Some v"
proof -
  obtain pd where pd: "nodes d p = Some pd" using assms(3) by auto
  obtain cr pr where rects: "getBoundingClientRect B d c = Some cr" "getBoundingClientRect B d p = Some pr"
    using getBoundingClientRect_total [OF assms(1)] assms(2,3) by metis
  obtain sp sd where sp: "getScrollParent d (Some c) = Some sp" and sd: "nodes d sp = Some sd"
    using getScrollParent_total [OF assms(1), of "Some c"] assms(2) by (auto elim: returns_nodeE)
  obtain cn where cn: "containsNode d p sp = Some cn" using containsNode_total [OF assms(1)] sd by blast
  have css: "\<exists>v. cssFloat d p k = Some v" for k by (rule cssFloat_total [OF assms(3)])
  have inc: "\<exists>v. includeScroll d rc p False = Some v" for rc by (rule includeScroll_total [OF assms(1,3)])
  then have inc_sp: "p = sp \<Longrightarrow> \<exists>v. includeScroll d rc sp False = Some v" for rc by simp
  obtain bt bl mt ml where c: "cssFloat d p ''borderTopWidth'' = Some bt" "cssFloat d p ''borderLeftWidth'' = Some bl"
    "cssFloat d p ''marginTop'' = Some mt" "cssFloat d p ''marginLeft'' = Some ml" using css by metis
  show ?thesis unfolding getOffsetRectRelativeToArbitraryNode_def using pd rects sp sd cn c inc
    by (cases "nodeName pd = ''HTML''"; cases "isIE B (Some 10)"; cases fixed) (simp_all add: Let_def inc_sp)
qed

lemma getViewport_total:
  assumes "dom_wf r d" and "nodes d n \<noteq> None"
  shows "\<exists>v. getViewportOffsetRectRelativeToArtbitraryNode B d n ex = Some v"
proof -
  have html: "nodes d (documentElement d) \<noteq> None" by (rule dom_wf_page(1) [OF assms(1)])
  obtain v where "getOffsetRectRelativeToArbitraryNode B d n (documentElement d) False = Some v"
    using getOffsetRect_total [OF assms html] by blast
  moreover obtain t l where "getScroll d (documentElement d) ''top'' = Some t" "getScroll d (documentElement d) ''left'' = Some l"
    using getScroll_total [OF assms(1) html] by metis
  ultimately show ?thesis using html
    by (auto simp: getViewportOffsetRectRelativeToArtbitraryNode_def Let_def)
qed

lemma offset_parent_total:
  assumes "dom_wf r d" and "nodes d popper \<noteq> None" and "nodes d ref \<noteq> None"
  shows "returns_node d (if fixed then getFixedPositionOffsetParent B d (Some popper)
           else findCommonOffsetParent B d (Some popper) (Some (getReferenceNode d ref)))"
proof -
  have "nodes d (getReferenceNode d ref) \<noteq> None"
    using assms(3) dom_wfD(5) [OF assms(1)] by (auto simp: getReferenceNode_def split: option.splits)
  then show ?thesis using getFixedPositionOffsetParent_total [OF assms(1), of "Some popper"]
      findCommonOffsetParent_total [OF assms(1,2)] assms(2) by auto
qed

definition boundary_ok :: "dom \<Rightarrow> boundaries_element \<Rightarrow> bool" where
  "boundary_ok d be = (case be of BElement e \<Rightarrow> nodes d e \<noteq> None | _ \<Rightarrow> True)"

lemma getParentNode_total:
  assumes "dom_wf r d" and "nodes d n \<noteq> None"
  shows "\<exists>p. getParentNode d n = Some p \<and> (\<forall>q. p = Some q \<longrightarrow> nodes d q \<noteq> None)"
proof -
  obtain nd where nd: "nodes d n = Some nd" using assms(2) by auto
  then show ?thesis using dom_wfD(1,2) [OF assms(1) nd] by (cases "parentNode nd") (auto simp: getParentNode_def)
qed

lemma boundaries_node_total:
  assumes "dom_wf r d" and "nodes d ref \<noteq> None" and "boundary_ok d be"
  shows "returns_node d (case be of
      BScrollParent \<Rightarrow> do { p \<leftarrow> getParentNode d ref; s \<leftarrow> getScrollParent d p; sd \<leftarrow> nodes d s;
        Some (if nodeName sd = ''BODY'' then documentElement d else s) }
    | BElement e \<Rightarrow> Some e | _ \<Rightarrow> Some (documentElement d))"
proof (cases be)
  case BScrollParent
  obtain p where p: "getParentNode d ref = Some p" "\<And>q. p = Some q \<Longrightarrow> nodes d q \<noteq> None"
    using getParentNode_total [OF assms(1,2)] by blast
  then obtain s sd where "getScrollParent d p = Some s" "nodes d s = Some sd"
    using returns_nodeE [OF getScrollParent_total [OF assms(1), of p]] p(2) by blast
  then show ?thesis using p BScrollParent dom_wf_page(1) [OF assms(1)] by (simp add: returns_node_def)
qed (use assms dom_wf_page(1) [OF assms(1)] in \<open>simp_all add: boundary_ok_def returns_node_def\<close>)

lemma getBoundaries_total:
  assumes "dom_wf r d" and "nodes d popper \<noteq> None" and "nodes d ref \<noteq> None" and "boundary_ok d be"
  shows "\<exists>v. getBoundaries B d popper ref pad be fixed = Some v"
proof -
  obtain op where op: "(if fixed then getFixedPositionOffsetParent B d (Some popper)
      else findCommonOffsetParent B d (Some popper) (Some (getReferenceNode d ref))) = Some op" "nodes d op \<noteq> None"
    using returns_nodeE [OF offset_parent_total [OF assms(1-3), where fixed = fixed and B = B]] by blast
  obtain vp where vp: "getViewportOffsetRectRelativeToArtbitraryNode B d op fixed = Some vp"
    using getViewport_total [OF assms(1) op(2)] by blast
  obtain bn bd where bn: "(case be of
      BScrollParent \<Rightarrow> do { p \<leftarrow> getParentNode d ref; s \<leftarrow> getScrollParent d p; sd \<leftarrow> nodes d s;
        Some (if nodeName sd = ''BODY'' then documentElement d else s) }
    | BElement e \<Rightarrow> Some e | _ \<Rightarrow> Some (documentElement d)) = Some bn" and bd: "nodes d bn = Some bd"
    using boundaries_node_total [OF assms(1,3,4)] by (auto elim: returns_nodeE)
  obtain off where off: "getOffsetRectRelativeToArbitraryNode B d bn op fixed = Some off"
    using getOffsetRect_total [OF assms(1)] bd op(2) by blast
  obtain fx where fx: "isFixed d op = Some fx" using isFixed_total [OF assms(1) op(2)] by blast
  obtain h w where ws: "getWindowSizes B d = Some (h, w)" using getWindowSizes_total [OF assms(1)] by blast
  show ?thesis unfolding getBoundaries_def op(1) bn using vp bd off fx ws
    by (cases "be = BViewport"; cases "nodeName bd = ''HTML''"; cases fx) simp_all
qed

lemma getReferenceOffsets_total:
  assumes "dom_wf r d" and "nodes d popper \<noteq> None" and "nodes d ref \<noteq> None"
  shows "\<exists>v. getReferenceOffsets B d popper ref fixed = Some v"
proof -
  obtain op where op: "(if fixed then getFixedPositionOffsetParent B d (Some popper)
      else findCommonOffsetParent B d (Some popper) (Some (getReferenceNode d ref))) = Some op" "nodes d op \<noteq> None"
    using returns_nodeE [OF offset_parent_total [OF assms, where fixed = fixed and B = B]] by blast
  then show ?thesis unfolding getReferenceOffsets_def op(1) using getOffsetRect_total [OF assms(1,3) op(2)] by simp
qed

lemma getOuterSizes_total: "nodes d n \<noteq> None \<Longrightarrow> \<exists>w h. getOuterSizes d n = Some (w, h)"
  by (auto simp: getOuterSizes_def Let_def)

lemma getPopperOffsets_total: "nodes d n \<noteq> None \<Longrightarrow> \<exists>v. getPopperOffsets d n ref pl = Some v"
  using getOuterSizes_total [of d n] by (auto simp: getPopperOffsets_def)

lemma computeAutoPlacement_total:
  assumes "dom_wf r d" and "nodes d popper \<noteq> None" and "nodes d ref \<noteq> None" and "boundary_ok d be"
  shows "\<exists>v. computeAutoPlacement B d pl rc popper ref be pad = Some v"
  using getBoundaries_total [OF assms, of B pad False] assms(2) by (auto simp: computeAutoPlacement_def)

section \<open>The automatic placement\<close>

definition fits :: "jsnum \<Rightarrow> jsnum \<Rightarrow> side_room \<Rightarrow> bool" where
  "fits w h s = (js_le w (sr_width s) \<and> js_le h (sr_height s))"

interpretation room_order: comparator_on "{s. room_area s \<noteq> None}" "\<lambda>a b. room_area b - room_area a"
  by (rule comparator_key_desc)

lemma hd_filter_sorted:
  "sorted_wrt R xs \<Longrightarrow> filter P xs \<noteq> [] \<Longrightarrow> reflp_on (set xs) R \<Longrightarrow>
   P (hd (filter P xs)) \<and> hd (filter P xs) \<in> set xs \<and> (\<forall>x \<in> set xs. P x \<longrightarrow> R (hd (filter P xs)) x)"
  by (induction xs) (auto simp: reflp_on_def)

lemma pick_side_spec:
  assumes area: "\<forall>s \<in> set (side_rooms b rc). room_area s \<noteq> None"
  shows "\<exists>s \<in> set (side_rooms b rc). pick_side b rc w h = sr_key s
    \<and> (fits w h s \<or> (\<forall>t \<in> set (side_rooms b rc). \<not> fits w h t))
    \<and> (\<forall>t \<in> set (side_rooms b rc). fits w h t \<or> \<not> fits w h s \<longrightarrow> js_le (room_area t) (room_area s))"
proof -
  let ?c = "\<lambda>a b. room_area b - room_area a"
  let ?S = "js_sort ?c (side_rooms b rc)"
  have sorted: "sorted_wrt (cmp_le ?c) ?S" using area by (intro room_order.sorted_js_sort) auto
  have refl: "reflp_on (set ?S) (cmp_le ?c)"
    by (auto simp: reflp_on_def cmp_le_def js_pos_minus js_lt_def split: option.splits)
  have le: "js_le (room_area t) (room_area s)" if "cmp_le ?c s t" "s \<in> set ?S" "t \<in> set ?S" for s t
    using that area by (auto simp: cmp_le_def js_pos_minus js_lt_def js_le_def split: option.splits)
  have ne: "?S \<noteq> []" by (metis length_js_sort length_0_conv side_rooms_def list.distinct(1))
  show ?thesis
  proof (cases "filter (fits w h) ?S = []")
    case True
    then have none: "\<forall>t \<in> set (side_rooms b rc). \<not> fits w h t" by (simp add: filter_empty_conv)
    have "pick_side b rc w h = sr_key (hd ?S)" using True by (simp add: pick_side_def fits_def [abs_def] Let_def)
    moreover have "hd ?S \<in> set (side_rooms b rc)" using ne by (metis hd_in_set set_js_sort)
    moreover have "js_le (room_area t) (room_area (hd ?S))" if "t \<in> set (side_rooms b rc)" for t
      using hd_filter_sorted [OF sorted _ refl, of "\<lambda>_. True"] ne le that by auto
    ultimately show ?thesis using none by blast
  next
    case False
    then have "pick_side b rc w h = sr_key (hd (filter (fits w h) ?S))"
      by (simp add: pick_side_def fits_def [abs_def] Let_def)
    then show ?thesis using hd_filter_sorted [OF sorted False refl] le
      by (intro bexI [of _ "hd (filter (fits w h) ?S)"]) auto
  qed
qed

text \<open>An \<^verbatim>\<open>auto\<close> placement becomes one of the four sides and keeps its variation. When the popper fits
  beside the reference on some side, the side chosen is one where it fits, with the largest area among
  those; when it fits nowhere, it is a side of largest area.\<close>

theorem auto_placement_best_side:
  assumes "js_contains placement ''auto''"
    and "getBoundaries B d popper reference padding be False = Some b"
    and "nodes d popper = Some pd"
    and "\<forall>s \<in> set (side_rooms b refRect). room_area s \<noteq> None"
  shows "\<exists>s \<in> set (side_rooms b refRect).
      computeAutoPlacement B d placement refRect popper reference be padding
        = Some (with_variation (sr_key s) (variation_of placement))
    \<and> (let fit = fits (clientWidth pd) (clientHeight pd) in
        (fit s \<or> (\<forall>t \<in> set (side_rooms b refRect). \<not> fit t))
      \<and> (\<forall>t \<in> set (side_rooms b refRect). fit t \<or> \<not> fit s \<longrightarrow> js_le (room_area t) (room_area s)))"
  using pick_side_spec [OF assms(4), of "clientWidth pd" "clientHeight pd"] assms(1-3)
  by (auto simp: computeAutoPlacement_def Let_def)

definition box :: "rat \<Rightarrow> rat \<Rightarrow> rat \<Rightarrow> rat \<Rightarrow> rect" where
  "box l t w h = getClientRect (no_rect\<lparr>r_left := Some l, r_top := Some t, r_width := Some w, r_height := Some h\<rparr>)"

text \<open>A complete rectangle at a place of a size.\<close>

definition is_box :: "rect \<Rightarrow> rat \<Rightarrow> rat \<Rightarrow> rat \<Rightarrow> rat \<Rightarrow> bool" where
  "is_box r l t w h \<longleftrightarrow> r_left r = Some l \<and> r_top r = Some t \<and> r_width r = Some w \<and> r_height r = Some h
     \<and> r_right r = Some (l + w) \<and> r_bottom r = Some (t + h)"

lemma is_box_box: "is_box (box l t w h) l t w h"
  by (simp add: is_box_def box_def getClientRect_def no_rect_def)

lemma is_box_get:
  assumes "is_box r l t w h"
  shows "rect_get r ''left'' = Some l" "rect_get r ''top'' = Some t" "rect_get r ''width'' = Some w"
    "rect_get r ''height'' = Some h" "rect_get r ''right'' = Some (l + w)" "rect_get r ''bottom'' = Some (t + h)"
  using assms by (simp_all add: is_box_def rect_get_def)

definition demo_bounds :: rect where
  "demo_bounds = (box 5 5 800 600)\<lparr>r_right := Some 795, r_bottom := Some 595\<rparr>"

lemma demo_boundaries: "getBoundaries demo_browser demo_page 5 4 (PadNumber (Some 5)) BViewport False = Some demo_bounds"
  by code_simp

theorem auto_placement_best_side_witness:
  "\<exists>s \<in> set (side_rooms demo_bounds (box 150 150 100 20)).
      computeAutoPlacement demo_browser demo_page ''auto-start'' (box 150 150 100 20) 5 4 BViewport (PadNumber (Some 5))
        = Some (with_variation (sr_key s) (variation_of ''auto-start''))"
proof -
  have 1: "js_contains ''auto-start'' ''auto''" by simp
  have 2: "nodes demo_page 5 = Some (plain_node 1 ''DIV'' (Some 2) [] [(''position'', ''absolute'')] (0, 0, 60, 30))"
    by (simp add: demo_page_def)
  have 3: "\<forall>s \<in> set (side_rooms demo_bounds (box 150 150 100 20)). room_area s \<noteq> None"
    by (simp add: side_rooms_def demo_bounds_def box_def getClientRect_def no_rect_def room_area_def getArea_def)
  show ?thesis using auto_placement_best_side [OF 1 demo_boundaries 2 3] by blast
qed

end
