(* ===== verification/Popper_Modifiers.thy ===== *)
theory Popper_Modifiers
  imports Popper_Layout "HOL-Library.AList"
begin

text \<open>
  The modifiers of the Popper library and the loop that runs them. A modifier works on the data
  object of one update; the data here also carries what the modifiers reach through
  \<^verbatim>\<open>data.instance\<close>: the two elements and the array of modifiers, into which \<^verbatim>\<open>preventOverflow\<close> writes
  the boundaries that \<^verbatim>\<open>hide\<close> reads. \<^verbatim>\<open>flip\<close> runs the modifiers before it again, so the functions
  are indexed by how deep such runs may nest.
\<close>

section \<open>Data\<close>

datatype modifier_fn = Shift | Offset | PreventOverflow | KeepTogether | Arrow | Flip | Inner | Hide
  | ComputeStyle | ApplyStyle | Custom nat

datatype arrow_element = ArrowSelector string | ArrowNode nat

datatype offset_option = OffsetNumber jsnum | OffsetText string

datatype behavior = BFlip | BClockwise | BCounterclockwise | BOrder "string list"

record modifier =
  m_name :: string
  m_order :: jsnum
  m_enabled :: bool
  m_fn :: "modifier_fn option"
  m_onLoad :: bool
  m_padding :: padding
  m_boundariesElement :: "boundaries_element option"
  m_boundaries :: "rect option"
  m_priority :: "string list"
  m_escapeWithReference :: bool
  m_element :: arrow_element
  m_behavior :: behavior
  m_flipVariations :: bool
  m_flipVariationsByContent :: bool
  m_offset :: offset_option
  m_gpuAcceleration :: "bool option"
  m_x :: string
  m_y :: string

datatype attribute = AttrText string | AttrFalse

record data =
  d_popper :: nat
  d_reference :: nat
  d_modifiers :: "modifier list"
  d_placement :: string
  d_originalPlacement :: string
  d_positionFixed :: bool
  d_flipped :: bool
  d_hide :: "bool option"
  d_arrowElement :: "nat option"
  d_offPopper :: rect
  d_offPosition :: string
  d_offReference :: rect
  d_offArrow :: "(string \<times> css_value) list"
  d_styles :: "(string \<times> css_value) list"
  d_arrowStyles :: "(string \<times> css_value) list"
  d_attributes :: "(string \<times> attribute) list"

type_synonym pstate = "dom \<times> data"

text \<open>The functions a page adds of its own are a parameter.\<close>

type_synonym custom_fns = "nat \<Rightarrow> modifier \<Rightarrow> pstate \<Rightarrow> pstate option"

text \<open>\<^verbatim>\<open>Object.assign({}, xs, ys)\<close> on objects seen as association lists.\<close>

definition js_assign :: "('k \<times> 'v) list \<Rightarrow> ('k \<times> 'v) list \<Rightarrow> ('k \<times> 'v) list" where
  "js_assign xs ys = fold (\<lambda>(k, v) acc. AList.update k v acc) ys xs"

section \<open>Helpers on the modifier array\<close>

definition find_modifier :: "modifier list \<Rightarrow> string \<Rightarrow> modifier option" where
  "find_modifier ms name = List.find (\<lambda>m. m_name m = name) ms"

fun findIndex :: "modifier list \<Rightarrow> string \<Rightarrow> int" where
  "findIndex [] name = -1"
| "findIndex (m # ms) name =
     (if m_name m = name then 0 else let i = findIndex ms name in if i = -1 then -1 else i + 1)"

text \<open>\<^verbatim>\<open>xs.slice(0, i)\<close>: a negative end counts from the back.\<close>

definition slice_to :: "'a list \<Rightarrow> int \<Rightarrow> 'a list" where
  "slice_to xs i = (if 0 \<le> i then take (nat i) xs else take (length xs - nat (- i)) xs)"

definition isModifierEnabled :: "modifier list \<Rightarrow> string \<Rightarrow> bool" where
  "isModifierEnabled ms name = (\<exists>m \<in> set ms. m_enabled m \<and> m_name m = name)"

definition isModifierRequired :: "modifier list \<Rightarrow> string \<Rightarrow> string \<Rightarrow> bool" where
  "isModifierRequired ms requestingName requestedName =
     (case find_modifier ms requestingName of
        None \<Rightarrow> False
      | Some r \<Rightarrow> \<exists>m \<in> set ms. m_name m = requestedName \<and> m_enabled m \<and> js_lt (m_order m) (m_order r))"

text \<open>The loop of \<^verbatim>\<open>runModifiers\<close>, over the function that calls one modifier.\<close>

definition run_one :: "(modifier \<Rightarrow> pstate \<Rightarrow> pstate option) \<Rightarrow> modifier \<Rightarrow> pstate \<Rightarrow> pstate option" where
  "run_one call m s =
     (if m_enabled m \<and> m_fn m \<noteq> None
      then case s of (d, x) \<Rightarrow>
        call m (d, x\<lparr>d_offPopper := getClientRect (d_offPopper x), d_offReference := getClientRect (d_offReference x)\<rparr>)
      else Some s)"

fun run_all :: "(modifier \<Rightarrow> pstate \<Rightarrow> pstate option) \<Rightarrow> modifier list \<Rightarrow> pstate \<Rightarrow> pstate option" where
  "run_all call [] s = Some s"
| "run_all call (m # ms) s = Option.bind (run_one call m s) (run_all call ms)"

definition runModifiersWith ::
  "(modifier \<Rightarrow> pstate \<Rightarrow> pstate option) \<Rightarrow> modifier list \<Rightarrow> pstate \<Rightarrow> string option \<Rightarrow> pstate option" where
  "runModifiersWith call modifiers s ends =
     run_all call (case ends of None \<Rightarrow> modifiers | Some e \<Rightarrow> slice_to modifiers (findIndex modifiers e)) s"

section \<open>Styles and attributes\<close>

text \<open>\<^verbatim>\<open>typeof document.body.style[toCheck] !== 'undefined'\<close> decides which spelling is used.\<close>

definition upper_first :: "string \<Rightarrow> string" where
  "upper_first s = (case s of [] \<Rightarrow> [] | c # cs \<Rightarrow>
     (if of_char c \<in> {97..122 :: nat} then char_of (of_char c - 32 :: nat) else c) # cs)"

definition getSupportedPropertyName :: "browser \<Rightarrow> string \<Rightarrow> string option" where
  "getSupportedPropertyName B property =
     List.find (supportsStyle B) (property # map (\<lambda>p. p @ upper_first property) [''ms'', ''Webkit'', ''Moz'', ''O''])"

text \<open>\<^verbatim>\<open>element.style[prop] = value\<close>, after which the browser lays the page out anew. A missing
  property name is the text \<^verbatim>\<open>null\<close>.\<close>

definition setStyle :: "browser \<Rightarrow> nat \<Rightarrow> string \<Rightarrow> css_value \<Rightarrow> dom \<Rightarrow> dom option" where
  "setStyle B n prop v d =
     (case nodes d n of
        None \<Rightarrow> None
      | Some nd \<Rightarrow> Some (reflow B (d\<lparr>nodes := (nodes d)(n \<mapsto> nd\<lparr>inlineStyle := (inlineStyle nd)(prop := v)\<rparr>)\<rparr>)))"

definition setAttribute :: "browser \<Rightarrow> nat \<Rightarrow> string \<Rightarrow> string option \<Rightarrow> dom \<Rightarrow> dom option" where
  "setAttribute B n prop v d =
     (case nodes d n of
        None \<Rightarrow> None
      | Some nd \<Rightarrow> Some (reflow B (d\<lparr>nodes := (nodes d)(n \<mapsto> nd\<lparr>attributes := (attributes nd)(prop := v)\<rparr>)\<rparr>)))"

definition isNumericText :: "string \<Rightarrow> bool" where
  "isNumericText s = (s \<noteq> [] \<and> parse_float s \<noteq> None \<and> js_number s \<noteq> None)"

definition isNumeric :: "css_value \<Rightarrow> bool" where
  "isNumeric v = (case v of CssNum x \<Rightarrow> x \<noteq> None | CssText s \<Rightarrow> isNumericText s | _ \<Rightarrow> False)"

definition with_unit :: "string \<Rightarrow> css_value \<Rightarrow> css_value" where
  "with_unit prop v =
     (if prop \<in> set [''width'', ''height'', ''top'', ''right'', ''bottom'', ''left''] \<and> isNumeric v
      then case v of CssNum x \<Rightarrow> CssPx x | CssText s \<Rightarrow> CssText (s @ ''px'') | w \<Rightarrow> w
      else v)"

fun setStyles :: "browser \<Rightarrow> nat \<Rightarrow> (string \<times> css_value) list \<Rightarrow> dom \<Rightarrow> dom option" where
  "setStyles B n [] d = Some d"
| "setStyles B n ((prop, v) # rest) d = Option.bind (setStyle B n prop (with_unit prop v) d) (setStyles B n rest)"

fun setAttributes :: "browser \<Rightarrow> nat \<Rightarrow> (string \<times> attribute) list \<Rightarrow> dom \<Rightarrow> dom option" where
  "setAttributes B n [] d = Some d"
| "setAttributes B n ((prop, v) # rest) d =
     Option.bind (setAttribute B n prop (case v of AttrText s \<Rightarrow> Some s | AttrFalse \<Rightarrow> None) d) (setAttributes B n rest)"

definition applyStyle :: "browser \<Rightarrow> pstate \<Rightarrow> pstate option" where
  "applyStyle B s = (case s of (d, x) \<Rightarrow>
     do {
       d1 \<leftarrow> setStyles B (d_popper x) (d_styles x) d;
       d2 \<leftarrow> setAttributes B (d_popper x) (d_attributes x) d1;
       d3 \<leftarrow> (case d_arrowElement x of
                Some a \<Rightarrow> if d_arrowStyles x \<noteq> [] then setStyles B a (d_arrowStyles x) d2 else Some d2
              | None \<Rightarrow> Some d2);
       Some (d3, x)
     })"

text \<open>\<^verbatim>\<open>v % 2\<close> on an integer, with the sign of the dividend.\<close>

definition js_mod2 :: "jsnum \<Rightarrow> jsnum" where
  "js_mod2 v = map_option (\<lambda>x. of_int (if x < 0 then - ((- \<lfloor>x\<rfloor>) mod 2) else \<lfloor>x\<rfloor> mod 2)) v"

definition js_eq :: "jsnum \<Rightarrow> jsnum \<Rightarrow> bool" where
  "js_eq a b = (a = b \<and> a \<noteq> None)"

definition getRoundedOffsets :: "data \<Rightarrow> bool \<Rightarrow> rect" where
  "getRoundedOffsets x shouldRound =
     (let popper = d_offPopper x;
          referenceWidth = js_round (r_width (d_offReference x));
          popperWidth = js_round (r_width popper);
          isVertical = (d_placement x \<in> set [''left'', ''right'']);
          isVariation = (CHR ''-'' \<in> set (d_placement x));
          sameWidthParity = js_eq (js_mod2 referenceWidth) (js_mod2 popperWidth);
          bothOddWidth = (js_mod2 referenceWidth = Some 1 \<and> js_mod2 popperWidth = Some 1);
          horizontalToInteger = (if \<not> shouldRound then id
            else if isVertical \<or> isVariation \<or> sameWidthParity then js_round else js_floor);
          verticalToInteger = (if \<not> shouldRound then id else js_round)
      in no_rect\<lparr>
           r_left := horizontalToInteger (if bothOddWidth \<and> \<not> isVariation \<and> shouldRound then r_left popper - Some 1 else r_left popper),
           r_top := verticalToInteger (r_top popper),
           r_bottom := verticalToInteger (r_bottom popper),
           r_right := horizontalToInteger (r_right popper)\<rparr>)"

definition isFirefox :: "browser \<Rightarrow> bool" where
  "isFirefox B = js_contains
     (map (\<lambda>c. if of_char c \<in> {65..90 :: nat} then char_of (of_char c + 32 :: nat) else c) (userAgent B)) ''firefox''"

definition computeStyle :: "browser \<Rightarrow> modifier \<Rightarrow> pstate \<Rightarrow> pstate option" where
  "computeStyle B options s = (case s of (d, x) \<Rightarrow>
     do {
       legacy \<leftarrow> find_modifier (d_modifiers x) ''applyStyle'';
       let gpuAcceleration = (case m_gpuAcceleration legacy of Some g \<Rightarrow> Some g | None \<Rightarrow> m_gpuAcceleration options);
       offsetParent \<leftarrow> getOffsetParent B d (Some (d_popper x));
       offsetParentRect \<leftarrow> getBoundingClientRect B d offsetParent;
       pd \<leftarrow> nodes d offsetParent;
       let offsets = getRoundedOffsets x (js_lt (devicePixelRatio B) (Some 2) \<or> \<not> isFirefox B);
       let sideA = (if m_x options = ''bottom'' then ''top'' else ''bottom'');
       let sideB = (if m_y options = ''right'' then ''left'' else ''right'');
       let prefixedProperty = getSupportedPropertyName B ''transform'';
       let top = (if sideA = ''bottom''
            then (if nodeName pd = ''HTML'' then r_bottom offsets - clientHeight pd
                  else r_bottom offsets - r_height offsetParentRect)
            else r_top offsets);
       let left = (if sideB = ''right''
            then (if nodeName pd = ''HTML'' then r_right offsets - clientWidth pd
                  else r_right offsets - r_width offsetParentRect)
            else r_left offsets);
       let styles = [(''position'', CssText (d_offPosition x))];
       let styles1 = (case prefixedProperty of
            Some p \<Rightarrow> if gpuAcceleration = Some True
              then js_assign styles [(p, CssTranslate3d left top), (sideA, CssNum (Some 0)), (sideB, CssNum (Some 0)),
                     (''willChange'', CssText ''transform'')]
              else js_assign styles [(sideA, CssNum (top * Some (if sideA = ''bottom'' then -1 else 1))),
                     (sideB, CssNum (left * Some (if sideB = ''right'' then -1 else 1))),
                     (''willChange'', CssText (sideA @ '', '' @ sideB))]
          | None \<Rightarrow> js_assign styles [(sideA, CssNum (top * Some (if sideA = ''bottom'' then -1 else 1))),
                     (sideB, CssNum (left * Some (if sideB = ''right'' then -1 else 1))),
                     (''willChange'', CssText (sideA @ '', '' @ sideB))]);
       Some (d, x\<lparr>d_attributes := js_assign [(''x-placement'', AttrText (d_placement x))] (d_attributes x),
                  d_styles := js_assign styles1 (d_styles x),
                  d_arrowStyles := js_assign (d_offArrow x) (d_arrowStyles x)\<rparr>)
     })"

section \<open>The positional modifiers\<close>

definition shift :: "pstate \<Rightarrow> pstate" where
  "shift s = (case s of (d, x) \<Rightarrow>
     (case variation_of (d_placement x) of
        None \<Rightarrow> s
      | Some [] \<Rightarrow> s
      | Some v \<Rightarrow>
          (let isVertical = (base_of (d_placement x) \<in> set [''bottom'', ''top'']);
               side = (if isVertical then ''left'' else ''top'');
               measurement = (if isVertical then ''width'' else ''height'');
               popper = d_offPopper x; reference = d_offReference x
           in if v = ''start'' then (d, x\<lparr>d_offPopper := rect_set side (rect_get reference side) popper\<rparr>)
              else if v = ''end'' then (d, x\<lparr>d_offPopper := rect_set side
                (rect_get reference side + rect_get reference measurement - rect_get popper measurement) popper\<rparr>)
              else s)))"

definition keepTogether :: "pstate \<Rightarrow> pstate" where
  "keepTogether s = (case s of (d, x) \<Rightarrow>
     (let reference = d_offReference x;
          isVertical = (base_of (d_placement x) \<in> set [''top'', ''bottom'']);
          side = (if isVertical then ''right'' else ''bottom'');
          opSide = (if isVertical then ''left'' else ''top'');
          measurement = (if isVertical then ''width'' else ''height'');
          p0 = d_offPopper x;
          p1 = (if js_lt (rect_get p0 side) (js_floor (rect_get reference opSide))
                then rect_set opSide (js_floor (rect_get reference opSide) - rect_get p0 measurement) p0 else p0);
          p2 = (if js_lt (js_floor (rect_get reference side)) (rect_get p1 opSide)
                then rect_set opSide (js_floor (rect_get reference side)) p1 else p1)
      in (d, x\<lparr>d_offPopper := p2\<rparr>)))"

text \<open>\<^verbatim>\<open>toValue\<close>: a number of pixels, or the text itself.\<close>

datatype fragment = FNum jsnum | FText string

definition toValue :: "browser \<Rightarrow> dom \<Rightarrow> string \<Rightarrow> string \<Rightarrow> rect \<Rightarrow> rect \<Rightarrow> fragment option" where
  "toValue B d str measurement popperOffsets referenceOffsets =
     (let sign = (if take 1 str = ''-'' \<or> take 1 str = ''+'' then take 1 str else []);
          s1 = drop (length sign) str;
          ip = takeWhile is_dec_digit s1; s2 = dropWhile is_dec_digit s1;
          dot = (if take 1 s2 = ''.'' then ''.'' else []);
          fp = takeWhile is_dec_digit (drop (length dot) s2);
          numeral = sign @ ip @ dot @ fp;
          unit = takeWhile (\<lambda>c. of_char c \<notin> {10, 13 :: nat}) (drop (length numeral) str);
          value = js_number numeral
      in if \<not> js_truthy value then Some (FText str)
         else if take 1 unit = ''%''
         then (let rect = getClientRect (if unit = ''%p'' then popperOffsets else referenceOffsets)
               in Some (FNum (map_option (\<lambda>v. v / 100) (rect_get rect measurement) * value)))
         else if unit = ''vh'' \<or> unit = ''vw''
         then do {
           html \<leftarrow> nodes d (documentElement d);
           let sz = (if unit = ''vh'' then js_max (clientHeight html) (js_or (innerHeight B) (Some 0))
                     else js_max (clientWidth html) (js_or (innerWidth B) (Some 0)));
           Some (FNum (map_option (\<lambda>v. v / 100) sz * value))
         }
         else Some (FNum value))"

text \<open>\<^verbatim>\<open>offset.split(/(\+|\-)/)\<close>: the separators stay in the result.\<close>

fun split_signs :: "string \<Rightarrow> string list" where
  "split_signs [] = [[]]"
| "split_signs (c # cs) =
     (if c = CHR ''+'' \<or> c = CHR ''-'' then [] # [c] # split_signs cs
      else case split_signs cs of [] \<Rightarrow> [[c]] | p # ps \<Rightarrow> (c # p) # ps)"

definition is_divider :: "char \<Rightarrow> bool" where
  "is_divider c = (c = CHR '','' \<or> js_ws c)"

text \<open>The first two parts of \<^verbatim>\<open>frag.split(/\s*,\s*|\s+/)\<close>.\<close>

definition split_pair :: "string \<Rightarrow> string \<times> string" where
  "split_pair s =
     (let first = takeWhile (\<lambda>c. \<not> is_divider c) s;
          rest = js_trim_start (dropWhile (\<lambda>c. \<not> is_divider c) s);
          rest' = (if take 1 rest = '','' then js_trim_start (drop 1 rest) else rest)
      in (first, takeWhile (\<lambda>c. \<not> is_divider c) rest'))"

definition split_ops :: "string list \<Rightarrow> string list list" where
  "split_ops fragments =
     (let before = takeWhile (\<lambda>f. \<not> list_ex is_divider f) fragments;
          from' = dropWhile (\<lambda>f. \<not> list_ex is_divider f) fragments
      in case from' of
           [] \<Rightarrow> [fragments]
         | f # after \<Rightarrow> (case split_pair f of (a, b) \<Rightarrow> [before @ [a], b # after]))"

text \<open>The reduction that joins a sign with the value after it when nothing stands before it.\<close>

fun merge_signs :: "string list \<Rightarrow> bool \<Rightarrow> string list \<Rightarrow> string list" where
  "merge_signs a merge [] = a"
| "merge_signs a merge (b # bs) =
     (if a \<noteq> [] \<and> last a = [] \<and> (b = ''+'' \<or> b = ''-'') then merge_signs (butlast a @ [b]) True bs
      else if merge then merge_signs (butlast a @ [last a @ b]) False bs
      else merge_signs (a @ [b]) False bs)"

text \<open>The sum of the numeric fragments, each negated after a minus sign. A text fragment counts with
  the number it spells.\<close>

definition fragment_value :: "fragment \<Rightarrow> jsnum" where
  "fragment_value f = (case f of FNum v \<Rightarrow> v | FText s \<Rightarrow> if isNumericText s then js_number s else None)"

fun sum_ops :: "jsnum \<Rightarrow> fragment option \<Rightarrow> fragment list \<Rightarrow> jsnum" where
  "sum_ops acc prev [] = acc"
| "sum_ops acc prev (f # fs) =
     sum_ops (if fragment_value f \<noteq> None
              then acc + fragment_value f * Some (if prev = Some (FText ''-'') then -1 else 1) else acc) (Some f) fs"

fun to_values :: "browser \<Rightarrow> dom \<Rightarrow> string \<Rightarrow> rect \<Rightarrow> rect \<Rightarrow> string list \<Rightarrow> fragment list option" where
  "to_values B d measurement po ro [] = Some []"
| "to_values B d measurement po ro (s # ss) =
     do { v \<leftarrow> toValue B d s measurement po ro; vs \<leftarrow> to_values B d measurement po ro ss; Some (v # vs) }"

definition op_offset :: "browser \<Rightarrow> dom \<Rightarrow> bool \<Rightarrow> rect \<Rightarrow> rect \<Rightarrow> string list \<Rightarrow> jsnum option" where
  "op_offset B d useHeight po ro op =
     map_option (sum_ops (Some 0) None)
       (to_values B d (if useHeight then ''height'' else ''width'') po ro (merge_signs [] False op))"

definition parseOffset :: "browser \<Rightarrow> dom \<Rightarrow> string \<Rightarrow> rect \<Rightarrow> rect \<Rightarrow> string \<Rightarrow> (jsnum \<times> jsnum) option" where
  "parseOffset B d offset popperOffsets referenceOffsets basePlacement =
     (let useHeight = (basePlacement \<in> set [''right'', ''left'']);
          fragments = map js_trim (split_signs offset)
      in case split_ops fragments of
           [op1] \<Rightarrow> do { a \<leftarrow> op_offset B d useHeight popperOffsets referenceOffsets op1; Some (a, Some 0) }
         | [op1, op2] \<Rightarrow> do { a \<leftarrow> op_offset B d useHeight popperOffsets referenceOffsets op1;
                              b \<leftarrow> op_offset B d (\<not> useHeight) popperOffsets referenceOffsets op2; Some (a, b) }
         | _ \<Rightarrow> None)"

definition offset_number :: "offset_option \<Rightarrow> jsnum" where
  "offset_number off = (case off of OffsetNumber v \<Rightarrow> v | OffsetText s \<Rightarrow> js_number s)"

definition offset :: "browser \<Rightarrow> modifier \<Rightarrow> pstate \<Rightarrow> pstate option" where
  "offset B options s = (case s of (d, x) \<Rightarrow>
     do {
       let basePlacement = base_of (d_placement x);
       let popper = d_offPopper x;
       (a, b) \<leftarrow> (if offset_number (m_offset options) \<noteq> None then Some (offset_number (m_offset options), Some 0)
                  else case m_offset options of
                    OffsetText t \<Rightarrow> parseOffset B d t popper (d_offReference x) basePlacement
                  | OffsetNumber _ \<Rightarrow> None);
       let popper' =
         (if basePlacement = ''left'' then popper\<lparr>r_top := r_top popper + a, r_left := r_left popper - b\<rparr>
          else if basePlacement = ''right'' then popper\<lparr>r_top := r_top popper + a, r_left := r_left popper + b\<rparr>
          else if basePlacement = ''top'' then popper\<lparr>r_left := r_left popper + a, r_top := r_top popper - b\<rparr>
          else if basePlacement = ''bottom'' then popper\<lparr>r_left := r_left popper + a, r_top := r_top popper + b\<rparr>
          else popper);
       Some (d, x\<lparr>d_offPopper := popper'\<rparr>)
     })"

section \<open>Popper and reference stay together\<close>

definition no_data :: data where
  "no_data = \<lparr>d_popper = 0, d_reference = 0, d_modifiers = [], d_placement = [], d_originalPlacement = [],
     d_positionFixed = False, d_flipped = False, d_hide = None, d_arrowElement = None, d_offPopper = no_rect,
     d_offPosition = [], d_offReference = no_rect, d_offArrow = [], d_styles = [], d_arrowStyles = [], d_attributes = []\<rparr>"

text \<open>After \<^verbatim>\<open>keepTogether\<close> the popper and its reference have no gap between them along the reference's
  side: with whole pixels, the popper ends at or after the start of the reference and starts at or
  before its end. A popper that already does so is not moved, and the other axis never changes.\<close>

theorem keepTogether_no_gap:
  assumes "is_box (d_offPopper x) l t w h" and "is_box (d_offReference x) rl rt rw rh"
    and "0 \<le> w" and "0 \<le> h" and "0 \<le> rw" and "0 \<le> rh"
  shows "\<exists>l' t'. r_left (d_offPopper (snd (keepTogether (d, x)))) = Some l' \<and> r_top (d_offPopper (snd (keepTogether (d, x)))) = Some t'
    \<and> (if base_of (d_placement x) \<in> {''top'', ''bottom''}
       then t' = t \<and> of_int \<lfloor>rl\<rfloor> \<le> l' + w \<and> l' \<le> of_int \<lfloor>rl + rw\<rfloor>
          \<and> (of_int \<lfloor>rl\<rfloor> \<le> l + w \<and> l \<le> of_int \<lfloor>rl + rw\<rfloor> \<longrightarrow> l' = l)
       else l' = l \<and> of_int \<lfloor>rt\<rfloor> \<le> t' + h \<and> t' \<le> of_int \<lfloor>rt + rh\<rfloor>
          \<and> (of_int \<lfloor>rt\<rfloor> \<le> t + h \<and> t \<le> of_int \<lfloor>rt + rh\<rfloor> \<longrightarrow> t' = t))"
proof -
  have fl: "(of_int \<lfloor>rl\<rfloor> :: rat) \<le> of_int \<lfloor>rl + rw\<rfloor>" "(of_int \<lfloor>rt\<rfloor> :: rat) \<le> of_int \<lfloor>rt + rh\<rfloor>"
    using assms(5,6) floor_mono [of rl "rl + rw"] floor_mono [of rt "rt + rh"] by simp_all
  show ?thesis
  proof (cases "base_of (d_placement x) \<in> {''top'', ''bottom''}")
    case True
    then show ?thesis using assms fl
      by (auto simp: keepTogether_def Let_def is_box_def rect_get_def rect_set_def)
  next
    case False
    then show ?thesis using assms fl
      by (auto simp: keepTogether_def Let_def is_box_def rect_get_def rect_set_def)
  qed
qed

theorem keepTogether_no_gap_witness:
  "\<exists>l' t'. r_left (d_offPopper (snd (keepTogether (demo_page, no_data\<lparr>d_placement := ''bottom'',
      d_offPopper := box 10 170 60 30, d_offReference := box 150 150 100 20\<rparr>)))) = Some l'
    \<and> t' = 170 \<and> of_int \<lfloor>150 :: rat\<rfloor> \<le> l' + 60 \<and> l' \<le> of_int \<lfloor>150 + 100 :: rat\<rfloor>"
proof -
  let ?x = "no_data\<lparr>d_placement := ''bottom'', d_offPopper := box 10 170 60 30, d_offReference := box 150 150 100 20\<rparr>"
  have "is_box (d_offPopper ?x) 10 170 60 30" "is_box (d_offReference ?x) 150 150 100 20" by (simp_all add: is_box_box)
  moreover have "base_of (d_placement ?x) \<in> {''top'', ''bottom''}" by (simp add: base_of_def)
  ultimately show ?thesis using keepTogether_no_gap [of ?x 10 170 60 30 150 150 100 20 demo_page] by auto
qed

section \<open>Offsets are read as they are written\<close>

lemma digit_not_special:
  assumes "is_dec_digit c"
  shows "c \<noteq> CHR ''+''" "c \<noteq> CHR ''-''" "c \<noteq> CHR ''.''" "\<not> is_divider c" "\<not> js_ws c" "of_char c \<noteq> (10 :: nat)" "of_char c \<noteq> (13 :: nat)"
proof -
  have r: "48 \<le> (of_char c :: nat) \<and> (of_char c :: nat) \<le> 57"
    using assms by (auto simp: is_dec_digit_def digit_val_def Let_def split: if_splits)
  then show "c \<noteq> CHR ''+''" "c \<noteq> CHR ''-''" "c \<noteq> CHR ''.''" "of_char c \<noteq> (10 :: nat)" "of_char c \<noteq> (13 :: nat)"
    by auto
  show "\<not> js_ws c" using r by (auto simp: js_ws_def)
  then show "\<not> is_divider c" using r by (auto simp: is_divider_def)
qed

lemma split_signs_none: "(\<forall>c \<in> set s. c \<noteq> CHR ''+'' \<and> c \<noteq> CHR ''-'') \<Longrightarrow> split_signs s = [s]"
  by (induction s) auto

lemma toValue_show_nat:
  assumes "0 < n" and "unit = [] \<or> \<not> is_dec_digit (hd unit) \<and> hd unit \<noteq> CHR ''.''"
    and "\<forall>c \<in> set unit. of_char c \<notin> {10, 13 :: nat}" and "unit \<noteq> ''vh''" and "unit \<noteq> ''vw''"
  shows "toValue B d (show_nat n @ unit) m po ro = Some (FNum (if take 1 unit = ''%''
    then map_option (\<lambda>v. v / 100) (rect_get (getClientRect (if unit = ''%p'' then po else ro)) m) * Some (of_nat n)
    else Some (of_nat n)))"
proof -
  obtain c cs where n: "show_nat n = c # cs" using show_nat_nonempty by (cases "show_nat n") auto
  have c: "c \<noteq> CHR ''-''" "c \<noteq> CHR ''+''" using n digit_not_special show_nat_chars [of c n] by auto
  have tw: "takeWhile is_dec_digit (show_nat n @ unit) = show_nat n" "dropWhile is_dec_digit (show_nat n @ unit) = unit"
    using assms(2) show_nat_digits by (cases unit; auto simp: takeWhile_all dropWhile_all)+
  have dot: "take 1 unit \<noteq> ''.''" and tu: "takeWhile is_dec_digit unit = []" using assms(2) by (cases unit; auto)+
  have un: "takeWhile (\<lambda>c. of_char c \<noteq> (10 :: nat) \<and> of_char c \<noteq> (13 :: nat)) unit = unit"
    using assms(3) by (simp add: takeWhile_eq_all_conv)
  have sign: "take 1 (show_nat n @ unit) \<noteq> ''-''" "take 1 (show_nat n @ unit) \<noteq> ''+''" using n c by simp_all
  show ?thesis
    unfolding toValue_def Let_def using sign tw dot tu assms(1,4,5)
    by (simp add: js_number_show_nat un)
qed

text \<open>A pair of offsets written with a comma is read back as the two lengths: pixels for the first, and
  for the second a percentage of the reference, taken along the other axis.\<close>

theorem parseOffset_pair:
  assumes "0 < a" and "0 < b" and "is_box ro l t w h"
  shows "parseOffset B d (show_nat a @ ''px, '' @ show_nat b @ ''%'') po ro base =
    Some (Some (of_nat a), Some ((if base \<in> {''right'', ''left''} then w else h) / 100 * of_nat b))"
proof -
  define s where "s = show_nat a @ ''px, '' @ show_nat b @ ''%''"
  have digits: "\<And>n c. c \<in> set (show_nat n) \<Longrightarrow> is_dec_digit c" by (rule show_nat_chars)
  have sep: "split_signs s = [s]"
    using digits digit_not_special by (intro split_signs_none) (auto simp: s_def)
  have trim: "js_trim s = s"
    using digits [of "hd (show_nat a)" a] digit_not_special(5) show_nat_nonempty [of a]
    by (intro js_trim_id) (auto simp: s_def hd_append js_ws_def)
  have nodiv: "takeWhile (\<lambda>c. \<not> is_divider c) s = show_nat a @ ''px''"
    "dropWhile (\<lambda>c. \<not> is_divider c) s = '', '' @ show_nat b @ ''%''"
    using digits digit_not_special(4)
    by (auto simp: s_def takeWhile_all dropWhile_all is_divider_def js_ws_def)
  obtain c cs where b: "show_nat b = c # cs" using show_nat_nonempty by (cases "show_nat b") auto
  have "\<not> js_ws c" using b digits [of c b] digit_not_special(5) by simp
  then have "js_trim_start (show_nat b @ ''%'') = show_nat b @ ''%''" using b by (simp add: js_trim_start_def)
  moreover have "takeWhile (\<lambda>c. \<not> is_divider c) (show_nat b @ ''%'') = show_nat b @ ''%''"
    using digits digit_not_special(4) by (auto simp: takeWhile_all is_divider_def js_ws_def)
  ultimately have pair: "split_pair s = (show_nat a @ ''px'', show_nat b @ ''%'')"
    unfolding split_pair_def nodiv Let_def by (simp add: js_trim_start_def js_ws_def)
  have "list_ex is_divider s" by (simp add: s_def is_divider_def)
  then have ops: "split_ops [s] = [[show_nat a @ ''px''], [show_nat b @ ''%'']]" by (simp add: split_ops_def pair)
  have "toValue B d (show_nat a @ ''px'') m po ro = Some (FNum (Some (of_nat a)))" for m
    using toValue_show_nat [OF assms(1), of "''px''" B d m po ro] by (simp add: is_dec_digit_def digit_val_def)
  moreover have "toValue B d (show_nat b @ ''%'') m po ro =
      Some (FNum (map_option (\<lambda>v. v / 100) (rect_get (getClientRect ro) m) * Some (of_nat b)))" for m
    using toValue_show_nat [OF assms(2), of "''%''" B d m po ro] by (simp add: is_dec_digit_def digit_val_def)
  moreover have "rect_get (getClientRect ro) ''width'' = Some w" "rect_get (getClientRect ro) ''height'' = Some h"
    using assms(3) by (simp_all add: is_box_def rect_get_def getClientRect_def)
  ultimately show ?thesis unfolding s_def [symmetric]
    by (simp add: parseOffset_def sep trim ops op_offset_def fragment_value_def)
qed

theorem parseOffset_pair_witness:
  "parseOffset demo_browser demo_page (show_nat 10 @ ''px, '' @ show_nat 50 @ ''%'') (box 0 0 60 30) (box 150 150 100 20) ''top''
    = Some (Some 10, Some 10)"
  using parseOffset_pair [OF _ _ is_box_box, of 10 50 demo_browser demo_page "box 0 0 60 30" 150 150 100 20 "''top''"] by simp

end
