(* ===== verification/Popper_Run.thy ===== *)
theory Popper_Run
  imports Popper_Modifiers
begin

text \<open>
  The modifiers that read the page or the modifier array (\<^verbatim>\<open>arrow\<close>, \<^verbatim>\<open>preventOverflow\<close>, \<^verbatim>\<open>hide\<close>,
  \<^verbatim>\<open>inner\<close>, \<^verbatim>\<open>flip\<close>), the default configuration, and one whole update of a popper.
\<close>

section \<open>Arrow, overflow, inner, hide\<close>

definition arrow :: "browser \<Rightarrow> modifier \<Rightarrow> pstate \<Rightarrow> pstate option" where
  "arrow B options s = (case s of (d, x) \<Rightarrow>
     if \<not> isModifierRequired (d_modifiers x) ''arrow'' ''keepTogether'' then Some s
     else do {
       arrowElement \<leftarrow>
         (case m_element options of
            ArrowSelector sel \<Rightarrow> Some (querySelector B d (d_popper x) sel)
          | ArrowNode a \<Rightarrow> do { inside \<leftarrow> containsNode d (d_popper x) a; Some (if inside then Some a else None) });
       case arrowElement of
         None \<Rightarrow> Some s
       | Some a \<Rightarrow> do {
           let isVertical = (base_of (d_placement x) \<in> set [''left'', ''right'']);
           let len = (if isVertical then ''height'' else ''width'');
           let sideCapitalized = (if isVertical then ''Top'' else ''Left'');
           let side = (if isVertical then ''top'' else ''left'');
           let altSide = (if isVertical then ''left'' else ''top'');
           let opSide = (if isVertical then ''bottom'' else ''right'');
           (aw, ah) \<leftarrow> getOuterSizes d a;
           let arrowElementSize = (if isVertical then ah else aw);
           let reference = d_offReference x;
           let p0 = d_offPopper x;
           let p1 = (if js_lt (rect_get reference opSide - arrowElementSize) (rect_get p0 side)
                     then rect_set side (rect_get p0 side - (rect_get p0 side - (rect_get reference opSide - arrowElementSize))) p0
                     else p0);
           let p2 = (if js_lt (rect_get p1 opSide) (rect_get reference side + arrowElementSize)
                     then rect_set side (rect_get p1 side + (rect_get reference side + arrowElementSize - rect_get p1 opSide)) p1
                     else p1);
           let p3 = getClientRect p2;
           let center = rect_get reference side + js_half (rect_get reference len) - js_half arrowElementSize;
           popperMarginSide \<leftarrow> cssFloat d (d_popper x) (''margin'' @ sideCapitalized);
           popperBorderSide \<leftarrow> cssFloat d (d_popper x) (''border'' @ sideCapitalized @ ''Width'');
           let sideValue = center - rect_get p3 side - popperMarginSide - popperBorderSide;
           let sideValue1 = js_max (js_min (rect_get p2 len - arrowElementSize) sideValue) (Some 0);
           Some (d, x\<lparr>d_offPopper := p3, d_arrowElement := Some a,
                      d_offArrow := [(side, CssNum (js_round sideValue1)), (altSide, CssText [])]\<rparr>)
         }
     })"

text \<open>The two checks of \<^verbatim>\<open>preventOverflow\<close> and the loop over the priority list.\<close>

definition check_side :: "bool \<Rightarrow> rect \<Rightarrow> string \<Rightarrow> rect \<Rightarrow> rect" where
  "check_side escapeWithReference boundaries placement popper =
     (if placement \<in> set [''left'', ''top'']
      then (if js_lt (rect_get popper placement) (rect_get boundaries placement) \<and> \<not> escapeWithReference
            then rect_set placement (js_max (rect_get popper placement) (rect_get boundaries placement)) popper
            else popper)
      else (let mainSide = (if placement = ''right'' then ''left'' else ''top'')
            in if js_lt (rect_get boundaries placement) (rect_get popper placement) \<and> \<not> escapeWithReference
               then rect_set mainSide (js_min (rect_get popper mainSide)
                      (rect_get boundaries placement - (if placement = ''right'' then r_width popper else r_height popper))) popper
               else popper))"

definition keep_inside :: "bool \<Rightarrow> rect \<Rightarrow> string list \<Rightarrow> rect \<Rightarrow> rect" where
  "keep_inside escapeWithReference boundaries priority popper =
     fold (check_side escapeWithReference boundaries) priority popper"

text \<open>A missing \<^verbatim>\<open>transform\<close> property reads and writes the name \<^verbatim>\<open>null\<close>.\<close>

definition transform_prop :: "browser \<Rightarrow> string" where
  "transform_prop B = (case getSupportedPropertyName B ''transform'' of Some p \<Rightarrow> p | None \<Rightarrow> ''null'')"

definition preventOverflow :: "browser \<Rightarrow> modifier \<Rightarrow> pstate \<Rightarrow> pstate option" where
  "preventOverflow B options s = (case s of (d, x) \<Rightarrow>
     do {
       be \<leftarrow> (case m_boundariesElement options of
                Some b \<Rightarrow> Some b
              | None \<Rightarrow> map_option BElement (getOffsetParent B d (Some (d_popper x))));
       be' \<leftarrow> (if be = BElement (d_reference x)
               then map_option BElement (getOffsetParent B d (Some (d_reference x))) else Some be);
       pd \<leftarrow> nodes d (d_popper x);
       let style = inlineStyle pd;
       let tp = transform_prop B;
       d1 \<leftarrow> setStyle B (d_popper x) ''top'' (CssText []) d;
       d2 \<leftarrow> setStyle B (d_popper x) ''left'' (CssText []) d1;
       d3 \<leftarrow> setStyle B (d_popper x) tp (CssText []) d2;
       boundaries \<leftarrow> getBoundaries B d3 (d_popper x) (d_reference x) (m_padding options) be' (d_positionFixed x);
       d4 \<leftarrow> setStyle B (d_popper x) ''top'' (style ''top'') d3;
       d5 \<leftarrow> setStyle B (d_popper x) ''left'' (style ''left'') d4;
       d6 \<leftarrow> setStyle B (d_popper x) tp (style tp) d5;
       Some (d6, x\<lparr>
         d_modifiers := map (\<lambda>m. if m_name m = m_name options then m\<lparr>m_boundaries := Some boundaries\<rparr> else m) (d_modifiers x),
         d_offPopper := keep_inside (m_escapeWithReference options) boundaries (m_priority options) (d_offPopper x)\<rparr>)
     })"

definition outside :: "rect \<Rightarrow> rect \<Rightarrow> bool" where
  "outside refRect bound =
     (js_lt (r_bottom refRect) (r_top bound) \<or> js_lt (r_right bound) (r_left refRect)
      \<or> js_lt (r_bottom bound) (r_top refRect) \<or> js_lt (r_right refRect) (r_left bound))"

definition hide :: "pstate \<Rightarrow> pstate option" where
  "hide s = (case s of (d, x) \<Rightarrow>
     if \<not> isModifierRequired (d_modifiers x) ''hide'' ''preventOverflow'' then Some s
     else do {
       m \<leftarrow> find_modifier (d_modifiers x) ''preventOverflow'';
       bound \<leftarrow> m_boundaries m;
       if outside (d_offReference x) bound
       then (if d_hide x = Some True then Some s
             else Some (d, x\<lparr>d_hide := Some True,
                    d_attributes := AList.update ''x-out-of-boundaries'' (AttrText []) (d_attributes x)\<rparr>))
       else (if d_hide x = Some False then Some s
             else Some (d, x\<lparr>d_hide := Some False,
                    d_attributes := AList.update ''x-out-of-boundaries'' AttrFalse (d_attributes x)\<rparr>))
     })"

definition inner :: "pstate \<Rightarrow> pstate" where
  "inner s = (case s of (d, x) \<Rightarrow>
     (let basePlacement = base_of (d_placement x);
          popper = d_offPopper x;
          isHoriz = (basePlacement \<in> set [''left'', ''right'']);
          subtractLength = (basePlacement \<notin> set [''top'', ''left'']);
          popper' = rect_set (if isHoriz then ''left'' else ''top'')
            (rect_get (d_offReference x) basePlacement
             - (if subtractLength then rect_get popper (if isHoriz then ''width'' else ''height'') else Some 0)) popper
      in (d, x\<lparr>d_placement := getOppositePlacement (d_placement x), d_offPopper := getClientRect popper'\<rparr>)))"

section \<open>Flip\<close>

definition getOppositeVariation :: "string \<Rightarrow> string" where
  "getOppositeVariation variation =
     (if variation = ''end'' then ''start'' else if variation = ''start'' then ''end'' else variation)"

definition placements :: "string list" where
  "placements = [''auto-start'', ''auto'', ''auto-end'', ''top-start'', ''top'', ''top-end'',
     ''right-start'', ''right'', ''right-end'', ''bottom-end'', ''bottom'', ''bottom-start'',
     ''left-end'', ''left'', ''left-start'']"

definition validPlacements :: "string list" where
  "validPlacements = drop 3 placements"

fun indexOf :: "'a list \<Rightarrow> 'a \<Rightarrow> int" where
  "indexOf [] y = -1"
| "indexOf (x # xs) y = (if x = y then 0 else let i = indexOf xs y in if i = -1 then -1 else i + 1)"

definition clockwise :: "string \<Rightarrow> bool \<Rightarrow> string list" where
  "clockwise placement counter =
     (let index = indexOf validPlacements placement;
          arr = drop (nat (index + 1)) validPlacements @ slice_to validPlacements index
      in if counter then rev arr else arr)"

definition flip_order :: "behavior \<Rightarrow> string \<Rightarrow> string list" where
  "flip_order b placement =
     (case b of
        BFlip \<Rightarrow> [placement, getOppositePlacement placement]
      | BClockwise \<Rightarrow> clockwise placement False
      | BCounterclockwise \<Rightarrow> clockwise placement True
      | BOrder order \<Rightarrow> order)"

text \<open>The tests of one step of \<^verbatim>\<open>flip\<close>: does the popper overlap its reference or leave the
  boundaries on its own side, and has the variation to be flipped.\<close>

definition fl_lt :: "jsnum \<Rightarrow> jsnum \<Rightarrow> bool" where
  "fl_lt a b = js_lt (js_floor a) (js_floor b)"

definition overlapsRef :: "string \<Rightarrow> rect \<Rightarrow> rect \<Rightarrow> bool" where
  "overlapsRef placement popper ref =
     (placement = ''left'' \<and> fl_lt (r_left ref) (r_right popper)
      \<or> placement = ''right'' \<and> fl_lt (r_left popper) (r_right ref)
      \<or> placement = ''top'' \<and> fl_lt (r_top ref) (r_bottom popper)
      \<or> placement = ''bottom'' \<and> fl_lt (r_top popper) (r_bottom ref))"

definition overflows :: "string \<Rightarrow> rect \<Rightarrow> rect \<Rightarrow> bool" where
  "overflows side popper boundaries =
     (if side = ''left'' then fl_lt (r_left popper) (r_left boundaries)
      else if side = ''right'' then fl_lt (r_right boundaries) (r_right popper)
      else if side = ''top'' then fl_lt (r_top popper) (r_top boundaries)
      else if side = ''bottom'' then fl_lt (r_bottom boundaries) (r_bottom popper)
      else False)"

definition flipsVariation :: "modifier \<Rightarrow> string \<Rightarrow> string \<Rightarrow> rect \<Rightarrow> rect \<Rightarrow> bool" where
  "flipsVariation options placement variation popper boundaries =
     (let isVertical = (placement \<in> set [''top'', ''bottom'']);
          startSide = (if isVertical then ''left'' else ''top'');
          endSide = (if isVertical then ''right'' else ''bottom'')
      in m_flipVariations options
           \<and> (variation = ''start'' \<and> overflows startSide popper boundaries
              \<or> variation = ''end'' \<and> overflows endSide popper boundaries)
         \<or> m_flipVariationsByContent options
           \<and> (variation = ''start'' \<and> overflows endSide popper boundaries
              \<or> variation = ''end'' \<and> overflows startSide popper boundaries))"

text \<open>The loop over the flip order: the placement and variation it keeps between its steps, and the
  state. \<open>run\<close> is \<^verbatim>\<open>runModifiers(data.instance.modifiers, data, 'flip')\<close>.\<close>

fun flip_loop :: "(pstate \<Rightarrow> pstate option) \<Rightarrow> modifier \<Rightarrow> rect \<Rightarrow> string list \<Rightarrow> string \<Rightarrow> string \<Rightarrow> pstate \<Rightarrow> pstate option" where
  "flip_loop run options boundaries [] placement variation s = Some s"
| "flip_loop run options boundaries [step] placement variation s = Some s"
| "flip_loop run options boundaries (step # next # rest) placement variation s =
     (if placement \<noteq> step then flip_loop run options boundaries (next # rest) placement variation s
      else case s of (d, x) \<Rightarrow>
        (let placement1 = base_of (d_placement x);
             bad = overlapsRef placement1 (d_offPopper x) (d_offReference x)
                   \<or> overflows placement1 (d_offPopper x) boundaries;
             flippedVariation = flipsVariation options placement1 variation (d_offPopper x) boundaries
         in if bad \<or> flippedVariation
            then (let placement2 = (if bad then next else placement1);
                      variation2 = (if flippedVariation then getOppositeVariation variation else variation);
                      newPlacement = with_variation placement2 (Some variation2)
                  in do {
                    off \<leftarrow> getPopperOffsets d (d_popper x) (d_offReference x) newPlacement;
                    s' \<leftarrow> run (d, x\<lparr>d_flipped := True, d_placement := newPlacement,
                           d_offPopper := (d_offPopper x)\<lparr>r_left := r_left off, r_top := r_top off,
                             r_width := r_width off, r_height := r_height off\<rparr>\<rparr>);
                    flip_loop run options boundaries (next # rest) placement2 variation2 s'
                  })
            else flip_loop run options boundaries (next # rest) placement1 variation s))"

definition flip :: "(pstate \<Rightarrow> pstate option) \<Rightarrow> browser \<Rightarrow> modifier \<Rightarrow> pstate \<Rightarrow> pstate option" where
  "flip run B options s = (case s of (d, x) \<Rightarrow>
     if isModifierEnabled (d_modifiers x) ''inner'' then Some s
     else if d_flipped x \<and> d_placement x = d_originalPlacement x then Some s
     else do {
       be \<leftarrow> m_boundariesElement options;
       boundaries \<leftarrow> getBoundaries B d (d_popper x) (d_reference x) (m_padding options) be (d_positionFixed x);
       let placement = base_of (d_placement x);
       let variation = (case variation_of (d_placement x) of None \<Rightarrow> [] | Some v \<Rightarrow> v);
       flip_loop run options boundaries (flip_order (m_behavior options) placement) placement variation s
     })"

section \<open>Running the modifiers\<close>

text \<open>One call of a modifier, by how deep the runs started by \<^verbatim>\<open>flip\<close> may nest.\<close>

primrec call_fn :: "nat \<Rightarrow> custom_fns \<Rightarrow> browser \<Rightarrow> modifier \<Rightarrow> pstate \<Rightarrow> pstate option" where
  "call_fn 0 C B m s = None"
| "call_fn (Suc k) C B m s =
     (case m_fn m of
        None \<Rightarrow> Some s
      | Some f \<Rightarrow> (case f of
          Shift \<Rightarrow> Some (shift s)
        | Offset \<Rightarrow> offset B m s
        | PreventOverflow \<Rightarrow> preventOverflow B m s
        | KeepTogether \<Rightarrow> Some (keepTogether s)
        | Arrow \<Rightarrow> arrow B m s
        | Flip \<Rightarrow> flip (\<lambda>t. runModifiersWith (call_fn k C B) (d_modifiers (snd t)) t (Some ''flip'')) B m s
        | Inner \<Rightarrow> Some (inner s)
        | Hide \<Rightarrow> hide s
        | ComputeStyle \<Rightarrow> computeStyle B m s
        | ApplyStyle \<Rightarrow> applyStyle B s
        | Custom n \<Rightarrow> C n m s))"

text \<open>A nested run never reaches \<^verbatim>\<open>flip\<close> again when no other modifier has its function, so two levels
  are enough.\<close>

definition runModifiers :: "custom_fns \<Rightarrow> browser \<Rightarrow> modifier list \<Rightarrow> pstate \<Rightarrow> string option \<Rightarrow> pstate option" where
  "runModifiers C B modifiers s ends = runModifiersWith (call_fn 2 C B) modifiers s ends"

section \<open>The default configuration\<close>

definition no_modifier :: modifier where
  "no_modifier = \<lparr>m_name = [], m_order = None, m_enabled = False, m_fn = None, m_onLoad = False,
     m_padding = PadNumber None, m_boundariesElement = None, m_boundaries = None, m_priority = [],
     m_escapeWithReference = False, m_element = ArrowSelector [], m_behavior = BOrder [],
     m_flipVariations = False, m_flipVariationsByContent = False, m_offset = OffsetNumber None,
     m_gpuAcceleration = None, m_x = [], m_y = []\<rparr>"

definition base_modifier :: "string \<Rightarrow> rat \<Rightarrow> bool \<Rightarrow> modifier_fn \<Rightarrow> modifier" where
  "base_modifier name order enabled fn =
     no_modifier\<lparr>m_name := name, m_order := Some order, m_enabled := enabled, m_fn := Some fn\<rparr>"

definition shift_default :: modifier where
  "shift_default = base_modifier ''shift'' 100 True Shift"

definition offset_default :: modifier where
  "offset_default = (base_modifier ''offset'' 200 True Offset)\<lparr>m_offset := OffsetNumber (Some 0)\<rparr>"

definition preventOverflow_default :: modifier where
  "preventOverflow_default = (base_modifier ''preventOverflow'' 300 True PreventOverflow)\<lparr>
     m_priority := [''left'', ''right'', ''top'', ''bottom''], m_padding := PadNumber (Some 5),
     m_boundariesElement := Some BScrollParent\<rparr>"

definition keepTogether_default :: modifier where
  "keepTogether_default = base_modifier ''keepTogether'' 400 True KeepTogether"

definition arrow_default :: modifier where
  "arrow_default = (base_modifier ''arrow'' 500 True Arrow)\<lparr>m_element := ArrowSelector ''[x-arrow]''\<rparr>"

definition flip_default :: modifier where
  "flip_default = (base_modifier ''flip'' 600 True Flip)\<lparr>m_behavior := BFlip, m_padding := PadNumber (Some 5),
     m_boundariesElement := Some BViewport, m_flipVariations := False, m_flipVariationsByContent := False\<rparr>"

definition inner_default :: modifier where
  "inner_default = base_modifier ''inner'' 700 False Inner"

definition hide_default :: modifier where
  "hide_default = base_modifier ''hide'' 800 True Hide"

definition computeStyle_default :: modifier where
  "computeStyle_default = (base_modifier ''computeStyle'' 850 True ComputeStyle)\<lparr>m_gpuAcceleration := Some True,
     m_x := ''bottom'', m_y := ''right''\<rparr>"

definition applyStyle_default :: modifier where
  "applyStyle_default = (base_modifier ''applyStyle'' 900 True ApplyStyle)\<lparr>m_onLoad := True, m_gpuAcceleration := None\<rparr>"

definition default_modifiers :: "modifier list" where
  "default_modifiers = [shift_default, offset_default, preventOverflow_default, keepTogether_default, arrow_default,
     flip_default, inner_default, hide_default, computeStyle_default, applyStyle_default]"

lemmas default_defs = default_modifiers_def shift_default_def offset_default_def preventOverflow_default_def
  keepTogether_default_def arrow_default_def flip_default_def inner_default_def hide_default_def computeStyle_default_def
  applyStyle_default_def base_modifier_def no_modifier_def

section \<open>Inside the boundaries\<close>

lemma keep_inside_box:
  assumes "is_box p l t w h"
    and b: "r_left b = Some bl" "r_top b = Some bt" "r_right b = Some br" "r_bottom b = Some bb"
    and fit: "bl + w \<le> br" "bt + h \<le> bb"
  shows "\<exists>l' t'. is_box (getClientRect (keep_inside False b [''left'', ''right'', ''top'', ''bottom''] p)) l' t' w h
    \<and> bl \<le> l' \<and> l' + w \<le> br \<and> bt \<le> t' \<and> t' + h \<le> bb
    \<and> (bl \<le> l \<and> l + w \<le> br \<longrightarrow> l' = l) \<and> (bt \<le> t \<and> t + h \<le> bb \<longrightarrow> t' = t)"
  using assms by (auto simp: keep_inside_def check_side_def Let_def is_box_def rect_get_def rect_set_def getClientRect_def)

lemma preventOverflow_shape:
  assumes "preventOverflow B m (d, x) = Some (d', x')"
  obtains b where "d_modifiers x' = map (\<lambda>k. if m_name k = m_name m then k\<lparr>m_boundaries := Some b\<rparr> else k) (d_modifiers x)"
    and "d_offPopper x' = keep_inside (m_escapeWithReference m) b (m_priority m) (d_offPopper x)"
    and "x' = x\<lparr>d_modifiers := d_modifiers x', d_offPopper := d_offPopper x'\<rparr>"
  using assms unfolding preventOverflow_def by (auto simp: Let_def bind_eq_Some_conv)

text \<open>C14. \<^verbatim>\<open>preventOverflow\<close> with the default priorities: when the popper fits in the boundaries it computed, the
  popper it leaves lies inside them on all four sides; one that was inside along an axis is not moved
  along it. The boundaries are left in the modifier itself, for \<^verbatim>\<open>hide\<close> to read.\<close>

theorem preventOverflow_contains:
  assumes "preventOverflow B m (d, x) = Some (d', x')" and "m_priority m = [''left'', ''right'', ''top'', ''bottom'']"
    and "\<not> m_escapeWithReference m" and "is_box (d_offPopper x) l t w h" and "m \<in> set (d_modifiers x)"
  shows "\<exists>b. m\<lparr>m_boundaries := Some b\<rparr> \<in> set (d_modifiers x') \<and>
    (\<forall>bl bt br bb. r_left b = Some bl \<and> r_top b = Some bt \<and> r_right b = Some br \<and> r_bottom b = Some bb
        \<and> bl + w \<le> br \<and> bt + h \<le> bb \<longrightarrow>
      (\<exists>l' t'. is_box (getClientRect (d_offPopper x')) l' t' w h \<and> bl \<le> l' \<and> l' + w \<le> br \<and> bt \<le> t' \<and> t' + h \<le> bb
        \<and> (bl \<le> l \<and> l + w \<le> br \<longrightarrow> l' = l) \<and> (bt \<le> t \<and> t + h \<le> bb \<longrightarrow> t' = t)))"
proof -
  obtain b where mods: "d_modifiers x' = map (\<lambda>k. if m_name k = m_name m then k\<lparr>m_boundaries := Some b\<rparr> else k) (d_modifiers x)"
    and "d_offPopper x' = keep_inside (m_escapeWithReference m) b (m_priority m) (d_offPopper x)"
    using preventOverflow_shape [OF assms(1)] by blast
  then have pop: "d_offPopper x' = keep_inside False b [''left'', ''right'', ''top'', ''bottom''] (d_offPopper x)"
    using assms(2,3) by simp
  have "m\<lparr>m_boundaries := Some b\<rparr> \<in> set (d_modifiers x')" using assms(5) by (force simp: mods)
  then show ?thesis using keep_inside_box [OF assms(4)] unfolding pop by blast
qed

section \<open>Flips\<close>

lemma flip_loop_absent: "placement \<notin> set order \<Longrightarrow> flip_loop run m b order placement v s = Some s"
  by (induction run m b order placement v s rule: flip_loop.induct) auto

lemma clockwise_skips:
  assumes "p \<in> {''top'', ''right'', ''bottom'', ''left''}"
  shows "p \<notin> set (clockwise p counter)"
proof -
  have "\<forall>p \<in> {''top'', ''right'', ''bottom'', ''left''}. p \<notin> set (clockwise p False) \<and> p \<notin> set (clockwise p True)"
    by code_simp
  from bspec [OF this assms] show ?thesis by (cases counter) simp_all
qed

text \<open>With the behaviours \<^verbatim>\<open>clockwise\<close> and \<^verbatim>\<open>counterclockwise\<close> the \<^verbatim>\<open>flip\<close> modifier never moves the popper:
  the list of placements it walks leaves out the current one, which is the one its loop waits for.\<close>

theorem flip_clockwise_never_flips:
  assumes "m_behavior m = BClockwise \<or> m_behavior m = BCounterclockwise"
    and "base_of (d_placement x) \<in> {''top'', ''right'', ''bottom'', ''left''}"
    and "flip run B m (d, x) = Some s'"
  shows "s' = (d, x)"
proof -
  have "base_of (d_placement x) \<notin> set (flip_order (m_behavior m) (base_of (d_placement x)))"
    using assms(1) clockwise_skips [OF assms(2)] by (auto simp: flip_order_def)
  then show ?thesis using assms(3) flip_loop_absent
    by (auto simp: flip_def Let_def bind_eq_Some_conv split: if_splits)
qed

lemma flip_loop_last: "flip_loop run m b [z] p v = Some"
  by (rule ext) simp

text \<open>One call of \<^verbatim>\<open>flip\<close> in the default configuration, where no variation is flipped.\<close>

lemma flip_default_step:
  assumes "m_behavior m = BFlip" "\<not> m_flipVariations m" "\<not> m_flipVariationsByContent m" "m_boundariesElement m = Some be"
    and "\<not> isModifierEnabled (d_modifiers x) ''inner''"
    and "getBoundaries B d (d_popper x) (d_reference x) (m_padding m) be (d_positionFixed x) = Some b"
  shows "flip run B m (d, x) =
    (let p = base_of (d_placement x);
         pl = with_variation (getOppositePlacement p) (variation_of (d_placement x))
     in if (overlapsRef p (d_offPopper x) (d_offReference x) \<or> overflows p (d_offPopper x) b)
           \<and> \<not> (d_flipped x \<and> d_placement x = d_originalPlacement x)
        then Option.bind (getPopperOffsets d (d_popper x) (d_offReference x) pl) (\<lambda>off.
          run (d, x\<lparr>d_flipped := True, d_placement := pl, d_offPopper := (d_offPopper x)\<lparr>r_left := r_left off,
            r_top := r_top off, r_width := r_width off, r_height := r_height off\<rparr>\<rparr>))
        else Some (d, x))"
proof -
  have v: "with_variation o' (Some (case v of None \<Rightarrow> [] | Some u \<Rightarrow> u)) = with_variation o' v" for o' v
    by (cases v) (simp_all add: with_variation_def)
  show ?thesis
    using assms by (simp add: flip_def flip_order_def Let_def flipsVariation_def flip_loop_last v)
qed

definition demo_data :: data where
  "demo_data = no_data\<lparr>d_popper := 5, d_reference := 4, d_modifiers := default_modifiers, d_placement := ''bottom'',
     d_originalPlacement := ''bottom'', d_offPopper := box 170 170 60 30, d_offReference := box 150 150 100 20\<rparr>"

lemma demo_data_sel:
  "d_popper demo_data = 5" "d_reference demo_data = 4" "d_modifiers demo_data = default_modifiers" "d_placement demo_data = ''bottom''"
  "d_offPopper demo_data = box 170 170 60 30" "d_offReference demo_data = box 150 150 100 20" "d_flipped demo_data = False"
  "d_hide demo_data = None" "d_positionFixed demo_data = False" "d_attributes demo_data = []"
  by (simp_all add: demo_data_def no_data_def)

theorem preventOverflow_contains_witness:
  "\<exists>d' x' b. preventOverflow demo_browser (default_modifiers ! 2) (demo_page, demo_data) = Some (d', x')
     \<and> (default_modifiers ! 2)\<lparr>m_boundaries := Some b\<rparr> \<in> set (d_modifiers x')"
proof -
  have "preventOverflow demo_browser (default_modifiers ! 2) (demo_page, demo_data) \<noteq> None" by code_simp
  then obtain d' x' where 1: "preventOverflow demo_browser (default_modifiers ! 2) (demo_page, demo_data) = Some (d', x')" by auto
  have 2: "m_priority (default_modifiers ! 2) = [''left'', ''right'', ''top'', ''bottom'']"
    and 3: "\<not> m_escapeWithReference (default_modifiers ! 2)"
    by (simp_all add: default_defs)
  have 4: "is_box (d_offPopper demo_data) 170 170 60 30" by (simp add: demo_data_sel is_box_box)
  have 5: "default_modifiers ! 2 \<in> set (d_modifiers demo_data)"
    unfolding demo_data_sel by (rule nth_mem) (simp add: default_modifiers_def)
  show ?thesis using preventOverflow_contains [OF 1 2 3 4 5] 1 by blast
qed

theorem flip_clockwise_never_flips_witness:
  "flip Some demo_browser ((default_modifiers ! 5)\<lparr>m_behavior := BClockwise\<rparr>) (demo_page, demo_data) = Some (demo_page, demo_data)"
proof -
  let ?m = "(default_modifiers ! 5)\<lparr>m_behavior := BClockwise\<rparr>"
  have "flip Some demo_browser ?m (demo_page, demo_data) \<noteq> None" by code_simp
  then obtain s' where s': "flip Some demo_browser ?m (demo_page, demo_data) = Some s'" by auto
  have "base_of (d_placement demo_data) \<in> {''top'', ''right'', ''bottom'', ''left''}" by (simp add: demo_data_sel base_of_def)
  then show ?thesis using flip_clockwise_never_flips [of ?m demo_data Some demo_browser demo_page s'] s' by simp
qed

section \<open>Out of the boundaries\<close>

text \<open>\<^verbatim>\<open>hide\<close> compares the reference with the boundaries of \<^verbatim>\<open>preventOverflow\<close> and records the answer,
  together with the attribute that shows it: present and empty when the reference is outside, removed
  when it is not.\<close>

theorem hide_marks_reference_outside:
  assumes "isModifierRequired (d_modifiers x) ''hide'' ''preventOverflow''"
    and "find_modifier (d_modifiers x) ''preventOverflow'' = Some m" and "m_boundaries m = Some bound" and "d_hide x = None"
  shows "\<exists>x'. hide (d, x) = Some (d, x') \<and> d_hide x' = Some (outside (d_offReference x) bound)
    \<and> map_of (d_attributes x') ''x-out-of-boundaries''
        = Some (if outside (d_offReference x) bound then AttrText [] else AttrFalse)
    \<and> (\<forall>k. k \<noteq> ''x-out-of-boundaries'' \<longrightarrow> map_of (d_attributes x') k = map_of (d_attributes x) k)"
  using assms by (auto simp: hide_def update_conv' Let_def)

theorem hide_marks_reference_outside_witness:
  "\<exists>x'. hide (demo_page, demo_data\<lparr>d_modifiers := map (\<lambda>k. k\<lparr>m_boundaries := Some demo_bounds\<rparr>) default_modifiers\<rparr>)
     = Some (demo_page, x') \<and> d_hide x' = Some (outside (box 150 150 100 20) demo_bounds)"
proof -
  let ?x = "demo_data\<lparr>d_modifiers := map (\<lambda>k. k\<lparr>m_boundaries := Some demo_bounds\<rparr>) default_modifiers\<rparr>"
  have 1: "isModifierRequired (d_modifiers ?x) ''hide'' ''preventOverflow''" by code_simp
  have 2: "find_modifier (d_modifiers ?x) ''preventOverflow'' = Some ((default_modifiers ! 2)\<lparr>m_boundaries := Some demo_bounds\<rparr>)"
    by (simp add: demo_data_sel find_modifier_def default_defs)
  show ?thesis using hide_marks_reference_outside [OF 1 2, of demo_bounds demo_page] by (auto simp: demo_data_sel)
qed

section \<open>The order of the modifiers\<close>

lemma findIndex_nonneg: "m \<in> set ms \<Longrightarrow> 0 \<le> findIndex ms (m_name m)"
  by (induction ms) (auto simp: Let_def)

lemma findIndex_bound: "findIndex ms n \<ge> -1"
  by (induction ms) (auto simp: Let_def)

lemma findIndex_order:
  assumes "sorted_wrt (\<lambda>a b. \<not> js_lt (m_order b) (m_order a)) ms" and "distinct (map m_name ms)"
    and "a \<in> set ms" and "b \<in> set ms" and "js_lt (m_order b) (m_order a)"
  shows "findIndex ms (m_name b) < findIndex ms (m_name a)"
  using assms
proof (induction ms)
  case Nil
  then show ?case by simp
next
  case (Cons m ms)
  have ab: "m_name a \<noteq> m_name b"
    using Cons.prems(2-5) by (metis (no_types, lifting) distinct_map inj_onD js_lt_def js_num_simps(3) less_irrefl option.case_eq_if option.sel prod.case)
  consider "b = m" | "a = m" | "a \<in> set ms" "b \<in> set ms" using Cons.prems(3,4) by auto
  then show ?case
  proof cases
    case 1
    then have "a \<in> set ms" using ab Cons.prems(3) by auto
    then show ?thesis using 1 ab findIndex_nonneg [of a ms] by (auto simp: Let_def)
  next
    case 2
    then have "b \<in> set ms" using ab Cons.prems(4) by auto
    then show ?thesis using 2 Cons.prems(1,5) by auto
  next
    case 3
    moreover have "m_name a \<noteq> m_name m" "m_name b \<noteq> m_name m" using 3 Cons.prems(2) by (auto simp: image_iff)
    ultimately show ?thesis using Cons findIndex_nonneg [of a ms] findIndex_nonneg [of b ms] by (auto simp: Let_def)
  qed
qed

end
