(* ===== verification/Popper_Core.thy ===== *)
theory Popper_Core
  imports Popper_Run
begin

text \<open>
  The \<^verbatim>\<open>Popper\<close> class: its constructor, the debounced update, the event listeners and \<^verbatim>\<open>destroy\<close>.
  The world holds the page, the instance, the listeners it registered and the calls it has queued:
  animation frames that will ask for an update, and the microtask (or timer) that will do it.
\<close>

section \<open>State\<close>

datatype event_target = WindowTarget | NodeTarget nat

record popper_options =
  o_placement :: string
  o_positionFixed :: bool
  o_eventsEnabled :: bool
  o_removeOnDestroy :: bool
  o_modifiers :: "modifier list"

record popper_state =
  isDestroyed :: bool
  isCreated :: bool
  eventsEnabled :: bool
  updateBound :: bool
  scrollParents :: "event_target list"
  scrollElement :: "nat option"

record popper =
  pp_reference :: nat
  pp_popper :: nat
  pp_options :: popper_options
  pp_modifiers :: "modifier list"
  pp_state :: popper_state

datatype callback = OnCreate data | OnUpdate data

record world =
  w_dom :: dom
  w_popper :: popper
  w_listeners :: "(event_target \<times> string) list"
  w_scheduled :: bool
  w_queue :: nat
  w_frames :: nat
  w_calls :: "callback list"

text \<open>\<^verbatim>\<open>w_scheduled\<close> is the flag of the debounced function, \<^verbatim>\<open>w_queue\<close> counts the queued calls of the
  undebounced update, \<^verbatim>\<open>w_frames\<close> the animation frames that will call the debounced one.\<close>

section \<open>Update\<close>

definition update_data :: "custom_fns \<Rightarrow> browser \<Rightarrow> dom \<Rightarrow> popper \<Rightarrow> pstate option" where
  "update_data C B d p =
     do {
       let opts = pp_options p;
       ref \<leftarrow> getReferenceOffsets B d (pp_popper p) (pp_reference p) (o_positionFixed opts);
       fm \<leftarrow> find_modifier (o_modifiers opts) ''flip'';
       placement \<leftarrow> (case m_boundariesElement fm of
           Some be \<Rightarrow> computeAutoPlacement B d (o_placement opts) ref (pp_popper p) (pp_reference p) be (m_padding fm)
         | None \<Rightarrow> if js_contains (o_placement opts) ''auto'' then None else Some (o_placement opts));
       off \<leftarrow> getPopperOffsets d (pp_popper p) ref placement;
       runModifiers C B (pp_modifiers p)
         (d, \<lparr>d_popper = pp_popper p, d_reference = pp_reference p, d_modifiers = pp_modifiers p,
              d_placement = placement, d_originalPlacement = placement, d_positionFixed = o_positionFixed opts,
              d_flipped = False, d_hide = None, d_arrowElement = None, d_offPopper = off,
              d_offPosition = (if o_positionFixed opts then ''fixed'' else ''absolute''), d_offReference = ref,
              d_offArrow = [], d_styles = [], d_arrowStyles = [], d_attributes = []\<rparr>) None
     }"

definition update :: "custom_fns \<Rightarrow> browser \<Rightarrow> world \<Rightarrow> world option" where
  "update C B w =
     (if isDestroyed (pp_state (w_popper w)) then Some w
      else do {
        (d, x) \<leftarrow> update_data C B (w_dom w) (w_popper w);
        let p = (w_popper w)\<lparr>pp_modifiers := d_modifiers x\<rparr>;
        if \<not> isCreated (pp_state p)
        then Some (w\<lparr>w_dom := d, w_popper := p\<lparr>pp_state := (pp_state p)\<lparr>isCreated := True\<rparr>\<rparr>,
                     w_calls := w_calls w @ [OnCreate x]\<rparr>)
        else Some (w\<lparr>w_dom := d, w_popper := p, w_calls := w_calls w @ [OnUpdate x]\<rparr>)
      })"

text \<open>\<^verbatim>\<open>debounce\<close>: a call only queues the function, once; the queued call clears the flag first.\<close>

definition debounced_update :: "world \<Rightarrow> world" where
  "debounced_update w = (if w_scheduled w then w else w\<lparr>w_scheduled := True, w_queue := Suc (w_queue w)\<rparr>)"

definition run_queued :: "custom_fns \<Rightarrow> browser \<Rightarrow> world \<Rightarrow> world option" where
  "run_queued C B w = (case w_queue w of 0 \<Rightarrow> None
     | Suc n \<Rightarrow> update C B (w\<lparr>w_queue := n, w_scheduled := False\<rparr>))"

text \<open>\<^verbatim>\<open>scheduleUpdate\<close> asks for an animation frame; the frame calls the debounced update.\<close>

definition scheduleUpdate :: "world \<Rightarrow> world" where
  "scheduleUpdate w = w\<lparr>w_frames := Suc (w_frames w)\<rparr>"

definition run_frame :: "world \<Rightarrow> world option" where
  "run_frame w = (case w_frames w of 0 \<Rightarrow> None | Suc n \<Rightarrow> Some (debounced_update (w\<lparr>w_frames := n\<rparr>)))"

section \<open>Event listeners\<close>

text \<open>A listener is the pair of a target and an event; the same callback is registered once.\<close>

definition addListener :: "event_target \<times> string \<Rightarrow> (event_target \<times> string) list \<Rightarrow> (event_target \<times> string) list" where
  "addListener l ls = (if l \<in> set ls then ls else ls @ [l])"

definition removeListener :: "event_target \<times> string \<Rightarrow> (event_target \<times> string) list \<Rightarrow> (event_target \<times> string) list" where
  "removeListener l ls = filter (\<lambda>k. k \<noteq> l) ls"

text \<open>The targets \<^verbatim>\<open>attachToScrollParents\<close> listens on, outermost first as it records them.\<close>

partial_function (option) attachTargets :: "dom \<Rightarrow> nat \<Rightarrow> event_target list option" where
  "attachTargets d scrollParent =
     Option.bind (nodes d scrollParent) (\<lambda>nd.
       if nodeName nd = ''BODY'' then Some [WindowTarget]
       else Option.bind (getScrollParent d (parentNode nd)) (\<lambda>sp.
         Option.bind (attachTargets d sp) (\<lambda>ts. Some (ts @ [NodeTarget scrollParent]))))"

declare attachTargets.simps [code]

definition attachToScrollParents :: "dom \<Rightarrow> nat \<Rightarrow> world \<Rightarrow> world option" where
  "attachToScrollParents d scrollParent w =
     map_option (\<lambda>ts. w\<lparr>w_listeners := fold (\<lambda>t. addListener (t, ''scroll'')) (rev ts) (w_listeners w),
        w_popper := (w_popper w)\<lparr>pp_state := (pp_state (w_popper w))\<lparr>scrollParents := scrollParents (pp_state (w_popper w)) @ ts\<rparr>\<rparr>\<rparr>)
       (attachTargets d scrollParent)"

definition set_state :: "(popper_state \<Rightarrow> popper_state) \<Rightarrow> world \<Rightarrow> world" where
  "set_state f w = w\<lparr>w_popper := (w_popper w)\<lparr>pp_state := f (pp_state (w_popper w))\<rparr>\<rparr>"

definition setupEventListeners :: "world \<Rightarrow> world option" where
  "setupEventListeners w =
     do {
       let w1 = set_state (\<lambda>st. st\<lparr>updateBound := True\<rparr>) w;
       let w2 = w1\<lparr>w_listeners := addListener (WindowTarget, ''resize'') (w_listeners w1)\<rparr>;
       sp \<leftarrow> getScrollParent (w_dom w2) (Some (pp_reference (w_popper w2)));
       w3 \<leftarrow> attachToScrollParents (w_dom w2) sp w2;
       Some (set_state (\<lambda>st. st\<lparr>scrollElement := Some sp, eventsEnabled := True\<rparr>) w3)
     }"

definition enableEventListeners :: "world \<Rightarrow> world option" where
  "enableEventListeners w =
     (if \<not> eventsEnabled (pp_state (w_popper w)) then setupEventListeners w else Some w)"

definition removeEventListeners :: "world \<Rightarrow> world" where
  "removeEventListeners w =
     (let ls = removeListener (WindowTarget, ''resize'') (w_listeners w);
          ls' = fold (\<lambda>t. removeListener (t, ''scroll'')) (scrollParents (pp_state (w_popper w))) ls
      in set_state (\<lambda>st. st\<lparr>updateBound := False, scrollParents := [], scrollElement := None, eventsEnabled := False\<rparr>)
           (w\<lparr>w_listeners := ls'\<rparr>))"

text \<open>\<^verbatim>\<open>cancelAnimationFrame\<close> is given the function \<^verbatim>\<open>scheduleUpdate\<close> and not a request id: it cancels
  nothing.\<close>

definition disableEventListeners :: "world \<Rightarrow> world" where
  "disableEventListeners w = (if eventsEnabled (pp_state (w_popper w)) then removeEventListeners w else w)"

section \<open>Destroy\<close>

text \<open>\<^verbatim>\<open>popper.parentNode.removeChild(popper)\<close>.\<close>

definition remove_node :: "browser \<Rightarrow> nat \<Rightarrow> dom \<Rightarrow> dom option" where
  "remove_node B n d =
     do {
       nd \<leftarrow> nodes d n;
       p \<leftarrow> parentNode nd;
       pd \<leftarrow> nodes d p;
       Some (reflow B (d\<lparr>nodes := (nodes d)(p \<mapsto> pd\<lparr>childNodes := remove1 n (childNodes pd)\<rparr>, n \<mapsto> nd\<lparr>parentNode := None\<rparr>)\<rparr>))
     }"

definition clear_styles :: "browser \<Rightarrow> nat \<Rightarrow> dom \<Rightarrow> dom option" where
  "clear_styles B n d =
     do {
       d0 \<leftarrow> setAttribute B n ''x-placement'' None d;
       setStyles B n (map (\<lambda>k. (k, CssText []))
         [''position'', ''top'', ''left'', ''right'', ''bottom'', ''willChange'', transform_prop B]) d0
     }"

definition destroy :: "browser \<Rightarrow> world \<Rightarrow> world option" where
  "destroy B w =
     do {
       let w1 = set_state (\<lambda>st. st\<lparr>isDestroyed := True\<rparr>) w;
       w2 \<leftarrow> (if isModifierEnabled (pp_modifiers (w_popper w1)) ''applyStyle''
              then map_option (\<lambda>d. w1\<lparr>w_dom := d\<rparr>) (clear_styles B (pp_popper (w_popper w1)) (w_dom w1))
              else Some w1);
       let w3 = disableEventListeners w2;
       if o_removeOnDestroy (pp_options (w_popper w3))
       then map_option (\<lambda>d. w3\<lparr>w_dom := d\<rparr>) (remove_node B (pp_popper (w_popper w3)) (w_dom w3))
       else Some w3
     }"

section \<open>Constructor\<close>

text \<open>\<^verbatim>\<open>options.modifiers\<close>: for each name, the fields it overrides, as an update of the default
  modifier of that name.\<close>

type_synonym modifier_overrides = "(string \<times> (modifier \<Rightarrow> modifier)) list"

definition merge_modifiers :: "modifier_overrides \<Rightarrow> modifier list" where
  "merge_modifiers ov =
     map (\<lambda>m. ((case map_of ov (m_name m) of None \<Rightarrow> m | Some f \<Rightarrow> f m)\<lparr>m_name := m_name m\<rparr>)) default_modifiers
     @ map (\<lambda>(name, f). (f no_modifier)\<lparr>m_name := name\<rparr>)
         (filter (\<lambda>(name, _). name \<notin> m_name ` set default_modifiers) ov)"

definition sort_modifiers :: "modifier list \<Rightarrow> modifier list" where
  "sort_modifiers ms = js_sort (\<lambda>a b. m_order a - m_order b) ms"

definition applyStyleOnLoad :: "browser \<Rightarrow> popper \<Rightarrow> dom \<Rightarrow> dom option" where
  "applyStyleOnLoad B p d =
     do {
       let opts = pp_options p;
       ref \<leftarrow> getReferenceOffsets B d (pp_popper p) (pp_reference p) (o_positionFixed opts);
       fm \<leftarrow> find_modifier (o_modifiers opts) ''flip'';
       placement \<leftarrow> (case m_boundariesElement fm of
           Some be \<Rightarrow> computeAutoPlacement B d (o_placement opts) ref (pp_popper p) (pp_reference p) be (m_padding fm)
         | None \<Rightarrow> if js_contains (o_placement opts) ''auto'' then None else Some (o_placement opts));
       d1 \<leftarrow> setAttribute B (pp_popper p) ''x-placement'' (Some placement) d;
       setStyles B (pp_popper p) [(''position'', CssText (if o_positionFixed opts then ''fixed'' else ''absolute''))] d1
     }"

fun run_onLoad :: "browser \<Rightarrow> popper \<Rightarrow> modifier list \<Rightarrow> dom \<Rightarrow> dom option" where
  "run_onLoad B p [] d = Some d"
| "run_onLoad B p (m # ms) d =
     Option.bind (if m_enabled m \<and> m_onLoad m then applyStyleOnLoad B p d else Some d) (run_onLoad B p ms)"

text \<open>\<^verbatim>\<open>Popper.Defaults\<close>; a caller's options are given as an update of it.\<close>

definition Defaults :: popper_options where
  "Defaults = \<lparr>o_placement = ''bottom'', o_positionFixed = False, o_eventsEnabled = True,
     o_removeOnDestroy = False, o_modifiers = default_modifiers\<rparr>"

definition new_Popper ::
  "browser \<Rightarrow> dom \<Rightarrow> nat \<Rightarrow> nat \<Rightarrow> popper_options \<Rightarrow> modifier_overrides \<Rightarrow> world option" where
  "new_Popper B d reference popper opts ov =
     do {
       let ms = merge_modifiers ov;
       let p = \<lparr>pp_reference = reference, pp_popper = popper, pp_options = opts\<lparr>o_modifiers := ms\<rparr>,
             pp_modifiers = sort_modifiers ms,
             pp_state = \<lparr>isDestroyed = False, isCreated = False, eventsEnabled = False, updateBound = False,
               scrollParents = [], scrollElement = None\<rparr>\<rparr>;
       d1 \<leftarrow> run_onLoad B p (pp_modifiers p) d;
       let w = debounced_update \<lparr>w_dom = d1, w_popper = p, w_listeners = [], w_scheduled = False, w_queue = 0,
             w_frames = 0, w_calls = []\<rparr>;
       w1 \<leftarrow> (if o_eventsEnabled opts then enableEventListeners w else Some w);
       Some (set_state (\<lambda>st. st\<lparr>eventsEnabled := o_eventsEnabled opts\<rparr>) w1)
     }"

end
