(* ===== verification/Popper_Update.thy ===== *)
theory Popper_Update
  imports Popper_Core
begin

text \<open>
  What an update of a popper guarantees: with the default modifiers, on every well-formed document
  and for every browser whose layout keeps the tree, it runs to its end and leaves the document
  well-formed, so the next update runs too. The order of the modifiers is the one their dependencies
  ask for.
\<close>

section \<open>What is asked of the browser\<close>

text \<open>Computing the layout keeps the nodes and the well-formedness of the tree, and a selector gives
  a node of the document.\<close>

definition browser_ok :: "(nat \<Rightarrow> nat) \<Rightarrow> browser \<Rightarrow> bool" where
  "browser_ok r B \<longleftrightarrow>
     (\<forall>d. dom_wf r d \<longrightarrow> dom_wf r (reflow B d))
   \<and> (\<forall>d n. nodes (reflow B d) n = None \<longleftrightarrow> nodes d n = None)
   \<and> (\<forall>d n sel a. querySelector B d n sel = Some a \<longrightarrow> nodes d a \<noteq> None)"

definition same_nodes :: "dom \<Rightarrow> dom \<Rightarrow> bool" where
  "same_nodes d d' \<longleftrightarrow> (\<forall>n. nodes d' n = None \<longleftrightarrow> nodes d n = None)"

lemma same_nodes_trans: "same_nodes a b \<Longrightarrow> same_nodes b c \<Longrightarrow> same_nodes a c"
  by (simp add: same_nodes_def)

lemma dom_wf_restyle:
  assumes "dom_wf r d" and "nodes d n = Some nd"
    and "parentNode nd' = parentNode nd" "childNodes nd' = childNodes nd" "host nd' = host nd"
      "offsetParent nd' = offsetParent nd" "referenceNode nd' = referenceNode nd"
  shows "dom_wf r (d\<lparr>nodes := (nodes d)(n \<mapsto> nd')\<rparr>)"
proof -
  have "node_wf r (d\<lparr>nodes := (nodes d)(n \<mapsto> nd')\<rparr>) k kd" if upd: "((nodes d)(n \<mapsto> nd')) k = Some kd" for k kd
  proof -
    obtain kd0 where k: "nodes d k = Some kd0" and eqs: "parentNode kd = parentNode kd0" "childNodes kd = childNodes kd0"
      "host kd = host kd0" "offsetParent kd = offsetParent kd0" "referenceNode kd = referenceNode kd0"
      using upd assms(2-) by (cases "k = n") auto
    have "node_wf r d k kd0" using assms(1) k by (simp add: dom_wf_def)
    moreover have "\<exists>cd'. ((nodes d)(n \<mapsto> nd')) c = Some cd' \<and> parentNode cd' = Some k"
      if "nodes d c = Some cd" "parentNode cd = Some k" for c cd
      using that assms(2,3) by (cases "c = n") auto
    ultimately show ?thesis unfolding node_wf_def eqs by fastforce
  qed
  then show ?thesis using assms(1) by (auto simp: dom_wf_def)
qed

lemma setStyle_ok:
  assumes "dom_wf r d" and "browser_ok r B" and "nodes d n \<noteq> None"
  shows "\<exists>d'. setStyle B n k v d = Some d' \<and> dom_wf r d' \<and> same_nodes d d'"
proof -
  obtain nd where nd: "nodes d n = Some nd" using assms(3) by auto
  let ?d = "d\<lparr>nodes := (nodes d)(n \<mapsto> nd\<lparr>inlineStyle := (inlineStyle nd)(k := v)\<rparr>)\<rparr>"
  have "dom_wf r ?d" by (rule dom_wf_restyle [OF assms(1) nd]) simp_all
  then show ?thesis using assms(2) nd by (auto simp: setStyle_def browser_ok_def same_nodes_def)
qed

lemma setStyle_chain:
  assumes "dom_wf r d" and "browser_ok r B" and "nodes d n \<noteq> None"
  shows "\<exists>d'. setStyle B n k v d = Some d' \<and> dom_wf r d' \<and> same_nodes d d' \<and> nodes d' n \<noteq> None"
  using setStyle_ok [OF assms, of k v] assms(3) unfolding same_nodes_def by metis

lemma setAttribute_ok:
  assumes "dom_wf r d" and "browser_ok r B" and "nodes d n \<noteq> None"
  shows "\<exists>d'. setAttribute B n k v d = Some d' \<and> dom_wf r d' \<and> same_nodes d d'"
proof -
  obtain nd where nd: "nodes d n = Some nd" using assms(3) by auto
  let ?d = "d\<lparr>nodes := (nodes d)(n \<mapsto> nd\<lparr>attributes := (attributes nd)(k := v)\<rparr>)\<rparr>"
  have "dom_wf r ?d" by (rule dom_wf_restyle [OF assms(1) nd]) simp_all
  then show ?thesis using assms(2) nd by (auto simp: setAttribute_def browser_ok_def same_nodes_def)
qed

lemma setStyles_ok:
  assumes "browser_ok r B"
  shows "dom_wf r d \<Longrightarrow> nodes d n \<noteq> None \<Longrightarrow> \<exists>d'. setStyles B n kvs d = Some d' \<and> dom_wf r d' \<and> same_nodes d d'"
proof (induction kvs arbitrary: d)
  case Nil
  then show ?case by (simp add: same_nodes_def)
next
  case (Cons kv kvs)
  obtain k v where kv: "kv = (k, v)" by (cases kv)
  obtain d1 where d1: "setStyle B n k (with_unit k v) d = Some d1" "dom_wf r d1" "same_nodes d d1"
    using setStyle_ok [OF Cons.prems(1) assms Cons.prems(2)] by blast
  then obtain d' where "setStyles B n kvs d1 = Some d'" "dom_wf r d'" "same_nodes d1 d'"
    using Cons.IH [of d1] Cons.prems(2) by (auto simp: same_nodes_def)
  then show ?case using d1 kv same_nodes_trans by auto
qed

lemma setAttributes_ok:
  assumes "browser_ok r B"
  shows "dom_wf r d \<Longrightarrow> nodes d n \<noteq> None \<Longrightarrow> \<exists>d'. setAttributes B n kvs d = Some d' \<and> dom_wf r d' \<and> same_nodes d d'"
proof (induction kvs arbitrary: d)
  case Nil
  then show ?case by (simp add: same_nodes_def)
next
  case (Cons kv kvs)
  obtain k v where kv: "kv = (k, v)" by (cases kv)
  obtain d1 where d1: "setAttribute B n k (case v of AttrText s \<Rightarrow> Some s | AttrFalse \<Rightarrow> None) d = Some d1" "dom_wf r d1" "same_nodes d d1"
    using setAttribute_ok [OF Cons.prems(1) assms Cons.prems(2)] by blast
  then obtain d' where "setAttributes B n kvs d1 = Some d'" "dom_wf r d'" "same_nodes d1 d'"
    using Cons.IH [of d1] Cons.prems(2) by (auto simp: same_nodes_def)
  then show ?case using d1 kv same_nodes_trans by auto
qed

section \<open>The invariant of a run\<close>

definition unbounded :: "modifier \<Rightarrow> modifier" where
  "unbounded m = m\<lparr>m_boundaries := None\<rparr>"

definition like_default :: "modifier list \<Rightarrow> bool" where
  "like_default ms \<longleftrightarrow> map unbounded ms = default_modifiers"

definition bounded :: "modifier list \<Rightarrow> bool" where
  "bounded ms \<longleftrightarrow> (\<forall>m \<in> set ms. m_name m = ''preventOverflow'' \<longrightarrow> m_boundaries m \<noteq> None)"

definition run_ok :: "(nat \<Rightarrow> nat) \<Rightarrow> nat \<Rightarrow> nat \<Rightarrow> bool \<Rightarrow> pstate \<Rightarrow> bool" where
  "run_ok r p ref b s \<longleftrightarrow> (case s of (d, x) \<Rightarrow>
     dom_wf r d \<and> nodes d p \<noteq> None \<and> nodes d ref \<noteq> None \<and> d_popper x = p \<and> d_reference x = ref
   \<and> (\<forall>a. d_arrowElement x = Some a \<longrightarrow> nodes d a \<noteq> None)
   \<and> like_default (d_modifiers x) \<and> (b \<longrightarrow> bounded (d_modifiers x)))"

lemma unbounded_sel [simp]:
  "m_name (unbounded m) = m_name m" "m_fn (unbounded m) = m_fn m" "m_enabled (unbounded m) = m_enabled m"
  "m_order (unbounded m) = m_order m" "m_offset (unbounded m) = m_offset m" "m_boundariesElement (unbounded m) = m_boundariesElement m"
  "unbounded (m\<lparr>m_boundaries := b\<rparr>) = unbounded m" "unbounded (unbounded m) = unbounded m"
  by (simp_all add: unbounded_def)

lemma like_default_default [simp]: "like_default default_modifiers"
  by (simp add: like_default_def default_defs unbounded_def)

lemma findIndex_unbounded: "findIndex (map unbounded ms) n = findIndex ms n"
  by (induction ms) (auto simp: Let_def)

lemma find_modifier_like:
  assumes "like_default ms" and "find_modifier default_modifiers n \<noteq> None"
  shows "find_modifier ms n \<noteq> None"
  using assms unfolding like_default_def find_modifier_def find_None_iff
  by (metis (no_types, lifting) image_eqI image_iff list.set_map unbounded_sel(1))

lemma like_default_member: "like_default ms \<Longrightarrow> m \<in> set ms \<Longrightarrow> unbounded m \<in> set default_modifiers"
  unfolding like_default_def by (metis image_eqI list.set_map)

text \<open>Changes of the data that leave the invariant alone.\<close>

lemma run_ok_data:
  assumes "run_ok r p ref b (d, x)" and "d_popper x' = d_popper x" "d_reference x' = d_reference x"
    "d_arrowElement x' = d_arrowElement x" "d_modifiers x' = d_modifiers x"
  shows "run_ok r p ref b (d, x')"
  using assms by (simp add: run_ok_def)

lemma run_ok_dom:
  assumes "run_ok r p ref b (d, x)" and "dom_wf r d'" and "same_nodes d d'"
  shows "run_ok r p ref b (d', x)"
  using assms by (simp add: run_ok_def same_nodes_def del: not_None_eq)

section \<open>Each modifier returns\<close>

lemma offset_ok:
  assumes "run_ok r p ref b s" and "m_offset m = OffsetNumber (Some v)"
  shows "\<exists>s'. offset B m s = Some s' \<and> run_ok r p ref b s'"
proof -
  obtain d x where s: "s = (d, x)" by (cases s)
  then show ?thesis using assms
    by (auto simp: offset_def offset_number_def Let_def intro!: run_ok_data [of r p ref b d x])
qed

lemma shift_ok: "run_ok r p ref b s \<Longrightarrow> run_ok r p ref b (shift s)"
  by (cases s) (auto simp: shift_def Let_def split: option.splits list.splits intro: run_ok_data)

lemma keepTogether_ok: "run_ok r p ref b s \<Longrightarrow> run_ok r p ref b (keepTogether s)"
  by (cases s) (auto simp: keepTogether_def Let_def intro: run_ok_data)

lemma inner_ok: "run_ok r p ref b s \<Longrightarrow> run_ok r p ref b (inner s)"
  by (cases s) (auto simp: inner_def Let_def intro: run_ok_data)

lemma hide_ok:
  assumes "run_ok r p ref True s"
  shows "\<exists>s'. hide s = Some s' \<and> run_ok r p ref True s'"
proof -
  obtain d x where s: "s = (d, x)" by (cases s)
  have bd: "bounded (d_modifiers x)" using assms s by (simp add: run_ok_def)
  have keep: "run_ok r p ref True (d, x\<lparr>d_hide := h, d_attributes := att\<rparr>)" for h att
    using assms s by (auto intro: run_ok_data)
  show ?thesis
  proof (cases "isModifierRequired (d_modifiers x) ''hide'' ''preventOverflow''")
    case True
    then obtain m0 where "m0 \<in> set (d_modifiers x)" "m_name m0 = ''preventOverflow''"
      by (auto simp: isModifierRequired_def split: option.splits)
    then obtain m where m: "find_modifier (d_modifiers x) ''preventOverflow'' = Some m"
      by (cases "find_modifier (d_modifiers x) ''preventOverflow''") (auto simp: find_modifier_def find_None_iff)
    then have "m \<in> set (d_modifiers x)" "m_name m = ''preventOverflow''"
      by (auto simp: find_modifier_def find_Some_iff)
    then obtain bo where "m_boundaries m = Some bo" using bd by (auto simp: bounded_def)
    then show ?thesis using True m s assms keep by (auto simp: hide_def)
  next
    case False
    then show ?thesis using s assms by (simp add: hide_def)
  qed
qed

lemma arrow_ok:
  assumes "run_ok r p ref b s" and "browser_ok r B" and "m_element m = ArrowSelector sel"
  shows "\<exists>s'. arrow B m s = Some s' \<and> run_ok r p ref b s'"
proof -
  obtain d x where s: "s = (d, x)" by (cases s)
  show ?thesis
  proof (cases "isModifierRequired (d_modifiers x) ''arrow'' ''keepTogether'' \<and> querySelector B d (d_popper x) sel \<noteq> None")
    case True
    then obtain a where a: "querySelector B d (d_popper x) sel = Some a" by auto
    then have na: "nodes d a \<noteq> None" using assms(2) by (auto simp: browser_ok_def)
    obtain aw ah where sz: "getOuterSizes d a = Some (aw, ah)" using getOuterSizes_total [OF na] by blast
    have np: "nodes d (d_popper x) \<noteq> None" using assms(1) s by (auto simp: run_ok_def)
    have css: "\<exists>v. cssFloat d (d_popper x) k = Some v" for k by (rule cssFloat_total [OF np])
    obtain m1 m2 m3 m4 where "cssFloat d (d_popper x) ''marginTop'' = Some m1" "cssFloat d (d_popper x) ''marginLeft'' = Some m2"
      "cssFloat d (d_popper x) ''borderTopWidth'' = Some m3" "cssFloat d (d_popper x) ''borderLeftWidth'' = Some m4"
      using css by metis
    moreover have "run_ok r p ref b (d, x\<lparr>d_offPopper := o', d_arrowElement := Some a, d_offArrow := oa\<rparr>)" for o' oa
      using assms(1) s na by (simp add: run_ok_def)
    ultimately show ?thesis using True assms(3) a sz s by (simp add: arrow_def Let_def)
  next
    case False
    then show ?thesis using s assms by (auto simp: arrow_def)
  qed
qed

lemma bounded_set:
  "bounded (map (\<lambda>k. if m_name k = ''preventOverflow'' then k\<lparr>m_boundaries := Some bo\<rparr> else k) ms)"
  by (auto simp: bounded_def)

lemma like_default_set:
  assumes "like_default ms"
  shows "like_default (map (\<lambda>k. if m_name k = n then k\<lparr>m_boundaries := Some bo\<rparr> else k) ms)"
proof -
  have "unbounded \<circ> (\<lambda>k. if m_name k = n then k\<lparr>m_boundaries := Some bo\<rparr> else k) = unbounded" by (rule ext) simp
  then show ?thesis using assms by (simp add: like_default_def)
qed

lemma preventOverflow_ok:
  assumes ok: "run_ok r p ref b s" and br: "browser_ok r B" and m: "m_boundariesElement m = Some BScrollParent"
    and name: "m_name m = ''preventOverflow''"
  shows "\<exists>s'. preventOverflow B m s = Some s' \<and> run_ok r p ref True s'"
proof -
  obtain d x where s: "s = (d, x)" by (cases s)
  have wf: "dom_wf r d" and n: "nodes d p \<noteq> None" "nodes d ref \<noteq> None" and x: "d_popper x = p" "d_reference x = ref"
    using ok s by (simp_all add: run_ok_def)
  obtain pd where pd: "nodes d p = Some pd" using n by auto
  obtain d1 where d1: "setStyle B p ''top'' (CssText []) d = Some d1" "dom_wf r d1" "same_nodes d d1" "nodes d1 p \<noteq> None"
    using setStyle_chain [OF wf br n(1)] by blast
  obtain d2 where d2: "setStyle B p ''left'' (CssText []) d1 = Some d2" "dom_wf r d2" "same_nodes d1 d2" "nodes d2 p \<noteq> None"
    using setStyle_chain [OF d1(2) br d1(4)] by blast
  obtain d3 where d3: "setStyle B p (transform_prop B) (CssText []) d2 = Some d3" "dom_wf r d3" "same_nodes d2 d3" "nodes d3 p \<noteq> None"
    using setStyle_chain [OF d2(2) br d2(4)] by blast
  have s3: "same_nodes d d3" using d1(3) d2(3) d3(3) same_nodes_trans by blast
  then have ref3: "nodes d3 ref \<noteq> None" using n(2) by (simp add: same_nodes_def del: not_None_eq)
  obtain bo where bo: "getBoundaries B d3 p ref (m_padding m) BScrollParent (d_positionFixed x) = Some bo"
    using getBoundaries_total [OF d3(2,4) ref3, of BScrollParent B "m_padding m" "d_positionFixed x"]
    by (auto simp: boundary_ok_def)
  obtain d4 where d4: "setStyle B p ''top'' (inlineStyle pd ''top'') d3 = Some d4" "dom_wf r d4" "same_nodes d3 d4" "nodes d4 p \<noteq> None"
    using setStyle_chain [OF d3(2) br d3(4)] by blast
  obtain d5 where d5: "setStyle B p ''left'' (inlineStyle pd ''left'') d4 = Some d5" "dom_wf r d5" "same_nodes d4 d5" "nodes d5 p \<noteq> None"
    using setStyle_chain [OF d4(2) br d4(4)] by blast
  obtain d6 where d6: "setStyle B p (transform_prop B) (inlineStyle pd (transform_prop B)) d5 = Some d6" "dom_wf r d6" "same_nodes d5 d6"
    using setStyle_chain [OF d5(2) br d5(4)] by blast
  have s6: "same_nodes d d6" using s3 d4(3) d5(3) d6(3) same_nodes_trans by blast
  have "run_ok r p ref b (d6, x)" by (rule run_ok_dom [OF ok [unfolded s] d6(2) s6])
  then have "run_ok r p ref True (d6, x\<lparr>d_modifiers := map (\<lambda>k. if m_name k = ''preventOverflow'' then k\<lparr>m_boundaries := Some bo\<rparr> else k) (d_modifiers x),
      d_offPopper := op\<rparr>)" for op
    by (simp add: run_ok_def bounded_set like_default_set)
  then show ?thesis
    unfolding preventOverflow_def s prod.case using d1(1) d2(1) d3(1) d4(1) d5(1) d6(1) bo m name x pd by (simp add: Let_def)
qed

lemma computeStyle_ok:
  assumes "run_ok r p ref b s"
  shows "\<exists>s'. computeStyle B m s = Some s' \<and> run_ok r p ref b s'"
proof -
  obtain d x where s: "s = (d, x)" by (cases s)
  have wf: "dom_wf r d" and n: "nodes d (d_popper x) \<noteq> None" and like: "like_default (d_modifiers x)"
    using assms s by (auto simp: run_ok_def)
  have "find_modifier default_modifiers ''applyStyle'' \<noteq> None"
    by (simp add: find_modifier_def default_defs)
  then obtain am where am: "find_modifier (d_modifiers x) ''applyStyle'' = Some am" using find_modifier_like [OF like] by blast
  obtain op where op: "getOffsetParent B d (Some (d_popper x)) = Some op" "nodes d op \<noteq> None"
    using returns_nodeE [OF getOffsetParent_total [OF wf, of "Some (d_popper x)"]] n by blast
  obtain rc where rc: "getBoundingClientRect B d op = Some rc" using getBoundingClientRect_total [OF wf op(2)] by blast
  obtain pd where pd: "nodes d op = Some pd" using op(2) by auto
  have "run_ok r p ref b (d, x\<lparr>d_attributes := at', d_styles := st, d_arrowStyles := ast\<rparr>)" for at' st ast
    using assms s by (auto intro: run_ok_data)
  then show ?thesis using s am op(1) rc pd by (simp add: computeStyle_def Let_def)
qed

lemma applyStyle_ok:
  assumes "run_ok r p ref b s" and br: "browser_ok r B"
  shows "\<exists>s'. applyStyle B s = Some s' \<and> run_ok r p ref b s'"
proof -
  obtain d x where s: "s = (d, x)" by (cases s)
  have ok: "run_ok r p ref b (d, x)" using assms(1) s by simp
  then have wf: "dom_wf r d" and n: "nodes d (d_popper x) \<noteq> None" by (auto simp: run_ok_def)
  obtain d1 where d1: "setStyles B (d_popper x) (d_styles x) d = Some d1" "dom_wf r d1" "same_nodes d d1"
    using setStyles_ok [OF br wf n] by blast
  have ok1: "run_ok r p ref b (d1, x)" by (rule run_ok_dom [OF ok d1(2,3)])
  then have n1: "nodes d1 (d_popper x) \<noteq> None" by (auto simp: run_ok_def)
  obtain d2 where d2: "setAttributes B (d_popper x) (d_attributes x) d1 = Some d2" "dom_wf r d2" "same_nodes d1 d2"
    using setAttributes_ok [OF br d1(2) n1] by blast
  have ok2: "run_ok r p ref b (d2, x)" by (rule run_ok_dom [OF ok1 d2(2,3)])
  have "\<exists>d3. (case d_arrowElement x of Some a \<Rightarrow> if d_arrowStyles x \<noteq> [] then setStyles B a (d_arrowStyles x) d2 else Some d2
      | None \<Rightarrow> Some d2) = Some d3 \<and> dom_wf r d3 \<and> same_nodes d2 d3"
  proof (cases "d_arrowElement x")
    case None
    then show ?thesis using d2 by (simp add: same_nodes_def)
  next
    case (Some a)
    then have "nodes d2 a \<noteq> None" using ok2 by (auto simp: run_ok_def)
    then show ?thesis using Some d2(2) setStyles_ok [OF br d2(2), of a "d_arrowStyles x"] by (auto simp: same_nodes_def)
  qed
  then obtain d3 where "(case d_arrowElement x of Some a \<Rightarrow> if d_arrowStyles x \<noteq> [] then setStyles B a (d_arrowStyles x) d2 else Some d2
      | None \<Rightarrow> Some d2) = Some d3" "dom_wf r d3" "same_nodes d2 d3" by blast
  then show ?thesis using s d1(1) d2(1) run_ok_dom [OF ok2] by (simp add: applyStyle_def)
qed

section \<open>Runs\<close>

lemma run_all_append: "run_all c (xs @ ys) s = Option.bind (run_all c xs s) (run_all c ys)"
proof (induction xs arbitrary: s)
  case (Cons m xs)
  then show ?case by (cases "run_one c m s") simp_all
qed simp

lemma run_one_ok:
  assumes "run_ok r p ref b s" and "\<And>t. run_ok r p ref b t \<Longrightarrow> \<exists>s'. call m t = Some s' \<and> run_ok r p ref b' s'" and "b' \<longrightarrow> b \<or> m_enabled m \<and> m_fn m \<noteq> None"
  shows "\<exists>s'. run_one call m s = Some s' \<and> run_ok r p ref b' s'"
proof -
  obtain d x where s: "s = (d, x)" by (cases s)
  have "run_ok r p ref b (d, x\<lparr>d_offPopper := o1, d_offReference := o2\<rparr>)" for o1 o2
    using assms(1) s by (auto intro: run_ok_data)
  then show ?thesis using assms s by (auto simp: run_one_def run_ok_def)
qed

lemma run_all_ok:
  assumes "\<And>m t. m \<in> set ms \<Longrightarrow> run_ok r p ref b t \<Longrightarrow> \<exists>s'. call m t = Some s' \<and> run_ok r p ref b s'"
  shows "run_ok r p ref b s \<Longrightarrow> \<exists>s'. run_all call ms s = Some s' \<and> run_ok r p ref b s'"
  using assms
proof (induction ms arbitrary: s)
  case Nil
  then show ?case by simp
next
  case (Cons m ms)
  obtain s1 where "run_one call m s = Some s1" "run_ok r p ref b s1"
    using run_one_ok [OF Cons.prems(1), of call m b] Cons.prems(2) [of m] by auto
  then show ?case using Cons.IH [of s1] Cons.prems(2) by auto
qed

text \<open>The modifiers other than \<^verbatim>\<open>flip\<close> and \<^verbatim>\<open>hide\<close>, as the default configuration has them.\<close>

lemma default_fn_cases:
  assumes "unbounded m \<in> set default_modifiers"
  shows "m_fn m \<in> Some ` {Shift, KeepTogether, Inner, ComputeStyle, ApplyStyle, Hide}
    \<or> (m_fn m = Some Offset \<and> m_offset m = OffsetNumber (Some 0))
    \<or> (m_fn m = Some PreventOverflow \<and> m_boundariesElement m = Some BScrollParent \<and> m_name m = ''preventOverflow'')
    \<or> (m_fn m = Some Arrow \<and> m_element m = ArrowSelector ''[x-arrow]'')
    \<or> (m_fn m = Some Flip \<and> m_boundariesElement m = Some BViewport)"
  using assms by (cases m) (auto simp: default_defs unbounded_def)

lemma call_fn_ok:
  assumes "unbounded m \<in> set default_modifiers" and "browser_ok r B" and "run_ok r p ref b s"
    and "m_fn m \<noteq> Some Flip" and "m_fn m = Some Hide \<longrightarrow> b"
  shows "\<exists>s'. call_fn (Suc k) C B m s = Some s' \<and> run_ok r p ref b s'"
proof -
  have po: "m_fn m = Some PreventOverflow \<Longrightarrow> \<exists>s'. preventOverflow B m s = Some s' \<and> run_ok r p ref b s'"
    using default_fn_cases [OF assms(1)] preventOverflow_ok [OF assms(3,2), of m] by (auto simp: run_ok_def)
  have of: "m_fn m = Some Offset \<Longrightarrow> \<exists>s'. offset B m s = Some s' \<and> run_ok r p ref b s'"
    using default_fn_cases [OF assms(1)] offset_ok [OF assms(3)] by auto
  have ar: "m_fn m = Some Arrow \<Longrightarrow> \<exists>s'. arrow B m s = Some s' \<and> run_ok r p ref b s'"
    using default_fn_cases [OF assms(1)] arrow_ok [OF assms(3,2)] by auto
  have hi: "b \<Longrightarrow> \<exists>s'. hide s = Some s' \<and> run_ok r p ref b s'" using hide_ok [of r p ref s] assms(3) by auto
  show ?thesis
    using default_fn_cases [OF assms(1)] po of ar hi assms(4,5) shift_ok [OF assms(3)] keepTogether_ok [OF assms(3)]
      inner_ok [OF assms(3)] computeStyle_ok [OF assms(3), of B m] applyStyle_ok [OF assms(3,2)]
    by (auto simp del: split_paired_Ex)
qed

lemma flip_loop_ok:
  assumes "\<And>t. run_ok r p ref b t \<Longrightarrow> \<exists>s'. run t = Some s' \<and> run_ok r p ref b s'"
  shows "run_ok r p ref b s \<Longrightarrow> \<exists>s'. flip_loop run m bo order pl v s = Some s' \<and> run_ok r p ref b s'"
proof (induction order arbitrary: pl v s)
  case Nil
  then show ?case by (simp del: split_paired_Ex)
next
  case (Cons step order)
  obtain d x where s: "s = (d, x)" by (cases s)
  have keep: "run_ok r p ref b (d, x\<lparr>d_flipped := True, d_placement := pl', d_offPopper := o'\<rparr>)" for pl' o'
    using Cons.prems s by (auto intro: run_ok_data)
  have "nodes d (d_popper x) \<noteq> None" using Cons.prems s by (auto simp: run_ok_def)
  then have off: "\<exists>o'. getPopperOffsets d (d_popper x) rr pl' = Some o'" for rr pl' by (rule getPopperOffsets_total)
  show ?case
  proof (cases order)
    case Nil
    then show ?thesis using Cons.prems by (simp del: split_paired_Ex)
  next
    case order: (Cons nxt rest)
    let ?p = "base_of (d_placement x)"
    let ?bad = "overlapsRef ?p (d_offPopper x) (d_offReference x) \<or> overflows ?p (d_offPopper x) bo"
    let ?fv = "flipsVariation m ?p v (d_offPopper x) bo"
    let ?p2 = "if ?bad then nxt else ?p" and ?v2 = "if ?fv then getOppositeVariation v else v"
    obtain o' where o': "getPopperOffsets d (d_popper x) (d_offReference x) (with_variation ?p2 (Some ?v2)) = Some o'" using off by blast
    let ?s = "(d, x\<lparr>d_flipped := True, d_placement := with_variation ?p2 (Some ?v2), d_offPopper := (d_offPopper x)\<lparr>r_left := r_left o',
      r_top := r_top o', r_width := r_width o', r_height := r_height o'\<rparr>\<rparr>)"
    obtain s1 where s1: "run ?s = Some s1" "run_ok r p ref b s1" using assms [OF keep] by blast
    have "flip_loop run m bo (step # order) pl v s =
      (if pl \<noteq> step then flip_loop run m bo order pl v s
       else if ?bad \<or> ?fv then flip_loop run m bo order ?p2 ?v2 s1 else flip_loop run m bo order ?p v s)"
      using o' s1(1) unfolding order s by (simp add: Let_def)
    then show ?thesis using Cons.IH [OF Cons.prems] Cons.IH [OF s1(2)] by (simp del: split_paired_Ex)
  qed
qed

lemma take_before_flip:
  assumes "like_default ms" and "m \<in> set (slice_to ms (findIndex ms ''flip''))"
  shows "unbounded m \<in> set default_modifiers \<and> m_fn m \<noteq> Some Flip \<and> m_fn m \<noteq> Some Hide"
proof -
  have "findIndex default_modifiers ''flip'' = 5"
    by (simp add: default_defs)
  then have "findIndex ms ''flip'' = 5" using assms(1) findIndex_unbounded [of ms] by (simp add: like_default_def)
  then have "m \<in> set (take 5 ms)" using assms(2) by (simp add: slice_to_def)
  then have "unbounded m \<in> set (take 5 (map unbounded ms))" by (simp add: take_map)
  then have m: "unbounded m \<in> set (take 5 default_modifiers)" using assms(1) by (simp add: like_default_def)
  have "\<forall>q \<in> set (take 5 default_modifiers). m_fn q \<noteq> Some Flip \<and> m_fn q \<noteq> Some Hide"
    by (simp add: default_defs)
  then have "m_fn (unbounded m) \<noteq> Some Flip \<and> m_fn (unbounded m) \<noteq> Some Hide" using m by blast
  then show ?thesis using m by (auto dest: in_set_takeD)
qed

lemma nested_run_ok:
  assumes "browser_ok r B" and "run_ok r p ref b t"
  shows "\<exists>s'. runModifiersWith (call_fn (Suc k) C B) (d_modifiers (snd t)) t (Some ''flip'') = Some s' \<and> run_ok r p ref b s'"
proof -
  have "like_default (d_modifiers (snd t))" using assms(2) by (auto simp: run_ok_def)
  then show ?thesis unfolding runModifiersWith_def option.case
    using take_before_flip call_fn_ok [OF _ assms(1)] by (intro run_all_ok [OF _ assms(2)]) blast
qed

lemma flip_ok:
  assumes "browser_ok r B" and "run_ok r p ref b s" and "m_boundariesElement m = Some BViewport"
  shows "\<exists>s'. flip (\<lambda>t. runModifiersWith (call_fn (Suc k) C B) (d_modifiers (snd t)) t (Some ''flip'')) B m s = Some s'
    \<and> run_ok r p ref b s'"
proof -
  obtain d x where s: "s = (d, x)" by (cases s)
  have n: "dom_wf r d" "nodes d (d_popper x) \<noteq> None" "nodes d (d_reference x) \<noteq> None" using assms(2) s by (auto simp: run_ok_def)
  obtain bo where bo: "getBoundaries B d (d_popper x) (d_reference x) (m_padding m) BViewport (d_positionFixed x) = Some bo"
    using getBoundaries_total [OF n, of BViewport B "m_padding m" "d_positionFixed x"] by (auto simp: boundary_ok_def)
  show ?thesis
    unfolding flip_def s prod.case assms(3) using flip_loop_ok [OF nested_run_ok [OF assms(1)] assms(2) [unfolded s]] assms(2) bo s
    by (simp add: Let_def del: split_paired_Ex)
qed

lemma call_fn_full:
  assumes "unbounded m \<in> set default_modifiers" and "browser_ok r B" and "run_ok r p ref b s" and "m_fn m = Some Hide \<longrightarrow> b"
  shows "\<exists>s'. call_fn (Suc (Suc k)) C B m s = Some s' \<and> run_ok r p ref b s'"
proof (cases "m_fn m = Some Flip")
  case True
  then have "m_boundariesElement m = Some BViewport" using default_fn_cases [OF assms(1)] by auto
  then show ?thesis using True flip_ok [OF assms(2,3), of m k C] by (simp del: split_paired_Ex)
next
  case False
  then show ?thesis using call_fn_ok [OF assms(1-3) False assms(4)] by blast
qed

lemma call_fn_2:
  assumes "unbounded m \<in> set default_modifiers" and "browser_ok r B" and "run_ok r p ref b s" and "m_fn m = Some Hide \<longrightarrow> b"
  shows "\<exists>s'. call_fn 2 C B m s = Some s' \<and> run_ok r p ref b s'"
  using call_fn_full [OF assms, of 0 C] unfolding numeral_2_eq_2 .

lemma default_fns:
  "\<forall>q \<in> set (take 2 default_modifiers). m_fn q \<noteq> Some Hide"
  "m_fn (default_modifiers ! 2) = Some PreventOverflow \<and> m_enabled (default_modifiers ! 2)"
  by (simp_all add: default_defs)

lemma runModifiers_ok:
  assumes br: "browser_ok r B" and ok: "run_ok r p ref False s" and like: "like_default ms"
  shows "\<exists>s'. runModifiers C B ms s None = Some s' \<and> run_ok r p ref True s'"
proof -
  have mem: "unbounded m \<in> set default_modifiers" if "m \<in> set ms" for m using like_default_member [OF like that] .
  have len: "length ms = 10" using arg_cong [OF like [unfolded like_default_def], of length] by (simp add: default_modifiers_def)
  then have ms: "ms = take 2 ms @ ms ! 2 # drop 3 ms" using id_take_nth_drop [of 2 ms] by (simp add: eval_nat_numeral)
  have "map unbounded ms ! 2 = default_modifiers ! 2" using like by (simp add: like_default_def)
  then have "unbounded (ms ! 2) = default_modifiers ! 2" using len by simp
  then have po: "m_fn (ms ! 2) = Some PreventOverflow" "m_enabled (ms ! 2)" and po_mem: "unbounded (ms ! 2) \<in> set default_modifiers"
    using default_fns(2) unbounded_sel(2,3) [of "ms ! 2"] by (auto simp: default_modifiers_def)
  have "set (take 2 (map unbounded ms)) = set (take 2 default_modifiers)" using like by (simp add: like_default_def)
  then have no_hide: "m_fn m \<noteq> Some Hide" if "m \<in> set (take 2 ms)" for m
    using default_fns(1) that by (metis image_eqI list.set_map take_map unbounded_sel(2))
  have "\<exists>s'. call_fn 2 C B m t = Some s' \<and> run_ok r p ref False s'" if "m \<in> set (take 2 ms)" "run_ok r p ref False t" for m t
    using call_fn_2 [OF mem [OF in_set_takeD [OF that(1)]] br that(2)] no_hide [OF that(1)] by blast
  then obtain s1 where s1: "run_all (call_fn 2 C B) (take 2 ms) s = Some s1" "run_ok r p ref False s1"
    using run_all_ok [OF _ ok, of "take 2 ms" "call_fn 2 C B"] by blast
  have "\<exists>s'. call_fn 2 C B (ms ! 2) t = Some s' \<and> run_ok r p ref True s'" if "run_ok r p ref False t" for t
    using po default_fn_cases [OF po_mem] preventOverflow_ok [OF that br, of "ms ! 2"]
    by (auto simp del: split_paired_Ex simp: numeral_2_eq_2)
  then obtain s2 where s2: "run_one (call_fn 2 C B) (ms ! 2) s1 = Some s2" "run_ok r p ref True s2"
    using run_one_ok [OF s1(2), of "call_fn 2 C B" "ms ! 2" True] po by blast
  have "\<exists>s'. call_fn 2 C B m t = Some s' \<and> run_ok r p ref True s'" if "m \<in> set (drop 3 ms)" "run_ok r p ref True t" for m t
    using call_fn_2 [OF mem [OF in_set_dropD [OF that(1)]] br that(2)] by blast
  then obtain s3 where s3: "run_all (call_fn 2 C B) (drop 3 ms) s2 = Some s3" "run_ok r p ref True s3"
    using run_all_ok [OF _ s2(2), of "drop 3 ms" "call_fn 2 C B"] by blast
  have "run_all (call_fn 2 C B) ms s = Some s3"
    by (subst ms) (simp add: run_all_append s1(1) s2(1) s3(1))
  then show ?thesis using s3(2) by (simp add: runModifiers_def runModifiersWith_def)
qed

section \<open>An update returns\<close>

definition popper_ok :: "(nat \<Rightarrow> nat) \<Rightarrow> world \<Rightarrow> bool" where
  "popper_ok r w \<longleftrightarrow> dom_wf r (w_dom w) \<and> nodes (w_dom w) (pp_popper (w_popper w)) \<noteq> None
     \<and> nodes (w_dom w) (pp_reference (w_popper w)) \<noteq> None \<and> like_default (pp_modifiers (w_popper w))
     \<and> o_modifiers (pp_options (w_popper w)) = default_modifiers"

lemma find_default_flip:
  "\<exists>fm. find_modifier default_modifiers ''flip'' = Some fm \<and> m_boundariesElement fm = Some BViewport"
  by (simp add: find_modifier_def default_defs)

lemma update_data_ok:
  assumes "popper_ok r w" and "browser_ok r B"
  shows "\<exists>s'. update_data C B (w_dom w) (w_popper w) = Some s' \<and> run_ok r (pp_popper (w_popper w)) (pp_reference (w_popper w)) True s'"
proof -
  let ?d = "w_dom w" and ?p = "w_popper w"
  have wf: "dom_wf r ?d" and n: "nodes ?d (pp_popper ?p) \<noteq> None" "nodes ?d (pp_reference ?p) \<noteq> None"
    and like: "like_default (pp_modifiers ?p)" and opt: "o_modifiers (pp_options ?p) = default_modifiers"
    using assms(1) by (simp_all add: popper_ok_def)
  obtain rc where rc: "getReferenceOffsets B ?d (pp_popper ?p) (pp_reference ?p) (o_positionFixed (pp_options ?p)) = Some rc"
    using getReferenceOffsets_total [OF wf n] by blast
  obtain fm where fm: "find_modifier default_modifiers ''flip'' = Some fm" "m_boundariesElement fm = Some BViewport"
    using find_default_flip by blast
  obtain pl where pl: "computeAutoPlacement B ?d (o_placement (pp_options ?p)) rc (pp_popper ?p) (pp_reference ?p) BViewport (m_padding fm) = Some pl"
    using computeAutoPlacement_total [OF wf n, of BViewport B "o_placement (pp_options ?p)" rc "m_padding fm"]
    by (auto simp: boundary_ok_def)
  obtain off where off: "getPopperOffsets ?d (pp_popper ?p) rc pl = Some off" using getPopperOffsets_total [OF n(1)] by blast
  define x where "x = \<lparr>d_popper = pp_popper ?p, d_reference = pp_reference ?p, d_modifiers = pp_modifiers ?p,
     d_placement = pl, d_originalPlacement = pl, d_positionFixed = o_positionFixed (pp_options ?p),
     d_flipped = False, d_hide = None, d_arrowElement = None, d_offPopper = off,
     d_offPosition = (if o_positionFixed (pp_options ?p) then ''fixed'' else ''absolute''), d_offReference = rc,
     d_offArrow = [], d_styles = [], d_arrowStyles = [], d_attributes = []\<rparr>"
  have "run_ok r (pp_popper ?p) (pp_reference ?p) False (?d, x)" using wf n like by (simp add: run_ok_def x_def)
  from runModifiers_ok [OF assms(2) this like]
  show ?thesis unfolding update_data_def x_def using rc opt fm pl off by (simp add: Let_def del: split_paired_Ex)
qed

lemma update_ok:
  assumes "popper_ok r w" and "browser_ok r B" and "\<not> isDestroyed (pp_state (w_popper w))"
  shows "\<exists>w' x. update C B w = Some w' \<and> popper_ok r w' \<and> isCreated (pp_state (w_popper w'))
    \<and> w_calls w' = w_calls w @ [if isCreated (pp_state (w_popper w)) then OnUpdate x else OnCreate x]
    \<and> d_popper x = pp_popper (w_popper w)"
proof -
  obtain d x where s: "update_data C B (w_dom w) (w_popper w) = Some (d, x)"
    "run_ok r (pp_popper (w_popper w)) (pp_reference (w_popper w)) True (d, x)"
    using update_data_ok [OF assms(1,2), of C] by fastforce
  then show ?thesis using assms(1,3)
    by (intro exI [of _ "the (update C B w)"] exI [of _ x]) (auto simp: update_def Let_def popper_ok_def run_ok_def)
qed

text \<open>C4. With the default modifiers, an update of a popper that is not destroyed runs to its end on every
  well-formed document, whatever the layout: no walk runs forever and no missing element is used. It
  calls \<^verbatim>\<open>onCreate\<close> the first time and \<^verbatim>\<open>onUpdate\<close> afterwards, exactly once, and leaves a page on which
  the next update runs as well.\<close>

theorem update_runs_to_its_end:
  assumes "popper_ok r w" and "browser_ok r B" and "\<not> isDestroyed (pp_state (w_popper w))"
  shows "\<exists>w' x. update C B w = Some w' \<and> popper_ok r w' \<and> isCreated (pp_state (w_popper w'))
    \<and> w_calls w' = w_calls w @ [if isCreated (pp_state (w_popper w)) then OnUpdate x else OnCreate x]
    \<and> d_popper x = pp_popper (w_popper w)"
  by (rule update_ok [OF assms])

definition demo_world :: world where
  "demo_world = \<lparr>w_dom = demo_page,
     w_popper = \<lparr>pp_reference = 4, pp_popper = 5, pp_options = Defaults, pp_modifiers = default_modifiers,
       pp_state = \<lparr>isDestroyed = False, isCreated = False, eventsEnabled = False, updateBound = False,
         scrollParents = [], scrollElement = None\<rparr>\<rparr>,
     w_listeners = [], w_scheduled = False, w_queue = 0, w_frames = 0, w_calls = []\<rparr>"

lemma demo_browser_ok: "browser_ok demo_depth demo_browser"
  by (simp add: browser_ok_def demo_browser_def)

theorem update_runs_to_its_end_witness:
  "\<exists>w' x. update (\<lambda>_ _. Some) demo_browser demo_world = Some w' \<and> popper_ok demo_depth w' \<and> w_calls w' = [OnCreate x]"
proof -
  have "popper_ok demo_depth demo_world"
    using demo_page_wf demo_page_nodes [of 4] demo_page_nodes [of 5] by (simp add: popper_ok_def demo_world_def Defaults_def)
  moreover have "\<not> isDestroyed (pp_state (w_popper demo_world))" by (simp add: demo_world_def)
  ultimately show ?thesis
    using update_runs_to_its_end [OF _ demo_browser_ok, of demo_world "\<lambda>_ _. Some"] by (fastforce simp: demo_world_def)
qed

section \<open>A flip changes the side once\<close>

text \<open>The modifiers before \<^verbatim>\<open>flip\<close> leave the placement alone.\<close>

lemma early_call_keeps_side:
  assumes "call_fn (Suc k) C B m (d, x) = Some (d', x')"
    and "m_fn m \<in> Some ` {Shift, Offset, PreventOverflow, KeepTogether, Arrow}"
  shows "d_placement x' = d_placement x \<and> d_flipped x' = d_flipped x"
proof -
  have 1: "shift (d, x) = (d', x') \<Longrightarrow> d_placement x' = d_placement x \<and> d_flipped x' = d_flipped x"
    by (auto simp: shift_def Let_def split: option.splits list.splits if_splits)
  have 2: "offset B m (d, x) = Some (d', x') \<Longrightarrow> d_placement x' = d_placement x \<and> d_flipped x' = d_flipped x"
    by (auto simp: offset_def Let_def bind_eq_Some_conv split: option.splits if_splits offset_option.splits)
  have 3: "preventOverflow B m (d, x) = Some (d', x') \<Longrightarrow> d_placement x' = d_placement x \<and> d_flipped x' = d_flipped x"
  proof -
    assume "preventOverflow B m (d, x) = Some (d', x')"
    then have e: "x' = x\<lparr>d_modifiers := d_modifiers x', d_offPopper := d_offPopper x'\<rparr>"
      using preventOverflow_shape [of B m d x d' x'] by blast
    show ?thesis using arg_cong [OF e, of d_placement] arg_cong [OF e, of d_flipped] by simp
  qed
  have 4: "keepTogether (d, x) = (d', x') \<Longrightarrow> d_placement x' = d_placement x \<and> d_flipped x' = d_flipped x"
    by (auto simp: keepTogether_def Let_def)
  have 5: "arrow B m (d, x) = Some (d', x') \<Longrightarrow> d_placement x' = d_placement x \<and> d_flipped x' = d_flipped x"
  proof -
    assume a: "arrow B m (d, x) = Some (d', x')"
    show ?thesis
    proof (cases "isModifierRequired (d_modifiers x) ''arrow'' ''keepTogether''")
      case True
      then have on: "\<not> \<not> isModifierRequired (d_modifiers x) ''arrow'' ''keepTogether''" by simp
      show ?thesis using a unfolding arrow_def prod.case Let_def if_not_P [OF on]
        by (auto simp: bind_eq_Some_conv split: option.split_asm prod.split_asm)
    qed (use a in \<open>simp add: arrow_def\<close>)
  qed
  show ?thesis using assms 1 2 3 4 5 by auto
qed

lemma early_run_keeps_side:
  assumes "\<forall>m \<in> set ms. m_fn m \<in> Some ` {Shift, Offset, PreventOverflow, KeepTogether, Arrow}"
  shows "run_all (call_fn (Suc k) C B) ms (d, x) = Some (d', x') \<Longrightarrow> d_placement x' = d_placement x \<and> d_flipped x' = d_flipped x"
  using assms
proof (induction ms arbitrary: d x)
  case (Cons m ms)
  then obtain d1 x1 where s1: "run_one (call_fn (Suc k) C B) m (d, x) = Some (d1, x1)"
      "run_all (call_fn (Suc k) C B) ms (d1, x1) = Some (d', x')"
    by (auto simp: bind_eq_Some_conv simp del: call_fn.simps)
  have "d_placement x1 = d_placement x \<and> d_flipped x1 = d_flipped x"
    using s1(1) Cons.prems(2) early_call_keeps_side [of k C B m d _ d1 x1]
    by (auto simp: run_one_def simp del: call_fn.simps split: if_splits)
  then show ?case using Cons.IH [OF s1(2)] Cons.prems(2) by simp
qed simp

lemma before_flip_early:
  assumes "like_default ms"
  shows "\<forall>m \<in> set (slice_to ms (findIndex ms ''flip'')). m_fn m \<in> Some ` {Shift, Offset, PreventOverflow, KeepTogether, Arrow}"
proof -
  have "findIndex default_modifiers ''flip'' = 5" by (simp add: default_defs)
  then have i: "findIndex ms ''flip'' = 5" using assms findIndex_unbounded [of ms] by (simp add: like_default_def)
  have "\<forall>q \<in> set (take 5 default_modifiers). m_fn q \<in> Some ` {Shift, Offset, PreventOverflow, KeepTogether, Arrow}"
    by (simp add: default_defs)
  then have "\<forall>q \<in> unbounded ` set (take 5 ms). m_fn q \<in> Some ` {Shift, Offset, PreventOverflow, KeepTogether, Arrow}"
    using assms by (simp add: like_default_def flip: take_map list.set_map)
  then show ?thesis by (simp add: slice_to_def i)
qed

lemma default_flip_fields:
  assumes "unbounded m \<in> set default_modifiers" "m_fn m = Some Flip"
  shows "m_behavior m = BFlip" "\<not> m_flipVariations m" "\<not> m_flipVariationsByContent m" "m_boundariesElement m = Some BViewport"
    "m_padding m = PadNumber (Some 5)"
  using assms by (cases m; auto simp: default_defs unbounded_def)+

lemma inner_disabled: "like_default ms \<Longrightarrow> \<not> isModifierEnabled ms ''inner''"
proof -
  assume like: "like_default ms"
  have "\<forall>q \<in> set default_modifiers. \<not> (m_enabled q \<and> m_name q = ''inner'')" by (simp add: default_defs)
  then show ?thesis using like_default_member [OF like] by (force simp: isModifierEnabled_def)
qed

text \<open>C15. In every state of a run with the default modifiers, \<^verbatim>\<open>flip\<close> returns. It acts when the popper
  overlaps its reference or sticks out of the padded viewport on the side it is placed at, in whole
  pixels rounded down, unless it was flipped before and is back at its original placement. Then it turns the
  side into the opposite one, keeps the variation, puts the popper beside its reference there, and runs
  the modifiers before it again, which leave that placement; otherwise it changes nothing.\<close>

theorem flip_changes_side:
  assumes ok: "run_ok r p ref b (d, x)" and br: "browser_ok r B"
    and m: "unbounded m \<in> set default_modifiers" "m_fn m = Some Flip"
    and boxes: "is_box (d_offPopper x) l t w h" "is_box (d_offReference x) rl rt rw rh"
    and bo: "getBoundaries B d p ref (PadNumber (Some 5)) BViewport (d_positionFixed x) = Some bo"
      "r_left bo = Some bl" "r_top bo = Some bt" "r_right bo = Some br'" "r_bottom bo = Some bb"
    and side: "side = base_of (d_placement x)"
    and opp: "(side, opp) \<in> {(''left'', ''right''), (''right'', ''left''), (''top'', ''bottom''), (''bottom'', ''top'')}"
  shows "\<exists>d' x'. call_fn 2 C B m (d, x) = Some (d', x') \<and>
    (if (side = ''left'' \<and> (\<lfloor>rl\<rfloor> < \<lfloor>l + w\<rfloor> \<or> \<lfloor>l\<rfloor> < \<lfloor>bl\<rfloor>)
         \<or> side = ''right'' \<and> (\<lfloor>l\<rfloor> < \<lfloor>rl + rw\<rfloor> \<or> \<lfloor>br'\<rfloor> < \<lfloor>l + w\<rfloor>)
         \<or> side = ''top'' \<and> (\<lfloor>rt\<rfloor> < \<lfloor>t + h\<rfloor> \<or> \<lfloor>t\<rfloor> < \<lfloor>bt\<rfloor>)
         \<or> side = ''bottom'' \<and> (\<lfloor>t\<rfloor> < \<lfloor>rt + rh\<rfloor> \<or> \<lfloor>bb\<rfloor> < \<lfloor>t + h\<rfloor>))
        \<and> \<not> (d_flipped x \<and> d_placement x = d_originalPlacement x)
     then d_flipped x' \<and> d_placement x' = with_variation opp (variation_of (d_placement x))
       \<and> (\<exists>off. getPopperOffsets d p (d_offReference x) (with_variation opp (variation_of (d_placement x))) = Some off
          \<and> runModifiersWith (call_fn 1 C B) (d_modifiers x)
              (d, x\<lparr>d_flipped := True, d_placement := with_variation opp (variation_of (d_placement x)),
                d_offPopper := (d_offPopper x)\<lparr>r_left := r_left off, r_top := r_top off, r_width := r_width off, r_height := r_height off\<rparr>\<rparr>)
              (Some ''flip'') = Some (d', x'))
     else d' = d \<and> x' = x)"
proof -
  define run where "run = (\<lambda>t. runModifiersWith (call_fn 1 C B) (d_modifiers (snd t)) t (Some ''flip''))"
  have like: "like_default (d_modifiers x)" and px: "d_popper x = p" "d_reference x = ref" and n: "nodes d p \<noteq> None"
    using ok by (auto simp: run_ok_def)
  note fm = default_flip_fields [OF m]
  define bad where "bad = (overlapsRef side (d_offPopper x) (d_offReference x) \<or> overflows side (d_offPopper x) bo)"
  have lt: "fl_lt (Some u) (Some v) = (\<lfloor>u\<rfloor> < \<lfloor>v\<rfloor>)" for u v by (simp add: fl_lt_def js_floor_def)
  have bad: "bad = (side = ''left'' \<and> (\<lfloor>rl\<rfloor> < \<lfloor>l + w\<rfloor> \<or> \<lfloor>l\<rfloor> < \<lfloor>bl\<rfloor>)
         \<or> side = ''right'' \<and> (\<lfloor>l\<rfloor> < \<lfloor>rl + rw\<rfloor> \<or> \<lfloor>br'\<rfloor> < \<lfloor>l + w\<rfloor>)
         \<or> side = ''top'' \<and> (\<lfloor>rt\<rfloor> < \<lfloor>t + h\<rfloor> \<or> \<lfloor>t\<rfloor> < \<lfloor>bt\<rfloor>)
         \<or> side = ''bottom'' \<and> (\<lfloor>t\<rfloor> < \<lfloor>rt + rh\<rfloor> \<or> \<lfloor>bb\<rfloor> < \<lfloor>t + h\<rfloor>))"
    using opp boxes bo(2-5) unfolding bad_def overlapsRef_def overflows_def is_box_def by (auto simp: lt)
  have "getOppositePlacement ''left'' = ''right''" "getOppositePlacement ''right'' = ''left''"
      "getOppositePlacement ''top'' = ''bottom''" "getOppositePlacement ''bottom'' = ''top''" by code_simp+
  then have opp': "getOppositePlacement side = opp" using opp by auto
  let ?pl = "with_variation opp (variation_of (d_placement x))"
  obtain off where off: "getPopperOffsets d p (d_offReference x) ?pl = Some off" using getPopperOffsets_total [OF n] by blast
  define y where "y = x\<lparr>d_flipped := True, d_placement := ?pl,
      d_offPopper := (d_offPopper x)\<lparr>r_left := r_left off, r_top := r_top off, r_width := r_width off, r_height := r_height off\<rparr>\<rparr>"
  have y: "d_modifiers y = d_modifiers x" "d_placement y = ?pl" "d_flipped y" by (simp_all add: y_def)
  have "run_ok r p ref b (d, y)" using ok by (rule run_ok_data) (simp_all add: y_def)
  then obtain d1 x1 where run: "run (d, y) = Some (d1, x1)"
    using nested_run_ok [OF br, of p ref b "(d, y)" 0 C] by (auto simp: run_def)
  then have kept: "d_placement x1 = ?pl" "d_flipped x1"
    using early_run_keeps_side [OF before_flip_early [OF like], of 0 C B d y d1 x1]
    by (auto simp: run_def runModifiersWith_def y)
  have call: "call_fn 2 C B m (d, x) = flip run B m (d, x)"
    using m(2) by (simp add: numeral_2_eq_2 run_def)
  have step: "flip run B m (d, x) =
      (if bad \<and> \<not> (d_flipped x \<and> d_placement x = d_originalPlacement x) then Some (d1, x1) else Some (d, x))"
    using flip_default_step [OF fm(1-4) inner_disabled [OF like], of B d bo run] bo(1) run off
    by (simp add: fm(5) px Let_def side [symmetric] opp' bad_def y_def)
  show ?thesis
    unfolding call step bad [symmetric] using kept off run by (auto simp: run_def y y_def)
qed

theorem flip_changes_side_witness:
  "\<exists>d' x'. call_fn 2 (\<lambda>_ _. Some) demo_browser (default_modifiers ! 5) (demo_page, demo_data\<lparr>d_offPopper := box 170 580 60 30\<rparr>) = Some (d', x')
     \<and> d_placement x' = ''top'' \<and> d_flipped x'"
proof -
  let ?x = "demo_data\<lparr>d_offPopper := box 170 580 60 30\<rparr>"
  have m: "unbounded (default_modifiers ! 5) \<in> set default_modifiers" "m_fn (default_modifiers ! 5) = Some Flip"
    by (simp_all add: default_defs unbounded_def)
  have "d_arrowElement ?x = None" by (simp add: demo_data_def no_data_def)
  then have ok: "run_ok demo_depth 5 4 False (demo_page, ?x)"
    using demo_page_wf demo_page_nodes [of 4] demo_page_nodes [of 5] by (simp add: run_ok_def demo_data_sel)
  have boxes: "is_box (d_offPopper ?x) 170 580 60 30" "is_box (d_offReference ?x) 150 150 100 20"
    by (simp_all add: demo_data_sel is_box_box)
  have bo: "getBoundaries demo_browser demo_page 5 4 (PadNumber (Some 5)) BViewport (d_positionFixed ?x) = Some demo_bounds"
    "r_left demo_bounds = Some 5" "r_top demo_bounds = Some 5" "r_right demo_bounds = Some 795" "r_bottom demo_bounds = Some 595"
    using demo_boundaries by (simp_all add: demo_data_sel demo_bounds_def box_def getClientRect_def no_rect_def)
  have pl: "''bottom'' = base_of (d_placement ?x)" "with_variation ''top'' (variation_of (d_placement ?x)) = ''top''" "\<not> d_flipped ?x"
    by (simp_all add: demo_data_sel base_of_def variation_of_def with_variation_def)
  show ?thesis
    using flip_changes_side [OF ok demo_browser_ok m boxes bo pl(1), of "''top''" "\<lambda>_ _. Some"] pl(2,3) by fastforce
qed

section \<open>Dependencies come first\<close>

interpretation modifier_order: comparator_on "{m. m_order m \<noteq> None}" "\<lambda>a b. m_order a - m_order b"
  by (rule comparator_key)

lemma sort_modifiers_sorted:
  assumes "\<forall>m \<in> set ms. m_order m \<noteq> None"
  shows "sorted_wrt (\<lambda>a b. \<not> js_lt (m_order b) (m_order a)) (sort_modifiers ms)"
proof -
  have "sorted_wrt (cmp_le (\<lambda>a b. m_order a - m_order b)) (sort_modifiers ms)"
    unfolding sort_modifiers_def using assms by (intro modifier_order.sorted_js_sort) auto
  then show ?thesis by (simp add: cmp_le_def [abs_def] js_pos_minus)
qed

lemma merge_modifiers_distinct:
  assumes "distinct (map fst ov)"
  shows "distinct (map m_name (merge_modifiers ov))"
proof -
  have d: "distinct (map m_name default_modifiers)" by (simp add: default_defs)
  have f: "distinct (map fst (filter (\<lambda>(name, _). name \<notin> m_name ` set default_modifiers) ov))"
    using assms by (rule distinct_map_filter)
  have 1: "map m_name (map (\<lambda>m. ((case map_of ov (m_name m) of None \<Rightarrow> m | Some f \<Rightarrow> f m)\<lparr>m_name := m_name m\<rparr>)) default_modifiers)
      = map m_name default_modifiers" by simp
  have 2: "map m_name (map (\<lambda>(name, f). (f no_modifier)\<lparr>m_name := name\<rparr>) l) = map fst l" for l :: modifier_overrides
    by (simp add: case_prod_unfold)
  show ?thesis unfolding merge_modifiers_def map_append 1 2 using d f by auto
qed

text \<open>In the array a \<^verbatim>\<open>Popper\<close> sorts at its creation, a modifier that another one declares as required is
  enabled and stands before it, so it has run when the other one does, whatever orders and further
  modifiers the caller configured.\<close>

theorem required_modifier_runs_first:
  assumes "distinct (map fst ov)" and "\<forall>m \<in> set (merge_modifiers ov). m_order m \<noteq> None"
    and "isModifierRequired (sort_modifiers (merge_modifiers ov)) requesting requested"
  shows "\<exists>m \<in> set (sort_modifiers (merge_modifiers ov)). m_name m = requested \<and> m_enabled m
    \<and> findIndex (sort_modifiers (merge_modifiers ov)) requested < findIndex (sort_modifiers (merge_modifiers ov)) requesting"
proof -
  let ?ms = "sort_modifiers (merge_modifiers ov)"
  have "distinct (map m_name ?ms)" using merge_modifiers_distinct [OF assms(1)]
    by (metis distinct_map mset_eq_imp_distinct_iff mset_js_sort mset_map set_js_sort sort_modifiers_def)
  moreover obtain a where a: "find_modifier ?ms requesting = Some a"
    and b: "\<exists>m \<in> set ?ms. m_name m = requested \<and> m_enabled m \<and> js_lt (m_order m) (m_order a)"
    using assms(3) by (auto simp: isModifierRequired_def split: option.splits)
  moreover have "a \<in> set ?ms" "m_name a = requesting" using a by (auto simp: find_modifier_def find_Some_iff)
  ultimately show ?thesis using findIndex_order [OF sort_modifiers_sorted [OF assms(2)]] by blast
qed

theorem required_modifier_runs_first_witness:
  "\<exists>m \<in> set (sort_modifiers (merge_modifiers [])). m_name m = ''keepTogether'' \<and> m_enabled m
    \<and> findIndex (sort_modifiers (merge_modifiers [])) ''keepTogether'' < findIndex (sort_modifiers (merge_modifiers [])) ''arrow''"
proof (rule required_modifier_runs_first)
  show "isModifierRequired (sort_modifiers (merge_modifiers [])) ''arrow'' ''keepTogether''" by code_simp
  show "\<forall>m \<in> set (merge_modifiers []). m_order m \<noteq> None"
    by (simp add: merge_modifiers_def default_defs)
qed simp

end
