(* ===== verification/Popper_Lifecycle.thy ===== *)
theory Popper_Lifecycle
  imports Popper_Update
begin

text \<open>
  A popper over its life: the calls a page makes on the instance and the events that reach it, as a
  step relation, and what holds in every state. The page itself may change between two steps.
\<close>

inductive popper_step :: "custom_fns \<Rightarrow> browser \<Rightarrow> world \<Rightarrow> world \<Rightarrow> bool" for C :: custom_fns and B :: browser where
  step_event: "l \<in> set (w_listeners w) \<Longrightarrow> popper_step C B w (scheduleUpdate w)"
| step_frame: "run_frame w = Some w' \<Longrightarrow> popper_step C B w w'"
| step_queue: "run_queued C B w = Some w' \<Longrightarrow> popper_step C B w w'"
| step_update: "popper_step C B w (debounced_update w)"
| step_schedule: "popper_step C B w (scheduleUpdate w)"
| step_enable: "enableEventListeners w = Some w' \<Longrightarrow> popper_step C B w w'"
| step_disable: "popper_step C B w (disableEventListeners w)"
| step_destroy: "destroy B w = Some w' \<Longrightarrow> popper_step C B w w'"
| step_page: "popper_step C B w (w\<lparr>w_dom := d\<rparr>)"

inductive popper_reach :: "custom_fns \<Rightarrow> browser \<Rightarrow> world \<Rightarrow> bool" for C :: custom_fns and B :: browser where
  popper_new: "new_Popper B d reference popper opts ov = Some w \<Longrightarrow> popper_reach C B w"
| popper_next: "popper_reach C B w \<Longrightarrow> popper_step C B w w' \<Longrightarrow> popper_reach C B w'"

section \<open>The invariant\<close>

abbreviation state_of :: "world \<Rightarrow> popper_state" where
  "state_of w \<equiv> pp_state (w_popper w)"

definition listeners_ok :: "world \<Rightarrow> bool" where
  "listeners_ok w \<longleftrightarrow>
     (if eventsEnabled (state_of w)
      then set (w_listeners w) = insert (WindowTarget, ''resize'') ((\<lambda>t. (t, ''scroll'')) ` set (scrollParents (state_of w)))
      else w_listeners w = [] \<and> scrollParents (state_of w) = [])
   \<and> updateBound (state_of w) = eventsEnabled (state_of w)"

definition queue_ok :: "world \<Rightarrow> bool" where
  "queue_ok w \<longleftrightarrow> w_queue w = (if w_scheduled w then 1 else 0)"

lemma set_addListener [simp]: "set (addListener l ls) = insert l (set ls)"
  by (auto simp: addListener_def)

lemma set_add_all: "set (fold (\<lambda>t. addListener (t, e)) ts ls) = set ls \<union> (\<lambda>t. (t, e)) ` set ts"
  by (induction ts arbitrary: ls) auto

lemma set_remove_all: "set (fold (\<lambda>t. removeListener (t, e)) ts ls) = set ls - (\<lambda>t. (t, e)) ` set ts"
  by (induction ts arbitrary: ls) (auto simp: removeListener_def)

lemma set_state_sel [simp]:
  "w_listeners (set_state f w) = w_listeners w" "state_of (set_state f w) = f (state_of w)"
  "w_scheduled (set_state f w) = w_scheduled w" "w_queue (set_state f w) = w_queue w" "w_dom (set_state f w) = w_dom w"
  "w_calls (set_state f w) = w_calls w" "w_frames (set_state f w) = w_frames w"
  by (simp_all add: set_state_def)

lemma removeEventListeners_ok:
  assumes "listeners_ok w" and "eventsEnabled (state_of w)"
  shows "w_listeners (removeEventListeners w) = []"
proof -
  have "set (w_listeners (removeEventListeners w)) = {}"
    using assms by (auto simp: removeEventListeners_def Let_def set_remove_all listeners_ok_def removeListener_def)
  then show ?thesis by simp
qed

lemma disable_ok:
  assumes "listeners_ok w"
  shows "listeners_ok (disableEventListeners w)" and "w_listeners (disableEventListeners w) = []"
proof -
  show "w_listeners (disableEventListeners w) = []"
    using assms removeEventListeners_ok [OF assms] by (auto simp: disableEventListeners_def listeners_ok_def split: if_splits)
  then show "listeners_ok (disableEventListeners w)"
    using assms removeEventListeners_ok [OF assms]
    by (auto simp: disableEventListeners_def listeners_ok_def removeEventListeners_def Let_def)
qed

lemma enable_ok:
  assumes "listeners_ok w" and "enableEventListeners w = Some w'"
  shows "listeners_ok w' \<and> eventsEnabled (state_of w')"
proof (cases "eventsEnabled (state_of w)")
  case True
  then show ?thesis using assms by (simp add: enableEventListeners_def)
next
  case False
  then have empty: "w_listeners w = []" "scrollParents (state_of w) = []" using assms(1) by (auto simp: listeners_ok_def)
  obtain sp ts where "attachTargets (w_dom w) sp = Some ts" and w': "w' = set_state (\<lambda>st. st\<lparr>scrollElement := Some sp, eventsEnabled := True\<rparr>)
      ((set_state (\<lambda>st. st\<lparr>updateBound := True\<rparr>) w)\<lparr>w_listeners := fold (\<lambda>t. addListener (t, ''scroll'')) (rev ts)
        (addListener (WindowTarget, ''resize'') (w_listeners w)),
       w_popper := (w_popper w)\<lparr>pp_state := (state_of w)\<lparr>updateBound := True, scrollParents := ts\<rparr>\<rparr>\<rparr>)"
    using assms(2) False empty
    by (auto simp: enableEventListeners_def setupEventListeners_def attachToScrollParents_def Let_def set_state_def bind_eq_Some_conv)
  then show ?thesis by (simp add: listeners_ok_def set_add_all empty)
qed

lemma update_frame:
  assumes "update C B w = Some w'"
  shows "w_listeners w' = w_listeners w" "w_queue w' = w_queue w" "w_scheduled w' = w_scheduled w"
    and "state_of w' = (state_of w)\<lparr>isCreated := isCreated (state_of w')\<rparr>"
  using assms by (auto simp: update_def Let_def bind_eq_Some_conv split: if_splits)

lemma destroy_frame:
  assumes "destroy B w = Some w'"
  shows "w_listeners w' = w_listeners (disableEventListeners w)" "w_queue w' = w_queue w" "w_scheduled w' = w_scheduled w"
    "state_of w' = (state_of (disableEventListeners w))\<lparr>isDestroyed := True\<rparr>" "w_calls w' = w_calls w"
  using assms
  by (auto simp: destroy_def Let_def bind_eq_Some_conv disableEventListeners_def removeEventListeners_def set_state_def split: if_splits)

lemma debounced_frame [simp]:
  "w_listeners (debounced_update w) = w_listeners w" "w_popper (debounced_update w) = w_popper w"
  "w_dom (debounced_update w) = w_dom w" "w_calls (debounced_update w) = w_calls w"
  by (simp_all add: debounced_update_def)

lemma listeners_ok_cong:
  "w_listeners w' = w_listeners w \<Longrightarrow> state_of w' = (state_of w)\<lparr>isCreated := c, isDestroyed := d\<rparr> \<Longrightarrow> listeners_ok w' = listeners_ok w"
  by (simp add: listeners_ok_def)

lemma new_Popper_ok:
  assumes "new_Popper B d reference popper opts ov = Some w"
  shows "listeners_ok w \<and> queue_ok w \<and> \<not> isDestroyed (state_of w) \<and> w_calls w = []"
proof -
  define p where "p = \<lparr>pp_reference = reference, pp_popper = popper, pp_options = opts\<lparr>o_modifiers := merge_modifiers ov\<rparr>,
     pp_modifiers = sort_modifiers (merge_modifiers ov),
     pp_state = \<lparr>isDestroyed = False, isCreated = False, eventsEnabled = False, updateBound = False,
       scrollParents = [], scrollElement = None\<rparr>\<rparr>"
  obtain d1 where d1: "run_onLoad B p (pp_modifiers p) d = Some d1" using assms by (auto simp: new_Popper_def p_def Let_def bind_eq_Some_conv)
  define w0 where "w0 = debounced_update \<lparr>w_dom = d1, w_popper = p, w_listeners = [], w_scheduled = False, w_queue = 0,
        w_frames = 0, w_calls = []\<rparr>"
  have w1: "Option.bind (if o_eventsEnabled opts then enableEventListeners w0 else Some w0)
      (\<lambda>w1. Some (set_state (\<lambda>st. st\<lparr>eventsEnabled := o_eventsEnabled opts\<rparr>) w1)) = Some w"
    using assms d1 by (cases "o_eventsEnabled opts") (simp_all add: new_Popper_def p_def w0_def Let_def)
  have w0: "listeners_ok w0" "queue_ok w0" "\<not> isDestroyed (state_of w0)" "w_calls w0 = []" "\<not> eventsEnabled (state_of w0)"
    by (simp_all add: w0_def listeners_ok_def queue_ok_def debounced_update_def p_def)
  show ?thesis
  proof (cases "o_eventsEnabled opts")
    case True
    then obtain w1' where en: "enableEventListeners w0 = Some w1'" and w: "w = set_state (\<lambda>st. st\<lparr>eventsEnabled := True\<rparr>) w1'"
      using w1 by (auto simp: bind_eq_Some_conv)
    then have "queue_ok w1' \<and> \<not> isDestroyed (state_of w1') \<and> w_calls w1' = []" using w0
      by (auto simp: enableEventListeners_def setupEventListeners_def attachToScrollParents_def Let_def set_state_def
          bind_eq_Some_conv queue_ok_def)
    then show ?thesis using enable_ok [OF w0(1) en] w by (auto simp: listeners_ok_def queue_ok_def)
  next
    case False
    then have "w = set_state (\<lambda>st. st\<lparr>eventsEnabled := False\<rparr>) w0" using w1 by simp
    then show ?thesis using w0 by (auto simp: listeners_ok_def queue_ok_def)
  qed
qed

lemma step_listeners_ok: "popper_step C B w w' \<Longrightarrow> listeners_ok w \<Longrightarrow> listeners_ok w'"
proof (induction rule: popper_step.induct)
  case (step_frame w w')
  then have "w_listeners w' = w_listeners w" "w_popper w' = w_popper w" by (auto simp: run_frame_def split: nat.splits)
  then show ?case using step_frame by (simp add: listeners_ok_def)
next
  case (step_queue w w')
  then obtain n where u: "update C B (w\<lparr>w_queue := n, w_scheduled := False\<rparr>) = Some w'"
    by (auto simp: run_queued_def split: nat.splits)
  obtain c where "state_of w' = (state_of w)\<lparr>isCreated := c\<rparr>" "w_listeners w' = w_listeners w"
    using update_frame [OF u] by (metis (no_types) world.select_convs(2,3) world.surjective world.update_convs(4,5))
  then show ?case using step_queue.prems by (simp add: listeners_ok_def)
next
  case (step_destroy w w')
  show ?case using disable_ok(1) [OF step_destroy.prems] destroy_frame [OF step_destroy.hyps]
    by (simp add: listeners_ok_def split: if_splits)
next
  case (step_enable w w')
  then show ?case using enable_ok by blast
next
  case (step_disable w)
  then show ?case by (rule disable_ok(1))
qed (simp_all add: listeners_ok_def scheduleUpdate_def)

lemma step_queue_ok: "popper_step C B w w' \<Longrightarrow> queue_ok w \<Longrightarrow> queue_ok w'"
proof (induction rule: popper_step.induct)
  case (step_queue w w')
  then obtain n where "w_queue w = Suc n" and u: "update C B (w\<lparr>w_queue := n, w_scheduled := False\<rparr>) = Some w'"
    by (auto simp: run_queued_def split: nat.splits)
  then show ?case using step_queue.prems update_frame [OF u] by (auto simp: queue_ok_def split: if_splits)
next
  case (step_destroy w w')
  then show ?case using destroy_frame [OF step_destroy.hyps] by (simp add: queue_ok_def)
qed (auto simp: queue_ok_def scheduleUpdate_def run_frame_def debounced_update_def enableEventListeners_def
    setupEventListeners_def attachToScrollParents_def disableEventListeners_def removeEventListeners_def Let_def set_state_def
    bind_eq_Some_conv split: nat.splits if_splits)

lemma reach_ok: "popper_reach C B w \<Longrightarrow> listeners_ok w \<and> queue_ok w"
  by (induction rule: popper_reach.induct) (auto dest: new_Popper_ok step_listeners_ok step_queue_ok)

text \<open>C5. In every state of a popper's life its listeners are exactly those its state records: the resize
  listener of the window and one scroll listener per recorded scroll parent while events are enabled,
  none otherwise; switching the events off or destroying the popper removes them all. And at most one
  update is queued at a time, however often one was asked for.\<close>

theorem popper_listeners_balanced:
  assumes "popper_reach C B w"
  shows "listeners_ok w \<and> w_queue w \<le> 1 \<and> w_listeners (disableEventListeners w) = []
    \<and> (\<forall>w'. destroy B w = Some w' \<longrightarrow> w_listeners w' = [])"
  using reach_ok [OF assms] disable_ok(2) [of w] destroy_frame(1) [of B w] by (auto simp: queue_ok_def)

lemma demo_new: "\<exists>w. new_Popper demo_browser demo_page 4 5 Defaults [] = Some w"
proof -
  have "new_Popper demo_browser demo_page 4 5 Defaults [] \<noteq> None" by code_simp
  then show ?thesis by blast
qed

theorem popper_listeners_balanced_witness:
  "\<exists>w. new_Popper demo_browser demo_page 4 5 Defaults [] = Some w \<and> listeners_ok w \<and> w_listeners (disableEventListeners w) = []"
  using demo_new popper_listeners_balanced [OF popper_new] by blast

section \<open>After destroy\<close>

text \<open>C16. A destroyed popper stays destroyed, and whatever frames and queued updates are still pending, it
  neither runs a callback nor touches the page again: only a second \<^verbatim>\<open>destroy\<close> or the page itself
  changes the document.\<close>

theorem destroyed_popper_is_inert:
  assumes "popper_step C B w w'" and "isDestroyed (state_of w)"
  shows "isDestroyed (state_of w') \<and> w_calls w' = w_calls w
    \<and> (w_dom w' = w_dom w \<or> destroy B w = Some w' \<or> (\<exists>d. w' = w\<lparr>w_dom := d\<rparr>))"
  using assms
proof (induction rule: popper_step.induct)
  case (step_queue w w')
  then show ?case by (auto simp: run_queued_def update_def split: nat.splits)
next
  case (step_destroy w w')
  then show ?case using destroy_frame [OF step_destroy.hyps] by simp
next
  case (step_enable w w')
  then show ?case
    by (auto simp: enableEventListeners_def setupEventListeners_def attachToScrollParents_def Let_def set_state_def
        bind_eq_Some_conv split: if_splits)
qed (auto simp: scheduleUpdate_def run_frame_def disableEventListeners_def removeEventListeners_def
    Let_def split: nat.splits if_splits)

theorem destroyed_popper_is_inert_witness:
  "\<exists>w. isDestroyed (state_of w) \<and> w_calls (debounced_update w) = w_calls w"
proof -
  let ?w = "set_state (\<lambda>st. st\<lparr>isDestroyed := True\<rparr>) demo_world"
  have "isDestroyed (state_of ?w)" by simp
  then show ?thesis using destroyed_popper_is_inert [OF step_update [where w = ?w and C = "\<lambda>_ _. Some" and B = demo_browser]] by blast
qed

end
