(* ===== verification/Bs_Sanitizer.thy ===== *)
theory Bs_Sanitizer
  imports Js_Base
begin

text \<open>
  The sanitizer of \<^verbatim>\<open>bootstrap.js\<close> (\<^verbatim>\<open>allowedAttribute\<close>, \<^verbatim>\<open>sanitizeHtml\<close>), which cleans the
  HTML of tooltips and popovers. The HTML parser and printer of the browser are the parameters
  \<open>parse\<close> and \<open>print\<close>: the parser gives the children of the body, in which every element has a number
  of its own, and an element has each of its attributes once.
\<close>

section \<open>Patterns\<close>

definition starts_with :: "string \<Rightarrow> string \<Rightarrow> bool" where
  "starts_with s pre = (take (length pre) s = pre)"

definition uriAttrs :: "string list" where
  "uriAttrs = [''background'', ''cite'', ''href'', ''itemtype'', ''longdesc'', ''poster'', ''src'', ''xlink:href'']"

definition safe_schemes :: "string list" where
  "safe_schemes = [''http:'', ''https:'', ''mailto:'', ''ftp:'', ''tel:'', ''file:'']"

text \<open>\<^verbatim>\<open>SAFE_URL_PATTERN\<close>: one of the schemes, or text without the characters \<^verbatim>\<open># & / : ?\<close> up to
  the end or up to one of \<^verbatim>\<open># / ?\<close>.\<close>

definition url_stop :: "char \<Rightarrow> bool" where
  "url_stop c = (c \<in> {CHR ''#'', CHR ''&'', CHR ''/'', CHR '':'', CHR ''?''})"

definition SAFE_URL_PATTERN :: "string \<Rightarrow> bool" where
  "SAFE_URL_PATTERN s =
     ((\<exists>pre \<in> set safe_schemes. starts_with (toLowerCase s) pre)
      \<or> (case dropWhile (\<lambda>c. \<not> url_stop c) s of
            [] \<Rightarrow> True
          | c # _ \<Rightarrow> c \<in> {CHR ''#'', CHR ''/'', CHR ''?''}))"

definition data_types :: "string list" where
  "data_types =
     map (\<lambda>t. ''image/'' @ t) [''bmp'', ''gif'', ''jpeg'', ''jpg'', ''png'', ''tiff'', ''webp'']
     @ map (\<lambda>t. ''video/'' @ t) [''mpeg'', ''mp4'', ''ogg'', ''webm'']
     @ map (\<lambda>t. ''audio/'' @ t) [''mp3'', ''oga'', ''ogg'', ''opus'']"

definition base64_char :: "char \<Rightarrow> bool" where
  "base64_char c = (let n = of_char (to_lower_char c) :: nat
     in 48 \<le> n \<and> n \<le> 57 \<or> 97 \<le> n \<and> n \<le> 122 \<or> c = CHR ''+'' \<or> c = CHR ''/'')"

definition DATA_URL_PATTERN :: "string \<Rightarrow> bool" where
  "DATA_URL_PATTERN s =
     (\<exists>t \<in> set data_types. let pre = ''data:'' @ t @ '';base64,''; rest = drop (length pre) s
        in starts_with (toLowerCase s) pre \<and> takeWhile base64_char rest \<noteq> []
           \<and> (\<forall>c \<in> set (dropWhile base64_char rest). c = CHR ''=''))"

text \<open>An entry of a whitelist is a name or a regular expression, given by the names it accepts.\<close>

datatype allowed = AttrName string | AttrPattern "string \<Rightarrow> bool"

type_synonym whitelist = "(string \<times> allowed list) list"

definition word_char :: "char \<Rightarrow> bool" where
  "word_char c = (let n = of_char (to_lower_char c) :: nat
     in 48 \<le> n \<and> n \<le> 57 \<or> 97 \<le> n \<and> n \<le> 122 \<or> c = CHR ''_'' \<or> c = CHR ''-'')"

definition ARIA_ATTRIBUTE_PATTERN :: "string \<Rightarrow> bool" where
  "ARIA_ATTRIBUTE_PATTERN s = (starts_with (toLowerCase s) ''aria-'' \<and> (\<forall>c \<in> set (drop 5 s). word_char c))"

definition DefaultWhitelist :: whitelist where
  "DefaultWhitelist =
     [(''*'', map AttrName [''class'', ''dir'', ''id'', ''lang'', ''role''] @ [AttrPattern ARIA_ATTRIBUTE_PATTERN]),
      (''a'', map AttrName [''target'', ''href'', ''title'', ''rel'']),
      (''area'', []), (''b'', []), (''br'', []), (''col'', []), (''code'', []), (''div'', []), (''em'', []),
      (''hr'', []), (''h1'', []), (''h2'', []), (''h3'', []), (''h4'', []), (''h5'', []), (''h6'', []), (''i'', []),
      (''img'', map AttrName [''src'', ''srcset'', ''alt'', ''title'', ''width'', ''height'']),
      (''li'', []), (''ol'', []), (''p'', []), (''pre'', []), (''s'', []), (''small'', []), (''span'', []),
      (''sub'', []), (''sup'', []), (''strong'', []), (''u'', []), (''ul'', [])]"

section \<open>The sanitizer\<close>

type_synonym attr = "string \<times> string"

primrec is_name :: "string \<Rightarrow> allowed \<Rightarrow> bool" where
  "is_name n (AttrName m) = (m = n)"
| "is_name n (AttrPattern f) = False"

primrec is_pattern :: "string \<Rightarrow> allowed \<Rightarrow> bool" where
  "is_pattern n (AttrName m) = False"
| "is_pattern n (AttrPattern f) = f n"

definition allowedAttribute :: "attr \<Rightarrow> allowed list \<Rightarrow> bool" where
  "allowedAttribute attr allowedAttributeList =
     (let attrName = toLowerCase (fst attr)
      in if \<exists>a \<in> set allowedAttributeList. is_name attrName a
         then if attrName \<in> set uriAttrs
              then SAFE_URL_PATTERN (snd attr) \<or> DATA_URL_PATTERN (snd attr)
              else True
         else \<exists>a \<in> set allowedAttributeList. is_pattern attrName a)"

datatype html = Text string | Elem (elem_id: nat) (elem_name: string) (elem_attrs: "attr list") (elem_kids: "html list")

text \<open>\<^verbatim>\<open>querySelectorAll('*')\<close>: the elements in document order, each with its name and the
  attributes it has before the loop; an iteration changes only those of its own element.\<close>

fun elements :: "html list \<Rightarrow> (nat \<times> string \<times> attr list) list" where
  "elements [] = []"
| "elements (Text s # hs) = elements hs"
| "elements (Elem i n as ks # hs) = (i, n, as) # elements ks @ elements hs"

text \<open>\<^verbatim>\<open>el.parentNode.removeChild(el)\<close>; inside a subtree that was removed before it changes nothing
  that is still in the body.\<close>

fun removeElement :: "nat \<Rightarrow> html list \<Rightarrow> html list" where
  "removeElement e [] = []"
| "removeElement e (Text s # hs) = Text s # removeElement e hs"
| "removeElement e (Elem i n as ks # hs) =
     (if i = e then removeElement e hs else Elem i n as (removeElement e ks) # removeElement e hs)"

text \<open>\<^verbatim>\<open>el.removeAttribute(name)\<close>; an element has at most one attribute of a name.\<close>

fun removeAttribute :: "nat \<Rightarrow> string \<Rightarrow> html list \<Rightarrow> html list" where
  "removeAttribute e a [] = []"
| "removeAttribute e a (Text s # hs) = Text s # removeAttribute e a hs"
| "removeAttribute e a (Elem i n as ks # hs) =
     Elem i n (if i = e then filter (\<lambda>x. fst x \<noteq> a) as else as) (removeAttribute e a ks) # removeAttribute e a hs"

definition attributes_for :: "whitelist \<Rightarrow> string \<Rightarrow> allowed list" where
  "attributes_for whiteList elName =
     (case map_of whiteList ''*'' of None \<Rightarrow> [] | Some l \<Rightarrow> l)
     @ (case map_of whiteList elName of None \<Rightarrow> [] | Some l \<Rightarrow> l)"

definition sanitize_element :: "whitelist \<Rightarrow> nat \<times> string \<times> attr list \<Rightarrow> html list \<Rightarrow> html list" where
  "sanitize_element whiteList el body =
     (case el of (e, nodeName, attributeList) \<Rightarrow>
       (let elName = toLowerCase nodeName
        in if elName \<notin> set (map fst whiteList) then removeElement e body
           else fold (\<lambda>attr b. if \<not> allowedAttribute attr (attributes_for whiteList elName)
                               then removeAttribute e (fst attr) b else b) attributeList body))"

definition sanitize_body :: "whitelist \<Rightarrow> html list \<Rightarrow> html list" where
  "sanitize_body whiteList body = fold (sanitize_element whiteList) (elements body) body"

definition sanitizeHtml ::
  "(string \<Rightarrow> html list) \<Rightarrow> (html list \<Rightarrow> string) \<Rightarrow> string \<Rightarrow> whitelist \<Rightarrow> (string \<Rightarrow> string) option \<Rightarrow> string" where
  "sanitizeHtml parse print unsafeHtml whiteList sanitizeFn =
     (if length unsafeHtml = 0 then unsafeHtml
      else case sanitizeFn of
          Some f \<Rightarrow> f unsafeHtml
        | None \<Rightarrow> print (sanitize_body whiteList (parse unsafeHtml)))"

section \<open>What the loop computes\<close>

text \<open>The reference: an element that is not in the whitelist goes with everything below it, another one
  keeps the attributes that are allowed.\<close>

fun clean :: "whitelist \<Rightarrow> html list \<Rightarrow> html list" where
  "clean wl [] = []"
| "clean wl (Text s # hs) = Text s # clean wl hs"
| "clean wl (Elem i n as ks # hs) =
     (if toLowerCase n \<in> set (map fst wl)
      then [Elem i n (filter (\<lambda>a. allowedAttribute a (attributes_for wl (toLowerCase n))) as) (clean wl ks)]
      else []) @ clean wl hs"

text \<open>The state of the loop after the elements of a set were visited.\<close>

fun clean_on :: "nat set \<Rightarrow> whitelist \<Rightarrow> html list \<Rightarrow> html list" where
  "clean_on S wl [] = []"
| "clean_on S wl (Text s # hs) = Text s # clean_on S wl hs"
| "clean_on S wl (Elem i n as ks # hs) =
     (if i \<in> S
      then if toLowerCase n \<in> set (map fst wl)
           then [Elem i n (filter (\<lambda>a. allowedAttribute a (attributes_for wl (toLowerCase n))) as) (clean_on S wl ks)]
           else []
      else [Elem i n as (clean_on S wl ks)]) @ clean_on S wl hs"

definition html_wf :: "html list \<Rightarrow> bool" where
  "html_wf hs = (distinct (map fst (elements hs)) \<and> (\<forall>(i, n, as) \<in> set (elements hs). distinct (map fst as)))"

lemma clean_on_empty [simp]: "clean_on {} wl hs = hs"
  by (induction "{} :: nat set" wl hs rule: clean_on.induct) auto

lemma clean_on_all: "fst ` set (elements hs) \<subseteq> S \<Longrightarrow> clean_on S wl hs = clean wl hs"
  by (induction S wl hs rule: clean_on.induct) auto

lemma removeElement_append [simp]: "removeElement e (xs @ ys) = removeElement e xs @ removeElement e ys"
  by (induction e xs rule: removeElement.induct) auto

lemma removeElement_clean_on:
  "e \<notin> S \<Longrightarrow> \<forall>(i, n, as) \<in> set (elements hs). i = e \<longrightarrow> toLowerCase n \<notin> set (map fst wl)
   \<Longrightarrow> removeElement e (clean_on S wl hs) = clean_on (insert e S) wl hs"
  by (induction S wl hs rule: clean_on.induct) (auto split: prod.splits)

fun edit_attrs :: "nat \<Rightarrow> (attr list \<Rightarrow> attr list) \<Rightarrow> html list \<Rightarrow> html list" where
  "edit_attrs e f [] = []"
| "edit_attrs e f (Text s # hs) = Text s # edit_attrs e f hs"
| "edit_attrs e f (Elem i n as ks # hs) = Elem i n (if i = e then f as else as) (edit_attrs e f ks) # edit_attrs e f hs"

lemma edit_attrs_append [simp]: "edit_attrs e f (xs @ ys) = edit_attrs e f xs @ edit_attrs e f ys"
  by (induction e f xs rule: edit_attrs.induct) auto

lemma removeAttribute_edit: "removeAttribute e a hs = edit_attrs e (filter (\<lambda>x. fst x \<noteq> a)) hs"
  by (induction e a hs rule: removeAttribute.induct) auto

lemma edit_attrs_id [simp]: "edit_attrs e (\<lambda>as. as) hs = hs"
  by (induction e "\<lambda>as :: attr list. as" hs rule: edit_attrs.induct) auto

lemma edit_attrs_comp [simp]: "edit_attrs e g (edit_attrs e f hs) = edit_attrs e (\<lambda>as. g (f as)) hs"
  by (induction e f hs rule: edit_attrs.induct) auto

lemma fold_removeAttribute:
  "fold (\<lambda>attr b. if \<not> P attr then removeAttribute e (fst attr) b else b) l hs =
     edit_attrs e (filter (\<lambda>x. \<forall>a \<in> set l. \<not> P a \<longrightarrow> fst x \<noteq> fst a)) hs"
proof (induction l arbitrary: hs)
  case Nil
  have "filter (\<lambda>x. True) = (\<lambda>as :: attr list. as)"
    by (rule ext) simp
  then show ?case by simp
next
  case (Cons a l)
  have "(\<lambda>as. filter (\<lambda>x. \<forall>a \<in> set l. \<not> P a \<longrightarrow> fst x \<noteq> fst a) (filter (\<lambda>x. fst x \<noteq> fst a) as)) =
        filter (\<lambda>x. fst x \<noteq> fst a \<and> (\<forall>a \<in> set l. \<not> P a \<longrightarrow> fst x \<noteq> fst a))"
    by (rule ext) (simp add: conj_commute)
  then show ?case by (simp add: Cons removeAttribute_edit)
qed

lemma filter_by_name:
  assumes "distinct (map fst as)"
  shows "filter (\<lambda>x. \<forall>a \<in> set as. \<not> P a \<longrightarrow> fst x \<noteq> fst a) as = filter P as"
  using assms by (intro filter_cong) (auto simp: distinct_map inj_on_def)

lemma edit_attrs_clean_on:
  "e \<notin> S \<Longrightarrow> \<forall>(i, n, as) \<in> set (elements hs). i = e \<longrightarrow> toLowerCase n \<in> set (map fst wl)
      \<and> f as = filter (\<lambda>a. allowedAttribute a (attributes_for wl (toLowerCase n))) as
   \<Longrightarrow> edit_attrs e f (clean_on S wl hs) = clean_on (insert e S) wl hs"
  by (induction S wl hs rule: clean_on.induct) (auto split: prod.splits)

lemma sanitize_element_step:
  assumes "el \<in> set (elements hs)" "fst el \<notin> S" "html_wf hs"
  shows "sanitize_element wl el (clean_on S wl hs) = clean_on (insert (fst el) S) wl hs"
proof -
  obtain e n as where el: "el = (e, n, as)" by (cases el)
  have uniq: "(e, m, bs) \<in> set (elements hs) \<Longrightarrow> m = n \<and> bs = as" for m bs
    using assms(1,3) eq_key_imp_eq_value unfolding html_wf_def el by fastforce
  have d: "distinct (map fst as)" using assms(1,3) unfolding html_wf_def el by blast
  show ?thesis
  proof (cases "toLowerCase n \<in> set (map fst wl)")
    case False
    then show ?thesis
      using removeElement_clean_on [of e S hs wl] assms(2) uniq
      by (auto simp: el sanitize_element_def Let_def)
  next
    case True
    then show ?thesis
      using assms(2) uniq d
      by (simp add: el sanitize_element_def Let_def fold_removeAttribute del: set_map)
        (rule edit_attrs_clean_on, auto simp: filter_by_name)
  qed
qed

lemma sanitize_fold:
  assumes "html_wf hs" "elements hs = xs @ ys"
  shows "fold (sanitize_element wl) ys (clean_on (fst ` set xs) wl hs) = clean wl hs"
  using assms(2)
proof (induction ys arbitrary: xs)
  case Nil
  then show ?case by (simp add: clean_on_all)
next
  case (Cons y ys)
  have "fst y \<notin> fst ` set xs"
    using assms(1) Cons.prems by (auto simp: html_wf_def)
  then have "sanitize_element wl y (clean_on (fst ` set xs) wl hs) = clean_on (fst ` set (xs @ [y])) wl hs"
    using sanitize_element_step [of y hs "fst ` set xs" wl] Cons.prems assms(1) by simp
  then show ?case using Cons.IH [of "xs @ [y]"] Cons.prems by simp
qed

lemma sanitize_body_clean: "html_wf body \<Longrightarrow> sanitize_body wl body = clean wl body"
  using sanitize_fold [of body "[]" "elements body" wl] by (simp add: sanitize_body_def)

lemma elements_append [simp]: "elements (xs @ ys) = elements xs @ elements ys"
  by (induction xs rule: elements.induct) auto

lemma clean_elements:
  "(i, n, as) \<in> set (elements (clean wl hs)) \<Longrightarrow>
     toLowerCase n \<in> set (map fst wl) \<and> (\<forall>a \<in> set as. allowedAttribute a (attributes_for wl (toLowerCase n)))"
  by (induction wl hs rule: clean.induct) (auto split: if_splits)

text \<open>A URL without a scheme other than the safe ones.\<close>

definition safe_uri :: "string \<Rightarrow> bool" where
  "safe_uri v \<longleftrightarrow>
     (\<exists>pre \<in> set safe_schemes. starts_with (toLowerCase v) pre)
     \<or> DATA_URL_PATTERN v
     \<or> CHR '':'' \<notin> set (takeWhile (\<lambda>c. c \<notin> {CHR ''#'', CHR ''/'', CHR ''?''}) v)"

lemma url_stop_no_colon:
  "(case dropWhile (\<lambda>c. \<not> url_stop c) s of [] \<Rightarrow> True | d # _ \<Rightarrow> d \<in> {CHR ''#'', CHR ''/'', CHR ''?''})
   \<Longrightarrow> CHR '':'' \<notin> set (takeWhile (\<lambda>c. c \<notin> {CHR ''#'', CHR ''/'', CHR ''?''}) s)"
  by (induction s) (auto simp: url_stop_def split: if_splits)

lemma SAFE_URL_no_scheme: "SAFE_URL_PATTERN v \<Longrightarrow> safe_uri v"
  unfolding SAFE_URL_PATTERN_def safe_uri_def using url_stop_no_colon by blast

lemma allowed_uri: "allowedAttribute (a, v) l \<Longrightarrow> toLowerCase a \<in> set uriAttrs \<Longrightarrow>
    (\<forall>x \<in> set l. \<not> is_pattern (toLowerCase a) x) \<Longrightarrow> safe_uri v"
  by (auto simp: allowedAttribute_def Let_def safe_uri_def dest: SAFE_URL_no_scheme split: if_splits)

section \<open>Properties\<close>

text \<open>C20. On the elements the parser gives, the loop of \<^verbatim>\<open>sanitizeHtml\<close>, which edits the document
  while it runs over a list made before, computes the cleaned tree: elements outside the whitelist
  disappear with all they contain, and the others keep exactly the allowed attributes.\<close>

theorem sanitize_loop_is_clean:
  assumes "html_wf body"
  shows "sanitize_body whiteList body = clean whiteList body"
  using assms by (rule sanitize_body_clean)

definition demo_html :: "html list" where
  "demo_html =
     [Text ''hi'',
      Elem 0 ''DIV'' [(''class'', ''x''), (''onclick'', ''f()'')]
        [Elem 1 ''A'' [(''href'', ''javascript:f()''), (''title'', ''t'')] [Text ''link''],
         Elem 2 ''SCRIPT'' [(''src'', ''x.js'')] [Elem 3 ''B'' [] []],
         Elem 4 ''IMG'' [(''src'', ''/i.png''), (''aria-label'', ''l'')] []]]"

lemma demo_html_wf: "html_wf demo_html"
  by (simp add: html_wf_def demo_html_def)

theorem sanitize_loop_is_clean_witness:
  "sanitize_body DefaultWhitelist demo_html =
     [Text ''hi'',
      Elem 0 ''DIV'' [(''class'', ''x'')]
        [Elem 1 ''A'' [(''title'', ''t'')] [Text ''link''],
         Elem 4 ''IMG'' [(''src'', ''/i.png''), (''aria-label'', ''l'')] []]]"
  unfolding sanitize_loop_is_clean [OF demo_html_wf] by code_simp

definition default_names :: "string list" where
  "default_names = [''class'', ''dir'', ''id'', ''lang'', ''role'', ''target'', ''href'', ''title'', ''rel'',
     ''src'', ''srcset'', ''alt'', ''width'', ''height'']"

lemma default_entry:
  "map_of DefaultWhitelist n = Some l \<Longrightarrow> x \<in> set l \<Longrightarrow>
     x = AttrPattern ARIA_ATTRIBUTE_PATTERN \<or> x \<in> AttrName ` set default_names"
  by (drule map_of_SomeD) (auto simp: DefaultWhitelist_def default_names_def)

lemma default_attributes:
  "x \<in> set (attributes_for DefaultWhitelist n) \<Longrightarrow>
     x = AttrPattern ARIA_ATTRIBUTE_PATTERN \<or> x \<in> AttrName ` set default_names"
  unfolding attributes_for_def by (auto split: option.splits dest: default_entry default_entry [OF sym])

lemma default_not_on: "a \<in> set default_names \<Longrightarrow> \<not> starts_with a ''on''"
  by (auto simp: default_names_def starts_with_def)

lemma aria_not_on: "starts_with a ''on'' \<Longrightarrow> \<not> ARIA_ATTRIBUTE_PATTERN a"
proof -
  assume "starts_with a ''on''"
  then obtain cs where "a = ''on'' @ cs" by (metis append_take_drop_id starts_with_def)
  then show ?thesis
    by (simp add: ARIA_ATTRIBUTE_PATTERN_def starts_with_def toLowerCase_def to_lower_char_def)
qed

lemma default_no_handler:
  "allowedAttribute a (attributes_for DefaultWhitelist n) \<Longrightarrow> \<not> starts_with (toLowerCase (fst a)) ''on''"
  unfolding allowedAttribute_def Let_def
  using default_attributes [of _ n] default_not_on aria_not_on by (force split: if_splits)

lemma uri_not_aria: "a \<in> set uriAttrs \<Longrightarrow> \<not> ARIA_ATTRIBUTE_PATTERN a"
proof -
  have "\<forall>a \<in> set uriAttrs. \<not> ARIA_ATTRIBUTE_PATTERN a" by code_simp
  then show "a \<in> set uriAttrs \<Longrightarrow> \<not> ARIA_ATTRIBUTE_PATTERN a" by blast
qed

lemma default_safe_uri:
  "allowedAttribute (a, v) (attributes_for DefaultWhitelist n) \<Longrightarrow> toLowerCase a \<in> set uriAttrs \<Longrightarrow> safe_uri v"
  by (erule allowed_uri) (auto dest!: default_attributes dest: uri_not_aria)

lemma default_allowed_name:
  "allowedAttribute a (attributes_for DefaultWhitelist n) \<Longrightarrow>
     toLowerCase (fst a) \<in> set default_names \<or> ARIA_ATTRIBUTE_PATTERN (toLowerCase (fst a))"
  unfolding allowedAttribute_def Let_def using default_attributes [of _ n] by (force split: if_splits)

text \<open>No script, no event handler, no attribute but the listed ones and those for accessibility, and no dangerous
  scheme in the ones of \<open>uriAttrs\<close>.\<close>

definition safe_html :: "html list \<Rightarrow> bool" where
  "safe_html out \<longleftrightarrow>
     (\<forall>(i, n, as) \<in> set (elements out).
        toLowerCase n \<in> set (map fst DefaultWhitelist) \<and> toLowerCase n \<noteq> ''script''
        \<and> (\<forall>(a, v) \<in> set as. \<not> starts_with (toLowerCase a) ''on''
             \<and> (toLowerCase a \<in> set default_names \<or> ARIA_ATTRIBUTE_PATTERN (toLowerCase a))
             \<and> (toLowerCase a \<in> set uriAttrs \<longrightarrow> safe_uri v)))"

lemma script_not_default: "''script'' \<notin> set (map fst DefaultWhitelist)"
  by (simp add: DefaultWhitelist_def)

lemma clean_safe: "safe_html (clean DefaultWhitelist hs)"
  unfolding safe_html_def
proof (clarify, intro conjI)
  fix i n as
  assume el: "(i, n, as) \<in> set (elements (clean DefaultWhitelist hs))"
  show w: "toLowerCase n \<in> set (map fst DefaultWhitelist)"
    using clean_elements [OF el] by blast
  then show "toLowerCase n \<noteq> ''script''" using script_not_default by metis
  show "\<forall>(a, v) \<in> set as. \<not> starts_with (toLowerCase a) ''on''
      \<and> (toLowerCase a \<in> set default_names \<or> ARIA_ATTRIBUTE_PATTERN (toLowerCase a)) \<and> (toLowerCase a \<in> set uriAttrs \<longrightarrow> safe_uri v)"
  proof (clarify, intro conjI impI)
    fix a v assume "(a, v) \<in> set as"
    then have al: "allowedAttribute (a, v) (attributes_for DefaultWhitelist (toLowerCase n))"
      using clean_elements [OF el] by blast
    show "\<not> starts_with (toLowerCase a) ''on''" using default_no_handler [OF al] by simp
    show "toLowerCase a \<in> set default_names \<or> ARIA_ATTRIBUTE_PATTERN (toLowerCase a)"
      using default_allowed_name [OF al] by simp
    show "safe_uri v" if "toLowerCase a \<in> set uriAttrs" using default_safe_uri [OF al that] .
  qed
qed

text \<open>C19. With the default whitelist, what the sanitizer prints contains only elements of the
  whitelist, in particular no script, and only the listed attributes and those of \<^verbatim>\<open>aria\<close>, in particular no
  event handler. The attributes in \<^verbatim>\<open>uriAttrs\<close>, such as \<^verbatim>\<open>href\<close> and \<^verbatim>\<open>src\<close>, have no scheme other than
  \<^verbatim>\<open>http\<close>, \<^verbatim>\<open>https\<close>, \<^verbatim>\<open>mailto\<close>, \<^verbatim>\<open>ftp\<close>, \<^verbatim>\<open>tel\<close>, \<^verbatim>\<open>file\<close> and the listed
  \<^verbatim>\<open>data\<close> types. The addresses in \<^verbatim>\<open>srcset\<close> are not among them.\<close>

theorem sanitizeHtml_safe:
  assumes "unsafeHtml \<noteq> []" "html_wf (parse unsafeHtml)"
  shows "\<exists>out. sanitizeHtml parse print unsafeHtml DefaultWhitelist None = print out \<and> safe_html out"
  using assms clean_safe by (auto simp: sanitizeHtml_def sanitize_body_clean)

theorem sanitizeHtml_safe_witness:
  "\<exists>out. sanitizeHtml (\<lambda>s. demo_html) (\<lambda>hs. concat (map (fst \<circ> snd) (elements hs))) ''<div>'' DefaultWhitelist None
       = concat (map (fst \<circ> snd) (elements out)) \<and> safe_html out"
  by (rule sanitizeHtml_safe) (simp_all add: demo_html_wf)

text \<open>\<^verbatim>\<open>srcset\<close> is in the whitelist of images but not in \<open>uriAttrs\<close>: whatever addresses it has stay.\<close>

theorem srcset_unchecked:
  "sanitize_body DefaultWhitelist [Elem i ''IMG'' [(''srcset'', v)] []] = [Elem i ''IMG'' [(''srcset'', v)] []]"
proof -
  have "allowedAttribute (''srcset'', v) (attributes_for DefaultWhitelist ''img'') = (True :: bool)"
    by (simp add: allowedAttribute_def attributes_for_def DefaultWhitelist_def uriAttrs_def toLowerCase_def to_lower_char_def)
  moreover have "toLowerCase ''IMG'' = ''img''" by code_simp
  moreover have "''img'' \<in> set (map fst DefaultWhitelist)" by (simp add: DefaultWhitelist_def)
  ultimately show ?thesis by (simp add: sanitize_body_clean html_wf_def del: set_map)
qed

end
