(* ===== verification/Bs_Page.thy ===== *)
theory Bs_Page
  imports Js_Base "HOL-Library.Monad_Syntax"
begin

text \<open>
  The page on which the Bootstrap components of \<^verbatim>\<open>www/js/bootstrap.js\<close> act, and the component
  \<^verbatim>\<open>Util\<close> they share. A page is the tree of its elements with, for every element, its name,
  class list, attributes, computed style and the like; the class list operations are those of the
  DOM, which jQuery's \<^verbatim>\<open>addClass\<close>, \<^verbatim>\<open>removeClass\<close> and \<^verbatim>\<open>hasClass\<close> call on each
  element of a collection. The selector engine is code of the browser: it is the parameter
  \<open>query\<close> of the definitions that pass a selector they read from the page. The handlers a page
  registers for the events of a component are the parameter \<open>prevents\<close>, which tells whether one of
  them prevents the default action.
\<close>

section \<open>The document\<close>

type_synonym eid = nat

datatype tree = Node (node_id: eid) (kids: "tree list")

record page =
  doc_tree :: tree
  node_name :: "eid \<Rightarrow> string"
  class_list :: "eid \<Rightarrow> string list"
  attribute_of :: "eid \<Rightarrow> string \<Rightarrow> string option"
  css_of :: "eid \<Rightarrow> string \<Rightarrow> string"
  checked :: "eid \<Rightarrow> bool"
  focus_on :: "eid option"
  fired :: "(string \<times> eid) list"

fun order :: "tree \<Rightarrow> eid list" where
  "order (Node e ts) = e # concat (map order ts)"

fun subtrees :: "tree \<Rightarrow> tree list" where
  "subtrees (Node e ts) = Node e ts # concat (map subtrees ts)"

definition tree_at :: "page \<Rightarrow> eid \<Rightarrow> tree option" where
  "tree_at p e = find (\<lambda>t. node_id t = e) (subtrees (doc_tree p))"

text \<open>The elements below an element in document order, its children, its ancestors from the nearest
  one up, and the element just before it.\<close>

definition descendants :: "page \<Rightarrow> eid \<Rightarrow> eid list" where
  "descendants p e = (case tree_at p e of None \<Rightarrow> [] | Some t \<Rightarrow> tl (order t))"

definition children :: "page \<Rightarrow> eid \<Rightarrow> eid list" where
  "children p e = (case tree_at p e of None \<Rightarrow> [] | Some t \<Rightarrow> map node_id (kids t))"

definition parents :: "page \<Rightarrow> eid \<Rightarrow> eid list" where
  "parents p e = rev (filter (\<lambda>a. e \<in> set (descendants p a)) (order (doc_tree p)))"

definition parentNode :: "page \<Rightarrow> eid \<Rightarrow> eid option" where
  "parentNode p e = (case parents p e of [] \<Rightarrow> None | a # _ \<Rightarrow> Some a)"

definition closest :: "page \<Rightarrow> (eid \<Rightarrow> bool) \<Rightarrow> eid \<Rightarrow> eid option" where
  "closest p sel e = find sel (e # parents p e)"

fun before :: "'a \<Rightarrow> 'a list \<Rightarrow> 'a option" where
  "before e (x # y # ys) = (if y = e then Some x else before e (y # ys))"
| "before e _ = None"

definition prev :: "page \<Rightarrow> eid \<Rightarrow> eid option" where
  "prev p e = (case parentNode p e of None \<Rightarrow> None | Some a \<Rightarrow> before e (children p a))"

definition page_wf :: "page \<Rightarrow> bool" where
  "page_wf p = distinct (order (doc_tree p))"

section \<open>Classes, attributes and events\<close>

definition hasClass :: "string \<Rightarrow> page \<Rightarrow> eid \<Rightarrow> bool" where
  "hasClass c p e = (c \<in> set (class_list p e))"

definition addClass :: "string \<Rightarrow> eid \<Rightarrow> page \<Rightarrow> page" where
  "addClass c e p =
     (if hasClass c p e then p else p\<lparr>class_list := (class_list p)(e := class_list p e @ [c])\<rparr>)"

definition removeClass :: "string \<Rightarrow> eid \<Rightarrow> page \<Rightarrow> page" where
  "removeClass c e p = p\<lparr>class_list := (class_list p)(e := filter (\<lambda>d. d \<noteq> c) (class_list p e))\<rparr>"

definition toggleClass :: "string \<Rightarrow> bool \<Rightarrow> eid \<Rightarrow> page \<Rightarrow> page" where
  "toggleClass c b e p = (if b then addClass c e p else removeClass c e p)"

definition setAttribute :: "string \<Rightarrow> string \<Rightarrow> eid \<Rightarrow> page \<Rightarrow> page" where
  "setAttribute a v e p = p\<lparr>attribute_of := (attribute_of p)(e := (attribute_of p e)(a \<mapsto> v))\<rparr>"

definition unsetAttribute :: "string \<Rightarrow> eid \<Rightarrow> page \<Rightarrow> page" where
  "unsetAttribute a e p = p\<lparr>attribute_of := (attribute_of p)(e := (attribute_of p e)(a := None))\<rparr>"

definition hasAttribute :: "string \<Rightarrow> page \<Rightarrow> eid \<Rightarrow> bool" where
  "hasAttribute a p e = (attribute_of p e a \<noteq> None)"

definition show_bool :: "bool \<Rightarrow> string" where
  "show_bool b = (if b then ''true'' else ''false'')"

definition fire :: "string \<Rightarrow> eid \<Rightarrow> page \<Rightarrow> page" where
  "fire ev e p = p\<lparr>fired := fired p @ [(ev, e)]\<rparr>"

definition focus :: "eid \<Rightarrow> page \<Rightarrow> page" where
  "focus e p = p\<lparr>focus_on := Some e\<rparr>"

text \<open>Whether a handler of the page calls \<^verbatim>\<open>preventDefault\<close> on an event of an element.\<close>

type_synonym prevents = "string \<Rightarrow> eid \<Rightarrow> page \<Rightarrow> bool"

definition never_prevents :: "prevents \<Rightarrow> string \<Rightarrow> bool" where
  "never_prevents prevents ev \<longleftrightarrow> (\<forall>e p. \<not> prevents ev e p)"

lemma never_preventsD [simp]: "never_prevents prevents ev \<Longrightarrow> \<not> prevents ev e p"
  by (simp add: never_prevents_def)

text \<open>The elements a selector text finds in the document, in document order; \<open>None\<close> is the
  \<^verbatim>\<open>SyntaxError\<close> of an ill-formed text.\<close>

type_synonym query = "page \<Rightarrow> string \<Rightarrow> eid list option"

lemma hasClass_addClass [simp]:
  "hasClass d (addClass c e p) x = (hasClass d p x \<or> d = c \<and> x = e)"
  by (auto simp: hasClass_def addClass_def)

lemma hasClass_removeClass [simp]:
  "hasClass d (removeClass c e p) x = (hasClass d p x \<and> \<not> (d = c \<and> x = e))"
  by (auto simp: hasClass_def removeClass_def)

lemma hasClass_toggleClass [simp]:
  "hasClass d (toggleClass c b e p) x = (if d = c \<and> x = e then b else hasClass d p x)"
  by (auto simp: toggleClass_def)

lemma hasClass_others [simp]:
  "hasClass d (setAttribute a v e p) x = hasClass d p x"
  "hasClass d (fire ev e p) x = hasClass d p x"
  "hasClass d (focus e p) x = hasClass d p x"
  by (simp_all add: hasClass_def setAttribute_def fire_def focus_def)

lemma hasClass_unsetAttribute [simp]: "hasClass c (unsetAttribute a e p) = hasClass c p"
  by (simp add: fun_eq_iff hasClass_def unsetAttribute_def)

lemma hasClass_same [simp]:
  "hasClass d (fire ev e p) = hasClass d p" "hasClass d (focus e p) = hasClass d p"
  "hasClass d (setAttribute a v e p) = hasClass d p"
  "d \<noteq> c \<Longrightarrow> hasClass d (removeClass c e p) = hasClass d p" "d \<noteq> c \<Longrightarrow> hasClass d (addClass c e p) = hasClass d p"
  by (auto simp: fun_eq_iff)

lemma hasClass_fold_addClass [simp]:
  "hasClass d (fold (addClass c) es p) x = (hasClass d p x \<or> d = c \<and> x \<in> set es)"
  by (induction es arbitrary: p) auto

lemma hasClass_fold_removeClass [simp]:
  "hasClass d (fold (removeClass c) es p) x = (hasClass d p x \<and> \<not> (d = c \<and> x \<in> set es))"
  by (induction es arbitrary: p) auto

text \<open>No modelled operation but the removal of an element changes the tree.\<close>

lemma doc_tree_ops [simp]:
  "doc_tree (addClass c e p) = doc_tree p" "doc_tree (removeClass c e p) = doc_tree p"
  "doc_tree (toggleClass c b e p) = doc_tree p" "doc_tree (setAttribute a v e p) = doc_tree p"
  "doc_tree (fire ev e p) = doc_tree p" "doc_tree (focus e p) = doc_tree p"
  by (simp_all add: addClass_def removeClass_def toggleClass_def setAttribute_def fire_def focus_def)

lemma doc_tree_folds [simp]:
  "doc_tree (fold (addClass c) es p) = doc_tree p" "doc_tree (fold (removeClass c) es p) = doc_tree p"
  by (induction es arbitrary: p) auto

lemma tree_cong:
  assumes "doc_tree q = doc_tree p"
  shows "tree_at q = tree_at p" "descendants q = descendants p" "children q = children p"
    "parents q = parents p" "parentNode q = parentNode p" "closest q = closest p" "prev q = prev p"
    "page_wf q = page_wf p"
proof -
  show t: "tree_at q = tree_at p" using assms by (simp add: fun_eq_iff tree_at_def)
  show d: "descendants q = descendants p" by (simp add: fun_eq_iff descendants_def t)
  show c: "children q = children p" by (simp add: fun_eq_iff children_def t)
  show a: "parents q = parents p" using assms by (simp add: fun_eq_iff parents_def d)
  show n: "parentNode q = parentNode p" by (simp add: fun_eq_iff parentNode_def a)
  show "closest q = closest p" by (simp add: fun_eq_iff closest_def a)
  show "prev q = prev p" by (simp add: fun_eq_iff prev_def n c split: option.splits)
  show "page_wf q = page_wf p" using assms by (simp add: page_wf_def)
qed

lemma attribute_of_ops [simp]:
  "attribute_of (addClass c e p) = attribute_of p" "attribute_of (removeClass c e p) = attribute_of p"
  "attribute_of (toggleClass c b e p) = attribute_of p" "attribute_of (fire ev e p) = attribute_of p"
  "attribute_of (focus e p) = attribute_of p"
  by (simp_all add: addClass_def removeClass_def toggleClass_def fire_def focus_def)

lemma attribute_of_setAttribute [simp]:
  "attribute_of (setAttribute a v e p) x b = (if x = e \<and> b = a then Some v else attribute_of p x b)"
  by (simp add: setAttribute_def)

lemma fired_ops [simp]:
  "fired (addClass c e p) = fired p" "fired (removeClass c e p) = fired p"
  "fired (toggleClass c b e p) = fired p" "fired (setAttribute a v e p) = fired p"
  "fired (focus e p) = fired p" "fired (fire ev e p) = fired p @ [(ev, e)]"
  by (simp_all add: addClass_def removeClass_def toggleClass_def setAttribute_def fire_def focus_def)

lemma node_name_ops [simp]:
  "node_name (addClass c e p) = node_name p" "node_name (removeClass c e p) = node_name p"
  "node_name (toggleClass c b e p) = node_name p" "node_name (setAttribute a v e p) = node_name p"
  "node_name (fire ev e p) = node_name p" "node_name (focus e p) = node_name p"
  by (simp_all add: addClass_def removeClass_def toggleClass_def setAttribute_def fire_def focus_def)

lemma unsetAttribute_simps [simp]:
  "attribute_of (unsetAttribute a e p) x b = (if x = e \<and> b = a then None else attribute_of p x b)"
  "doc_tree (unsetAttribute a e p) = doc_tree p" "fired (unsetAttribute a e p) = fired p"
  "node_name (unsetAttribute a e p) = node_name p"
  by (simp_all add: unsetAttribute_def)

text \<open>A page without classes, attributes or styles.\<close>

definition bare_page :: "tree \<Rightarrow> page" where
  "bare_page t = \<lparr>doc_tree = t, node_name = (\<lambda>_. ''DIV''), class_list = (\<lambda>_. []),
     attribute_of = (\<lambda>_ _. None), css_of = (\<lambda>_ _. []), checked = (\<lambda>_. False), focus_on = None, fired = []\<rparr>"

lemma bare_page_simps [simp]:
  "doc_tree (bare_page t) = t" "\<not> hasClass c (bare_page t) e" "attribute_of (bare_page t) e a = None"
  "fired (bare_page t) = []"
  by (simp_all add: bare_page_def hasClass_def)

section \<open>Ancestors and descendants\<close>

lemma node_id_in_order [simp]: "node_id t \<in> set (order t)"
  by (cases t) simp

lemma order_subtree: "s \<in> set (subtrees t) \<Longrightarrow> set (order s) \<subseteq> set (order t)"
  by (induction t rule: order.induct) fastforce

lemma children_descendants: "set (children p e) \<subseteq> set (descendants p e)"
proof (cases "tree_at p e")
  case (Some t)
  then show ?thesis by (cases t) (auto simp: children_def descendants_def)
qed (simp add: children_def)

lemma descendants_in_order: "set (descendants p e) \<subseteq> set (order (doc_tree p))"
proof (cases "tree_at p e")
  case (Some t)
  then have "t \<in> set (subtrees (doc_tree p))"
    by (auto simp: tree_at_def find_Some_iff)
  then have "set (order t) \<subseteq> set (order (doc_tree p))"
    by (rule order_subtree)
  moreover have "set (tl (order t)) \<subseteq> set (order t)"
    by (cases t) auto
  ultimately show ?thesis
    using Some by (auto simp: descendants_def)
qed (simp add: descendants_def)

lemma parents_iff: "a \<in> set (parents p e) \<longleftrightarrow> a \<in> set (order (doc_tree p)) \<and> e \<in> set (descendants p a)"
  by (auto simp: parents_def)

end
