(* ===== verification/Bs_Util.thy ===== *)
theory Bs_Util
  imports Bs_Page
begin

text \<open>
  The object \<^verbatim>\<open>Util\<close> of \<^verbatim>\<open>bootstrap.js\<close> and the transition-end helpers: unique ids, the
  selector of a trigger element, transition durations, the check of options, the check of the jQuery
  version, and the callbacks that wait for the end of a CSS transition.
\<close>

section \<open>Ids, selectors and durations\<close>

text \<open>\<^verbatim>\<open>getUID\<close> draws random numbers until the id is free; the list holds the draws, each below
  \<^verbatim>\<open>MAX_UID\<close>, and \<open>None\<close> means that it ended before.\<close>

fun getUID :: "(string \<Rightarrow> bool) \<Rightarrow> nat list \<Rightarrow> string \<Rightarrow> string option" where
  "getUID taken [] prefix = None"
| "getUID taken (r # rs) prefix =
     (let prefix' = prefix @ show_nat r
      in if taken prefix' then getUID taken rs prefix' else Some prefix')"

definition getSelectorFromElement :: "query \<Rightarrow> page \<Rightarrow> eid \<Rightarrow> string option" where
  "getSelectorFromElement query p e =
     (let target = attribute_of p e ''data-target'';
          href = attribute_of p e ''href'';
          selector = (case target of
              Some s \<Rightarrow> if s = '''' \<or> s = ''#'' then None else Some s
            | None \<Rightarrow> None);
          selector' = (case selector of
              Some s \<Rightarrow> s
            | None \<Rightarrow> (case href of
                  Some h \<Rightarrow> if h \<noteq> '''' \<and> h \<noteq> ''#'' then js_trim h else ''''
                | None \<Rightarrow> ''''))
      in case query p selector' of Some (_ # _) \<Rightarrow> Some selector' | _ \<Rightarrow> None)"

text \<open>\<^verbatim>\<open>document.querySelector\<close> of a selector that \<^verbatim>\<open>getSelectorFromElement\<close> gave.\<close>

definition querySelector :: "query \<Rightarrow> page \<Rightarrow> string \<Rightarrow> eid option" where
  "querySelector query p s = (case query p s of Some (e # _) \<Rightarrow> Some e | _ \<Rightarrow> None)"

definition getTransitionDurationFromElement :: "page \<Rightarrow> eid option \<Rightarrow> jsnum" where
  "getTransitionDurationFromElement p element =
     (case element of
        None \<Rightarrow> Some 0
      | Some e \<Rightarrow>
         (let duration = css_of p e ''transition-duration''; delay = css_of p e ''transition-delay''
          in if \<not> js_truthy (parse_float duration) \<and> \<not> js_truthy (parse_float delay) then Some 0
             else (parse_float (hd (js_split CHR '','' duration)) + parse_float (hd (js_split CHR '','' delay))) * Some 1000))"

text \<open>\<^verbatim>\<open>findShadowRoot\<close>: the list is the element followed by its chain of parent nodes, up to a
  shadow root or the document; \<open>supported\<close> and \<open>getRootNode\<close> are what the browser offers.\<close>

fun findShadowRoot :: "bool \<Rightarrow> (nat \<Rightarrow> nat) option \<Rightarrow> (nat \<Rightarrow> bool) \<Rightarrow> nat list \<Rightarrow> nat option" where
  "findShadowRoot supported getRootNode is_shadow [] = None"
| "findShadowRoot supported getRootNode is_shadow (e # chain) =
     (if \<not> supported then None
      else case getRootNode of
          Some root_of \<Rightarrow> if is_shadow (root_of e) then Some (root_of e) else None
        | None \<Rightarrow> if is_shadow e then Some e
                  else if chain = [] then None
                  else findShadowRoot supported getRootNode is_shadow chain)"

lemma findShadowRoot_walk: "findShadowRoot True None is_shadow chain = find is_shadow chain"
  by (induction chain) auto

lemma getSelectorFromElement_found:
  "getSelectorFromElement query p e = Some s \<Longrightarrow> \<exists>x. querySelector query p s = Some x"
  by (auto simp: getSelectorFromElement_def querySelector_def Let_def split: option.splits list.splits if_splits)

lemma getUID_free: "getUID taken rs prefix = Some u \<Longrightarrow> \<not> taken u \<and> (\<exists>w. u = prefix @ w \<and> w \<noteq> [])"
  by (induction rs arbitrary: prefix) (fastforce simp: Let_def show_nat_nonempty split: if_splits)+

lemma getUID_ends:
  "finite {u. taken u \<and> length prefix < length u}
   \<Longrightarrow> card {u. taken u \<and> length prefix < length u} < length rs
   \<Longrightarrow> \<exists>u. getUID taken rs prefix = Some u"
proof (induction rs arbitrary: prefix)
  case (Cons r rs)
  define q where "q = prefix @ show_nat r"
  have len: "length prefix < length q"
    using show_nat_nonempty [of r] by (simp add: q_def)
  show ?case
  proof (cases "taken q")
    case True
    have sub: "{u. taken u \<and> length q < length u} \<subset> {u. taken u \<and> length prefix < length u}"
      using True len by auto
    then have "card {u. taken u \<and> length q < length u} < length rs"
      using psubset_card_mono [OF Cons.prems(1) sub] Cons.prems(2) by simp
    then have "\<exists>u. getUID taken rs q = Some u"
      using Cons.IH [of q] finite_subset [of _ "{u. taken u \<and> length prefix < length u}"] Cons.prems(1) sub
      by blast
    then show ?thesis using True by (simp add: q_def)
  qed (simp add: q_def)
qed simp

section \<open>Options\<close>

text \<open>The values an option can have, as far as \<^verbatim>\<open>toType\<close> and the components tell them apart.\<close>

datatype jsval = JUndefined | JNull | JBool bool | JNum jsnum | JStr string | JFun | JObject | JArray
  | JRegExp | JElement eid | JQuery "eid list"

type_synonym config = "string \<rightharpoonup> jsval"

definition truthy :: "jsval \<Rightarrow> bool" where
  "truthy v = (case v of JUndefined \<Rightarrow> False | JNull \<Rightarrow> False | JBool b \<Rightarrow> b | JNum x \<Rightarrow> js_truthy x
     | JStr s \<Rightarrow> s \<noteq> [] | _ \<Rightarrow> True)"

definition opt :: "config \<Rightarrow> string \<Rightarrow> jsval" where
  "opt c k = (case c k of None \<Rightarrow> JUndefined | Some v \<Rightarrow> v)"

definition toType :: "jsval \<Rightarrow> string" where
  "toType v = (case v of JUndefined \<Rightarrow> ''undefined'' | JNull \<Rightarrow> ''null'' | JBool _ \<Rightarrow> ''boolean''
     | JNum _ \<Rightarrow> ''number'' | JStr _ \<Rightarrow> ''string'' | JFun \<Rightarrow> ''function'' | JArray \<Rightarrow> ''array''
     | JRegExp \<Rightarrow> ''regexp'' | JElement _ \<Rightarrow> ''htmlelement'' | _ \<Rightarrow> ''object'')"

definition isElement :: "jsval \<Rightarrow> bool" where
  "isElement v = (case v of JElement _ \<Rightarrow> True | JQuery es \<Rightarrow> es \<noteq> [] | _ \<Rightarrow> False)"

text \<open>The patterns of the option tables are one word or words in parentheses separated by bars; the
  test looks for one of the words anywhere in the name of the type.\<close>

definition alternatives :: "string \<Rightarrow> string list" where
  "alternatives s = (if take 1 s = ''('' then js_split CHR ''|'' (butlast (tl s)) else [s])"

definition type_matches :: "string \<Rightarrow> string \<Rightarrow> bool" where
  "type_matches expected t = (\<exists>w \<in> set (alternatives expected). js_contains t w)"

datatype bs_error = OptionType string string string | NoMethod string | NotAFunction string
  | NoJQuery | OldJQuery | NoPopper | NotVisible | NullReference | BadSelector string | OutOfFuel

text \<open>Sequencing of operations that may throw.\<close>

definition bindE :: "'e + 'a \<Rightarrow> ('a \<Rightarrow> 'e + 'b) \<Rightarrow> 'e + 'b" where
  "bindE r f = (case r of Inl err \<Rightarrow> Inl err | Inr x \<Rightarrow> f x)"

lemma bindE_simps [simp]: "bindE (Inl err) f = Inl err" "bindE (Inr x) f = f x"
  by (simp_all add: bindE_def)

lemma bindE_Inr_conv: "bindE r f = Inr y \<longleftrightarrow> (\<exists>x. r = Inr x \<and> f x = Inr y)"
  by (cases r) auto

text \<open>An operation on every element of a list, in order; the first error ends it.\<close>

fun foldE :: "('a \<Rightarrow> 'w \<Rightarrow> 'e + 'w) \<Rightarrow> 'a list \<Rightarrow> 'w \<Rightarrow> 'e + 'w" where
  "foldE f [] w = Inr w"
| "foldE f (x # xs) w = bindE (f x w) (foldE f xs)"

lemma foldE_inv:
  "(\<And>x v v'. P v \<Longrightarrow> f x v = Inr v' \<Longrightarrow> P v') \<Longrightarrow> P w \<Longrightarrow> foldE f xs w = Inr w' \<Longrightarrow> P w'"
  by (induction xs arbitrary: w) (auto simp: bindE_Inr_conv)

text \<open>The offset that a component hands to its popper is a value or a function that is called with the offsets.\<close>

datatype popper_offset = OffsetValue jsval | OffsetFn

definition value_type :: "jsval \<Rightarrow> string" where
  "value_type v = (if truthy v \<and> isElement v then ''element'' else toType v)"

fun typeCheckConfig :: "config \<Rightarrow> (string \<times> string) list \<Rightarrow> bs_error + unit" where
  "typeCheckConfig config [] = Inr ()"
| "typeCheckConfig config ((property, expected) # types) =
     (if type_matches expected (value_type (opt config property)) then typeCheckConfig config types
      else Inl (OptionType property (value_type (opt config property)) expected))"

definition extends :: "config \<Rightarrow> config \<Rightarrow> config" where
  "extends a b = a ++ b"

lemma typeCheckConfig_ok:
  "typeCheckConfig config types = Inr () \<longleftrightarrow>
     (\<forall>(k, t) \<in> set types. type_matches t (value_type (opt config k)))"
  by (induction types) (auto split: if_splits)

lemma typeCheckConfig_error:
  "typeCheckConfig config types = Inl err \<Longrightarrow>
     \<exists>k t. (k, t) \<in> set types \<and> err = OptionType k (value_type (opt config k)) t
       \<and> \<not> type_matches t (value_type (opt config k))"
  by (induction types) (auto split: if_splits)

section \<open>The jQuery version\<close>

text \<open>The relations \<^verbatim>\<open><\<close> and \<^verbatim>\<open>>=\<close> turn the text on their left into a number, \<^verbatim>\<open>===\<close>
  does not: a text never equals a number.\<close>

definition version_part :: "string list \<Rightarrow> nat \<Rightarrow> jsnum" where
  "version_part v i = (if i < length v then js_number (v ! i) else None)"

datatype js_strict = SText string | SNumber rat

definition strict_part :: "string list \<Rightarrow> nat \<Rightarrow> js_strict option" where
  "strict_part v i = (if i < length v then Some (SText (v ! i)) else None)"

definition jQueryDetection :: "string option \<Rightarrow> bs_error + unit" where
  "jQueryDetection jquery =
     (case jquery of
        None \<Rightarrow> Inl NoJQuery
      | Some s \<Rightarrow>
         (let version = js_split CHR ''.'' (hd (js_split CHR '' '' s))
          in if js_lt (version_part version 0) (Some 2) \<and> js_lt (version_part version 1) (Some 9)
                \<or> strict_part version 0 = Some (SNumber 1) \<and> strict_part version 1 = Some (SNumber 9)
                  \<and> js_lt (version_part version 2) (Some 1)
                \<or> js_le (Some 4) (version_part version 0)
             then Inl OldJQuery else Inr ()))"

lemma strict_part_number [simp]: "strict_part v i \<noteq> Some (SNumber x)"
  by (simp add: strict_part_def)

lemma show_nat_no_sep: "CHR ''.'' \<notin> set (show_nat n)" "CHR '' '' \<notin> set (show_nat n)"
  using show_nat_chars dec_digit_char(3,4) by blast+

lemma split_version:
  "js_split CHR ''.'' (hd (js_split CHR '' '' (show_nat a @ ''.'' @ show_nat b @ ''.'' @ show_nat c)))
     = [show_nat a, show_nat b, show_nat c]"
proof -
  have "js_split CHR '' '' (show_nat a @ ''.'' @ show_nat b @ ''.'' @ show_nat c)
      = [show_nat a @ ''.'' @ show_nat b @ ''.'' @ show_nat c]"
    by (rule js_split_none) (simp add: show_nat_no_sep)
  then show ?thesis
    by (simp add: js_split_append js_split_none show_nat_no_sep)
qed

text \<open>The version check refuses the jQuery versions whose major number is below 2 and minor number
  below 9, and those from 4 on, and accepts every other one. The patch number plays no part, because the
  middle condition compares texts with numbers by strict equality: 1.9.0 passes.\<close>

theorem jQueryDetection_ignores_patch:
  "jQueryDetection (Some (show_nat a @ ''.'' @ show_nat b @ ''.'' @ show_nat c)) =
     (if a < 2 \<and> b < 9 \<or> 4 \<le> a then Inl OldJQuery else Inr ())"
  by (simp add: jQueryDetection_def Let_def split_version [simplified] version_part_def js_number_show_nat)

section \<open>The end of a transition\<close>

text \<open>A component waits for the end of a transition with
  \<^verbatim>\<open>$(e).one(Util.TRANSITION_END, cb).emulateTransitionEnd(duration)\<close>: the callback and, after it,
  a handler that sets the flag \<^verbatim>\<open>called\<close> are bound to the element, and a timer triggers the event
  itself unless the flag is set. The flags and timers are numbered.\<close>

datatype 'h on_end = Callback 'h | MarkCalled nat

primrec callback_of :: "'h on_end \<Rightarrow> 'h option" where
  "callback_of (Callback cb) = Some cb"
| "callback_of (MarkCalled k) = None"

primrec flag_of :: "'h on_end \<Rightarrow> nat option" where
  "flag_of (Callback cb) = None"
| "flag_of (MarkCalled k) = Some k"

record 'h transitions =
  end_handlers :: "(eid \<times> 'h on_end) list"
  called :: "nat list"
  emulators :: "(nat \<times> eid) list"
  next_flag :: nat

definition no_transitions :: "'h transitions" where
  "no_transitions = \<lparr>end_handlers = [], called = [], emulators = [], next_flag = 0\<rparr>"

definition transitionEndEmulator :: "eid \<Rightarrow> 'h transitions \<Rightarrow> 'h transitions" where
  "transitionEndEmulator e tr =
     tr\<lparr>end_handlers := end_handlers tr @ [(e, MarkCalled (next_flag tr))],
        emulators := emulators tr @ [(next_flag tr, e)],
        next_flag := Suc (next_flag tr)\<rparr>"

definition await_end :: "eid \<Rightarrow> 'h \<Rightarrow> 'h transitions \<Rightarrow> 'h transitions" where
  "await_end e cb tr =
     transitionEndEmulator e (tr\<lparr>end_handlers := end_handlers tr @ [(e, Callback cb)]\<rparr>)"

text \<open>An event reaches the handlers of its target and of the elements around it;
  \<^verbatim>\<open>getSpecialTransitionEndEvent\<close> lets only those of the target run, and each of them is bound
  for one event. The callbacks that run are the second component.\<close>

definition dispatch_end :: "eid \<Rightarrow> 'h transitions \<Rightarrow> 'h transitions \<times> 'h list" where
  "dispatch_end target tr =
     (let run = map snd (filter (\<lambda>h. fst h = target) (end_handlers tr))
      in (tr\<lparr>end_handlers := filter (\<lambda>h. fst h \<noteq> target) (end_handlers tr),
             called := called tr @ List.map_filter flag_of run\<rparr>,
          List.map_filter callback_of run))"

text \<open>The timer of an emulator runs out.\<close>

definition emulator_timeout :: "nat \<Rightarrow> 'h transitions \<Rightarrow> 'h transitions \<times> 'h list" where
  "emulator_timeout k tr =
     (case map_of (emulators tr) k of
        None \<Rightarrow> (tr, [])
      | Some e \<Rightarrow>
         (let tr' = tr\<lparr>emulators := filter (\<lambda>t. fst t \<noteq> k) (emulators tr)\<rparr>
          in if k \<in> set (called tr) then (tr', []) else dispatch_end e tr'))"

inductive trans_reach :: "'h transitions \<Rightarrow> bool" where
  trans_start: "trans_reach no_transitions"
| trans_await: "trans_reach tr \<Longrightarrow> trans_reach (await_end e cb tr)"
| trans_event: "trans_reach tr \<Longrightarrow> trans_reach (fst (dispatch_end e tr))"
| trans_timer: "trans_reach tr \<Longrightarrow> trans_reach (fst (emulator_timeout k tr))"

text \<open>Every flag that is still awaited has one handler and, unless its timer ran out, one timer, and
  every callback has a flag with a timer on its element.\<close>

definition trans_inv :: "'h transitions \<Rightarrow> bool" where
  "trans_inv tr \<longleftrightarrow>
     distinct (map fst (emulators tr))
     \<and> (\<forall>(k, e) \<in> set (emulators tr). k < next_flag tr \<and> (k \<notin> set (called tr) \<longrightarrow> (e, MarkCalled k) \<in> set (end_handlers tr)))
     \<and> (\<forall>k \<in> set (called tr). k < next_flag tr)
     \<and> (\<forall>e k. (e, MarkCalled k) \<in> set (end_handlers tr) \<longrightarrow> (k, e) \<in> set (emulators tr) \<and> k \<notin> set (called tr))
     \<and> (\<forall>e cb. (e, Callback cb) \<in> set (end_handlers tr) \<longrightarrow> (\<exists>k. (e, MarkCalled k) \<in> set (end_handlers tr)))"

lemma no_transitions_handlers [simp]: "end_handlers no_transitions = []"
  by (simp add: no_transitions_def)

lemma trans_inv_await: "trans_inv tr \<Longrightarrow> trans_inv (await_end e cb tr)"
  by (fastforce simp: trans_inv_def await_end_def transitionEndEmulator_def)

lemma set_map_filter_iff: "y \<in> set (List.map_filter f xs) \<longleftrightarrow> (\<exists>x \<in> set xs. f x = Some y)"
  by (induction xs) (auto simp: List.map_filter_def)

lemma on_end_Some:
  "callback_of h = Some cb \<longleftrightarrow> h = Callback cb" "flag_of h = Some k \<longleftrightarrow> h = MarkCalled k"
  by (cases h; auto)+

lemma dispatch_called:
  "k \<in> set (called (fst (dispatch_end e tr))) \<longleftrightarrow> k \<in> set (called tr) \<or> (e, MarkCalled k) \<in> set (end_handlers tr)"
  by (force simp: dispatch_end_def Let_def set_map_filter_iff on_end_Some)

lemma dispatch_simps [simp]:
  "end_handlers (fst (dispatch_end e tr)) = filter (\<lambda>h. fst h \<noteq> e) (end_handlers tr)"
  "emulators (fst (dispatch_end e tr)) = emulators tr"
  "next_flag (fst (dispatch_end e tr)) = next_flag tr"
  by (simp_all add: dispatch_end_def Let_def)

lemma dispatch_runs: "cb \<in> set (snd (dispatch_end e tr)) \<longleftrightarrow> (e, Callback cb) \<in> set (end_handlers tr)"
  by (force simp: dispatch_end_def Let_def set_map_filter_iff on_end_Some)

lemma emulators_unique:
  "trans_inv tr \<Longrightarrow> (k, e) \<in> set (emulators tr) \<Longrightarrow> (k, e') \<in> set (emulators tr) \<Longrightarrow> e = e'"
  by (auto simp: trans_inv_def dest: eq_key_imp_eq_value)

lemma trans_inv_dispatch:
  assumes "trans_inv tr"
  shows "trans_inv (fst (dispatch_end e tr))"
proof -
  have "(x, MarkCalled k) \<in> set (end_handlers tr) \<Longrightarrow> x \<noteq> e \<Longrightarrow> (e, MarkCalled k) \<notin> set (end_handlers tr)" for x k
    using assms emulators_unique [OF assms] unfolding trans_inv_def by blast
  then show ?thesis
    using assms unfolding trans_inv_def by (auto simp: dispatch_called) blast
qed

definition drop_timer :: "nat \<Rightarrow> 'h transitions \<Rightarrow> 'h transitions" where
  "drop_timer k tr = tr\<lparr>emulators := filter (\<lambda>t. fst t \<noteq> k) (emulators tr)\<rparr>"

lemma trans_inv_drop_called:
  assumes "trans_inv tr" "k \<in> set (called tr)"
  shows "trans_inv (drop_timer k tr)"
  using assms unfolding trans_inv_def drop_timer_def by (auto simp: distinct_map_filter)

lemma trans_inv_drop_dispatch:
  assumes "trans_inv tr" "(k, e) \<in> set (emulators tr)" "k \<notin> set (called tr)"
  shows "trans_inv (fst (dispatch_end e (drop_timer k tr)))"
proof -
  have eq: "fst (dispatch_end e (drop_timer k tr)) = drop_timer k (fst (dispatch_end e tr))"
    by (simp add: dispatch_end_def drop_timer_def Let_def)
  have "(e, MarkCalled k) \<in> set (end_handlers tr)"
    using assms by (auto simp: trans_inv_def)
  then have "k \<in> set (called (fst (dispatch_end e tr)))"
    by (simp add: dispatch_called)
  then show ?thesis
    unfolding eq by (rule trans_inv_drop_called [OF trans_inv_dispatch [OF assms(1)]])
qed

lemma emulator_timeout_alt:
  "emulator_timeout k tr =
     (case map_of (emulators tr) k of
        None \<Rightarrow> (tr, [])
      | Some e \<Rightarrow> if k \<in> set (called tr) then (drop_timer k tr, []) else dispatch_end e (drop_timer k tr))"
  by (simp add: emulator_timeout_def drop_timer_def Let_def split: option.splits)

lemma trans_inv_timeout: "trans_inv tr \<Longrightarrow> trans_inv (fst (emulator_timeout k tr))"
  by (auto simp: emulator_timeout_alt trans_inv_drop_called
      dest: map_of_SomeD intro!: trans_inv_drop_dispatch split: option.splits)

lemma trans_reach_inv: "trans_reach tr \<Longrightarrow> trans_inv tr"
proof (induction rule: trans_reach.induct)
  case trans_start
  then show ?case by (simp add: trans_inv_def no_transitions_def)
qed (simp_all add: trans_inv_await trans_inv_dispatch trans_inv_timeout)

lemma awaited_timer:
  assumes "trans_inv tr" "(e, Callback cb) \<in> set (end_handlers tr)"
  obtains k where "map_of (emulators tr) k = Some e" "k \<notin> set (called tr)"
proof -
  obtain k where k: "(e, MarkCalled k) \<in> set (end_handlers tr)" "(k, e) \<in> set (emulators tr)" "k \<notin> set (called tr)"
    using assms unfolding trans_inv_def by blast
  moreover have "map_of (emulators tr) k = Some e"
    using assms(1) k by (simp add: trans_inv_def)
  ultimately show ?thesis using that by blast
qed

lemma emulator_runs:
  assumes "map_of (emulators tr) k = Some e" "k \<notin> set (called tr)"
  shows "cb \<in> set (snd (emulator_timeout k tr)) \<longleftrightarrow> (e, Callback cb) \<in> set (end_handlers tr)"
    "end_handlers (fst (emulator_timeout k tr)) = filter (\<lambda>h. fst h \<noteq> e) (end_handlers tr)"
  using assms by (simp add: emulator_timeout_alt dispatch_runs, simp add: drop_timer_def)
    (simp add: assms emulator_timeout_alt, simp add: drop_timer_def)

lemma emulator_runs_subset:
  "cb \<in> set (snd (emulator_timeout k tr)) \<Longrightarrow> \<exists>e. (e, Callback cb) \<in> set (end_handlers tr)"
  "set (end_handlers (fst (emulator_timeout k tr))) \<subseteq> set (end_handlers tr)"
  by (auto simp: emulator_timeout_alt dispatch_runs split: option.splits if_splits) (auto simp: drop_timer_def)

text \<open>C23. Every callback that waits for the end of a transition is certain to run: a timer is still
  set on its element that runs it, and once the event has come the timers left on that element run
  nothing more.\<close>

theorem transition_callback_runs_once:
  assumes "trans_reach tr" "(e, Callback cb) \<in> set (end_handlers tr)"
  shows "(\<exists>k. map_of (emulators tr) k = Some e
            \<and> cb \<in> set (snd (emulator_timeout k tr))
            \<and> (e, Callback cb) \<notin> set (end_handlers (fst (emulator_timeout k tr))))
         \<and> cb \<in> set (snd (dispatch_end e tr))
         \<and> (\<forall>k. map_of (emulators tr) k = Some e \<longrightarrow> snd (emulator_timeout k (fst (dispatch_end e tr))) = [])"
proof -
  have inv: "trans_inv tr" using assms(1) by (rule trans_reach_inv)
  then obtain k where m: "map_of (emulators tr) k = Some e" and k: "k \<notin> set (called tr)"
    using assms(2) by (rule awaited_timer)
  have "cb \<in> set (snd (emulator_timeout k tr))" "(e, Callback cb) \<notin> set (end_handlers (fst (emulator_timeout k tr)))"
    using assms(2) by (simp_all add: emulator_runs [OF m k])
  moreover have "snd (emulator_timeout j (fst (dispatch_end e tr))) = []" if "map_of (emulators tr) j = Some e" for j
  proof -
    have "j \<in> set (called (fst (dispatch_end e tr)))"
      using inv map_of_SomeD [OF that] by (auto simp: dispatch_called trans_inv_def)
    then show ?thesis by (simp add: emulator_timeout_alt that)
  qed
  ultimately show ?thesis using m assms(2) by (auto simp: dispatch_runs)
qed

theorem transition_callback_runs_once_witness:
  "snd (emulator_timeout 0 (await_end 7 True no_transitions)) = [True]
   \<and> (\<exists>k. map_of (emulators (await_end 7 True no_transitions)) k = Some 7)"
  using transition_callback_runs_once [of "await_end 7 True no_transitions" 7 True]
  by (auto simp: await_end_def transitionEndEmulator_def no_transitions_def emulator_timeout_def dispatch_end_def
      List.map_filter_def intro: trans_start trans_await [unfolded await_end_def transitionEndEmulator_def no_transitions_def]
      split: if_splits)

text \<open>\<^verbatim>\<open>getUID\<close> ends whatever numbers are drawn: it gives an id that starts with the prefix and
  that no element has, after at most one draw more than there are taken ids.\<close>

theorem getUID_fresh:
  assumes "finite {u. taken u}" "card {u. taken u} < length rs"
  shows "\<exists>u. getUID taken rs prefix = Some u \<and> \<not> taken u \<and> take (length prefix) u = prefix"
proof -
  have "card {u. taken u \<and> length prefix < length u} \<le> card {u. taken u}"
    using assms(1) by (auto intro: card_mono)
  then obtain u where u: "getUID taken rs prefix = Some u"
    using getUID_ends [of taken prefix rs] assms by force
  then show ?thesis using getUID_free [OF u] by auto
qed

theorem getUID_fresh_witness:
  "\<exists>u. getUID (\<lambda>s. s \<in> {''spy1'', ''spy12''}) [1, 2, 3] ''spy'' = Some u \<and> u \<notin> {''spy1'', ''spy12''}
     \<and> take (length ''spy'') u = ''spy''"
  using getUID_fresh [of "\<lambda>s. s \<in> {''spy1'', ''spy12''}" "[1, 2, 3]" "''spy''"]
  by (simp only: Collect_mem_eq) (simp del: getUID.simps)

end
