(* ===== verification/Bs_Toast.thy ===== *)
theory Bs_Toast
  imports Bs_Util
begin

text \<open>
  The component \<^verbatim>\<open>Toast\<close> of \<^verbatim>\<open>bootstrap.js\<close>: a message that is shown, hides itself after a
  delay and fades in and out. The state is the instance, its page, the callbacks that wait for the end
  of a transition and the timers of \<^verbatim>\<open>setTimeout\<close>. A disposed instance has no element and no
  configuration, and a method that reads one of them throws.
\<close>

section \<open>State and operations\<close>

datatype toast_cb = Shown | Closed

record toast =
  toast_page :: page
  toast_trans :: "toast_cb transitions"
  toast_timers :: "nat list"
  toast_next :: nat
  toast_element :: "eid option"
  toast_config :: config
  toast_timeout :: "nat option"
  toast_dismiss :: bool

definition toast_Default :: config where
  "toast_Default = [''animation'' \<mapsto> JBool True, ''autohide'' \<mapsto> JBool True, ''delay'' \<mapsto> JNum (Some 500)]"

definition toast_DefaultType :: "(string \<times> string) list" where
  "toast_DefaultType = [(''animation'', ''boolean''), (''autohide'', ''boolean''), (''delay'', ''number'')]"

abbreviation toast_opt :: "toast \<Rightarrow> string \<Rightarrow> bool" where
  "toast_opt w k \<equiv> truthy (opt (toast_config w) k)"

text \<open>\<open>data\<close> holds the \<^verbatim>\<open>data-\<close> attributes of the element, \<open>config\<close> the object the caller gave.\<close>

definition toast_getConfig :: "config \<Rightarrow> config option \<Rightarrow> bs_error + config" where
  "toast_getConfig data config =
     (let c = extends (extends toast_Default data) (case config of None \<Rightarrow> Map.empty | Some o' \<Rightarrow> o')
      in case typeCheckConfig c toast_DefaultType of Inl err \<Rightarrow> Inl err | Inr _ \<Rightarrow> Inr c)"

definition new_Toast :: "page \<Rightarrow> eid \<Rightarrow> config \<Rightarrow> config option \<Rightarrow> bs_error + toast" where
  "new_Toast p e data config =
     (case toast_getConfig data config of
        Inl err \<Rightarrow> Inl err
      | Inr c \<Rightarrow> Inr \<lparr>toast_page = p, toast_trans = no_transitions, toast_timers = [], toast_next = 0,
                    toast_element = Some e, toast_config = c, toast_timeout = None, toast_dismiss = True\<rparr>)"

definition toast_clearTimeout :: "toast \<Rightarrow> toast" where
  "toast_clearTimeout w =
     w\<lparr>toast_timers := (case toast_timeout w of None \<Rightarrow> toast_timers w | Some i \<Rightarrow> removeAll i (toast_timers w)),
       toast_timeout := None\<rparr>"

definition shown_complete :: "eid \<Rightarrow> toast \<Rightarrow> toast" where
  "shown_complete e w =
     (let p = fire ''shown.bs.toast'' e (addClass ''show'' e (removeClass ''showing'' e (toast_page w)));
          w1 = w\<lparr>toast_page := p\<rparr>
      in if toast_opt w ''autohide''
         then w1\<lparr>toast_timeout := Some (toast_next w), toast_timers := toast_timers w @ [toast_next w],
                 toast_next := Suc (toast_next w)\<rparr>
         else w1)"

definition toast_show :: "prevents \<Rightarrow> toast \<Rightarrow> bs_error + toast" where
  "toast_show prevents w =
     (case toast_element w of
        None \<Rightarrow> Inl NullReference
      | Some e \<Rightarrow>
         (let p = fire ''show.bs.toast'' e (toast_page w)
          in if prevents ''show.bs.toast'' e p then Inr (w\<lparr>toast_page := p\<rparr>)
             else
              (let w1 = toast_clearTimeout (w\<lparr>toast_page := p\<rparr>);
                   p1 = (if toast_opt w ''animation'' then addClass ''fade'' e p else p);
                   p2 = addClass ''showing'' e (removeClass ''hide'' e p1);
                   w2 = w1\<lparr>toast_page := p2\<rparr>
               in if toast_opt w ''animation'' then Inr (w2\<lparr>toast_trans := await_end e Shown (toast_trans w2)\<rparr>)
                  else Inr (shown_complete e w2))))"

definition closed_complete :: "eid \<Rightarrow> toast \<Rightarrow> toast" where
  "closed_complete e w = w\<lparr>toast_page := fire ''hidden.bs.toast'' e (addClass ''hide'' e (toast_page w))\<rparr>"

definition toast_close :: "eid \<Rightarrow> toast \<Rightarrow> toast" where
  "toast_close e w =
     (let w1 = w\<lparr>toast_page := removeClass ''show'' e (toast_page w)\<rparr>
      in if toast_opt w ''animation'' then w1\<lparr>toast_trans := await_end e Closed (toast_trans w1)\<rparr>
         else closed_complete e w1)"

definition toast_hide :: "prevents \<Rightarrow> toast \<Rightarrow> bs_error + toast" where
  "toast_hide prevents w =
     (case toast_element w of
        None \<Rightarrow> Inl NullReference
      | Some e \<Rightarrow>
         (if \<not> hasClass ''show'' (toast_page w) e then Inr w
          else
           (let p = fire ''hide.bs.toast'' e (toast_page w)
            in if prevents ''hide.bs.toast'' e p then Inr (w\<lparr>toast_page := p\<rparr>)
               else Inr (toast_close e (w\<lparr>toast_page := p\<rparr>)))))"

definition toast_dispose :: "toast \<Rightarrow> bs_error + toast" where
  "toast_dispose w =
     (let w1 = toast_clearTimeout w
      in case toast_element w of
          None \<Rightarrow> Inl NullReference
        | Some e \<Rightarrow> Inr (w1\<lparr>toast_page := removeClass ''show'' e (toast_page w1), toast_dismiss := False,
                           toast_element := None, toast_config := Map.empty\<rparr>))"

text \<open>The callbacks of a transition: they read the element of the instance when they run.\<close>

definition toast_callback :: "toast_cb \<Rightarrow> toast \<Rightarrow> bs_error + toast" where
  "toast_callback cb w =
     (case toast_element w of
        None \<Rightarrow> Inl NullReference
      | Some e \<Rightarrow> Inr (case cb of Shown \<Rightarrow> shown_complete e w | Closed \<Rightarrow> closed_complete e w))"

fun toast_callbacks :: "toast_cb list \<Rightarrow> toast \<Rightarrow> bs_error + toast" where
  "toast_callbacks [] w = Inr w"
| "toast_callbacks (cb # cbs) w =
     (case toast_callback cb w of Inl err \<Rightarrow> Inl err | Inr w' \<Rightarrow> toast_callbacks cbs w')"

definition toast_transitionend :: "eid \<Rightarrow> toast \<Rightarrow> bs_error + toast" where
  "toast_transitionend e w =
     (case dispatch_end e (toast_trans w) of (tr, cbs) \<Rightarrow> toast_callbacks cbs (w\<lparr>toast_trans := tr\<rparr>))"

definition toast_emulator :: "nat \<Rightarrow> toast \<Rightarrow> bs_error + toast" where
  "toast_emulator k w =
     (case emulator_timeout k (toast_trans w) of (tr, cbs) \<Rightarrow> toast_callbacks cbs (w\<lparr>toast_trans := tr\<rparr>))"

definition toast_timer :: "prevents \<Rightarrow> nat \<Rightarrow> toast \<Rightarrow> bs_error + toast" where
  "toast_timer prevents i w =
     (if i \<in> set (toast_timers w) then toast_hide prevents (w\<lparr>toast_timers := removeAll i (toast_timers w)\<rparr>)
      else Inr w)"

definition toast_click_dismiss :: "prevents \<Rightarrow> toast \<Rightarrow> bs_error + toast" where
  "toast_click_dismiss prevents w = (if toast_dismiss w then toast_hide prevents w else Inr w)"

text \<open>\<^verbatim>\<open>$(element).toast(config)\<close>: the argument is an object or nothing, or the name of a method.
  \<open>instance\<close> is what \<^verbatim>\<open>data('bs.toast')\<close> holds.\<close>

datatype toast_arg = ToastConfig "config option" | ToastMethod string

definition toast_method :: "prevents \<Rightarrow> config \<Rightarrow> string \<Rightarrow> toast \<Rightarrow> bs_error + toast" where
  "toast_method prevents data m w =
     (if m = ''show'' then toast_show prevents w
      else if m = ''hide'' then toast_hide prevents w
      else if m = ''dispose'' then toast_dispose w
      else if m = ''_close'' then
        (case toast_element w of None \<Rightarrow> Inl NullReference | Some e \<Rightarrow> Inr (toast_close e w))
      else if m = ''_clearTimeout'' then Inr (toast_clearTimeout w)
      else if m = ''_getConfig'' then
        (case toast_getConfig data None of Inl err \<Rightarrow> Inl err | Inr _ \<Rightarrow> Inr w)
      else if m = ''_setListeners'' then Inr (w\<lparr>toast_dismiss := True\<rparr>)
      else if m \<in> {''_element'', ''_config'', ''_timeout''} then Inl (NotAFunction m)
      else Inl (NoMethod m))"

definition toast_jQueryInterface ::
  "prevents \<Rightarrow> page \<Rightarrow> eid \<Rightarrow> config \<Rightarrow> toast_arg \<Rightarrow> toast option \<Rightarrow> bs_error + toast" where
  "toast_jQueryInterface prevents p e data arg instance' =
     (case (case instance' of
              Some w \<Rightarrow> Inr w
            | None \<Rightarrow> new_Toast p e data (case arg of ToastConfig c \<Rightarrow> c | ToastMethod _ \<Rightarrow> None)) of
        Inl err \<Rightarrow> Inl err
      | Inr w \<Rightarrow> (case arg of ToastConfig _ \<Rightarrow> Inr w | ToastMethod m \<Rightarrow> toast_method prevents data m w))"

section \<open>The life of a toast\<close>

inductive toast_step :: "prevents \<Rightarrow> toast \<Rightarrow> toast \<Rightarrow> bool" for prevents where
  step_show: "toast_show prevents w = Inr w' \<Longrightarrow> toast_step prevents w w'"
| step_hide: "toast_hide prevents w = Inr w' \<Longrightarrow> toast_step prevents w w'"
| step_click: "toast_click_dismiss prevents w = Inr w' \<Longrightarrow> toast_step prevents w w'"
| step_dispose: "toast_dispose w = Inr w' \<Longrightarrow> toast_step prevents w w'"
| step_event: "toast_transitionend e w = Inr w' \<Longrightarrow> toast_step prevents w w'"
| step_emulator: "toast_emulator k w = Inr w' \<Longrightarrow> toast_step prevents w w'"
| step_timer: "toast_timer prevents i w = Inr w' \<Longrightarrow> toast_step prevents w w'"

inductive toast_reach :: "prevents \<Rightarrow> toast \<Rightarrow> bool" for prevents where
  reach_new: "new_Toast p e data config = Inr w \<Longrightarrow> \<not> hasClass ''show'' p e \<Longrightarrow> toast_reach prevents w"
| reach_step: "toast_reach prevents w \<Longrightarrow> toast_step prevents w w' \<Longrightarrow> toast_reach prevents w'"

lemmas toast_ops = toast_show_def toast_hide_def toast_close_def toast_dispose_def shown_complete_def
  closed_complete_def toast_clearTimeout_def toast_click_dismiss_def toast_timer_def Let_def

text \<open>A toast that is shown and hides by itself has a timer that is still to run, or is about to be
  shown again and then sets one; all callbacks wait on its element.\<close>

definition will_hide :: "eid \<Rightarrow> toast \<Rightarrow> bool" where
  "will_hide e w \<longleftrightarrow>
     (toast_opt w ''autohide'' \<and> hasClass ''show'' (toast_page w) e \<longrightarrow>
        toast_timers w \<noteq> [] \<or> (e, Callback Shown) \<in> set (end_handlers (toast_trans w)))"

definition toast_inv :: "toast \<Rightarrow> bool" where
  "toast_inv w \<longleftrightarrow>
     trans_reach (toast_trans w)
     \<and> (case toast_element w of
          None \<Rightarrow> True
        | Some e \<Rightarrow> will_hide e w \<and> fst ` set (end_handlers (toast_trans w)) \<subseteq> {e})"

lemma toast_invI:
  "trans_reach (toast_trans w) \<Longrightarrow> (\<And>e. toast_element w = Some e \<Longrightarrow> will_hide e w)
   \<Longrightarrow> (\<And>e. toast_element w = Some e \<Longrightarrow> fst ` set (end_handlers (toast_trans w)) \<subseteq> {e}) \<Longrightarrow> toast_inv w"
  by (auto simp: toast_inv_def split: option.splits)

lemma toast_invD:
  assumes "toast_inv w"
  shows "trans_reach (toast_trans w)" "toast_element w = Some e \<Longrightarrow> will_hide e w"
    "toast_element w = Some e \<Longrightarrow> fst ` set (end_handlers (toast_trans w)) \<subseteq> {e}"
  using assms by (auto simp: toast_inv_def)

lemma await_end_handlers [simp]:
  "set (end_handlers (await_end e cb tr)) = insert (e, Callback cb) (insert (e, MarkCalled (next_flag tr)) (set (end_handlers tr)))"
  by (auto simp: await_end_def transitionEndEmulator_def)

lemma toast_callback_effect:
  assumes "toast_callback cb w = Inr w'"
  shows "toast_element w' = toast_element w" "toast_config w' = toast_config w" "toast_trans w' = toast_trans w"
    "toast_timers w \<noteq> [] \<Longrightarrow> toast_timers w' \<noteq> []"
    "cb = Shown \<Longrightarrow> toast_opt w ''autohide'' \<Longrightarrow> toast_timers w' \<noteq> []"
    "hasClass ''show'' (toast_page w') e \<Longrightarrow> hasClass ''show'' (toast_page w) e \<or> cb = Shown"
  using assms
  by (auto simp: toast_callback_def shown_complete_def closed_complete_def Let_def
      split: option.splits toast_cb.splits if_splits)

lemma toast_callbacks_effect:
  assumes "toast_callbacks cbs w = Inr w'"
  shows "toast_element w' = toast_element w \<and> toast_config w' = toast_config w \<and> toast_trans w' = toast_trans w
    \<and> (toast_timers w \<noteq> [] \<longrightarrow> toast_timers w' \<noteq> [])
    \<and> (Shown \<in> set cbs \<longrightarrow> toast_opt w ''autohide'' \<longrightarrow> toast_timers w' \<noteq> [])
    \<and> (hasClass ''show'' (toast_page w') e \<longrightarrow> hasClass ''show'' (toast_page w) e \<or> Shown \<in> set cbs)
    \<and> (toast_element w = None \<longrightarrow> cbs = [])"
  using assms
proof (induction cbs arbitrary: w)
  case (Cons cb cbs)
  obtain w1 where w1: "toast_callback cb w = Inr w1" and w': "toast_callbacks cbs w1 = Inr w'"
    using Cons.prems by (auto split: sum.splits)
  have ne: "toast_element w \<noteq> None" using w1 by (auto simp: toast_callback_def split: option.splits)
  show ?case
    using Cons.IH [OF w'] toast_callback_effect [OF w1] ne by (cases cb) auto
qed simp

lemma toast_callbacks_total: "toast_element w = Some e \<Longrightarrow> \<exists>w'. toast_callbacks cbs w = Inr w'"
proof (induction cbs arbitrary: w)
  case (Cons cb cbs)
  obtain w1 where w1: "toast_callback cb w = Inr w1"
    using Cons.prems by (simp add: toast_callback_def)
  then show ?case using Cons.IH [of w1] Cons.prems toast_callback_effect(1) [OF w1] by simp
qed simp

lemma toast_inv_run:
  assumes inv: "toast_inv w"
    and run: "toast_callbacks cbs (w\<lparr>toast_trans := tr\<rparr>) = Inr w'"
    and tr: "trans_reach tr" "set (end_handlers tr) \<subseteq> set (end_handlers (toast_trans w))"
    and all: "\<And>x. (x, Callback Shown) \<in> set (end_handlers (toast_trans w)) \<Longrightarrow>
                (x, Callback Shown) \<in> set (end_handlers tr) \<or> Shown \<in> set cbs"
  shows "toast_inv w'"
proof -
  note eff = toast_callbacks_effect [OF run]
  have fr: "toast_element w' = toast_element w" "toast_config w' = toast_config w" "toast_trans w' = tr"
    using eff by simp_all
  have eff': "toast_timers w \<noteq> [] \<longrightarrow> toast_timers w' \<noteq> []"
    "Shown \<in> set cbs \<longrightarrow> toast_opt w ''autohide'' \<longrightarrow> toast_timers w' \<noteq> []"
    "hasClass ''show'' (toast_page w') e \<longrightarrow> hasClass ''show'' (toast_page w) e \<or> Shown \<in> set cbs" for e
    using eff by simp_all
  show ?thesis
  proof (rule toast_invI)
    fix e assume e: "toast_element w' = Some e"
    then have "will_hide e w" using toast_invD(2) [OF inv] fr by simp
    then show "will_hide e w'"
      using eff'(1,2) eff'(3) [of e] all [of e] unfolding will_hide_def fr by blast
    show "fst ` set (end_handlers (toast_trans w')) \<subseteq> {e}"
      using toast_invD(3) [OF inv, of e] e fr tr(2) by auto
  qed (simp add: fr tr)
qed

lemma toast_inv_event: "toast_inv w \<Longrightarrow> toast_transitionend e w = Inr w' \<Longrightarrow> toast_inv w'"
  by (rule toast_inv_run [of w "snd (dispatch_end e (toast_trans w))" "fst (dispatch_end e (toast_trans w))"])
    (auto simp: toast_transitionend_def dispatch_runs toast_invD case_prod_beta intro: trans_event)

lemma toast_inv_emulator: "toast_inv w \<Longrightarrow> toast_emulator k w = Inr w' \<Longrightarrow> toast_inv w'"
proof (rule toast_inv_run [of w "snd (emulator_timeout k (toast_trans w))" "fst (emulator_timeout k (toast_trans w))"])
  fix x assume x: "(x, Callback Shown) \<in> set (end_handlers (toast_trans w))"
  show "(x, Callback Shown) \<in> set (end_handlers (fst (emulator_timeout k (toast_trans w))))
      \<or> Shown \<in> set (snd (emulator_timeout k (toast_trans w)))"
  proof (cases "\<exists>e. map_of (emulators (toast_trans w)) k = Some e \<and> k \<notin> set (called (toast_trans w))")
    case True
    then show ?thesis using x by (auto simp: emulator_runs)
  next
    case False
    then show ?thesis using x
      by (auto simp: emulator_timeout_alt drop_timer_def split: option.splits)
  qed
qed (auto simp: toast_emulator_def toast_invD emulator_runs_subset case_prod_beta intro: trans_timer
    dest: emulator_runs_subset(2) [THEN subsetD])

lemma toast_inv_same:
  assumes "toast_inv w" "toast_trans w' = toast_trans w" "toast_element w' = toast_element w"
    and "\<And>e. toast_element w = Some e \<Longrightarrow> will_hide e w'"
  shows "toast_inv w'"
  using assms by (auto simp: toast_inv_def split: option.splits)

lemma toast_inv_await:
  assumes "toast_inv w" "toast_trans w' = await_end e cb (toast_trans w)" "toast_element w = Some e"
    "toast_element w' = Some e" "will_hide e w'"
  shows "toast_inv w'"
  using assms toast_invD(1) [OF assms(1)] toast_invD(2,3) [OF assms(1), of e] by (auto simp: toast_inv_def intro: trans_await)

lemma toast_inv_show:
  assumes "toast_inv w" "toast_show prevents w = Inr w'"
  shows "toast_inv w'"
proof -
  obtain e where e: "toast_element w = Some e"
    using assms(2) by (auto simp: toast_show_def split: option.splits)
  have wh: "will_hide e w" using toast_invD(2) [OF assms(1) e] .
  define p where "p = fire ''show.bs.toast'' e (toast_page w)"
  consider (prevented) "w' = w\<lparr>toast_page := p\<rparr>"
    | (animated) "toast_trans w' = await_end e Shown (toast_trans w)" "toast_element w' = Some e"
    | (direct) "toast_trans w' = toast_trans w" "toast_element w' = Some e" "toast_opt w' ''autohide'' \<Longrightarrow> toast_timers w' \<noteq> []"
    using assms(2) e by (auto simp: toast_ops p_def split: if_splits)
  then show ?thesis
  proof cases
    case prevented
    show ?thesis
      by (rule toast_inv_same [OF assms(1)]) (use wh e in \<open>auto simp: prevented will_hide_def p_def\<close>)
  next
    case animated
    show ?thesis by (rule toast_inv_await [OF assms(1) animated(1) e animated(2)]) (simp add: will_hide_def animated)
  next
    case direct
    show ?thesis by (rule toast_inv_same [OF assms(1) direct(1)]) (use direct e in \<open>auto simp: will_hide_def\<close>)
  qed
qed

lemma toast_inv_hide:
  assumes "toast_inv w" "toast_hide prevents w = Inr w'"
  shows "toast_inv w'"
proof -
  obtain e where e: "toast_element w = Some e"
    using assms(2) by (auto simp: toast_hide_def split: option.splits)
  have wh: "will_hide e w" using toast_invD(2) [OF assms(1) e] .
  consider (kept) "toast_trans w' = toast_trans w" "toast_element w' = Some e" "will_hide e w'"
    | (animated) "toast_trans w' = await_end e Closed (toast_trans w)" "toast_element w' = Some e" "will_hide e w'"
    using assms(2) e wh by (auto simp: toast_ops will_hide_def split: if_splits)
  then show ?thesis
    using assms(1) e toast_inv_same [of w w'] toast_inv_await [of w w'] by cases auto
qed

lemma toast_inv_dispose: "toast_inv w \<Longrightarrow> toast_dispose w = Inr w' \<Longrightarrow> toast_inv w'"
  by (auto simp: toast_inv_def toast_ops split: option.splits)

lemma toast_hide_hides:
  assumes "never_prevents prevents ''hide.bs.toast''" "toast_element w = Some e"
  shows "\<exists>w'. toast_hide prevents w = Inr w' \<and> \<not> hasClass ''show'' (toast_page w') e"
  using assms by (auto simp: toast_ops)

lemma toast_inv_timer:
  assumes np: "never_prevents prevents ''hide.bs.toast''" and inv: "toast_inv w"
    and t: "toast_timer prevents i w = Inr w'"
  shows "toast_inv w'"
proof (cases "i \<in> set (toast_timers w)")
  case True
  define w1 where "w1 = w\<lparr>toast_timers := removeAll i (toast_timers w)\<rparr>"
  have h: "toast_hide prevents w1 = Inr w'" using t True by (simp add: toast_timer_def w1_def)
  then obtain e where e: "toast_element w = Some e"
    by (auto simp: toast_hide_def w1_def split: option.splits)
  have off: "\<not> hasClass ''show'' (toast_page w') e"
    using toast_hide_hides [OF np, of w1 e] h e by (auto simp: w1_def)
  consider "toast_trans w' = toast_trans w" "toast_element w' = Some e"
    | "toast_trans w' = await_end e Closed (toast_trans w)" "toast_element w' = Some e"
    using h e by (auto simp: toast_ops w1_def split: if_splits)
  then show ?thesis
    using inv e off toast_inv_same [of w w'] toast_inv_await [of w w'] by cases (auto simp: will_hide_def)
qed (use inv t in \<open>auto simp: toast_timer_def\<close>)

lemma toast_reach_inv:
  assumes "toast_reach prevents w" "never_prevents prevents ''hide.bs.toast''"
  shows "toast_inv w"
  using assms(1)
proof (induction rule: toast_reach.induct)
  case (reach_new p e data config w)
  then show ?case by (auto simp: new_Toast_def toast_inv_def will_hide_def trans_start split: sum.splits)
next
  case (reach_step w w')
  from reach_step(2,3) show ?case
    by (cases rule: toast_step.cases)
      (auto simp: toast_click_dismiss_def assms(2) split: if_splits
        intro: toast_inv_show toast_inv_hide toast_inv_dispose toast_inv_event toast_inv_emulator
          toast_inv_timer [OF assms(2)])
qed

text \<open>C22. A toast that hides by itself never stays: whenever it is shown, either a timer is pending
  that hides it, or a callback is pending that sets such a timer. The page must not prevent the hide
  event.\<close>

theorem toast_autohide_live:
  assumes "toast_reach prevents w" "never_prevents prevents ''hide.bs.toast''"
    and "toast_element w = Some e" "toast_opt w ''autohide''" "hasClass ''show'' (toast_page w) e"
  shows "(\<exists>i w'. i \<in> set (toast_timers w) \<and> toast_timer prevents i w = Inr w' \<and> \<not> hasClass ''show'' (toast_page w') e)
    \<or> (\<exists>k w'. toast_emulator k w = Inr w' \<and> toast_timers w' \<noteq> [])"
proof -
  have inv: "toast_inv w" using toast_reach_inv [OF assms(1,2)] .
  show ?thesis
  proof (cases "toast_timers w")
    case (Cons i ids)
    then show ?thesis
      using toast_hide_hides [OF assms(2), of "w\<lparr>toast_timers := removeAll i (toast_timers w)\<rparr>" e] assms(3)
      by (intro disjI1 exI [of _ i]) (auto simp: toast_timer_def)
  next
    case Nil
    then have cb: "(e, Callback Shown) \<in> set (end_handlers (toast_trans w))"
      using toast_invD(2) [OF inv assms(3)] assms(4,5) by (auto simp: will_hide_def)
    obtain k where k: "map_of (emulators (toast_trans w)) k = Some e" "k \<notin> set (called (toast_trans w))"
      using awaited_timer [OF trans_reach_inv [OF toast_invD(1) [OF inv]] cb] by blast
    define cbs where "cbs = snd (emulator_timeout k (toast_trans w))"
    have run: "toast_emulator k w = toast_callbacks cbs (w\<lparr>toast_trans := fst (emulator_timeout k (toast_trans w))\<rparr>)"
      by (simp add: toast_emulator_def case_prod_beta cbs_def)
    obtain w' where w': "toast_emulator k w = Inr w'"
      using toast_callbacks_total [of "w\<lparr>toast_trans := fst (emulator_timeout k (toast_trans w))\<rparr>" e cbs] assms(3) run by auto
    have "Shown \<in> set cbs" using cb by (simp add: cbs_def emulator_runs [OF k])
    then have "toast_timers w' \<noteq> []"
      using toast_callbacks_effect [OF w' [unfolded run]] assms(4) by simp
    then show ?thesis using w' by blast
  qed
qed

text \<open>A toast of the first element that does not fade, after it was shown.\<close>

definition demo_toast :: "bs_error + toast" where
  "demo_toast = new_Toast (bare_page (Node 0 [])) 0 Map.empty (Some [''animation'' \<mapsto> JBool False])"

definition demo_shown :: "bs_error + toast" where
  "demo_shown = (case demo_toast of Inl err \<Rightarrow> Inl err | Inr w \<Rightarrow> toast_show (\<lambda>_ _ _. False) w)"

lemma toast_types:
  "typeCheckConfig c toast_DefaultType = Inr () \<longleftrightarrow>
     type_matches ''boolean'' (value_type (opt c ''animation''))
     \<and> type_matches ''boolean'' (value_type (opt c ''autohide'')) \<and> type_matches ''number'' (value_type (opt c ''delay''))"
  by (simp add: typeCheckConfig_ok toast_DefaultType_def)

lemma demo_shown_ok:
  "\<exists>w w0. demo_toast = Inr w0 \<and> toast_show (\<lambda>_ _ _. False) w0 = Inr w \<and> demo_shown = Inr w \<and> toast_element w = Some 0
     \<and> toast_opt w ''autohide'' \<and> hasClass ''show'' (toast_page w) 0 \<and> toast_trans w = no_transitions"
proof -
  define c where "c = extends (extends toast_Default Map.empty) [''animation'' \<mapsto> JBool False]"
  have o: "opt c ''animation'' = JBool False" "opt c ''autohide'' = JBool True" "opt c ''delay'' = JNum (Some 500)"
    by (simp_all add: c_def extends_def toast_Default_def opt_def)
  have "type_matches ''boolean'' ''boolean''" "type_matches ''number'' ''number''" by code_simp+
  then have "typeCheckConfig c toast_DefaultType = Inr ()"
    by (simp add: toast_types o value_type_def toType_def isElement_def)
  then have "toast_getConfig Map.empty (Some [''animation'' \<mapsto> JBool False]) = Inr c"
    by (simp add: toast_getConfig_def Let_def c_def)
  then show ?thesis
    by (simp add: demo_shown_def demo_toast_def new_Toast_def toast_ops o truthy_def)
qed

theorem toast_autohide_live_witness:
  "\<exists>w. demo_shown = Inr w \<and> hasClass ''show'' (toast_page w) 0
     \<and> ((\<exists>i w'. i \<in> set (toast_timers w) \<and> toast_timer (\<lambda>_ _ _. False) i w = Inr w' \<and> \<not> hasClass ''show'' (toast_page w') 0)
        \<or> (\<exists>k w'. toast_emulator k w = Inr w' \<and> toast_timers w' \<noteq> []))"
proof -
  obtain w w0 where w: "demo_toast = Inr w0" "toast_show (\<lambda>_ _ _. False) w0 = Inr w" "demo_shown = Inr w"
      "toast_element w = Some 0" "toast_opt w ''autohide''" "hasClass ''show'' (toast_page w) 0" "toast_trans w = no_transitions"
    using demo_shown_ok by blast
  have "toast_reach (\<lambda>_ _ _. False) w0"
    using w(1) unfolding demo_toast_def by (rule reach_new) simp
  then have r: "toast_reach (\<lambda>_ _ _. False) w"
    by (rule reach_step) (rule step_show [OF w(2)])
  show ?thesis
    using toast_autohide_live [OF r _ w(4-6)] w(3,6) by (auto simp: never_prevents_def)
qed

text \<open>A toast that is disposed of while it fades throws: the pending callback of the transition
  reads the class list of an element that is gone.\<close>

theorem toast_dispose_while_fading_throws:
  assumes "toast_element w = Some e" "(e, Callback cb) \<in> set (end_handlers (toast_trans w))"
  shows "\<exists>w'. toast_dispose w = Inr w' \<and> toast_transitionend e w' = Inl NullReference"
proof -
  have "snd (dispatch_end e (toast_trans w)) \<noteq> []"
    using dispatch_runs [of cb e "toast_trans w"] assms(2) by auto
  then obtain c cs where "snd (dispatch_end e (toast_trans w)) = c # cs" by (cases "snd (dispatch_end e (toast_trans w))") auto
  then show ?thesis
    using assms(1) by (simp add: toast_dispose_def toast_clearTimeout_def toast_transitionend_def case_prod_beta
        toast_callback_def Let_def split: option.splits)
qed

definition fading_toast :: toast where
  "fading_toast = \<lparr>toast_page = bare_page (Node 0 []), toast_trans = await_end 0 Shown no_transitions, toast_timers = [],
     toast_next = 0, toast_element = Some 0, toast_config = toast_Default, toast_timeout = None, toast_dismiss = True\<rparr>"

theorem toast_dispose_while_fading_throws_witness:
  "\<exists>w'. toast_dispose fading_toast = Inr w' \<and> toast_transitionend 0 w' = Inl NullReference"
  by (rule toast_dispose_while_fading_throws [where cb = Shown]) (simp_all add: fading_toast_def)

end
