(* ===== verification/Bs_Tab.thy ===== *)
theory Bs_Tab
  imports Bs_Util
begin

text \<open>
  The component \<^verbatim>\<open>Tab\<close> of \<^verbatim>\<open>bootstrap.js\<close>: showing a tab of a list deactivates the one that was
  active, activates the new one and does the same with the panes the tabs refer to, after the old pane
  has faded out. The state is that of the page: the instances of \<^verbatim>\<open>Tab\<close> with the data that refers
  to them, and the callbacks that wait on the panes, which all instances share.
\<close>

section \<open>State and operations\<close>

text \<open>A callback holds the instance it belongs to, the element to activate, the one that was active
  and, for the panes, the previous tab whose events are still to be fired. The heap gives the
  \<^verbatim>\<open>_element\<close> of every instance, which is \<^verbatim>\<open>null\<close> after \<^verbatim>\<open>dispose\<close>.\<close>

datatype tab_cb = TabComplete nat eid "eid option" "eid option option"

record tabs =
  tb_page :: page
  tb_trans :: "tab_cb transitions"
  tb_heap :: "nat \<Rightarrow> eid option option"
  tb_next :: nat
  tb_data :: "eid \<Rightarrow> nat option"

definition no_tabs :: "page \<Rightarrow> tabs" where
  "no_tabs p = \<lparr>tb_page = p, tb_trans = no_transitions, tb_heap = (\<lambda>_. None), tb_next = 0, tb_data = (\<lambda>_. None)\<rparr>"

definition tab_element :: "tabs \<Rightarrow> nat \<Rightarrow> eid option" where
  "tab_element w k = (case tb_heap w k of None \<Rightarrow> None | Some x \<Rightarrow> x)"

definition is_list :: "page \<Rightarrow> eid \<Rightarrow> bool" where
  "is_list p e = (node_name p e = ''UL'' \<or> node_name p e = ''OL'')"

text \<open>\<^verbatim>\<open>'> li > .active'\<close> for lists and the active children for other containers select among
  these elements.\<close>

definition items :: "page \<Rightarrow> eid option \<Rightarrow> eid list" where
  "items p container =
     (case container of
        None \<Rightarrow> []
      | Some c \<Rightarrow> if is_list p c then concat (map (children p) (filter (\<lambda>x. node_name p x = ''LI'') (children p c)))
                 else children p c)"

definition actives :: "page \<Rightarrow> eid option \<Rightarrow> eid list" where
  "actives p container = filter (hasClass ''active'' p) (items p container)"

definition first :: "'a list \<Rightarrow> 'a option" where
  "first xs = (case xs of [] \<Rightarrow> None | x # _ \<Rightarrow> Some x)"


definition when_some :: "'a option \<Rightarrow> ('a \<Rightarrow> page \<Rightarrow> page) \<Rightarrow> page \<Rightarrow> page" where
  "when_some x f p = (case x of None \<Rightarrow> p | Some a \<Rightarrow> f a p)"

definition dropdownChild :: "page \<Rightarrow> eid \<Rightarrow> eid option" where
  "dropdownChild p active =
     (case parentNode p active of
        None \<Rightarrow> None
      | Some a \<Rightarrow> first (filter (hasClass ''active'' p)
                   (concat (map (descendants p) (filter (hasClass ''dropdown-menu'' p) (children p a))))))"

definition mark_selected :: "bool \<Rightarrow> eid \<Rightarrow> page \<Rightarrow> page" where
  "mark_selected b e p =
     (if attribute_of p e ''role'' = Some ''tab'' then setAttribute ''aria-selected'' (show_bool b) e p else p)"

definition deactivate :: "eid \<Rightarrow> page \<Rightarrow> page" where
  "deactivate active p =
     (let p1 = removeClass ''active'' active p;
          p2 = when_some (dropdownChild p1 active) (removeClass ''active'') p1
      in mark_selected False active p2)"

definition open_dropdown :: "eid \<Rightarrow> page \<Rightarrow> page" where
  "open_dropdown e p =
     (case parentNode p e of
        None \<Rightarrow> p
      | Some a \<Rightarrow>
         if hasClass ''dropdown-menu'' p a
         then setAttribute ''aria-expanded'' ''true'' e
                (when_some (closest p (hasClass ''dropdown'' p) e)
                   (\<lambda>d q. fold (addClass ''active'') (filter (hasClass ''dropdown-toggle'' p) (descendants p d)) q) p)
         else p)"

text \<open>\<^verbatim>\<open>complete\<close> of \<^verbatim>\<open>show\<close>, the callback of the panes: \<open>self\<close> is the element of the instance.\<close>

definition tab_events :: "eid option \<Rightarrow> eid option \<Rightarrow> page \<Rightarrow> page" where
  "tab_events self previous p = when_some self (fire ''shown.bs.tab'') (when_some previous (fire ''hidden.bs.tab'') p)"

definition transitionComplete :: "eid \<Rightarrow> eid option \<Rightarrow> eid option option \<Rightarrow> eid option \<Rightarrow> page \<Rightarrow> page" where
  "transitionComplete element active callback self p =
     (let p1 = when_some active deactivate p;
          p2 = mark_selected True element (addClass ''active'' element p1);
          p3 = (if hasClass ''fade'' p2 element then addClass ''show'' element p2 else p2);
          p4 = open_dropdown element p3
      in case callback of None \<Rightarrow> p4 | Some previous \<Rightarrow> tab_events self previous p4)"

definition tab_activate :: "nat \<Rightarrow> eid \<Rightarrow> eid option \<Rightarrow> eid option option \<Rightarrow> tabs \<Rightarrow> tabs" where
  "tab_activate k element container callback w =
     (let active = first (actives (tb_page w) container);
          complete = w\<lparr>tb_page := transitionComplete element active callback (tab_element w k) (tb_page w)\<rparr>
      in case active of
          Some a \<Rightarrow>
            if callback \<noteq> None \<and> hasClass ''fade'' (tb_page w) a
            then w\<lparr>tb_page := removeClass ''show'' a (tb_page w),
                   tb_trans := await_end a (TabComplete k element active callback) (tb_trans w)\<rparr>
            else complete
        | None \<Rightarrow> complete)"





text \<open>The callback fires the events of the instance's element as it is when the transition ends. The
  transition ends with the event of the browser or with the timer that emulates it.\<close>

definition tab_callback :: "tab_cb \<Rightarrow> tabs \<Rightarrow> tabs" where
  "tab_callback cb w =
     (case cb of TabComplete k element active callback \<Rightarrow>
        w\<lparr>tb_page := transitionComplete element active callback (tab_element w k) (tb_page w)\<rparr>)"

definition tab_transitionend :: "eid \<Rightarrow> tabs \<Rightarrow> tabs" where
  "tab_transitionend e w =
     (case dispatch_end e (tb_trans w) of (tr, cbs) \<Rightarrow> fold tab_callback cbs (w\<lparr>tb_trans := tr\<rparr>))"





section \<open>Lemmas\<close>

lemma when_some_simps [simp]: "when_some None f p = p" "when_some (Some x) f p = f x p"
  by (simp_all add: when_some_def)

lemma doc_tree_when_some: "(\<And>x q. doc_tree (f x q) = doc_tree q) \<Longrightarrow> doc_tree (when_some a f p) = doc_tree p"
  by (cases a) auto

lemma node_name_when_some: "(\<And>x q. node_name (f x q) = node_name q) \<Longrightarrow> node_name (when_some a f p) = node_name p"
  by (cases a) auto

lemma mark_selected_simps [simp]:
  "hasClass c (mark_selected b e p) x = hasClass c p x" "doc_tree (mark_selected b e p) = doc_tree p"
  "node_name (mark_selected b e p) = node_name p"
  by (auto simp: mark_selected_def)


definition no_menus :: "page \<Rightarrow> bool" where
  "no_menus p \<longleftrightarrow> (\<forall>x. \<not> hasClass ''dropdown-menu'' p x)"

lemma deactivate_flat:
  assumes "no_menus p"
  shows "hasClass c (deactivate a p) x = (hasClass c p x \<and> \<not> (c = ''active'' \<and> x = a))"
    "doc_tree (deactivate a p) = doc_tree p" "node_name (deactivate a p) = node_name p" "no_menus (deactivate a p)"
proof -
  have "dropdownChild (removeClass ''active'' a p) a = None"
    using assms by (simp add: dropdownChild_def no_menus_def first_def split: option.splits)
  then have eq: "deactivate a p = mark_selected False a (removeClass ''active'' a p)"
    by (simp add: deactivate_def Let_def)
  show "hasClass c (deactivate a p) x = (hasClass c p x \<and> \<not> (c = ''active'' \<and> x = a))"
    "doc_tree (deactivate a p) = doc_tree p" "node_name (deactivate a p) = node_name p" "no_menus (deactivate a p)"
    using assms by (auto simp: eq no_menus_def)
qed

lemma open_dropdown_flat: "no_menus p \<Longrightarrow> open_dropdown e p = p"
  by (simp add: open_dropdown_def no_menus_def split: option.splits)

lemma tab_events_simps [simp]:
  "hasClass c (tab_events s v p) x = hasClass c p x" "doc_tree (tab_events s v p) = doc_tree p"
  "node_name (tab_events s v p) = node_name p"
  by (cases s; cases v; simp add: tab_events_def)+

text \<open>On a page without drop-down menus the active class moves from the old element to the new one.\<close>

lemma transitionComplete_flat:
  assumes "no_menus p"
  shows "hasClass ''active'' (transitionComplete e a cb s p) x =
           (x = e \<or> hasClass ''active'' p x \<and> a \<noteq> Some x)"
    "hasClass ''fade'' (transitionComplete e a cb s p) x = hasClass ''fade'' p x"
    "doc_tree (transitionComplete e a cb s p) = doc_tree p"
    "node_name (transitionComplete e a cb s p) = node_name p" "no_menus (transitionComplete e a cb s p)"
proof -
  define p1 where "p1 = when_some a deactivate p"
  have p1: "hasClass c p1 x = (hasClass c p x \<and> \<not> (c = ''active'' \<and> a = Some x))" "doc_tree p1 = doc_tree p"
      "node_name p1 = node_name p" for c x
    using assms by (cases a; auto simp: p1_def deactivate_flat)+
  define p3 where "p3 = (let p2 = mark_selected True e (addClass ''active'' e p1)
     in if hasClass ''fade'' p2 e then addClass ''show'' e p2 else p2)"
  have p3: "hasClass c p3 x = (hasClass c p1 x \<or> c = ''active'' \<and> x = e \<or> c = ''show'' \<and> x = e \<and> hasClass ''fade'' p1 e)"
      "doc_tree p3 = doc_tree p" "node_name p3 = node_name p" for c x
    by (auto simp: p3_def Let_def p1)
  have "no_menus p3" using assms by (auto simp: no_menus_def p3 p1)
  then have tc: "transitionComplete e a cb s p = (case cb of None \<Rightarrow> p3 | Some v \<Rightarrow> tab_events s v p3)"
    by (simp only: transitionComplete_def Let_def p1_def [symmetric] p3_def [unfolded Let_def, symmetric] open_dropdown_flat)
  have h: "hasClass c (transitionComplete e a cb s p) x = hasClass c p3 x" for c x
    unfolding tc by (cases cb) simp_all
  show "hasClass ''active'' (transitionComplete e a cb s p) x = (x = e \<or> hasClass ''active'' p x \<and> a \<noteq> Some x)"
    unfolding h p3(1) p1(1) by auto
  show "hasClass ''fade'' (transitionComplete e a cb s p) x = hasClass ''fade'' p x"
    unfolding h p3(1) p1(1) by simp
  show "doc_tree (transitionComplete e a cb s p) = doc_tree p" "node_name (transitionComplete e a cb s p) = node_name p"
    unfolding tc by (cases cb; simp add: p3)+
  show "no_menus (transitionComplete e a cb s p)"
    using \<open>no_menus p3\<close> by (simp add: no_menus_def h)
qed







lemma tab_activate_fade:
  assumes "first (actives (tb_page w) c) = Some a" "hasClass ''fade'' (tb_page w) a"
  shows "tab_activate k e c (Some v) w =
     w\<lparr>tb_page := removeClass ''show'' a (tb_page w),
       tb_trans := await_end a (TabComplete k e (Some a) (Some v)) (tb_trans w)\<rparr>"
  using assms by (simp add: tab_activate_def)

text \<open>Nothing waits for the end of a transition of the element.\<close>

definition nothing_waits :: "eid \<Rightarrow> 'h transitions \<Rightarrow> bool" where
  "nothing_waits a tr \<longleftrightarrow> (\<forall>cb. (a, Callback cb) \<notin> set (end_handlers tr))"

lemma dispatch_nothing: "nothing_waits a tr \<Longrightarrow> snd (dispatch_end a tr) = []"
  using dispatch_runs [of _ a tr] by (fastforce simp: nothing_waits_def)















lemma no_menus_ops [simp]:
  "no_menus (fire ev e p) = no_menus p" "c \<noteq> ''dropdown-menu'' \<Longrightarrow> no_menus (removeClass c e p) = no_menus p"
  by (auto simp: no_menus_def)






text \<open>Three tabs in a list and three fading panes. The selector engine of the example knows ids only.\<close>

definition demo_tabs :: page where
  "demo_tabs = (bare_page (Node 0 [Node 1 [Node 2 [Node 3 []], Node 4 [Node 5 []], Node 10 [Node 11 []]], Node 6 [Node 7 [], Node 8 [], Node 9 []]]))
     \<lparr>node_name := (\<lambda>_. ''DIV'')(1 := ''UL'', 2 := ''LI'', 4 := ''LI'', 10 := ''LI'', 3 := ''A'', 5 := ''A'', 11 := ''A''),
      class_list := (\<lambda>_. [])(1 := [''nav''], 3 := [''active''], 7 := [''fade'', ''show'', ''active''], 8 := [''fade''], 9 := [''fade'']),
      attribute_of := (\<lambda>_ _. None)(5 := [''href'' \<mapsto> ''#two''], 8 := [''id'' \<mapsto> ''two''],
        11 := [''href'' \<mapsto> ''#three''], 9 := [''id'' \<mapsto> ''three''])\<rparr>"



text \<open>The condition on the old pane is needed. When a second click activates another pane while the old
  one still fades, two callbacks wait on the old pane. Both run when its transition ends, and each of
  them removes the active class from the old pane only: both new panes are active then.\<close>

theorem second_click_two_panes:
  assumes fade: "first (actives (tb_page w) d) = Some a" "hasClass ''fade'' (tb_page w) a" "nothing_waits a (tb_trans w)"
    and second: "no_menus p" "first (actives p d) = Some a" "hasClass ''fade'' p a" and t: "t \<noteq> a"
    and w2: "w2 = tab_activate j u d (Some x) ((tab_activate k t d (Some v) w)\<lparr>tb_page := p\<rparr>)"
  shows "hasClass ''active'' (tb_page (tab_transitionend a w2)) t \<and> hasClass ''active'' (tb_page (tab_transitionend a w2)) u"
proof -
  define q where "q = removeClass ''show'' a p"
  define tr where "tr = await_end a (TabComplete j u (Some a) (Some x)) (await_end a (TabComplete k t (Some a) (Some v)) (tb_trans w))"
  have eq: "w2 = w\<lparr>tb_page := q, tb_trans := tr\<rparr>"
    using tab_activate_fade [OF fade(1,2), of k t v]
      tab_activate_fade [of "(tab_activate k t d (Some v) w)\<lparr>tb_page := p\<rparr>" d a j u x] second
    by (simp add: w2 q_def tr_def)
  have run: "snd (dispatch_end a tr) = [TabComplete k t (Some a) (Some v), TabComplete j u (Some a) (Some x)]"
    using dispatch_nothing [OF fade(3)]
    by (simp add: tr_def dispatch_end_def await_end_def transitionEndEmulator_def Let_def List.map_filter_def)
  have nm: "no_menus q" using second(1) by (simp add: q_def)
  show ?thesis
    using run t by (cases "dispatch_end a tr")
      (simp add: tab_transitionend_def eq tab_callback_def transitionComplete_flat nm)
qed

theorem second_click_two_panes_witness:
  "let w1 = tab_activate 0 8 (Some 6) (Some None) (no_tabs demo_tabs); w2 = tab_activate 1 9 (Some 6) (Some None) w1
   in hasClass ''active'' (tb_page (tab_transitionend 7 w2)) 8 \<and> hasClass ''active'' (tb_page (tab_transitionend 7 w2)) 9"
proof -
  let ?p = "removeClass ''show'' 7 demo_tabs"
  have nm: "no_menus demo_tabs" by (simp add: no_menus_def hasClass_def demo_tabs_def)
  have a: "first (actives demo_tabs (Some 6)) = Some 7" "hasClass ''fade'' demo_tabs 7"
    "first (actives ?p (Some 6)) = Some 7" "hasClass ''fade'' ?p 7" by code_simp+
  have w: "tb_page (no_tabs demo_tabs) = demo_tabs" "nothing_waits a (tb_trans (no_tabs p))" for a p
    by (simp_all add: no_tabs_def nothing_waits_def)
  have w1: "(tab_activate 0 8 (Some 6) (Some None) (no_tabs demo_tabs))\<lparr>tb_page := ?p\<rparr>
      = tab_activate 0 8 (Some 6) (Some None) (no_tabs demo_tabs)"
    using tab_activate_fade [of "no_tabs demo_tabs" "Some 6" 7 0 8 None] a w by simp
  show ?thesis
    using second_click_two_panes [of "no_tabs demo_tabs" "Some 6" 7 ?p 8 _ 1 9 None 0 None, OF _ _ w(2) _ _ _ _ refl] a w nm w1
    by (simp add: Let_def)
qed

end
