(* ===== verification/Bs_ScrollSpy.thy ===== *)
theory Bs_ScrollSpy
  imports Bs_Util
begin

text \<open>
  The component \<^verbatim>\<open>ScrollSpy\<close> of \<^verbatim>\<open>bootstrap.js\<close>: it measures where the targets of the links of
  a navigation start and, on every scroll event, activates the links of the section in view. What the
  browser measures is the record \<open>view\<close>, the selector engine is the parameter \<open>query\<close>.
\<close>

section \<open>State and measures\<close>

text \<open>\<open>top_of\<close> is the \<^verbatim>\<open>top\<close> that jQuery's \<^verbatim>\<open>offset\<close> or \<^verbatim>\<open>position\<close> gives for an element,
  \<open>extent_of\<close> the width and height of its bounding rectangle.\<close>

record view =
  scroll_top :: jsnum
  scroll_height :: jsnum
  body_height :: jsnum
  document_height :: jsnum
  visible_height :: jsnum
  top_of :: "string \<Rightarrow> eid \<Rightarrow> jsnum"
  extent_of :: "eid \<Rightarrow> jsnum \<times> jsnum"

text \<open>The active target is \<^verbatim>\<open>null\<close>, \<^verbatim>\<open>undefined\<close> (the last entry of an empty array) or a
  selector. \<open>spy_activated\<close> lists the targets of the \<^verbatim>\<open>activate\<close> events fired so far.\<close>

datatype target = TNull | TUndefined | TSelector string

record spy =
  spy_page :: page
  spy_element :: "eid option"
  spy_window :: bool
  spy_offset :: jsnum
  spy_method :: string
  spy_selector :: string
  spy_offsets :: "jsnum list"
  spy_targets :: "string list"
  spy_active :: target
  spy_scrollHeight :: jsnum
  spy_activated :: "target list"
  spy_listening :: bool

definition spy_Default :: config where
  "spy_Default = [''offset'' \<mapsto> JNum (Some 10), ''method'' \<mapsto> JStr ''auto'', ''target'' \<mapsto> JStr '''']"

definition spy_DefaultType :: "(string \<times> string) list" where
  "spy_DefaultType = [(''offset'', ''number''), (''method'', ''string''), (''target'', ''(string|element)'')]"

definition getScrollTop :: "view \<Rightarrow> jsnum" where
  "getScrollTop v = scroll_top v"

text \<open>The window has no \<^verbatim>\<open>scrollHeight\<close>, which reads as \<^verbatim>\<open>undefined\<close>.\<close>

definition getScrollHeight :: "view \<Rightarrow> spy \<Rightarrow> jsnum" where
  "getScrollHeight v w =
     js_or (if spy_window w then None else scroll_height v) (js_max (body_height v) (document_height v))"

definition getOffsetHeight :: "view \<Rightarrow> jsnum" where
  "getOffsetHeight v = visible_height v"

definition query_all :: "query \<Rightarrow> page \<Rightarrow> string \<Rightarrow> bs_error + eid list" where
  "query_all query p s = (case query p s of None \<Rightarrow> Inl (BadSelector s) | Some es \<Rightarrow> Inr es)"

section \<open>Refresh\<close>

definition offset_method :: "spy \<Rightarrow> string" where
  "offset_method w = (if spy_method w = ''auto'' then if spy_window w then ''offset'' else ''position'' else spy_method w)"

definition section_of :: "query \<Rightarrow> view \<Rightarrow> spy \<Rightarrow> jsnum \<Rightarrow> eid \<Rightarrow> (jsnum \<times> string) option" where
  "section_of query v w offsetBase link =
     (case getSelectorFromElement query (spy_page w) link of
        None \<Rightarrow> None
      | Some s \<Rightarrow>
         (case querySelector query (spy_page w) s of
            None \<Rightarrow> None
          | Some t \<Rightarrow>
             if js_truthy (fst (extent_of v t)) \<or> js_truthy (snd (extent_of v t))
             then Some (top_of v (offset_method w) t + offsetBase, s) else None))"

definition spy_refresh :: "query \<Rightarrow> view \<Rightarrow> spy \<Rightarrow> bs_error + spy" where
  "spy_refresh query v w =
     (let offsetBase = (if offset_method w = ''position'' then getScrollTop v else Some 0);
          w1 = w\<lparr>spy_offsets := [], spy_targets := [], spy_scrollHeight := getScrollHeight v w\<rparr>
      in bindE (query_all query (spy_page w1) (spy_selector w1)) (\<lambda>links.
           let found = js_sort (\<lambda>a b. fst a - fst b) (List.map_filter (section_of query v w1 offsetBase) links)
           in Inr (w1\<lparr>spy_offsets := map fst found, spy_targets := map snd found\<rparr>)))"

section \<open>Activation\<close>

definition clear_links :: "eid list \<Rightarrow> page \<Rightarrow> page" where
  "clear_links links p = fold (removeClass ''active'') (filter (hasClass ''active'' p) links) p"

definition spy_clear :: "query \<Rightarrow> spy \<Rightarrow> bs_error + spy" where
  "spy_clear query w =
     bindE (query_all query (spy_page w) (spy_selector w)) (\<lambda>links.
       Inr (w\<lparr>spy_page := clear_links links (spy_page w)\<rparr>))"

definition target_text :: "target \<Rightarrow> string" where
  "target_text t = (case t of TNull \<Rightarrow> ''null'' | TUndefined \<Rightarrow> ''undefined'' | TSelector s \<Rightarrow> s)"

fun join :: "string \<Rightarrow> string list \<Rightarrow> string" where
  "join sep [] = []"
| "join sep [x] = x"
| "join sep (x # y # ys) = x @ sep @ join sep (y # ys)"

definition link_queries :: "string \<Rightarrow> target \<Rightarrow> string" where
  "link_queries selector t =
     join '','' (map (\<lambda>s. s @ ''[data-target=\"'' @ target_text t @ ''\"],'' @ s @ ''[href=\"'' @ target_text t @ ''\"]'')
                     (js_split CHR '','' selector))"

definition is_nav :: "page \<Rightarrow> eid \<Rightarrow> bool" where
  "is_nav p x = (hasClass ''nav'' p x \<or> hasClass ''list-group'' p x)"

definition select_option :: "('a \<Rightarrow> bool) \<Rightarrow> 'a option \<Rightarrow> 'a list" where
  "select_option P x = (case x of None \<Rightarrow> [] | Some a \<Rightarrow> if P a then [a] else [])"

text \<open>The links of the target become active; a link in a drop-down menu activates the toggle of the
  menu, another one the links just before the navigations it is nested in.\<close>

definition mark_links :: "eid list \<Rightarrow> page \<Rightarrow> page" where
  "mark_links links p =
     (if \<exists>l \<in> set links. hasClass ''dropdown-item'' p l
      then
       (let toggles = concat (map (\<lambda>l. case closest p (hasClass ''dropdown'' p) l of
                  None \<Rightarrow> [] | Some d \<Rightarrow> filter (hasClass ''dropdown-toggle'' p) (descendants p d)) links)
        in fold (addClass ''active'') links (fold (addClass ''active'') toggles p))
      else
       (let navs = concat (map (\<lambda>l. filter (is_nav p) (parents p l)) links);
            before_navs = concat (map (\<lambda>n. select_option (\<lambda>x. hasClass ''nav-link'' p x \<or> hasClass ''list-group-item'' p x) (prev p n)) navs);
            in_items = concat (map (\<lambda>n. concat (map (\<lambda>x. filter (hasClass ''nav-link'' p) (children p x))
                                              (select_option (hasClass ''nav-item'' p) (prev p n)))) navs)
        in fold (addClass ''active'') in_items (fold (addClass ''active'') before_navs (fold (addClass ''active'') links p))))"

definition spy_activate :: "query \<Rightarrow> target \<Rightarrow> spy \<Rightarrow> bs_error + spy" where
  "spy_activate query t w =
     bindE (spy_clear query (w\<lparr>spy_active := t\<rparr>)) (\<lambda>w1.
       bindE (query_all query (spy_page w1) (link_queries (spy_selector w1) t)) (\<lambda>links.
         Inr (w1\<lparr>spy_page := mark_links links (spy_page w1), spy_activated := spy_activated w1 @ [t]\<rparr>)))"

section \<open>Process\<close>

definition is_target :: "spy \<Rightarrow> jsnum \<Rightarrow> nat \<Rightarrow> bool" where
  "is_target w scrollTop i =
     (spy_active w \<noteq> TSelector (spy_targets w ! i)
      \<and> js_le (spy_offsets w ! i) scrollTop
      \<and> (Suc i < length (spy_offsets w) \<longrightarrow> js_lt scrollTop (spy_offsets w ! Suc i)))"

fun spy_loop :: "query \<Rightarrow> jsnum \<Rightarrow> nat \<Rightarrow> spy \<Rightarrow> bs_error + spy" where
  "spy_loop query scrollTop 0 w = Inr w"
| "spy_loop query scrollTop (Suc i) w =
     bindE (if is_target w scrollTop i then spy_activate query (TSelector (spy_targets w ! i)) w else Inr w)
       (spy_loop query scrollTop i)"

definition last_target :: "spy \<Rightarrow> target" where
  "last_target w = (if spy_targets w = [] then TUndefined else TSelector (last (spy_targets w)))"

definition target_truthy :: "target \<Rightarrow> bool" where
  "target_truthy t = (case t of TSelector s \<Rightarrow> s \<noteq> [] | _ \<Rightarrow> False)"

definition above_first :: "spy \<Rightarrow> jsnum \<Rightarrow> bool" where
  "above_first w scrollTop =
     (case spy_offsets w of [] \<Rightarrow> False | o1 # _ \<Rightarrow> js_lt scrollTop o1 \<and> js_lt (Some 0) o1)"

definition spy_process :: "query \<Rightarrow> view \<Rightarrow> spy \<Rightarrow> bs_error + spy" where
  "spy_process query v w =
     (let scrollTop = getScrollTop v + spy_offset w;
          scrollHeight = getScrollHeight v w;
          maxScroll = spy_offset w + scrollHeight - getOffsetHeight v
      in bindE (if spy_scrollHeight w \<noteq> scrollHeight \<or> scrollHeight = None then spy_refresh query v w else Inr w) (\<lambda>w1.
           if js_le maxScroll scrollTop
           then (if spy_active w1 \<noteq> last_target w1 then spy_activate query (last_target w1) w1 else Inr w1)
           else if target_truthy (spy_active w1) \<and> above_first w1 scrollTop
           then spy_clear query (w1\<lparr>spy_active := TNull\<rparr>)
           else spy_loop query scrollTop (length (spy_offsets w1)) w1))"

section \<open>Construction\<close>

text \<open>A target given as an element is turned into its id, which is made up from the draws when it has
  none. \<open>None\<close> in the second component means that the draws ended.\<close>

definition target_element :: "jsval \<Rightarrow> eid option" where
  "target_element v = (case v of JElement e \<Rightarrow> Some e | JQuery (e # _) \<Rightarrow> Some e | _ \<Rightarrow> None)"

definition spy_getConfig :: "(string \<Rightarrow> bool) \<Rightarrow> nat list \<Rightarrow> config option \<Rightarrow> page \<Rightarrow> bs_error + (page \<times> config) option" where
  "spy_getConfig taken draws config p =
     (let c = extends spy_Default (case config of None \<Rightarrow> Map.empty | Some o' \<Rightarrow> o');
          checked' = (\<lambda>q c'. bindE (typeCheckConfig c' spy_DefaultType) (\<lambda>_. Inr (Some (q, c'))))
      in case target_element (opt c ''target'') of
          None \<Rightarrow> checked' p c
        | Some e \<Rightarrow>
           (case attribute_of p e ''id'' of
              Some i \<Rightarrow>
                if i \<noteq> [] then checked' p (c(''target'' \<mapsto> JStr (''#'' @ i)))
                else (case getUID taken draws ''scrollspy'' of
                    None \<Rightarrow> Inr None
                  | Some u \<Rightarrow> checked' (setAttribute ''id'' u e p) (c(''target'' \<mapsto> JStr (''#'' @ u))))
            | None \<Rightarrow>
               (case getUID taken draws ''scrollspy'' of
                  None \<Rightarrow> Inr None
                | Some u \<Rightarrow> checked' (setAttribute ''id'' u e p) (c(''target'' \<mapsto> JStr (''#'' @ u))))))"

definition text_of :: "jsval \<Rightarrow> string" where
  "text_of v = (case v of JStr s \<Rightarrow> s | _ \<Rightarrow> [])"

definition num_of :: "jsval \<Rightarrow> jsnum" where
  "num_of v = (case v of JNum x \<Rightarrow> x | _ \<Rightarrow> None)"

definition spy_selector_of :: "string \<Rightarrow> string" where
  "spy_selector_of target =
     target @ '' .nav-link'' @ '','' @ target @ '' .list-group-item'' @ '','' @ target @ '' .dropdown-item''"

definition new_ScrollSpy ::
  "query \<Rightarrow> view \<Rightarrow> (string \<Rightarrow> bool) \<Rightarrow> nat list \<Rightarrow> page \<Rightarrow> eid \<Rightarrow> config option \<Rightarrow> bs_error + spy option" where
  "new_ScrollSpy query v taken draws p e config =
     bindE (spy_getConfig taken draws config p) (\<lambda>r.
       case r of
         None \<Rightarrow> Inr None
       | Some (q, c) \<Rightarrow>
          (let w = \<lparr>spy_page = q, spy_element = Some e, spy_window = (node_name p e = ''BODY''),
                    spy_offset = num_of (opt c ''offset''), spy_method = text_of (opt c ''method''),
                    spy_selector = spy_selector_of (text_of (opt c ''target'')), spy_offsets = [], spy_targets = [],
                    spy_active = TNull, spy_scrollHeight = Some 0, spy_activated = [], spy_listening = True\<rparr>
           in bindE (spy_refresh query v w) (\<lambda>w1. bindE (spy_process query v w1) (\<lambda>w2. Inr (Some w2)))))"

definition spy_dispose :: "spy \<Rightarrow> spy" where
  "spy_dispose w = w\<lparr>spy_element := None, spy_selector := [], spy_offsets := [], spy_targets := [],
     spy_active := TNull, spy_scrollHeight := None, spy_listening := False\<rparr>"

text \<open>The scroll event of the scroll element.\<close>

definition spy_scroll :: "query \<Rightarrow> view \<Rightarrow> spy \<Rightarrow> bs_error + spy" where
  "spy_scroll query v w = (if spy_listening w then spy_process query v w else Inr w)"

text \<open>\<^verbatim>\<open>$(element).scrollspy(config)\<close>; a method is called without arguments. The window's load event
  calls it with the data attributes of every element that asks for it.\<close>

datatype spy_arg = SpyConfig "config option" | SpyMethod string

definition spy_method_call :: "query \<Rightarrow> view \<Rightarrow> string \<Rightarrow> spy \<Rightarrow> bs_error + spy" where
  "spy_method_call query v m w =
     (if m = ''refresh'' then spy_refresh query v w
      else if m = ''dispose'' then Inr (spy_dispose w)
      else if m = ''_process'' then spy_process query v w
      else if m = ''_clear'' then spy_clear query w
      else if m = ''_activate'' then spy_activate query TUndefined w
      else if m \<in> {''_getConfig'', ''_getScrollTop'', ''_getScrollHeight'', ''_getOffsetHeight''} then Inr w
      else if m \<in> {''_element'', ''_scrollElement'', ''_config'', ''_selector'', ''_offsets'', ''_targets'', ''_activeTarget'', ''_scrollHeight''}
      then Inl (NotAFunction m)
      else Inl (NoMethod m))"

definition spy_jQueryInterface ::
  "query \<Rightarrow> view \<Rightarrow> (string \<Rightarrow> bool) \<Rightarrow> nat list \<Rightarrow> page \<Rightarrow> eid \<Rightarrow> spy_arg \<Rightarrow> spy option \<Rightarrow> bs_error + spy option" where
  "spy_jQueryInterface query v taken draws p e arg data =
     bindE (case data of
              Some w \<Rightarrow> Inr (Some w)
            | None \<Rightarrow> new_ScrollSpy query v taken draws p e (case arg of SpyConfig c \<Rightarrow> c | SpyMethod _ \<Rightarrow> None)) (\<lambda>r.
       case r of
         None \<Rightarrow> Inr None
       | Some w \<Rightarrow> (case arg of
             SpyConfig _ \<Rightarrow> Inr (Some w)
           | SpyMethod m \<Rightarrow> bindE (spy_method_call query v m w) (\<lambda>w'. Inr (Some w'))))"

section \<open>Lemmas\<close>

lemma query_all_Inr: "query_all query p s = Inr es \<longleftrightarrow> query p s = Some es"
  by (auto simp: query_all_def split: option.splits)

lemma spy_activate_frame:
  assumes "spy_activate query t w = Inr w'"
  shows "spy_offsets w' = spy_offsets w" "spy_targets w' = spy_targets w" "spy_active w' = t"
    "spy_activated w' = spy_activated w @ [t]"
  using assms by (auto simp: spy_activate_def spy_clear_def bindE_Inr_conv)

text \<open>An activation clears the links of the selector and marks the links of the target; it fails where
  the selector engine refuses one of the two texts.\<close>

lemma spy_activate_run:
  assumes "query (spy_page w) (spy_selector w) = Some links"
  shows "spy_activate query t w =
    (case query (clear_links links (spy_page w)) (link_queries (spy_selector w) t) of
       None \<Rightarrow> Inl (BadSelector (link_queries (spy_selector w) t))
     | Some ls \<Rightarrow> Inr (w\<lparr>spy_active := t, spy_page := mark_links ls (clear_links links (spy_page w)),
                          spy_activated := spy_activated w @ [t]\<rparr>))"
  using assms by (simp add: spy_activate_def spy_clear_def query_all_def split: option.split)

lemma clear_links_simps [simp]:
  "hasClass c (clear_links links p) x = (hasClass c p x \<and> \<not> (c = ''active'' \<and> x \<in> set links))"
  "doc_tree (clear_links links p) = doc_tree p"
  by (auto simp: clear_links_def)

text \<open>The elements that become active with the links: the toggles of the menus around them, if one
  of the links is a menu item, and otherwise the links before the navigations around them.\<close>

definition marked_with :: "eid list \<Rightarrow> page \<Rightarrow> eid \<Rightarrow> bool" where
  "marked_with ls p x \<longleftrightarrow>
     (if \<exists>l \<in> set ls. hasClass ''dropdown-item'' p l
      then \<exists>l \<in> set ls. case closest p (hasClass ''dropdown'' p) l of None \<Rightarrow> False
             | Some d \<Rightarrow> x \<in> set (descendants p d) \<and> hasClass ''dropdown-toggle'' p x
      else \<exists>l \<in> set ls. \<exists>n \<in> set (parents p l). (hasClass ''nav'' p n \<or> hasClass ''list-group'' p n) \<and>
         (case prev p n of None \<Rightarrow> False
          | Some y \<Rightarrow> y = x \<and> (hasClass ''nav-link'' p x \<or> hasClass ''list-group-item'' p x)
              \<or> hasClass ''nav-item'' p y \<and> x \<in> set (children p y) \<and> hasClass ''nav-link'' p x))"

lemma option_cases:
  "(case r of None \<Rightarrow> False | Some d \<Rightarrow> P d) \<longleftrightarrow> (\<exists>d. r = Some d \<and> P d)"
  "x \<in> set (case r of None \<Rightarrow> [] | Some d \<Rightarrow> f d) \<longleftrightarrow> (\<exists>d. r = Some d \<and> x \<in> set (f d))"
  by (cases r; simp)+

lemma marked_with_cong:
  assumes "doc_tree q = doc_tree p" "\<And>c. c \<noteq> ''active'' \<Longrightarrow> hasClass c q = hasClass c p"
  shows "marked_with ls q x = marked_with ls p x"
  by (simp add: marked_with_def option_cases assms(2) tree_cong [OF assms(1)])

lemma select_option_mem: "x \<in> set (select_option P y) \<longleftrightarrow> y = Some x \<and> P x"
  by (auto simp: select_option_def split: option.splits)

lemma bex_select_option: "(\<exists>x \<in> set (select_option P y). Q x) \<longleftrightarrow> (\<exists>x. y = Some x \<and> P x \<and> Q x)"
  by (auto simp: select_option_mem)

lemma mark_links_active:
  "hasClass ''active'' (mark_links ls p) x \<longleftrightarrow> hasClass ''active'' p x \<or> x \<in> set ls \<or> marked_with ls p x"
proof (cases "\<exists>l \<in> set ls. hasClass ''dropdown-item'' p l")
  case True
  then show ?thesis
    unfolding mark_links_def marked_with_def Let_def option_cases by (simp add: option_cases) metis
next
  case False
  then have "hasClass ''active'' (mark_links ls p) x \<longleftrightarrow> hasClass ''active'' p x \<or> x \<in> set ls
    \<or> (\<exists>l \<in> set ls. (\<exists>n \<in> set (parents p l). is_nav p n \<and> prev p n = Some x
          \<and> (hasClass ''nav-link'' p x \<or> hasClass ''list-group-item'' p x))
      \<or> (\<exists>n \<in> set (parents p l). is_nav p n \<and> (\<exists>y. prev p n = Some y \<and> hasClass ''nav-item'' p y
          \<and> x \<in> set (children p y) \<and> hasClass ''nav-link'' p x)))"
    unfolding mark_links_def Let_def by (simp add: select_option_mem bex_select_option) blast
  then show ?thesis using False unfolding marked_with_def option_cases is_nav_def by simp blast
qed

text \<open>The sections as \<^verbatim>\<open>refresh\<close> leaves them: as many targets as offsets, the offsets sorted.\<close>

definition sections_ok :: "spy \<Rightarrow> bool" where
  "sections_ok w \<longleftrightarrow> length (spy_targets w) = length (spy_offsets w) \<and> sorted_wrt js_le (spy_offsets w)
     \<and> None \<notin> set (spy_offsets w)"

text \<open>The scroll position is inside a section.\<close>

definition in_section :: "spy \<Rightarrow> jsnum \<Rightarrow> nat \<Rightarrow> bool" where
  "in_section w scrollTop i \<longleftrightarrow>
     i < length (spy_offsets w) \<and> js_le (spy_offsets w ! i) scrollTop
     \<and> (Suc i < length (spy_offsets w) \<longrightarrow> js_lt scrollTop (spy_offsets w ! Suc i))"

lemma offsets_mono:
  assumes "sections_ok w" "i \<le> j" "j < length (spy_offsets w)"
  obtains a b where "spy_offsets w ! i = Some a" "spy_offsets w ! j = Some b" "a \<le> b"
proof -
  have "spy_offsets w ! i \<in> set (spy_offsets w)" "spy_offsets w ! j \<in> set (spy_offsets w)"
    using assms(2,3) by simp_all
  then obtain a b where ab: "spy_offsets w ! i = Some a" "spy_offsets w ! j = Some b"
    using assms(1) unfolding sections_ok_def by (metis not_None_eq)
  have "a \<le> b"
  proof (cases "i = j")
    case False
    then have "js_le (spy_offsets w ! i) (spy_offsets w ! j)"
      using assms by (simp add: sections_ok_def sorted_wrt_nth_less)
    then show ?thesis using ab by simp
  qed (use ab in simp)
  then show ?thesis using that ab by blast
qed

lemma section_not_later:
  assumes "sections_ok w" "in_section w s i" "in_section w s j"
  shows "\<not> i < j"
proof
  assume "i < j"
  then obtain a b where ab: "spy_offsets w ! Suc i = Some a" "spy_offsets w ! j = Some b" "a \<le> b"
    using offsets_mono [OF assms(1), of "Suc i" j] assms(3) unfolding in_section_def by auto
  have "js_lt s (Some a)" "js_le (Some b) s"
    using assms(2,3) \<open>i < j\<close> ab(1,2) unfolding in_section_def by auto
  then show False using ab(3) by (cases s) auto
qed

lemma section_unique: "sections_ok w \<Longrightarrow> in_section w s i \<Longrightarrow> in_section w s j \<Longrightarrow> i = j"
  using section_not_later [of w s i j] section_not_later [of w s j i] by force

lemma is_target_section: "j < length (spy_offsets w) \<Longrightarrow>
    is_target w s j \<longleftrightarrow> spy_active w \<noteq> TSelector (spy_targets w ! j) \<and> in_section w s j"
  by (auto simp: is_target_def in_section_def)

lemma spy_loop_idle:
  assumes "sections_ok w" "in_section w s i" "n \<le> length (spy_offsets w)"
    and "n \<le> i \<or> spy_active w = TSelector (spy_targets w ! i)"
  shows "spy_loop query s n w = Inr w"
  using assms(3,4)
proof (induction n)
  case (Suc n)
  have "\<not> is_target w s n"
    using Suc.prems section_unique [OF assms(1,2), of n] by (auto simp: is_target_section)
  then show ?case using Suc by auto
qed simp

lemma spy_loop_activates:
  assumes "sections_ok w" "in_section w s i" "i < n" "n \<le> length (spy_offsets w)"
    and "spy_active w \<noteq> TSelector (spy_targets w ! i)"
  shows "spy_loop query s n w = spy_activate query (TSelector (spy_targets w ! i)) w"
  using assms(3,4)
proof (induction n)
  case (Suc n)
  show ?case
  proof (cases "n = i")
    case True
    then have t: "is_target w s n" using assms(2,5) Suc.prems by (simp add: is_target_section)
    show ?thesis
    proof (cases "spy_activate query (TSelector (spy_targets w ! i)) w")
      case (Inr w')
      note fr = spy_activate_frame [OF Inr]
      have "spy_loop query s n w' = Inr w'"
        by (rule spy_loop_idle [where i = i]) (use assms(1,2) Suc.prems True in \<open>simp_all add: sections_ok_def in_section_def fr\<close>)
      then show ?thesis using t True Inr by simp
    qed (use t True in simp)
  next
    case False
    then have "\<not> is_target w s n"
      using Suc.prems section_unique [OF assms(1,2), of n] by (auto simp: is_target_section)
    then show ?thesis using Suc False by simp
  qed
qed simp

lemma in_section_not_above:
  assumes "sections_ok w" "in_section w s i"
  shows "\<not> above_first w s"
proof
  assume ab: "above_first w s"
  obtain o1 os where o: "spy_offsets w = o1 # os" using ab by (cases "spy_offsets w") (auto simp: above_first_def)
  obtain a b where i: "spy_offsets w ! 0 = Some a" "spy_offsets w ! i = Some b" "a \<le> b"
    using offsets_mono [OF assms(1), of 0 i] assms(2) unfolding in_section_def by auto
  have "js_lt s (Some a)" "js_le (Some b) s"
    using ab i(1,2) assms(2) o unfolding above_first_def in_section_def by auto
  then show False using i(3) by (cases s) auto
qed

text \<open>C26. After a refresh, a scroll event with the scroll position in a section, or at the end of the
  page, changes nothing when the target of that section (at the end the last target) is active already.
  Otherwise it activates the target, with one \<^verbatim>\<open>activate\<close> event: every link of the component loses
  the active class, the links that refer to the target get it, and so do the toggles or the links they
  are nested under. It throws exactly when the selector engine refuses the query made from the text of
  that target, as it does for a target with a double quote.\<close>

theorem process_activates_section:
  assumes ok: "sections_ok w" "query (spy_page w) (spy_selector w) = Some links"
    and h: "spy_scrollHeight w = getScrollHeight v w" "getScrollHeight v w \<noteq> None"
    and s: "scrollTop = getScrollTop v + spy_offset w" "maxScroll = spy_offset w + getScrollHeight v w - getOffsetHeight v"
    and i: "in_section w scrollTop i"
    and t: "t = (if js_le maxScroll scrollTop then last_target w else TSelector (spy_targets w ! i))"
  shows "if spy_active w = t then spy_process query v w = Inr w
    else case query (clear_links links (spy_page w)) (link_queries (spy_selector w) t) of
        None \<Rightarrow> spy_process query v w = Inl (BadSelector (link_queries (spy_selector w) t))
      | Some ls \<Rightarrow> \<exists>w'. spy_process query v w = Inr w' \<and> spy_active w' = t \<and> spy_activated w' = spy_activated w @ [t]
          \<and> (\<forall>x. hasClass ''active'' (spy_page w') x \<longleftrightarrow>
               x \<in> set ls \<or> marked_with ls (spy_page w) x \<or> hasClass ''active'' (spy_page w) x \<and> x \<notin> set links)"
proof -
  have n: "i < length (spy_offsets w)" using i by (simp add: in_section_def)
  have run: "spy_process query v w = (if spy_active w = t then Inr w else spy_activate query t w)"
  proof (cases "js_le maxScroll scrollTop")
    case True
    then show ?thesis using h by (simp add: spy_process_def Let_def s [symmetric] t del: not_None_eq)
  next
    case False
    then have "spy_process query v w = spy_loop query scrollTop (length (spy_offsets w)) w"
      using h in_section_not_above [OF ok(1) i] by (simp add: spy_process_def Let_def s [symmetric] del: not_None_eq)
    also have "\<dots> = (if spy_active w = t then Inr w else spy_activate query t w)"
      using spy_loop_idle [OF ok(1) i order_refl] spy_loop_activates [OF ok(1) i n order_refl] False by (simp add: t)
    finally show ?thesis .
  qed
  have marked: "marked_with ls (clear_links links p) x = marked_with ls p x" for ls p x
    by (rule marked_with_cong) (simp_all add: fun_eq_iff)
  show ?thesis
    unfolding run spy_activate_run [where query = query and w = w and links = links, OF ok(2)]
    by (auto simp: mark_links_active marked split: option.split)
qed

text \<open>A page with two sections, scrolled into the first one: its link, in a navigation below another
  link, is activated together with that link, and the link of the second section is no longer active.\<close>

definition demo_view :: view where
  "demo_view = \<lparr>scroll_top = Some 50, scroll_height = Some 1000, body_height = Some 0, document_height = Some 0,
     visible_height = Some 300, top_of = (\<lambda>m e. Some (100 * of_nat e)), extent_of = (\<lambda>_. (Some 10, Some 10))\<rparr>"

definition demo_nav :: page where
  "demo_nav = (bare_page (Node 0 [Node 1 [], Node 2 [Node 3 [], Node 4 []]]))
     \<lparr>class_list := (\<lambda>_. [])(1 := [''nav-link''], 2 := [''nav''], 3 := [''nav-link''], 4 := [''nav-link'', ''active''])\<rparr>"

definition demo_spy :: spy where
  "demo_spy = \<lparr>spy_page = demo_nav, spy_element = Some 0, spy_window = False, spy_offset = Some 10,
     spy_method = ''auto'', spy_selector = ''#nav .nav-link'', spy_offsets = [Some 0, Some 100],
     spy_targets = [''#a'', ''#b''], spy_active = TSelector ''#b'', spy_scrollHeight = Some 1000, spy_activated = [], spy_listening = True\<rparr>"

text \<open>The engine of the example finds the link of \<^verbatim>\<open>#a\<close> and refuses texts with a quoted quote.\<close>

definition nav_query :: query where
  "nav_query p s =
     (if s = ''#nav .nav-link'' then Some [1, 3, 4]
      else if js_contains s ''=\"[id=\"'' then None else Some [3])"

theorem process_activates_section_witness:
  "\<exists>w'. spy_process nav_query demo_view demo_spy = Inr w' \<and> spy_active w' = TSelector ''#a''
     \<and> spy_activated w' = [TSelector ''#a''] \<and> hasClass ''active'' (spy_page w') 3
     \<and> hasClass ''active'' (spy_page w') 1 \<and> \<not> hasClass ''active'' (spy_page w') 4"
proof -
  have q: "nav_query p ''#nav .nav-link'' = Some [1, 3, 4]" for p by (simp add: nav_query_def)
  have q2: "nav_query p (link_queries ''#nav .nav-link'' (TSelector ''#a'')) = Some [3]" for p
    unfolding nav_query_def by code_simp
  have m: "marked_with [3] demo_nav 1" "\<not> marked_with [3] demo_nav 4" by code_simp+
  have w: "spy_selector demo_spy = ''#nav .nav-link''" "spy_active demo_spy \<noteq> TSelector ''#a''" "spy_page demo_spy = demo_nav"
    "spy_activated demo_spy = []"
    by (simp_all add: demo_spy_def)
  have h: "sections_ok demo_spy" "in_section demo_spy (Some 60) 0" "spy_scrollHeight demo_spy = getScrollHeight demo_view demo_spy"
    "getScrollHeight demo_view demo_spy \<noteq> None" "Some 60 = getScrollTop demo_view + spy_offset demo_spy"
    "Some 710 = spy_offset demo_spy + getScrollHeight demo_view demo_spy - getOffsetHeight demo_view"
    "TSelector ''#a'' = (if js_le (Some 710) (Some 60) then last_target demo_spy else TSelector (spy_targets demo_spy ! 0))"
    by (simp_all add: demo_spy_def demo_view_def sections_ok_def in_section_def getScrollHeight_def getScrollTop_def getOffsetHeight_def)
  have "nav_query (spy_page demo_spy) (spy_selector demo_spy) = Some [1, 3, 4]" by (simp only: w q)
  from process_activates_section [where query = nav_query and v = demo_view and w = demo_spy, OF h(1) this h(3,4,5,6,2,7)]
  obtain w' where run: "spy_process nav_query demo_view demo_spy = Inr w'" "spy_active w' = TSelector ''#a''" "spy_activated w' = [TSelector ''#a'']"
    and act: "\<And>x. hasClass ''active'' (spy_page w') x \<longleftrightarrow>
       x \<in> set [3] \<or> marked_with [3] demo_nav x \<or> hasClass ''active'' demo_nav x \<and> x \<notin> set [1, 3, 4]"
    unfolding w(1,3,4) q2 if_not_P [OF w(2)] option.case by auto
  show ?thesis using run act [of 3] act [of 1] act [of 4] m by simp
qed

lemma quoted_target_throws:
  "case spy_process nav_query demo_view (demo_spy\<lparr>spy_targets := [''[id=\"a\"]'', ''#b'']\<rparr>) of
     Inl err \<Rightarrow> err = BadSelector (link_queries ''#nav .nav-link'' (TSelector ''[id=\"a\"]'')) | Inr w' \<Rightarrow> False"
  by code_simp

lemma js_le_cmp: "cmp_le (\<lambda>a b. fst a - fst b) x y \<Longrightarrow> fst x \<noteq> None \<Longrightarrow> fst y \<noteq> None \<Longrightarrow> js_le (fst x) (fst y)"
  by (auto simp: cmp_le_def js_pos_minus)

lemma sorted_offsets:
  assumes "\<forall>x \<in> set xs. fst x \<noteq> None"
  shows "sorted_wrt js_le (map fst (js_sort (\<lambda>a b. fst a - fst b) xs))"
proof -
  have "sorted_wrt (cmp_le (\<lambda>a b. fst a - fst b)) (js_sort (\<lambda>a b. fst a - fst b) xs)"
    by (rule comparator_on.sorted_js_sort [OF comparator_key]) (use assms in auto)
  then show ?thesis
    unfolding sorted_wrt_map by (rule sorted_wrt_mono_rel [rotated]) (use assms in \<open>simp add: js_le_cmp\<close>)
qed

text \<open>\<^verbatim>\<open>refresh\<close> records the offset and the selector of every link whose target exists and has an
  extent, and nothing else, in the order of the offsets.\<close>

theorem refresh_measures_sections:
  assumes links: "query (spy_page w) (spy_selector w) = Some links"
    and nums: "\<And>m e. top_of v m e \<noteq> None" "scroll_top v \<noteq> None"
    and base: "base = (if offset_method w = ''position'' then scroll_top v else Some 0)"
  shows "\<exists>w'. spy_refresh query v w = Inr w' \<and> sections_ok w' \<and> spy_scrollHeight w' = getScrollHeight v w
    \<and> mset (zip (spy_offsets w') (spy_targets w')) = mset (List.map_filter (section_of query v w base) links)"
proof -
  define xs where "xs = List.map_filter (section_of query v w base) links"
  define found where "found = js_sort (\<lambda>a b. fst a - fst b) xs"
  have same: "section_of query v (w\<lparr>spy_offsets := [], spy_targets := [], spy_scrollHeight := h\<rparr>) b = section_of query v w b" for h b
    by (simp add: fun_eq_iff section_of_def offset_method_def split: option.splits)
  have num: "fst x \<noteq> None" if x: "x \<in> set xs" for x
  proof -
    obtain l where "section_of query v w base l = Some x"
      using x by (auto simp: xs_def set_map_filter_iff)
    then obtain t where "fst x = top_of v (offset_method w) t + base"
      by (auto simp: section_of_def split: option.splits if_splits)
    then show ?thesis using nums(1) [of "offset_method w" t] nums(2) by (auto simp: base)
  qed
  have "spy_refresh query v w = Inr (w\<lparr>spy_offsets := map fst found, spy_targets := map snd found,
      spy_scrollHeight := getScrollHeight v w\<rparr>)"
    using links by (simp add: spy_refresh_def Let_def query_all_def same found_def xs_def base getScrollTop_def)
  moreover have "None \<notin> set (map fst found)"
    by (auto simp: found_def simp del: not_None_eq dest!: num)
  ultimately show ?thesis
    using sorted_offsets [of xs] num
    by (simp add: sections_ok_def found_def xs_def zip_map_fst_snd)
qed

text \<open>Two links to the second and the first element; the sections are recorded in the order of the page.\<close>

definition demo_links :: page where
  "demo_links = (bare_page (Node 0 [Node 1 [], Node 2 [], Node 3 [], Node 4 []]))
     \<lparr>attribute_of := (\<lambda>_ _. None)(3 := [''href'' \<mapsto> ''#b''], 4 := [''href'' \<mapsto> ''#a''])\<rparr>"

definition demo_query :: query where
  "demo_query p s = Some (if s = ''#a'' then [1] else if s = ''#b'' then [2] else [3, 4])"

theorem refresh_measures_sections_witness:
  "\<exists>w'. spy_refresh demo_query demo_view (demo_spy\<lparr>spy_page := demo_links\<rparr>) = Inr w' \<and> sections_ok w'
     \<and> mset (zip (spy_offsets w') (spy_targets w')) = {#(Some 250, ''#b''), (Some 150, ''#a'')#}"
proof -
  let ?w = "demo_spy\<lparr>spy_page := demo_links\<rparr>"
  have f: "List.map_filter (section_of demo_query demo_view ?w (Some 50)) [3, 4] = [(Some 250, ''#b''), (Some 150, ''#a'')]"
    and q: "demo_query (spy_page ?w) (spy_selector ?w) = Some [3, 4]" and m: "offset_method ?w = ''position''" by code_simp+
  have "\<exists>w'. spy_refresh demo_query demo_view ?w = Inr w' \<and> sections_ok w' \<and> spy_scrollHeight w' = getScrollHeight demo_view ?w
      \<and> mset (zip (spy_offsets w') (spy_targets w')) = mset (List.map_filter (section_of demo_query demo_view ?w (Some 50)) [3, 4])"
    by (rule refresh_measures_sections) (simp_all only: q m, simp_all add: demo_view_def)
  then show ?thesis unfolding f by auto
qed

end
