(* ===== verification/Bs_Carousel.thy ===== *)
theory Bs_Carousel
  imports Bs_Util
begin

text \<open>
  The component \<^verbatim>\<open>Carousel\<close> of \<^verbatim>\<open>bootstrap.js\<close>: a list of items of which one is active, moved
  by calls, keys, swipes, clicks and an interval timer, with or without a sliding transition. The state is
  the instance with its page, the callbacks of transitions, the timers, and the calls of \<^verbatim>\<open>to\<close> that
  wait for the event \<^verbatim>\<open>slid\<close>. What the browser says about visibility is the record \<open>browser_view\<close>.
\<close>

section \<open>State\<close>

text \<open>The event \<^verbatim>\<open>slid\<close>: the new item, the direction, the old and the new index.\<close>

type_synonym slid_event = "eid \<times> string \<times> int \<times> int"

text \<open>The callback of a slide: new and old item, the directional and the order class.\<close>

datatype slide_cb = SlideDone eid eid string string slid_event

datatype carousel_timer = TInterval | TSlid slid_event | TTouch

text \<open>The argument of \<^verbatim>\<open>to\<close> is a number, or the text of an attribute.\<close>

datatype slide_index = AtNumber jsnum | AtText string

record browser_view =
  page_visible :: "page \<Rightarrow> eid \<Rightarrow> bool"
  has_visibility :: bool
  has_touch :: bool
  has_pointer :: bool

record carousel =
  c_page :: page
  c_element :: "eid option"
  c_config :: config
  c_items :: "eid list"
  c_interval :: "nat option"
  c_active :: "eid option"
  c_isPaused :: bool
  c_isSliding :: bool
  c_touchTimeout :: "nat option"
  c_touchStartX :: rat
  c_touchDeltaX :: rat
  c_indicators :: "eid option"
  c_touchSupported :: bool
  c_pointerEvent :: bool
  c_trans :: "slide_cb transitions"
  c_timers :: "(nat \<times> carousel_timer) list"
  c_next :: nat
  c_on_slid :: "slide_index list"
  c_slid_count :: nat
  c_listeners :: "string list"

definition carousel_Default :: config where
  "carousel_Default = [''interval'' \<mapsto> JNum (Some 5000), ''keyboard'' \<mapsto> JBool True, ''slide'' \<mapsto> JBool False,
     ''pause'' \<mapsto> JStr ''hover'', ''wrap'' \<mapsto> JBool True, ''touch'' \<mapsto> JBool True]"

definition carousel_DefaultType :: "(string \<times> string) list" where
  "carousel_DefaultType = [(''interval'', ''(number|boolean)''), (''keyboard'', ''boolean''),
     (''slide'', ''(boolean|string)''), (''pause'', ''(string|boolean)''), (''wrap'', ''boolean''), (''touch'', ''boolean'')]"

definition carousel_getConfig :: "config \<Rightarrow> bs_error + config" where
  "carousel_getConfig config =
     (let c = extends carousel_Default config
      in bindE (typeCheckConfig c carousel_DefaultType) (\<lambda>_. Inr c))"

abbreviation c_opt :: "carousel \<Rightarrow> string \<Rightarrow> jsval" where
  "c_opt w k \<equiv> opt (c_config w) k"

section \<open>Items\<close>

definition is_item :: "page \<Rightarrow> eid \<Rightarrow> bool" where
  "is_item p x = hasClass ''carousel-item'' p x"

definition items_around :: "page \<Rightarrow> eid option \<Rightarrow> eid list" where
  "items_around p el =
     (case el of
        None \<Rightarrow> []
      | Some x \<Rightarrow> (case parentNode p x of None \<Rightarrow> [] | Some a \<Rightarrow> filter (is_item p) (descendants p a)))"

fun indexOf :: "'a list \<Rightarrow> 'a \<Rightarrow> int" where
  "indexOf [] y = -1"
| "indexOf (x # xs) y = (if x = y then 0 else let i = indexOf xs y in if i = -1 then -1 else i + 1)"

definition getItemIndex :: "eid option \<Rightarrow> carousel \<Rightarrow> int \<times> carousel" where
  "getItemIndex el w =
     (let xs = items_around (c_page w) el
      in ((case el of None \<Rightarrow> -1 | Some x \<Rightarrow> indexOf xs x), w\<lparr>c_items := xs\<rparr>))"

definition active_item :: "page \<Rightarrow> eid \<Rightarrow> eid option" where
  "active_item p e = find (\<lambda>x. hasClass ''active'' p x \<and> is_item p x) (descendants p e)"

definition elem_at :: "'a list \<Rightarrow> int \<Rightarrow> 'a option" where
  "elem_at xs i = (if 0 \<le> i \<and> i < int (length xs) then Some (xs ! nat i) else None)"

text \<open>The remainder of JavaScript has the sign of its left operand; by zero it is \<^verbatim>\<open>NaN\<close>.\<close>

definition js_rem :: "int \<Rightarrow> int \<Rightarrow> int option" where
  "js_rem a b = (if b = 0 then None else Some (sgn a * (\<bar>a\<bar> mod \<bar>b\<bar>)))"

definition getItemByDirection :: "string \<Rightarrow> eid \<Rightarrow> carousel \<Rightarrow> eid option \<times> carousel" where
  "getItemByDirection direction activeElement w =
     (let (activeIndex, w1) = getItemIndex (Some activeElement) w;
          lastItemIndex = int (length (c_items w1)) - 1;
          isGoingToWrap = (direction = ''prev'' \<and> activeIndex = 0 \<or> direction = ''next'' \<and> activeIndex = lastItemIndex)
      in if isGoingToWrap \<and> \<not> truthy (c_opt w1 ''wrap'') then (Some activeElement, w1)
         else
          (case js_rem (activeIndex + (if direction = ''prev'' then -1 else 1)) (int (length (c_items w1))) of
             None \<Rightarrow> (None, w1)
           | Some itemIndex \<Rightarrow>
               ((if itemIndex = -1 then elem_at (c_items w1) lastItemIndex else elem_at (c_items w1) itemIndex), w1)))"

definition triggerSlideEvent :: "prevents \<Rightarrow> eid \<Rightarrow> eid option \<Rightarrow> carousel \<Rightarrow> bool \<times> carousel" where
  "triggerSlideEvent prevents e relatedTarget w =
     (let w1 = snd (getItemIndex relatedTarget w);
          w2 = snd (getItemIndex (active_item (c_page w1) e) w1);
          p = fire ''slide.bs.carousel'' e (c_page w2)
      in (prevents ''slide.bs.carousel'' e p, w2\<lparr>c_page := p\<rparr>))"

definition setActiveIndicatorElement :: "eid \<Rightarrow> carousel \<Rightarrow> carousel" where
  "setActiveIndicatorElement el w =
     (case c_indicators w of
        None \<Rightarrow> w
      | Some d \<Rightarrow>
         (let p1 = fold (removeClass ''active'') (filter (hasClass ''active'' (c_page w)) (descendants (c_page w) d)) (c_page w);
              (i, w1) = getItemIndex (Some el) (w\<lparr>c_page := p1\<rparr>)
          in case elem_at (children p1 d) i of
              None \<Rightarrow> w1
            | Some x \<Rightarrow> w1\<lparr>c_page := addClass ''active'' x p1\<rparr>))"

section \<open>Timers\<close>

definition set_timer :: "carousel_timer \<Rightarrow> carousel \<Rightarrow> nat \<times> carousel" where
  "set_timer t w = (c_next w, w\<lparr>c_timers := c_timers w @ [(c_next w, t)], c_next := Suc (c_next w)\<rparr>)"

definition clear_timer :: "nat option \<Rightarrow> carousel \<Rightarrow> carousel" where
  "clear_timer i w = (case i of None \<Rightarrow> w | Some k \<Rightarrow> w\<lparr>c_timers := filter (\<lambda>t. fst t \<noteq> k) (c_timers w)\<rparr>)"

text \<open>What happens at the end of a slide; the event \<^verbatim>\<open>slid\<close> follows from a timer.\<close>

definition slide_done :: "slide_cb \<Rightarrow> carousel \<Rightarrow> carousel" where
  "slide_done cb w =
     (case cb of SlideDone nxt act directional orderName ev \<Rightarrow>
       (let p1 = addClass ''active'' nxt (removeClass orderName nxt (removeClass directional nxt (c_page w)));
            p2 = removeClass directional act (removeClass orderName act (removeClass ''active'' act p1))
        in snd (set_timer (TSlid ev) (w\<lparr>c_page := p2, c_isSliding := False\<rparr>))))"

definition carousel_transitionend :: "eid \<Rightarrow> carousel \<Rightarrow> carousel" where
  "carousel_transitionend x w =
     (case dispatch_end x (c_trans w) of (tr, cbs) \<Rightarrow> fold slide_done cbs (w\<lparr>c_trans := tr\<rparr>))"

definition carousel_emulator :: "nat \<Rightarrow> carousel \<Rightarrow> carousel" where
  "carousel_emulator k w =
     (case emulator_timeout k (c_trans w) of (tr, cbs) \<Rightarrow> fold slide_done cbs (w\<lparr>c_trans := tr\<rparr>))"

text \<open>\<^verbatim>\<open>cycle(event)\<close> and \<^verbatim>\<open>pause(event)\<close>: the flag tells whether they were given an event.\<close>

definition cycle :: "bool \<Rightarrow> carousel \<Rightarrow> carousel" where
  "cycle event w =
     (let w1 = (if event then w else w\<lparr>c_isPaused := False\<rparr>);
          w2 = (if c_interval w1 \<noteq> None then (clear_timer (c_interval w1) w1)\<lparr>c_interval := None\<rparr> else w1)
      in if truthy (c_opt w2 ''interval'') \<and> \<not> c_isPaused w2
         then (let (i, w3) = set_timer TInterval w2 in w3\<lparr>c_interval := Some i\<rparr>)
         else w2)"

definition pause :: "bool \<Rightarrow> eid \<Rightarrow> carousel \<Rightarrow> carousel" where
  "pause event e w =
     (let w1 = (if event then w else w\<lparr>c_isPaused := True\<rparr>);
          w2 = (if \<exists>x \<in> set (descendants (c_page w1) e).
                     hasClass ''carousel-item-next'' (c_page w1) x \<or> hasClass ''carousel-item-prev'' (c_page w1) x
                then cycle True (carousel_transitionend e w1) else w1)
      in (clear_timer (c_interval w2) w2)\<lparr>c_interval := None\<rparr>)"

section \<open>Sliding\<close>

text \<open>The interval of the next slide is that of the item, when it has one; the configured one is kept.\<close>

definition item_interval :: "eid \<Rightarrow> carousel \<Rightarrow> carousel" where
  "item_interval nxt w =
     (let n = (case attribute_of (c_page w) nxt ''data-interval'' of None \<Rightarrow> None | Some s \<Rightarrow> parse_int s);
          def = c_opt w ''defaultInterval'';
          interval = c_opt w ''interval''
      in case n of
          Some i \<Rightarrow>
            if i \<noteq> 0
            then w\<lparr>c_config := (c_config w)(''defaultInterval'' \<mapsto> (if truthy def then def else interval),
                                           ''interval'' \<mapsto> JNum (Some (of_int i)))\<rparr>
            else w\<lparr>c_config := (c_config w)(''interval'' \<mapsto> (if truthy def then def else interval))\<rparr>
        | None \<Rightarrow> w\<lparr>c_config := (c_config w)(''interval'' \<mapsto> (if truthy def then def else interval))\<rparr>)"

text \<open>The part of \<^verbatim>\<open>_slide\<close> after its guards; \<open>slid\<close> fires the event \<^verbatim>\<open>slid\<close> at once when there is
  no transition.\<close>

definition slide_to ::
  "(carousel \<Rightarrow> bs_error + carousel) \<Rightarrow> bool \<Rightarrow> eid \<Rightarrow> eid \<Rightarrow> eid \<Rightarrow> slid_event \<Rightarrow> carousel \<Rightarrow> bs_error + carousel" where
  "slide_to slid isNext e act nxt ev w =
     (let directional = (if isNext then ''carousel-item-left'' else ''carousel-item-right'');
          orderName = (if isNext then ''carousel-item-next'' else ''carousel-item-prev'');
          isCycling = (c_interval w \<noteq> None);
          w1 = w\<lparr>c_isSliding := True\<rparr>;
          w2 = (if isCycling then pause False e w1 else w1);
          w3 = setActiveIndicatorElement nxt w2;
          w4 = (if hasClass ''slide'' (c_page w3) e
                then
                 (let p1 = addClass directional nxt (addClass directional act (addClass orderName nxt (c_page w3)));
                      w5 = item_interval nxt (w3\<lparr>c_page := p1\<rparr>)
                  in Inr (w5\<lparr>c_trans := await_end act (SlideDone nxt act directional orderName ev) (c_trans w5)\<rparr>))
                else
                 (let p1 = addClass ''active'' nxt (removeClass ''active'' act (c_page w3))
                  in slid (w3\<lparr>c_page := p1, c_isSliding := False\<rparr>)))
      in bindE w4 (\<lambda>w'. Inr (if isCycling then cycle False w' else w')))"

definition slide ::
  "prevents \<Rightarrow> (carousel \<Rightarrow> bs_error + carousel) \<Rightarrow> string \<Rightarrow> eid option \<Rightarrow> carousel \<Rightarrow> bs_error + carousel" where
  "slide prevents slid direction element w =
     (case c_element w of
        None \<Rightarrow> Inl NullReference
      | Some e \<Rightarrow>
         (let isNext = (direction = ''next'');
              activeElement = active_item (c_page w) e;
              (activeElementIndex, w1) = getItemIndex activeElement w;
              (nextElement, w2) = (case element of
                  Some x \<Rightarrow> (Some x, w1)
                | None \<Rightarrow> (case activeElement of
                      None \<Rightarrow> (None, w1)
                    | Some a \<Rightarrow> getItemByDirection direction a w1));
              (nextElementIndex, w3) = getItemIndex nextElement w2;
              eventDirectionName = (if isNext then ''left'' else ''right'')
          in if (case nextElement of None \<Rightarrow> False | Some n \<Rightarrow> hasClass ''active'' (c_page w3) n)
             then Inr (w3\<lparr>c_isSliding := False\<rparr>)
             else
              (let (prevented, w4) = triggerSlideEvent prevents e nextElement w3
               in if prevented then Inr w4
                  else case (activeElement, nextElement) of
                      (Some a, Some n) \<Rightarrow>
                        slide_to slid isNext e a n (n, eventDirectionName, activeElementIndex, nextElementIndex) w4
                    | _ \<Rightarrow> Inr w4)))"

text \<open>A slide in one of the two directions.\<close>

definition slide_towards ::
  "prevents \<Rightarrow> (carousel \<Rightarrow> bs_error + carousel) \<Rightarrow> bool \<Rightarrow> eid option \<Rightarrow> carousel \<Rightarrow> bs_error + carousel" where
  "slide_towards prevents slid isNext = slide prevents slid (if isNext then ''next'' else ''prev'')"

definition index_value :: "slide_index \<Rightarrow> jsnum" where
  "index_value i = (case i of AtNumber x \<Rightarrow> x | AtText s \<Rightarrow> js_number s)"

definition index_is :: "int \<Rightarrow> slide_index \<Rightarrow> bool" where
  "index_is n i = (case i of AtNumber x \<Rightarrow> x = Some (of_int n) | AtText _ \<Rightarrow> False)"

definition item_at :: "'a list \<Rightarrow> slide_index \<Rightarrow> 'a option" where
  "item_at xs i =
     (case i of
        AtNumber (Some x) \<Rightarrow> if of_int \<lfloor>x\<rfloor> = x then elem_at xs \<lfloor>x\<rfloor> else None
      | AtNumber None \<Rightarrow> None
      | AtText s \<Rightarrow> (case filter (\<lambda>k. show_nat k = s) [0..<length xs] of [] \<Rightarrow> None | k # _ \<Rightarrow> Some (xs ! k)))"

definition slide_index_call ::
  "prevents \<Rightarrow> (carousel \<Rightarrow> bs_error + carousel) \<Rightarrow> slide_index \<Rightarrow> carousel \<Rightarrow> bs_error + carousel" where
  "slide_index_call prevents slid index w =
     (case c_element w of
        None \<Rightarrow> Inl NullReference
      | Some e \<Rightarrow>
         (let w1 = w\<lparr>c_active := active_item (c_page w) e\<rparr>;
              (activeIndex, w2) = getItemIndex (c_active w1) w1;
              i = index_value index
          in if js_lt (Some (of_int (int (length (c_items w2)) - 1))) i \<or> js_lt i (Some 0) then Inr w2
             else if c_isSliding w2 then Inr (w2\<lparr>c_on_slid := c_on_slid w2 @ [index]\<rparr>)
             else if index_is activeIndex index then Inr (cycle False (pause False e w2))
             else slide_towards prevents slid (js_lt (Some (of_int activeIndex)) i) (item_at (c_items w2) index) w2))"

text \<open>The event \<^verbatim>\<open>slid\<close> runs the calls of \<^verbatim>\<open>to\<close> that wait for it. They are bound for one event, so
  each is unbound before it runs; one that slides without a transition fires the event again, for the
  calls that are left. The first argument bounds how often that happens.\<close>

fun fire_slid :: "prevents \<Rightarrow> nat \<Rightarrow> carousel \<Rightarrow> bs_error + carousel"
  and run_slid :: "prevents \<Rightarrow> nat \<Rightarrow> slide_index list \<Rightarrow> carousel \<Rightarrow> bs_error + carousel" where
  "fire_slid prevents n w = run_slid prevents n (c_on_slid w) (w\<lparr>c_slid_count := Suc (c_slid_count w)\<rparr>)"
| "run_slid prevents n [] w = Inr w"
| "run_slid prevents 0 (i # idxs) w = Inl OutOfFuel"
| "run_slid prevents (Suc n) (i # idxs) w =
     bindE (slide_index_call prevents (fire_slid prevents n) i (w\<lparr>c_on_slid := remove1 i (c_on_slid w)\<rparr>))
       (run_slid prevents (Suc n) idxs)"

definition slid :: "prevents \<Rightarrow> carousel \<Rightarrow> bs_error + carousel" where
  "slid prevents w = fire_slid prevents (Suc (length (c_on_slid w))) w"

section \<open>Public operations\<close>

definition carousel_next :: "prevents \<Rightarrow> carousel \<Rightarrow> bs_error + carousel" where
  "carousel_next prevents w = (if c_isSliding w then Inr w else slide_towards prevents (slid prevents) True None w)"

definition carousel_prev :: "prevents \<Rightarrow> carousel \<Rightarrow> bs_error + carousel" where
  "carousel_prev prevents w = (if c_isSliding w then Inr w else slide_towards prevents (slid prevents) False None w)"

definition nextWhenVisible :: "browser_view \<Rightarrow> prevents \<Rightarrow> carousel \<Rightarrow> bs_error + carousel" where
  "nextWhenVisible V prevents w =
     (case c_element w of
        None \<Rightarrow> Inr w
      | Some e \<Rightarrow> if page_visible V (c_page w) e then carousel_next prevents w else Inr w)"

definition carousel_to :: "prevents \<Rightarrow> slide_index \<Rightarrow> carousel \<Rightarrow> bs_error + carousel" where
  "carousel_to prevents = slide_index_call prevents (slid prevents)"

definition carousel_pause :: "bool \<Rightarrow> carousel \<Rightarrow> bs_error + carousel" where
  "carousel_pause event w = (case c_element w of None \<Rightarrow> Inl NullReference | Some e \<Rightarrow> Inr (pause event e w))"

text \<open>A disposed instance has no configuration, of which \<^verbatim>\<open>cycle\<close> reads the interval.\<close>

definition carousel_cycle :: "bool \<Rightarrow> carousel \<Rightarrow> bs_error + carousel" where
  "carousel_cycle event w = (case c_element w of None \<Rightarrow> Inl NullReference | Some _ \<Rightarrow> Inr (cycle event w))"

text \<open>\<^verbatim>\<open>dispose\<close> drops the number of the interval timer without clearing it.\<close>

definition carousel_dispose :: "carousel \<Rightarrow> carousel" where
  "carousel_dispose w = w\<lparr>c_listeners := [], c_items := [], c_config := Map.empty, c_element := None,
     c_interval := None, c_isPaused := False, c_isSliding := False, c_active := None, c_indicators := None, c_on_slid := []\<rparr>"

definition carousel_timer_fires :: "browser_view \<Rightarrow> prevents \<Rightarrow> nat \<Rightarrow> carousel \<Rightarrow> bs_error + carousel" where
  "carousel_timer_fires V prevents k w =
     (case map_of (c_timers w) k of
        None \<Rightarrow> Inr w
      | Some TInterval \<Rightarrow> if has_visibility V then nextWhenVisible V prevents w else carousel_next prevents w
      | Some (TSlid ev) \<Rightarrow>
          (let w1 = clear_timer (Some k) w in case c_element w of None \<Rightarrow> Inr w1 | Some _ \<Rightarrow> slid prevents w1)
      | Some TTouch \<Rightarrow> carousel_cycle False (clear_timer (Some k) w))"

section \<open>Swipes and keys\<close>

definition handleSwipe :: "prevents \<Rightarrow> carousel \<Rightarrow> bs_error + carousel" where
  "handleSwipe prevents w =
     (if \<bar>c_touchDeltaX w\<bar> \<le> 40 then Inr w
      else
       (let direction = \<bar>c_touchDeltaX w\<bar> / c_touchDeltaX w;
            w1 = w\<lparr>c_touchDeltaX := 0\<rparr>
        in bindE (if direction > 0 then carousel_prev prevents w1 else Inr w1) (\<lambda>w2.
             if direction < 0 then carousel_next prevents w2 else Inr w2)))"

record touch_event =
  pointer_type :: string
  client_x :: rat
  touches :: "rat list option"

definition by_touch :: "touch_event \<Rightarrow> bool" where
  "by_touch ev = (toUpperCase (pointer_type ev) = ''TOUCH'' \<or> toUpperCase (pointer_type ev) = ''PEN'')"

definition first_touch :: "touch_event \<Rightarrow> rat option" where
  "first_touch ev = (case touches ev of Some (x # _) \<Rightarrow> Some x | _ \<Rightarrow> None)"

definition touch_start :: "touch_event \<Rightarrow> carousel \<Rightarrow> bs_error + carousel" where
  "touch_start ev w =
     (if c_pointerEvent w \<and> by_touch ev then Inr (w\<lparr>c_touchStartX := client_x ev\<rparr>)
      else if \<not> c_pointerEvent w
      then (case first_touch ev of None \<Rightarrow> Inl NullReference | Some x \<Rightarrow> Inr (w\<lparr>c_touchStartX := x\<rparr>))
      else Inr w)"

definition touch_move :: "touch_event \<Rightarrow> carousel \<Rightarrow> bs_error + carousel" where
  "touch_move ev w =
     (if (case touches ev of None \<Rightarrow> False | Some ts \<Rightarrow> length ts > 1) then Inr (w\<lparr>c_touchDeltaX := 0\<rparr>)
      else case first_touch ev of
          None \<Rightarrow> Inl NullReference
        | Some x \<Rightarrow> Inr (w\<lparr>c_touchDeltaX := x - c_touchStartX w\<rparr>))"

definition touch_end :: "prevents \<Rightarrow> touch_event \<Rightarrow> carousel \<Rightarrow> bs_error + carousel" where
  "touch_end prevents ev w =
     (let w1 = (if c_pointerEvent w \<and> by_touch ev then w\<lparr>c_touchDeltaX := client_x ev - c_touchStartX w\<rparr> else w)
      in bindE (handleSwipe prevents w1) (\<lambda>w2.
           if c_opt w2 ''pause'' = JStr ''hover''
           then bindE (carousel_pause False w2) (\<lambda>w3.
                  let w4 = clear_timer (c_touchTimeout w3) w3; (k, w5) = set_timer TTouch w4
                  in Inr (w5\<lparr>c_touchTimeout := Some k\<rparr>))
           else Inr w2))"

definition is_text_field :: "string \<Rightarrow> bool" where
  "is_text_field tag = (js_contains (toLowerCase tag) ''input'' \<or> js_contains (toLowerCase tag) ''textarea'')"

text \<open>The second component tells whether the default action of the key is prevented.\<close>

definition carousel_keydown :: "prevents \<Rightarrow> string \<Rightarrow> nat \<Rightarrow> carousel \<Rightarrow> (bs_error + carousel) \<times> bool" where
  "carousel_keydown prevents tag which w =
     (if is_text_field tag then (Inr w, False)
      else if which = 37 then (carousel_prev prevents w, True)
      else if which = 39 then (carousel_next prevents w, True)
      else (Inr w, False))"

section \<open>Construction\<close>

definition addTouchEventListeners :: "eid \<Rightarrow> carousel \<Rightarrow> carousel" where
  "addTouchEventListeners e w =
     (if \<not> c_touchSupported w then w
      else if c_pointerEvent w
      then w\<lparr>c_listeners := c_listeners w @ [''dragstart'', ''pointerdown'', ''pointerup''],
             c_page := addClass ''pointer-event'' e (c_page w)\<rparr>
      else w\<lparr>c_listeners := c_listeners w @ [''dragstart'', ''touchstart'', ''touchmove'', ''touchend'']\<rparr>)"

definition addEventListeners :: "eid \<Rightarrow> carousel \<Rightarrow> carousel" where
  "addEventListeners e w =
     (let w1 = (if truthy (c_opt w ''keyboard'') then w\<lparr>c_listeners := c_listeners w @ [''keydown'']\<rparr> else w);
          w2 = (if c_opt w1 ''pause'' = JStr ''hover''
                then w1\<lparr>c_listeners := c_listeners w1 @ [''mouseenter'', ''mouseleave'']\<rparr> else w1)
      in if truthy (c_opt w2 ''touch'') then addTouchEventListeners e w2 else w2)"

definition new_Carousel :: "browser_view \<Rightarrow> page \<Rightarrow> eid \<Rightarrow> config \<Rightarrow> bs_error + carousel" where
  "new_Carousel V p e config =
     bindE (carousel_getConfig config) (\<lambda>c.
       Inr (addEventListeners e
         \<lparr>c_page = p, c_element = Some e, c_config = c, c_items = [], c_interval = None, c_active = None,
          c_isPaused = False, c_isSliding = False, c_touchTimeout = None, c_touchStartX = 0, c_touchDeltaX = 0,
          c_indicators = find (hasClass ''carousel-indicators'' p) (descendants p e),
          c_touchSupported = has_touch V, c_pointerEvent = has_pointer V, c_trans = no_transitions,
          c_timers = [], c_next = 1, c_on_slid = [], c_slid_count = 0, c_listeners = []\<rparr>))"

text \<open>\<^verbatim>\<open>$(element).carousel(config)\<close>; \<open>data\<close> are the data attributes of the element. A method, private ones
  included, is called without arguments.\<close>

datatype carousel_arg = CarouselObject config | CarouselText string | CarouselNumber jsnum | CarouselNone

definition carousel_method :: "browser_view \<Rightarrow> prevents \<Rightarrow> string \<Rightarrow> carousel \<Rightarrow> bs_error + carousel" where
  "carousel_method V prevents m w =
     (if m = ''next'' then carousel_next prevents w
      else if m = ''prev'' then carousel_prev prevents w
      else if m = ''pause'' then carousel_pause False w
      else if m = ''cycle'' then carousel_cycle False w
      else if m = ''nextWhenVisible'' then nextWhenVisible V prevents w
      else if m = ''to'' then carousel_to prevents (AtNumber None) w
      else if m = ''dispose'' then Inr (carousel_dispose w)
      else if m = ''_handleSwipe'' then handleSwipe prevents w
      else if m = ''_getConfig'' then bindE (carousel_getConfig Map.empty) (\<lambda>_. Inr w)
      else if m = ''_keydown'' then Inl NullReference
      else if m \<in> {''_getItemIndex'', ''_getItemByDirection''} then Inr (w\<lparr>c_items := []\<rparr>)
      else if m = ''_setActiveIndicatorElement'' then
        (case c_indicators w of
           None \<Rightarrow> Inr w
         | Some d \<Rightarrow> Inr (w\<lparr>c_items := [], c_page := fold (removeClass ''active'')
             (filter (hasClass ''active'' (c_page w)) (descendants (c_page w) d)) (c_page w)\<rparr>))
      else if m \<in> {''_items'', ''_interval'', ''_activeElement'', ''_isPaused'', ''_isSliding'', ''touchTimeout'', ''touchStartX'',
          ''touchDeltaX'', ''_config'', ''_element'', ''_indicatorsElement'', ''_touchSupported'', ''_pointerEvent''}
      then Inl (NotAFunction m)
      else if m \<in> {''_slide'', ''_triggerSlideEvent'', ''_addEventListeners'', ''_addTouchEventListeners''} then
        (case c_element w of
           None \<Rightarrow> if m = ''_addTouchEventListeners'' \<and> \<not> c_touchSupported w then Inr w else Inl NullReference
         | Some e \<Rightarrow>
            if m = ''_slide'' then slide prevents (slid prevents) ''undefined'' None w
            else if m = ''_triggerSlideEvent'' then Inr (snd (triggerSlideEvent prevents e None w))
            else if m = ''_addEventListeners'' then Inr (addEventListeners e w)
            else Inr (addTouchEventListeners e w))
      else Inl (NoMethod m))"

definition carousel_jQueryInterface ::
  "browser_view \<Rightarrow> prevents \<Rightarrow> page \<Rightarrow> eid \<Rightarrow> config \<Rightarrow> carousel_arg \<Rightarrow> carousel option \<Rightarrow> bs_error + carousel" where
  "carousel_jQueryInterface V prevents p e data arg instance' =
     (let cfg0 = extends carousel_Default data;
          cfg = (case arg of CarouselObject c \<Rightarrow> extends cfg0 c | _ \<Rightarrow> cfg0);
          action = (case arg of CarouselText s \<Rightarrow> JStr s | _ \<Rightarrow> opt cfg ''slide'')
      in bindE (case instance' of Some w \<Rightarrow> Inr w | None \<Rightarrow> new_Carousel V p e cfg) (\<lambda>w.
           case arg of
             CarouselNumber n \<Rightarrow> carousel_to prevents (AtNumber n) w
           | _ \<Rightarrow> (case action of
                 JStr m \<Rightarrow> carousel_method V prevents m w
               | _ \<Rightarrow>
                   if truthy (opt cfg ''interval'') \<and> truthy (opt cfg ''ride'')
                   then bindE (carousel_pause False w) (carousel_cycle False)
                   else Inr w)))"

text \<open>A click on a control: \<open>target_data\<close> and \<open>data\<close> are the data attributes of the carousel and of
  the control. The result is nothing when the control does not refer to a carousel.\<close>

definition dataApiClickHandler ::
  "browser_view \<Rightarrow> prevents \<Rightarrow> query \<Rightarrow> page \<Rightarrow> eid \<Rightarrow> config \<Rightarrow> config \<Rightarrow> carousel option \<Rightarrow> (bs_error + carousel) option" where
  "dataApiClickHandler V prevents query p control target_data data instance' =
     (case getSelectorFromElement query p control of
        None \<Rightarrow> None
      | Some s \<Rightarrow>
         (case querySelector query p s of
            None \<Rightarrow> None
          | Some t \<Rightarrow>
             if \<not> hasClass ''carousel'' p t then None
             else
              (let slideIndex = (case attribute_of p control ''data-slide-to'' of
                      None \<Rightarrow> None | Some i \<Rightarrow> if i = [] then None else Some i);
                   cfg = extends target_data data;
                   cfg' = (if slideIndex \<noteq> None then cfg(''interval'' \<mapsto> JBool False) else cfg)
               in Some (bindE (carousel_jQueryInterface V prevents p t target_data (CarouselObject cfg') instance') (\<lambda>w.
                    case slideIndex of None \<Rightarrow> Inr w | Some i \<Rightarrow> carousel_to prevents (AtText i) w)))))"

end
