(* ===== verification/Bs_Carousel_Inv.thy ===== *)
theory Bs_Carousel_Inv
  imports Bs_Carousel
begin

text \<open>
  The invariant of the carousel: one item is active at every moment, also while a slide is under way,
  and no interval timer runs but the one the instance knows. Every operation of \<^verbatim>\<open>Carousel\<close> but
  \<^verbatim>\<open>dispose\<close> keeps it.
\<close>

section \<open>Items and pages\<close>

text \<open>The items of the carousel: they share a parent, and the indicators are elsewhere.\<close>

definition layout :: "eid \<Rightarrow> eid list \<Rightarrow> carousel \<Rightarrow> bool" where
  "layout e xs w \<longleftrightarrow>
     c_element w = Some e \<and> distinct xs \<and> e \<notin> set xs
     \<and> filter (is_item (c_page w)) (descendants (c_page w) e) = xs
     \<and> (\<forall>x \<in> set xs. items_around (c_page w) (Some x) = xs)
     \<and> (\<forall>d. c_indicators w = Some d \<longrightarrow> set (descendants (c_page w) d) \<inter> set xs = {})"

definition same_items :: "page \<Rightarrow> page \<Rightarrow> bool" where
  "same_items p q \<longleftrightarrow> doc_tree q = doc_tree p \<and> is_item q = is_item p \<and> hasClass ''slide'' q = hasClass ''slide'' p"

definition sole :: "page \<Rightarrow> eid list \<Rightarrow> eid \<Rightarrow> bool" where
  "sole p xs a \<longleftrightarrow> a \<in> set xs \<and> (\<forall>x \<in> set xs. hasClass ''active'' p x = (x = a))"

lemma same_items_refl [simp]: "same_items p p"
  by (simp add: same_items_def)

lemma same_items_trans: "same_items p q \<Longrightarrow> same_items q r \<Longrightarrow> same_items p r"
  by (simp add: same_items_def)

lemma same_items_ops [simp]:
  "same_items p (fire ev x p)"
  "c \<noteq> ''carousel-item'' \<Longrightarrow> c \<noteq> ''slide'' \<Longrightarrow> same_items p (addClass c x p)"
  "c \<noteq> ''carousel-item'' \<Longrightarrow> c \<noteq> ''slide'' \<Longrightarrow> same_items p (removeClass c x p)"
  by (simp_all add: same_items_def is_item_def fun_eq_iff)

lemma same_items_addI: "same_items p q \<Longrightarrow> c \<noteq> ''carousel-item'' \<Longrightarrow> c \<noteq> ''slide'' \<Longrightarrow> same_items p (addClass c x q)"
  using same_items_trans same_items_ops(2) by blast

lemma same_items_removeI: "same_items p q \<Longrightarrow> c \<noteq> ''carousel-item'' \<Longrightarrow> c \<noteq> ''slide'' \<Longrightarrow> same_items p (removeClass c x q)"
  using same_items_trans same_items_ops(3) by blast

lemma same_items_fold: "same_items p (fold (removeClass ''active'') es p)"
proof (induction es arbitrary: p)
  case (Cons x es)
  have "same_items p (removeClass ''active'' x p)" by simp
  then show ?case using same_items_trans [OF _ Cons [of "removeClass ''active'' x p"]] by simp
qed simp

lemma items_around_same: "same_items p q \<Longrightarrow> items_around q = items_around p"
proof -
  assume "same_items p q"
  then have "descendants q = descendants p" "parentNode q = parentNode p" "is_item q = is_item p"
    using tree_cong(2,5) [of q p] by (simp_all add: same_items_def)
  then show ?thesis by (intro ext) (simp add: items_around_def split: option.splits)
qed

lemma layout_same:
  assumes "layout e xs w" "same_items (c_page w) (c_page w')" "c_element w' = c_element w" "c_indicators w' = c_indicators w"
  shows "layout e xs w'"
proof -
  have "descendants (c_page w') = descendants (c_page w)"
    using assms(2) tree_cong(2) [of "c_page w'" "c_page w"] by (simp add: same_items_def)
  moreover have "is_item (c_page w') = is_item (c_page w)" using assms(2) by (simp add: same_items_def)
  ultimately show ?thesis
    using assms(1,3,4) items_around_same [OF assms(2)] by (simp add: layout_def)
qed

lemma layoutD:
  assumes "layout e xs w"
  shows "c_element w = Some e" "distinct xs" "e \<notin> set xs" "x \<in> set xs \<Longrightarrow> items_around (c_page w) (Some x) = xs"
  using assms by (simp_all add: layout_def)

lemma find_filter: "find (\<lambda>x. P x \<and> Q x) xs = find P (filter Q xs)"
  by (induction xs) auto

lemma find_sole: "a \<in> set xs \<Longrightarrow> \<forall>x \<in> set xs. P x = (x = a) \<Longrightarrow> find P xs = Some a"
  by (induction xs) auto

lemma active_item_sole: "layout e xs w \<Longrightarrow> sole (c_page w) xs a \<Longrightarrow> active_item (c_page w) e = Some a"
  unfolding active_item_def find_filter by (simp add: layout_def sole_def find_sole)

lemma indexOf_nth: "distinct xs \<Longrightarrow> i < length xs \<Longrightarrow> indexOf xs (xs ! i) = int i"
  by (induction xs arbitrary: i) (auto simp: Let_def nth_Cons split: nat.splits)

lemma getItemIndex_simps:
  "c_page (snd (getItemIndex el w)) = c_page w" "snd (getItemIndex el w) = w\<lparr>c_items := items_around (c_page w) el\<rparr>"
  by (simp_all add: getItemIndex_def Let_def)

section \<open>Timers\<close>

definition intervals :: "carousel \<Rightarrow> (nat \<times> carousel_timer) list" where
  "intervals w = filter (\<lambda>t. snd t = TInterval) (c_timers w)"

definition timers_ok :: "carousel \<Rightarrow> bool" where
  "timers_ok w \<longleftrightarrow>
     intervals w = (case c_interval w of None \<Rightarrow> [] | Some k \<Rightarrow> [(k, TInterval)])
     \<and> distinct (map fst (c_timers w)) \<and> (\<forall>t \<in> set (c_timers w). fst t < c_next w)
     \<and> (\<forall>k. c_touchTimeout w = Some k \<longrightarrow> k < c_next w \<and> (k, TInterval) \<notin> set (c_timers w))"

definition same_timers :: "carousel \<Rightarrow> carousel \<Rightarrow> bool" where
  "same_timers w w' \<longleftrightarrow> c_timers w' = c_timers w \<and> c_interval w' = c_interval w \<and> c_next w' = c_next w
     \<and> c_touchTimeout w' = c_touchTimeout w"

lemma timers_ok_same: "timers_ok w \<Longrightarrow> same_timers w w' \<Longrightarrow> timers_ok w'"
  by (simp add: timers_ok_def same_timers_def intervals_def)

lemma timers_ok_set_timer: "timers_ok w \<Longrightarrow> t \<noteq> TInterval \<Longrightarrow> timers_ok (snd (set_timer t w))"
  by (auto simp: timers_ok_def set_timer_def intervals_def)

lemma intervals_clear: "intervals (clear_timer i w) =
    (case i of None \<Rightarrow> intervals w | Some k \<Rightarrow> filter (\<lambda>t. fst t \<noteq> k) (intervals w))"
  by (auto simp: intervals_def clear_timer_def conj_commute split: option.splits)

lemma timers_ok_stop:
  assumes "timers_ok w"
  shows "timers_ok ((clear_timer (c_interval w) w)\<lparr>c_interval := None\<rparr>)"
proof -
  have "intervals (clear_timer (c_interval w) w) = []"
    using assms by (auto simp: intervals_clear timers_ok_def split: option.splits)
  moreover have "set (c_timers (clear_timer (c_interval w) w)) \<subseteq> set (c_timers w)"
    "distinct (map fst (c_timers (clear_timer (c_interval w) w)))"
    using assms by (auto simp: clear_timer_def timers_ok_def distinct_map_filter split: option.splits)
  moreover have "c_next (clear_timer (c_interval w) w) = c_next w" "c_touchTimeout (clear_timer (c_interval w) w) = c_touchTimeout w"
    by (auto simp: clear_timer_def split: option.splits)
  ultimately show ?thesis
    using assms by (auto simp: timers_ok_def intervals_def)
qed

lemma timers_ok_start:
  assumes "timers_ok w" "c_interval w = None"
  shows "timers_ok ((snd (set_timer TInterval w))\<lparr>c_interval := Some (fst (set_timer TInterval w))\<rparr>)"
  using assms by (auto simp: timers_ok_def set_timer_def intervals_def)

lemma timers_ok_clear_other:
  assumes "timers_ok w" "(k, TInterval) \<notin> set (c_timers w)"
  shows "timers_ok (clear_timer (Some k) w)"
proof -
  have "filter (\<lambda>t. fst t \<noteq> k) (intervals w) = intervals w"
    unfolding filter_id_conv using assms(2) by (auto simp: intervals_def)
  then have i: "intervals (clear_timer (Some k) w) = intervals w" by (simp add: intervals_clear)
  have "c_timers (clear_timer (Some k) w) = filter (\<lambda>t. fst t \<noteq> k) (c_timers w)" "c_interval (clear_timer (Some k) w) = c_interval w"
    "c_next (clear_timer (Some k) w) = c_next w" "c_touchTimeout (clear_timer (Some k) w) = c_touchTimeout w"
    by (simp_all add: clear_timer_def)
  then show ?thesis
    using assms by (auto simp: timers_ok_def i distinct_map_filter)
qed

lemma timers_ok_cycle: "timers_ok w \<Longrightarrow> timers_ok (cycle ev w)"
proof -
  assume ok: "timers_ok w"
  define w1 where "w1 = (if ev then w else w\<lparr>c_isPaused := False\<rparr>)"
  define w2 where "w2 = (if c_interval w1 \<noteq> None then (clear_timer (c_interval w1) w1)\<lparr>c_interval := None\<rparr> else w1)"
  have "timers_ok w1" using ok timers_ok_same [of w w1] by (simp add: w1_def same_timers_def)
  then have w2: "timers_ok w2" "c_interval w2 = None"
    using timers_ok_stop [of w1] by (auto simp: w2_def)
  have "cycle ev w = (if truthy (c_opt w2 ''interval'') \<and> \<not> c_isPaused w2
      then (snd (set_timer TInterval w2))\<lparr>c_interval := Some (fst (set_timer TInterval w2))\<rparr> else w2)"
    by (simp add: cycle_def Let_def w1_def [symmetric] w2_def [symmetric] case_prod_beta del: not_None_eq)
  then show ?thesis using w2 timers_ok_start [OF w2] by simp
qed

section \<open>Callbacks\<close>

definition pending :: "carousel \<Rightarrow> (eid \<times> slide_cb on_end) list" where
  "pending w = filter (\<lambda>h. callback_of (snd h) \<noteq> None) (end_handlers (c_trans w))"

lemma pending_await:
  "pending (w\<lparr>c_trans := await_end x cb (c_trans w)\<rparr>) = pending w @ [(x, Callback cb)]"
  by (simp add: pending_def await_end_def transitionEndEmulator_def)

lemma dispatch_callbacks: "snd (dispatch_end x tr) =
    List.map_filter (callback_of \<circ> snd) (filter (\<lambda>h. callback_of (snd h) \<noteq> None \<and> fst h = x) (end_handlers tr))"
proof -
  have "List.map_filter callback_of (map snd (filter (\<lambda>h. fst h = x) hs)) =
      List.map_filter (callback_of \<circ> snd) (filter (\<lambda>h. callback_of (snd h) \<noteq> None \<and> fst h = x) hs)" for hs :: "(nat \<times> 'a on_end) list"
    by (induction hs) (auto simp: List.map_filter_simps split: option.splits)
  then show ?thesis by (simp add: dispatch_end_def Let_def)
qed

lemma dispatch_pending: "snd (dispatch_end x (c_trans w)) = List.map_filter (callback_of \<circ> snd) (filter (\<lambda>h. fst h = x) (pending w))"
  by (simp add: dispatch_callbacks pending_def)

lemma pending_dispatch:
  "pending (w\<lparr>c_trans := fst (dispatch_end x (c_trans w))\<rparr>) = filter (\<lambda>h. fst h \<noteq> x) (pending w)"
  by (simp add: pending_def conj_commute)

lemma transitionend_other:
  assumes "\<forall>h \<in> set (pending w). fst h \<noteq> x"
  shows "carousel_transitionend x w = w\<lparr>c_trans := fst (dispatch_end x (c_trans w))\<rparr>"
    "pending (w\<lparr>c_trans := fst (dispatch_end x (c_trans w))\<rparr>) = pending w"
proof -
  have "filter (\<lambda>h. fst h = x) (pending w) = []" using assms by (auto simp: filter_empty_conv)
  then have "snd (dispatch_end x (c_trans w)) = []" by (simp add: dispatch_pending List.map_filter_def)
  then show "carousel_transitionend x w = w\<lparr>c_trans := fst (dispatch_end x (c_trans w))\<rparr>"
    by (simp add: carousel_transitionend_def case_prod_beta)
  show "pending (w\<lparr>c_trans := fst (dispatch_end x (c_trans w))\<rparr>) = pending w"
    unfolding pending_dispatch filter_id_conv using assms by blast
qed

text \<open>What \<^verbatim>\<open>pause\<close> and \<^verbatim>\<open>cycle\<close> leave alone.\<close>

definition same_core :: "carousel \<Rightarrow> carousel \<Rightarrow> bool" where
  "same_core w w' \<longleftrightarrow> c_page w' = c_page w \<and> c_element w' = c_element w \<and> c_indicators w' = c_indicators w
     \<and> c_isSliding w' = c_isSliding w \<and> pending w' = pending w \<and> c_on_slid w' = c_on_slid w
     \<and> c_config w' = c_config w"

lemma same_core_trans: "same_core u v \<Longrightarrow> same_core v w \<Longrightarrow> same_core u w"
  by (simp add: same_core_def)

lemma same_core_clear: "same_core w ((clear_timer i w)\<lparr>c_interval := None\<rparr>)"
  by (cases i) (simp_all add: same_core_def clear_timer_def pending_def)

lemma same_core_cycle: "same_core w (cycle ev w)"
proof -
  define w1 where "w1 = (if ev then w else w\<lparr>c_isPaused := False\<rparr>)"
  define w2 where "w2 = (if c_interval w1 \<noteq> None then (clear_timer (c_interval w1) w1)\<lparr>c_interval := None\<rparr> else w1)"
  have "same_core w w1" by (simp add: w1_def same_core_def pending_def)
  moreover have "same_core w1 w2" using same_core_clear [of w1] by (simp add: w2_def same_core_def)
  moreover have "same_core w2 (cycle ev w)"
    by (simp add: cycle_def Let_def w1_def [symmetric] w2_def [symmetric] set_timer_def same_core_def pending_def del: not_None_eq)
  ultimately show ?thesis using same_core_trans by blast
qed

lemma pause_effect:
  assumes "\<forall>h \<in> set (pending w). fst h \<noteq> e"
  shows "same_core w (pause ev e w)" "timers_ok w \<Longrightarrow> timers_ok (pause ev e w)"
proof -
  define w1 where "w1 = (if ev then w else w\<lparr>c_isPaused := True\<rparr>)"
  have p1: "pending w1 = pending w" by (simp add: w1_def pending_def)
  have c1: "same_core w w1" "timers_ok w \<Longrightarrow> timers_ok w1"
    using timers_ok_same [of w w1] by (auto simp: w1_def same_core_def same_timers_def p1 pending_def)
  define t where "t = carousel_transitionend e w1"
  have t: "t = w1\<lparr>c_trans := fst (dispatch_end e (c_trans w1))\<rparr>" "pending t = pending w1"
    using transitionend_other [of w1 e] assms p1 by (simp_all add: t_def)
  have ct: "same_core w1 t" "timers_ok w1 \<Longrightarrow> timers_ok t"
    using t timers_ok_same [of w1 t] by (simp_all add: same_core_def same_timers_def)
  define w2 where "w2 = (if \<exists>x \<in> set (descendants (c_page w1) e).
      hasClass ''carousel-item-next'' (c_page w1) x \<or> hasClass ''carousel-item-prev'' (c_page w1) x then cycle True t else w1)"
  have c2: "same_core w1 w2" "timers_ok w1 \<Longrightarrow> timers_ok w2"
    using ct same_core_trans [OF ct(1) same_core_cycle] timers_ok_cycle by (auto simp: w2_def same_core_def)
  have "pause ev e w = (clear_timer (c_interval w2) w2)\<lparr>c_interval := None\<rparr>"
    by (simp add: pause_def Let_def w1_def [symmetric] t_def [symmetric] w2_def)
  then show "same_core w (pause ev e w)" "timers_ok w \<Longrightarrow> timers_ok (pause ev e w)"
    using c1 c2 same_core_trans same_core_clear timers_ok_stop by metis+
qed

section \<open>The invariant\<close>

definition sliding_ok :: "eid list \<Rightarrow> eid \<Rightarrow> carousel \<Rightarrow> bool" where
  "sliding_ok xs a w \<longleftrightarrow>
     (if c_isSliding w
      then \<exists>n isNext ev. n \<in> set xs \<and> n \<noteq> a
        \<and> pending w = [(a, Callback (SlideDone n a (if isNext then ''carousel-item-left'' else ''carousel-item-right'')
              (if isNext then ''carousel-item-next'' else ''carousel-item-prev'') ev))]
      else pending w = [])"

lemma sliding_ok_cong:
  "c_isSliding w' = c_isSliding w \<Longrightarrow> pending w' = pending w \<Longrightarrow> sliding_ok xs a w' = sliding_ok xs a w"
  by (simp only: sliding_ok_def)

definition carousel_inv :: "eid \<Rightarrow> eid list \<Rightarrow> carousel \<Rightarrow> bool" where
  "carousel_inv e xs w \<longleftrightarrow>
     layout e xs w \<and> timers_ok w \<and> (\<exists>a. sole (c_page w) xs a \<and> sliding_ok xs a w)"

lemma inv_pending:
  assumes "carousel_inv e xs w"
  shows "\<forall>h \<in> set (pending w). fst h \<noteq> e"
  using assms by (auto simp: carousel_inv_def sliding_ok_def sole_def layout_def split: if_splits)

lemma inv_core:
  assumes "carousel_inv e xs w" "same_core w w'" "timers_ok w'"
  shows "carousel_inv e xs w'"
proof -
  have "layout e xs w'" using assms(1,2) layout_same [of e xs w w'] by (simp add: carousel_inv_def same_core_def)
  moreover have "sliding_ok xs a w' = sliding_ok xs a w" for a
    by (rule sliding_ok_cong) (use assms(2) in \<open>simp_all add: same_core_def\<close>)
  ultimately show ?thesis using assms by (simp add: carousel_inv_def same_core_def)
qed

lemma inv_pause: "carousel_inv e xs w \<Longrightarrow> carousel_inv e xs (pause ev e w)"
  using inv_core pause_effect [OF inv_pending] by (metis carousel_inv_def)

lemma inv_cycle: "carousel_inv e xs w \<Longrightarrow> carousel_inv e xs (cycle ev w)"
  using inv_core same_core_cycle timers_ok_cycle by (metis carousel_inv_def)

lemma inv_on_slid: "carousel_inv e xs (w\<lparr>c_on_slid := ys\<rparr>) = carousel_inv e xs w"
  by (simp add: carousel_inv_def layout_def timers_ok_def intervals_def sliding_ok_def pending_def)

lemma inv_slid_count: "carousel_inv e xs (w\<lparr>c_slid_count := k\<rparr>) = carousel_inv e xs w"
  by (simp add: carousel_inv_def layout_def timers_ok_def intervals_def sliding_ok_def pending_def)

lemma invI:
  "layout e xs w \<Longrightarrow> timers_ok w \<Longrightarrow> sole (c_page w) xs a \<Longrightarrow> sliding_ok xs a w \<Longrightarrow> carousel_inv e xs w"
  by (auto simp: carousel_inv_def)

lemma invE:
  assumes "carousel_inv e xs w"
  obtains a where "layout e xs w" "timers_ok w" "sole (c_page w) xs a" "sliding_ok xs a w"
  using assms by (auto simp: carousel_inv_def)

section \<open>The end of a slide\<close>

lemma slide_done_frame:
  assumes "d \<in> {''carousel-item-left'', ''carousel-item-right''}" "r \<in> {''carousel-item-next'', ''carousel-item-prev''}"
  shows "same_items (c_page w) (c_page (slide_done (SlideDone n a d r ev) w))"
    "hasClass ''active'' (c_page (slide_done (SlideDone n a d r ev) w)) x = ((x = n \<or> hasClass ''active'' (c_page w) x) \<and> x \<noteq> a)"
    "c_element (slide_done (SlideDone n a d r ev) w) = c_element w"
    "c_indicators (slide_done (SlideDone n a d r ev) w) = c_indicators w"
    "c_isSliding (slide_done (SlideDone n a d r ev) w) = False" "pending (slide_done (SlideDone n a d r ev) w) = pending w"
    "timers_ok w \<Longrightarrow> timers_ok (slide_done (SlideDone n a d r ev) w)"
    "c_on_slid (slide_done (SlideDone n a d r ev) w) = c_on_slid w" "c_trans (slide_done (SlideDone n a d r ev) w) = c_trans w"
proof -
  define w1 where "w1 = w\<lparr>c_page := removeClass d a (removeClass r a (removeClass ''active'' a
      (addClass ''active'' n (removeClass r n (removeClass d n (c_page w)))))), c_isSliding := False\<rparr>"
  have eq: "slide_done (SlideDone n a d r ev) w = snd (set_timer (TSlid ev) w1)"
    by (simp add: slide_done_def Let_def w1_def)
  have c: "d \<noteq> ''active''" "r \<noteq> ''active''" "d \<noteq> ''carousel-item''" "r \<noteq> ''carousel-item''" "d \<noteq> ''slide''" "r \<noteq> ''slide''"
    using assms by auto
  show "same_items (c_page w) (c_page (slide_done (SlideDone n a d r ev) w))"
    using c by (simp add: eq set_timer_def w1_def same_items_addI same_items_removeI)
  show "hasClass ''active'' (c_page (slide_done (SlideDone n a d r ev) w)) x = ((x = n \<or> hasClass ''active'' (c_page w) x) \<and> x \<noteq> a)"
    using c by (auto simp: eq set_timer_def w1_def)
  show "timers_ok w \<Longrightarrow> timers_ok (slide_done (SlideDone n a d r ev) w)"
    unfolding eq using timers_ok_same [of w w1] by (intro timers_ok_set_timer) (simp_all add: same_timers_def w1_def)
qed (simp_all add: slide_done_def Let_def set_timer_def pending_def)

lemma transitionend_slides:
  assumes "pending w = [(a, Callback cb)]"
  shows "carousel_transitionend a w = slide_done cb (w\<lparr>c_trans := fst (dispatch_end a (c_trans w))\<rparr>)"
    "pending (w\<lparr>c_trans := fst (dispatch_end a (c_trans w))\<rparr>) = []"
proof -
  have "snd (dispatch_end a (c_trans w)) = [cb]"
    unfolding dispatch_pending assms by (simp add: List.map_filter_def)
  then show "carousel_transitionend a w = slide_done cb (w\<lparr>c_trans := fst (dispatch_end a (c_trans w))\<rparr>)"
    by (simp add: carousel_transitionend_def case_prod_beta)
qed (simp add: pending_dispatch assms)

lemma inv_transitionend:
  assumes inv: "carousel_inv e xs w"
  shows "carousel_inv e xs (carousel_transitionend x w)"
proof (cases "\<forall>h \<in> set (pending w). fst h \<noteq> x")
  case True
  define w' where "w' = w\<lparr>c_trans := fst (dispatch_end x (c_trans w))\<rparr>"
  have "same_core w w'" "same_timers w w'"
    using transitionend_other(2) [OF True] by (simp_all add: same_core_def same_timers_def w'_def)
  then show ?thesis
    unfolding transitionend_other(1) [OF True] w'_def [symmetric]
    using inv inv_core timers_ok_same by (metis carousel_inv_def)
next
  case False
  obtain a where a: "layout e xs w" "timers_ok w" "sole (c_page w) xs a" "sliding_ok xs a w"
    using inv by (rule invE)
  have "c_isSliding w" using a(4) False by (auto simp: sliding_ok_def split: if_splits)
  then obtain n nx ev where n: "n \<in> set xs" "n \<noteq> a" "pending w = [(a, Callback (SlideDone n a
      (if nx then ''carousel-item-left'' else ''carousel-item-right'')
      (if nx then ''carousel-item-next'' else ''carousel-item-prev'') ev))]"
    using a(4) by (auto simp: sliding_ok_def)
  define d where "d = (if nx then ''carousel-item-left'' else ''carousel-item-right'')"
  define r where "r = (if nx then ''carousel-item-next'' else ''carousel-item-prev'')"
  have dr: "d \<in> {''carousel-item-left'', ''carousel-item-right''}" "r \<in> {''carousel-item-next'', ''carousel-item-prev''}"
    by (simp_all add: d_def r_def)
  have x: "x = a" using False n(3) by auto
  define w1 where "w1 = w\<lparr>c_trans := fst (dispatch_end x (c_trans w))\<rparr>"
  have p: "pending w = [(a, Callback (SlideDone n a d r ev))]" using n(3) by (simp add: d_def r_def)
  have eq: "carousel_transitionend x w = slide_done (SlideDone n a d r ev) w1" and p1: "pending w1 = []"
    using transitionend_slides [OF p] by (simp_all add: w1_def x)
  note fr = slide_done_frame [OF dr, where w = w1 and n = n and a = a and ev = ev]
  have t: "timers_ok w1" using a(2) timers_ok_same [of w w1] by (simp add: same_timers_def w1_def)
  show ?thesis
    unfolding eq
  proof (rule invI [where a = n])
    show "layout e xs (slide_done (SlideDone n a d r ev) w1)"
      by (rule layout_same [OF a(1)]) (use fr in \<open>simp_all add: w1_def\<close>)
    show "timers_ok (slide_done (SlideDone n a d r ev) w1)" using fr(7) t by simp
    show "sole (c_page (slide_done (SlideDone n a d r ev) w1)) xs n"
      using a(3) n(1,2) unfolding sole_def fr(2) by (auto simp: w1_def)
    show "sliding_ok xs n (slide_done (SlideDone n a d r ev) w1)" by (simp add: sliding_ok_def fr p1)
  qed
qed

lemma emulator_alt:
  "carousel_emulator k w =
     (case map_of (emulators (c_trans w)) k of
        None \<Rightarrow> w
      | Some x \<Rightarrow> if k \<in> set (called (c_trans w)) then w\<lparr>c_trans := drop_timer k (c_trans w)\<rparr>
                 else carousel_transitionend x (w\<lparr>c_trans := drop_timer k (c_trans w)\<rparr>))"
  by (auto simp: carousel_emulator_def emulator_timeout_alt carousel_transitionend_def case_prod_beta split: option.splits)

lemma inv_emulator: "carousel_inv e xs w \<Longrightarrow> carousel_inv e xs (carousel_emulator k w)"
proof -
  assume inv: "carousel_inv e xs w"
  have "carousel_inv e xs (w\<lparr>c_trans := drop_timer k (c_trans w)\<rparr>)"
    by (rule inv_core [OF inv])
      (use inv in \<open>auto simp: same_core_def pending_def drop_timer_def carousel_inv_def
        intro: timers_ok_same [of w] simp: same_timers_def\<close>)
  then show ?thesis
    using inv by (auto simp: emulator_alt intro: inv_transitionend split: option.splits)
qed

section \<open>A slide\<close>

text \<open>Steps that leave the items and the timers alone.\<close>

definition same_off :: "eid list \<Rightarrow> carousel \<Rightarrow> carousel \<Rightarrow> bool" where
  "same_off xs w w' \<longleftrightarrow>
     same_items (c_page w) (c_page w') \<and> (\<forall>x \<in> set xs. hasClass ''active'' (c_page w') x = hasClass ''active'' (c_page w) x)
     \<and> same_timers w w' \<and> c_element w' = c_element w \<and> c_indicators w' = c_indicators w
     \<and> c_isSliding w' = c_isSliding w \<and> pending w' = pending w \<and> c_on_slid w' = c_on_slid w"

lemma same_off_trans: "same_off xs u v \<Longrightarrow> same_off xs v w \<Longrightarrow> same_off xs u w"
  unfolding same_off_def same_timers_def using same_items_trans by auto

lemma same_off_items [simp]: "same_off xs w (w\<lparr>c_items := ys\<rparr>)"
  by (simp add: same_off_def same_timers_def pending_def)

lemma sole_off: "same_off xs w w' \<Longrightarrow> sole (c_page w) xs a \<Longrightarrow> sole (c_page w') xs a"
  by (auto simp: same_off_def sole_def)

lemma inv_off:
  assumes "carousel_inv e xs w" "same_off xs w w'"
  shows "carousel_inv e xs w'"
proof -
  obtain a where a: "layout e xs w" "timers_ok w" "sole (c_page w) xs a" "sliding_ok xs a w"
    using assms(1) by (rule invE)
  have "sliding_ok xs a w'" using a(4) assms(2) sliding_ok_cong [of w' w] by (simp add: same_off_def)
  moreover have "layout e xs w'" "timers_ok w'"
    using assms(2) layout_same [OF a(1)] timers_ok_same [OF a(2)] by (simp_all add: same_off_def)
  ultimately show ?thesis using invI sole_off [OF assms(2) a(3)] by blast
qed

lemma getItemIndex_off: "same_off xs w (snd (getItemIndex el w))"
  by (simp add: getItemIndex_simps)

lemma getItemByDirection_off: "same_off xs w (snd (getItemByDirection dir a w))"
proof -
  have "snd (getItemByDirection dir a w) = snd (getItemIndex (Some a) w)"
    by (simp add: getItemByDirection_def Let_def case_prod_beta split: option.splits)
  then show ?thesis using getItemIndex_off by simp
qed

lemma trigger_off: "same_off xs w (snd (triggerSlideEvent prevents e el w))"
  by (simp add: triggerSlideEvent_def Let_def getItemIndex_simps same_off_def same_timers_def pending_def)

lemma indicator_off:
  assumes "layout e xs w"
  shows "same_off xs w (setActiveIndicatorElement n w)"
proof (cases "c_indicators w")
  case None
  then show ?thesis by (simp add: setActiveIndicatorElement_def same_off_def same_timers_def)
next
  case (Some d)
  have dis: "set (descendants (c_page w) d) \<inter> set xs = {}" using assms Some by (simp add: layout_def)
  define p1 where "p1 = fold (removeClass ''active'') (filter (hasClass ''active'' (c_page w)) (descendants (c_page w) d)) (c_page w)"
  have s1: "same_items (c_page w) p1" unfolding p1_def by (rule same_items_fold)
  have a1: "hasClass ''active'' p1 x = hasClass ''active'' (c_page w) x" if "x \<in> set xs" for x
    using dis that by (auto simp: p1_def)
  define w1 where "w1 = (w\<lparr>c_page := p1\<rparr>)\<lparr>c_items := items_around p1 (Some n)\<rparr>"
  have o1: "same_off xs w w1"
    using s1 a1 by (simp add: same_off_def same_timers_def pending_def w1_def)
  show ?thesis
  proof (cases "elem_at (children p1 d) (fst (getItemIndex (Some n) (w\<lparr>c_page := p1\<rparr>)))")
    case None
    then have "setActiveIndicatorElement n w = w1"
      by (simp add: setActiveIndicatorElement_def Some p1_def [symmetric] Let_def case_prod_beta getItemIndex_simps w1_def)
    then show ?thesis using o1 by simp
  next
    case (Some y)
    then have eq: "setActiveIndicatorElement n w = w1\<lparr>c_page := addClass ''active'' y p1\<rparr>"
      by (simp add: setActiveIndicatorElement_def \<open>c_indicators w = Some d\<close> p1_def [symmetric] Let_def case_prod_beta getItemIndex_simps w1_def)
    have "y \<in> set (children p1 d)" using Some by (auto simp: elem_at_def split: if_splits)
    moreover have "children p1 = children (c_page w)" by (rule tree_cong) (simp add: p1_def)
    ultimately have "y \<notin> set xs" using dis children_descendants [of "c_page w" d] by auto
    then have "same_off xs w1 (w1\<lparr>c_page := addClass ''active'' y p1\<rparr>)"
      by (auto simp: same_off_def same_timers_def pending_def w1_def)
    then show ?thesis unfolding eq by (rule same_off_trans [OF o1])
  qed
qed

lemma item_interval_simps [simp]:
  "c_page (item_interval n w) = c_page w" "c_element (item_interval n w) = c_element w"
  "c_indicators (item_interval n w) = c_indicators w" "c_isSliding (item_interval n w) = c_isSliding w"
  "c_trans (item_interval n w) = c_trans w" "c_timers (item_interval n w) = c_timers w"
  "c_interval (item_interval n w) = c_interval w" "c_next (item_interval n w) = c_next w"
  "c_touchTimeout (item_interval n w) = c_touchTimeout w" "c_on_slid (item_interval n w) = c_on_slid w"
  by (simp_all add: item_interval_def Let_def split: option.splits)

text \<open>The state in which the class changes of a slide begin: marked as sliding, the interval stopped,
  the indicators moved.\<close>

definition slide_prep :: "eid \<Rightarrow> eid \<Rightarrow> carousel \<Rightarrow> carousel" where
  "slide_prep e n w =
     setActiveIndicatorElement n (if c_interval w \<noteq> None then pause False e (w\<lparr>c_isSliding := True\<rparr>) else w\<lparr>c_isSliding := True\<rparr>)"

lemma slide_prep_ok:
  assumes l: "layout e xs w" and t: "timers_ok w" and s: "sole (c_page w) xs a" and p: "pending w = []"
  shows "layout e xs (slide_prep e n w)" "timers_ok (slide_prep e n w)" "sole (c_page (slide_prep e n w)) xs a"
    "pending (slide_prep e n w) = []" "c_isSliding (slide_prep e n w)" "same_items (c_page w) (c_page (slide_prep e n w))"
    "c_on_slid (slide_prep e n w) = c_on_slid w"
proof -
  define w1 where "w1 = w\<lparr>c_isSliding := True\<rparr>"
  define w2 where "w2 = (if c_interval w \<noteq> None then pause False e w1 else w1)"
  have p1: "pending w1 = []" using p by (simp add: w1_def pending_def)
  have t1: "timers_ok w1" using t timers_ok_same [of w w1] by (simp add: same_timers_def w1_def)
  have c: "same_core w1 w2" "timers_ok w2"
    using pause_effect [of w1 e False] p1 t1 by (auto simp: w2_def same_core_def)
  have l2: "layout e xs w2"
    by (rule layout_same [OF l]) (use c(1) in \<open>simp_all add: same_core_def w1_def\<close>)
  have o: "same_off xs w2 (slide_prep e n w)"
    unfolding slide_prep_def w1_def [symmetric] w2_def [symmetric] by (rule indicator_off [OF l2])
  show "layout e xs (slide_prep e n w)" by (rule layout_same [OF l2]) (use o in \<open>simp_all add: same_off_def\<close>)
  show "timers_ok (slide_prep e n w)" using o timers_ok_same [OF c(2)] by (simp add: same_off_def)
  show "sole (c_page (slide_prep e n w)) xs a"
    by (rule sole_off [OF o]) (use s c(1) in \<open>simp add: same_core_def w1_def\<close>)
  show "pending (slide_prep e n w) = []" "c_isSliding (slide_prep e n w)" "same_items (c_page w) (c_page (slide_prep e n w))"
    "c_on_slid (slide_prep e n w) = c_on_slid w"
    using o c(1) p1 by (auto simp: same_off_def same_core_def w1_def)
qed

lemma slide_to_alt:
  "slide_to handler isNext e act nxt ev w =
     (let directional = (if isNext then ''carousel-item-left'' else ''carousel-item-right'');
          orderName = (if isNext then ''carousel-item-next'' else ''carousel-item-prev'');
          w3 = slide_prep e nxt w;
          w4 = (if hasClass ''slide'' (c_page w3) e
                then
                 (let w5 = item_interval nxt (w3\<lparr>c_page := addClass directional nxt (addClass directional act
                        (addClass orderName nxt (c_page w3)))\<rparr>)
                  in Inr (w5\<lparr>c_trans := await_end act (SlideDone nxt act directional orderName ev) (c_trans w5)\<rparr>))
                else handler (w3\<lparr>c_page := addClass ''active'' nxt (removeClass ''active'' act (c_page w3)), c_isSliding := False\<rparr>))
      in bindE w4 (\<lambda>w'. Inr (if c_interval w \<noteq> None then cycle False w' else w')))"
  unfolding slide_to_def slide_prep_def Let_def ..

text \<open>A slide with a transition: the callback is bound to the old item.\<close>

lemma animated_ok:
  assumes prep: "layout e xs w3" "timers_ok w3" "sole (c_page w3) xs a" "pending w3 = []" "c_isSliding w3"
    and n: "n \<in> set xs" "n \<noteq> a"
    and w5: "w5 = item_interval n (w3\<lparr>c_page := addClass (if nx then ''carousel-item-left'' else ''carousel-item-right'') n
       (addClass (if nx then ''carousel-item-left'' else ''carousel-item-right'') a
         (addClass (if nx then ''carousel-item-next'' else ''carousel-item-prev'') n (c_page w3)))\<rparr>)"
    and w6: "w6 = w5\<lparr>c_trans := await_end a (SlideDone n a (if nx then ''carousel-item-left'' else ''carousel-item-right'')
       (if nx then ''carousel-item-next'' else ''carousel-item-prev'') ev) (c_trans w5)\<rparr>"
  shows "carousel_inv e xs w6"
proof (rule invI [where a = a])
  have pg: "same_items (c_page w3) (c_page w6)" "\<And>x. hasClass ''active'' (c_page w6) x = hasClass ''active'' (c_page w3) x"
    by (auto simp: w6 w5 same_items_addI)
  show "layout e xs w6" by (rule layout_same [OF prep(1) pg(1)]) (simp_all add: w6 w5)
  show "timers_ok w6" by (rule timers_ok_same [OF prep(2)]) (simp add: w6 w5 same_timers_def)
  show "sole (c_page w6) xs a" using prep(3) by (simp add: sole_def pg(2))
  have "pending w5 = []" using prep(4) by (simp add: w5 pending_def)
  then have "pending w6 = [(a, Callback (SlideDone n a (if nx then ''carousel-item-left'' else ''carousel-item-right'')
       (if nx then ''carousel-item-next'' else ''carousel-item-prev'') ev))]"
    unfolding w6 pending_await by simp
  moreover have "c_isSliding w6" using prep(5) by (simp add: w6 w5)
  ultimately show "sliding_ok xs a w6" using n unfolding sliding_ok_def by (simp only: if_True) blast
qed

text \<open>A slide without one.\<close>

lemma direct_ok:
  assumes prep: "layout e xs w3" "timers_ok w3" "sole (c_page w3) xs a" "pending w3 = []"
    and n: "n \<in> set xs" "n \<noteq> a"
    and w4: "w4 = w3\<lparr>c_page := addClass ''active'' n (removeClass ''active'' a (c_page w3)), c_isSliding := False\<rparr>"
  shows "carousel_inv e xs w4"
proof (rule invI [where a = n])
  show "layout e xs w4"
    by (rule layout_same [OF prep(1)]) (simp_all add: w4 same_items_addI)
  show "timers_ok w4" by (rule timers_ok_same [OF prep(2)]) (simp add: w4 same_timers_def)
  show "sole (c_page w4) xs n" using prep(3) n by (auto simp: sole_def w4)
  show "sliding_ok xs n w4" using prep(4) by (simp add: sliding_ok_def w4 pending_def)
qed

text \<open>\<^verbatim>\<open>_slide\<close> when an item is active: the item it goes to, and the state in which it starts.\<close>

definition next_of :: "bool \<Rightarrow> eid option \<Rightarrow> eid \<Rightarrow> carousel \<Rightarrow> eid option" where
  "next_of isNext element a w =
     (case element of Some x \<Rightarrow> Some x | None \<Rightarrow> fst (getItemByDirection (if isNext then ''next'' else ''prev'') a w))"

definition announced :: "eid \<Rightarrow> eid \<Rightarrow> carousel \<Rightarrow> carousel" where
  "announced e a w = w\<lparr>c_items := items_around (c_page w) (Some a), c_page := fire ''slide.bs.carousel'' e (c_page w)\<rparr>"

lemma direction_items: "fst (getItemByDirection dir a (w\<lparr>c_items := ys\<rparr>)) = fst (getItemByDirection dir a w)"
  by (simp add: getItemByDirection_def getItemIndex_def Let_def split: option.splits)

lemma slide_alt:
  assumes "c_element w = Some e" "active_item (c_page w) e = Some a"
  shows "slide_towards prevents handler isNext element w =
     (case next_of isNext element a w of
        None \<Rightarrow> Inr (announced e a w)
      | Some n \<Rightarrow>
         if hasClass ''active'' (c_page w) n
         then Inr (w\<lparr>c_items := items_around (c_page w) (Some n), c_isSliding := False\<rparr>)
         else if prevents ''slide.bs.carousel'' e (fire ''slide.bs.carousel'' e (c_page w)) then Inr (announced e a w)
         else slide_to handler isNext e a n
           (n, if isNext then ''left'' else ''right'', indexOf (items_around (c_page w) (Some a)) a,
            indexOf (items_around (c_page w) (Some n)) n) (announced e a w))"
proof -
  have dir: "snd (getItemByDirection d a v) = v\<lparr>c_items := items_around (c_page v) (Some a)\<rparr>" for d v
    by (simp add: getItemByDirection_def getItemIndex_def Let_def split: option.splits)
  have trig: "triggerSlideEvent prevents e el v =
      (prevents ''slide.bs.carousel'' e (fire ''slide.bs.carousel'' e (c_page v)),
       v\<lparr>c_items := items_around (c_page v) (active_item (c_page v) e), c_page := fire ''slide.bs.carousel'' e (c_page v)\<rparr>)" for el v
    by (simp add: triggerSlideEvent_def getItemIndex_def Let_def)
  show ?thesis
  proof (cases element)
    case (Some x)
    then show ?thesis
      by (simp add: slide_towards_def slide_def assms next_of_def trig getItemIndex_def announced_def Let_def)
  next
    case None
    then show ?thesis
      by (cases "fst (getItemByDirection (if isNext then ''next'' else ''prev'') a w)")
        (simp_all add: slide_towards_def slide_def assms next_of_def trig getItemIndex_def announced_def Let_def case_prod_beta dir direction_items)
  qed
qed

lemma elem_at_mem: "elem_at xs i = Some x \<Longrightarrow> x \<in> set xs"
  by (auto simp: elem_at_def nth_mem nat_less_iff split: if_splits)

lemma direction_item:
  assumes "layout e xs w" "a \<in> set xs" "fst (getItemByDirection dir a w) = Some n"
  shows "n \<in> set xs"
proof -
  have "items_around (c_page w) (Some a) = xs" using assms(1,2) by (rule layoutD(4))
  then show ?thesis
    using assms(2,3) by (auto simp: getItemByDirection_def getItemIndex_def Let_def dest: elem_at_mem split: if_splits option.splits)
qed

lemma next_of_item:
  assumes "layout e xs w" "a \<in> set xs" "\<And>x. el = Some x \<Longrightarrow> x \<in> set xs" "next_of nx el a w = Some n"
  shows "n \<in> set xs"
  using assms direction_item [OF assms(1,2)] by (auto simp: next_of_def split: option.splits)

lemma announced_off: "same_off xs w (announced e a w)"
  by (simp add: announced_def same_off_def same_timers_def pending_def)

lemma item_at_mem: "item_at xs i = Some x \<Longrightarrow> x \<in> set xs"
proof -
  assume it: "item_at xs i = Some x"
  show ?thesis
  proof (cases i)
    case (AtNumber v)
    then show ?thesis using it by (cases v) (auto simp: item_at_def dest: elem_at_mem split: if_splits)
  next
    case (AtText s)
    then obtain k ks where "filter (\<lambda>k. show_nat k = s) [0..<length xs] = k # ks" "x = xs ! k"
      using it by (auto simp: item_at_def split: list.splits)
    then have "k \<in> set (filter (\<lambda>k. show_nat k = s) [0..<length xs])" by simp
    then show ?thesis using \<open>x = xs ! k\<close> by simp
  qed
qed

text \<open>\<^verbatim>\<open>to\<close> when an item is active.\<close>

lemma index_call_alt:
  assumes inv: "carousel_inv e xs w"
  shows "\<exists>a. sole (c_page w) xs a \<and> carousel_inv e xs (w\<lparr>c_active := Some a, c_items := xs\<rparr>)
    \<and> slide_index_call prevents handler i w =
     (let w2 = w\<lparr>c_active := Some a, c_items := xs\<rparr> in
      if js_lt (Some (of_int (int (length xs) - 1))) (index_value i) \<or> js_lt (index_value i) (Some 0) then Inr w2
      else if c_isSliding w2 then Inr (w2\<lparr>c_on_slid := c_on_slid w2 @ [i]\<rparr>)
      else if index_is (indexOf xs a) i then Inr (cycle False (pause False e w2))
      else slide_towards prevents handler (js_lt (Some (of_int (indexOf xs a))) (index_value i)) (item_at xs i) w2)"
proof -
  obtain a where a: "layout e xs w" "timers_ok w" "sole (c_page w) xs a" using inv by (rule invE)
  have act: "a \<in> set xs" "active_item (c_page w) e = Some a" "c_element w = Some e"
    using a active_item_sole layoutD(1) by (auto simp: sole_def)
  have xs: "items_around (c_page w) (Some a) = xs" using a(1) act(1) by (rule layoutD(4))
  have "same_off xs w (w\<lparr>c_active := Some a, c_items := xs\<rparr>)" by (simp add: same_off_def same_timers_def pending_def)
  then have "carousel_inv e xs (w\<lparr>c_active := Some a, c_items := xs\<rparr>)" by (rule inv_off [OF inv])
  then show ?thesis
    using a(3) by (intro exI [of _ a]) (simp add: slide_index_call_def act getItemIndex_def xs Let_def)
qed

text \<open>What the events fired at once must keep, as an interface: the operations are verified for every
  such function.\<close>

locale slid_handler =
  fixes handler :: "carousel \<Rightarrow> bs_error + carousel" and e :: eid and xs :: "eid list"
  assumes handler_inv: "carousel_inv e xs w \<Longrightarrow> \<not> c_isSliding w \<Longrightarrow> handler w = Inr w' \<Longrightarrow> carousel_inv e xs w'"
begin

lemma slide_to_inv:
  assumes inv: "carousel_inv e xs w" "\<not> c_isSliding w" and s: "sole (c_page w) xs a" and n: "n \<in> set xs" "n \<noteq> a"
    and run: "slide_to handler nx e a n ev w = Inr w'"
  shows "carousel_inv e xs w'"
proof -
  have p: "layout e xs w" "timers_ok w" "pending w = []"
    using inv by (auto simp: carousel_inv_def sliding_ok_def)
  note prep = slide_prep_ok [OF p(1,2) s p(3), of n]
  obtain w4 where w4: "w' = (if c_interval w \<noteq> None then cycle False w4 else w4)"
    and r: "(if hasClass ''slide'' (c_page (slide_prep e n w)) e
        then carousel_inv e xs w4
        else handler ((slide_prep e n w)\<lparr>c_page := addClass ''active'' n (removeClass ''active'' a (c_page (slide_prep e n w))),
               c_isSliding := False\<rparr>) = Inr w4)"
    using run animated_ok [OF prep(1-5) n refl refl, of nx ev]
    by (auto simp: slide_to_alt Let_def bindE_Inr_conv split: if_splits)
  have "carousel_inv e xs w4"
    using r handler_inv [OF direct_ok [OF prep(1-4) n refl]] by (auto split: if_splits)
  then show ?thesis using w4 inv_cycle by simp
qed

lemma slide_inv:
  assumes inv: "carousel_inv e xs w" "\<not> c_isSliding w" and el: "\<And>x. el = Some x \<Longrightarrow> x \<in> set xs"
    and run: "slide_towards prevents handler nx el w = Inr w'"
  shows "carousel_inv e xs w'"
proof -
  obtain a where a: "layout e xs w" "timers_ok w" "sole (c_page w) xs a" using inv(1) by (rule invE)
  have off: "carousel_inv e xs (announced e a w)" by (rule inv_off [OF inv(1) announced_off])
  have act: "a \<in> set xs" "active_item (c_page w) e = Some a" "c_element w = Some e"
    using a active_item_sole layoutD(1) by (auto simp: sole_def)
  show ?thesis
  proof (cases "next_of nx el a w")
    case None
    then show ?thesis using run off by (simp add: slide_alt [OF act(3,2)])
  next
    case (Some n)
    have n: "n \<in> set xs" by (rule next_of_item [OF a(1) act(1) el Some])
    show ?thesis
    proof (cases "hasClass ''active'' (c_page w) n")
      case True
      then have "same_off xs w w'"
        using run inv(2) by (auto simp: slide_alt [OF act(3,2)] Some same_off_def same_timers_def pending_def)
      then show ?thesis by (rule inv_off [OF inv(1)])
    next
      case False
      have ne: "n \<noteq> a" using False a(3) by (auto simp: sole_def)
      have "sole (c_page (announced e a w)) xs a" by (rule sole_off [OF announced_off a(3)])
      then show ?thesis
        using run off inv(2) slide_to_inv [OF off _ _ n ne]
        by (auto simp: slide_alt [OF act(3,2)] Some False announced_def split: if_splits)
    qed
  qed
qed

lemma index_call_inv:
  assumes inv: "carousel_inv e xs w" and run: "slide_index_call prevents handler i w = Inr w'"
  shows "carousel_inv e xs w'"
proof -
  obtain a where i2: "carousel_inv e xs (w\<lparr>c_active := Some a, c_items := xs\<rparr>)"
    and eq: "slide_index_call prevents handler i w =
     (let w2 = w\<lparr>c_active := Some a, c_items := xs\<rparr> in
      if js_lt (Some (of_int (int (length xs) - 1))) (index_value i) \<or> js_lt (index_value i) (Some 0) then Inr w2
      else if c_isSliding w2 then Inr (w2\<lparr>c_on_slid := c_on_slid w2 @ [i]\<rparr>)
      else if index_is (indexOf xs a) i then Inr (cycle False (pause False e w2))
      else slide_towards prevents handler (js_lt (Some (of_int (indexOf xs a))) (index_value i)) (item_at xs i) w2)"
    using index_call_alt [OF inv] by metis
  define w2 where "w2 = w\<lparr>c_active := Some a, c_items := xs\<rparr>"
  have q: "carousel_inv e xs (w2\<lparr>c_on_slid := ys\<rparr>)" for ys
    using i2 by (simp add: inv_on_slid w2_def)
  show ?thesis
    using run i2 q inv_cycle inv_pause slide_inv [OF i2 _ item_at_mem]
    unfolding eq w2_def [symmetric] Let_def by (auto split: if_splits)
qed

end

lemma run_slid_inv:
  assumes "\<And>m. n = Suc m \<Longrightarrow> slid_handler (fire_slid prevents m) e xs"
  shows "carousel_inv e xs w \<Longrightarrow> run_slid prevents n idxs w = Inr w' \<Longrightarrow> carousel_inv e xs w'"
proof (induction idxs arbitrary: w)
  case (Cons i idxs)
  then obtain m where m: "n = Suc m" by (cases n) auto
  obtain v where v: "slide_index_call prevents (fire_slid prevents m) i (w\<lparr>c_on_slid := remove1 i (c_on_slid w)\<rparr>) = Inr v"
      "run_slid prevents n idxs v = Inr w'"
    using Cons.prems(2) by (auto simp: m bindE_Inr_conv)
  have "carousel_inv e xs v"
    by (rule slid_handler.index_call_inv [OF assms [OF m] _ v(1)]) (simp add: inv_on_slid Cons.prems(1))
  then show ?case using Cons.IH v(2) by simp
qed simp

lemma fire_slid_handler: "slid_handler (fire_slid prevents n) e xs"
proof (induction n)
  case 0
  have run: "carousel_inv e xs w \<Longrightarrow> run_slid prevents 0 idxs w = Inr w' \<Longrightarrow> carousel_inv e xs w'" for w idxs w'
    by (rule run_slid_inv) simp_all
  show ?case
    by unfold_locales (simp only: fire_slid.simps, rule run, simp_all add: inv_slid_count)
next
  case (Suc n)
  have run: "carousel_inv e xs w \<Longrightarrow> run_slid prevents (Suc n) idxs w = Inr w' \<Longrightarrow> carousel_inv e xs w'" for w idxs w'
    by (rule run_slid_inv) (use Suc in \<open>simp_all del: fire_slid.simps\<close>)
  show ?case
    by unfold_locales (simp only: fire_slid.simps, rule run, simp_all only: inv_slid_count)
qed

interpretation slid_now: slid_handler "slid prevents" e xs for prevents e xs
  by unfold_locales (auto simp: slid_def intro: slid_handler.handler_inv [OF fire_slid_handler])

section \<open>Every operation keeps the invariant\<close>

lemma inv_slid: "carousel_inv e xs w \<Longrightarrow> slid prevents w = Inr w' \<Longrightarrow> carousel_inv e xs w'"
  using run_slid_inv [OF fire_slid_handler, where w = "w\<lparr>c_slid_count := Suc (c_slid_count w)\<rparr>"]
  by (simp add: slid_def inv_slid_count)

lemma inv_next: "carousel_inv e xs w \<Longrightarrow> carousel_next prevents w = Inr w' \<Longrightarrow> carousel_inv e xs w'"
  by (auto simp: carousel_next_def intro: slid_now.slide_inv split: if_splits)

lemma inv_prev: "carousel_inv e xs w \<Longrightarrow> carousel_prev prevents w = Inr w' \<Longrightarrow> carousel_inv e xs w'"
  by (auto simp: carousel_prev_def intro: slid_now.slide_inv split: if_splits)

lemma inv_to: "carousel_inv e xs w \<Longrightarrow> carousel_to prevents i w = Inr w' \<Longrightarrow> carousel_inv e xs w'"
  by (auto simp: carousel_to_def intro: slid_now.index_call_inv)

lemma inv_element: "carousel_inv e xs w \<Longrightarrow> c_element w = Some e"
  by (simp add: carousel_inv_def layout_def)

lemma inv_touch:
  "carousel_inv e xs (w\<lparr>c_touchStartX := x\<rparr>) = carousel_inv e xs w"
  "carousel_inv e xs (w\<lparr>c_touchDeltaX := x\<rparr>) = carousel_inv e xs w"
  by (simp_all add: carousel_inv_def layout_def timers_ok_def intervals_def sliding_ok_def pending_def)

lemma inv_clear_other:
  assumes "carousel_inv e xs w" "(k, TInterval) \<notin> set (c_timers w)"
  shows "carousel_inv e xs (clear_timer (Some k) w)"
  by (rule inv_core [OF assms(1)])
    (use assms in \<open>auto simp: same_core_def clear_timer_def pending_def carousel_inv_def
      intro: timers_ok_clear_other [unfolded clear_timer_def, simplified]\<close>)

lemma inv_handleSwipe:
  assumes "carousel_inv e xs w" "handleSwipe prevents w = Inr w'"
  shows "carousel_inv e xs w'"
proof (cases "\<bar>c_touchDeltaX w\<bar> \<le> 40")
  case True
  then show ?thesis using assms by (simp add: handleSwipe_def)
next
  case False
  have i: "carousel_inv e xs (w\<lparr>c_touchDeltaX := 0\<rparr>)" using assms(1) by (simp only: inv_touch)
  obtain v where v: "(if \<bar>c_touchDeltaX w\<bar> / c_touchDeltaX w > 0 then carousel_prev prevents (w\<lparr>c_touchDeltaX := 0\<rparr>)
      else Inr (w\<lparr>c_touchDeltaX := 0\<rparr>)) = Inr v"
      "(if \<bar>c_touchDeltaX w\<bar> / c_touchDeltaX w < 0 then carousel_next prevents v else Inr v) = Inr w'"
    using assms(2) by (auto simp only: handleSwipe_def False if_False Let_def bindE_Inr_conv)
  have "carousel_inv e xs v"
    using v(1) i inv_prev [OF i] by (metis sum.inject(2))
  then show ?thesis using v(2) inv_next by (metis sum.inject(2))
qed

lemma inv_touch_timer:
  assumes "carousel_inv e xs w"
  shows "carousel_inv e xs (case set_timer TTouch (clear_timer (c_touchTimeout w) w) of (k, v) \<Rightarrow> v\<lparr>c_touchTimeout := Some k\<rparr>)"
proof -
  define u where "u = clear_timer (c_touchTimeout w) w"
  have u: "carousel_inv e xs u"
  proof (cases "c_touchTimeout w")
    case None
    then show ?thesis using assms by (simp add: u_def clear_timer_def)
  next
    case (Some k)
    then have "(k, TInterval) \<notin> set (c_timers w)" using assms by (simp add: carousel_inv_def timers_ok_def)
    then show ?thesis using inv_clear_other [OF assms] Some by (simp add: u_def)
  qed
  have "timers_ok ((snd (set_timer TTouch u))\<lparr>c_touchTimeout := Some (c_next u)\<rparr>)"
    using u by (fastforce simp: carousel_inv_def timers_ok_def set_timer_def intervals_def)
  then show ?thesis
    using inv_core [OF u, of "(snd (set_timer TTouch u))\<lparr>c_touchTimeout := Some (c_next u)\<rparr>"]
    by (simp add: u_def [symmetric] set_timer_def same_core_def pending_def)
qed

lemma inv_touch_end:
  assumes inv: "carousel_inv e xs w" and run: "touch_end prevents ev w = Inr w'"
  shows "carousel_inv e xs w'"
proof -
  define w1 where "w1 = (if c_pointerEvent w \<and> by_touch ev then w\<lparr>c_touchDeltaX := client_x ev - c_touchStartX w\<rparr> else w)"
  have i1: "carousel_inv e xs w1" using inv by (simp add: w1_def inv_touch)
  obtain w2 where w2: "handleSwipe prevents w1 = Inr w2"
    and r: "(if c_opt w2 ''pause'' = JStr ''hover''
           then bindE (carousel_pause False w2) (\<lambda>w3.
                  let w4 = clear_timer (c_touchTimeout w3) w3; (k, w5) = set_timer TTouch w4
                  in Inr (w5\<lparr>c_touchTimeout := Some k\<rparr>))
           else Inr w2) = Inr w'"
    using run unfolding touch_end_def Let_def w1_def [symmetric] bindE_Inr_conv by blast
  have i2: "carousel_inv e xs w2" using inv_handleSwipe [OF i1 w2] .
  have i3: "carousel_inv e xs (pause False e w2)" by (rule inv_pause [OF i2])
  show ?thesis
    using r i2 inv_touch_timer [OF i3] inv_element [OF i2]
    by (auto simp: carousel_pause_def Let_def bindE_Inr_conv case_prod_beta split: if_splits)
qed

lemma inv_nextWhenVisible:
  "carousel_inv e xs w \<Longrightarrow> nextWhenVisible V prevents w = Inr w' \<Longrightarrow> carousel_inv e xs w'"
  by (auto simp: nextWhenVisible_def intro: inv_next split: option.splits if_splits)

lemma inv_clear_fired:
  assumes inv: "carousel_inv e xs w" and k: "map_of (c_timers w) k = Some t" "t \<noteq> TInterval"
  shows "carousel_inv e xs (clear_timer (Some k) w)"
proof -
  have "distinct (map fst (c_timers w))" using inv by (simp add: carousel_inv_def timers_ok_def)
  then have "(k, TInterval) \<notin> set (c_timers w)"
    using k by (metis map_of_eq_Some_iff option.inject)
  then show ?thesis by (rule inv_clear_other [OF inv])
qed

lemma inv_timer_fires:
  assumes inv: "carousel_inv e xs w" and run: "carousel_timer_fires V prevents k w = Inr w'"
  shows "carousel_inv e xs w'"
proof (cases "map_of (c_timers w) k")
  case None
  then show ?thesis using inv run by (simp add: carousel_timer_fires_def)
next
  case (Some t)
  note clear = inv_clear_fired [OF inv Some]
  show ?thesis
  proof (cases t)
    case TInterval
    then have "nextWhenVisible V prevents w = Inr w' \<or> carousel_next prevents w = Inr w'"
      using run Some by (simp add: carousel_timer_fires_def split: if_splits)
    then show ?thesis using inv_next [OF inv] inv_nextWhenVisible [OF inv] by blast
  next
    case (TSlid ev)
    have "slid prevents (clear_timer (Some k) w) = Inr w'"
      using run Some TSlid inv_element [OF inv] by (simp add: carousel_timer_fires_def Let_def)
    then show ?thesis using inv_slid clear TSlid by blast
  next
    case TTouch
    have "c_element (clear_timer (Some k) w) = Some e" using inv_element [OF inv] by (simp add: clear_timer_def)
    then have "w' = cycle False (clear_timer (Some k) w)"
      using run Some TTouch by (simp add: carousel_timer_fires_def carousel_cycle_def)
    then show ?thesis using inv_cycle clear TTouch by simp
  qed
qed

end
