(* ===== verification/Bs_Carousel_Live.thy ===== *)
theory Bs_Carousel_Live
  imports Bs_Carousel_Inv
begin

text \<open>
  The operations of \<^verbatim>\<open>Carousel\<close> return: with one item active no operation of an instance reads
  from a missing element, and the calls of \<^verbatim>\<open>to\<close> that wait for the event \<^verbatim>\<open>slid\<close> are run within the
  bound of \<^const>\<open>slid\<close>. The theory ends with the states that an instance reaches and their properties.
\<close>

section \<open>Operations return\<close>

definition animated :: "eid \<Rightarrow> carousel \<Rightarrow> bool" where
  "animated e w = hasClass ''slide'' (c_page w) e"

definition direct :: "eid \<Rightarrow> carousel \<Rightarrow> bool" where
  "direct e w \<longleftrightarrow> \<not> animated e w \<and> \<not> c_isSliding w"

text \<open>The result of a call in a state without transitions: no slide is under way after it, and either
  the calls that wait are untouched or all of them were run.\<close>

definition settled :: "eid \<Rightarrow> carousel \<Rightarrow> carousel \<Rightarrow> bool" where
  "settled e w w' \<longleftrightarrow> animated e w' = animated e w
     \<and> (direct e w \<longrightarrow> \<not> c_isSliding w' \<and> (c_on_slid w' = c_on_slid w \<or> c_on_slid w' = []))
     \<and> (c_isSliding w \<longrightarrow> c_isSliding w')"

lemma animated_same: "same_items (c_page w) (c_page w') \<Longrightarrow> animated e w' = animated e w"
  by (simp add: animated_def same_items_def)

lemma settled_core: "same_core w w' \<Longrightarrow> settled e w w'"
  by (simp add: settled_def same_core_def animated_def direct_def)

lemma settled_off: "same_off xs w w' \<Longrightarrow> settled e w w'"
  by (auto simp: settled_def same_off_def direct_def dest: animated_same)

lemma settled_trans: "settled e u v \<Longrightarrow> settled e v w \<Longrightarrow> settled e u w"
  by (auto simp: settled_def direct_def)

text \<open>What the function that fires \<^verbatim>\<open>slid\<close> at once must do in addition: return, when at most \<open>n\<close>
  calls wait.\<close>

locale slid_returning = slid_handler +
  fixes n :: nat
  assumes handler_returns: "carousel_inv e xs w \<Longrightarrow> direct e w \<Longrightarrow> length (c_on_slid w) \<le> n
    \<Longrightarrow> \<exists>w'. handler w = Inr w' \<and> \<not> animated e w' \<and> \<not> c_isSliding w' \<and> c_on_slid w' = []"
begin

lemma slide_to_returns:
  assumes inv: "carousel_inv e xs w" "\<not> c_isSliding w" and s: "sole (c_page w) xs a" and k: "k \<in> set xs" "k \<noteq> a"
    and few: "animated e w \<or> length (c_on_slid w) \<le> n"
  shows "\<exists>w'. slide_to handler nx e a k ev w = Inr w' \<and> settled e w w'"
proof -
  have p: "layout e xs w" "timers_ok w" "pending w = []"
    using inv by (auto simp: carousel_inv_def sliding_ok_def)
  note prep = slide_prep_ok [OF p(1,2) s p(3), of k]
  have an: "animated e (slide_prep e k w) = animated e w" by (rule animated_same [OF prep(6)])
  have cyc: "settled e v (if c_interval w \<noteq> None then cycle False v else v)" for v
    using settled_core [OF same_core_cycle] by (auto simp: settled_def)
  show ?thesis
  proof (cases "animated e w")
    case True
    define w4 where "w4 = (let w5 = item_interval k ((slide_prep e k w)\<lparr>c_page :=
        addClass (if nx then ''carousel-item-left'' else ''carousel-item-right'') k
          (addClass (if nx then ''carousel-item-left'' else ''carousel-item-right'') a
            (addClass (if nx then ''carousel-item-next'' else ''carousel-item-prev'') k (c_page (slide_prep e k w))))\<rparr>)
      in w5\<lparr>c_trans := await_end a (SlideDone k a (if nx then ''carousel-item-left'' else ''carousel-item-right'')
            (if nx then ''carousel-item-next'' else ''carousel-item-prev'') ev) (c_trans w5)\<rparr>)"
    have "slide_to handler nx e a k ev w = Inr (if c_interval w \<noteq> None then cycle False w4 else w4)"
      using True an by (simp add: slide_to_alt w4_def Let_def animated_def bindE_def)
    moreover have "same_items (c_page (slide_prep e k w)) (c_page w4)"
      by (simp add: w4_def Let_def same_items_addI)
    then have "settled e w w4" using an True inv(2) animated_same by (simp add: settled_def direct_def)
    ultimately show ?thesis using settled_trans cyc by blast
  next
    case False
    define w3 where "w3 = (slide_prep e k w)\<lparr>c_page := addClass ''active'' k (removeClass ''active'' a (c_page (slide_prep e k w))),
      c_isSliding := False\<rparr>"
    have i3: "carousel_inv e xs w3" by (rule direct_ok [OF prep(1-4) k]) (simp add: w3_def)
    have d3: "direct e w3" using False an by (simp add: direct_def animated_def w3_def)
    have "length (c_on_slid w3) \<le> n" using few False prep(7) by (simp add: w3_def)
    then obtain w4 where w4: "handler w3 = Inr w4" "\<not> animated e w4" "\<not> c_isSliding w4" "c_on_slid w4 = []"
      using handler_returns [OF i3 d3] by blast
    then have "slide_to handler nx e a k ev w = Inr (if c_interval w \<noteq> None then cycle False w4 else w4)"
      using False an by (simp add: slide_to_alt Let_def animated_def bindE_def w3_def [symmetric])
    moreover have "settled e w w4" using w4 False inv(2) by (simp add: settled_def)
    ultimately show ?thesis using settled_trans cyc by blast
  qed
qed

lemma slide_returns:
  assumes inv: "carousel_inv e xs w" "\<not> c_isSliding w" and el: "\<And>x. el = Some x \<Longrightarrow> x \<in> set xs"
    and few: "animated e w \<or> length (c_on_slid w) \<le> n"
  shows "\<exists>w'. slide_towards prevents handler nx el w = Inr w' \<and> settled e w w'"
proof -
  obtain a where a: "layout e xs w" "timers_ok w" "sole (c_page w) xs a" using inv(1) by (rule invE)
  have off: "carousel_inv e xs (announced e a w)" by (rule inv_off [OF inv(1) announced_off])
  have act: "a \<in> set xs" "active_item (c_page w) e = Some a" "c_element w = Some e"
    using a active_item_sole layoutD(1) by (auto simp: sole_def)
  have so: "settled e w (announced e a w)" by (rule settled_off [OF announced_off])
  show ?thesis
  proof (cases "next_of nx el a w")
    case None
    then show ?thesis using so by (simp add: slide_alt [OF act(3,2)])
  next
    case (Some k)
    have k: "k \<in> set xs" by (rule next_of_item [OF a(1) act(1) el Some])
    show ?thesis
    proof (cases "hasClass ''active'' (c_page w) k")
      case True
      then show ?thesis using inv(2) by (simp add: slide_alt [OF act(3,2)] Some settled_def direct_def animated_def)
    next
      case False
      have ne: "k \<noteq> a" using False a(3) by (auto simp: sole_def)
      have s: "sole (c_page (announced e a w)) xs a" by (rule sole_off [OF announced_off a(3)])
      have few': "animated e (announced e a w) \<or> length (c_on_slid (announced e a w)) \<le> n"
        using few by (simp add: animated_def announced_def)
      have "\<not> c_isSliding (announced e a w)" using inv(2) by (simp add: announced_def)
      from slide_to_returns [OF off this s k ne few']
      have "\<exists>w'. slide_to handler nx e a k ev (announced e a w) = Inr w' \<and> settled e w w'" for ev
        using settled_trans [OF so] by blast
      then show ?thesis using so by (simp add: slide_alt [OF act(3,2)] Some False)
    qed
  qed
qed

lemma index_call_returns:
  assumes inv: "carousel_inv e xs w" and few: "direct e w \<Longrightarrow> length (c_on_slid w) \<le> n"
  shows "\<exists>w'. slide_index_call prevents handler i w = Inr w' \<and> settled e w w'"
proof -
  obtain a where a: "sole (c_page w) xs a" and w2: "carousel_inv e xs (w\<lparr>c_active := Some a, c_items := xs\<rparr>)"
    and eq: "slide_index_call prevents handler i w =
     (let w2 = w\<lparr>c_active := Some a, c_items := xs\<rparr> in
      if js_lt (Some (of_int (int (length xs) - 1))) (index_value i) \<or> js_lt (index_value i) (Some 0) then Inr w2
      else if c_isSliding w2 then Inr (w2\<lparr>c_on_slid := c_on_slid w2 @ [i]\<rparr>)
      else if index_is (indexOf xs a) i then Inr (cycle False (pause False e w2))
      else slide_towards prevents handler (js_lt (Some (of_int (indexOf xs a))) (index_value i)) (item_at xs i) w2)"
    using index_call_alt [OF inv] by metis
  define w2 where "w2 = w\<lparr>c_active := Some a, c_items := xs\<rparr>"
  have i2: "carousel_inv e xs w2" using w2 by (simp add: w2_def)
  have s2: "settled e w w2" by (simp add: w2_def settled_def direct_def animated_def)
  consider "slide_index_call prevents handler i w = Inr w2"
    | "c_isSliding w2" "slide_index_call prevents handler i w = Inr (w2\<lparr>c_on_slid := c_on_slid w2 @ [i]\<rparr>)"
    | "slide_index_call prevents handler i w = Inr (cycle False (pause False e w2))"
    | "\<not> c_isSliding w2" "slide_index_call prevents handler i w =
        slide_towards prevents handler (js_lt (Some (of_int (indexOf xs a))) (index_value i)) (item_at xs i) w2"
    unfolding eq w2_def [symmetric] Let_def by argo
  then show ?thesis
  proof cases
    case 1
    then show ?thesis using s2 by blast
  next
    case 2
    then have "settled e w2 (w2\<lparr>c_on_slid := c_on_slid w2 @ [i]\<rparr>)" by (simp add: settled_def animated_def direct_def)
    then show ?thesis using 2 settled_trans [OF s2] by blast
  next
    case 3
    have "settled e w2 (cycle False (pause False e w2))"
      using settled_core same_core_cycle pause_effect(1) [OF inv_pending [OF i2]] settled_trans by blast
    then show ?thesis using 3 settled_trans [OF s2] by blast
  next
    case 4
    have few2: "animated e w2 \<or> length (c_on_slid w2) \<le> n"
      using few 4(1) by (auto simp: w2_def direct_def animated_def)
    have "\<exists>w'. slide_index_call prevents handler i w = Inr w' \<and> settled e w2 w'"
      unfolding 4(2) by (rule slide_returns [OF i2 4(1) item_at_mem few2])
    then show ?thesis using settled_trans [OF s2] by blast
  qed
qed

end

lemma run_slid_returns:
  assumes ret: "\<And>m. n = Suc m \<Longrightarrow> slid_returning (fire_slid prevents m) e xs m"
  shows "carousel_inv e xs w \<Longrightarrow> idxs = [] \<or> n > 0
    \<Longrightarrow> (direct e w \<Longrightarrow> length (c_on_slid w) \<le> n \<and> (c_on_slid w = idxs \<or> c_on_slid w = []))
    \<Longrightarrow> \<exists>w'. run_slid prevents n idxs w = Inr w' \<and> (direct e w \<longrightarrow> \<not> animated e w' \<and> \<not> c_isSliding w' \<and> c_on_slid w' = [])"
proof (induction idxs arbitrary: w)
  case Nil
  then show ?case by (auto simp: direct_def)
next
  case (Cons i idxs)
  then obtain m where m: "n = Suc m" using gr0_implies_Suc by auto
  define u where "u = w\<lparr>c_on_slid := remove1 i (c_on_slid w)\<rparr>"
  have u: "carousel_inv e xs u" using Cons.prems(1) by (simp add: u_def inv_on_slid)
  have du: "direct e u = direct e w" by (simp add: u_def direct_def animated_def)
  have few: "direct e u \<Longrightarrow> length (c_on_slid u) \<le> m \<and> (c_on_slid u = idxs \<or> c_on_slid u = [])"
    using Cons.prems(3) by (auto simp: du m) (auto simp: u_def)
  obtain v where v: "slide_index_call prevents (fire_slid prevents m) i u = Inr v" "settled e u v"
    using slid_returning.index_call_returns [OF ret [OF m] u] few by blast
  have iv: "carousel_inv e xs v"
    by (rule slid_handler.index_call_inv [OF fire_slid_handler u v(1)])
  have dv: "direct e v \<longleftrightarrow> direct e u" using v(2) by (auto simp: settled_def direct_def)
  have "direct e v \<Longrightarrow> length (c_on_slid v) \<le> n \<and> (c_on_slid v = idxs \<or> c_on_slid v = [])"
    using few v(2) by (auto simp: dv settled_def m)
  then obtain w' where "run_slid prevents n idxs v = Inr w'"
      "direct e v \<longrightarrow> \<not> animated e w' \<and> \<not> c_isSliding w' \<and> c_on_slid w' = []"
    using Cons.IH [OF iv] m by blast
  then show ?case using v(1) dv du by (simp add: m u_def [symmetric] bindE_def del: fire_slid.simps)
qed

lemma fire_slid_returning: "slid_returning (fire_slid prevents n) e xs n"
proof (induction n)
  case 0
  show ?case
    by (intro slid_returning.intro fire_slid_handler slid_returning_axioms.intro) (auto simp: direct_def animated_def)
next
  case (Suc n)
  have ret: "slid_returning (fire_slid prevents m) e xs m" if "Suc n = Suc m" for m using Suc that by blast
  show ?case
  proof (intro slid_returning.intro fire_slid_handler slid_returning_axioms.intro)
    fix w
    assume w: "carousel_inv e xs w" "direct e w" "length (c_on_slid w) \<le> Suc n"
    define u where "u = w\<lparr>c_slid_count := Suc (c_slid_count w)\<rparr>"
    have "carousel_inv e xs u" "direct e u" "c_on_slid u = c_on_slid w"
      using w by (simp_all add: u_def inv_slid_count direct_def animated_def)
    then show "\<exists>w'. fire_slid prevents (Suc n) w = Inr w' \<and> \<not> animated e w' \<and> \<not> c_isSliding w' \<and> c_on_slid w' = []"
      using run_slid_returns [OF ret, where w = u and idxs = "c_on_slid w"] w(3) unfolding fire_slid.simps u_def [symmetric] by simp
  qed
qed

lemma slid_returns: "carousel_inv e xs w \<Longrightarrow> \<exists>w'. slid prevents w = Inr w'"
proof -
  assume w: "carousel_inv e xs w"
  define u where "u = w\<lparr>c_slid_count := Suc (c_slid_count w)\<rparr>"
  have "carousel_inv e xs u" "c_on_slid u = c_on_slid w" using w by (simp_all add: u_def inv_slid_count)
  moreover have "slid_returning (fire_slid prevents m) e xs m" for m by (rule fire_slid_returning)
  ultimately show ?thesis
    using run_slid_returns [of "Suc (length (c_on_slid w))" prevents e xs u "c_on_slid w"]
    unfolding slid_def fire_slid.simps u_def [symmetric] by auto
qed

interpretation slid_bounded: slid_returning "slid prevents" e xs n for prevents e xs n
proof (intro slid_returning.intro slid_now.slid_handler_axioms slid_returning_axioms.intro)
  fix w
  assume w: "carousel_inv e xs w" "direct e w" "length (c_on_slid w) \<le> n"
  show "\<exists>w'. slid prevents w = Inr w' \<and> \<not> animated e w' \<and> \<not> c_isSliding w' \<and> c_on_slid w' = []"
    unfolding slid_def by (rule slid_returning.handler_returns [OF fire_slid_returning w(1,2)]) simp
qed

lemma next_prev_return:
  assumes "carousel_inv e xs w"
  shows "\<exists>w'. carousel_next prevents w = Inr w'" "\<exists>w'. carousel_prev prevents w = Inr w'"
proof -
  have "\<not> c_isSliding w \<Longrightarrow> \<exists>w'. slide_towards prevents (slid prevents) nx None w = Inr w'" for nx
    using slid_bounded.slide_returns [OF assms, of None "length (c_on_slid w)" prevents prevents nx] by auto
  then show "\<exists>w'. carousel_next prevents w = Inr w'" "\<exists>w'. carousel_prev prevents w = Inr w'"
    by (simp_all add: carousel_next_def carousel_prev_def)
qed

lemma to_returns: "carousel_inv e xs w \<Longrightarrow> \<exists>w'. carousel_to prevents i w = Inr w'"
  using slid_bounded.index_call_returns [of e xs w "length (c_on_slid w)" prevents prevents i] by (auto simp: carousel_to_def)

lemma handleSwipe_returns:
  assumes inv: "carousel_inv e xs w"
  shows "\<exists>w'. handleSwipe prevents w = Inr w'"
proof -
  have i: "carousel_inv e xs (w\<lparr>c_touchDeltaX := 0\<rparr>)" using inv by (simp only: inv_touch)
  obtain v where v: "carousel_prev prevents (w\<lparr>c_touchDeltaX := 0\<rparr>) = Inr v" using next_prev_return(2) [OF i] by blast
  then have "\<exists>w'. carousel_next prevents v = Inr w'" "\<exists>w'. carousel_next prevents (w\<lparr>c_touchDeltaX := 0\<rparr>) = Inr w'"
    using next_prev_return(1) inv_prev [OF i] i by blast+
  then show ?thesis using v by (simp add: handleSwipe_def Let_def bindE_def)
qed

lemma touch_end_returns:
  assumes inv: "carousel_inv e xs w"
  shows "\<exists>w'. touch_end prevents ev w = Inr w'"
proof -
  define w1 where "w1 = (if c_pointerEvent w \<and> by_touch ev then w\<lparr>c_touchDeltaX := client_x ev - c_touchStartX w\<rparr> else w)"
  have i1: "carousel_inv e xs w1" using inv by (simp add: w1_def inv_touch)
  obtain w2 where w2: "handleSwipe prevents w1 = Inr w2" using handleSwipe_returns [OF i1] by blast
  have "c_element w2 = Some e" using inv_element [OF inv_handleSwipe [OF i1 w2]] .
  then show ?thesis
    unfolding touch_end_def Let_def w1_def [symmetric] w2 by (simp add: bindE_def carousel_pause_def case_prod_beta)
qed

lemma timer_returns:
  assumes inv: "carousel_inv e xs w"
  shows "\<exists>w'. carousel_timer_fires V prevents k w = Inr w'"
proof (cases "map_of (c_timers w) k")
  case None
  then show ?thesis by (simp add: carousel_timer_fires_def)
next
  case (Some t)
  note el = inv_element [OF inv]
  show ?thesis
  proof (cases t)
    case TInterval
    then show ?thesis using Some el next_prev_return(1) [OF inv] by (simp add: carousel_timer_fires_def nextWhenVisible_def)
  next
    case (TSlid ev)
    then have "carousel_inv e xs (clear_timer (Some k) w)" using inv_clear_fired [OF inv Some] by simp
    then show ?thesis using Some TSlid el slid_returns by (simp add: carousel_timer_fires_def Let_def)
  next
    case TTouch
    then show ?thesis using Some el by (simp add: carousel_timer_fires_def carousel_cycle_def clear_timer_def)
  qed
qed

section \<open>Reachable states\<close>

text \<open>The inputs of an instance: calls, keys, touches, timers and the ends of transitions.\<close>

datatype carousel_input = CNext | CPrev | CTo slide_index | CPause bool | CCycle bool | CVisible
  | CTimer nat | CTransitionEnd eid | CEmulated nat
  | CTouchStart touch_event | CTouchMove touch_event | CTouchEnd touch_event | CKey string nat

fun carousel_handle :: "browser_view \<Rightarrow> prevents \<Rightarrow> carousel_input \<Rightarrow> carousel \<Rightarrow> bs_error + carousel" where
  "carousel_handle V prevents CNext w = carousel_next prevents w"
| "carousel_handle V prevents CPrev w = carousel_prev prevents w"
| "carousel_handle V prevents (CTo i) w = carousel_to prevents i w"
| "carousel_handle V prevents (CPause ev) w = carousel_pause ev w"
| "carousel_handle V prevents (CCycle ev) w = carousel_cycle ev w"
| "carousel_handle V prevents CVisible w = nextWhenVisible V prevents w"
| "carousel_handle V prevents (CTimer k) w = carousel_timer_fires V prevents k w"
| "carousel_handle V prevents (CTransitionEnd x) w = Inr (carousel_transitionend x w)"
| "carousel_handle V prevents (CEmulated k) w = Inr (carousel_emulator k w)"
| "carousel_handle V prevents (CTouchStart ev) w = touch_start ev w"
| "carousel_handle V prevents (CTouchMove ev) w = touch_move ev w"
| "carousel_handle V prevents (CTouchEnd ev) w = touch_end prevents ev w"
| "carousel_handle V prevents (CKey tag which) w = fst (carousel_keydown prevents tag which w)"

text \<open>A touch event has a touch.\<close>

fun touched :: "carousel_input \<Rightarrow> bool" where
  "touched (CTouchStart ev) = (first_touch ev \<noteq> None)"
| "touched (CTouchMove ev) = (first_touch ev \<noteq> None)"
| "touched _ = True"

text \<open>The markup of a carousel: its items have the same parent and one of them is active; the indicators
  are not items.\<close>

definition carousel_markup :: "page \<Rightarrow> eid \<Rightarrow> eid list \<Rightarrow> bool" where
  "carousel_markup p e xs \<longleftrightarrow>
     distinct xs \<and> e \<notin> set xs \<and> filter (is_item p) (descendants p e) = xs
     \<and> (\<forall>x \<in> set xs. items_around p (Some x) = xs)
     \<and> (case find (hasClass ''carousel-indicators'' p) (descendants p e) of
          None \<Rightarrow> True | Some d \<Rightarrow> set (descendants p d) \<inter> set xs = {})
     \<and> length (filter (hasClass ''active'' p) xs) = 1"

inductive carousel_reach :: "eid \<Rightarrow> eid list \<Rightarrow> carousel \<Rightarrow> bool" for e xs where
  start: "carousel_markup p e xs \<Longrightarrow> new_Carousel V p e config = Inr w \<Longrightarrow> carousel_reach e xs w"
| input: "carousel_reach e xs w \<Longrightarrow> carousel_handle V prevents i w = Inr w' \<Longrightarrow> carousel_reach e xs w'"

lemma sole_iff: "distinct xs \<Longrightarrow> length (filter (hasClass ''active'' p) xs) = 1 \<longleftrightarrow> (\<exists>a. sole p xs a)"
proof (induction xs)
  case (Cons x xs)
  have "(\<exists>a. sole p (x # xs) a) \<longleftrightarrow>
      (if hasClass ''active'' p x then filter (hasClass ''active'' p) xs = [] else \<exists>a. sole p xs a)"
    using Cons.prems by (auto simp: sole_def filter_empty_conv)
  then show ?case using Cons by auto
qed (simp add: sole_def)

definition listening :: "carousel \<Rightarrow> carousel \<Rightarrow> bool" where
  "listening w w' \<longleftrightarrow> same_items (c_page w) (c_page w') \<and> same_timers w w' \<and> c_element w' = c_element w
     \<and> c_indicators w' = c_indicators w \<and> c_isSliding w' = c_isSliding w \<and> c_trans w' = c_trans w
     \<and> hasClass ''active'' (c_page w') = hasClass ''active'' (c_page w)"

lemma listening_listeners: "listening w (w\<lparr>c_listeners := ls\<rparr>)" "listening w w"
  by (simp_all add: listening_def same_timers_def)

lemma listening_trans: "listening u v \<Longrightarrow> listening v w \<Longrightarrow> listening u w"
  unfolding listening_def same_timers_def using same_items_trans by auto

lemma listening_touch: "listening w (addTouchEventListeners e w)"
  unfolding addTouchEventListeners_def
  by (simp add: listening_listeners) (simp add: listening_def same_timers_def fun_eq_iff)

lemma addEventListeners_listening: "listening w (addEventListeners e w)"
proof -
  define w1 where "w1 = (if truthy (c_opt w ''keyboard'') then w\<lparr>c_listeners := c_listeners w @ [''keydown'']\<rparr> else w)"
  define w2 where "w2 = (if c_opt w1 ''pause'' = JStr ''hover''
                then w1\<lparr>c_listeners := c_listeners w1 @ [''mouseenter'', ''mouseleave'']\<rparr> else w1)"
  have "listening w w1" by (simp add: w1_def listening_listeners)
  moreover have "listening w1 w2" by (simp add: w2_def listening_listeners)
  ultimately have "listening w w2" by (rule listening_trans)
  moreover have "addEventListeners e w = (if truthy (c_opt w2 ''touch'') then addTouchEventListeners e w2 else w2)"
    unfolding addEventListeners_def Let_def w1_def w2_def ..
  ultimately show ?thesis using listening_trans [OF _ listening_touch] by metis
qed

lemma inv_start:
  assumes m: "carousel_markup p e xs" and w: "new_Carousel V p e config = Inr w"
  shows "carousel_inv e xs w"
proof -
  obtain c where c: "w = addEventListeners e
         \<lparr>c_page = p, c_element = Some e, c_config = c, c_items = [], c_interval = None, c_active = None,
          c_isPaused = False, c_isSliding = False, c_touchTimeout = None, c_touchStartX = 0, c_touchDeltaX = 0,
          c_indicators = find (hasClass ''carousel-indicators'' p) (descendants p e),
          c_touchSupported = has_touch V, c_pointerEvent = has_pointer V, c_trans = no_transitions,
          c_timers = [], c_next = 1, c_on_slid = [], c_slid_count = 0, c_listeners = []\<rparr>"
    using w unfolding new_Carousel_def bindE_Inr_conv by blast
  define w0 where "w0 = \<lparr>c_page = p, c_element = Some e, c_config = c, c_items = [], c_interval = None, c_active = None,
          c_isPaused = False, c_isSliding = False, c_touchTimeout = None, c_touchStartX = 0, c_touchDeltaX = 0,
          c_indicators = find (hasClass ''carousel-indicators'' p) (descendants p e),
          c_touchSupported = has_touch V, c_pointerEvent = has_pointer V, c_trans = no_transitions,
          c_timers = [], c_next = 1, c_on_slid = [], c_slid_count = 0, c_listeners = []\<rparr>"
  have l: "listening w0 w" unfolding c w0_def [symmetric] by (rule addEventListeners_listening)
  have f: "same_items p (c_page w)" "c_element w = Some e" "c_timers w = []" "c_interval w = None" "c_touchTimeout w = None"
    "c_indicators w = find (hasClass ''carousel-indicators'' p) (descendants p e)" "c_isSliding w = False"
    "c_trans w = no_transitions" "\<And>x. hasClass ''active'' (c_page w) x = hasClass ''active'' p x"
    using l by (simp_all add: listening_def w0_def same_timers_def)
  obtain a where a: "sole p xs a" using m sole_iff [of xs p] unfolding carousel_markup_def by blast
  have "descendants (c_page w) = descendants p" "is_item (c_page w) = is_item p"
    using f(1) tree_cong(2) [of "c_page w" p] by (simp_all add: same_items_def)
  then have "layout e xs w"
    using m items_around_same [OF f(1)] by (simp add: layout_def carousel_markup_def f split: option.splits)
  moreover have "timers_ok w" by (simp add: timers_ok_def intervals_def f)
  moreover have "sole (c_page w) xs a" using a by (simp add: sole_def f)
  moreover have "sliding_ok xs a w" by (simp add: sliding_ok_def f pending_def no_transitions_def)
  ultimately show ?thesis by (rule invI)
qed

lemma inv_handle:
  assumes inv: "carousel_inv e xs w" and run: "carousel_handle V prevents i w = Inr w'"
  shows "carousel_inv e xs w'"
proof (cases i)
  case (CPause ev)
  then show ?thesis using run inv_pause [OF inv] inv_element [OF inv] by (auto simp: carousel_pause_def)
next
  case (CCycle ev)
  then show ?thesis using run inv_cycle [OF inv] inv_element [OF inv] by (auto simp: carousel_cycle_def)
next
  case (CTouchStart ev)
  then show ?thesis using run inv by (auto simp: touch_start_def inv_touch split: if_splits option.splits)
next
  case (CTouchMove ev)
  then show ?thesis
    using run inv by (auto simp: touch_move_def inv_touch simp del: not_None_eq split: if_splits option.splits)
next
  case (CKey tag which)
  then show ?thesis
    using run inv inv_next [OF inv] inv_prev [OF inv] by (auto simp: carousel_keydown_def split: if_splits)
qed (use run inv_next [OF inv] inv_prev [OF inv] inv_to [OF inv] inv_nextWhenVisible [OF inv] inv_timer_fires [OF inv]
    inv_transitionend [OF inv] inv_emulator [OF inv] inv_touch_end [OF inv] in \<open>auto\<close>)

lemma carousel_reach_inv: "carousel_reach e xs w \<Longrightarrow> carousel_inv e xs w"
  by (induction rule: carousel_reach.induct) (auto intro: inv_start inv_handle)

text \<open>A carousel of two items that slides, and the state it starts in.\<close>

definition demo_page :: page where
  "demo_page = (bare_page (Node 0 [Node 1 [Node 2 [Node 3 [], Node 4 []]], Node 9 []]))
     \<lparr>class_list := (\<lambda>_. [])(1 := [''carousel'', ''slide''], 3 := [''carousel-item'', ''active''], 4 := [''carousel-item''])\<rparr>"

definition demo_browser :: browser_view where
  "demo_browser = \<lparr>page_visible = (\<lambda>_ _. True), has_visibility = False, has_touch = False, has_pointer = False\<rparr>"

definition demo_carousel :: carousel where
  "demo_carousel = \<lparr>c_page = demo_page, c_element = Some 1, c_config = carousel_Default, c_items = [], c_interval = None,
     c_active = None, c_isPaused = False, c_isSliding = False, c_touchTimeout = None, c_touchStartX = 0, c_touchDeltaX = 0,
     c_indicators = None, c_touchSupported = False, c_pointerEvent = False, c_trans = no_transitions,
     c_timers = [], c_next = 1, c_on_slid = [], c_slid_count = 0, c_listeners = [''keydown'', ''mouseenter'', ''mouseleave'']\<rparr>"

lemma demo_config: "carousel_getConfig Map.empty = Inr carousel_Default"
proof -
  have "typeCheckConfig carousel_Default carousel_DefaultType = Inr ()" by code_simp
  then show ?thesis by (simp add: carousel_getConfig_def extends_def bindE_def Let_def)
qed

lemma demo_markup: "carousel_markup demo_page 1 [3, 4]"
  by code_simp

lemma demo_carousel_new: "new_Carousel demo_browser demo_page 1 Map.empty = Inr demo_carousel"
proof -
  have "find (hasClass ''carousel-indicators'' demo_page) (descendants demo_page 1) = None" by code_simp
  moreover have "truthy (opt carousel_Default ''keyboard'')" "opt carousel_Default ''pause'' = JStr ''hover''"
    "truthy (opt carousel_Default ''touch'')" by code_simp+
  ultimately show ?thesis
    by (simp add: new_Carousel_def demo_config bindE_def demo_browser_def demo_carousel_def addEventListeners_def
        addTouchEventListeners_def Let_def)
qed

lemma demo_reach: "carousel_reach 1 [3, 4] demo_carousel"
  by (rule carousel_reach.start [OF demo_markup demo_carousel_new])

lemma demo_cycling: "carousel_reach 1 [3, 4] (cycle False demo_carousel)"
  by (rule carousel_reach.input [OF demo_reach, where i = "CCycle False"]) (simp add: carousel_cycle_def demo_carousel_def)

text \<open>C24. The items of a carousel stay consistent whatever is done to an instance: after any sequence
  of calls, keys, touches, timers and ends of transitions exactly one item is active; while a slide is
  under way exactly one callback waits for the end of a transition, and otherwise none does; and no
  interval timer runs but the one the instance knows, so that \<^verbatim>\<open>pause\<close> stops every one.\<close>

theorem carousel_one_active:
  assumes "carousel_reach e xs w"
  shows "length (filter (hasClass ''active'' (c_page w)) xs) = 1
    \<and> length (pending w) = (if c_isSliding w then 1 else 0)
    \<and> filter (\<lambda>t. snd t = TInterval) (c_timers w) = (case c_interval w of None \<Rightarrow> [] | Some k \<Rightarrow> [(k, TInterval)])"
proof -
  have inv: "carousel_inv e xs w" using assms by (rule carousel_reach_inv)
  then obtain a where a: "layout e xs w" "timers_ok w" "sole (c_page w) xs a" "sliding_ok xs a w" by (rule invE)
  have "length (filter (hasClass ''active'' (c_page w)) xs) = 1" using a(3) sole_iff [OF layoutD(2) [OF a(1)]] by blast
  moreover have "length (pending w) = (if c_isSliding w then 1 else 0)" using a(4) by (auto simp: sliding_ok_def split: if_splits)
  moreover have "filter (\<lambda>t. snd t = TInterval) (c_timers w) = (case c_interval w of None \<Rightarrow> [] | Some k \<Rightarrow> [(k, TInterval)])"
    using a(2) by (simp add: timers_ok_def intervals_def)
  ultimately show ?thesis by blast
qed

theorem carousel_one_active_witness:
  "length (filter (hasClass ''active'' (c_page (cycle False demo_carousel))) [3, 4]) = 1"
  using carousel_one_active [OF demo_cycling] by blast

text \<open>C25. No input makes a carousel throw, and the calls of \<^verbatim>\<open>to\<close> that wait for the event \<^verbatim>\<open>slid\<close> are run
  to the end, also when each of them fires the event again: in every reachable state every call, key,
  timer, end of a transition and touch (that has a touch) returns.\<close>

theorem carousel_handle_returns:
  assumes reach: "carousel_reach e xs w" and "touched i"
  shows "\<exists>w'. carousel_handle V prevents i w = Inr w'"
proof -
  have inv: "carousel_inv e xs w" using reach by (rule carousel_reach_inv)
  note el = inv_element [OF inv] and nx = next_prev_return [OF inv]
  have vis: "\<exists>w'. nextWhenVisible V prevents w = Inr w'" using nx el by (simp add: nextWhenVisible_def)
  show ?thesis
  proof (cases i)
    case (CTimer k)
    have "\<exists>w'. carousel_timer_fires V prevents k w = Inr w'"
      using timer_returns [OF inv] by blast
    then show ?thesis using CTimer by simp
  next
    case (CTouchEnd ev)
    then show ?thesis using touch_end_returns [OF inv] by simp
  next
    case (CTouchStart ev)
    then show ?thesis using assms(2) by (auto simp: touch_start_def)
  next
    case (CTouchMove ev)
    then show ?thesis using assms(2) by (auto simp: touch_move_def)
  qed (use nx vis el to_returns [OF inv] in \<open>simp_all add: carousel_pause_def carousel_cycle_def carousel_keydown_def\<close>)
qed

theorem carousel_handle_returns_witness:
  "\<exists>w'. carousel_handle demo_browser (\<lambda>_ _ _. False) (CTimer 1) (cycle False demo_carousel) = Inr w'"
  by (rule carousel_handle_returns [OF demo_cycling]) simp

section \<open>Moving to the neighbour\<close>

text \<open>A slide to \<open>k\<close>, once its transition has ended; without calls that wait for its end.\<close>

lemma slide_to_arrives:
  assumes inv: "carousel_inv e xs w" "\<not> c_isSliding w" and s: "sole (c_page w) xs a" and k: "k \<in> set xs" "k \<noteq> a"
    and none: "c_on_slid w = []" and run: "slide_to (slid prevents) nx e a k ev w = Inr w'"
  shows "sole (c_page (carousel_transitionend a w')) xs k"
proof -
  have p: "layout e xs w" "timers_ok w" "pending w = []"
    using inv by (auto simp: carousel_inv_def sliding_ok_def)
  note prep = slide_prep_ok [OF p(1,2) s p(3), of k]
  define d where "d = (if nx then ''carousel-item-left'' else ''carousel-item-right'')"
  define r where "r = (if nx then ''carousel-item-next'' else ''carousel-item-prev'')"
  have dr: "d \<in> {''carousel-item-left'', ''carousel-item-right''}" "r \<in> {''carousel-item-next'', ''carousel-item-prev''}"
    by (simp_all add: d_def r_def)
  have core: "same_core v (if c_interval w \<noteq> None then cycle False v else v)" for v
    using same_core_cycle by (auto simp: same_core_def)
  show ?thesis
  proof (cases "hasClass ''slide'' (c_page (slide_prep e k w)) e")
    case True
    define w5 where "w5 = item_interval k ((slide_prep e k w)\<lparr>c_page := addClass d k (addClass d a (addClass r k (c_page (slide_prep e k w))))\<rparr>)"
    define w4 where "w4 = w5\<lparr>c_trans := await_end a (SlideDone k a d r ev) (c_trans w5)\<rparr>"
    have "w' = (if c_interval w \<noteq> None then cycle False w4 else w4)"
      using run True by (auto simp: slide_to_alt w4_def w5_def Let_def d_def [symmetric] r_def [symmetric] bindE_def)
    then have c: "same_core w4 w'" using core by simp
    have "pending w5 = []" using prep(4) by (simp add: w5_def pending_def)
    then have "pending w' = [(a, Callback (SlideDone k a d r ev))]"
      using c pending_await [where w = w5 and x = a and cb = "SlideDone k a d r ev"] by (simp add: same_core_def w4_def)
    moreover have "hasClass ''active'' (c_page w') x = hasClass ''active'' (c_page (slide_prep e k w)) x" for x
      using c dr by (auto simp: same_core_def w4_def w5_def)
    ultimately show ?thesis
      using prep(3) k slide_done_frame(2) [OF dr] by (auto simp: transitionend_slides(1) sole_def)
  next
    case False
    define w3 where "w3 = (slide_prep e k w)\<lparr>c_page := addClass ''active'' k (removeClass ''active'' a (c_page (slide_prep e k w))),
      c_isSliding := False\<rparr>"
    have o3: "c_on_slid w3 = []" "pending w3 = []" using prep(4,7) none by (simp_all add: w3_def pending_def)
    have "slid prevents w3 = Inr (w3\<lparr>c_slid_count := Suc (c_slid_count w3)\<rparr>)"
      by (simp add: slid_def o3)
    then have "w' = (if c_interval w \<noteq> None then cycle False (w3\<lparr>c_slid_count := Suc (c_slid_count w3)\<rparr>)
        else w3\<lparr>c_slid_count := Suc (c_slid_count w3)\<rparr>)"
      using run False by (auto simp: slide_to_alt Let_def bindE_def w3_def)
    then have c: "same_core (w3\<lparr>c_slid_count := Suc (c_slid_count w3)\<rparr>) w'" using core by simp
    then have "pending w' = []" "c_page w' = c_page w3" using o3(2) by (simp_all add: same_core_def pending_def)
    then show ?thesis
      using prep(3) k transitionend_other(1) [of w' a] by (auto simp: sole_def w3_def)
  qed
qed

definition neighbour :: "bool \<Rightarrow> bool \<Rightarrow> nat \<Rightarrow> nat \<Rightarrow> nat" where
  "neighbour forth wrap i n =
     (if forth then if i + 1 < n then i + 1 else if wrap then 0 else i
      else if 0 < i then i - 1 else if wrap then n - 1 else i)"

lemma neighbour_less: "i < n \<Longrightarrow> neighbour forth wrap i n < n"
  by (auto simp: neighbour_def)

lemma next_of_neighbour:
  assumes l: "layout e xs w" and i: "i < length xs"
  shows "next_of nx None (xs ! i) w = Some (xs ! neighbour nx (truthy (c_opt w ''wrap'')) i (length xs))"
proof -
  have it: "items_around (c_page w) (Some (xs ! i)) = xs" and ix: "indexOf xs (xs ! i) = int i"
    using l i layoutD(4) [OF l] indexOf_nth [OF layoutD(2) [OF l]] by simp_all
  have f: "fst (getItemByDirection d (xs ! i) w) =
     (if ((d = ''prev'' \<and> int i = 0) \<or> (d = ''next'' \<and> int i = int (length xs) - 1)) \<and> \<not> truthy (c_opt w ''wrap'') then Some (xs ! i)
      else case js_rem (int i + (if d = ''prev'' then -1 else 1)) (int (length xs)) of
          None \<Rightarrow> None
        | Some j \<Rightarrow> if j = -1 then elem_at xs (int (length xs) - 1) else elem_at xs j)" for d
    by (simp add: getItemByDirection_def getItemIndex_def Let_def it ix split: option.splits)
  show ?thesis
  proof (cases nx)
    case True
    show ?thesis
    proof (cases "i + 1 < length xs")
      case True
      then have "js_rem (int i + 1) (int (length xs)) = Some (int i + 1)" by (auto simp: js_rem_def)
      then show ?thesis using \<open>nx\<close> True by (simp add: next_of_def f neighbour_def elem_at_def nat_add_distrib)
    next
      case False
      then have n: "int (length xs) = int i + 1" using i by simp
      then have "js_rem (int i + 1) (int (length xs)) = Some 0" by (simp add: js_rem_def)
      then show ?thesis using \<open>nx\<close> False n i by (auto simp: next_of_def f neighbour_def elem_at_def)
    qed
  next
    case False
    show ?thesis
    proof (cases "0 < i")
      case True
      then have "js_rem (int i - 1) (int (length xs)) = Some (int i - 1)" using i by (auto simp: js_rem_def sgn_if)
      then show ?thesis using False True i by (auto simp: next_of_def f neighbour_def elem_at_def nat_diff_distrib)
    next
      case z: False
      then have i0: "i = 0" by simp
      have pred: "nat (int (length xs) - 1) = length xs - Suc 0" by simp
      have "js_rem (-1) (int (length xs)) = Some (- (1 mod int (length xs)))" using i by (auto simp: js_rem_def)
      then show ?thesis
        using False z i f [where d = "''prev''", simplified, unfolded i0] by (cases "length xs = 1") (auto simp: pred next_of_def neighbour_def elem_at_def nat_diff_distrib)
    qed
  qed
qed

text \<open>\<^verbatim>\<open>next\<close> and \<^verbatim>\<open>prev\<close> lead to the neighbour of the active item: when no slide is under way, no
  handler prevents the event and no call waits, the item after (before) the active one is the active one
  once the transition of the slide has ended; from the last (first) item the carousel goes on at the
  other end when it may wrap, and stays where it is otherwise.\<close>

theorem next_prev_reach_neighbour:
  assumes reach: "carousel_reach e xs w" and idle: "\<not> c_isSliding w" "c_on_slid w = []"
    and i: "i < length xs" "hasClass ''active'' (c_page w) (xs ! i)" and np: "never_prevents prevents ''slide.bs.carousel''"
  shows "\<exists>w'. (if forth then carousel_next prevents w else carousel_prev prevents w) = Inr w'
     \<and> hasClass ''active'' (c_page (carousel_transitionend (xs ! i) w'))
         (xs ! neighbour forth (truthy (c_opt w ''wrap'')) i (length xs))"
proof -
  have inv: "carousel_inv e xs w" using reach by (rule carousel_reach_inv)
  obtain a where a: "layout e xs w" "timers_ok w" "sole (c_page w) xs a" "sliding_ok xs a w" using inv by (rule invE)
  have ai: "a = xs ! i" using a(3) i by (auto simp: sole_def)
  define k where "k = xs ! neighbour forth (truthy (c_opt w ''wrap'')) i (length xs)"
  have k: "next_of forth None a w = Some k" "k \<in> set xs"
    using next_of_neighbour [OF a(1) i(1)] neighbour_less [OF i(1)] by (simp_all add: ai k_def)
  have act: "active_item (c_page w) e = Some a" "c_element w = Some e" using a active_item_sole layoutD(1) by auto
  obtain w' where w': "slide_towards prevents (slid prevents) forth None w = Inr w'"
    using slid_bounded.slide_returns [OF inv idle(1), of None 0 prevents prevents forth] idle(2) by auto
  have "sole (c_page (carousel_transitionend a w')) xs k"
  proof (cases "k = a")
    case True
    then have "w' = w\<lparr>c_items := items_around (c_page w) (Some k), c_isSliding := False\<rparr>"
      using w' k(1) a(3) by (simp add: slide_alt [OF act(2,1)] sole_def)
    moreover have "pending w = []" using a(4) idle(1) by (simp add: sliding_ok_def)
    ultimately show ?thesis
      using a(3) True transitionend_other(1) [of w' a] by (simp add: pending_def)
  next
    case False
    then have "\<not> hasClass ''active'' (c_page w) k" using a(3) k(2) by (auto simp: sole_def)
    then have "slide_to (slid prevents) forth e a k (k, if forth then ''left'' else ''right'',
        indexOf (items_around (c_page w) (Some a)) a, indexOf (items_around (c_page w) (Some k)) k) (announced e a w) = Inr w'"
      using w' k(1) np by (simp add: slide_alt [OF act(2,1)])
    moreover have "c_on_slid (announced e a w) = []" "\<not> c_isSliding (announced e a w)" using idle by (simp_all add: announced_def)
    ultimately show ?thesis
      using slide_to_arrives [OF inv_off [OF inv announced_off] _ sole_off [OF announced_off a(3)] k(2) False] by blast
  qed
  then show ?thesis
    using w' idle(1) k(2) by (auto simp: ai k_def sole_def carousel_next_def carousel_prev_def)
qed

theorem next_prev_reach_neighbour_witness:
  "\<exists>w'. carousel_next (\<lambda>_ _ _. False) demo_carousel = Inr w'
     \<and> hasClass ''active'' (c_page (carousel_transitionend 3 w')) 4"
proof -
  have "hasClass ''active'' (c_page demo_carousel) ([3, 4] ! 0)" "\<not> c_isSliding demo_carousel" "c_on_slid demo_carousel = []"
    by code_simp+
  then show ?thesis
    using next_prev_reach_neighbour [OF demo_reach, of 0 "\<lambda>_ _ _. False" True]
    by (simp add: never_prevents_def neighbour_def)
qed

text \<open>\<^verbatim>\<open>dispose\<close> of a cycling carousel drops the number of its interval timer without clearing it:
  the timer stays, no operation can stop it any more, and when it fires in a browser without
  \<^verbatim>\<open>document.visibilityState\<close> it throws.\<close>

theorem dispose_leaves_interval:
  assumes "carousel_reach e xs w" and "c_interval w = Some k"
  shows "map_of (c_timers (carousel_dispose w)) k = Some TInterval \<and> c_interval (carousel_dispose w) = None
    \<and> carousel_timer_fires V prevents k (carousel_dispose w)
        = (if has_visibility V then Inr (carousel_dispose w) else Inl NullReference)"
proof -
  have t: "timers_ok w" using carousel_reach_inv [OF assms(1)] by (simp add: carousel_inv_def)
  then have "(k, TInterval) \<in> set (intervals w)" using assms(2) by (simp add: timers_ok_def)
  then have "map_of (c_timers w) k = Some TInterval" using t by (simp add: timers_ok_def intervals_def)
  then show ?thesis
    by (simp add: carousel_dispose_def carousel_timer_fires_def nextWhenVisible_def carousel_next_def slide_towards_def slide_def)
qed

theorem dispose_leaves_interval_witness:
  "carousel_timer_fires demo_browser (\<lambda>_ _ _. False) 1 (carousel_dispose (cycle False demo_carousel)) = Inl NullReference"
proof -
  have "c_interval (cycle False demo_carousel) = Some 1" by code_simp
  then show ?thesis
    using dispose_leaves_interval [OF demo_cycling, of 1 demo_browser "\<lambda>_ _ _. False"] by (simp add: demo_browser_def)
qed

end
