(* ===== verification/Bs_Button.thy ===== *)
theory Bs_Button
  imports Bs_Util
begin

text \<open>
  The component \<^verbatim>\<open>Button\<close> of \<^verbatim>\<open>bootstrap.js\<close>: buttons that stay pressed and groups of buttons
  around checkboxes or radio inputs. The component keeps no state but the page. The handlers a page
  registers for \<^verbatim>\<open>change\<close> and \<^verbatim>\<open>focus\<close> are outside of the model.
\<close>

section \<open>Inputs\<close>

definition input_type :: "page \<Rightarrow> eid \<Rightarrow> string" where
  "input_type p i = (case attribute_of p i ''type'' of None \<Rightarrow> ''text'' | Some s \<Rightarrow> toLowerCase s)"

text \<open>\<^verbatim>\<open>input:not([type="hidden"])\<close>.\<close>

definition is_input :: "page \<Rightarrow> eid \<Rightarrow> bool" where
  "is_input p i = (node_name p i = ''INPUT'' \<and> input_type p i \<noteq> ''hidden'')"

definition input_of :: "page \<Rightarrow> eid \<Rightarrow> eid option" where
  "input_of p b = find (is_input p) (descendants p b)"

definition toggles :: "page \<Rightarrow> eid \<Rightarrow> bool" where
  "toggles p x = (attribute_of p x ''data-toggle'' = Some ''buttons'')"

text \<open>Setting \<^verbatim>\<open>checked\<close>: the browser unchecks the other radio inputs of the same name.\<close>

definition same_radios :: "page \<Rightarrow> eid \<Rightarrow> eid \<Rightarrow> bool" where
  "same_radios p i j = (i \<noteq> j \<and> input_type p i = ''radio'' \<and> input_type p j = ''radio''
     \<and> attribute_of p i ''name'' \<noteq> None \<and> attribute_of p i ''name'' \<noteq> Some '''' \<and> attribute_of p j ''name'' = attribute_of p i ''name'')"

definition set_checked :: "bool \<Rightarrow> eid \<Rightarrow> page \<Rightarrow> page" where
  "set_checked v i p = p\<lparr>checked := (\<lambda>j. if j = i then v else if v \<and> same_radios p i j then False else checked p j)\<rparr>"

section \<open>Toggling\<close>

text \<open>The end of \<^verbatim>\<open>toggle\<close>: the pressed state of a button that is not disabled.\<close>

definition press :: "bool \<Rightarrow> bool \<Rightarrow> eid \<Rightarrow> page \<Rightarrow> page" where
  "press triggerChangeEvent addAriaPressed b p =
     (if hasAttribute ''disabled'' p b \<or> hasClass ''disabled'' p b then p
      else
       (let p1 = (if addAriaPressed then setAttribute ''aria-pressed'' (show_bool (\<not> hasClass ''active'' p b)) b p else p)
        in if triggerChangeEvent then toggleClass ''active'' (\<not> hasClass ''active'' p1 b) b p1 else p1))"

definition toggle_input :: "eid \<Rightarrow> eid \<Rightarrow> eid \<Rightarrow> page \<Rightarrow> page" where
  "toggle_input rootElement b i p =
     (let radio = (input_type p i = ''radio'');
          triggerChangeEvent = (\<not> (radio \<and> checked p i \<and> hasClass ''active'' p b));
          p1 = (if radio \<and> triggerChangeEvent
                then (case find (hasClass ''active'' p) (descendants p rootElement) of None \<Rightarrow> p | Some a \<Rightarrow> removeClass ''active'' a p)
                else p);
          p2 = (if triggerChangeEvent
                then fire ''change'' i
                  (if input_type p1 i = ''checkbox'' \<or> input_type p1 i = ''radio'' then set_checked (\<not> hasClass ''active'' p1 b) i p1 else p1)
                else p1)
      in press triggerChangeEvent False b (focus i p2))"

definition button_toggle :: "eid \<Rightarrow> page \<Rightarrow> page" where
  "button_toggle b p =
     (case closest p (toggles p) b of
        None \<Rightarrow> press True True b p
      | Some rootElement \<Rightarrow>
         (case input_of p b of None \<Rightarrow> press True True b p | Some i \<Rightarrow> toggle_input rootElement b i p))"

text \<open>The instance; \<^verbatim>\<open>dispose\<close> takes its element away.\<close>

record button =
  bt_page :: page
  bt_element :: "eid option"

definition button_toggle_call :: "button \<Rightarrow> bs_error + button" where
  "button_toggle_call w =
     (case bt_element w of None \<Rightarrow> Inl NullReference | Some b \<Rightarrow> Inr (w\<lparr>bt_page := button_toggle b (bt_page w)\<rparr>))"

definition button_dispose :: "button \<Rightarrow> button" where
  "button_dispose w = w\<lparr>bt_element := None\<rparr>"

definition button_jQueryInterface :: "page \<Rightarrow> eid \<Rightarrow> string option \<Rightarrow> button option \<Rightarrow> bs_error + button" where
  "button_jQueryInterface p b config data =
     (let w = (case data of Some w \<Rightarrow> w\<lparr>bt_page := p\<rparr> | None \<Rightarrow> \<lparr>bt_page = p, bt_element = Some b\<rparr>)
      in if config = Some ''toggle'' then button_toggle_call w else Inr w)"

section \<open>Handlers of the document\<close>

definition disabled :: "page \<Rightarrow> eid \<Rightarrow> bool" where
  "disabled p b = (hasAttribute ''disabled'' p b \<or> hasClass ''disabled'' p b)"

text \<open>A click: the new page and whether the default action is prevented.\<close>

definition button_click :: "eid \<Rightarrow> page \<Rightarrow> page \<times> bool" where
  "button_click initialButton p =
     (let button = (if hasClass ''btn'' p initialButton then Some initialButton else closest p (hasClass ''btn'' p) initialButton)
      in case button of
          None \<Rightarrow> (p, True)
        | Some b \<Rightarrow>
            if disabled p b then (p, True)
            else
             (let inputBtn = input_of p b
              in if (case inputBtn of None \<Rightarrow> False | Some i \<Rightarrow> disabled p i) then (p, True)
                 else if node_name p initialButton \<noteq> ''LABEL''
                      \<or> (case inputBtn of None \<Rightarrow> False | Some i \<Rightarrow> input_type p i \<noteq> ''checkbox'')
                 then (button_toggle b p, False)
                 else (p, False)))"

definition button_focus_blur :: "bool \<Rightarrow> eid \<Rightarrow> page \<Rightarrow> page" where
  "button_focus_blur focusing target p =
     (case closest p (hasClass ''btn'' p) target of None \<Rightarrow> p | Some b \<Rightarrow> toggleClass ''focus'' focusing b p)"

text \<open>When the window has loaded, the classes are set from the inputs: first in the groups, then for
  the buttons on their own. A button of a group without an input makes the handler throw.\<close>

definition group_buttons :: "page \<Rightarrow> eid list" where
  "group_buttons p = filter (\<lambda>b. hasClass ''btn'' p b \<and> (\<exists>a \<in> set (parents p b). toggles p a)) (order (doc_tree p))"

definition single_buttons :: "page \<Rightarrow> eid list" where
  "single_buttons p = filter (\<lambda>b. attribute_of p b ''data-toggle'' = Some ''button'') (order (doc_tree p))"

fun load_groups :: "eid list \<Rightarrow> page \<Rightarrow> bs_error + page" where
  "load_groups [] p = Inr p"
| "load_groups (b # bs) p =
     (case input_of p b of
        None \<Rightarrow> Inl NullReference
      | Some i \<Rightarrow> load_groups bs (toggleClass ''active'' (checked p i \<or> hasAttribute ''checked'' p i) b p))"

definition load_single :: "eid \<Rightarrow> page \<Rightarrow> page" where
  "load_single b p = toggleClass ''active'' (attribute_of p b ''aria-pressed'' = Some ''true'') b p"

definition button_load :: "page \<Rightarrow> bs_error + page" where
  "button_load p = bindE (load_groups (group_buttons p) p) (\<lambda>q. Inr (fold load_single (single_buttons p) q))"

section \<open>Radio groups\<close>

definition same_doc :: "page \<Rightarrow> page \<Rightarrow> bool" where
  "same_doc p q \<longleftrightarrow> doc_tree q = doc_tree p \<and> node_name q = node_name p \<and> attribute_of q = attribute_of p"

lemma same_doc_inputs:
  assumes "same_doc p q"
  shows "input_type q = input_type p" "is_input q = is_input p" "input_of q = input_of p" "descendants q = descendants p"
    "closest q (toggles q) = closest p (toggles p)" "same_radios q = same_radios p" "hasAttribute a q = hasAttribute a p"
proof -
  have t: "doc_tree q = doc_tree p" and n: "node_name q = node_name p" and a: "attribute_of q = attribute_of p"
    using assms by (simp_all add: same_doc_def)
  show type: "input_type q = input_type p" by (simp add: fun_eq_iff input_type_def a)
  show i: "is_input q = is_input p" by (simp add: fun_eq_iff is_input_def type n)
  show d: "descendants q = descendants p" using tree_cong(2) [OF t] .
  show "input_of q = input_of p" by (simp add: fun_eq_iff input_of_def d i)
  have "toggles q = toggles p" by (simp add: fun_eq_iff toggles_def a)
  then show "closest q (toggles q) = closest p (toggles p)" using tree_cong(6) [OF t] by simp
  show "same_radios q = same_radios p" by (simp add: fun_eq_iff same_radios_def type a)
  show "hasAttribute x q = hasAttribute x p" for x by (simp add: fun_eq_iff hasAttribute_def a)
qed

lemma same_doc_class: "same_doc p (addClass c e p)" "same_doc p (removeClass c e p)" "same_doc p (fire ev e p)"
    "same_doc p (focus e p)" "same_doc p (set_checked v e p)" "same_doc p p"
  by (simp_all add: same_doc_def set_checked_def)

lemma same_doc_trans: "same_doc p q \<Longrightarrow> same_doc q r \<Longrightarrow> same_doc p r"
  by (simp add: same_doc_def)

lemma checked_ops [simp]:
  "checked (addClass c e p) = checked p" "checked (removeClass c e p) = checked p" "checked (fire ev e p) = checked p"
  "checked (focus e p) = checked p" "checked (toggleClass c v e p) = checked p"
  by (simp_all add: addClass_def removeClass_def fire_def focus_def toggleClass_def)

lemma hasClass_set_checked [simp]: "hasClass c (set_checked v i p) = hasClass c p"
  by (simp add: fun_eq_iff hasClass_def set_checked_def)

text \<open>A group of radio buttons: each has its input, the browser lets one of the inputs be checked,
  and a button is active when its input is checked.\<close>

definition radio_group :: "page \<Rightarrow> eid \<Rightarrow> eid list \<Rightarrow> bool" where
  "radio_group p g bs \<longleftrightarrow>
     (\<forall>b \<in> set bs. b \<in> set (descendants p g) \<and> closest p (toggles p) b = Some g
        \<and> (case input_of p b of None \<Rightarrow> False
           | Some i \<Rightarrow> input_type p i = ''radio'' \<and> hasClass ''active'' p b = checked p i
               \<and> (\<forall>c \<in> set bs. c \<noteq> b \<longrightarrow> (case input_of p c of None \<Rightarrow> False | Some j \<Rightarrow> same_radios p i j))))
     \<and> (\<forall>x \<in> set (descendants p g). hasClass ''active'' p x \<longrightarrow> x \<in> set bs)
     \<and> (\<forall>b \<in> set bs. \<forall>c \<in> set bs. hasClass ''active'' p b \<and> hasClass ''active'' p c \<longrightarrow> b = c)"

lemma radio_groupE:
  assumes "radio_group p g bs" "b \<in> set bs"
  obtains i where "b \<in> set (descendants p g)" "closest p (toggles p) b = Some g" "input_of p b = Some i"
    "input_type p i = ''radio''" "hasClass ''active'' p b = checked p i"
    "\<And>c j. c \<in> set bs \<Longrightarrow> c \<noteq> b \<Longrightarrow> input_of p c = Some j \<Longrightarrow> same_radios p i j"
  using assms unfolding radio_group_def by (fastforce split: option.splits)

text \<open>What a toggle does in a group: nothing to an active button, otherwise the class and the check move.\<close>

lemma toggle_in_group:
  assumes g: "radio_group p g bs" and b: "b \<in> set bs" and en: "\<not> disabled p b" and i: "input_of p b = Some i"
  defines "q \<equiv> button_toggle b p"
  shows "same_doc p q" "c \<in> set (descendants p g) \<Longrightarrow> hasClass ''active'' q c = (c = b)"
    "checked q = (if hasClass ''active'' p b then checked p else checked (set_checked True i p))"
proof -
  obtain i' where r: "b \<in> set (descendants p g)" "closest p (toggles p) b = Some g" "input_of p b = Some i'"
    "input_type p i' = ''radio''" "hasClass ''active'' p b = checked p i'"
    using g b by (rule radio_groupE)
  have ii: "i' = i" using r(3) i by simp
  have only: "x \<in> set (descendants p g) \<Longrightarrow> hasClass ''active'' p x \<Longrightarrow> x \<in> set bs" for x
    using g by (simp add: radio_group_def)
  have one: "x \<in> set bs \<Longrightarrow> hasClass ''active'' p x \<Longrightarrow> y \<in> set bs \<Longrightarrow> hasClass ''active'' p y \<Longrightarrow> x = y" for x y
    using g unfolding radio_group_def by blast
  have q: "q = toggle_input g b i p" using r i by (simp add: q_def button_toggle_def)
  have dis: "\<not> hasAttribute ''disabled'' p b" "\<not> hasClass ''disabled'' p b" using en by (simp_all add: disabled_def)
  have "same_doc p q \<and> (c \<in> set (descendants p g) \<longrightarrow> hasClass ''active'' q c = (c = b))
    \<and> checked q = (if hasClass ''active'' p b then checked p else checked (set_checked True i p))" (is ?all)
  proof (cases "hasClass ''active'' p b")
    case True
    then have "q = focus i p"
      using r ii dis by (simp add: q toggle_input_def press_def hasAttribute_def Let_def)
    then show ?all using True only one b by (auto simp: same_doc_class)
  next
    case False
    define p1 where "p1 = (case find (hasClass ''active'' p) (descendants p g) of None \<Rightarrow> p | Some a \<Rightarrow> removeClass ''active'' a p)"
    have s1: "same_doc p p1" by (simp add: p1_def same_doc_class split: option.splits)
    have n1: "\<not> hasClass ''active'' p1 x" if x: "x \<in> set (descendants p g)" for x
    proof (cases "find (hasClass ''active'' p) (descendants p g)")
      case None
      then have "p1 = p" by (simp add: p1_def)
      then show ?thesis using x None by (auto simp: find_None_iff)
    next
      case (Some a)
      then have "hasClass ''active'' p a" "a \<in> set (descendants p g)" by (auto simp: find_Some_iff)
      then show ?thesis using x only one by (auto simp: p1_def Some)
    qed
    have d1: "\<not> hasAttribute ''disabled'' p1 b" "\<not> hasClass ''disabled'' p1 b" and c1: "checked p1 = checked p"
      using dis same_doc_inputs(7) [OF s1] by (simp_all add: p1_def split: option.splits)
    have qq: "q = addClass ''active'' b (focus i (fire ''change'' i (set_checked True i p1)))"
      using r ii False n1 [OF r(1)] d1 same_doc_inputs(1) [OF s1]
      by (simp add: q toggle_input_def p1_def [symmetric] press_def hasAttribute_def set_checked_def Let_def toggleClass_def
          fire_def focus_def hasClass_def)
    have "same_doc p q"
      unfolding qq by (rule same_doc_trans [OF s1]) (simp add: same_doc_def set_checked_def)
    moreover have "checked q = checked (set_checked True i p)"
      by (simp add: qq set_checked_def same_doc_inputs(6) [OF s1] c1)
    ultimately show ?all using False n1 by (auto simp: qq)
  qed
  then show "same_doc p q" "c \<in> set (descendants p g) \<Longrightarrow> hasClass ''active'' q c = (c = b)"
    "checked q = (if hasClass ''active'' p b then checked p else checked (set_checked True i p))" by auto
qed

text \<open>C27. Toggling a button of a radio group that is not disabled makes it the only active one of the
  group and moves the check of the inputs along, so that the group is again in step.\<close>

theorem radio_group_toggle:
  assumes g: "radio_group p g bs" and b: "b \<in> set bs" and en: "\<not> disabled p b"
  shows "radio_group (button_toggle b p) g bs
    \<and> (\<forall>c \<in> set bs. hasClass ''active'' (button_toggle b p) c = (c = b))"
proof -
  obtain i where i: "input_of p b = Some i" "input_type p i = ''radio''" "hasClass ''active'' p b = checked p i"
    using g b by (rule radio_groupE)
  define q where "q = button_toggle b p"
  note t = toggle_in_group [OF g b en i(1), folded q_def]
  note same = same_doc_inputs [OF t(1)]
  have act: "hasClass ''active'' q c = (c = b)" if "c \<in> set bs" for c
    by (rule t(2)) (use g that radio_groupE in blast)
  have "case input_of p c of None \<Rightarrow> False
        | Some j \<Rightarrow> input_type p j = ''radio'' \<and> hasClass ''active'' q c = checked q j
            \<and> (\<forall>d \<in> set bs. d \<noteq> c \<longrightarrow> (case input_of p d of None \<Rightarrow> False | Some k \<Rightarrow> same_radios p j k))" if c: "c \<in> set bs" for c
  proof -
    obtain j where j: "input_of p c = Some j" "input_type p j = ''radio''" "hasClass ''active'' p c = checked p j"
        "\<And>d k. d \<in> set bs \<Longrightarrow> d \<noteq> c \<Longrightarrow> input_of p d = Some k \<Longrightarrow> same_radios p j k"
      using radio_groupE [OF g c] by metis
    have "checked q j = (c = b)"
    proof (cases "c = b")
      case True
      then show ?thesis using i j(1) t(3) by (auto simp: set_checked_def)
    next
      case False
      then have "same_radios p i j" using radio_groupE [OF g b] i(1) c j(1) by (metis option.inject)
      then have "i \<noteq> j" "checked (set_checked True i p) j = False" by (auto simp: same_radios_def set_checked_def)
      moreover have "hasClass ''active'' p b \<Longrightarrow> \<not> hasClass ''active'' p c" using g b c False by (auto simp: radio_group_def)
      ultimately show ?thesis using t(3) j(3) False by simp
    qed
    moreover have "\<exists>k. input_of p d = Some k" if "d \<in> set bs" for d using g that radio_groupE by metis
    ultimately show ?thesis using j act [OF c] by force
  qed
  then have "radio_group q g bs"
    using g act t(2) b unfolding radio_group_def same by blast
  then show ?thesis using act by (simp add: q_def)
qed

definition demo_group :: page where
  "demo_group = (bare_page (Node 0 [Node 1 [Node 2 [Node 3 []], Node 4 [Node 5 []]]]))
     \<lparr>node_name := (\<lambda>x. if x = 3 \<or> x = 5 then ''INPUT'' else ''DIV''),
      class_list := (\<lambda>_. [])(2 := [''btn'', ''active''], 4 := [''btn'']),
      attribute_of := (\<lambda>_. Map.empty)(1 := [''data-toggle'' \<mapsto> ''buttons''],
        3 := [''type'' \<mapsto> ''radio'', ''name'' \<mapsto> ''o''], 5 := [''type'' \<mapsto> ''radio'', ''name'' \<mapsto> ''o'']),
      checked := (\<lambda>x. x = 3)\<rparr>"

theorem radio_group_toggle_witness:
  "radio_group (button_toggle 4 demo_group) 1 [2, 4] \<and> hasClass ''active'' (button_toggle 4 demo_group) 4
     \<and> \<not> hasClass ''active'' (button_toggle 4 demo_group) 2"
proof -
  have "radio_group demo_group 1 [2, 4]" "\<not> disabled demo_group 4" by code_simp+
  then show ?thesis using radio_group_toggle [of demo_group 1 "[2, 4]" 4] by simp
qed

text \<open>When the window has loaded, a button group with a button without an input makes the handler
  throw, whatever the rest of the page is, although \<^verbatim>\<open>toggle\<close> itself allows for such a button.\<close>

lemma load_groups_no_input: "b \<in> set bs \<Longrightarrow> input_of p b = None \<Longrightarrow> load_groups bs p = Inl NullReference"
proof (induction bs arbitrary: p)
  case (Cons c bs)
  show ?case
  proof (cases "input_of p c")
    case (Some i)
    define q where "q = toggleClass ''active'' (checked p i \<or> hasAttribute ''checked'' p i) c p"
    have "same_doc p q" by (simp add: q_def same_doc_def toggleClass_def)
    then have "input_of q b = None" using Cons.prems(2) same_doc_inputs(3) by simp
    moreover have "b \<in> set bs" using Cons.prems Some by auto
    ultimately show ?thesis using Cons.IH Some by (simp add: q_def)
  qed simp
qed simp

lemma button_load_throws: "b \<in> set (group_buttons p) \<Longrightarrow> input_of p b = None \<Longrightarrow> button_load p = Inl NullReference"
  by (simp add: button_load_def load_groups_no_input)

end
