(* ===== verification/Bs_Alert.thy ===== *)
theory Bs_Alert
  imports Bs_Util
begin

text \<open>
  The component \<^verbatim>\<open>Alert\<close> of \<^verbatim>\<open>bootstrap.js\<close>: an alert is closed by a button in it or by one
  that names it, fades out when it has the class for it, and is then taken out of the document. The
  state is the document with the callbacks of transitions and the elements that have an instance.
\<close>

section \<open>Taking elements out of the document\<close>

fun prune :: "eid \<Rightarrow> tree \<Rightarrow> tree" where
  "prune e (Node x ts) = Node x (map (prune e) (filter (\<lambda>t. node_id t \<noteq> e) ts))"

definition detach :: "eid \<Rightarrow> page \<Rightarrow> page" where
  "detach e p = p\<lparr>doc_tree := prune e (doc_tree p)\<rparr>"

section \<open>State and operations\<close>

text \<open>A callback destroys the alert it names. \<open>al_data\<close> holds the elements with an instance.\<close>

record alerts =
  al_page :: page
  al_trans :: "eid transitions"
  al_data :: "eid list"

definition getRootElement :: "query \<Rightarrow> page \<Rightarrow> eid \<Rightarrow> eid option" where
  "getRootElement query p element =
     (let parent = (case getSelectorFromElement query p element of None \<Rightarrow> None | Some s \<Rightarrow> querySelector query p s)
      in case parent of Some x \<Rightarrow> Some x | None \<Rightarrow> closest p (hasClass ''alert'' p) element)"

text \<open>jQuery's \<^verbatim>\<open>remove\<close> drops the data and the handlers of the element and of what is in it.\<close>

definition destroyElement :: "eid \<Rightarrow> alerts \<Rightarrow> alerts" where
  "destroyElement e w =
     (let gone = e # descendants (al_page w) e
      in w\<lparr>al_page := fire ''closed.bs.alert'' e (detach e (al_page w)),
           al_trans := (al_trans w)\<lparr>end_handlers := filter (\<lambda>h. fst h \<notin> set gone) (end_handlers (al_trans w))\<rparr>,
           al_data := filter (\<lambda>x. x \<notin> set gone) (al_data w)\<rparr>)"

definition removeElement :: "eid \<Rightarrow> alerts \<Rightarrow> alerts" where
  "removeElement e w =
     (let w1 = w\<lparr>al_page := removeClass ''show'' e (al_page w)\<rparr>
      in if \<not> hasClass ''fade'' (al_page w1) e then destroyElement e w1
         else w1\<lparr>al_trans := await_end e e (al_trans w1)\<rparr>)"

text \<open>The end of \<^verbatim>\<open>close\<close>; without a root element jQuery acts on an empty collection.\<close>

definition close_root :: "prevents \<Rightarrow> eid option \<Rightarrow> alerts \<Rightarrow> alerts" where
  "close_root prevents r w =
     (case r of
        None \<Rightarrow> w
      | Some e \<Rightarrow>
         (let w1 = w\<lparr>al_page := fire ''close.bs.alert'' e (al_page w)\<rparr>
          in if prevents ''close.bs.alert'' e (al_page w1) then w1 else removeElement e w1))"

text \<open>\<^verbatim>\<open>close\<close> of the instance on \<open>self\<close> (nothing when it is disposed of), for an element or for itself.\<close>

definition alert_close :: "prevents \<Rightarrow> query \<Rightarrow> eid option \<Rightarrow> eid option \<Rightarrow> alerts \<Rightarrow> alerts" where
  "alert_close prevents query self element w =
     close_root prevents (case element of Some x \<Rightarrow> getRootElement query (al_page w) x | None \<Rightarrow> self) w"

definition alert_dispose :: "eid \<Rightarrow> alerts \<Rightarrow> alerts" where
  "alert_dispose e w = w\<lparr>al_data := filter (\<lambda>x. x \<noteq> e) (al_data w)\<rparr>"

definition alert_jQueryInterface :: "prevents \<Rightarrow> query \<Rightarrow> eid \<Rightarrow> string option \<Rightarrow> alerts \<Rightarrow> alerts" where
  "alert_jQueryInterface prevents query e config w =
     (let w1 = (if e \<in> set (al_data w) then w else w\<lparr>al_data := e # al_data w\<rparr>)
      in if config = Some ''close'' then alert_close prevents query (Some e) (Some e) w1 else w1)"

text \<open>A click on a button that dismisses an alert; its default action is prevented.\<close>

definition alert_handleDismiss :: "prevents \<Rightarrow> query \<Rightarrow> eid \<Rightarrow> alerts \<Rightarrow> alerts \<times> bool" where
  "alert_handleDismiss prevents query button w = (alert_close prevents query None (Some button) w, True)"

definition alert_transitionend :: "eid \<Rightarrow> alerts \<Rightarrow> alerts" where
  "alert_transitionend x w =
     (case dispatch_end x (al_trans w) of (tr, cbs) \<Rightarrow> fold destroyElement cbs (w\<lparr>al_trans := tr\<rparr>))"

definition alert_emulator :: "nat \<Rightarrow> alerts \<Rightarrow> alerts" where
  "alert_emulator k w =
     (case emulator_timeout k (al_trans w) of (tr, cbs) \<Rightarrow> fold destroyElement cbs (w\<lparr>al_trans := tr\<rparr>))"

section \<open>Pruning a tree\<close>

lemma order_ids: "order t = map node_id (subtrees t)"
  by (induction t rule: order.induct) (simp add: map_concat comp_def cong: map_cong)

lemma prune_absent: "e \<notin> set (order t) \<Longrightarrow> prune e t = t"
proof (induction t rule: order.induct)
  case (1 x ts)
  have "filter (\<lambda>t. node_id t \<noteq> e) ts = ts"
    using 1(2) node_id_in_order by (fastforce simp: filter_id_conv)
  moreover have "prune e t = t" if "t \<in> set ts" for t using 1 that by auto
  ultimately show ?case by (simp add: map_idI)
qed

lemma distinct_concat_disjoint:
  "distinct (concat (map f ts)) \<Longrightarrow> t \<in> set ts \<Longrightarrow> u \<in> set ts \<Longrightarrow> x \<in> set (f t) \<Longrightarrow> x \<in> set (f u) \<Longrightarrow> t = u"
  by (induction ts) auto

lemma distinct_concat_one: "distinct (concat (map f ts)) \<Longrightarrow> t \<in> set ts \<Longrightarrow> distinct (f t)"
  by (induction ts) auto

lemma subtree_id:
  assumes "distinct (order t)" "s \<in> set (subtrees t)" "node_id t = node_id s"
  shows "s = t"
proof -
  have d: "distinct (map node_id (subtrees t))" using assms(1) by (simp add: order_ids)
  have "t \<in> set (subtrees t)" by (cases t) simp
  then show ?thesis using d assms(2,3) by (auto simp: distinct_map dest: inj_onD)
qed

text \<open>Pruning the root of a subtree takes out exactly the elements of that subtree.\<close>

lemma order_prune:
  "distinct (order t) \<Longrightarrow> s \<in> set (subtrees t) \<Longrightarrow> node_id s \<noteq> node_id t
    \<Longrightarrow> order (prune (node_id s) t) = filter (\<lambda>x. x \<notin> set (order s)) (order t)"
proof (induction t rule: order.induct)
  case (1 y ts)
  define e where "e = node_id s"
  obtain u where u: "u \<in> set ts" "s \<in> set (subtrees u)" using 1(3,4) by auto
  have dc: "distinct (concat (map order ts))" and y: "y \<notin> set (concat (map order ts))" using 1(2) by auto
  have sub: "set (order s) \<subseteq> set (order u)" using order_subtree u(2) .
  have e: "e \<in> set (order s)" by (simp add: e_def)
  have other: "x \<notin> set (order s)" if "t \<in> set ts" "t \<noteq> u" "x \<in> set (order t)" for t x
    using distinct_concat_disjoint [OF dc that(1) u(1) that(3)] sub that(2) by blast
  have each: "(if node_id t \<noteq> e then order (prune e t) else []) = filter (\<lambda>x. x \<notin> set (order s)) (order t)" if t: "t \<in> set ts" for t
  proof (cases "t = u")
    case True
    show ?thesis
    proof (cases "node_id t = e")
      case True
      have "s = u"
        using subtree_id [OF distinct_concat_one [OF dc u(1)] u(2)] \<open>t = u\<close> True by (simp add: e_def)
      then show ?thesis using True \<open>t = u\<close> by (simp add: filter_empty_conv)
    next
      case False
      then show ?thesis
        using 1(1) [OF u(1) distinct_concat_one [OF dc u(1)] u(2)] True by (simp add: e_def)
    qed
  next
    case False
    then have "e \<notin> set (order t)" using other t e by blast
    moreover from this have "node_id t \<noteq> e" by (metis node_id_in_order)
    ultimately show ?thesis using other t False by (simp add: prune_absent filter_id_conv)
  qed
  have "order (prune e (Node y ts)) = y # concat (map (\<lambda>t. if node_id t \<noteq> e then order (prune e t) else []) ts)"
    by (induction ts) simp_all
  also have "\<dots> = y # concat (map (\<lambda>t. filter (\<lambda>x. x \<notin> set (order s)) (order t)) ts)"
    using each by (simp cong: map_cong)
  also have "\<dots> = filter (\<lambda>x. x \<notin> set (order s)) (order (Node y ts))"
    using y u sub by (auto simp: filter_concat comp_def)
  finally show ?case by (simp add: e_def)
qed

section \<open>Closing takes the alert out\<close>

definition inside :: "page \<Rightarrow> eid \<Rightarrow> eid set" where
  "inside p e = insert e (set (descendants p e))"

lemma order_detach:
  assumes "page_wf p" "e \<noteq> node_id (doc_tree p)"
  shows "order (doc_tree (detach e p)) = filter (\<lambda>x. x \<notin> inside p e) (order (doc_tree p))"
proof (cases "tree_at p e")
  case None
  then have "e \<notin> set (order (doc_tree p))" by (auto simp: tree_at_def order_ids find_None_iff)
  moreover from this have "filter (\<lambda>x. x \<notin> inside p e) (order (doc_tree p)) = order (doc_tree p)"
    using None by (auto simp: filter_id_conv inside_def descendants_def)
  ultimately show ?thesis by (simp add: detach_def prune_absent)
next
  case (Some s)
  then have s: "s \<in> set (subtrees (doc_tree p))" "node_id s = e" by (auto simp: tree_at_def find_Some_iff)
  have "inside p e = set (order s)" using s(2) Some by (cases s) (auto simp: inside_def descendants_def)
  then show ?thesis
    using order_prune [of "doc_tree p" s] assms s by (simp add: detach_def page_wf_def)
qed

lemma node_id_prune [simp]: "node_id (prune e t) = node_id t"
  by (cases t) simp

text \<open>The state after an alert is gone.\<close>

definition gone_from :: "page \<Rightarrow> eid \<Rightarrow> alerts \<Rightarrow> bool" where
  "gone_from p e w \<longleftrightarrow>
     order (doc_tree (al_page w)) = filter (\<lambda>x. x \<notin> inside p e) (order (doc_tree p))
     \<and> set (al_data w) \<inter> inside p e = {} \<and> fst ` set (end_handlers (al_trans w)) \<inter> inside p e = {}"

lemma inside_self [simp]: "e \<in> inside p e"
  by (simp add: inside_def)

lemma destroy_gone:
  assumes "page_wf p" "e \<noteq> node_id (doc_tree p)" "doc_tree (al_page w) = doc_tree p"
  shows "gone_from p e (destroyElement e w)"
proof -
  have i: "inside (al_page w) e = inside p e" using tree_cong(2) [OF assms(3)] by (simp add: inside_def)
  have g: "set (e # descendants (al_page w) e) = inside p e" using i by (simp add: inside_def)
  have "order (doc_tree (detach e (al_page w))) = filter (\<lambda>x. x \<notin> inside p e) (order (doc_tree p))"
    using order_detach [of "al_page w" e] assms tree_cong(8) [OF assms(3)] by (simp add: i)
  then show ?thesis unfolding gone_from_def destroyElement_def Let_def g by auto
qed

lemma destroy_again:
  assumes "gone_from p e w" "e \<noteq> node_id (doc_tree p)"
  shows "gone_from p e (destroyElement e w)"
proof -
  have "e \<notin> set (order (doc_tree (al_page w)))" using assms(1) by (simp add: gone_from_def)
  then have "doc_tree (detach e (al_page w)) = doc_tree (al_page w)" by (simp add: detach_def prune_absent)
  then show ?thesis using assms(1) by (auto simp: gone_from_def destroyElement_def Let_def)
qed

text \<open>The states a page reaches; every callback is bound to the element it destroys.\<close>

inductive alert_reach :: "alerts \<Rightarrow> bool" where
  start: "alert_reach \<lparr>al_page = p, al_trans = no_transitions, al_data = []\<rparr>"
| interface: "alert_reach w \<Longrightarrow> alert_reach (alert_jQueryInterface prevents query e config w)"
| closing: "alert_reach w \<Longrightarrow> alert_reach (alert_close prevents query self element w)"
| disposing: "alert_reach w \<Longrightarrow> alert_reach (alert_dispose e w)"
| ending: "alert_reach w \<Longrightarrow> alert_reach (alert_transitionend x w)"
| timing: "alert_reach w \<Longrightarrow> alert_reach (alert_emulator k w)"

definition own_callbacks :: "alerts \<Rightarrow> bool" where
  "own_callbacks w \<longleftrightarrow> (\<forall>x y. (x, Callback y) \<in> set (end_handlers (al_trans w)) \<longrightarrow> y = x)"

lemma own_destroy: "own_callbacks w \<Longrightarrow> own_callbacks (destroyElement e w)"
  by (auto simp: own_callbacks_def destroyElement_def Let_def)

lemma own_destroys: "own_callbacks w \<Longrightarrow> own_callbacks (fold destroyElement cbs w)"
  by (induction cbs arbitrary: w) (simp_all add: own_destroy)

lemma own_close: "own_callbacks w \<Longrightarrow> own_callbacks (alert_close prevents query self element w)"
proof -
  assume w: "own_callbacks w"
  have "own_callbacks (close_root prevents r w)" for r
  proof (cases r)
    case (Some e)
    have "own_callbacks (w\<lparr>al_page := q\<rparr>)" "own_callbacks (w\<lparr>al_page := q, al_trans := await_end x x (al_trans w)\<rparr>)" for q x
      using w by (auto simp: own_callbacks_def await_end_def transitionEndEmulator_def)
    then show ?thesis using Some by (simp add: close_root_def removeElement_def Let_def own_destroy)
  qed (use w in \<open>simp add: close_root_def\<close>)
  then show ?thesis by (simp add: alert_close_def)
qed

lemma own_dispatch: "own_callbacks w \<Longrightarrow> own_callbacks (w\<lparr>al_trans := fst (dispatch_end x (al_trans w))\<rparr>)"
  by (auto simp: own_callbacks_def)

lemma own_emulator: "own_callbacks w \<Longrightarrow> own_callbacks (w\<lparr>al_trans := fst (emulator_timeout k (al_trans w))\<rparr>)"
  by (auto simp: own_callbacks_def emulator_timeout_alt drop_timer_def split: option.splits)

lemma alert_reach_own: "alert_reach w \<Longrightarrow> own_callbacks w"
proof (induction rule: alert_reach.induct)
  case (interface w prevents query e config)
  have "own_callbacks (if e \<in> set (al_data w) then w else w\<lparr>al_data := e # al_data w\<rparr>)"
    using interface.IH by (simp add: own_callbacks_def)
  then show ?case by (simp add: alert_jQueryInterface_def Let_def own_close del: if_split)
next
  case (ending w x)
  then show ?case using own_destroys [OF own_dispatch] by (simp add: alert_transitionend_def case_prod_beta)
next
  case (timing w k)
  then show ?case using own_destroys [OF own_emulator] by (simp add: alert_emulator_def case_prod_beta)
qed (simp_all add: own_close alert_dispose_def, simp_all add: own_callbacks_def)

text \<open>C28. Closing an alert takes it out of the document: in every reachable state of a well-formed page,
  when no handler prevents it, the alert that a button names or stands in is gone with all that is in it
  -- at once, or when the transition has ended if it fades -- while every other element stays where it
  was, and no instance and no callback is left on what is gone.\<close>

theorem alert_close_removes:
  assumes reach: "alert_reach w" and wf: "page_wf (al_page w)"
    and root: "getRootElement query (al_page w) b = Some e" "e \<noteq> node_id (doc_tree (al_page w))"
    and np: "never_prevents prevents ''close.bs.alert''"
  shows "gone_from (al_page w) e
    (if hasClass ''fade'' (al_page w) e then alert_transitionend e (alert_close prevents query self (Some b) w)
     else alert_close prevents query self (Some b) w)"
proof -
  define w2 where "w2 = w\<lparr>al_page := removeClass ''show'' e (fire ''close.bs.alert'' e (al_page w))\<rparr>"
  have c: "alert_close prevents query self (Some b) w =
      (if hasClass ''fade'' (al_page w) e then w2\<lparr>al_trans := await_end e e (al_trans w2)\<rparr> else destroyElement e w2)"
    using np by (simp add: alert_close_def root close_root_def removeElement_def w2_def Let_def)
  have t2: "doc_tree (al_page w2) = doc_tree (al_page w)" by (simp add: w2_def)
  show ?thesis
  proof (cases "hasClass ''fade'' (al_page w) e")
    case False
    then show ?thesis using destroy_gone [OF wf root(2) t2] by (simp add: c)
  next
    case True
    define w3 where "w3 = w2\<lparr>al_trans := await_end e e (al_trans w2)\<rparr>"
    define cbs where "cbs = snd (dispatch_end e (al_trans w3))"
    have h: "(e, Callback y) \<in> set (end_handlers (al_trans w3)) \<longleftrightarrow> y = e \<or> (e, Callback y) \<in> set (end_handlers (al_trans w))" for y
      by (auto simp: w3_def w2_def await_end_def transitionEndEmulator_def)
    have "y \<in> set cbs \<longleftrightarrow> y = e \<or> (e, Callback y) \<in> set (end_handlers (al_trans w))" for y
      unfolding cbs_def dispatch_runs by (rule h)
    then have all: "\<forall>y \<in> set cbs. y = e" and some: "e \<in> set cbs"
      using alert_reach_own [OF reach] unfolding own_callbacks_def by auto
    obtain ds where ds: "cbs = e # ds" using some all by (cases cbs) auto
    define w4 where "w4 = w3\<lparr>al_trans := fst (dispatch_end e (al_trans w3))\<rparr>"
    have g: "gone_from (al_page w) e (destroyElement e w4)"
      by (rule destroy_gone [OF wf root(2)]) (simp add: w4_def w3_def t2)
    have "gone_from (al_page w) e (fold destroyElement es v)" if "gone_from (al_page w) e v" "\<forall>y \<in> set es. y = e" for es v
      using that
    proof (induction es arbitrary: v)
      case (Cons y es)
      then show ?case using destroy_again [OF Cons.prems(1) root(2)] by simp
    qed simp
    from this [OF g, of ds] all have "gone_from (al_page w) e (fold destroyElement cbs w4)"
      unfolding ds fold_Cons comp_apply by auto
    moreover have "alert_transitionend e w3 = fold destroyElement cbs w4"
      by (simp add: alert_transitionend_def case_prod_beta w4_def cbs_def)
    ultimately show ?thesis using True by (simp add: c w3_def [symmetric])
  qed
qed

definition demo_alert :: page where
  "demo_alert = (bare_page (Node 0 [Node 1 [Node 2 [Node 3 []]], Node 4 []]))
     \<lparr>class_list := (\<lambda>_. [])(2 := [''alert'', ''fade'', ''show''])\<rparr>"

theorem alert_close_removes_witness:
  "order (doc_tree (al_page (alert_transitionend 2 (alert_close (\<lambda>_ _ _. False) (\<lambda>_ _. None) None (Some 3)
     \<lparr>al_page = demo_alert, al_trans = no_transitions, al_data = []\<rparr>)))) = [0, 1, 4]"
proof -
  have f: "getRootElement (\<lambda>_ _. None) demo_alert 3 = Some 2" "page_wf demo_alert" "node_id (doc_tree demo_alert) = 0"
    "hasClass ''fade'' demo_alert 2" "filter (\<lambda>x. x \<notin> inside demo_alert 2) (order (doc_tree demo_alert)) = [0, 1, 4]"
    by code_simp+
  then show ?thesis
    using alert_close_removes [OF alert_reach.start [of demo_alert], of "\<lambda>_ _. None" 3 2 "\<lambda>_ _ _. False" None]
    by (simp add: never_prevents_def gone_from_def)
qed

end
