(* ===== verification/Bs_Collapse.thy ===== *)
theory Bs_Collapse
  imports Bs_Util
begin

text \<open>
  The component \<^verbatim>\<open>Collapse\<close> of \<^verbatim>\<open>bootstrap.js\<close>: panels that open and close with a transition,
  the triggers that toggle them, and accordions, in which opening a panel closes the others. Several
  instances act on one page, and an element can get a second instance while the first still waits for
  the end of a transition, so the instances live in a heap.
\<close>

section \<open>State\<close>

record collapse =
  cl_element :: "eid option"
  cl_config :: config
  cl_triggers :: "eid list"
  cl_selector :: "string option"
  cl_parent :: "eid option"
  cl_transitioning :: bool

text \<open>The callbacks of \<^verbatim>\<open>show\<close> (with the dimension) and of \<^verbatim>\<open>hide\<close>, with the instance they belong to.\<close>

datatype collapse_cb = Shown nat string | Hidden nat

record panels =
  co_page :: page
  co_style :: "eid \<Rightarrow> string \<Rightarrow> string"
  co_heap :: "nat \<Rightarrow> collapse option"
  co_next :: nat
  co_data :: "eid \<Rightarrow> nat option"
  co_trans :: "collapse_cb transitions"

text \<open>What the component asks of the page around it: the handlers that prevent an event, the selector
  engine, the data attributes of an element as jQuery converts them, and the sizes the browser measures.\<close>

record collapse_env =
  ce_prevents :: prevents
  ce_query :: query
  ce_dataset :: "page \<Rightarrow> eid \<Rightarrow> config"
  ce_scroll_size :: "page \<Rightarrow> eid \<Rightarrow> string \<Rightarrow> string"
  ce_rect_size :: "page \<Rightarrow> eid \<Rightarrow> string \<Rightarrow> string"

definition collapse_Default :: config where
  "collapse_Default = [''toggle'' \<mapsto> JBool True, ''parent'' \<mapsto> JStr []]"

definition collapse_DefaultType :: "(string \<times> string) list" where
  "collapse_DefaultType = [(''toggle'', ''boolean''), (''parent'', ''(string|element)'')]"

definition collapse_getConfig :: "config \<Rightarrow> bs_error + config" where
  "collapse_getConfig config =
     (let c = extends collapse_Default config;
          c' = c(''toggle'' \<mapsto> JBool (truthy (opt c ''toggle'')))
      in bindE (typeCheckConfig c' collapse_DefaultType) (\<lambda>_. Inr c'))"

definition all_elements :: "page \<Rightarrow> eid list" where
  "all_elements p = order (doc_tree p)"

definition query_or_none :: "query \<Rightarrow> page \<Rightarrow> string option \<Rightarrow> eid list" where
  "query_or_none query p s = (case s of None \<Rightarrow> [] | Some t \<Rightarrow> (case query p t of None \<Rightarrow> [] | Some es \<Rightarrow> es))"

section \<open>Construction\<close>

definition is_toggle :: "page \<Rightarrow> eid \<Rightarrow> bool" where
  "is_toggle p x = (attribute_of p x ''data-toggle'' = Some ''collapse'')"

definition id_selector :: "page \<Rightarrow> eid \<Rightarrow> string" where
  "id_selector p e = ''#'' @ (case attribute_of p e ''id'' of None \<Rightarrow> [] | Some i \<Rightarrow> i)"

definition named_triggers :: "page \<Rightarrow> eid \<Rightarrow> eid list" where
  "named_triggers p e = filter (\<lambda>x. is_toggle p x \<and> (attribute_of p x ''href'' = Some (id_selector p e)
     \<or> attribute_of p x ''data-target'' = Some (id_selector p e))) (all_elements p)"

text \<open>The loop over all triggers of the page: the selector of the last one that finds the element is
  kept, and each that does is added to the triggers.\<close>

definition add_trigger :: "query \<Rightarrow> page \<Rightarrow> eid \<Rightarrow> eid \<Rightarrow> string option \<times> eid list \<Rightarrow> string option \<times> eid list" where
  "add_trigger query p e elem st =
     (let selector = getSelectorFromElement query p elem
      in if selector \<noteq> None \<and> e \<in> set (query_or_none query p selector) then (selector, snd st @ [elem]) else st)"

definition addAriaAndCollapsedClass :: "eid option \<Rightarrow> eid list \<Rightarrow> page \<Rightarrow> page" where
  "addAriaAndCollapsedClass element triggers p =
     (let isOpen = (case element of None \<Rightarrow> False | Some e \<Rightarrow> hasClass ''show'' p e)
      in fold (setAttribute ''aria-expanded'' (show_bool isOpen)) triggers (fold (toggleClass ''collapsed'' (\<not> isOpen)) triggers p))"

definition getTargetFromElement :: "query \<Rightarrow> page \<Rightarrow> eid \<Rightarrow> eid option" where
  "getTargetFromElement query p x =
     (case getSelectorFromElement query p x of None \<Rightarrow> None | Some s \<Rightarrow> querySelector query p s)"

text \<open>A parent that is no text selects no children: its text names a class of objects.\<close>

definition accordion_children :: "page \<Rightarrow> eid \<Rightarrow> jsval \<Rightarrow> eid list" where
  "accordion_children p parent v =
     (case v of
        JStr s \<Rightarrow> filter (\<lambda>x. is_toggle p x \<and> attribute_of p x ''data-parent'' = Some s) (descendants p parent)
      | _ \<Rightarrow> [])"

definition getParent :: "query \<Rightarrow> jsval \<Rightarrow> page \<Rightarrow> bs_error + (eid \<times> page)" where
  "getParent query v p =
     bindE (case v of
              JElement x \<Rightarrow> Inr x
            | JQuery (x # _) \<Rightarrow> Inr x
            | JStr s \<Rightarrow> (case query p s of
                 None \<Rightarrow> Inl (BadSelector s) | Some [] \<Rightarrow> Inl NullReference | Some (x # _) \<Rightarrow> Inr x)
            | _ \<Rightarrow> Inl NullReference) (\<lambda>parent.
       Inr (parent, fold (\<lambda>x q. addAriaAndCollapsedClass (getTargetFromElement query q x) [x] q) (accordion_children p parent v) p))"

text \<open>The constructor up to its call of \<^verbatim>\<open>toggle\<close>.\<close>

definition construct :: "collapse_env \<Rightarrow> eid \<Rightarrow> config \<Rightarrow> panels \<Rightarrow> bs_error + (nat \<times> panels)" where
  "construct E e config w =
     bindE (collapse_getConfig config) (\<lambda>c.
       let p = co_page w;
           (selector, triggers) = fold (add_trigger (ce_query E) p e) (filter (is_toggle p) (all_elements p)) (None, named_triggers p e)
       in bindE (if truthy (opt c ''parent'')
                 then bindE (getParent (ce_query E) (opt c ''parent'') p) (\<lambda>(a, q). Inr (Some a, q))
                 else Inr (None, addAriaAndCollapsedClass (Some e) triggers p)) (\<lambda>(parent, q).
            Inr (co_next w, w\<lparr>co_page := q, co_next := Suc (co_next w),
              co_heap := (co_heap w)(co_next w \<mapsto> \<lparr>cl_element = Some e, cl_config = c, cl_triggers = triggers,
                cl_selector = selector, cl_parent = parent, cl_transitioning = False\<rparr>)\<rparr>)))"

section \<open>Hiding\<close>

definition setTransitioning :: "bool \<Rightarrow> nat \<Rightarrow> panels \<Rightarrow> panels" where
  "setTransitioning b k w =
     (case co_heap w k of None \<Rightarrow> w | Some i \<Rightarrow> w\<lparr>co_heap := (co_heap w)(k \<mapsto> i\<lparr>cl_transitioning := b\<rparr>)\<rparr>)"

definition getDimension :: "page \<Rightarrow> eid \<Rightarrow> string" where
  "getDimension p e = (if hasClass ''width'' p e then ''width'' else ''height'')"

definition set_style :: "eid \<Rightarrow> string \<Rightarrow> string \<Rightarrow> panels \<Rightarrow> panels" where
  "set_style e a v w = w\<lparr>co_style := (co_style w)(e := (co_style w e)(a := v))\<rparr>"

definition collapse_trigger :: "query \<Rightarrow> eid \<Rightarrow> page \<Rightarrow> page" where
  "collapse_trigger query t p =
     (case getSelectorFromElement query p t of
        None \<Rightarrow> p
      | Some s \<Rightarrow>
         if \<exists>x \<in> set (query_or_none query p (Some s)). hasClass ''show'' p x then p
         else setAttribute ''aria-expanded'' ''false'' t (addClass ''collapsed'' t p))"

text \<open>A disposed instance has no element: jQuery's collection is empty and has no class.\<close>

definition collapse_hide :: "collapse_env \<Rightarrow> nat \<Rightarrow> panels \<Rightarrow> bs_error + panels" where
  "collapse_hide E k w =
     (case co_heap w k of
        None \<Rightarrow> Inl NullReference
      | Some i \<Rightarrow>
         (case cl_element i of
            None \<Rightarrow> Inr w
          | Some e \<Rightarrow>
             if cl_transitioning i \<or> \<not> hasClass ''show'' (co_page w) e then Inr w
             else
              (let w1 = w\<lparr>co_page := fire ''hide.bs.collapse'' e (co_page w)\<rparr>
               in if ce_prevents E ''hide.bs.collapse'' e (co_page w1) then Inr w1
                  else
                   (let dimension = getDimension (co_page w1) e;
                        w2 = set_style e dimension (ce_rect_size E (co_page w1) e dimension @ ''px'') w1;
                        p3 = removeClass ''show'' e (removeClass ''collapse'' e (addClass ''collapsing'' e (co_page w2)));
                        p4 = fold (collapse_trigger (ce_query E)) (cl_triggers i) p3;
                        w4 = set_style e dimension [] (setTransitioning True k (w2\<lparr>co_page := p4\<rparr>))
                    in Inr (w4\<lparr>co_trans := await_end e (Hidden k) (co_trans w4)\<rparr>)))))"

text \<open>\<^verbatim>\<open>hide\<close> through jQuery: an element without an instance gets one that does not toggle.\<close>

definition hide_element :: "collapse_env \<Rightarrow> eid \<Rightarrow> panels \<Rightarrow> bs_error + panels" where
  "hide_element E x w =
     (case co_data w x of
        Some k \<Rightarrow> collapse_hide E k w
      | None \<Rightarrow>
          bindE (construct E x ((extends collapse_Default (ce_dataset E (co_page w) x))(''toggle'' \<mapsto> JBool False)) w) (\<lambda>(k, w1).
            collapse_hide E k (w1\<lparr>co_data := (co_data w1)(x \<mapsto> k)\<rparr>)))"

section \<open>Showing\<close>

definition actives :: "page \<Rightarrow> collapse \<Rightarrow> eid list" where
  "actives p i =
     (case cl_parent i of
        None \<Rightarrow> []
      | Some a \<Rightarrow> filter (\<lambda>x. (hasClass ''show'' p x \<or> hasClass ''collapsing'' p x)
            \<and> (case opt (cl_config i) ''parent'' of
                 JStr s \<Rightarrow> attribute_of p x ''data-parent'' = Some s
               | _ \<Rightarrow> hasClass ''collapse'' p x)) (descendants p a))"

definition other_actives :: "query \<Rightarrow> page \<Rightarrow> collapse \<Rightarrow> eid list" where
  "other_actives query p i = filter (\<lambda>x. x \<notin> set (query_or_none query p (cl_selector i))) (actives p i)"

text \<open>The instance of the first of the other active panels.\<close>

definition activesData :: "query \<Rightarrow> collapse \<Rightarrow> panels \<Rightarrow> nat option" where
  "activesData query i w = (case other_actives query (co_page w) i of [] \<Rightarrow> None | x # _ \<Rightarrow> co_data w x)"

definition is_transitioning :: "panels \<Rightarrow> nat option \<Rightarrow> bool" where
  "is_transitioning w d =
     (case d of None \<Rightarrow> False | Some k \<Rightarrow> (case co_heap w k of None \<Rightarrow> False | Some i \<Rightarrow> cl_transitioning i))"

definition open_panel :: "collapse_env \<Rightarrow> nat \<Rightarrow> collapse \<Rightarrow> eid \<Rightarrow> panels \<Rightarrow> panels" where
  "open_panel E k i e w =
     (let dimension = getDimension (co_page w) e;
          w1 = set_style e dimension ''0'' (w\<lparr>co_page := addClass ''collapsing'' e (removeClass ''collapse'' e (co_page w))\<rparr>);
          w2 = w1\<lparr>co_page := fold (setAttribute ''aria-expanded'' ''true'') (cl_triggers i)
                 (fold (removeClass ''collapsed'') (cl_triggers i) (co_page w1))\<rparr>;
          w3 = setTransitioning True k w2;
          w4 = w3\<lparr>co_trans := await_end e (Shown k dimension) (co_trans w3)\<rparr>
      in set_style e dimension (ce_scroll_size E (co_page w4) e dimension @ ''px'') w4)"

definition collapse_show :: "collapse_env \<Rightarrow> nat \<Rightarrow> panels \<Rightarrow> bs_error + panels" where
  "collapse_show E k w =
     (case co_heap w k of
        None \<Rightarrow> Inl NullReference
      | Some i \<Rightarrow>
         (case cl_element i of
            None \<Rightarrow> Inl NullReference
          | Some e \<Rightarrow>
             if cl_transitioning i \<or> hasClass ''show'' (co_page w) e then Inr w
             else
              (let acts = actives (co_page w) i;
                   others = other_actives (ce_query E) (co_page w) i;
                   data = activesData (ce_query E) i w
               in if acts \<noteq> [] \<and> is_transitioning w data then Inr w
                  else
                   (let w1 = w\<lparr>co_page := fire ''show.bs.collapse'' e (co_page w)\<rparr>
                    in if ce_prevents E ''show.bs.collapse'' e (co_page w1) then Inr w1
                       else bindE (foldE (hide_element E) others w1) (\<lambda>w2.
                         let w3 = (if acts \<noteq> [] \<and> data = None
                                   then w2\<lparr>co_data := (\<lambda>x. if x \<in> set acts then None else co_data w2 x)\<rparr> else w2)
                         in Inr (open_panel E k i e w3))))))"

section \<open>The end of a transition\<close>

definition element_of :: "panels \<Rightarrow> nat \<Rightarrow> eid option" where
  "element_of w k = (case co_heap w k of None \<Rightarrow> None | Some i \<Rightarrow> cl_element i)"

definition collapse_complete :: "collapse_cb \<Rightarrow> panels \<Rightarrow> bs_error + panels" where
  "collapse_complete cb w =
     (case cb of
        Shown k dimension \<Rightarrow>
          (case element_of w k of
             None \<Rightarrow> Inl NullReference
           | Some e \<Rightarrow>
              (let p1 = addClass ''show'' e (addClass ''collapse'' e (removeClass ''collapsing'' e (co_page w)));
                   w2 = setTransitioning False k (set_style e dimension [] (w\<lparr>co_page := p1\<rparr>))
               in Inr (w2\<lparr>co_page := fire ''shown.bs.collapse'' e (co_page w2)\<rparr>)))
      | Hidden k \<Rightarrow>
          (let w1 = setTransitioning False k w
           in case element_of w k of
               None \<Rightarrow> Inr w1
             | Some e \<Rightarrow> Inr (w1\<lparr>co_page := fire ''hidden.bs.collapse'' e
                  (addClass ''collapse'' e (removeClass ''collapsing'' e (co_page w1)))\<rparr>)))"

definition collapse_transitionend :: "eid \<Rightarrow> panels \<Rightarrow> bs_error + panels" where
  "collapse_transitionend x w =
     (case dispatch_end x (co_trans w) of (tr, cbs) \<Rightarrow> foldE collapse_complete cbs (w\<lparr>co_trans := tr\<rparr>))"

definition collapse_emulator :: "nat \<Rightarrow> panels \<Rightarrow> bs_error + panels" where
  "collapse_emulator n w =
     (case emulator_timeout n (co_trans w) of (tr, cbs) \<Rightarrow> foldE collapse_complete cbs (w\<lparr>co_trans := tr\<rparr>))"

section \<open>Public operations\<close>

definition collapse_toggle :: "collapse_env \<Rightarrow> nat \<Rightarrow> panels \<Rightarrow> bs_error + panels" where
  "collapse_toggle E k w =
     (case element_of w k of
        None \<Rightarrow> collapse_show E k w
      | Some e \<Rightarrow> if hasClass ''show'' (co_page w) e then collapse_hide E k w else collapse_show E k w)"

definition new_Collapse :: "collapse_env \<Rightarrow> eid \<Rightarrow> config \<Rightarrow> panels \<Rightarrow> bs_error + (nat \<times> panels)" where
  "new_Collapse E e config w =
     bindE (construct E e config w) (\<lambda>(k, w1).
       case co_heap w1 k of
         None \<Rightarrow> Inr (k, w1)
       | Some i \<Rightarrow>
          if truthy (opt (cl_config i) ''toggle'')
          then bindE (collapse_toggle E k w1) (\<lambda>w2. Inr (k, w2)) else Inr (k, w1))"

text \<open>A second call fails, because jQuery removes the data of \<^verbatim>\<open>null\<close>.\<close>

definition collapse_dispose :: "nat \<Rightarrow> panels \<Rightarrow> bs_error + panels" where
  "collapse_dispose k w =
     (case co_heap w k of
        None \<Rightarrow> Inl NullReference
      | Some i \<Rightarrow>
         (case cl_element i of
            None \<Rightarrow> Inl NullReference
          | Some e \<Rightarrow> Inr (w\<lparr>co_data := (co_data w)(e := None),
              co_heap := (co_heap w)(k \<mapsto> i\<lparr>cl_element := None, cl_config := Map.empty, cl_triggers := [],
                cl_parent := None, cl_transitioning := False\<rparr>)\<rparr>)))"

text \<open>\<^verbatim>\<open>$(element).collapse(config)\<close>; a method, private ones included, is called without arguments.\<close>

datatype collapse_arg = CollapseConfig config | CollapseMethod string

definition collapse_method :: "collapse_env \<Rightarrow> string \<Rightarrow> nat \<Rightarrow> panels \<Rightarrow> bs_error + panels" where
  "collapse_method E m k w =
     (if m = ''toggle'' then collapse_toggle E k w
      else if m = ''show'' then collapse_show E k w
      else if m = ''hide'' then collapse_hide E k w
      else if m = ''dispose'' then collapse_dispose k w
      else if m = ''setTransitioning'' then Inr (setTransitioning False k w)
      else if m \<in> {''_getConfig'', ''_getDimension''} then Inr w
      else if m = ''_getParent'' then
        (case co_heap w k of
           None \<Rightarrow> Inl NullReference
         | Some i \<Rightarrow> if cl_element i = None then Inl NullReference
             else bindE (getParent (ce_query E) (opt (cl_config i) ''parent'') (co_page w)) (\<lambda>(a, q). Inr (w\<lparr>co_page := q\<rparr>)))
      else if m = ''_addAriaAndCollapsedClass'' then Inl NullReference
      else if m \<in> {''_isTransitioning'', ''_element'', ''_config'', ''_triggerArray'', ''_parent''} then Inl (NotAFunction m)
      else if m = ''_selector'' \<and> (case co_heap w k of None \<Rightarrow> False | Some i \<Rightarrow> cl_selector i \<noteq> None) then Inl (NotAFunction m)
      else Inl (NoMethod m))"

definition collapse_jQueryInterface :: "collapse_env \<Rightarrow> eid \<Rightarrow> collapse_arg \<Rightarrow> panels \<Rightarrow> bs_error + panels" where
  "collapse_jQueryInterface E e arg w =
     (let cfg = extends (extends collapse_Default (ce_dataset E (co_page w) e)) (case arg of CollapseConfig c \<Rightarrow> c | _ \<Rightarrow> Map.empty);
          cfg' = (case arg of
              CollapseMethod m \<Rightarrow> if truthy (opt cfg ''toggle'') \<and> (js_contains m ''show'' \<or> js_contains m ''hide'')
                then cfg(''toggle'' \<mapsto> JBool False) else cfg
            | _ \<Rightarrow> cfg)
      in bindE (case co_data w e of
                  Some k \<Rightarrow> Inr (k, w)
                | None \<Rightarrow> bindE (new_Collapse E e cfg' w) (\<lambda>(k, w1). Inr (k, w1\<lparr>co_data := (co_data w1)(e \<mapsto> k)\<rparr>))) (\<lambda>(k, w1).
           case arg of CollapseConfig _ \<Rightarrow> Inr w1 | CollapseMethod m \<Rightarrow> collapse_method E m k w1))"

text \<open>A click on a trigger: the new state and whether the default action is prevented.\<close>

definition collapse_click :: "collapse_env \<Rightarrow> eid \<Rightarrow> panels \<Rightarrow> (bs_error + panels) \<times> bool" where
  "collapse_click E t w =
     (foldE (\<lambda>x v. collapse_jQueryInterface E x
               (if co_data v x \<noteq> None then CollapseMethod ''toggle'' else CollapseConfig (ce_dataset E (co_page v) t)) v)
        (query_or_none (ce_query E) (co_page w) (getSelectorFromElement (ce_query E) (co_page w) t)) w,
      node_name (co_page w) t = ''A'')"

end
