(* ===== verification/Bs_Collapse_Inv.thy ===== *)
theory Bs_Collapse_Inv
  imports Bs_Collapse
begin

text \<open>
  The states of panels: a panel is open, closed or on its way, and it is on its way exactly as long as
  a callback waits for the end of its transition. Every operation of \<^verbatim>\<open>Collapse\<close> but
  \<^verbatim>\<open>dispose\<close> keeps this; an accordion closes its other panels.
\<close>

section \<open>Operations that leave the state of panels alone\<close>

definition calm :: "page \<Rightarrow> page \<Rightarrow> bool" where
  "calm p q \<longleftrightarrow> hasClass ''show'' q = hasClass ''show'' p \<and> hasClass ''collapse'' q = hasClass ''collapse'' p
     \<and> hasClass ''collapsing'' q = hasClass ''collapsing'' p"

lemma calm_refl [simp]: "calm p p"
  by (simp add: calm_def)

lemma calm_trans: "calm p q \<Longrightarrow> calm q r \<Longrightarrow> calm p r"
  by (simp add: calm_def)

lemma calm_ops [simp]:
  "calm p (fire ev e p)" "calm p (setAttribute a v e p)" "calm p (addClass ''collapsed'' e p)"
  "calm p (removeClass ''collapsed'' e p)" "calm p (toggleClass ''collapsed'' b e p)"
  by (simp_all add: calm_def fun_eq_iff)

lemma calm_fold: "(\<And>x q. calm q (f x q)) \<Longrightarrow> calm p (fold f xs p)"
proof (induction xs arbitrary: p)
  case (Cons x xs)
  have "calm p (f x p)" by (rule Cons.prems)
  moreover have "calm (f x p) (fold f xs (f x p))" by (rule Cons.IH [OF Cons.prems])
  ultimately show ?case by (simp add: calm_def)
qed simp

lemma calm_addAria: "calm p (addAriaAndCollapsedClass el ts p)"
  unfolding addAriaAndCollapsedClass_def Let_def
  by (rule calm_trans [OF calm_fold calm_fold]) simp_all

lemma calm_getParent: "getParent query v p = Inr (a, q) \<Longrightarrow> calm p q"
  by (auto simp: getParent_def bindE_Inr_conv intro!: calm_fold calm_addAria)

lemma calm_trigger: "calm p (collapse_trigger query t p)"
  by (auto simp: collapse_trigger_def split: option.splits intro: calm_trans calm_ops)

section \<open>The invariant\<close>

definition awaiting :: "panels \<Rightarrow> eid \<Rightarrow> collapse_cb \<Rightarrow> bool" where
  "awaiting w x cb \<longleftrightarrow> (x, Callback cb) \<in> set (end_handlers (co_trans w))"

primrec cb_instance :: "collapse_cb \<Rightarrow> nat" where
  "cb_instance (Shown k d) = k"
| "cb_instance (Hidden k) = k"

definition panel_states :: "panels \<Rightarrow> bool" where
  "panel_states w \<longleftrightarrow> (\<forall>x.
     (hasClass ''collapsing'' (co_page w) x \<longleftrightarrow> (\<exists>cb. awaiting w x cb))
     \<and> (hasClass ''collapsing'' (co_page w) x \<longrightarrow> \<not> hasClass ''collapse'' (co_page w) x \<and> \<not> hasClass ''show'' (co_page w) x))"

definition instances_ok :: "panels \<Rightarrow> bool" where
  "instances_ok w \<longleftrightarrow>
     (\<forall>x cb. awaiting w x cb \<longrightarrow> element_of w (cb_instance cb) = Some x)
     \<and> (\<forall>k i. co_heap w k = Some i \<longrightarrow> k < co_next w
          \<and> (cl_transitioning i \<longrightarrow> (\<exists>x cb. cl_element i = Some x \<and> awaiting w x cb \<and> cb_instance cb = k)))
     \<and> (\<forall>x k. co_data w x = Some k \<longrightarrow> element_of w k = Some x)"

definition panels_inv :: "panels \<Rightarrow> bool" where
  "panels_inv w \<longleftrightarrow> panel_states w \<and> instances_ok w"

abbreviation shown_at :: "panels \<Rightarrow> eid \<Rightarrow> bool" where
  "shown_at w x \<equiv> hasClass ''show'' (co_page w) x"

lemma element_of_set [simp]: "element_of (setTransitioning b k w) j = element_of w j"
  by (auto simp: element_of_def setTransitioning_def split: option.splits)

lemma setTransitioning_simps [simp]:
  "co_page (setTransitioning b k w) = co_page w" "co_trans (setTransitioning b k w) = co_trans w"
  "co_data (setTransitioning b k w) = co_data w" "co_next (setTransitioning b k w) = co_next w"
  by (simp_all add: setTransitioning_def split: option.splits)

lemma set_style_simps [simp]:
  "co_page (set_style e a v w) = co_page w" "co_trans (set_style e a v w) = co_trans w" "co_heap (set_style e a v w) = co_heap w"
  "co_data (set_style e a v w) = co_data w" "co_next (set_style e a v w) = co_next w" "element_of (set_style e a v w) = element_of w"
  by (simp_all add: set_style_def element_of_def fun_eq_iff)

lemma inv_calm:
  assumes "panels_inv w" "calm (co_page w) (co_page w')" "co_trans w' = co_trans w" "co_heap w' = co_heap w"
    "co_data w' = co_data w" "co_next w' = co_next w"
  shows "panels_inv w'"
  using assms by (simp add: panels_inv_def panel_states_def instances_ok_def awaiting_def element_of_def calm_def)

lemma inv_forget: "panels_inv w \<Longrightarrow> panels_inv (w\<lparr>co_data := (\<lambda>x. if P x then None else co_data w x)\<rparr>)"
  by (simp add: panels_inv_def panel_states_def instances_ok_def awaiting_def element_of_def)

lemma inv_bind: "panels_inv w \<Longrightarrow> element_of w k = Some x \<Longrightarrow> panels_inv (w\<lparr>co_data := (co_data w)(x \<mapsto> k)\<rparr>)"
  by (simp add: panels_inv_def panel_states_def instances_ok_def awaiting_def element_of_def)

lemma inv_unset: "panels_inv w \<Longrightarrow> panels_inv (setTransitioning False k w)"
  by (auto simp: panels_inv_def panel_states_def instances_ok_def awaiting_def setTransitioning_def element_of_def
      split: option.splits if_splits)

text \<open>A panel with the class \<^verbatim>\<open>show\<close> is not on its way, so no instance on it is transitioning.\<close>

lemma shown_idle:
  assumes "panels_inv w" "co_heap w k = Some i" "cl_element i = Some e" "shown_at w e"
  shows "\<not> cl_transitioning i"
proof
  assume "cl_transitioning i"
  then have "\<exists>x cb. cl_element i = Some x \<and> awaiting w x cb"
    using assms(1,2) unfolding panels_inv_def instances_ok_def by blast
  then obtain cb where "awaiting w e cb" using assms(3) by auto
  then show False using assms(1,4) unfolding panels_inv_def panel_states_def by blast
qed

text \<open>The step both operations share: the panel gets on its way and a callback of the instance waits.\<close>

lemma inv_start_transition:
  assumes inv: "panels_inv w" and k: "element_of w k = Some e" and cb: "cb_instance cb = k"
    and p: "\<And>x. hasClass ''collapsing'' p x = (x = e \<or> hasClass ''collapsing'' (co_page w) x)"
      "\<And>x. hasClass ''collapse'' p x \<Longrightarrow> x \<noteq> e \<and> hasClass ''collapse'' (co_page w) x"
      "\<And>x. hasClass ''show'' p x \<Longrightarrow> x \<noteq> e \<and> hasClass ''show'' (co_page w) x"
    and w': "co_page w' = p" "co_trans w' = await_end e cb (co_trans w)" "co_heap w' = co_heap (setTransitioning True k w)"
      "co_data w' = co_data w" "co_next w' = co_next w"
  shows "panels_inv w'"
proof -
  have a: "awaiting w' x c \<longleftrightarrow> awaiting w x c \<or> (x = e \<and> c = cb)" for x c
    by (auto simp: awaiting_def w' await_end_def transitionEndEmulator_def)
  have el: "element_of w' j = element_of w j" for j
    using element_of_set [of True k w j] by (simp add: element_of_def w'(3))
  have heap: "co_heap w' j = Some i \<Longrightarrow> \<exists>i0. co_heap w j = Some i0 \<and> cl_element i = cl_element i0
      \<and> (cl_transitioning i \<longrightarrow> j = k \<or> cl_transitioning i0)" for j i
    by (auto simp: w'(3) setTransitioning_def split: option.splits if_splits)
  have "panel_states w'"
    using inv p unfolding panels_inv_def panel_states_def a w'(1) by blast
  moreover have "instances_ok w'"
  proof -
    have "\<exists>x c. cl_element i = Some x \<and> awaiting w' x c \<and> cb_instance c = j" if h: "co_heap w' j = Some i" "cl_transitioning i" for j i
    proof -
      obtain i0 where i0: "co_heap w j = Some i0" "cl_element i = cl_element i0" "j = k \<or> cl_transitioning i0" using heap h by blast
      show ?thesis
      proof (cases "j = k")
        case True
        then show ?thesis using k i0 cb a by (auto simp: element_of_def)
      next
        case False
        then show ?thesis using inv i0 a by (fastforce simp: panels_inv_def instances_ok_def)
      qed
    qed
    moreover have "j < co_next w'" if "co_heap w' j = Some i" for j i
      using heap [OF that] inv w'(5) by (auto simp: panels_inv_def instances_ok_def)
    ultimately show ?thesis
      using inv k cb unfolding instances_ok_def panels_inv_def a el w'(4) by blast
  qed
  ultimately show ?thesis by (simp add: panels_inv_def)
qed

section \<open>Hiding\<close>

lemma construct_frame:
  assumes "construct E e c w = Inr (k, w')"
  shows "calm (co_page w) (co_page w')" "co_trans w' = co_trans w" "co_data w' = co_data w" "k = co_next w"
    "co_next w' = Suc (co_next w)" "\<exists>i. co_heap w' = (co_heap w)(k \<mapsto> i) \<and> cl_element i = Some e \<and> \<not> cl_transitioning i"
  using assms calm_addAria calm_getParent
  by (auto simp: construct_def bindE_Inr_conv Let_def case_prod_beta split: if_splits prod.splits)

lemma construct_inv:
  assumes inv: "panels_inv w" and c: "construct E e c w = Inr (k, w')"
  shows "panels_inv w'" "element_of w' k = Some e"
proof -
  note fr = construct_frame [OF c]
  obtain i where i: "co_heap w' = (co_heap w)(k \<mapsto> i)" "cl_element i = Some e" "\<not> cl_transitioning i" using fr(6) by blast
  have fresh: "co_heap w k = None" using inv fr(4) by (cases "co_heap w k") (auto simp: panels_inv_def instances_ok_def)
  have el: "element_of w j = Some x \<Longrightarrow> element_of w' j = Some x" for j x
    using fresh by (auto simp: element_of_def i(1))
  have a: "awaiting w' = awaiting w" by (simp add: fun_eq_iff awaiting_def fr(2))
  have "panel_states w'" using inv fr(1) by (simp add: panels_inv_def panel_states_def a calm_def)
  moreover have "instances_ok w'"
    using inv el i fr(4) unfolding instances_ok_def panels_inv_def a fr(3,5) by (auto split: if_splits) fastforce+
  ultimately show "panels_inv w'" by (simp add: panels_inv_def)
  show "element_of w' k = Some e" by (simp add: element_of_def i)
qed

text \<open>A panel that is hidden: nothing is shown that was not before, and unless a handler prevents it the
  panel is not.\<close>

lemma hide_effect:
  assumes inv: "panels_inv w" and k: "element_of w k = Some e"
  shows "\<exists>w'. collapse_hide E k w = Inr w' \<and> panels_inv w' \<and> (\<forall>x. shown_at w' x \<longrightarrow> shown_at w x)
    \<and> (\<forall>x. shown_at w x \<and> x \<noteq> e \<longrightarrow> shown_at w' x)
    \<and> (never_prevents (ce_prevents E) ''hide.bs.collapse'' \<longrightarrow> \<not> shown_at w' e) \<and> element_of w' = element_of w \<and> co_data w' = co_data w
    \<and> (\<forall>j i. co_heap w j = Some i \<and> j \<noteq> k \<longrightarrow> co_heap w' j = Some i)"
proof -
  obtain i where i: "co_heap w k = Some i" "cl_element i = Some e" using k by (auto simp: element_of_def split: option.splits)
  define p1 where "p1 = fire ''hide.bs.collapse'' e (co_page w)"
  consider "cl_transitioning i \<or> \<not> shown_at w e" | "shown_at w e" "ce_prevents E ''hide.bs.collapse'' e p1" "\<not> cl_transitioning i"
    | "shown_at w e" "\<not> ce_prevents E ''hide.bs.collapse'' e p1" "\<not> cl_transitioning i" by blast
  then show ?thesis
  proof cases
    case 1
    then have "collapse_hide E k w = Inr w" by (simp add: collapse_hide_def i)
    moreover have "\<not> shown_at w e" using 1 shown_idle [OF inv i] by blast
    ultimately show ?thesis using inv by blast
  next
    case 2
    then have "collapse_hide E k w = Inr (w\<lparr>co_page := p1\<rparr>)" by (simp add: collapse_hide_def i p1_def Let_def)
    moreover have "panels_inv (w\<lparr>co_page := p1\<rparr>)" by (rule inv_calm [OF inv]) (simp_all add: p1_def)
    moreover have "element_of (w\<lparr>co_page := p1\<rparr>) = element_of w" by (simp add: fun_eq_iff element_of_def)
    ultimately show ?thesis using 2(2) by (auto simp: p1_def)
  next
    case 3
    define d where "d = getDimension p1 e"
    define w2 where "w2 = set_style e d (ce_rect_size E p1 e d @ ''px'') (w\<lparr>co_page := p1\<rparr>)"
    define p3 where "p3 = removeClass ''show'' e (removeClass ''collapse'' e (addClass ''collapsing'' e p1))"
    define p4 where "p4 = fold (collapse_trigger (ce_query E)) (cl_triggers i) p3"
    define w4 where "w4 = set_style e d [] (setTransitioning True k (w2\<lparr>co_page := p4\<rparr>))"
    define w5 where "w5 = w4\<lparr>co_trans := await_end e (Hidden k) (co_trans w4)\<rparr>"
    have eq: "collapse_hide E k w = Inr w5"
      using 3 by (simp add: collapse_hide_def i p1_def [symmetric] Let_def w5_def w4_def w2_def d_def p3_def p4_def)
    have c: "calm p3 p4" unfolding p4_def by (rule calm_fold) (rule calm_trigger)
    have cl: "hasClass ''collapsing'' p4 x = (x = e \<or> hasClass ''collapsing'' (co_page w) x)"
      "hasClass ''collapse'' p4 x = (x \<noteq> e \<and> hasClass ''collapse'' (co_page w) x)"
      "hasClass ''show'' p4 x = (x \<noteq> e \<and> shown_at w x)" for x
      using c by (auto simp: calm_def p3_def p1_def)
    have heap: "co_heap w5 = co_heap (setTransitioning True k w)"
      by (simp add: w5_def w4_def w2_def setTransitioning_def i set_style_def)
    have "panels_inv w5"
      by (rule inv_start_transition [OF inv k, where cb = "Hidden k" and p = p4])
        (use cl heap in \<open>simp_all add: w5_def w4_def w2_def\<close>)
    moreover have "element_of w5 = element_of w"
      using element_of_set [of True k w] by (simp add: fun_eq_iff element_of_def heap)
    moreover have "co_heap w5 j = Some i'" if "co_heap w j = Some i'" "j \<noteq> k" for j i'
      using that by (simp add: heap setTransitioning_def i)
    moreover have "co_page w5 = p4" "co_data w5 = co_data w" by (simp_all add: w5_def w4_def w2_def)
    ultimately show ?thesis using eq cl by simp
  qed
qed

lemma hide_element_inv:
  assumes inv: "panels_inv w" and run: "hide_element E x w = Inr w'"
  shows "panels_inv w' \<and> (\<forall>y. shown_at w' y \<longrightarrow> shown_at w y) \<and> (\<forall>y. shown_at w y \<and> y \<noteq> x \<longrightarrow> shown_at w' y)
    \<and> (never_prevents (ce_prevents E) ''hide.bs.collapse'' \<longrightarrow> \<not> shown_at w' x)
    \<and> (\<forall>k y. element_of w k = Some y \<longrightarrow> element_of w' k = Some y)"
proof (cases "co_data w x")
  case (Some k)
  then have k: "element_of w k = Some x" using inv by (simp add: panels_inv_def instances_ok_def)
  show ?thesis using hide_effect [OF inv k, of E] run Some by (auto simp: hide_element_def)
next
  case None
  then obtain k w1 where c: "construct E x ((extends collapse_Default (ce_dataset E (co_page w) x))(''toggle'' \<mapsto> JBool False)) w = Inr (k, w1)"
    and h: "collapse_hide E k (w1\<lparr>co_data := (co_data w1)(x \<mapsto> k)\<rparr>) = Inr w'"
    using run by (auto simp: hide_element_def bindE_Inr_conv)
  define w2 where "w2 = w1\<lparr>co_data := (co_data w1)(x \<mapsto> k)\<rparr>"
  note ci = construct_inv [OF inv c] and fr = construct_frame [OF c]
  have i2: "panels_inv w2" unfolding w2_def by (rule inv_bind [OF ci])
  have k2: "element_of w2 k = Some x" using ci(2) by (simp add: w2_def element_of_def)
  have s: "shown_at w2 y = shown_at w y" for y using fr(1) by (simp add: w2_def calm_def)
  have el: "element_of w2 j = Some y" if "element_of w j = Some y" for j y
  proof -
    have "j \<noteq> k" using inv that fr(4) by (auto simp: element_of_def panels_inv_def instances_ok_def split: option.splits)
    then show ?thesis using fr(6) that by (auto simp: w2_def element_of_def)
  qed
  show ?thesis using hide_effect [OF i2 k2, of E] h el by (auto simp: w2_def [symmetric] s)
qed

lemma hide_all_inv:
  "panels_inv w \<Longrightarrow> foldE (hide_element E) xs w = Inr w' \<Longrightarrow>
    panels_inv w' \<and> (\<forall>y. shown_at w' y \<longrightarrow> shown_at w y) \<and> (\<forall>y. shown_at w y \<and> y \<notin> set xs \<longrightarrow> shown_at w' y)
    \<and> (never_prevents (ce_prevents E) ''hide.bs.collapse'' \<longrightarrow> (\<forall>x \<in> set xs. \<not> shown_at w' x))
    \<and> (\<forall>k y. element_of w k = Some y \<longrightarrow> element_of w' k = Some y)"
proof (induction xs arbitrary: w)
  case (Cons x xs)
  then obtain v where v: "hide_element E x w = Inr v" "foldE (hide_element E) xs v = Inr w'" by (auto simp: bindE_Inr_conv)
  note h = hide_element_inv [OF Cons.prems(1) v(1)]
  then have iv: "panels_inv v" by blast
  note r = Cons.IH [OF iv v(2)]
  show ?case
    unfolding list.set by (intro conjI) (use h r in blast)+
qed simp

section \<open>Showing\<close>

lemma open_panel_inv:
  assumes inv: "panels_inv w" and k: "element_of w k = Some e" and sh: "\<not> shown_at w e"
  shows "panels_inv (open_panel E k i e w)" "shown_at (open_panel E k i e w) = shown_at w"
    "\<exists>d. awaiting (open_panel E k i e w) e (Shown k d)"
    "co_data (open_panel E k i e w) = co_data w" "\<And>j. element_of (open_panel E k i e w) j = element_of w j"
proof -
  define d where "d = getDimension (co_page w) e"
  define p where "p = fold (setAttribute ''aria-expanded'' ''true'') (cl_triggers i)
      (fold (removeClass ''collapsed'') (cl_triggers i) (addClass ''collapsing'' e (removeClass ''collapse'' e (co_page w))))"
  have pg: "co_page (open_panel E k i e w) = p" by (simp add: open_panel_def Let_def p_def)
  have tr: "co_trans (open_panel E k i e w) = await_end e (Shown k d) (co_trans w)" by (simp add: open_panel_def Let_def d_def)
  have heap: "co_heap (open_panel E k i e w) = co_heap (setTransitioning True k w)"
    by (simp add: open_panel_def Let_def setTransitioning_def set_style_def split: option.splits)
  show data: "co_data (open_panel E k i e w) = co_data w" by (simp add: open_panel_def Let_def)
  have nx: "co_next (open_panel E k i e w) = co_next w" by (simp add: open_panel_def Let_def)
  have c: "calm (addClass ''collapsing'' e (removeClass ''collapse'' e (co_page w))) p"
    unfolding p_def by (rule calm_trans [OF calm_fold calm_fold]) simp_all
  have cl: "hasClass ''collapsing'' p x = (x = e \<or> hasClass ''collapsing'' (co_page w) x)"
      "hasClass ''collapse'' p x = (x \<noteq> e \<and> hasClass ''collapse'' (co_page w) x)"
      "hasClass ''show'' p x = shown_at w x" for x
    using c by (auto simp: calm_def)
  show "panels_inv (open_panel E k i e w)"
    by (rule inv_start_transition [OF inv k, where cb = "Shown k d" and p = p])
      (use cl pg tr heap data nx sh in auto)
  show "shown_at (open_panel E k i e w) = shown_at w" by (simp add: fun_eq_iff pg cl)
  show "\<exists>d. awaiting (open_panel E k i e w) e (Shown k d)"
    by (auto simp: awaiting_def tr await_end_def transitionEndEmulator_def)
  show "element_of (open_panel E k i e w) j = element_of w j" for j
    using element_of_set [of True k w j] by (simp add: element_of_def heap)
qed

text \<open>\<^verbatim>\<open>show\<close> once it goes on: the other active panels are hidden, then the panel opens.\<close>

lemma show_effect:
  assumes inv: "panels_inv w" and k: "element_of w k = Some e" and sh: "\<not> shown_at w e"
    and hid: "foldE (hide_element E) others (w\<lparr>co_page := fire ev e (co_page w)\<rparr>) = Inr w2"
    and w3: "w3 = (if b then w2\<lparr>co_data := (\<lambda>x. if x \<in> A then None else co_data w2 x)\<rparr> else w2)"
  shows "panels_inv (open_panel E k i e w3)" "\<exists>d. awaiting (open_panel E k i e w3) e (Shown k d)"
    "shown_at (open_panel E k i e w3) y \<Longrightarrow> shown_at w y"
    "shown_at w y \<Longrightarrow> y \<notin> set others \<Longrightarrow> shown_at (open_panel E k i e w3) y"
    "never_prevents (ce_prevents E) ''hide.bs.collapse'' \<Longrightarrow> x \<in> set others \<Longrightarrow> \<not> shown_at (open_panel E k i e w3) x"
    "element_of w j = Some z \<Longrightarrow> element_of (open_panel E k i e w3) j = Some z"
proof -
  define w1 where "w1 = w\<lparr>co_page := fire ev e (co_page w)\<rparr>"
  have i1: "panels_inv w1" by (rule inv_calm [OF inv]) (simp_all add: w1_def)
  have s1: "shown_at w1 y = shown_at w y" and e1: "element_of w1 = element_of w" for y
    by (simp_all add: w1_def element_of_def fun_eq_iff)
  note h = hide_all_inv [OF i1 hid [folded w1_def]]
  have i3: "panels_inv w3" using h by (simp add: w3 inv_forget)
  have s3: "shown_at w3 = shown_at w2" and e3: "element_of w3 = element_of w2" by (simp_all add: w3 element_of_def fun_eq_iff)
  have k3: "element_of w3 k = Some e" using h k by (simp add: e3 e1)
  have down: "shown_at w3 y \<Longrightarrow> shown_at w y" and up: "shown_at w y \<Longrightarrow> y \<notin> set others \<Longrightarrow> shown_at w3 y"
    and gone: "never_prevents (ce_prevents E) ''hide.bs.collapse'' \<Longrightarrow> x \<in> set others \<Longrightarrow> \<not> shown_at w3 x" for x y
    using h unfolding s1 s3 by blast+
  have sh3: "\<not> shown_at w3 e" using down sh by blast
  note o = open_panel_inv [OF i3 k3 sh3, of E i]
  show "panels_inv (open_panel E k i e w3)" "\<exists>d. awaiting (open_panel E k i e w3) e (Shown k d)" by (rule o(1), rule o(3))
  show "shown_at (open_panel E k i e w3) y \<Longrightarrow> shown_at w y" unfolding o(2) by (rule down)
  show "shown_at w y \<Longrightarrow> y \<notin> set others \<Longrightarrow> shown_at (open_panel E k i e w3) y" unfolding o(2) by (rule up)
  show "never_prevents (ce_prevents E) ''hide.bs.collapse'' \<Longrightarrow> x \<in> set others \<Longrightarrow> \<not> shown_at (open_panel E k i e w3) x"
    unfolding o(2) by (rule gone)
  show "element_of w j = Some z \<Longrightarrow> element_of (open_panel E k i e w3) j = Some z" using h by (simp add: o(5) e3 e1)
qed

text \<open>The end of \<^verbatim>\<open>show\<close>: the data of the active panels is forgotten when the first has none.\<close>

definition show_end :: "collapse_env \<Rightarrow> nat \<Rightarrow> collapse \<Rightarrow> eid \<Rightarrow> panels \<Rightarrow> panels \<Rightarrow> panels" where
  "show_end E k i e w w2 = open_panel E k i e
     (if actives (co_page w) i \<noteq> [] \<and> activesData (ce_query E) i w = None
      then w2\<lparr>co_data := (\<lambda>x. if x \<in> set (actives (co_page w) i) then None else co_data w2 x)\<rparr> else w2)"

lemma if_Inr: "(if b then Inr x else y) = Inr z \<longleftrightarrow> (if b then x = z else y = Inr z)"
  by simp

lemma show_alt:
  assumes "co_heap w k = Some i" "cl_element i = Some e"
  shows "collapse_show E k w =
     (if cl_transitioning i \<or> shown_at w e
        \<or> actives (co_page w) i \<noteq> [] \<and> is_transitioning w (activesData (ce_query E) i w) then Inr w
      else if ce_prevents E ''show.bs.collapse'' e (fire ''show.bs.collapse'' e (co_page w))
      then Inr (w\<lparr>co_page := fire ''show.bs.collapse'' e (co_page w)\<rparr>)
      else bindE (foldE (hide_element E) (other_actives (ce_query E) (co_page w) i)
             (w\<lparr>co_page := fire ''show.bs.collapse'' e (co_page w)\<rparr>)) (\<lambda>w2. Inr (show_end E k i e w w2)))"
  by (simp add: collapse_show_def assms Let_def show_end_def)

lemma show_inv:
  assumes inv: "panels_inv w" and k: "element_of w k = Some e" and run: "collapse_show E k w = Inr w'"
  shows "panels_inv w' \<and> (\<forall>j z. element_of w j = Some z \<longrightarrow> element_of w' j = Some z)"
proof -
  obtain i where i: "co_heap w k = Some i" "cl_element i = Some e" using k by (auto simp: element_of_def split: option.splits)
  define w1 where "w1 = w\<lparr>co_page := fire ''show.bs.collapse'' e (co_page w)\<rparr>"
  have i1: "panels_inv w1" by (rule inv_calm [OF inv]) (simp_all add: w1_def)
  have r: "if cl_transitioning i \<or> shown_at w e
        \<or> actives (co_page w) i \<noteq> [] \<and> is_transitioning w (activesData (ce_query E) i w) then w = w'
      else if ce_prevents E ''show.bs.collapse'' e (fire ''show.bs.collapse'' e (co_page w)) then w1 = w'
      else \<exists>w2. foldE (hide_element E) (other_actives (ce_query E) (co_page w) i) w1 = Inr w2 \<and> show_end E k i e w w2 = w'"
    using run unfolding show_alt [OF i] w1_def [symmetric] if_Inr bindE_Inr_conv sum.inject .
  show ?thesis
  proof (cases "w' = w \<or> w' = w1")
    case True
    moreover have "element_of w1 = element_of w" by (simp add: w1_def element_of_def fun_eq_iff)
    ultimately show ?thesis using inv i1 by auto
  next
    case False
    then obtain w2 where w2: "\<not> shown_at w e" "foldE (hide_element E) (other_actives (ce_query E) (co_page w) i) w1 = Inr w2"
        "show_end E k i e w w2 = w'"
      using r by metis
    show ?thesis
      unfolding w2(3) [symmetric] show_end_def
      using show_effect(1,6) [OF inv k w2(1) w2(2) [unfolded w1_def] refl] by blast
  qed
qed

section \<open>The end of a transition\<close>

lemma complete_effect:
  assumes "element_of w (cb_instance cb) = Some x"
  shows "\<exists>w'. collapse_complete cb w = Inr w' \<and> co_trans w' = co_trans w \<and> co_data w' = co_data w \<and> co_next w' = co_next w
    \<and> element_of w' = element_of w
    \<and> (\<forall>y c. c \<in> {''show'', ''collapse'', ''collapsing''} \<and> y \<noteq> x \<longrightarrow> hasClass c (co_page w') y = hasClass c (co_page w) y)
    \<and> \<not> hasClass ''collapsing'' (co_page w') x
    \<and> (shown_at w' x \<longleftrightarrow> shown_at w x \<or> (\<exists>k d. cb = Shown k d))
    \<and> (\<forall>j i. co_heap w' j = Some i \<longrightarrow> (\<exists>i0. co_heap w j = Some i0 \<and> cl_element i = cl_element i0
          \<and> (cl_transitioning i \<longrightarrow> cl_transitioning i0 \<and> j \<noteq> cb_instance cb)))"
proof -
  obtain i where i: "co_heap w (cb_instance cb) = Some i" "cl_element i = Some x"
    using assms by (auto simp: element_of_def split: option.splits)
  show ?thesis
    using i by (cases cb) (auto simp: collapse_complete_def element_of_def setTransitioning_def set_style_def Let_def fun_eq_iff)
qed

lemma completes_effect:
  assumes "\<forall>cb \<in> set cbs. element_of w (cb_instance cb) = Some x"
  shows "\<exists>w'. foldE collapse_complete cbs w = Inr w' \<and> co_trans w' = co_trans w \<and> co_data w' = co_data w \<and> co_next w' = co_next w
    \<and> element_of w' = element_of w
    \<and> (\<forall>y c. c \<in> {''show'', ''collapse'', ''collapsing''} \<and> y \<noteq> x \<longrightarrow> hasClass c (co_page w') y = hasClass c (co_page w) y)
    \<and> (hasClass ''collapsing'' (co_page w') x \<longrightarrow> cbs = [] \<and> hasClass ''collapsing'' (co_page w) x)
    \<and> (shown_at w' x \<longleftrightarrow> shown_at w x \<or> (\<exists>k d. Shown k d \<in> set cbs))
    \<and> (\<forall>j i. co_heap w' j = Some i \<longrightarrow> (\<exists>i0. co_heap w j = Some i0 \<and> cl_element i = cl_element i0
          \<and> (cl_transitioning i \<longrightarrow> cl_transitioning i0 \<and> j \<notin> cb_instance ` set cbs)))"
  using assms
proof (induction cbs arbitrary: w)
  case (Cons cb cbs)
  obtain v where v: "collapse_complete cb w = Inr v" "co_trans v = co_trans w" "co_data v = co_data w" "co_next v = co_next w"
      "element_of v = element_of w"
      "\<forall>y c. c \<in> {''show'', ''collapse'', ''collapsing''} \<and> y \<noteq> x \<longrightarrow> hasClass c (co_page v) y = hasClass c (co_page w) y"
      "\<not> hasClass ''collapsing'' (co_page v) x" "shown_at v x \<longleftrightarrow> shown_at w x \<or> (\<exists>k d. cb = Shown k d)"
      "\<forall>j i. co_heap v j = Some i \<longrightarrow> (\<exists>i0. co_heap w j = Some i0 \<and> cl_element i = cl_element i0
          \<and> (cl_transitioning i \<longrightarrow> cl_transitioning i0 \<and> j \<noteq> cb_instance cb))"
    using complete_effect [of w cb x] Cons.prems by auto
  have "\<forall>cb \<in> set cbs. element_of v (cb_instance cb) = Some x" using Cons.prems v(5) by simp
  from Cons.IH [OF this] obtain u where u: "foldE collapse_complete cbs v = Inr u" "co_trans u = co_trans v" "co_data u = co_data v"
      "co_next u = co_next v" "element_of u = element_of v"
      "\<forall>y c. c \<in> {''show'', ''collapse'', ''collapsing''} \<and> y \<noteq> x \<longrightarrow> hasClass c (co_page u) y = hasClass c (co_page v) y"
      "hasClass ''collapsing'' (co_page u) x \<longrightarrow> cbs = [] \<and> hasClass ''collapsing'' (co_page v) x"
      "shown_at u x \<longleftrightarrow> shown_at v x \<or> (\<exists>k d. Shown k d \<in> set cbs)"
      "\<forall>j i. co_heap u j = Some i \<longrightarrow> (\<exists>i0. co_heap v j = Some i0 \<and> cl_element i = cl_element i0
          \<and> (cl_transitioning i \<longrightarrow> cl_transitioning i0 \<and> j \<notin> cb_instance ` set cbs))" by blast
  have heap: "\<exists>i0. co_heap w j = Some i0 \<and> cl_element i = cl_element i0
      \<and> (cl_transitioning i \<longrightarrow> cl_transitioning i0 \<and> j \<notin> cb_instance ` set (cb # cbs))" if "co_heap u j = Some i" for j i
    using u(9) v(9) that by fastforce
  have "shown_at u x \<longleftrightarrow> shown_at w x \<or> (\<exists>k d. Shown k d \<in> set (cb # cbs))" using u(8) v(8) by auto
  then show ?case using u(1-7) v(1-7) heap by (intro exI [of _ u]) simp
qed simp

lemma dispatch_inv:
  assumes inv: "panels_inv w"
    and tr: "end_handlers tr = filter (\<lambda>h. fst h \<noteq> x) (end_handlers (co_trans w))"
    and cbs: "\<And>cb. cb \<in> set cbs \<longleftrightarrow> awaiting w x cb"
  shows "\<exists>w'. foldE collapse_complete cbs (w\<lparr>co_trans := tr\<rparr>) = Inr w' \<and> panels_inv w' \<and> \<not> hasClass ''collapsing'' (co_page w') x
    \<and> (\<forall>y. y \<noteq> x \<longrightarrow> shown_at w' y = shown_at w y) \<and> (shown_at w' x \<longleftrightarrow> shown_at w x \<or> (\<exists>k d. awaiting w x (Shown k d)))"
proof -
  define v where "v = w\<lparr>co_trans := tr\<rparr>"
  have el: "element_of v = element_of w" by (simp add: v_def element_of_def fun_eq_iff)
  have "\<forall>cb \<in> set cbs. element_of v (cb_instance cb) = Some x"
    using inv cbs unfolding el panels_inv_def instances_ok_def by blast
  from completes_effect [OF this] obtain u where u: "foldE collapse_complete cbs v = Inr u" "co_trans u = co_trans v" "co_data u = co_data v"
      "co_next u = co_next v" "element_of u = element_of v"
      "\<forall>y c. c \<in> {''show'', ''collapse'', ''collapsing''} \<and> y \<noteq> x \<longrightarrow> hasClass c (co_page u) y = hasClass c (co_page v) y"
      "hasClass ''collapsing'' (co_page u) x \<longrightarrow> cbs = [] \<and> hasClass ''collapsing'' (co_page v) x"
      "shown_at u x \<longleftrightarrow> shown_at v x \<or> (\<exists>k d. Shown k d \<in> set cbs)"
      "\<forall>j i. co_heap u j = Some i \<longrightarrow> (\<exists>i0. co_heap v j = Some i0 \<and> cl_element i = cl_element i0
          \<and> (cl_transitioning i \<longrightarrow> cl_transitioning i0 \<and> j \<notin> cb_instance ` set cbs))" by blast
  have vp: "co_page v = co_page w" and vh: "co_heap v = co_heap w" by (simp_all add: v_def)
  have a: "awaiting u y cb \<longleftrightarrow> awaiting w y cb \<and> y \<noteq> x" for y cb
    by (auto simp: awaiting_def u(2) v_def tr)
  have nc: "\<not> hasClass ''collapsing'' (co_page u) x"
  proof
    assume "hasClass ''collapsing'' (co_page u) x"
    then have "cbs = []" "hasClass ''collapsing'' (co_page w) x" using u(7) vp by simp_all
    then show False using inv cbs unfolding panels_inv_def panel_states_def by fastforce
  qed
  have same: "hasClass ''collapsing'' (co_page u) y = hasClass ''collapsing'' (co_page w) y"
    "hasClass ''collapse'' (co_page u) y = hasClass ''collapse'' (co_page w) y" "shown_at u y = shown_at w y" if "y \<noteq> x" for y
    using u(6) that vp by simp_all
  have "panel_states u"
    unfolding panel_states_def a
  proof (intro allI)
    fix y
    show "hasClass ''collapsing'' (co_page u) y = (\<exists>cb. awaiting w y cb \<and> y \<noteq> x)
      \<and> (hasClass ''collapsing'' (co_page u) y \<longrightarrow> \<not> hasClass ''collapse'' (co_page u) y \<and> \<not> shown_at u y)"
      using inv nc same unfolding panels_inv_def panel_states_def by (cases "y = x") simp_all
  qed
  moreover have "instances_ok u"
  proof -
    have "\<exists>y cb. cl_element i = Some y \<and> awaiting u y cb \<and> cb_instance cb = j" if h: "co_heap u j = Some i" "cl_transitioning i" for j i
    proof -
      obtain i0 where i0: "co_heap w j = Some i0" "cl_element i = cl_element i0" "cl_transitioning i0" "j \<notin> cb_instance ` set cbs"
        using u(9) h vh by fastforce
      then obtain y cb where "cl_element i0 = Some y" "awaiting w y cb" "cb_instance cb = j"
        using inv unfolding panels_inv_def instances_ok_def by blast
      moreover from this have "y \<noteq> x" using i0(4) cbs by blast
      ultimately show ?thesis using i0(2) a by auto
    qed
    moreover have "j < co_next u" if h: "co_heap u j = Some i" for j i
    proof -
      obtain i0 where "co_heap w j = Some i0" using u(9) h vh by fastforce
      then show ?thesis using inv u(4) by (simp add: panels_inv_def instances_ok_def v_def)
    qed
    ultimately show ?thesis
      using inv unfolding instances_ok_def panels_inv_def a u(3,5) el by (simp add: v_def)
  qed
  ultimately show ?thesis using u(1,8) nc same vp cbs by (auto simp: panels_inv_def v_def)
qed

end
