(* ===== verification/Bs_Collapse_Live.thy ===== *)
theory Bs_Collapse_Live
  imports Bs_Collapse_Inv
begin

text \<open>
  The states that the panels of a page reach through jQuery, clicks, the ends of transitions and the
  timers behind them, and what holds in all of them.
\<close>

section \<open>Every input keeps the invariant\<close>

definition keeps :: "panels \<Rightarrow> panels \<Rightarrow> bool" where
  "keeps w w' \<longleftrightarrow> panels_inv w' \<and> (\<forall>j z. element_of w j = Some z \<longrightarrow> element_of w' j = Some z)"

lemma keeps_hide: "panels_inv w \<Longrightarrow> element_of w k = Some e \<Longrightarrow> collapse_hide E k w = Inr w' \<Longrightarrow> keeps w w'"
  using hide_effect [of w k e E] by (auto simp: keeps_def)

lemma keeps_show: "panels_inv w \<Longrightarrow> element_of w k = Some e \<Longrightarrow> collapse_show E k w = Inr w' \<Longrightarrow> keeps w w'"
  using show_inv [of w k e E w'] by (simp add: keeps_def)

lemma keeps_toggle: "panels_inv w \<Longrightarrow> element_of w k = Some e \<Longrightarrow> collapse_toggle E k w = Inr w' \<Longrightarrow> keeps w w'"
  using keeps_hide keeps_show by (simp add: collapse_toggle_def split: if_splits)

lemma keeps_new:
  assumes inv: "panels_inv w" and run: "new_Collapse E e c w = Inr (k, w')"
  shows "panels_inv w'" "element_of w' k = Some e"
proof -
  obtain w1 where c: "construct E e c w = Inr (k, w1)" and r: "w' = w1 \<or> collapse_toggle E k w1 = Inr w'"
    using run by (auto simp: new_Collapse_def bindE_Inr_conv split: option.splits if_splits)
  note ci = construct_inv [OF inv c]
  have "w' = w1 \<or> keeps w1 w'" using r keeps_toggle [OF ci] by blast
  then show "panels_inv w'" "element_of w' k = Some e" using ci by (auto simp: keeps_def)
qed

lemma method_cases:
  assumes "m \<noteq> ''dispose''"
  shows "collapse_method E m k w \<in> {collapse_toggle E k w, collapse_show E k w, collapse_hide E k w, Inr (setTransitioning False k w), Inr w}
    \<or> (\<exists>err. collapse_method E m k w = Inl err)
    \<or> (\<exists>v. collapse_method E m k w = bindE (getParent (ce_query E) v (co_page w)) (\<lambda>(a, q). Inr (w\<lparr>co_page := q\<rparr>)))"
proof -
  define P where "P r \<longleftrightarrow> r \<in> {collapse_toggle E k w, collapse_show E k w, collapse_hide E k w, Inr (setTransitioning False k w), Inr w}
    \<or> (\<exists>err. r = Inl err) \<or> (\<exists>v. r = bindE (getParent (ce_query E) v (co_page w)) (\<lambda>(a, q). Inr (w\<lparr>co_page := q\<rparr>)))" for r
  have either: "P x \<Longrightarrow> P y \<Longrightarrow> P (if b then x else y)" for x y b by simp
  have cases: "P x \<Longrightarrow> (\<And>i. P (f i)) \<Longrightarrow> P (case o' of None \<Rightarrow> x | Some i \<Rightarrow> f i)" for x f and o' :: "collapse option"
    by (cases o') simp_all
  have "P (collapse_toggle E k w)" "P (collapse_show E k w)" "P (collapse_hide E k w)" "P (Inr (setTransitioning False k w))"
    "P (Inr w)" "P (Inl err)" "P (bindE (getParent (ce_query E) v (co_page w)) (\<lambda>(a, q). Inr (w\<lparr>co_page := q\<rparr>)))" for err v
    unfolding P_def by blast+
  note base = this
  have "P (collapse_method E m k w)"
    unfolding collapse_method_def if_not_P [OF assms] by (intro either cases base)
  then show ?thesis unfolding P_def .
qed

lemma method_inv:
  assumes inv: "panels_inv w" and k: "element_of w k = Some e" and m: "m \<noteq> ''dispose''"
    and run: "collapse_method E m k w = Inr w'"
  shows "panels_inv w'"
proof -
  consider "collapse_toggle E k w = Inr w' \<or> collapse_show E k w = Inr w' \<or> collapse_hide E k w = Inr w'"
    | "w' = setTransitioning False k w \<or> w' = w"
    | v where "bindE (getParent (ce_query E) v (co_page w)) (\<lambda>(a, q). Inr (w\<lparr>co_page := q\<rparr>)) = Inr w'"
    using method_cases [OF m, of E k w] unfolding run by auto
  then show ?thesis
  proof cases
    case 1
    then have "keeps w w'" using keeps_toggle [OF inv k] keeps_show [OF inv k] keeps_hide [OF inv k] by blast
    then show ?thesis by (simp add: keeps_def)
  next
    case 2
    then show ?thesis using inv inv_unset [OF inv] by blast
  next
    case (3 v)
    then obtain a q where q: "getParent (ce_query E) v (co_page w) = Inr (a, q)" "w' = w\<lparr>co_page := q\<rparr>"
      by (auto simp: bindE_Inr_conv)
    show ?thesis by (rule inv_calm [OF inv]) (use calm_getParent [OF q(1)] q(2) in simp_all)
  qed
qed

lemma bound_inv:
  assumes "panels_inv w" "element_of w k = Some e" "arg \<noteq> CollapseMethod ''dispose''"
    and "(case arg of CollapseConfig _ \<Rightarrow> Inr w | CollapseMethod m \<Rightarrow> collapse_method E m k w) = Inr w'"
  shows "panels_inv w'"
proof (cases arg)
  case (CollapseMethod m)
  then show ?thesis using method_inv [OF assms(1,2), of m E w'] assms(3,4) by simp
qed (use assms in simp)

lemma interface_inv:
  assumes inv: "panels_inv w" and arg: "arg \<noteq> CollapseMethod ''dispose''"
    and run: "collapse_jQueryInterface E e arg w = Inr w'"
  shows "panels_inv w'"
proof (cases "co_data w e")
  case (Some k)
  then have k: "element_of w k = Some e" using inv by (simp add: panels_inv_def instances_ok_def)
  have "(case arg of CollapseConfig _ \<Rightarrow> Inr w | CollapseMethod m \<Rightarrow> collapse_method E m k w) = Inr w'"
    using run unfolding collapse_jQueryInterface_def Let_def Some by simp
  then show ?thesis by (rule bound_inv [OF inv k arg])
next
  case None
  define cfg where "cfg = (let cfg = extends (extends collapse_Default (ce_dataset E (co_page w) e)) (case arg of CollapseConfig c \<Rightarrow> c | _ \<Rightarrow> Map.empty)
    in case arg of
        CollapseMethod m \<Rightarrow> if truthy (opt cfg ''toggle'') \<and> (js_contains m ''show'' \<or> js_contains m ''hide'')
          then cfg(''toggle'' \<mapsto> JBool False) else cfg
      | _ \<Rightarrow> cfg)"
  obtain k v where n: "new_Collapse E e cfg w = Inr (k, v)"
    and r: "(case arg of CollapseConfig _ \<Rightarrow> Inr (v\<lparr>co_data := (co_data v)(e \<mapsto> k)\<rparr>)
      | CollapseMethod m \<Rightarrow> collapse_method E m k (v\<lparr>co_data := (co_data v)(e \<mapsto> k)\<rparr>)) = Inr w'"
    using run unfolding collapse_jQueryInterface_def Let_def None cfg_def by (auto simp: bindE_Inr_conv)
  note v = keeps_new [OF inv n]
  show ?thesis
    by (rule bound_inv [OF inv_bind [OF v] _ arg r]) (use v(2) in \<open>simp add: element_of_def\<close>)
qed

lemma click_inv:
  assumes "panels_inv w" "fst (collapse_click E t w) = Inr w'"
  shows "panels_inv w'"
proof -
  have step: "panels_inv v'" if "panels_inv v"
    "collapse_jQueryInterface E x (if co_data v x \<noteq> None then CollapseMethod ''toggle'' else CollapseConfig (ce_dataset E (co_page v) t)) v = Inr v'" for x v v'
    by (rule interface_inv [OF that(1) _ that(2)]) simp
  show ?thesis
    by (rule foldE_inv [where P = panels_inv, OF step assms(1) assms(2) [unfolded collapse_click_def fst_conv]])
qed

lemma transitionend_inv:
  assumes inv: "panels_inv w"
  shows "\<exists>w'. collapse_transitionend x w = Inr w' \<and> panels_inv w' \<and> \<not> hasClass ''collapsing'' (co_page w') x
    \<and> (\<forall>y. y \<noteq> x \<longrightarrow> shown_at w' y = shown_at w y) \<and> (shown_at w' x \<longleftrightarrow> shown_at w x \<or> (\<exists>k d. awaiting w x (Shown k d)))"
  unfolding collapse_transitionend_def case_prod_beta
  by (rule dispatch_inv [OF inv]) (simp_all add: dispatch_runs awaiting_def)

lemma emulator_inv:
  assumes inv: "panels_inv w"
  shows "\<exists>w'. collapse_emulator n w = Inr w' \<and> panels_inv w'"
proof -
  have d: "panels_inv (w\<lparr>co_trans := drop_timer n (co_trans w)\<rparr>)"
    using inv by (simp add: panels_inv_def panel_states_def instances_ok_def awaiting_def element_of_def drop_timer_def)
  show ?thesis
  proof (cases "map_of (emulators (co_trans w)) n")
    case None
    then show ?thesis using inv by (simp add: collapse_emulator_def emulator_timeout_alt)
  next
    case (Some x)
    obtain u where "collapse_transitionend x (w\<lparr>co_trans := drop_timer n (co_trans w)\<rparr>) = Inr u" "panels_inv u"
      using transitionend_inv [OF d, of x] by blast
    then show ?thesis
      using d Some by (simp add: collapse_emulator_def emulator_timeout_alt collapse_transitionend_def case_prod_beta)
  qed
qed

section \<open>Reachable states\<close>

inductive panels_reach :: "panels \<Rightarrow> bool" where
  start: "\<forall>x. \<not> hasClass ''collapsing'' p x \<Longrightarrow>
    panels_reach \<lparr>co_page = p, co_style = st, co_heap = Map.empty, co_next = 0, co_data = Map.empty, co_trans = no_transitions\<rparr>"
| interface: "panels_reach w \<Longrightarrow> arg \<noteq> CollapseMethod ''dispose'' \<Longrightarrow> collapse_jQueryInterface E e arg w = Inr w' \<Longrightarrow> panels_reach w'"
| click: "panels_reach w \<Longrightarrow> fst (collapse_click E t w) = Inr w' \<Longrightarrow> panels_reach w'"
| ending: "panels_reach w \<Longrightarrow> collapse_transitionend x w = Inr w' \<Longrightarrow> panels_reach w'"
| timing: "panels_reach w \<Longrightarrow> collapse_emulator n w = Inr w' \<Longrightarrow> panels_reach w'"

lemma panels_reach_inv: "panels_reach w \<Longrightarrow> panels_inv w"
proof (induction rule: panels_reach.induct)
  case (start p st)
  then show ?case by (simp add: panels_inv_def panel_states_def instances_ok_def awaiting_def)
next
  case (ending w x w')
  then show ?case using transitionend_inv [OF ending.IH, of x] by auto
next
  case (timing w n w')
  then show ?case using emulator_inv [OF timing.IH, of n] by auto
qed (use interface_inv click_inv in blast)+

section \<open>What holds of panels\<close>

text \<open>An accordion of two panels, the first open, with an instance on each.\<close>

definition demo_env :: collapse_env where
  "demo_env = \<lparr>ce_prevents = (\<lambda>_ _ _. False), ce_query = (\<lambda>p s. if s = ''#1'' then Some [1] else None),
     ce_dataset = (\<lambda>_ _. Map.empty), ce_scroll_size = (\<lambda>_ _ _. ''40''), ce_rect_size = (\<lambda>_ _ _. ''40'')\<rparr>"

definition demo_start :: panels where
  "demo_start = \<lparr>co_page = (bare_page (Node 0 [Node 1 [Node 2 [], Node 3 []], Node 9 []]))
       \<lparr>class_list := (\<lambda>_. [])(2 := [''collapse'', ''show''], 3 := [''collapse'']),
        attribute_of := (\<lambda>_. Map.empty)(2 := [''data-parent'' \<mapsto> ''#1''], 3 := [''data-parent'' \<mapsto> ''#1''])\<rparr>,
     co_style = (\<lambda>_ _. []), co_heap = Map.empty, co_next = 0, co_data = Map.empty, co_trans = no_transitions\<rparr>"

definition demo_bind :: "eid \<Rightarrow> panels \<Rightarrow> bs_error + panels" where
  "demo_bind e = collapse_jQueryInterface demo_env e (CollapseConfig [''toggle'' \<mapsto> JBool False, ''parent'' \<mapsto> JStr ''#1''])"

definition demo_panels :: panels where
  "demo_panels = (case bindE (demo_bind 2 demo_start) (demo_bind 3) of Inl _ \<Rightarrow> demo_start | Inr w \<Rightarrow> w)"

lemma demo_panels_reach: "panels_reach demo_panels"
proof -
  have s: "panels_reach demo_start" unfolding demo_start_def by (rule panels_reach.start) (simp add: hasClass_def)
  have b: "panels_reach w \<Longrightarrow> demo_bind e w = Inr w' \<Longrightarrow> panels_reach w'" for e w w'
    unfolding demo_bind_def by (rule panels_reach.interface) simp_all
  show ?thesis
    using s by (auto simp: demo_panels_def bindE_def intro: b split: sum.splits)
qed

text \<open>C29. A panel is on its way exactly as long as a callback waits for the end of its transition, and
  meanwhile it counts neither as closed nor as open; in every reachable state the end of the transition
  of any panel runs without an error and leaves that panel at rest. Several instances may act on one
  panel at once.\<close>

theorem panels_settle:
  assumes "panels_reach w"
  shows "(\<forall>y. (hasClass ''collapsing'' (co_page w) y \<longleftrightarrow> (\<exists>cb. (y, Callback cb) \<in> set (end_handlers (co_trans w))))
       \<and> (hasClass ''collapsing'' (co_page w) y \<longrightarrow> \<not> hasClass ''collapse'' (co_page w) y \<and> \<not> hasClass ''show'' (co_page w) y))
    \<and> (\<exists>w'. collapse_transitionend x w = Inr w' \<and> \<not> hasClass ''collapsing'' (co_page w') x)"
proof -
  have inv: "panels_inv w" using assms by (rule panels_reach_inv)
  have "\<exists>w'. collapse_transitionend x w = Inr w' \<and> \<not> hasClass ''collapsing'' (co_page w') x"
    using transitionend_inv [OF inv, of x] by blast
  then show ?thesis using inv unfolding panels_inv_def panel_states_def awaiting_def by blast
qed

theorem panels_settle_witness:
  "\<exists>w'. collapse_transitionend 2 demo_panels = Inr w' \<and> \<not> hasClass ''collapsing'' (co_page w') 2"
  using panels_settle [OF demo_panels_reach] by blast

lemma hide_all_returns:
  "panels_inv w \<Longrightarrow> \<forall>x \<in> set xs. co_data w x \<noteq> None \<Longrightarrow> \<exists>w'. foldE (hide_element E) xs w = Inr w'"
proof (induction xs arbitrary: w)
  case (Cons x xs)
  obtain k where d: "co_data w x = Some k" using Cons.prems(2) by auto
  then have k: "element_of w k = Some x" using Cons.prems(1) by (simp add: panels_inv_def instances_ok_def)
  obtain v where v: "collapse_hide E k w = Inr v" "panels_inv v" "co_data v = co_data w"
    using hide_effect [OF Cons.prems(1) k, of E] by blast
  obtain u where "foldE (hide_element E) xs v = Inr u" using Cons.IH [OF v(2)] v(3) Cons.prems(2) by auto
  moreover have "hide_element E x w = Inr v" by (simp add: hide_element_def d v(1))
  ultimately show ?case by simp
qed simp

text \<open>C30. Opening a panel of an accordion closes the others: when the panel is closed and at rest, no
  handler prevents it, the other active panels of the same parent have instances and the first of them
  is at rest, then after \<^verbatim>\<open>show\<close> and the end of the transition the panel is open, none of the other
  active panels is, and every panel outside of the accordion is as open as it was.\<close>

theorem accordion_show:
  assumes reach: "panels_reach w" and i: "co_heap w k = Some i" "cl_element i = Some e"
    and closed: "\<not> cl_transitioning i" "\<not> hasClass ''show'' (co_page w) e"
    and np: "never_prevents (ce_prevents E) ''show.bs.collapse''" "never_prevents (ce_prevents E) ''hide.bs.collapse''"
    and others: "\<forall>x \<in> set (other_actives (ce_query E) (co_page w) i). co_data w x \<noteq> None"
      "\<not> is_transitioning w (activesData (ce_query E) i w)"
  shows "\<exists>w' w''. collapse_show E k w = Inr w' \<and> collapse_transitionend e w' = Inr w''
    \<and> hasClass ''show'' (co_page w'') e \<and> \<not> hasClass ''collapsing'' (co_page w'') e
    \<and> (\<forall>x. x \<noteq> e \<longrightarrow> hasClass ''show'' (co_page w'') x
        = (hasClass ''show'' (co_page w) x \<and> x \<notin> set (other_actives (ce_query E) (co_page w) i)))"
proof -
  have inv: "panels_inv w" using reach by (rule panels_reach_inv)
  have k: "element_of w k = Some e" using i by (simp add: element_of_def)
  define w1 where "w1 = w\<lparr>co_page := fire ''show.bs.collapse'' e (co_page w)\<rparr>"
  have "panels_inv w1" by (rule inv_calm [OF inv]) (simp_all add: w1_def)
  then obtain w2 where w2: "foldE (hide_element E) (other_actives (ce_query E) (co_page w) i) w1 = Inr w2"
    using hide_all_returns [of w1 "other_actives (ce_query E) (co_page w) i" E] others(1) by (auto simp: w1_def)
  define w' where "w' = show_end E k i e w w2"
  have run: "collapse_show E k w = Inr w'"
    using closed np(1) others(2) w2 by (simp add: show_alt [OF i] w1_def w'_def)
  have inv': "panels_inv w'" using show_inv [OF inv k run] by blast
  have sh: "shown_at w' x \<longleftrightarrow> shown_at w x \<and> x \<notin> set (other_actives (ce_query E) (co_page w) i)" for x
    unfolding w'_def show_end_def
    using show_effect(3-5) [OF inv k closed(2) w2 [unfolded w1_def] refl] np(2) by blast
  obtain d where d: "awaiting w' e (Shown k d)"
    unfolding w'_def show_end_def using show_effect(2) [OF inv k closed(2) w2 [unfolded w1_def] refl] by blast
  obtain w'' where "collapse_transitionend e w' = Inr w''" "\<not> hasClass ''collapsing'' (co_page w'') e"
      "\<forall>y. y \<noteq> e \<longrightarrow> shown_at w'' y = shown_at w' y" "shown_at w'' e \<longleftrightarrow> shown_at w' e \<or> (\<exists>k d. awaiting w' e (Shown k d))"
    using transitionend_inv [OF inv', of e] by blast
  then show ?thesis using run sh d by blast
qed

theorem accordion_show_witness:
  "\<exists>w' w''. collapse_show demo_env 1 demo_panels = Inr w' \<and> collapse_transitionend 3 w' = Inr w''
    \<and> hasClass ''show'' (co_page w'') 3 \<and> \<not> hasClass ''show'' (co_page w'') 2"
proof -
  have c: "case co_heap demo_panels 1 of None \<Rightarrow> False
    | Some i \<Rightarrow> cl_element i = Some 3 \<and> \<not> cl_transitioning i \<and> other_actives (ce_query demo_env) (co_page demo_panels) i = [2]
        \<and> \<not> is_transitioning demo_panels (activesData (ce_query demo_env) i demo_panels)"
    "\<not> hasClass ''show'' (co_page demo_panels) 3" "co_data demo_panels 2 = Some 0"
    by code_simp+
  then obtain i where i: "co_heap demo_panels 1 = Some i" "cl_element i = Some 3" "\<not> cl_transitioning i"
      "other_actives (ce_query demo_env) (co_page demo_panels) i = [2]"
      "\<not> is_transitioning demo_panels (activesData (ce_query demo_env) i demo_panels)"
    by (auto split: option.splits)
  have np: "never_prevents (ce_prevents demo_env) ev" for ev by (simp add: demo_env_def never_prevents_def)
  have "\<forall>x \<in> set (other_actives (ce_query demo_env) (co_page demo_panels) i). co_data demo_panels x \<noteq> None"
    using i(4) c(3) by simp
  from accordion_show [OF demo_panels_reach i(1-3) c(2) np np this i(5)] show ?thesis using i(4) by fastforce
qed

text \<open>A panel whose instance is disposed of while it opens stays on its way: the callback of \<^verbatim>\<open>show\<close>
  throws when the transition ends, before it can touch the classes.\<close>

lemma dispose_while_opening:
  assumes "collapse_dispose k w = Inr v"
  shows "collapse_complete (Shown k d) v = Inl NullReference"
  using assms by (auto simp: collapse_dispose_def collapse_complete_def element_of_def split: option.splits)

end
