(* ===== verification/Bs_Modal.thy ===== *)
theory Bs_Modal
  imports Bs_Util
begin

text \<open>
  The component \<^verbatim>\<open>Modal\<close> of \<^verbatim>\<open>bootstrap.js\<close>: a dialog above a backdrop, shown and hidden in
  steps that wait for the transitions of backdrop, dialog and element, with the paddings that make up
  for the scroll bar of the page. The state is one instance with its page. The related target of a call
  only travels along in events and is left out.
\<close>

section \<open>State\<close>

text \<open>Values of the inline style: a text, or a number of pixels.\<close>

datatype css_px = PxText string | Px rat

text \<open>The callbacks that \<^verbatim>\<open>_showBackdrop\<close> is called with: \<^verbatim>\<open>_showElement\<close> by
  \<^verbatim>\<open>show\<close>, the end of hiding by \<^verbatim>\<open>_hideModal\<close>. What runs at the end of a transition: hiding
  the element, what follows the backdrop, removing the backdrop, the end of \<^verbatim>\<open>show\<close>, and the two
  steps of a backdrop that refuses a click.\<close>

datatype modal_then = ThenShow | ThenHidden

datatype modal_cb = HideModal | After modal_then | RemoveBackdrop "modal_then option" | DialogShown
  | StaticEnd bool | OverflowReset

text \<open>What the browser measures.\<close>

record modal_view =
  mv_body :: eid
  mv_scroll_height :: "eid \<Rightarrow> jsnum"
  mv_client_height :: jsnum
  mv_body_left :: jsnum
  mv_body_right :: jsnum
  mv_inner_width :: jsnum
  mv_measure_width :: jsnum
  mv_measure_client :: jsnum
  mv_computed :: "eid \<Rightarrow> string \<Rightarrow> jsnum"
  mv_visible :: "page \<Rightarrow> eid \<Rightarrow> bool"

record modal =
  m_page :: page
  m_style :: "eid \<Rightarrow> string \<Rightarrow> css_px"
  m_saved :: "eid \<Rightarrow> string \<Rightarrow> css_px option"
  m_scroll_top :: "eid \<Rightarrow> jsnum"
  m_element :: "eid option"
  m_dialog :: "eid option"
  m_attached :: bool
  m_config :: config
  m_backdrop :: "eid option"
  m_backdrops :: "eid list"
  m_fresh :: eid
  m_isShown :: bool
  m_isBodyOverflowing :: bool
  m_ignoreBackdropClick :: bool
  m_isTransitioning :: bool
  m_scrollbarWidth :: jsnum
  m_focusin :: bool
  m_escape :: bool
  m_resize :: bool
  m_dismiss_click :: bool
  m_backdrop_click :: bool
  m_mousedown :: bool
  m_mouseup :: bool
  m_show_once :: "eid list"
  m_hidden_once :: "eid list"
  m_trans :: "modal_cb transitions"

definition modal_Default :: config where
  "modal_Default = [''backdrop'' \<mapsto> JBool True, ''keyboard'' \<mapsto> JBool True, ''focus'' \<mapsto> JBool True, ''show'' \<mapsto> JBool True]"

definition modal_DefaultType :: "(string \<times> string) list" where
  "modal_DefaultType = [(''backdrop'', ''(boolean|string)''), (''keyboard'', ''boolean''), (''focus'', ''boolean''), (''show'', ''boolean'')]"

definition modal_getConfig :: "config \<Rightarrow> bs_error + config" where
  "modal_getConfig config =
     (let c = extends modal_Default config in bindE (typeCheckConfig c modal_DefaultType) (\<lambda>_. Inr c))"

abbreviation m_opt :: "modal \<Rightarrow> string \<Rightarrow> jsval" where
  "m_opt w k \<equiv> opt (m_config w) k"

definition put_style :: "eid \<Rightarrow> string \<Rightarrow> css_px \<Rightarrow> modal \<Rightarrow> modal" where
  "put_style e a v w = w\<lparr>m_style := (m_style w)(e := (m_style w e)(a := v))\<rparr>"

text \<open>\<^verbatim>\<open>NaNpx\<close> is no value of a style: the assignment is without effect.\<close>

definition put_px :: "eid \<Rightarrow> string \<Rightarrow> jsnum \<Rightarrow> modal \<Rightarrow> modal" where
  "put_px e a v w = (case v of None \<Rightarrow> w | Some r \<Rightarrow> put_style e a (Px r) w)"

definition on_page :: "(page \<Rightarrow> page) \<Rightarrow> modal \<Rightarrow> modal" where
  "on_page f w = w\<lparr>m_page := f (m_page w)\<rparr>"

definition await :: "eid \<Rightarrow> modal_cb \<Rightarrow> modal \<Rightarrow> modal" where
  "await e cb w = w\<lparr>m_trans := await_end e cb (m_trans w)\<rparr>"

section \<open>Paddings for the scroll bar\<close>

definition fixed_content :: "page \<Rightarrow> eid list" where
  "fixed_content p = filter (\<lambda>x. hasClass ''fixed-top'' p x \<or> hasClass ''fixed-bottom'' p x \<or> hasClass ''is-fixed'' p x
     \<or> hasClass ''sticky-top'' p x) (order (doc_tree p))"

definition sticky_content :: "page \<Rightarrow> eid list" where
  "sticky_content p = filter (hasClass ''sticky-top'' p) (order (doc_tree p))"

definition getScrollbarWidth :: "modal_view \<Rightarrow> jsnum" where
  "getScrollbarWidth V = mv_measure_width V - mv_measure_client V"

definition checkScrollbar :: "modal_view \<Rightarrow> modal \<Rightarrow> modal" where
  "checkScrollbar V w = w\<lparr>m_isBodyOverflowing := js_lt (js_round (mv_body_left V + mv_body_right V)) (mv_inner_width V),
     m_scrollbarWidth := getScrollbarWidth V\<rparr>"

text \<open>The inline value is kept as data of the element, the computed one is changed by the width.\<close>

definition save_and_set :: "string \<Rightarrow> jsnum \<Rightarrow> eid \<Rightarrow> modal \<Rightarrow> modal" where
  "save_and_set a v e w = put_px e a v (w\<lparr>m_saved := (m_saved w)(e := (m_saved w e)(a \<mapsto> m_style w e a))\<rparr>)"

definition setScrollbar :: "modal_view \<Rightarrow> modal \<Rightarrow> modal" where
  "setScrollbar V w =
     (let pad = (\<lambda>x v. save_and_set ''paddingRight'' (mv_computed V x ''padding-right'' + m_scrollbarWidth v) x v);
          margin = (\<lambda>x v. save_and_set ''marginRight'' (mv_computed V x ''margin-right'' - m_scrollbarWidth v) x v);
          w1 = (if m_isBodyOverflowing w
                then pad (mv_body V) (fold margin (sticky_content (m_page w)) (fold pad (fixed_content (m_page w)) w))
                else w)
      in on_page (addClass ''modal-open'' (mv_body V)) w1)"

definition reset_padding :: "eid \<Rightarrow> modal \<Rightarrow> modal" where
  "reset_padding x w =
     put_style x ''paddingRight'' (case m_saved w x ''paddingRight'' of None \<Rightarrow> PxText [] | Some v \<Rightarrow> v)
       (w\<lparr>m_saved := (m_saved w)(x := (m_saved w x)(''paddingRight'' := None))\<rparr>)"

definition reset_margin :: "eid \<Rightarrow> modal \<Rightarrow> modal" where
  "reset_margin x w =
     (case m_saved w x ''marginRight'' of
        None \<Rightarrow> w
      | Some v \<Rightarrow> put_style x ''marginRight'' v (w\<lparr>m_saved := (m_saved w)(x := (m_saved w x)(''marginRight'' := None))\<rparr>))"

definition resetScrollbar :: "modal_view \<Rightarrow> modal \<Rightarrow> modal" where
  "resetScrollbar V w =
     reset_padding (mv_body V) (fold reset_margin (sticky_content (m_page w)) (fold reset_padding (fixed_content (m_page w)) w))"

definition modal_overflows :: "modal_view \<Rightarrow> eid \<Rightarrow> bool" where
  "modal_overflows V e = js_lt (mv_client_height V) (mv_scroll_height V e)"

definition adjustDialog :: "modal_view \<Rightarrow> eid \<Rightarrow> modal \<Rightarrow> modal" where
  "adjustDialog V e w =
     (let isModalOverflowing = modal_overflows V e;
          w1 = (if \<not> m_isBodyOverflowing w \<and> isModalOverflowing then put_px e ''paddingLeft'' (m_scrollbarWidth w) w else w)
      in if m_isBodyOverflowing w1 \<and> \<not> isModalOverflowing then put_px e ''paddingRight'' (m_scrollbarWidth w1) w1 else w1)"

definition resetAdjustments :: "eid \<Rightarrow> modal \<Rightarrow> modal" where
  "resetAdjustments e w = put_style e ''paddingRight'' (PxText []) (put_style e ''paddingLeft'' (PxText []) w)"

section \<open>The steps of showing and hiding\<close>

definition transitionComplete :: "modal \<Rightarrow> bs_error + modal" where
  "transitionComplete w =
     (case m_element w of
        None \<Rightarrow> Inl NullReference
      | Some e \<Rightarrow>
         (let w1 = (if truthy (m_opt w ''focus'') then on_page (focus e) w else w)
          in Inr (on_page (fire ''shown.bs.modal'' e) (w1\<lparr>m_isTransitioning := False\<rparr>))))"

definition scrolled_element :: "eid \<Rightarrow> modal \<Rightarrow> eid" where
  "scrolled_element e w =
     (case m_dialog w of
        None \<Rightarrow> e
      | Some d \<Rightarrow>
         (case find (hasClass ''modal-body'' (m_page w)) (descendants (m_page w) d) of
            Some b \<Rightarrow> if hasClass ''modal-dialog-scrollable'' (m_page w) d then b else e
          | None \<Rightarrow> e))"

definition present_element :: "eid \<Rightarrow> modal \<Rightarrow> modal" where
  "present_element e w =
     on_page (addClass ''show'' e)
       (on_page (setAttribute ''role'' ''dialog'' e)
         (on_page (setAttribute ''aria-modal'' ''true'' e)
           (on_page (unsetAttribute ''aria-hidden'' e)
             (put_style e ''display'' (PxText ''block'')
               (w\<lparr>m_attached := True, m_scroll_top := (m_scroll_top w)(scrolled_element e w := Some 0),
                  m_focusin := truthy (m_opt w ''focus'') \<or> m_focusin w\<rparr>)))))"

text \<open>Without a dialog, jQuery has no element whose transition could end.\<close>

definition showElement :: "modal \<Rightarrow> bs_error + modal" where
  "showElement w =
     (case m_element w of
        None \<Rightarrow> Inl NullReference
      | Some e \<Rightarrow>
         (let w1 = present_element e w
          in if hasClass ''fade'' (m_page w) e
             then Inr (case m_dialog w1 of None \<Rightarrow> w1 | Some d \<Rightarrow> await d DialogShown w1)
             else transitionComplete w1))"

text \<open>A click on an element that opens the modal waits for its \<^verbatim>\<open>show\<close> event and then, unless
  that was prevented, for its \<^verbatim>\<open>hidden\<close> event, to take the focus back.\<close>

definition trigger_show :: "prevents \<Rightarrow> eid \<Rightarrow> modal \<Rightarrow> bool \<times> modal" where
  "trigger_show prevents e w =
     (let w1 = on_page (fire ''show.bs.modal'' e) w;
          prevented = prevents ''show.bs.modal'' e (m_page w1)
      in (prevented, w1\<lparr>m_show_once := [],
            m_hidden_once := m_hidden_once w1 @ (if prevented then [] else m_show_once w1)\<rparr>))"

definition trigger_hidden :: "modal_view \<Rightarrow> eid \<Rightarrow> modal \<Rightarrow> modal" where
  "trigger_hidden V e w =
     (let w1 = on_page (fire ''hidden.bs.modal'' e) w
      in (on_page (fold focus (filter (mv_visible V (m_page w1)) (m_hidden_once w1))) w1)\<lparr>m_hidden_once := []\<rparr>)"

text \<open>What follows the backdrop once it is gone.\<close>

definition afterHide :: "modal_view \<Rightarrow> modal \<Rightarrow> bs_error + modal" where
  "afterHide V w =
     (let w1 = on_page (removeClass ''modal-open'' (mv_body V)) w
      in case m_element w1 of
          None \<Rightarrow> Inl NullReference
        | Some e \<Rightarrow> Inr (trigger_hidden V e (resetScrollbar V (resetAdjustments e w1))))"

text \<open>jQuery's \<^verbatim>\<open>remove\<close> takes the backdrop out of the body and drops its handlers.\<close>

definition removeBackdrop :: "modal \<Rightarrow> modal" where
  "removeBackdrop w =
     (case m_backdrop w of
        None \<Rightarrow> w
      | Some b \<Rightarrow> w\<lparr>m_backdrops := filter (\<lambda>x. x \<noteq> b) (m_backdrops w), m_backdrop := None,
          m_trans := (m_trans w)\<lparr>end_handlers := filter (\<lambda>h. fst h \<noteq> b) (end_handlers (m_trans w))\<rparr>\<rparr>)"

definition call_then :: "modal_view \<Rightarrow> modal_then \<Rightarrow> modal \<Rightarrow> bs_error + modal" where
  "call_then V k w = (case k of ThenShow \<Rightarrow> showElement w | ThenHidden \<Rightarrow> afterHide V w)"

definition callbackRemove :: "modal_view \<Rightarrow> modal_then option \<Rightarrow> modal \<Rightarrow> bs_error + modal" where
  "callbackRemove V callback w =
     (case callback of None \<Rightarrow> Inr (removeBackdrop w) | Some k \<Rightarrow> call_then V k (removeBackdrop w))"

text \<open>The new backdrop takes the place of the one the instance knew, which is not removed.\<close>

definition insert_backdrop :: "bool \<Rightarrow> modal \<Rightarrow> modal" where
  "insert_backdrop animate w =
     (let b = m_fresh w;
          w1 = on_page (addClass ''modal-backdrop'' b)
            (w\<lparr>m_fresh := Suc b, m_backdrop := Some b, m_backdrops := m_backdrops w @ [b]\<rparr>);
          w2 = (if animate then on_page (addClass ''fade'' b) w1 else w1)
      in on_page (addClass ''show'' b) (w2\<lparr>m_backdrop_click := (m_element w2 \<noteq> None)\<rparr>))"

definition showBackdrop :: "modal_view \<Rightarrow> modal_then option \<Rightarrow> modal \<Rightarrow> bs_error + modal" where
  "showBackdrop V callback w =
     (let animate = (case m_element w of None \<Rightarrow> False | Some e \<Rightarrow> hasClass ''fade'' (m_page w) e)
      in if m_isShown w \<and> truthy (m_opt w ''backdrop'')
         then
          (let w1 = insert_backdrop animate w
           in case callback of
                None \<Rightarrow> Inr w1
              | Some k \<Rightarrow> if animate then Inr (await (m_fresh w) (After k) w1) else call_then V k w1)
         else case (m_isShown w, m_backdrop w) of
             (False, Some b) \<Rightarrow>
               (let w1 = on_page (removeClass ''show'' b) w
                in if animate then Inr (await b (RemoveBackdrop callback) w1) else callbackRemove V callback w1)
           | _ \<Rightarrow> (case callback of None \<Rightarrow> Inr w | Some k \<Rightarrow> call_then V k w))"

definition conceal_element :: "eid \<Rightarrow> modal \<Rightarrow> modal" where
  "conceal_element e w =
     on_page (unsetAttribute ''role'' e)
       (on_page (unsetAttribute ''aria-modal'' e)
         (on_page (setAttribute ''aria-hidden'' ''true'' e)
           (put_style e ''display'' (PxText ''none'') (w\<lparr>m_isTransitioning := False\<rparr>))))"

definition hideModal :: "modal_view \<Rightarrow> modal \<Rightarrow> bs_error + modal" where
  "hideModal V w =
     (case m_element w of
        None \<Rightarrow> Inl NullReference
      | Some e \<Rightarrow> showBackdrop V (Some ThenHidden) (conceal_element e w))"

text \<open>\<^verbatim>\<open>_setEscapeEvent\<close> and \<^verbatim>\<open>_setResizeEvent\<close>. The handler of the window is dropped by its
  event name, which drops those of other modals as well; with one instance there are none.\<close>

definition setEvents :: "modal \<Rightarrow> modal" where
  "setEvents w = w\<lparr>m_escape := m_isShown w, m_resize := m_isShown w\<rparr>"

definition begin_show :: "modal_view \<Rightarrow> eid \<Rightarrow> modal \<Rightarrow> modal" where
  "begin_show V e w =
     (let w1 = setScrollbar V (checkScrollbar V (w\<lparr>m_isShown := True\<rparr>));
          w2 = setEvents (adjustDialog V e w1)
      in w2\<lparr>m_dismiss_click := True, m_mousedown := (m_dialog w2 \<noteq> None)\<rparr>)"

definition modal_show :: "modal_view \<Rightarrow> prevents \<Rightarrow> modal \<Rightarrow> bs_error + modal" where
  "modal_show V prevents w =
     (if m_isShown w \<or> m_isTransitioning w then Inr w
      else case m_element w of
          None \<Rightarrow> Inl NullReference
        | Some e \<Rightarrow>
           (let w1 = (if hasClass ''fade'' (m_page w) e then w\<lparr>m_isTransitioning := True\<rparr> else w);
                (prevented, w2) = trigger_show prevents e w1
            in if prevented then Inr w2 else showBackdrop V (Some ThenShow) (begin_show V e w2)))"

definition begin_hide :: "eid \<Rightarrow> modal \<Rightarrow> modal" where
  "begin_hide e w =
     (let w1 = w\<lparr>m_isShown := False, m_isTransitioning := (hasClass ''fade'' (m_page w) e \<or> m_isTransitioning w)\<rparr>;
          w2 = (setEvents w1)\<lparr>m_focusin := False\<rparr>
      in (on_page (removeClass ''show'' e) w2)\<lparr>m_dismiss_click := False, m_backdrop_click := False, m_mousedown := False\<rparr>)"

definition modal_hide :: "modal_view \<Rightarrow> prevents \<Rightarrow> modal \<Rightarrow> bs_error + modal" where
  "modal_hide V prevents w =
     (if \<not> m_isShown w \<or> m_isTransitioning w then Inr w
      else case m_element w of
          None \<Rightarrow> Inr w
        | Some e \<Rightarrow>
           (let w1 = on_page (fire ''hide.bs.modal'' e) w
            in if prevents ''hide.bs.modal'' e (m_page w1) then Inr w1
               else if hasClass ''fade'' (m_page w1) e then Inr (await e HideModal (begin_hide e w1))
               else hideModal V (begin_hide e w1)))"

definition modal_toggle :: "modal_view \<Rightarrow> prevents \<Rightarrow> modal \<Rightarrow> bs_error + modal" where
  "modal_toggle V prevents w = (if m_isShown w then modal_hide V prevents w else modal_show V prevents w)"

definition handleUpdate :: "modal_view \<Rightarrow> modal \<Rightarrow> bs_error + modal" where
  "handleUpdate V w = (case m_element w of None \<Rightarrow> Inl NullReference | Some e \<Rightarrow> Inr (adjustDialog V e w))"

definition modal_dispose :: "modal \<Rightarrow> modal" where
  "modal_dispose w = w\<lparr>m_config := Map.empty, m_element := None, m_dialog := None, m_backdrop := None, m_isShown := False,
     m_isBodyOverflowing := False, m_ignoreBackdropClick := False, m_isTransitioning := False, m_scrollbarWidth := Some 0,
     m_focusin := False, m_escape := False, m_resize := False, m_dismiss_click := False, m_backdrop_click := False,
     m_mousedown := False, m_mouseup := False, m_show_once := [], m_hidden_once := []\<rparr>"

section \<open>Clicks, keys and focus\<close>

text \<open>A static backdrop refuses to close: the handlers that wait at the element are dropped, and the
  two steps of the refusal wait in their place. The second call of \<^verbatim>\<open>emulateTransitionEnd\<close> passes the
  element as duration, which only shortens the time of its timer. The property \<^verbatim>\<open>defaultPrevented\<close> that is
  tested before is never set on an event jQuery makes from a name, so that \<^verbatim>\<open>hidePrevented\<close> is without effect.\<close>

definition triggerBackdropTransition :: "modal_view \<Rightarrow> prevents \<Rightarrow> modal \<Rightarrow> bs_error + modal" where
  "triggerBackdropTransition V prevents w =
     (if m_opt w ''backdrop'' = JStr ''static''
      then case m_element w of
          None \<Rightarrow> Inl NullReference
        | Some e \<Rightarrow>
           (let w1 = on_page (fire ''hidePrevented.bs.modal'' e) w;
                overflowing = modal_overflows V e;
                w2 = (if \<not> overflowing then put_style e ''overflowY'' (PxText ''hidden'') w1 else w1);
                w3 = on_page (addClass ''modal-static'' e) w2;
                w4 = w3\<lparr>m_trans := (m_trans w3)\<lparr>end_handlers := filter (\<lambda>h. fst h \<noteq> e) (end_handlers (m_trans w3))\<rparr>\<rparr>
            in Inr (on_page (focus e) (await e (StaticEnd overflowing) w4)))
      else modal_hide V prevents w)"

definition backdrop_click :: "modal_view \<Rightarrow> prevents \<Rightarrow> eid \<Rightarrow> modal \<Rightarrow> bs_error + modal" where
  "backdrop_click V prevents target w =
     (if \<not> m_backdrop_click w then Inr w
      else if m_ignoreBackdropClick w then Inr (w\<lparr>m_ignoreBackdropClick := False\<rparr>)
      else if m_element w \<noteq> Some target then Inr w
      else triggerBackdropTransition V prevents w)"

definition dismiss_click :: "modal_view \<Rightarrow> prevents \<Rightarrow> modal \<Rightarrow> bs_error + modal" where
  "dismiss_click V prevents w = (if m_dismiss_click w then modal_hide V prevents w else Inr w)"

definition dialog_mousedown :: "modal \<Rightarrow> modal" where
  "dialog_mousedown w = (if m_mousedown w then w\<lparr>m_mouseup := True\<rparr> else w)"

definition element_mouseup :: "eid \<Rightarrow> modal \<Rightarrow> modal" where
  "element_mouseup target w =
     (if m_mouseup w
      then w\<lparr>m_mouseup := False, m_ignoreBackdropClick := (m_element w = Some target \<or> m_ignoreBackdropClick w)\<rparr> else w)"

text \<open>The second component tells whether the default action of the key is prevented.\<close>

definition modal_keydown :: "modal_view \<Rightarrow> prevents \<Rightarrow> nat \<Rightarrow> modal \<Rightarrow> (bs_error + modal) \<times> bool" where
  "modal_keydown V prevents which w =
     (if \<not> m_escape w \<or> which \<noteq> 27 then (Inr w, False)
      else if truthy (m_opt w ''keyboard'') then (modal_hide V prevents w, True)
      else (triggerBackdropTransition V prevents w, False))"

text \<open>The target of a focus event is the document or an element.\<close>

definition modal_focusin :: "eid option \<Rightarrow> modal \<Rightarrow> modal" where
  "modal_focusin target w =
     (case (m_element w, target) of
        (Some e, Some t) \<Rightarrow> if m_focusin w \<and> t \<noteq> e \<and> t \<notin> set (descendants (m_page w) e) then on_page (focus e) w else w
      | _ \<Rightarrow> w)"

definition modal_resize :: "modal_view \<Rightarrow> modal \<Rightarrow> bs_error + modal" where
  "modal_resize V w = (if m_resize w then handleUpdate V w else Inr w)"

section \<open>The ends of transitions\<close>

definition modal_callback :: "modal_view \<Rightarrow> modal_cb \<Rightarrow> modal \<Rightarrow> bs_error + modal" where
  "modal_callback V cb w =
     (case cb of
        HideModal \<Rightarrow> hideModal V w
      | After k \<Rightarrow> call_then V k w
      | RemoveBackdrop callback \<Rightarrow> callbackRemove V callback w
      | DialogShown \<Rightarrow> transitionComplete w
      | StaticEnd overflowing \<Rightarrow>
          (case m_element w of
             None \<Rightarrow> Inl NullReference
           | Some e \<Rightarrow>
              (let w1 = on_page (removeClass ''modal-static'' e) w
               in Inr (if \<not> overflowing then await e OverflowReset w1 else w1)))
      | OverflowReset \<Rightarrow>
          (case m_element w of None \<Rightarrow> Inl NullReference | Some e \<Rightarrow> Inr (put_style e ''overflowY'' (PxText []) w)))"

fun modal_callbacks :: "modal_view \<Rightarrow> modal_cb list \<Rightarrow> modal \<Rightarrow> bs_error + modal" where
  "modal_callbacks V [] w = Inr w"
| "modal_callbacks V (cb # cbs) w = bindE (modal_callback V cb w) (modal_callbacks V cbs)"

definition modal_transitionend :: "modal_view \<Rightarrow> eid \<Rightarrow> modal \<Rightarrow> bs_error + modal" where
  "modal_transitionend V x w =
     (case dispatch_end x (m_trans w) of (tr, cbs) \<Rightarrow> modal_callbacks V cbs (w\<lparr>m_trans := tr\<rparr>))"

definition modal_emulator :: "modal_view \<Rightarrow> nat \<Rightarrow> modal \<Rightarrow> bs_error + modal" where
  "modal_emulator V k w =
     (case emulator_timeout k (m_trans w) of (tr, cbs) \<Rightarrow> modal_callbacks V cbs (w\<lparr>m_trans := tr\<rparr>))"

section \<open>Construction\<close>

text \<open>\<open>fresh\<close> is above all elements of the page; backdrops are made from there on.\<close>

definition new_Modal :: "page \<Rightarrow> (eid \<Rightarrow> string \<Rightarrow> css_px) \<Rightarrow> eid \<Rightarrow> eid \<Rightarrow> config \<Rightarrow> bs_error + modal" where
  "new_Modal p st fresh e config =
     bindE (modal_getConfig config) (\<lambda>c.
       Inr \<lparr>m_page = p, m_style = st, m_saved = (\<lambda>_. Map.empty), m_scroll_top = (\<lambda>_. Some 0), m_element = Some e,
         m_dialog = find (hasClass ''modal-dialog'' p) (descendants p e), m_attached = (parentNode p e \<noteq> None), m_config = c,
         m_backdrop = None, m_backdrops = [], m_fresh = fresh, m_isShown = False, m_isBodyOverflowing = False,
         m_ignoreBackdropClick = False, m_isTransitioning = False, m_scrollbarWidth = Some 0, m_focusin = False,
         m_escape = False, m_resize = False, m_dismiss_click = False, m_backdrop_click = False, m_mousedown = False,
         m_mouseup = False, m_show_once = [], m_hidden_once = [], m_trans = no_transitions\<rparr>)"

text \<open>\<^verbatim>\<open>$(element).modal(config)\<close>; of the private methods those that keep the page are left out of
  the result.\<close>

datatype modal_arg = ModalConfig "config option" | ModalMethod string

definition modal_method :: "modal_view \<Rightarrow> prevents \<Rightarrow> string \<Rightarrow> modal \<Rightarrow> bs_error + modal" where
  "modal_method V prevents m w =
     (if m = ''toggle'' then modal_toggle V prevents w
      else if m = ''show'' then modal_show V prevents w
      else if m = ''hide'' then modal_hide V prevents w
      else if m = ''dispose'' then Inr (modal_dispose w)
      else if m \<in> {''handleUpdate'', ''_adjustDialog''} then handleUpdate V w
      else if m = ''_triggerBackdropTransition'' then
        (if m_element w = None then Inl NullReference else triggerBackdropTransition V prevents w)
      else if m = ''_showElement'' then showElement w
      else if m = ''_hideModal'' then hideModal V w
      else if m = ''_showBackdrop'' then showBackdrop V None w
      else if m = ''_enforceFocus'' then Inr (w\<lparr>m_focusin := True\<rparr>)
      else if m = ''_setEscapeEvent'' then Inr (w\<lparr>m_escape := m_isShown w\<rparr>)
      else if m = ''_setResizeEvent'' then Inr (w\<lparr>m_resize := m_isShown w\<rparr>)
      else if m = ''_removeBackdrop'' then Inr (removeBackdrop w)
      else if m = ''_resetAdjustments'' then
        (case m_element w of None \<Rightarrow> Inl NullReference | Some e \<Rightarrow> Inr (resetAdjustments e w))
      else if m = ''_checkScrollbar'' then Inr (checkScrollbar V w)
      else if m = ''_setScrollbar'' then Inr (setScrollbar V w)
      else if m = ''_resetScrollbar'' then Inr (resetScrollbar V w)
      else if m \<in> {''_getConfig'', ''_getScrollbarWidth''} then Inr w
      else if m \<in> {''_config'', ''_element'', ''_dialog'', ''_backdrop'', ''_isShown'', ''_isBodyOverflowing'',
          ''_ignoreBackdropClick'', ''_isTransitioning'', ''_scrollbarWidth''} then Inl (NotAFunction m)
      else Inl (NoMethod m))"

text \<open>\<open>clicked\<close> are the elements whose click made the call and waits for the \<^verbatim>\<open>show\<close> event.\<close>

definition modal_jQueryInterface ::
  "modal_view \<Rightarrow> prevents \<Rightarrow> page \<Rightarrow> (eid \<Rightarrow> string \<Rightarrow> css_px) \<Rightarrow> eid \<Rightarrow> eid \<Rightarrow> config \<Rightarrow> eid list \<Rightarrow> modal_arg \<Rightarrow>
   modal option \<Rightarrow> bs_error + modal" where
  "modal_jQueryInterface V prevents p st fresh e dataset clicked arg data =
     (let cfg = extends (extends modal_Default dataset) (case arg of ModalConfig (Some c) \<Rightarrow> c | _ \<Rightarrow> Map.empty)
      in bindE (case data of Some w \<Rightarrow> Inr w | None \<Rightarrow> new_Modal p st fresh e cfg) (\<lambda>w.
           let w1 = w\<lparr>m_show_once := m_show_once w @ clicked\<rparr>
           in case arg of
             ModalMethod m \<Rightarrow> modal_method V prevents m w1
           | ModalConfig _ \<Rightarrow> if truthy (opt cfg ''show'') then modal_show V prevents w1 else Inr w1))"

text \<open>The click handler of the page for one opening element and the instance of the modal it names, if
  that exists yet; the second result tells whether the default action of the click is prevented. With no
  such modal on the page nothing is called.\<close>

definition modal_click ::
  "modal_view \<Rightarrow> prevents \<Rightarrow> query \<Rightarrow> page \<Rightarrow> (eid \<Rightarrow> string \<Rightarrow> css_px) \<Rightarrow> eid \<Rightarrow> (eid \<Rightarrow> config) \<Rightarrow> eid \<Rightarrow> modal option \<Rightarrow>
   (bs_error + modal option) \<times> bool" where
  "modal_click V prevents query p st fresh dataset this data =
     ((case Option.bind (getSelectorFromElement query p this) (querySelector query p) of
         None \<Rightarrow> Inr data
       | Some target \<Rightarrow>
          bindE (modal_jQueryInterface V prevents p st fresh target (dataset target) [this]
              (if data \<noteq> None then ModalMethod ''toggle'' else ModalConfig (Some (extends (dataset target) (dataset this)))) data)
            (\<lambda>w. Inr (Some w))),
      node_name p this = ''A'' \<or> node_name p this = ''AREA'')"

end
