(* ===== verification/Bs_Modal_Inv.thy ===== *)
theory Bs_Modal_Inv
  imports Bs_Modal
begin

text \<open>
  The states a modal can reach: its listeners follow \<^verbatim>\<open>_isShown\<close>, at most one end of opening or
  closing is awaited at a time, and a modal that is in transition with no such end awaited stays so.
\<close>

section \<open>What the operations leave alone\<close>

text \<open>All of the instance but the page, the styles, the measures and the waiting clicks.\<close>

definition core where
  "core w = (m_element w, m_dialog w, m_config w, m_backdrop w, m_backdrops w, m_fresh w, m_isShown w,
     m_isTransitioning w, m_focusin w, m_escape w, m_resize w, m_dismiss_click w, m_backdrop_click w, m_mousedown w, m_trans w)"

lemma core_sel:
  "core v = core w \<Longrightarrow>
    m_element v = m_element w \<and> m_dialog v = m_dialog w \<and> m_config v = m_config w \<and> m_backdrop v = m_backdrop w
    \<and> m_backdrops v = m_backdrops w \<and> m_fresh v = m_fresh w \<and> m_isShown v = m_isShown w
    \<and> m_isTransitioning v = m_isTransitioning w \<and> m_focusin v = m_focusin w \<and> m_escape v = m_escape w
    \<and> m_resize v = m_resize w \<and> m_dismiss_click v = m_dismiss_click w \<and> m_backdrop_click v = m_backdrop_click w
    \<and> m_mousedown v = m_mousedown w \<and> m_trans v = m_trans w"
  by (simp add: core_def)

lemma core_updates [simp]:
  "core (w\<lparr>m_page := p\<rparr>) = core w" "core (w\<lparr>m_style := st\<rparr>) = core w" "core (w\<lparr>m_saved := sv\<rparr>) = core w"
  "core (w\<lparr>m_isBodyOverflowing := b\<rparr>) = core w" "core (w\<lparr>m_scrollbarWidth := x\<rparr>) = core w"
  "core (w\<lparr>m_show_once := xs\<rparr>) = core w" "core (w\<lparr>m_hidden_once := xs\<rparr>) = core w"
  "core (w\<lparr>m_mouseup := b\<rparr>) = core w" "core (w\<lparr>m_ignoreBackdropClick := b\<rparr>) = core w"
  "core (w\<lparr>m_attached := b\<rparr>) = core w" "core (w\<lparr>m_scroll_top := t\<rparr>) = core w"
  by (simp_all add: core_def)

lemma core_small [simp]:
  "core (on_page f w) = core w" "core (put_style e a v w) = core w" "core (put_px e a x w) = core w" "core (save_and_set a x e w) = core w"
  "core (reset_padding e w) = core w" "core (reset_margin e w) = core w" "core (checkScrollbar V w) = core w"
  by (simp_all add: on_page_def put_style_def put_px_def save_and_set_def reset_padding_def reset_margin_def checkScrollbar_def
      split: option.splits)

lemma core_fold [simp]:
  assumes "\<And>x v. core (f x v) = core v"
  shows "core (fold f xs w) = core w"
  using assms by (induction xs arbitrary: w) simp_all

lemma core_measures [simp]:
  "core (setScrollbar V w) = core w" "core (resetScrollbar V w) = core w" "core (adjustDialog V e w) = core w"
  "core (resetAdjustments e w) = core w" "core (trigger_hidden V e w) = core w" "core (snd (trigger_show prevents e w)) = core w"
  "core (dialog_mousedown w) = core w" "core (element_mouseup t w) = core w" "core (modal_focusin target w) = core w"
  by (simp_all add: setScrollbar_def resetScrollbar_def adjustDialog_def resetAdjustments_def trigger_hidden_def
      trigger_show_def dialog_mousedown_def element_mouseup_def modal_focusin_def Let_def split: option.splits)

lemmas frames [simp] = core_small [THEN core_sel] core_measures [THEN core_sel]

lemma page_styles [simp]:
  "m_page (put_style e a v w) = m_page w" "m_page (put_px e a x w) = m_page w" "m_page (save_and_set a x e w) = m_page w" "m_page (checkScrollbar V w) = m_page w"
  "m_page (adjustDialog V e w) = m_page w" "m_page (on_page f w) = f (m_page w)"
  by (simp_all add: put_style_def put_px_def save_and_set_def checkScrollbar_def adjustDialog_def on_page_def Let_def split: option.splits)

lemma page_fold [simp]:
  assumes "\<And>x v. m_page (f x v) = m_page v"
  shows "m_page (fold f xs w) = m_page w"
  using assms by (induction xs arbitrary: w) simp_all

lemma page_setScrollbar [simp]: "m_page (setScrollbar V w) = addClass ''modal-open'' (mv_body V) (m_page w)"
  by (simp add: setScrollbar_def Let_def)

lemma page_trigger_show [simp]: "m_page (snd (trigger_show prevents e w)) = fire ''show.bs.modal'' e (m_page w)"
  by (simp add: trigger_show_def Let_def)


section \<open>The ends that are awaited\<close>

definition callbacks :: "'h transitions \<Rightarrow> 'h list" where
  "callbacks tr = List.map_filter (callback_of \<circ> snd) (end_handlers tr)"

lemma callbacks_none [simp]: "callbacks no_transitions = []"
  by (simp add: callbacks_def List.map_filter_def)

lemma map_filter_append: "List.map_filter f (xs @ ys) = List.map_filter f xs @ List.map_filter f ys"
  by (simp add: List.map_filter_def)

lemma callbacks_await [simp]: "callbacks (await_end e cb tr) = callbacks tr @ [cb]"
  by (simp add: callbacks_def await_end_def transitionEndEmulator_def map_filter_append List.map_filter_simps)

text \<open>The ends that open or close; the others leave \<^verbatim>\<open>_isTransitioning\<close> as it is.\<close>

definition is_main :: "modal_cb \<Rightarrow> bool" where
  "is_main cb \<longleftrightarrow> cb \<in> {HideModal, After ThenShow, RemoveBackdrop (Some ThenShow), DialogShown}"

definition mains :: "modal_cb list \<Rightarrow> modal_cb list" where
  "mains cbs = filter is_main cbs"

lemma mains_simps [simp]:
  "mains [] = []" "mains (xs @ ys) = mains xs @ mains ys"
  "mains (cb # cbs) = (if is_main cb then cb # mains cbs else mains cbs)"
  by (simp_all add: mains_def)

lemma is_main_simps [simp]:
  "is_main HideModal" "is_main (After ThenShow)" "is_main DialogShown" "is_main (RemoveBackdrop (Some ThenShow))"
  "\<not> is_main (After ThenHidden)" "\<not> is_main (RemoveBackdrop None)" "\<not> is_main (RemoveBackdrop (Some ThenHidden))"
  "\<not> is_main (StaticEnd b)" "\<not> is_main OverflowReset"
  by (simp_all add: is_main_def)

text \<open>Dropping handlers drops callbacks; an event splits them into those that run and those that wait.\<close>

lemma mains_drop:
  "length (mains (callbacks (tr\<lparr>end_handlers := filter P (end_handlers tr)\<rparr>))) \<le> length (mains (callbacks tr))
   \<and> set (mains (callbacks (tr\<lparr>end_handlers := filter P (end_handlers tr)\<rparr>))) \<subseteq> set (mains (callbacks tr))"
proof -
  have "length (mains (List.map_filter (callback_of \<circ> snd) (filter P hs))) \<le> length (mains (List.map_filter (callback_of \<circ> snd) hs))
      \<and> set (mains (List.map_filter (callback_of \<circ> snd) (filter P hs))) \<subseteq> set (mains (List.map_filter (callback_of \<circ> snd) hs))" for hs
    by (induction hs) (auto split: option.splits)
  then show ?thesis by (simp add: callbacks_def)
qed

lemma dispatch_splits:
  "mset (snd (dispatch_end x tr)) + mset (callbacks (fst (dispatch_end x tr))) = mset (callbacks tr)"
proof -
  have "mset (List.map_filter callback_of (map snd (filter (\<lambda>h. fst h = x) hs)))
      + mset (List.map_filter (callback_of \<circ> snd) (filter (\<lambda>h. fst h \<noteq> x) hs))
      = mset (List.map_filter (callback_of \<circ> snd) hs)" for hs :: "(eid \<times> 'a on_end) list"
    by (induction hs) (auto split: option.splits)
  then show ?thesis by (simp add: callbacks_def) (simp add: dispatch_end_def Let_def)
qed

lemma emulator_splits:
  "mset (snd (emulator_timeout k tr)) + mset (callbacks (fst (emulator_timeout k tr))) = mset (callbacks tr)"
proof -
  have "callbacks (tr\<lparr>emulators := es\<rparr>) = callbacks tr" for es by (simp add: callbacks_def)
  then show ?thesis by (simp add: emulator_timeout_def Let_def dispatch_splits split: option.splits)
qed

section \<open>The invariant\<close>

text \<open>\<open>cbs\<close> are the callbacks of the present event that are still to run.\<close>

definition ends_ok :: "modal_cb list \<Rightarrow> modal \<Rightarrow> bool" where
  "ends_ok M w \<longleftrightarrow> length M \<le> 1 \<and> (\<forall>cb \<in> set M. m_isTransitioning w \<and> (m_isShown w \<longleftrightarrow> cb \<noteq> HideModal))"

definition listeners_ok :: "modal \<Rightarrow> bool" where
  "listeners_ok w \<longleftrightarrow> (m_escape w \<longleftrightarrow> m_isShown w) \<and> (m_resize w \<longleftrightarrow> m_isShown w)
     \<and> (m_dismiss_click w \<or> m_backdrop_click w \<or> m_mousedown w \<or> m_focusin w \<longrightarrow> m_isShown w)"

definition modal_inv :: "modal_cb list \<Rightarrow> modal \<Rightarrow> bool" where
  "modal_inv cbs w \<longleftrightarrow> listeners_ok w \<and> (m_element w \<noteq> None \<longrightarrow> ends_ok (mains (cbs @ callbacks (m_trans w))) w)"

lemma inv_frame: "core v = core w \<Longrightarrow> modal_inv cbs v = modal_inv cbs w"
  by (simp add: modal_inv_def listeners_ok_def ends_ok_def core_def)

lemma ends_Nil [simp]: "ends_ok [] w"
  by (simp add: ends_ok_def)

lemma core_complete:
  "m_element w = Some e \<Longrightarrow> \<exists>v. transitionComplete w = Inr v \<and> core v = core (w\<lparr>m_isTransitioning := False\<rparr>)"
  by (cases "truthy (m_opt w ''focus'')") (simp_all add: transitionComplete_def core_def)

lemma inv_idle:
  "modal_inv cbs w \<Longrightarrow> mains (cbs @ callbacks (m_trans w)) = [] \<Longrightarrow> modal_inv cbs (w\<lparr>m_isTransitioning := b\<rparr>)"
  by (simp add: modal_inv_def listeners_ok_def)

lemma transitionComplete_inv:
  assumes "modal_inv cbs w" "m_element w = Some e" "mains (cbs @ callbacks (m_trans w)) = []" "transitionComplete w = Inr w'"
  shows "modal_inv cbs w'"
proof -
  have "core w' = core (w\<lparr>m_isTransitioning := False\<rparr>)" using core_complete [OF assms(2)] assms(4) by auto
  then show ?thesis by (rule inv_frame [THEN iffD2]) (rule inv_idle [OF assms(1,3)])
qed

lemma core_present: "core (present_element e w) = core (w\<lparr>m_focusin := truthy (m_opt w ''focus'') \<or> m_focusin w\<rparr>)"
  unfolding present_element_def by (simp add: core_def)

lemma inv_focusin: "modal_inv cbs w \<Longrightarrow> m_isShown w \<Longrightarrow> modal_inv cbs (w\<lparr>m_focusin := b\<rparr>)"
  by (simp add: modal_inv_def listeners_ok_def ends_ok_def)

lemma inv_await:
  assumes "modal_inv cbs w" "mains (cbs @ callbacks (m_trans w)) = []"
    "is_main cb \<Longrightarrow> m_isTransitioning w \<and> (m_isShown w \<longleftrightarrow> cb \<noteq> HideModal)"
  shows "modal_inv cbs (await d cb w)"
  using assms by (simp add: modal_inv_def listeners_ok_def ends_ok_def await_def)

lemma showElement_inv:
  assumes inv: "modal_inv cbs w" and e: "m_element w = Some e" and none: "mains (cbs @ callbacks (m_trans w)) = []"
    and shown: "m_isShown w" and fade: "hasClass ''fade'' (m_page w) e \<longrightarrow> m_isTransitioning w"
    and run: "showElement w = Inr w'"
  shows "modal_inv cbs w'"
proof -
  define v where "v = present_element e w"
  note core_v = core_sel [OF core_present [of e w], folded v_def, simplified]
  have v: "modal_inv cbs v" "m_element v = Some e" "mains (cbs @ callbacks (m_trans v)) = []"
    using inv_frame [OF core_present [of e w]] inv_focusin [OF inv shown] e none core_v by (simp_all add: v_def [symmetric])
  show ?thesis
  proof (cases "hasClass ''fade'' (m_page w) e")
    case True
    have "modal_inv cbs (await d DialogShown v)" for d
      by (rule inv_await) (use v True fade shown core_v in simp_all)
    then show ?thesis
      using True run e v(1) by (cases "m_dialog v") (simp_all add: showElement_def v_def [symmetric], blast)
  next
    case False
    then show ?thesis using transitionComplete_inv [OF v] run e by (simp add: showElement_def v_def [symmetric])
  qed
qed

lemma core_remove:
  "core (removeBackdrop w) = core (w\<lparr>m_backdrop := None, m_backdrops := m_backdrops (removeBackdrop w), m_trans := m_trans (removeBackdrop w)\<rparr>)"
  by (simp add: removeBackdrop_def core_def split: option.splits)

lemma drop_handlers_inv:
  assumes "modal_inv cbs w"
  shows "modal_inv cbs (w\<lparr>m_trans := (m_trans w)\<lparr>end_handlers := filter P (end_handlers (m_trans w))\<rparr>\<rparr>)"
  using assms mains_drop [of P "m_trans w"] unfolding modal_inv_def listeners_ok_def ends_ok_def
  by (simp add: subset_iff) force

lemma removeBackdrop_inv: "modal_inv cbs w \<Longrightarrow> modal_inv cbs (removeBackdrop w)"
  using drop_handlers_inv [of cbs w]
  by (simp add: removeBackdrop_def modal_inv_def listeners_ok_def ends_ok_def split: option.splits)

lemma afterHide_inv: "modal_inv cbs w \<Longrightarrow> afterHide V w = Inr w' \<Longrightarrow> modal_inv cbs w'"
  using inv_frame [of w' w cbs] by (auto simp: afterHide_def split: option.splits)

text \<open>What must hold for the continuation of \<^verbatim>\<open>_showBackdrop\<close>.\<close>

definition may_run :: "modal_cb list \<Rightarrow> modal_then \<Rightarrow> modal \<Rightarrow> bool" where
  "may_run cbs k w \<longleftrightarrow> (k = ThenShow \<longrightarrow> mains (cbs @ callbacks (m_trans w)) = [] \<and> m_isShown w
     \<and> (\<forall>e. m_element w = Some e \<longrightarrow> hasClass ''fade'' (m_page w) e \<longrightarrow> m_isTransitioning w))"

lemma call_then_inv:
  assumes "modal_inv cbs w" "may_run cbs k w" "call_then V k w = Inr w'"
  shows "modal_inv cbs w'"
proof (cases k)
  case ThenShow
  moreover obtain e where "m_element w = Some e"
    using assms(3) ThenShow by (cases "m_element w") (simp_all add: call_then_def showElement_def)
  ultimately show ?thesis using showElement_inv [OF assms(1)] assms(2,3) by (simp add: call_then_def may_run_def)
next
  case ThenHidden
  then show ?thesis using afterHide_inv [OF assms(1)] assms(3) by (simp add: call_then_def)
qed

lemma core_insert: "core (insert_backdrop animate w) = core (w\<lparr>m_fresh := Suc (m_fresh w), m_backdrop := Some (m_fresh w),
    m_backdrops := m_backdrops w @ [m_fresh w], m_backdrop_click := (m_element w \<noteq> None)\<rparr>)"
  by (cases animate) (simp_all add: insert_backdrop_def core_def Let_def)

lemmas core_inserted = core_insert [THEN core_sel, simplified]

lemma insert_no_fade: "hasClass ''fade'' (m_page (insert_backdrop False w)) x = hasClass ''fade'' (m_page w) x"
  by (simp add: insert_backdrop_def on_page_def Let_def)

lemma inv_insert:
  assumes "modal_inv cbs w" "m_isShown w"
  shows "modal_inv cbs (insert_backdrop animate w)"
proof -
  have "modal_inv cbs (w\<lparr>m_fresh := Suc (m_fresh w), m_backdrop := Some (m_fresh w),
      m_backdrops := m_backdrops w @ [m_fresh w], m_backdrop_click := (m_element w \<noteq> None)\<rparr>)"
    using assms by (simp add: modal_inv_def listeners_ok_def ends_ok_def)
  then show ?thesis by (rule inv_frame [OF core_insert, THEN iffD2])
qed

lemma callbackRemove_inv:
  assumes "modal_inv cbs w" "\<And>k. callback = Some k \<Longrightarrow> may_run cbs k (removeBackdrop w)" "callbackRemove V callback w = Inr w'"
  shows "modal_inv cbs w'"
  using assms removeBackdrop_inv [OF assms(1)] call_then_inv [of cbs "removeBackdrop w"]
  by (auto simp: callbackRemove_def split: option.splits)

lemma showBackdrop_inv:
  assumes inv: "modal_inv cbs w" and e: "m_element w = Some e" and may: "\<And>k. callback = Some k \<Longrightarrow> may_run cbs k w"
    and run: "showBackdrop V callback w = Inr w'"
  shows "modal_inv cbs w'"
proof -
  define fade where "fade = hasClass ''fade'' (m_page w) e"
  consider (insert) "m_isShown w" "truthy (m_opt w ''backdrop'')" | (remove) b where "\<not> m_isShown w" "m_backdrop w = Some b"
    | (call) "\<not> (m_isShown w \<and> truthy (m_opt w ''backdrop''))" "m_isShown w \<or> m_backdrop w = None" by (cases "m_backdrop w") auto
  then show ?thesis
  proof cases
    case insert
    have i: "modal_inv cbs (insert_backdrop fade w)" by (rule inv_insert [OF inv insert(1)])
    have "modal_inv cbs (await x (After k) (insert_backdrop fade w))" if "callback = Some k" fade for k x
    proof (cases k)
      case ThenShow
      then have "mains (cbs @ callbacks (m_trans w)) = []" "m_isTransitioning w"
        using may [OF that(1)] e that(2) by (auto simp: may_run_def fade_def)
      then show ?thesis using inv_await [OF i] insert(1) ThenShow by (simp add: core_inserted)
    next
      case ThenHidden
      then show ?thesis using i by (simp add: modal_inv_def listeners_ok_def ends_ok_def await_def)
    qed
    moreover have "modal_inv cbs w'" if "callback = Some k" "\<not> fade" "call_then V k (insert_backdrop fade w) = Inr w'" for k
    proof (rule call_then_inv [OF i _ that(3)])
      show "may_run cbs k (insert_backdrop fade w)"
        using may [OF that(1)] that(2) by (simp add: may_run_def core_inserted insert_no_fade)
    qed
    ultimately show ?thesis
      using run e insert i by (auto simp: showBackdrop_def fade_def [symmetric] Let_def split: option.splits if_splits)
  next
    case remove
    define v where "v = on_page (removeClass ''show'' b) w"
    have v: "modal_inv cbs v" using inv inv_frame [of v w cbs] by (simp add: v_def)
    have hidden: "k = ThenHidden" if "callback = Some k" for k
      using may [OF that] remove(1) by (cases k) (simp_all add: may_run_def)
    have "modal_inv cbs (await b (RemoveBackdrop callback) v)"
    proof (cases callback)
      case None
      then show ?thesis using v by (simp add: modal_inv_def listeners_ok_def ends_ok_def await_def)
    next
      case (Some k)
      then show ?thesis using v hidden by (simp add: modal_inv_def listeners_ok_def ends_ok_def await_def)
    qed
    moreover have "modal_inv cbs w'" if "callbackRemove V callback v = Inr w'"
      by (rule callbackRemove_inv [OF v _ that]) (use hidden in \<open>simp add: may_run_def\<close>)
    ultimately show ?thesis
      using run e remove by (auto simp: showBackdrop_def v_def [symmetric] Let_def split: if_splits)
  next
    case call
    then show ?thesis
      using run inv call_then_inv [OF inv may] by (auto simp: showBackdrop_def Let_def split: option.splits bool.splits if_splits)
  qed
qed

section \<open>Every operation keeps it\<close>

lemma core_begin_show: "core (begin_show V e w) = core (w\<lparr>m_isShown := True, m_escape := True, m_resize := True,
    m_dismiss_click := True, m_mousedown := (m_dialog w \<noteq> None)\<rparr>)"
  by (simp add: begin_show_def setEvents_def Let_def core_def)

lemmas core_begun = core_begin_show [THEN core_sel, simplified]

lemma fade_begun: "hasClass ''fade'' (m_page (begin_show V e w)) x = hasClass ''fade'' (m_page w) x"
  by (simp add: begin_show_def setEvents_def Let_def)

lemma core_begin_hide: "core (begin_hide e w) = core (w\<lparr>m_isShown := False,
    m_isTransitioning := (hasClass ''fade'' (m_page w) e \<or> m_isTransitioning w), m_escape := False, m_resize := False,
    m_focusin := False, m_dismiss_click := False, m_backdrop_click := False, m_mousedown := False\<rparr>)"
  by (simp add: begin_hide_def setEvents_def Let_def core_def)

lemmas core_hidden = core_begin_hide [THEN core_sel, simplified]

lemma core_conceal: "core (conceal_element e w) = core (w\<lparr>m_isTransitioning := False\<rparr>)"
  by (simp add: conceal_element_def core_def)

lemmas core_concealed = core_conceal [THEN core_sel, simplified]

lemma fade_concealed: "hasClass c (m_page (conceal_element e w)) x = hasClass c (m_page w) x"
  by (simp add: conceal_element_def)

lemma no_mains:
  assumes "modal_inv cbs w" "m_element w = Some e" "\<not> m_isTransitioning w"
  shows "mains cbs = []" "mains (callbacks (m_trans w)) = []"
  using assms by (auto simp: modal_inv_def ends_ok_def simp del: not_None_eq) (metis list.set_intros(1) neq_Nil_conv)+

lemma hideModal_inv:
  assumes "modal_inv cbs w" "mains (cbs @ callbacks (m_trans w)) = []" "hideModal V w = Inr w'"
  shows "modal_inv cbs w'"
proof -
  obtain e where e: "m_element w = Some e" using assms(3) by (cases "m_element w") (simp_all add: hideModal_def)
  have c: "modal_inv cbs (conceal_element e w)"
    by (rule inv_frame [OF core_conceal, THEN iffD2]) (rule inv_idle [OF assms(1,2)])
  show ?thesis
    by (rule showBackdrop_inv [OF c]) (use assms(3) e in \<open>auto simp: hideModal_def core_concealed may_run_def\<close>)
qed

lemma modal_hide_inv:
  assumes "modal_inv [] w" "modal_hide V prevents w = Inr w'"
  shows "modal_inv [] w'"
proof (cases "\<not> m_isShown w \<or> m_isTransitioning w \<or> m_element w = None")
  case True
  then show ?thesis using assms by (auto simp: modal_hide_def split: if_splits)
next
  case False
  then obtain e where s: "m_isShown w" "\<not> m_isTransitioning w" and e: "m_element w = Some e" by auto
  define v where "v = on_page (fire ''hide.bs.modal'' e) w"
  have v: "modal_inv [] v" using assms(1) inv_frame [of v w "[]"] by (simp add: v_def)
  have none: "mains (callbacks (m_trans v)) = []" using no_mains [OF assms(1) e s(2)] by (simp add: v_def)
  have h: "modal_inv [] (begin_hide e v)"
    using v none by (intro inv_frame [OF core_begin_hide, THEN iffD2]) (simp add: modal_inv_def listeners_ok_def)
  have "modal_inv [] (await e HideModal (begin_hide e v))" if "hasClass ''fade'' (m_page v) e"
    by (rule inv_await [OF h]) (use none that in \<open>simp_all add: core_hidden\<close>)
  moreover have "modal_inv [] w'" if "hideModal V (begin_hide e v) = Inr w'"
    by (rule hideModal_inv [OF h _ that]) (use none in \<open>simp add: core_hidden\<close>)
  ultimately show ?thesis
    using assms(2) v s e by (auto simp: modal_hide_def v_def [symmetric] Let_def split: if_splits)
qed

lemma modal_show_inv:
  assumes "modal_inv [] w" "modal_show V prevents w = Inr w'"
  shows "modal_inv [] w'"
proof (cases "m_isShown w \<or> m_isTransitioning w")
  case True
  then show ?thesis using assms by (simp add: modal_show_def)
next
  case False
  then obtain e where e: "m_element w = Some e"
    using assms(2) by (cases "m_element w") (simp_all add: modal_show_def)
  define u where "u = (if hasClass ''fade'' (m_page w) e then w\<lparr>m_isTransitioning := True\<rparr> else w)"
  define v where "v = snd (trigger_show prevents e u)"
  have none: "mains (callbacks (m_trans w)) = []" using no_mains [OF assms(1) e] False by simp
  have u: "modal_inv [] u" "m_element u = Some e" "m_trans u = m_trans w" "hasClass ''fade'' (m_page u) e \<longrightarrow> m_isTransitioning u"
    using inv_idle [OF assms(1)] assms(1) none e by (simp_all add: u_def)
  have v: "modal_inv [] v" using u(1) inv_frame [of v u "[]"] by (simp add: v_def)
  have b: "modal_inv [] (begin_show V e v)"
    using v u(2,3) none by (intro inv_frame [OF core_begin_show, THEN iffD2]) (simp add: modal_inv_def listeners_ok_def v_def)
  have "modal_inv [] w'" if "showBackdrop V (Some ThenShow) (begin_show V e v) = Inr w'"
    by (rule showBackdrop_inv [OF b _ _ that])
      (use u(2-4) none in \<open>auto simp: core_begun may_run_def fade_begun v_def\<close>)
  then show ?thesis
    using assms(2) False e v by (auto simp: modal_show_def u_def [symmetric] v_def case_prod_beta Let_def split: if_splits)
qed

lemma trigger_inv:
  assumes "modal_inv [] w" "triggerBackdropTransition V prevents w = Inr w'"
  shows "modal_inv [] w'"
proof (cases "m_opt w ''backdrop'' = JStr ''static''")
  case False
  then show ?thesis using assms modal_hide_inv by (simp add: triggerBackdropTransition_def)
next
  case True
  then obtain e where e: "m_element w = Some e"
    using assms(2) by (cases "m_element w") (simp_all add: triggerBackdropTransition_def)
  define u where "u = on_page (fire ''hidePrevented.bs.modal'' e) w"
  define v where "v = on_page (addClass ''modal-static'' e)
      (if \<not> modal_overflows V e then put_style e ''overflowY'' (PxText ''hidden'') u else u)"
  have "core u = core w" "core v = core w" by (simp_all add: u_def v_def)
  then have inv: "modal_inv [] u" "modal_inv [] v" using assms(1) inv_frame by blast+
  have tr: "m_trans u = m_trans v" by (simp add: v_def)
  then have "modal_inv [] (await e (StaticEnd (modal_overflows V e))
      (v\<lparr>m_trans := (m_trans v)\<lparr>end_handlers := filter (\<lambda>h. fst h \<noteq> e) (end_handlers (m_trans v))\<rparr>\<rparr>))" (is "modal_inv [] ?x")
    using drop_handlers_inv [OF inv(2)] by (simp add: modal_inv_def listeners_ok_def ends_ok_def await_def)
  then have "modal_inv [] (on_page (focus e) ?x)" using inv_frame [of "on_page (focus e) ?x" ?x] by simp
  then show ?thesis
    using assms(2) True e inv(1) tr
    by (auto simp: triggerBackdropTransition_def u_def [symmetric] v_def [symmetric] Let_def split: if_splits)
qed

lemma callback_disposed:
  assumes "m_element w = None" "modal_callback V cb w = Inr w'"
  shows "w' = removeBackdrop w"
proof -
  have e: "m_element (removeBackdrop w) = None" using assms(1) by (simp add: removeBackdrop_def split: option.splits)
  have "call_then V k v \<noteq> Inr w'" if "m_element v = None" for k v
    using that by (cases k) (simp_all add: call_then_def showElement_def afterHide_def)
  then show ?thesis
    using assms e by (cases cb)
      (auto simp: modal_callback_def hideModal_def transitionComplete_def callbackRemove_def split: option.splits)
qed

lemma run_callback_inv:
  assumes inv: "modal_inv (cb # cbs) w" and run: "modal_callback V cb w = Inr w'"
  shows "modal_inv cbs w'"
proof (cases "m_element w")
  case None
  then have "w' = removeBackdrop w" using run by (rule callback_disposed)
  then show ?thesis using inv None by (auto simp: removeBackdrop_def modal_inv_def listeners_ok_def split: option.splits)
next
  case (Some e)
  have rest: "modal_inv cbs w" and ends: "is_main cb \<Longrightarrow> mains (cbs @ callbacks (m_trans w)) = [] \<and> m_isTransitioning w
      \<and> (m_isShown w \<longleftrightarrow> cb \<noteq> HideModal)"
    using inv Some by (auto simp: modal_inv_def ends_ok_def split: if_splits)
  have may: "may_run cbs k w" if "cb = After k \<or> cb = RemoveBackdrop (Some k)" for k
    using ends that by (cases k) (auto simp: may_run_def)
  show ?thesis
  proof (cases cb)
    case (RemoveBackdrop callback)
    have "may_run cbs k (removeBackdrop w)" if "callback = Some k" for k
    proof -
      have "set (mains (callbacks (m_trans (removeBackdrop w)))) \<subseteq> set (mains (callbacks (m_trans w)))"
        using mains_drop by (auto simp: removeBackdrop_def split: option.splits)
      moreover have "may_run cbs k w" using may RemoveBackdrop that by blast
      moreover have "m_element (removeBackdrop w) = m_element w" "m_isShown (removeBackdrop w) = m_isShown w"
        "m_isTransitioning (removeBackdrop w) = m_isTransitioning w" "m_page (removeBackdrop w) = m_page w"
        by (simp_all add: removeBackdrop_def split: option.splits)
      ultimately show ?thesis by (auto simp: may_run_def)
    qed
    then show ?thesis
      using callbackRemove_inv [OF rest, of callback V w'] run RemoveBackdrop by (simp add: modal_callback_def)
  next
    case (StaticEnd b)
    define v where "v = on_page (removeClass ''modal-static'' e) w"
    have v: "modal_inv cbs v" using rest inv_frame [of v w cbs] by (simp add: v_def)
    have "modal_inv cbs (await e OverflowReset v)"
      using v by (simp add: modal_inv_def listeners_ok_def ends_ok_def await_def)
    then show ?thesis using run StaticEnd Some v by (auto simp: modal_callback_def v_def [symmetric] Let_def split: if_splits)
  next
    case OverflowReset
    then have "core w' = core w" using run Some by (auto simp: modal_callback_def)
    then show ?thesis using rest inv_frame by blast
  next
    case HideModal
    then show ?thesis using hideModal_inv [OF rest] ends run by (simp add: modal_callback_def)
  next
    case (After k)
    then show ?thesis using call_then_inv [OF rest] may run by (simp add: modal_callback_def)
  next
    case DialogShown
    then show ?thesis using transitionComplete_inv [OF rest Some] ends run by (simp add: modal_callback_def)
  qed
qed

lemma run_callbacks_inv: "modal_inv cbs w \<Longrightarrow> modal_callbacks V cbs w = Inr w' \<Longrightarrow> modal_inv [] w'"
  by (induction V cbs w rule: modal_callbacks.induct) (auto simp: bindE_Inr_conv dest: run_callback_inv)

lemma split_inv:
  assumes "modal_inv [] w" "mset cbs + mset (callbacks tr) = mset (callbacks (m_trans w))"
  shows "modal_inv cbs (w\<lparr>m_trans := tr\<rparr>)"
proof -
  have "mset (mains (cbs @ callbacks tr)) = mset (mains (callbacks (m_trans w)))"
    using assms(2) unfolding mains_def mset_filter mset_append by simp
  then have "set (mains (cbs @ callbacks tr)) = set (mains (callbacks (m_trans w)))"
    "length (mains (cbs @ callbacks tr)) = length (mains (callbacks (m_trans w)))"
    by (rule mset_eq_setD, rule mset_eq_length)
  then show ?thesis using assms(1) by (simp add: modal_inv_def listeners_ok_def ends_ok_def del: mains_simps)
qed

lemma modal_transitionend_inv: "modal_inv [] w \<Longrightarrow> modal_transitionend V x w = Inr w' \<Longrightarrow> modal_inv [] w'"
  using split_inv [OF _ dispatch_splits, of w x] run_callbacks_inv by (auto simp: modal_transitionend_def case_prod_beta)

lemma modal_emulator_inv: "modal_inv [] w \<Longrightarrow> modal_emulator V k w = Inr w' \<Longrightarrow> modal_inv [] w'"
  using split_inv [OF _ emulator_splits, of w k] run_callbacks_inv by (auto simp: modal_emulator_def case_prod_beta)

section \<open>Reachable states\<close>

text \<open>The calls and events an instance sees while it lives, and edits of the page around it.\<close>

inductive modal_step :: "modal \<Rightarrow> modal \<Rightarrow> bool" where
  shows_up: "modal_show V prevents w = Inr w' \<Longrightarrow> modal_step w w'"
| goes: "modal_hide V prevents w = Inr w' \<Longrightarrow> modal_step w w'"
| toggle: "modal_toggle V prevents w = Inr w' \<Longrightarrow> modal_step w w'"
| handle_update: "handleUpdate V w = Inr w' \<Longrightarrow> modal_step w w'"
| backdrop: "backdrop_click V prevents target w = Inr w' \<Longrightarrow> modal_step w w'"
| dismiss: "dismiss_click V prevents w = Inr w' \<Longrightarrow> modal_step w w'"
| mousedown: "modal_step w (dialog_mousedown w)"
| mouseup: "modal_step w (element_mouseup target w)"
| keydown: "fst (modal_keydown V prevents which w) = Inr w' \<Longrightarrow> modal_step w w'"
| focusin: "modal_step w (modal_focusin focused w)"
| resize: "modal_resize V w = Inr w' \<Longrightarrow> modal_step w w'"
| ending: "modal_transitionend V x w = Inr w' \<Longrightarrow> modal_step w w'"
| timing: "modal_emulator V k w = Inr w' \<Longrightarrow> modal_step w w'"
| clicked: "modal_step w (w\<lparr>m_show_once := m_show_once w @ xs\<rparr>)"
| edited: "modal_step w (w\<lparr>m_page := p\<rparr>)"

inductive modal_reach :: "modal \<Rightarrow> bool" where
  start: "new_Modal p st fresh e config = Inr w \<Longrightarrow> modal_reach w"
| step: "modal_reach w \<Longrightarrow> modal_step w w' \<Longrightarrow> modal_reach w'"
| dispose: "modal_reach w \<Longrightarrow> modal_reach (modal_dispose w)"

lemma core_handleUpdate: "handleUpdate V w = Inr w' \<Longrightarrow> core w' = core w"
  by (auto simp: handleUpdate_def split: option.splits)

lemma modal_step_inv:
  assumes "modal_step w w'" "modal_inv [] w"
  shows "modal_inv [] w'"
  using assms
proof (induction rule: modal_step.induct)
  case (handle_update V w w')
  then show ?case using inv_frame core_handleUpdate by blast
next
  case (resize V w w')
  then have "core w' = core w" using core_handleUpdate by (auto simp: modal_resize_def split: if_splits)
  then show ?case using inv_frame resize.prems by blast
next
  case (backdrop V prevents target w w')
  have "modal_inv [] (w\<lparr>m_ignoreBackdropClick := b\<rparr>)" for b
    using backdrop.prems inv_frame [of "w\<lparr>m_ignoreBackdropClick := b\<rparr>" w] by simp
  then show ?case using backdrop trigger_inv by (auto simp: backdrop_click_def split: if_splits)
next
  case (mousedown w)
  then show ?case using inv_frame [of "dialog_mousedown w" w] by simp
next
  case (mouseup w target)
  then show ?case using inv_frame [of "element_mouseup target w" w] by simp
next
  case (focusin w focused)
  then show ?case using inv_frame [of "modal_focusin focused w" w] by simp
next
  case (clicked w xs)
  then show ?case using inv_frame [of "w\<lparr>m_show_once := m_show_once w @ xs\<rparr>" w] by simp
next
  case (edited w p)
  then show ?case using inv_frame [of "w\<lparr>m_page := p\<rparr>" w] by simp
next
  case (toggle V prevents w w')
  then have "modal_hide V prevents w = Inr w' \<or> modal_show V prevents w = Inr w'" by (simp add: modal_toggle_def split: if_splits)
  then show ?case using toggle.prems modal_show_inv modal_hide_inv by blast
next
  case (dismiss V prevents w w')
  then have "modal_hide V prevents w = Inr w' \<or> w' = w" by (simp add: dismiss_click_def split: if_splits)
  then show ?case using dismiss.prems modal_hide_inv by blast
next
  case (keydown V prevents which w w')
  then have "modal_hide V prevents w = Inr w' \<or> triggerBackdropTransition V prevents w = Inr w' \<or> w' = w"
    by (simp add: modal_keydown_def split: if_splits)
  then show ?case using keydown.prems modal_hide_inv trigger_inv by blast
qed (blast intro: modal_show_inv modal_hide_inv modal_transitionend_inv modal_emulator_inv)+

lemma modal_reach_inv: "modal_reach w \<Longrightarrow> modal_inv [] w"
proof (induction rule: modal_reach.induct)
  case (start p st fresh e config w)
  then show ?case by (auto simp: new_Modal_def bindE_Inr_conv modal_inv_def listeners_ok_def)
next
  case (step w w')
  then show ?case using modal_step_inv by blast
next
  case (dispose w)
  show ?case by (simp add: modal_dispose_def modal_inv_def listeners_ok_def)
qed

end
