(* ===== verification/Bs_Modal_Live.thy ===== *)
theory Bs_Modal_Live
  imports Bs_Modal_Inv
begin

text \<open>
  What holds of modals: the states from which none opens or closes any more, and how the paddings for the
  scroll bar come and go.
\<close>

section \<open>States in transition for ever\<close>

definition stuck :: "modal_cb list \<Rightarrow> modal \<Rightarrow> bool" where
  "stuck cbs w \<longleftrightarrow> m_element w \<noteq> None \<and> m_isTransitioning w \<and> mains (cbs @ callbacks (m_trans w)) = []"

text \<open>What such a state keeps.\<close>

definition kept :: "modal \<Rightarrow> modal \<Rightarrow> bool" where
  "kept w v \<longleftrightarrow> m_isShown v = m_isShown w \<and> m_element v = m_element w
     \<and> (m_backdrop w = None \<longrightarrow> m_backdrop v = None \<and> m_backdrops v = m_backdrops w)"

lemma kept_trans: "kept w v \<Longrightarrow> kept v u \<Longrightarrow> kept w u"
  by (auto simp: kept_def)

lemma kept_trans_field: "kept (w\<lparr>m_trans := tr\<rparr>) v = kept w v"
  by (simp add: kept_def)

lemma stuck_frame: "core v = core w \<Longrightarrow> stuck cbs w \<Longrightarrow> stuck cbs v \<and> kept w v"
  by (simp add: stuck_def kept_def core_def)

lemma stuck_await: "stuck cbs w \<Longrightarrow> \<not> is_main cb \<Longrightarrow> stuck cbs (await x cb w) \<and> kept w (await x cb w)"
  by (simp add: stuck_def kept_def await_def)

lemma stuck_drop:
  "stuck cbs w \<Longrightarrow> stuck cbs (w\<lparr>m_trans := (m_trans w)\<lparr>end_handlers := filter P (end_handlers (m_trans w))\<rparr>\<rparr>)"
  using mains_drop [of P "m_trans w"] by (simp add: stuck_def)

lemma stuck_no_call [simp]:
  "stuck cbs w \<Longrightarrow> modal_show V prevents w = Inr w" "stuck cbs w \<Longrightarrow> modal_hide V prevents w = Inr w"
  "stuck cbs w \<Longrightarrow> modal_toggle V prevents w = Inr w"
  by (simp_all add: stuck_def modal_show_def modal_hide_def modal_toggle_def)

lemma stuck_trigger:
  assumes "stuck [] w" "triggerBackdropTransition V prevents w = Inr w'"
  shows "stuck [] w' \<and> kept w w'"
proof (cases "m_opt w ''backdrop'' = JStr ''static''")
  case False
  then show ?thesis using assms by (simp add: triggerBackdropTransition_def kept_def)
next
  case True
  obtain e where e: "m_element w = Some e" using assms(1) by (auto simp: stuck_def)
  define u where "u = on_page (fire ''hidePrevented.bs.modal'' e) w"
  define v where "v = on_page (addClass ''modal-static'' e)
      (if \<not> modal_overflows V e then put_style e ''overflowY'' (PxText ''hidden'') u else u)"
  define x where "x = await e (StaticEnd (modal_overflows V e))
      (v\<lparr>m_trans := (m_trans v)\<lparr>end_handlers := filter (\<lambda>h. fst h \<noteq> e) (end_handlers (m_trans v))\<rparr>\<rparr>)"
  have u: "stuck [] u \<and> kept w u" using stuck_frame [of u w] assms(1) by (simp add: u_def)
  have "core v = core u" by (simp add: v_def)
  then have v: "stuck [] v \<and> kept u v" using u stuck_frame by blast
  have "stuck [] (v\<lparr>m_trans := (m_trans v)\<lparr>end_handlers := filter (\<lambda>h. fst h \<noteq> e) (end_handlers (m_trans v))\<rparr>\<rparr>)"
    using v by (intro stuck_drop) simp
  from stuck_await [OF this] have x: "stuck [] x \<and> kept v x" by (simp add: x_def kept_trans_field)
  then have "stuck [] (on_page (focus e) x) \<and> kept x (on_page (focus e) x)"
    using x by (intro stuck_frame) simp_all
  moreover have "w' = u \<or> w' = on_page (focus e) x"
    using assms(2) True e
    by (auto simp: triggerBackdropTransition_def u_def [symmetric] v_def [symmetric] x_def Let_def split: if_splits)
      (simp_all add: v_def)
  ultimately show ?thesis using u v x kept_trans by blast
qed

lemma stuck_afterHide: "stuck cbs w \<Longrightarrow> afterHide V w = Inr w' \<Longrightarrow> stuck cbs w' \<and> kept w w'"
  by (rule stuck_frame) (auto simp: afterHide_def split: option.splits)

lemma stuck_remove: "stuck cbs w \<Longrightarrow> stuck cbs (removeBackdrop w) \<and> kept w (removeBackdrop w)"
  using stuck_drop [of cbs w] by (auto simp: removeBackdrop_def stuck_def kept_def split: option.splits)

lemma stuck_callback:
  assumes "stuck (cb # cbs) w" "modal_callback V cb w = Inr w'"
  shows "stuck cbs w' \<and> kept w w'"
proof -
  have s: "stuck cbs w" and m: "\<not> is_main cb" using assms(1) by (auto simp: stuck_def split: if_splits)
  obtain e where e: "m_element w = Some e" using s by (auto simp: stuck_def)
  note r = stuck_remove [OF s]
  show ?thesis
  proof (cases cb)
    case (After k)
    then show ?thesis using m assms(2) stuck_afterHide [OF s] by (cases k) (simp_all add: modal_callback_def call_then_def)
  next
    case (RemoveBackdrop callback)
    then have "w' = removeBackdrop w \<or> afterHide V (removeBackdrop w) = Inr w'"
      using m assms(2) by (auto simp: modal_callback_def callbackRemove_def call_then_def split: option.splits modal_then.splits)
    then show ?thesis using r stuck_afterHide kept_trans by blast
  next
    case (StaticEnd b)
    define v where "v = on_page (removeClass ''modal-static'' e) w"
    have v: "stuck cbs v \<and> kept w v" using stuck_frame [of v w] s by (simp add: v_def)
    have "stuck cbs (await e OverflowReset v) \<and> kept v (await e OverflowReset v)"
      by (rule stuck_await) (use v in simp_all)
    then show ?thesis
      using assms(2) StaticEnd e v kept_trans by (auto simp: modal_callback_def v_def [symmetric] Let_def split: if_splits)
  next
    case OverflowReset
    then have "core w' = core w" using assms(2) e by (auto simp: modal_callback_def)
    then show ?thesis using s stuck_frame by blast
  qed (use m in simp_all)
qed

lemma stuck_callbacks: "stuck cbs w \<Longrightarrow> modal_callbacks V cbs w = Inr w' \<Longrightarrow> stuck [] w' \<and> kept w w'"
proof (induction cbs arbitrary: w)
  case Nil
  then show ?case by (simp add: kept_def)
next
  case (Cons cb cbs)
  then obtain v where "modal_callback V cb w = Inr v" "modal_callbacks V cbs v = Inr w'" by (auto simp: bindE_Inr_conv)
  then show ?case using Cons stuck_callback kept_trans by blast
qed

lemma stuck_split:
  assumes "stuck [] w" "mset cbs + mset (callbacks tr) = mset (callbacks (m_trans w))"
  shows "stuck cbs (w\<lparr>m_trans := tr\<rparr>)"
proof -
  have "mset (mains (cbs @ callbacks tr)) = mset (mains (callbacks (m_trans w)))"
    using assms(2) unfolding mains_def mset_filter mset_append by simp
  then have "mains (cbs @ callbacks tr) = []" using assms(1) by (simp add: stuck_def)
  then show ?thesis using assms(1) by (simp add: stuck_def)
qed

lemma stuck_step:
  assumes "modal_step w w'" "stuck [] w"
  shows "stuck [] w' \<and> kept w w'"
  using assms
proof (induction rule: modal_step.induct)
  case (handle_update V w w')
  then show ?case using stuck_frame core_handleUpdate by blast
next
  case (resize V w w')
  then have "core w' = core w" using core_handleUpdate by (auto simp: modal_resize_def split: if_splits)
  then show ?case using stuck_frame resize.prems by blast
next
  case (backdrop V prevents target w w')
  have "core (w\<lparr>m_ignoreBackdropClick := False\<rparr>) = core w" by simp
  moreover have "w' = w\<lparr>m_ignoreBackdropClick := False\<rparr> \<or> core w' = core w \<or> triggerBackdropTransition V prevents w = Inr w'"
    using backdrop.hyps by (auto simp: backdrop_click_def split: if_splits)
  ultimately show ?case using stuck_frame stuck_trigger backdrop.prems by metis
next
  case (dismiss V prevents w w')
  then have "w' = w" by (simp add: dismiss_click_def split: if_splits)
  then show ?case using dismiss.prems by (simp add: kept_def)
next
  case (keydown V prevents which w w')
  then have "triggerBackdropTransition V prevents w = Inr w' \<or> core w' = core w"
    by (auto simp: modal_keydown_def split: if_splits)
  then show ?case using keydown.prems stuck_trigger stuck_frame by blast
next
  case (ending V x w w')
  have "stuck (snd (dispatch_end x (m_trans w))) (w\<lparr>m_trans := fst (dispatch_end x (m_trans w))\<rparr>)"
    by (rule stuck_split [OF ending.prems dispatch_splits])
  then show ?case
    using stuck_callbacks ending.hyps by (fastforce simp: modal_transitionend_def case_prod_beta kept_trans_field)
next
  case (timing V k w w')
  have "stuck (snd (emulator_timeout k (m_trans w))) (w\<lparr>m_trans := fst (emulator_timeout k (m_trans w))\<rparr>)"
    by (rule stuck_split [OF timing.prems emulator_splits])
  then show ?case
    using stuck_callbacks timing.hyps by (fastforce simp: modal_emulator_def case_prod_beta kept_trans_field)
qed (auto simp: kept_def stuck_frame intro: stuck_frame [THEN conjunct1])

lemma stuck_for_ever: "modal_step\<^sup>*\<^sup>* w w' \<Longrightarrow> stuck [] w \<Longrightarrow> stuck [] w' \<and> kept w w'"
proof (induction rule: rtranclp_induct)
  case base
  then show ?case by (simp add: kept_def)
next
  case (step v u)
  then show ?case using stuck_step kept_trans by blast
qed

text \<open>When a handler prevents the \<^verbatim>\<open>show\<close> event of a modal that fades, the modal is left in
  transition with nothing that would end it: until it is disposed it stays hidden, and every later call of
  \<^verbatim>\<open>show\<close>, prevented or not, does nothing.\<close>

theorem modal_prevented_show_stuck:
  assumes reach: "modal_reach w" and e: "m_element w = Some e" and fade: "hasClass ''fade'' (m_page w) e"
    and idle: "\<not> m_isShown w" "\<not> m_isTransitioning w"
    and prevents: "prevents ''show.bs.modal'' e (fire ''show.bs.modal'' e (m_page w))"
  shows "\<exists>w'. modal_show V prevents w = Inr w' \<and> (\<forall>w''. modal_step\<^sup>*\<^sup>* w' w'' \<longrightarrow>
    \<not> m_isShown w'' \<and> m_isTransitioning w'' \<and> (\<forall>V' prevents'. modal_show V' prevents' w'' = Inr w''))"
proof -
  define w' where "w' = snd (trigger_show prevents e (w\<lparr>m_isTransitioning := True\<rparr>))"
  have "mains (callbacks (m_trans w)) = []" using no_mains [OF modal_reach_inv [OF reach] e idle(2)] by simp
  then have s: "stuck [] w'" and h: "\<not> m_isShown w'" using e idle by (simp_all add: w'_def stuck_def)
  have "fst (trigger_show prevents e (w\<lparr>m_isTransitioning := True\<rparr>))"
    using prevents by (simp add: trigger_show_def Let_def)
  then have "modal_show V prevents w = Inr w'" using e fade idle by (simp add: modal_show_def w'_def case_prod_beta Let_def)
  moreover have "\<not> m_isShown w'' \<and> m_isTransitioning w'' \<and> (\<forall>V' prevents'. modal_show V' prevents' w'' = Inr w'')"
    if "modal_step\<^sup>*\<^sup>* w' w''" for w''
    using stuck_for_ever [OF that s] h stuck_no_call(1) by (auto simp: kept_def stuck_def)
  ultimately show ?thesis by blast
qed

text \<open>A page with a modal that fades: the body, the element, its dialog and the part that scrolls.\<close>

definition demo_modal_page :: page where
  "demo_modal_page = (bare_page (Node 0 [Node 1 [Node 2 [Node 3 []]]]))\<lparr>class_list :=
     (\<lambda>_. [])(1 := [''modal'', ''fade''], 2 := [''modal-dialog''], 3 := [''modal-body''])\<rparr>"

definition demo_modal_view :: modal_view where
  "demo_modal_view = \<lparr>mv_body = 0, mv_scroll_height = (\<lambda>_. Some 300), mv_client_height = Some 600, mv_body_left = Some 0,
     mv_body_right = Some 785, mv_inner_width = Some 800, mv_measure_width = Some 50, mv_measure_client = Some 35,
     mv_computed = (\<lambda>_ _. Some 0), mv_visible = (\<lambda>_ _. True)\<rparr>"

definition demo_new_modal :: "bs_error + modal" where
  "demo_new_modal = new_Modal demo_modal_page (\<lambda>_ _. PxText []) 4 1 Map.empty"

lemma modal_default_types: "typeCheckConfig (extends modal_Default Map.empty) modal_DefaultType = Inr ()"
  by code_simp

definition demo_modal :: modal where
  "demo_modal = (case demo_new_modal of Inr w \<Rightarrow> w | Inl _ \<Rightarrow> undefined)"

lemma demo_modal_new: "demo_new_modal = Inr demo_modal"
  by (simp add: demo_modal_def demo_new_modal_def new_Modal_def modal_getConfig_def modal_default_types Let_def)

lemma demo_modal_sel: "m_element demo_modal = Some 1" "m_page demo_modal = demo_modal_page" "\<not> m_isShown demo_modal"
  "\<not> m_isTransitioning demo_modal" "m_trans demo_modal = no_transitions"
  "m_backdrop demo_modal = None" "m_backdrops demo_modal = []" "m_fresh demo_modal = 4"
  "hasClass ''fade'' demo_modal_page 1"
  by (simp_all add: demo_modal_def demo_new_modal_def new_Modal_def modal_getConfig_def modal_default_types Let_def
      demo_modal_page_def hasClass_def)

theorem modal_prevented_show_stuck_witness:
  "\<exists>w'. modal_show demo_modal_view (\<lambda>ev e p. ev = ''show.bs.modal'') demo_modal = Inr w' \<and> (\<forall>w''. modal_step\<^sup>*\<^sup>* w' w'' \<longrightarrow>
    \<not> m_isShown w'' \<and> m_isTransitioning w'' \<and> (\<forall>V' prevents'. modal_show V' prevents' w'' = Inr w''))"
  by (rule modal_prevented_show_stuck [of _ 1])
    (simp_all add: demo_modal_sel modal_reach.start [OF demo_modal_new [unfolded demo_new_modal_def]] del: One_nat_def)

section \<open>The ways of a modal that fades\<close>

lemma dispatch_one:
  assumes "end_handlers tr = []"
  shows "snd (dispatch_end x (await_end x cb tr)) = [cb]" "end_handlers (fst (dispatch_end x (await_end x cb tr))) = []"
  using assms by (simp_all add: dispatch_end_def await_end_def transitionEndEmulator_def List.map_filter_simps)

lemma dispatch_two:
  assumes "end_handlers tr = []" "x \<noteq> y"
  shows "snd (dispatch_end x (await_end y cb' (await_end x cb tr))) = [cb]"
    "filter (\<lambda>h. fst h \<noteq> y) (end_handlers (fst (dispatch_end x (await_end y cb' (await_end x cb tr))))) = []"
  using assms by (auto simp: dispatch_end_def await_end_def transitionEndEmulator_def List.map_filter_simps)

lemma run_last [simp]: "bindE r (modal_callbacks V []) = r"
  by (cases r) simp_all

lemma hide_fades:
  assumes "m_element w = Some e" "hasClass ''fade'' (m_page w) e" "m_isShown w" "\<not> m_isTransitioning w"
    "never_prevents prevents ''hide.bs.modal''"
  shows "\<exists>v. modal_hide V prevents w = Inr v \<and> core v = core (w\<lparr>m_isShown := False, m_isTransitioning := True,
      m_escape := False, m_resize := False, m_focusin := False, m_dismiss_click := False, m_backdrop_click := False,
      m_mousedown := False, m_trans := await_end e HideModal (m_trans w)\<rparr>)
    \<and> hasClass ''fade'' (m_page v) e \<and> \<not> hasClass ''show'' (m_page v) e"
  using assms by (simp add: modal_hide_def begin_hide_def setEvents_def await_def core_def Let_def)

lemma hide_ends:
  assumes e: "m_element w = Some e" and fade: "hasClass ''fade'' (m_page w) e" and hidden: "\<not> m_isShown w"
    and b: "m_backdrop w = Some b" "b \<noteq> e" and tr: "m_trans w = await_end e HideModal tr" "end_handlers tr = []"
  shows "\<exists>v tr'. modal_transitionend V e w = Inr v \<and> end_handlers tr' = []
    \<and> core v = core (w\<lparr>m_isTransitioning := False, m_trans := await_end b (RemoveBackdrop (Some ThenHidden)) tr'\<rparr>)
    \<and> hasClass ''fade'' (m_page v) e \<and> hasClass ''show'' (m_page v) e = hasClass ''show'' (m_page w) e"
proof -
  define tr' where "tr' = fst (dispatch_end e (m_trans w))"
  define u where "u = conceal_element e (w\<lparr>m_trans := tr'\<rparr>)"
  define v where "v = await b (RemoveBackdrop (Some ThenHidden)) (on_page (removeClass ''show'' b) u)"
  note u = core_sel [OF core_conceal [of e "w\<lparr>m_trans := tr'\<rparr>"], folded u_def, simplified]
  have "modal_transitionend V e w = hideModal V (w\<lparr>m_trans := tr'\<rparr>)"
    using tr dispatch_one(1) [OF tr(2)]
    by (simp add: modal_transitionend_def case_prod_beta tr'_def modal_callback_def)
  also have "\<dots> = showBackdrop V (Some ThenHidden) u" using e by (simp add: hideModal_def u_def)
  also have "\<dots> = Inr v"
    using e fade hidden b u by (simp add: showBackdrop_def v_def Let_def) (simp add: u_def fade_concealed)
  finally have "modal_transitionend V e w = Inr v" .
  moreover have "end_handlers tr' = []" using dispatch_one(2) [OF tr(2)] tr(1) by (simp add: tr'_def)
  moreover have "core v = core (w\<lparr>m_isTransitioning := False, m_trans := await_end b (RemoveBackdrop (Some ThenHidden)) tr'\<rparr>)"
    using u by (simp add: core_def v_def await_def)
  moreover have "hasClass ''fade'' (m_page v) e" "hasClass ''show'' (m_page v) e = hasClass ''show'' (m_page w) e"
    using fade b(2) by (simp_all add: v_def await_def u_def fade_concealed)
  ultimately show ?thesis by blast
qed

lemma show_fades:
  assumes e: "m_element w = Some e" and fade: "hasClass ''fade'' (m_page w) e" and idle: "\<not> m_isShown w" "\<not> m_isTransitioning w"
    and prev: "never_prevents prevents ''show.bs.modal''" and bk: "truthy (m_opt w ''backdrop'')" and fresh: "e \<noteq> m_fresh w"
  shows "\<exists>v. modal_show V prevents w = Inr v \<and> core v = core (w\<lparr>m_isShown := True, m_isTransitioning := True, m_escape := True,
      m_resize := True, m_dismiss_click := True, m_backdrop_click := True, m_mousedown := (m_dialog w \<noteq> None),
      m_fresh := Suc (m_fresh w), m_backdrop := Some (m_fresh w), m_backdrops := m_backdrops w @ [m_fresh w],
      m_trans := await_end (m_fresh w) (After ThenShow) (m_trans w)\<rparr>)
    \<and> hasClass ''fade'' (m_page v) e \<and> hasClass ''show'' (m_page v) e = hasClass ''show'' (m_page w) e"
proof -
  define u where "u = begin_show V e (snd (trigger_show prevents e (w\<lparr>m_isTransitioning := True\<rparr>)))"
  define v where "v = await (m_fresh u) (After ThenShow) (insert_backdrop True u)"
  have "core u = core (w\<lparr>m_isTransitioning := True, m_isShown := True, m_escape := True, m_resize := True,
      m_dismiss_click := True, m_mousedown := (m_dialog w \<noteq> None)\<rparr>)"
    unfolding u_def core_begin_show by (simp add: core_def)
  note u = core_sel [OF this, simplified]
  have pages: "hasClass c (m_page u) x = (hasClass c (m_page w) x \<or> c = ''modal-open'' \<and> x = mv_body V)" for c x
    by (simp add: u_def begin_show_def setEvents_def Let_def)
  have "modal_show V prevents w = showBackdrop V (Some ThenShow) u"
    using e fade idle prev by (simp add: modal_show_def u_def case_prod_beta Let_def) (simp add: trigger_show_def Let_def)
  also have "\<dots> = Inr v" using u e fade bk pages by (simp add: showBackdrop_def v_def Let_def)
  finally have "modal_show V prevents w = Inr v" .
  moreover have "core v = core (w\<lparr>m_isShown := True, m_isTransitioning := True, m_escape := True,
      m_resize := True, m_dismiss_click := True, m_backdrop_click := True, m_mousedown := (m_dialog w \<noteq> None),
      m_fresh := Suc (m_fresh w), m_backdrop := Some (m_fresh w), m_backdrops := m_backdrops w @ [m_fresh w],
      m_trans := await_end (m_fresh w) (After ThenShow) (m_trans w)\<rparr>)"
    using u e core_inserted [of True u] by (simp add: core_def v_def await_def)
  moreover have "hasClass ''fade'' (m_page v) e" "hasClass ''show'' (m_page v) e = hasClass ''show'' (m_page w) e"
    using fade fresh u pages by (simp_all add: v_def await_def insert_backdrop_def Let_def on_page_def)
  ultimately show ?thesis by blast
qed

lemma page_resets [simp]:
  "m_page (reset_padding x w) = m_page w" "m_page (reset_margin x w) = m_page w"
  "m_page (resetAdjustments e w) = m_page w" "m_page (resetScrollbar V w) = m_page w"
  by (simp_all add: reset_padding_def reset_margin_def resetAdjustments_def resetScrollbar_def split: option.splits)

lemma hasClass_focus_all [simp]: "hasClass c (fold focus xs p) = hasClass c p"
  by (induction xs arbitrary: p) simp_all

lemma hasClass_trigger_hidden [simp]: "hasClass c (m_page (trigger_hidden V e w)) = hasClass c (m_page w)"
  by (simp add: trigger_hidden_def Let_def)

lemma old_backdrop_ends:
  assumes e: "m_element w = Some e" and shown: "m_isShown w" "m_isTransitioning w" 
    and tr: "m_trans w = await_end b' (After ThenShow) (await_end b (RemoveBackdrop (Some ThenHidden)) tr)"
      "end_handlers tr = []" and ne: "b \<noteq> b'" and b': "m_backdrop w = Some b'"
  shows "\<exists>v. modal_transitionend V b w = Inr v \<and> stuck [] v \<and> m_isShown v \<and> m_backdrop v = None
    \<and> m_backdrops v = filter (\<lambda>x. x \<noteq> b') (m_backdrops w) \<and> hasClass ''show'' (m_page v) e = hasClass ''show'' (m_page w) e"
proof -
  define tr4 where "tr4 = fst (dispatch_end b (m_trans w))"
  define u where "u = removeBackdrop (w\<lparr>m_trans := tr4\<rparr>)"
  have run: "snd (dispatch_end b (m_trans w)) = [RemoveBackdrop (Some ThenHidden)]"
    unfolding tr(1) by (rule dispatch_two(1) [OF tr(2) ne])
  have "filter (\<lambda>h. fst h \<noteq> b') (end_handlers tr4) = []"
    unfolding tr4_def tr(1) by (rule dispatch_two(2) [OF tr(2) ne])
  then have u: "end_handlers (m_trans u) = []" "m_element u = Some e" "m_isShown u" "m_isTransitioning u" "m_backdrop u = None"
    "m_backdrops u = filter (\<lambda>x. x \<noteq> b') (m_backdrops w)" "m_page u = m_page w"
    using e shown b' by (simp_all add: u_def removeBackdrop_def)
  obtain v where v: "afterHide V u = Inr v" "core v = core u" "m_page v = m_page (trigger_hidden V e (resetScrollbar V
      (resetAdjustments e (on_page (removeClass ''modal-open'' (mv_body V)) u))))"
    using u(2) by (simp add: afterHide_def)
  have "modal_transitionend V b w = Inr v"
    using v(1) by (simp add: modal_transitionend_def case_prod_beta tr4_def [symmetric] run modal_callback_def
        callbackRemove_def call_then_def u_def)
  moreover have "stuck [] v"
    using u by (intro stuck_frame [THEN conjunct1, OF v(2)]) (simp add: stuck_def callbacks_def List.map_filter_simps)
  moreover have "hasClass ''show'' (m_page v) e = hasClass ''show'' (m_page w) e"
    using u(7) v(3) by simp
  ultimately show ?thesis using u core_sel [OF v(2)] by auto
qed

text \<open>A modal that fades and is opened again while its backdrop still fades out loses its new backdrop: the
  end of the old one removes the new one, with the callback that would show the element. The old backdrop
  stays in the page, the modal counts as shown while its element is not, and until it is disposed no call
  or event changes that.\<close>

theorem modal_reopened_while_fading:
  assumes e: "m_element w = Some e" and fade: "hasClass ''fade'' (m_page w) e" and shown: "m_isShown w" "\<not> m_isTransitioning w"
    and b: "m_backdrop w = Some b" "m_backdrops w = [b]" "b < m_fresh w" "e < m_fresh w" "b \<noteq> e"
    and quiet: "end_handlers (m_trans w) = []" and bk: "truthy (m_opt w ''backdrop'')"
    and prevents: "never_prevents prevents ''hide.bs.modal''" "never_prevents prevents ''show.bs.modal''"
  shows "\<exists>w1 w2 w3 w4. modal_hide V prevents w = Inr w1 \<and> modal_transitionend V e w1 = Inr w2
    \<and> modal_show V prevents w2 = Inr w3 \<and> modal_transitionend V b w3 = Inr w4 \<and> \<not> hasClass ''show'' (m_page w4) e
    \<and> (\<forall>w5. modal_step\<^sup>*\<^sup>* w4 w5 \<longrightarrow> m_isShown w5 \<and> m_isTransitioning w5 \<and> m_backdrops w5 = [b])"
proof -
  obtain w1 where w1: "modal_hide V prevents w = Inr w1" and core1: "core w1 = core (w\<lparr>m_isShown := False, m_isTransitioning := True,
      m_escape := False, m_resize := False, m_focusin := False, m_dismiss_click := False, m_backdrop_click := False,
      m_mousedown := False, m_trans := await_end e HideModal (m_trans w)\<rparr>)"
    and p1: "hasClass ''fade'' (m_page w1) e" "\<not> hasClass ''show'' (m_page w1) e"
    using hide_fades [OF e fade shown prevents(1)] by blast
  note c1 = core_sel [OF core1, simplified]
  obtain w2 tr where w2: "modal_transitionend V e w1 = Inr w2" and tr: "end_handlers tr = []"
    and core2: "core w2 = core (w1\<lparr>m_isTransitioning := False, m_trans := await_end b (RemoveBackdrop (Some ThenHidden)) tr\<rparr>)"
    and p2: "hasClass ''fade'' (m_page w2) e" "\<not> hasClass ''show'' (m_page w2) e"
    using hide_ends [of w1 e b "m_trans w" V] e b quiet c1 p1 by auto
  note c2 = core_sel [OF core2, simplified]
  define b' where "b' = m_fresh w"
  obtain w3 where w3: "modal_show V prevents w2 = Inr w3" and core3: "core w3 = core (w2\<lparr>m_isShown := True, m_isTransitioning := True,
      m_escape := True, m_resize := True, m_dismiss_click := True, m_backdrop_click := True, m_mousedown := (m_dialog w2 \<noteq> None),
      m_fresh := Suc (m_fresh w2), m_backdrop := Some (m_fresh w2), m_backdrops := m_backdrops w2 @ [m_fresh w2],
      m_trans := await_end (m_fresh w2) (After ThenShow) (m_trans w2)\<rparr>)"
    and p3: "hasClass ''fade'' (m_page w3) e" "\<not> hasClass ''show'' (m_page w3) e"
    using show_fades [of w2 e prevents V] e b bk prevents(2) c1 c2 p2 by auto
  note c3 = core_sel [OF core3, simplified]
  have tr3: "m_trans w3 = await_end b' (After ThenShow) (await_end b (RemoveBackdrop (Some ThenHidden)) tr)"
    using c1 c2 c3 by (simp add: b'_def)
  have ne: "b \<noteq> b'" using b by (simp add: b'_def)
  obtain w4 where w4: "modal_transitionend V b w3 = Inr w4" "stuck [] w4" "m_isShown w4" "m_backdrop w4 = None"
      "m_backdrops w4 = filter (\<lambda>x. x \<noteq> b') (m_backdrops w3)" "hasClass ''show'' (m_page w4) e = hasClass ''show'' (m_page w3) e"
    using old_backdrop_ends [OF _ _ _ tr3 tr ne, of e V] e c1 c2 c3 by (auto simp: b'_def)
  have "m_isShown w5 \<and> m_isTransitioning w5 \<and> m_backdrops w5 = [b]" if "modal_step\<^sup>*\<^sup>* w4 w5" for w5
    using stuck_for_ever [OF that w4(2)] w4(3-5) b c1 c2 c3 ne by (auto simp: kept_def stuck_def b'_def)
  then have "modal_transitionend V b w3 = Inr w4 \<and> \<not> hasClass ''show'' (m_page w4) e
      \<and> (\<forall>w5. modal_step\<^sup>*\<^sup>* w4 w5 \<longrightarrow> m_isShown w5 \<and> m_isTransitioning w5 \<and> m_backdrops w5 = [b])"
    using w4(1,6) p3(2) by blast
  then show ?thesis using w1 w2 w3 by blast
qed

definition demo_open_modal :: modal where
  "demo_open_modal = demo_modal\<lparr>m_isShown := True, m_backdrop := Some 4, m_backdrops := [4], m_fresh := 5, m_focusin := True,
     m_escape := True, m_resize := True, m_dismiss_click := True, m_backdrop_click := True, m_mousedown := True\<rparr>"

theorem modal_reopened_while_fading_witness:
  "\<exists>w1 w2 w3 w4. modal_hide demo_modal_view (\<lambda>_ _ _. False) demo_open_modal = Inr w1
    \<and> modal_transitionend demo_modal_view 1 w1 = Inr w2
    \<and> modal_show demo_modal_view (\<lambda>_ _ _. False) w2 = Inr w3 \<and> modal_transitionend demo_modal_view 4 w3 = Inr w4
    \<and> \<not> hasClass ''show'' (m_page w4) 1
    \<and> (\<forall>w5. modal_step\<^sup>*\<^sup>* w4 w5 \<longrightarrow> m_isShown w5 \<and> m_isTransitioning w5 \<and> m_backdrops w5 = [4])"
proof (rule modal_reopened_while_fading)
  show "truthy (m_opt demo_open_modal ''backdrop'')"
    by (simp add: demo_open_modal_def demo_modal_def demo_new_modal_def new_Modal_def modal_getConfig_def modal_default_types
        Let_def) (code_simp)
qed (simp_all add: demo_open_modal_def demo_modal_sel never_prevents_def del: One_nat_def)

text \<open>C32. While a modal is reachable it listens for the escape key and for resizing exactly while it is shown,
  and for clicks, presses and focus at most then. At most one end that opens or closes it is awaited, and
  only in transition: the end of hiding while it is not shown, the others while it is.\<close>

theorem modal_listeners_follow:
  assumes "modal_reach w"
  shows "(m_escape w \<longleftrightarrow> m_isShown w) \<and> (m_resize w \<longleftrightarrow> m_isShown w)
    \<and> (m_dismiss_click w \<or> m_backdrop_click w \<or> m_mousedown w \<or> m_focusin w \<longrightarrow> m_isShown w)
    \<and> (m_element w \<noteq> None \<longrightarrow> length (mains (callbacks (m_trans w))) \<le> 1
        \<and> (\<forall>cb \<in> set (mains (callbacks (m_trans w))). m_isTransitioning w \<and> (m_isShown w \<longleftrightarrow> cb \<noteq> HideModal)))"
  using modal_reach_inv [OF assms] by (simp add: modal_inv_def listeners_ok_def ends_ok_def)

theorem modal_listeners_follow_witness:
  "\<exists>w. modal_show demo_modal_view (\<lambda>_ _ _. False) demo_modal = Inr w \<and> m_isShown w \<and> m_escape w \<and> m_resize w
    \<and> length (mains (callbacks (m_trans w))) \<le> 1"
proof -
  have t: "truthy (m_opt demo_modal ''backdrop'')"
    by (simp add: demo_modal_def demo_new_modal_def new_Modal_def modal_getConfig_def modal_default_types Let_def) code_simp
  obtain v where v: "modal_show demo_modal_view (\<lambda>_ _ _. False) demo_modal = Inr v"
    and c: "core v = core (demo_modal\<lparr>m_isShown := True, m_isTransitioning := True, m_escape := True,
      m_resize := True, m_dismiss_click := True, m_backdrop_click := True, m_mousedown := (m_dialog demo_modal \<noteq> None),
      m_fresh := Suc (m_fresh demo_modal), m_backdrop := Some (m_fresh demo_modal), m_backdrops := m_backdrops demo_modal @ [m_fresh demo_modal],
      m_trans := await_end (m_fresh demo_modal) (After ThenShow) (m_trans demo_modal)\<rparr>)"
    using show_fades [of demo_modal 1 "\<lambda>_ _ _. False" demo_modal_view] t by (auto simp: demo_modal_sel never_prevents_def simp del: One_nat_def)
  have "modal_reach v"
    using modal_reach.start [OF demo_modal_new [unfolded demo_new_modal_def]] modal_step.shows_up [OF v] by (rule modal_reach.step)
  then show ?thesis using modal_listeners_follow [of v] v core_sel [OF c, simplified] by (auto simp: demo_modal_sel)
qed

section \<open>Paddings\<close>

lemma saved_put [simp]: "m_saved (put_px e a v w) = m_saved w" "m_saved (put_style e a u w) = m_saved w"
  by (simp_all add: put_px_def put_style_def split: option.splits)

lemma style_put [simp]:
  "m_style (put_style e a u w) x b = (if x = e \<and> b = a then u else m_style w x b)"
  "\<not> (x = e \<and> b = a) \<Longrightarrow> m_style (put_px e a v w) x b = m_style w x b"
  by (auto simp: put_style_def put_px_def split: option.splits)

lemma saved_saves:
  "distinct xs \<Longrightarrow> m_saved (fold (\<lambda>x v. save_and_set a (f x v) x v) xs w) x b =
     (if b = a \<and> x \<in> set xs then Some (m_style w x a) else m_saved w x b)"
  by (induction xs arbitrary: w) (auto simp: save_and_set_def)

lemma style_saves:
  "\<not> (b = a \<and> x \<in> set xs) \<Longrightarrow> m_style (fold (\<lambda>x v. save_and_set a (f x v) x v) xs w) x b = m_style w x b"
  by (induction xs arbitrary: w) (auto simp: save_and_set_def)

lemma reset_paddings:
  "distinct xs \<Longrightarrow> m_style (fold reset_padding xs w) x b =
     (if b = ''paddingRight'' \<and> x \<in> set xs then case m_saved w x b of None \<Rightarrow> PxText [] | Some v \<Rightarrow> v else m_style w x b)"
  "m_saved (fold reset_padding xs w) x b = (if b = ''paddingRight'' \<and> x \<in> set xs then None else m_saved w x b)"
  by (induction xs arbitrary: w) (auto simp: reset_padding_def)

lemma reset_margins:
  "distinct xs \<Longrightarrow> m_style (fold reset_margin xs w) x b =
     (if b = ''marginRight'' \<and> x \<in> set xs then case m_saved w x b of None \<Rightarrow> m_style w x b | Some v \<Rightarrow> v else m_style w x b)"
  "m_saved (fold reset_margin xs w) x b = (if b = ''marginRight'' \<and> x \<in> set xs then None else m_saved w x b)"
  by (induction xs arbitrary: w) (auto simp: reset_margin_def split: option.splits)

lemma content_simps [simp]:
  "fixed_content (addClass ''modal-open'' b p) = fixed_content p" "sticky_content (addClass ''modal-open'' b p) = sticky_content p"
  by (simp_all add: fixed_content_def sticky_content_def)

lemma saved_page [simp]: "m_saved (on_page f w) = m_saved w" "m_style (on_page f w) = m_style w"
  by (simp_all add: on_page_def)

lemma style_one:
  "m_saved (save_and_set a v e w) x b = (if x = e \<and> b = a then Some (m_style w x b) else m_saved w x b)"
  "\<not> (x = e \<and> b = a) \<Longrightarrow> m_style (save_and_set a v e w) x b = m_style w x b"
  "m_style (reset_padding e w) x b = (if x = e \<and> b = ''paddingRight''
     then case m_saved w x b of None \<Rightarrow> PxText [] | Some u \<Rightarrow> u else m_style w x b)"
  "m_saved (reset_padding e w) x b = (if x = e \<and> b = ''paddingRight'' then None else m_saved w x b)"
  by (auto simp: save_and_set_def reset_padding_def)

text \<open>C33. Closing undoes what opening did to the paddings and margins of a page with a scroll bar. On a page
  without one, nothing was saved, and closing clears the inline right padding of the body and of all fixed
  content, whatever the page had set there.\<close>

theorem scrollbar_roundtrip:
  assumes "page_wf (m_page w)" "m_saved w = (\<lambda>_. Map.empty)" "mv_body V \<notin> set (fixed_content (m_page w))"
  shows "m_saved (resetScrollbar V (setScrollbar V w)) = m_saved w
    \<and> m_style (resetScrollbar V (setScrollbar V w)) =
        (if m_isBodyOverflowing w then m_style w
         else (\<lambda>x a. if a = ''paddingRight'' \<and> x \<in> set (mv_body V # fixed_content (m_page w)) then PxText [] else m_style w x a))"
proof -
  have d: "distinct (fixed_content (m_page w))" "distinct (sticky_content (m_page w))"
    using assms(1) by (simp_all add: page_wf_def fixed_content_def sticky_content_def)
  have sub: "mv_body V \<notin> set (sticky_content (m_page w))"
    using assms(3) by (auto simp: fixed_content_def sticky_content_def)
  show ?thesis
    using d sub assms(2,3)
    by (simp add: fun_eq_iff resetScrollbar_def setScrollbar_def Let_def style_one saved_saves style_saves reset_paddings
        reset_margins)
qed

definition demo_nav_modal :: modal where
  "demo_nav_modal = demo_modal\<lparr>m_page := (bare_page (Node 0 [Node 1 [Node 2 []], Node 3 []]))\<lparr>class_list := (\<lambda>_. [])(3 := [''fixed-top''])\<rparr>,
     m_style := (\<lambda>_ _. PxText [])(3 := (\<lambda>_. PxText ''10px''))\<rparr>"

theorem scrollbar_roundtrip_witness:
  "m_style demo_nav_modal 3 ''paddingRight'' = PxText ''10px''
   \<and> m_style (resetScrollbar demo_modal_view (setScrollbar demo_modal_view demo_nav_modal)) 3 ''paddingRight'' = PxText []
   \<and> m_style (resetScrollbar demo_modal_view (setScrollbar demo_modal_view (demo_nav_modal\<lparr>m_isBodyOverflowing := True\<rparr>)))
       = m_style demo_nav_modal"
proof -
  have p: "page_wf (m_page demo_nav_modal)" "fixed_content (m_page demo_nav_modal) = [3]" "mv_body demo_modal_view = 0"
    "m_saved demo_nav_modal = (\<lambda>_. Map.empty)" "\<not> m_isBodyOverflowing demo_nav_modal"
    "m_style demo_nav_modal 3 ''paddingRight'' = PxText ''10px''"
    by (simp_all add: demo_nav_modal_def page_wf_def fixed_content_def hasClass_def demo_modal_view_def bare_page_def
        demo_modal_def demo_new_modal_def new_Modal_def modal_getConfig_def modal_default_types Let_def)
  show ?thesis
    using p scrollbar_roundtrip [of demo_nav_modal demo_modal_view]
      scrollbar_roundtrip [of "demo_nav_modal\<lparr>m_isBodyOverflowing := True\<rparr>" demo_modal_view] by simp
qed

section \<open>Opening and closing\<close>

lemma opening_backdrop_ends:
  assumes e: "m_element w = Some e" "m_dialog w = Some d" and fade: "hasClass ''fade'' (m_page w) e"
    and tr: "m_trans w = await_end b (After ThenShow) tr" "end_handlers tr = []"
  shows "\<exists>v tr'. modal_transitionend V b w = Inr v \<and> end_handlers tr' = []
    \<and> core v = core (w\<lparr>m_focusin := truthy (m_opt w ''focus'') \<or> m_focusin w, m_trans := await_end d DialogShown tr'\<rparr>)
    \<and> hasClass ''fade'' (m_page v) e \<and> hasClass ''show'' (m_page v) e"
proof -
  define tr' where "tr' = fst (dispatch_end b (m_trans w))"
  define u where "u = present_element e (w\<lparr>m_trans := tr'\<rparr>)"
  have cu: "core u = core (w\<lparr>m_focusin := truthy (m_opt w ''focus'') \<or> m_focusin w, m_trans := tr'\<rparr>)"
    unfolding u_def core_present by (simp add: core_def)
  have "modal_transitionend V b w = Inr (await d DialogShown u)"
    using e fade dispatch_one(1) [OF tr(2)] core_sel [OF cu]
    by (simp add: modal_transitionend_def case_prod_beta tr(1) tr'_def [unfolded tr(1), symmetric] modal_callback_def call_then_def
        showElement_def u_def [symmetric])
  moreover have "end_handlers tr' = []" unfolding tr'_def tr(1) by (rule dispatch_one(2) [OF tr(2)])
  moreover have "core (await d DialogShown u) = core (w\<lparr>m_focusin := truthy (m_opt w ''focus'') \<or> m_focusin w, m_trans := await_end d DialogShown tr'\<rparr>)"
    using core_sel [OF cu] by (simp add: core_def await_def)
  moreover have "hasClass ''fade'' (m_page (await d DialogShown u)) e" "hasClass ''show'' (m_page (await d DialogShown u)) e"
    using fade by (simp_all add: await_def u_def present_element_def)
  ultimately show ?thesis by blast
qed

lemma dialog_ends:
  assumes e: "m_element w = Some e" and tr: "m_trans w = await_end d DialogShown tr" "end_handlers tr = []"
  shows "\<exists>v tr'. modal_transitionend V d w = Inr v \<and> end_handlers tr' = []
    \<and> core v = core (w\<lparr>m_isTransitioning := False, m_trans := tr'\<rparr>)
    \<and> hasClass c (m_page v) e = hasClass c (m_page w) e \<and> fired (m_page v) = fired (m_page w) @ [(''shown.bs.modal'', e)]"
proof -
  define tr' where "tr' = fst (dispatch_end d (m_trans w))"
  have run: "snd (dispatch_end d (m_trans w)) = [DialogShown]" unfolding tr(1) by (rule dispatch_one(1) [OF tr(2)])
  have "end_handlers tr' = []" unfolding tr'_def tr(1) by (rule dispatch_one(2) [OF tr(2)])
  moreover obtain v where v: "transitionComplete (w\<lparr>m_trans := tr'\<rparr>) = Inr v"
    "core v = core ((w\<lparr>m_trans := tr'\<rparr>)\<lparr>m_isTransitioning := False\<rparr>)"
    using core_complete [of "w\<lparr>m_trans := tr'\<rparr>" e] e by auto
  moreover have "modal_transitionend V d w = Inr v"
    using v(1) by (simp add: modal_transitionend_def case_prod_beta run tr'_def [symmetric] modal_callback_def)
  moreover have "hasClass c (m_page v) e = hasClass c (m_page w) e" "fired (m_page v) = fired (m_page w) @ [(''shown.bs.modal'', e)]"
    using v(1) e by (auto simp: transitionComplete_def Let_def on_page_def split: if_splits)
  ultimately show ?thesis by (auto simp: core_def)
qed

lemma closing_backdrop_ends:
  assumes e: "m_element w = Some e" and b: "m_backdrop w = Some b"
    and tr: "m_trans w = await_end b (RemoveBackdrop (Some ThenHidden)) tr" "end_handlers tr = []"
  shows "\<exists>v tr'. modal_transitionend V b w = Inr v \<and> end_handlers tr' = []
    \<and> core v = core (w\<lparr>m_backdrop := None, m_backdrops := filter (\<lambda>x. x \<noteq> b) (m_backdrops w), m_trans := tr'\<rparr>)
    \<and> hasClass ''show'' (m_page v) e = hasClass ''show'' (m_page w) e \<and> \<not> hasClass ''modal-open'' (m_page v) (mv_body V)"
proof -
  define u where "u = removeBackdrop (w\<lparr>m_trans := fst (dispatch_end b (m_trans w))\<rparr>)"
  have run: "snd (dispatch_end b (m_trans w)) = [RemoveBackdrop (Some ThenHidden)]"
    unfolding tr(1) by (rule dispatch_one(1) [OF tr(2)])
  have "end_handlers (fst (dispatch_end b (m_trans w))) = []" unfolding tr(1) by (rule dispatch_one(2) [OF tr(2)])
  then have u: "core u = core (w\<lparr>m_backdrop := None, m_backdrops := filter (\<lambda>x. x \<noteq> b) (m_backdrops w), m_trans := m_trans u\<rparr>)"
    "end_handlers (m_trans u) = []" "m_page u = m_page w"
    using b by (simp_all add: u_def removeBackdrop_def core_def)
  define v where "v = trigger_hidden V e (resetScrollbar V (resetAdjustments e (on_page (removeClass ''modal-open'' (mv_body V)) u)))"
  have "afterHide V u = Inr v" using core_sel [OF u(1)] e by (simp add: afterHide_def v_def)
  then have "modal_transitionend V b w = Inr v"
    by (simp add: modal_transitionend_def case_prod_beta run modal_callback_def callbackRemove_def call_then_def u_def)
  moreover have "core v = core u" by (simp add: v_def)
  moreover have "hasClass ''show'' (m_page v) e = hasClass ''show'' (m_page w) e" "\<not> hasClass ''modal-open'' (m_page v) (mv_body V)"
    using u(3) by (simp_all add: v_def)
  ultimately show ?thesis using u by metis
qed

lemma modal_opens:
  assumes e: "m_element w = Some e" "m_dialog w = Some d" and fade: "hasClass ''fade'' (m_page w) e"
    and idle: "\<not> m_isShown w" "\<not> m_isTransitioning w" and quiet: "end_handlers (m_trans w) = []"
    and bk: "truthy (m_opt w ''backdrop'')" and fresh: "m_fresh w = b" "e < b"
    and prevents: "never_prevents prevents ''show.bs.modal''"
  shows "\<exists>v. bindE (modal_show V prevents w) (\<lambda>w. bindE (modal_transitionend V b w) (modal_transitionend V d)) = Inr v
    \<and> m_isShown v \<and> \<not> m_isTransitioning v \<and> m_element v = Some e \<and> m_backdrop v = Some b
    \<and> m_backdrops v = m_backdrops w @ [b] \<and> end_handlers (m_trans v) = [] \<and> hasClass ''fade'' (m_page v) e
    \<and> hasClass ''show'' (m_page v) e \<and> last (fired (m_page v)) = (''shown.bs.modal'', e)
    \<and> m_escape v \<and> m_resize v \<and> m_dismiss_click v \<and> m_backdrop_click v \<and> m_mousedown v
    \<and> (m_focusin v \<longleftrightarrow> truthy (m_opt w ''focus'') \<or> m_focusin w)"
proof -
  have "e \<noteq> m_fresh w" using fresh by simp
  from show_fades [OF e(1) fade idle prevents bk this, of V] fresh(1) obtain w1
    where w1: "modal_show V prevents w = Inr w1" and core1: "core w1 = core (w\<lparr>m_isShown := True, m_isTransitioning := True,
      m_escape := True, m_resize := True, m_dismiss_click := True, m_backdrop_click := True, m_mousedown := (m_dialog w \<noteq> None),
      m_fresh := Suc b, m_backdrop := Some b, m_backdrops := m_backdrops w @ [b], m_trans := await_end b (After ThenShow) (m_trans w)\<rparr>)"
    and p1: "hasClass ''fade'' (m_page w1) e" by auto
  note c1 = core_sel [OF core1, simplified]
  obtain w2 tr where w2: "modal_transitionend V b w1 = Inr w2" and tr: "end_handlers tr = []" and core2: "core w2 =
      core (w1\<lparr>m_focusin := truthy (m_opt w1 ''focus'') \<or> m_focusin w1, m_trans := await_end d DialogShown tr\<rparr>)"
    and p2: "hasClass ''fade'' (m_page w2) e" "hasClass ''show'' (m_page w2) e"
    using opening_backdrop_ends [of w1 e d b "m_trans w" V] e quiet c1 p1 by auto
  note c2 = core_sel [OF core2, simplified]
  have e2: "m_element w2 = Some e" "m_trans w2 = await_end d DialogShown tr" using c1 c2 e by simp_all
  obtain v tr' where v: "modal_transitionend V d w2 = Inr v" "end_handlers tr' = []" and corev:
    "core v = core (w2\<lparr>m_isTransitioning := False, m_trans := tr'\<rparr>)"
    and pv: "hasClass ''fade'' (m_page v) e" "fired (m_page v) = fired (m_page w2) @ [(''shown.bs.modal'', e)]"
    using dialog_ends [OF e2 tr, of V "''fade''"] p2(1) by auto
  have "hasClass ''show'' (m_page v) e" using dialog_ends [OF e2 tr, of V "''show''"] p2(2) v(1) by auto
  then show ?thesis using v pv w1 w2 c1 c2 e core_sel [OF corev, simplified] by auto
qed

lemma modal_closes:
  assumes e: "m_element w = Some e" and fade: "hasClass ''fade'' (m_page w) e"
    and shown: "m_isShown w" "\<not> m_isTransitioning w" and quiet: "end_handlers (m_trans w) = []"
    and b: "m_backdrop w = Some b" "b \<noteq> e" and prevents: "never_prevents prevents ''hide.bs.modal''"
  shows "\<exists>v. bindE (modal_hide V prevents w) (\<lambda>w. bindE (modal_transitionend V e w) (modal_transitionend V b)) = Inr v
    \<and> \<not> m_isShown v \<and> \<not> m_isTransitioning v \<and> m_backdrop v = None
    \<and> m_backdrops v = filter (\<lambda>x. x \<noteq> b) (m_backdrops w) \<and> end_handlers (m_trans v) = []
    \<and> \<not> hasClass ''show'' (m_page v) e \<and> \<not> hasClass ''modal-open'' (m_page v) (mv_body V)
    \<and> \<not> m_escape v \<and> \<not> m_resize v \<and> \<not> m_dismiss_click v \<and> \<not> m_backdrop_click v \<and> \<not> m_mousedown v
    \<and> \<not> m_focusin v"
proof -
  obtain w1 where w1: "modal_hide V prevents w = Inr w1" and core1: "core w1 = core (w\<lparr>m_isShown := False, m_isTransitioning := True,
      m_escape := False, m_resize := False, m_focusin := False, m_dismiss_click := False, m_backdrop_click := False,
      m_mousedown := False, m_trans := await_end e HideModal (m_trans w)\<rparr>)"
    and p1: "hasClass ''fade'' (m_page w1) e" "\<not> hasClass ''show'' (m_page w1) e"
    using hide_fades [OF e fade shown prevents] by blast
  note c1 = core_sel [OF core1, simplified]
  obtain w2 tr where w2: "modal_transitionend V e w1 = Inr w2" and tr: "end_handlers tr = []"
    and core2: "core w2 = core (w1\<lparr>m_isTransitioning := False, m_trans := await_end b (RemoveBackdrop (Some ThenHidden)) tr\<rparr>)"
    and p2: "\<not> hasClass ''show'' (m_page w2) e"
    using hide_ends [of w1 e b "m_trans w" V] e b quiet c1 p1 by auto
  note c2 = core_sel [OF core2, simplified]
  have e2: "m_element w2 = Some e" "m_backdrop w2 = Some b" "m_trans w2 = await_end b (RemoveBackdrop (Some ThenHidden)) tr"
    using c1 c2 e b by simp_all
  obtain v tr' where v: "modal_transitionend V b w2 = Inr v" "end_handlers tr' = []" and corev:
    "core v = core (w2\<lparr>m_backdrop := None, m_backdrops := filter (\<lambda>x. x \<noteq> b) (m_backdrops w2), m_trans := tr'\<rparr>)"
    and pv: "\<not> hasClass ''show'' (m_page v) e" "\<not> hasClass ''modal-open'' (m_page v) (mv_body V)"
    using closing_backdrop_ends [OF e2 tr, of V] p2 by auto
  then show ?thesis using w1 w2 c1 c2 core_sel [OF corev, simplified] by auto
qed

text \<open>C31. With no event prevented, a call of \<^verbatim>\<open>show\<close> on a modal that fades ends, after the transitions of
  backdrop and dialog, with the element and one new backdrop shown, the \<^verbatim>\<open>shown\<close> event as the last one, and the
  listeners for keys, resizing, clicks, the pressed button and, if wanted, the focus bound; a call of \<^verbatim>\<open>hide\<close> from
  there ends, after the transitions of element and backdrop, with the backdrops of the start, none of these listeners,
  no callback left and the mark on the body gone.\<close>

theorem modal_opens_then_closes:
  assumes "m_element w = Some e" "m_dialog w = Some d" "hasClass ''fade'' (m_page w) e"
    "\<not> m_isShown w" "\<not> m_isTransitioning w" "end_handlers (m_trans w) = []" "truthy (m_opt w ''backdrop'')"
    "e < m_fresh w" "m_fresh w = b" "b \<notin> set (m_backdrops w)"
    "never_prevents prevents ''show.bs.modal''" "never_prevents prevents ''hide.bs.modal''"
  shows "\<exists>v u. bindE (modal_show V prevents w) (\<lambda>w. bindE (modal_transitionend V b w) (modal_transitionend V d)) = Inr v
    \<and> m_isShown v \<and> \<not> m_isTransitioning v \<and> m_backdrops v = m_backdrops w @ [b] \<and> end_handlers (m_trans v) = []
    \<and> hasClass ''show'' (m_page v) e \<and> last (fired (m_page v)) = (''shown.bs.modal'', e)
    \<and> m_escape v \<and> m_resize v \<and> m_dismiss_click v \<and> m_backdrop_click v \<and> m_mousedown v
    \<and> (m_focusin v \<longleftrightarrow> truthy (m_opt w ''focus'') \<or> m_focusin w)
    \<and> bindE (modal_hide V prevents v) (\<lambda>w. bindE (modal_transitionend V e w) (modal_transitionend V b)) = Inr u
    \<and> \<not> m_isShown u \<and> \<not> m_isTransitioning u \<and> m_backdrop u = None \<and> m_backdrops u = m_backdrops w
    \<and> end_handlers (m_trans u) = [] \<and> \<not> hasClass ''show'' (m_page u) e \<and> \<not> hasClass ''modal-open'' (m_page u) (mv_body V)
    \<and> \<not> m_escape u \<and> \<not> m_resize u \<and> \<not> m_dismiss_click u \<and> \<not> m_backdrop_click u \<and> \<not> m_mousedown u
    \<and> \<not> m_focusin u"
proof -
  have "e < b" "b \<noteq> e" using assms(8,9) by simp_all
  obtain v where v: "bindE (modal_show V prevents w) (\<lambda>w. bindE (modal_transitionend V b w) (modal_transitionend V d)) = Inr v"
    "m_isShown v" "\<not> m_isTransitioning v" "m_element v = Some e" "m_backdrop v = Some b" "m_backdrops v = m_backdrops w @ [b]"
    "end_handlers (m_trans v) = []" "hasClass ''fade'' (m_page v) e" "hasClass ''show'' (m_page v) e"
    "last (fired (m_page v)) = (''shown.bs.modal'', e)" and on: "m_escape v" "m_resize v" "m_dismiss_click v" "m_backdrop_click v"
    "m_mousedown v" "m_focusin v \<longleftrightarrow> truthy (m_opt w ''focus'') \<or> m_focusin w"
    using modal_opens [OF assms(1-7,9) \<open>e < b\<close> assms(11)] by blast
  have "filter (\<lambda>x. x \<noteq> b) (m_backdrops v) = m_backdrops w" using v(6) assms(10) by (auto simp: filter_id_conv)
  then show ?thesis using v on modal_closes [OF v(4,8,2,3,7,5) \<open>b \<noteq> e\<close> assms(12), of V] by auto
qed

theorem modal_opens_then_closes_witness:
  "\<exists>v u. bindE (modal_show demo_modal_view (\<lambda>_ _ _. False) demo_modal)
        (\<lambda>w. bindE (modal_transitionend demo_modal_view 4 w) (modal_transitionend demo_modal_view 2)) = Inr v
    \<and> m_isShown v \<and> m_backdrops v = [4]
    \<and> bindE (modal_hide demo_modal_view (\<lambda>_ _ _. False) v)
        (\<lambda>w. bindE (modal_transitionend demo_modal_view 1 w) (modal_transitionend demo_modal_view 4)) = Inr u
    \<and> \<not> m_isShown u \<and> m_backdrops u = []"
proof -
  have t: "truthy (m_opt demo_modal ''backdrop'')" "m_dialog demo_modal = Some 2"
    by (simp add: demo_modal_def demo_new_modal_def new_Modal_def modal_getConfig_def modal_default_types Let_def, code_simp)+
  show ?thesis
    using modal_opens_then_closes [of demo_modal 1 2 4 "\<lambda>_ _ _. False" demo_modal_view] t
    by (simp add: demo_modal_sel never_prevents_def del: One_nat_def) blast
qed

end
