(* ===== verification/Bs_Dropdown.thy ===== *)
theory Bs_Dropdown
  imports Bs_Util
begin

text \<open>
  The component \<^verbatim>\<open>Dropdown\<close> of \<^verbatim>\<open>bootstrap.js\<close>: menus that open below a toggle and are placed by
  Popper, closed by clicks elsewhere and walked with the arrow keys. An element has at most one instance, in its
  jQuery data, and the state holds those of the whole page.
\<close>

section \<open>State\<close>

text \<open>What a popper is made with.\<close>

record popper_config =
  pc_placement :: string
  pc_offset :: popper_offset
  pc_flip :: jsval
  pc_boundaries :: jsval
  pc_applyStyle :: bool

text \<open>The poppers that are not destroyed yet, numbered in the order they are made.\<close>

record live_popper =
  lp_id :: nat
  lp_reference :: eid
  lp_menu :: eid
  lp_config :: popper_config

record dropdown =
  dd_menu :: "eid option"
  dd_popper :: "nat option"
  dd_config :: config
  dd_inNavbar :: bool
  dd_handlers :: nat

record menus =
  dp_page :: page
  dp_data :: "eid \<Rightarrow> dropdown option"
  dp_poppers :: "live_popper list"
  dp_next :: nat
  dp_scheduled :: "nat list"
  dp_noops :: nat

text \<open>What the page and the browser decide: \<open>de_override\<close> is the effect of the object
  \<^verbatim>\<open>popperConfig\<close> of an instance, \<open>de_popper\<close> tells whether \<^verbatim>\<open>Popper\<close> is loaded.\<close>

record dropdown_env =
  de_prevents :: prevents
  de_query :: query
  de_disabled :: "page \<Rightarrow> eid \<Rightarrow> bool"
  de_visible :: "page \<Rightarrow> eid \<Rightarrow> bool"
  de_dataset :: "eid \<Rightarrow> config"
  de_touch :: bool
  de_popper :: bool
  de_override :: "eid \<Rightarrow> popper_config \<Rightarrow> popper_config"

definition dropdown_Default :: config where
  "dropdown_Default = [''offset'' \<mapsto> JNum (Some 0), ''flip'' \<mapsto> JBool True, ''boundary'' \<mapsto> JStr ''scrollParent'',
     ''reference'' \<mapsto> JStr ''toggle'', ''display'' \<mapsto> JStr ''dynamic'', ''popperConfig'' \<mapsto> JNull]"

definition dropdown_DefaultType :: "(string \<times> string) list" where
  "dropdown_DefaultType = [(''offset'', ''(number|string|function)''), (''flip'', ''boolean''),
     (''boundary'', ''(string|element)''), (''reference'', ''(string|element)''), (''display'', ''string''),
     (''popperConfig'', ''(null|object)'')]"

definition dropdown_getConfig :: "dropdown_env \<Rightarrow> eid \<Rightarrow> config \<Rightarrow> bs_error + config" where
  "dropdown_getConfig E e config =
     (let c = extends (extends dropdown_Default (de_dataset E e)) config
      in bindE (typeCheckConfig c dropdown_DefaultType) (\<lambda>_. Inr c))"

section \<open>Elements around a toggle\<close>

definition toggles :: "page \<Rightarrow> eid list" where
  "toggles p = filter (\<lambda>x. attribute_of p x ''data-toggle'' = Some ''dropdown'') (order (doc_tree p))"

definition getParentFromElement :: "dropdown_env \<Rightarrow> page \<Rightarrow> eid \<Rightarrow> eid option" where
  "getParentFromElement E p e =
     (case Option.bind (getSelectorFromElement (de_query E) p e) (querySelector (de_query E) p) of
        Some x \<Rightarrow> Some x
      | None \<Rightarrow> parentNode p e)"

definition getMenuElement :: "dropdown_env \<Rightarrow> page \<Rightarrow> eid \<Rightarrow> eid option \<Rightarrow> eid option" where
  "getMenuElement E p e menu =
     (case menu of
        Some m \<Rightarrow> Some m
      | None \<Rightarrow> (case getParentFromElement E p e of
            None \<Rightarrow> None
          | Some x \<Rightarrow> find (hasClass ''dropdown-menu'' p) (descendants p x)))"

definition detectNavbar :: "page \<Rightarrow> eid \<Rightarrow> bool" where
  "detectNavbar p e = (closest p (hasClass ''navbar'' p) e \<noteq> None)"

text \<open>jQuery on an element that may be missing.\<close>

definition on_element :: "(eid \<Rightarrow> page \<Rightarrow> page) \<Rightarrow> eid option \<Rightarrow> page \<Rightarrow> page" where
  "on_element f x p = (case x of None \<Rightarrow> p | Some e \<Rightarrow> f e p)"

definition element_has :: "string \<Rightarrow> page \<Rightarrow> eid option \<Rightarrow> bool" where
  "element_has c p x = (case x of None \<Rightarrow> False | Some e \<Rightarrow> hasClass c p e)"

definition flipClass :: "string \<Rightarrow> eid \<Rightarrow> page \<Rightarrow> page" where
  "flipClass c e p = toggleClass c (\<not> hasClass c p e) e p"

definition is_disabled :: "dropdown_env \<Rightarrow> page \<Rightarrow> eid \<Rightarrow> bool" where
  "is_disabled E p e = (de_disabled E p e \<or> hasClass ''disabled'' p e)"

section \<open>Placement\<close>

definition getPlacement :: "page \<Rightarrow> eid \<Rightarrow> eid option \<Rightarrow> string" where
  "getPlacement p e menu =
     (let around = (\<lambda>c. element_has c p (parentNode p e));
          right = element_has ''dropdown-menu-right'' p menu
      in if around ''dropup'' then if right then ''top-end'' else ''top-start''
         else if around ''dropright'' then ''right-start''
         else if around ''dropleft'' then ''left-start''
         else if right then ''bottom-end'' else ''bottom-start'')"

definition getOffset :: "config \<Rightarrow> popper_offset" where
  "getOffset c = (if opt c ''offset'' = JFun then OffsetFn else OffsetValue (opt c ''offset''))"

text \<open>The function of \<^verbatim>\<open>offset.fn\<close> on the offsets of a popper, for the function of the option.\<close>

definition offset_fn :: "(('k \<rightharpoonup> 'v) \<Rightarrow> eid \<Rightarrow> ('k \<rightharpoonup> 'v) option) \<Rightarrow> eid \<Rightarrow> ('k \<rightharpoonup> 'v) \<Rightarrow> ('k \<rightharpoonup> 'v)" where
  "offset_fn f e offsets = offsets ++ (case f offsets e of None \<Rightarrow> Map.empty | Some m \<Rightarrow> m)"

definition getPopperConfig :: "dropdown_env \<Rightarrow> page \<Rightarrow> eid \<Rightarrow> dropdown \<Rightarrow> popper_config" where
  "getPopperConfig E p e i =
     (let c = \<lparr>pc_placement = getPlacement p e (dd_menu i), pc_offset = getOffset (dd_config i),
            pc_flip = opt (dd_config i) ''flip'', pc_boundaries = opt (dd_config i) ''boundary'',
            pc_applyStyle = (opt (dd_config i) ''display'' \<noteq> JStr ''static'')\<rparr>
      in if opt (dd_config i) ''popperConfig'' = JNull then c else de_override E e c)"

section \<open>Opening and closing\<close>

definition destroy_popper :: "nat option \<Rightarrow> menus \<Rightarrow> menus" where
  "destroy_popper k w =
     (case k of None \<Rightarrow> w | Some n \<Rightarrow> w\<lparr>dp_poppers := filter (\<lambda>c. lp_id c \<noteq> n) (dp_poppers w)\<rparr>)"

text \<open>The element a popper refers to. Popper's constructor runs an update, which reads the reference and the
  menu and throws when one of them is missing.\<close>

definition popper_reference :: "eid \<Rightarrow> eid option \<Rightarrow> jsval \<Rightarrow> eid option" where
  "popper_reference e parent reference =
     (if reference = JStr ''parent'' then parent
      else case reference of JElement x \<Rightarrow> Some x | JQuery (x # _) \<Rightarrow> Some x | _ \<Rightarrow> Some e)"

definition open_popper :: "dropdown_env \<Rightarrow> eid \<Rightarrow> dropdown \<Rightarrow> eid option \<Rightarrow> menus \<Rightarrow> bs_error + menus" where
  "open_popper E e i parent w =
     (if \<not> de_popper E then Inl NoPopper
      else
       (let w1 = (if opt (dd_config i) ''boundary'' \<noteq> JStr ''scrollParent''
              then w\<lparr>dp_page := on_element (addClass ''position-static'') parent (dp_page w)\<rparr> else w)
        in case (popper_reference e parent (opt (dd_config i) ''reference''), dd_menu i) of
            (Some r, Some m) \<Rightarrow>
              Inr (w1\<lparr>dp_poppers := dp_poppers w1 @ [\<lparr>lp_id = dp_next w1, lp_reference = r, lp_menu = m,
                    lp_config = getPopperConfig E (dp_page w1) e i\<rparr>],
                  dp_data := (dp_data w1)(e \<mapsto> i\<lparr>dd_popper := Some (dp_next w1)\<rparr>), dp_next := Suc (dp_next w1)\<rparr>)
          | _ \<Rightarrow> Inl NullReference))"

text \<open>The end of \<^verbatim>\<open>show\<close>.\<close>

definition reveal :: "dropdown_env \<Rightarrow> eid \<Rightarrow> eid option \<Rightarrow> eid option \<Rightarrow> menus \<Rightarrow> menus" where
  "reveal E e menu parent w =
     (let noop = de_touch E \<and> (case parent of None \<Rightarrow> True | Some x \<Rightarrow> closest (dp_page w) (hasClass ''navbar-nav'' (dp_page w)) x = None)
      in w\<lparr>dp_noops := (if noop then Suc (dp_noops w) else dp_noops w),
           dp_page := on_element (fire ''shown.bs.dropdown'') parent (on_element (flipClass ''show'') parent
             (on_element (flipClass ''show'') menu (setAttribute ''aria-expanded'' ''true'' e (focus e (dp_page w)))))\<rparr>)"

text \<open>The methods of the instance on an element; without an instance there is nothing to call.\<close>

definition dropdown_show :: "dropdown_env \<Rightarrow> bool \<Rightarrow> eid \<Rightarrow> menus \<Rightarrow> bs_error + menus" where
  "dropdown_show E usePopper e w =
     (case dp_data w e of
        None \<Rightarrow> Inr w
      | Some i \<Rightarrow>
         (if is_disabled E (dp_page w) e \<or> element_has ''show'' (dp_page w) (dd_menu i) then Inr w
          else
           (let parent = getParentFromElement E (dp_page w) e;
                p1 = on_element (fire ''show.bs.dropdown'') parent (dp_page w);
                w1 = w\<lparr>dp_page := p1\<rparr>
            in if (case parent of None \<Rightarrow> False | Some x \<Rightarrow> de_prevents E ''show.bs.dropdown'' x p1) then Inr w1
               else bindE (if \<not> dd_inNavbar i \<and> usePopper then open_popper E e i parent w1 else Inr w1)
                 (\<lambda>w2. Inr (reveal E e (dd_menu i) parent w2)))))"

definition dropdown_hide :: "dropdown_env \<Rightarrow> eid \<Rightarrow> menus \<Rightarrow> menus" where
  "dropdown_hide E e w =
     (case dp_data w e of
        None \<Rightarrow> w
      | Some i \<Rightarrow>
         (if is_disabled E (dp_page w) e \<or> \<not> element_has ''show'' (dp_page w) (dd_menu i) then w
          else
           (let parent = getParentFromElement E (dp_page w) e;
                p1 = on_element (fire ''hide.bs.dropdown'') parent (dp_page w);
                w1 = w\<lparr>dp_page := p1\<rparr>
            in if (case parent of None \<Rightarrow> False | Some x \<Rightarrow> de_prevents E ''hide.bs.dropdown'' x p1) then w1
               else (destroy_popper (dd_popper i) w1)\<lparr>dp_page := on_element (fire ''hidden.bs.dropdown'') parent
                 (on_element (flipClass ''show'') parent (on_element (flipClass ''show'') (dd_menu i) p1))\<rparr>)))"

definition dropdown_dispose :: "eid \<Rightarrow> menus \<Rightarrow> menus" where
  "dropdown_dispose e w =
     (case dp_data w e of
        None \<Rightarrow> w
      | Some i \<Rightarrow> destroy_popper (dd_popper i) (w\<lparr>dp_data := (dp_data w)(e := None)\<rparr>))"

definition dropdown_update :: "eid \<Rightarrow> menus \<Rightarrow> menus" where
  "dropdown_update e w =
     (case dp_data w e of
        None \<Rightarrow> w
      | Some i \<Rightarrow>
         (let w1 = w\<lparr>dp_data := (dp_data w)(e \<mapsto> i\<lparr>dd_inNavbar := detectNavbar (dp_page w) e\<rparr>)\<rparr>
          in case dd_popper i of None \<Rightarrow> w1 | Some k \<Rightarrow> w1\<lparr>dp_scheduled := dp_scheduled w1 @ [k]\<rparr>))"

section \<open>Closing all menus\<close>

text \<open>A click or a released key, with \<^verbatim>\<open>which\<close> and the target.\<close>

datatype menu_event = ClickEvent nat eid | KeyUpEvent nat eid

text \<open>\<^verbatim>\<open>/input|textarea/i\<close> on the name of an element.\<close>

definition text_entry :: "page \<Rightarrow> eid \<Rightarrow> bool" where
  "text_entry p x = (let s = toLowerCase (node_name p x) in js_contains s ''input'' \<or> js_contains s ''textarea'')"

definition ignored_event :: "menu_event option \<Rightarrow> bool" where
  "ignored_event event =
     (case event of
        None \<Rightarrow> False
      | Some (ClickEvent which _) \<Rightarrow> which = 3
      | Some (KeyUpEvent which _) \<Rightarrow> which = 3 \<or> which \<noteq> 9)"

definition inside_parent :: "page \<Rightarrow> eid option \<Rightarrow> eid \<Rightarrow> bool" where
  "inside_parent p parent target = (case parent of None \<Rightarrow> False | Some x \<Rightarrow> target \<in> set (descendants p x))"

definition stays_open :: "page \<Rightarrow> menu_event option \<Rightarrow> eid option \<Rightarrow> bool" where
  "stays_open p event parent =
     (case event of
        None \<Rightarrow> False
      | Some (ClickEvent _ target) \<Rightarrow> text_entry p target \<and> inside_parent p parent target
      | Some (KeyUpEvent which target) \<Rightarrow> which = 9 \<and> inside_parent p parent target)"

definition clear_menu :: "dropdown_env \<Rightarrow> menu_event option \<Rightarrow> eid \<Rightarrow> menus \<Rightarrow> menus" where
  "clear_menu E event t w =
     (let parent = getParentFromElement E (dp_page w) t
      in case dp_data w t of
          None \<Rightarrow> w
        | Some context \<Rightarrow>
           (if \<not> element_has ''show'' (dp_page w) parent \<or> stays_open (dp_page w) event parent then w
            else
             (let p1 = on_element (fire ''hide.bs.dropdown'') parent (dp_page w);
                  w1 = w\<lparr>dp_page := p1\<rparr>
              in if (case parent of None \<Rightarrow> False | Some x \<Rightarrow> de_prevents E ''hide.bs.dropdown'' x p1) then w1
                 else (destroy_popper (dd_popper context) w1)\<lparr>
                   dp_noops := (if de_touch E then 0 else dp_noops w1),
                   dp_page := on_element (fire ''hidden.bs.dropdown'') parent (on_element (removeClass ''show'') parent
                     (on_element (removeClass ''show'') (dd_menu context) (setAttribute ''aria-expanded'' ''false'' t p1)))\<rparr>)))"

definition clearMenus :: "dropdown_env \<Rightarrow> menu_event option \<Rightarrow> menus \<Rightarrow> menus" where
  "clearMenus E event w = (if ignored_event event then w else fold (clear_menu E event) (toggles (dp_page w)) w)"

definition dropdown_toggle :: "dropdown_env \<Rightarrow> eid \<Rightarrow> menus \<Rightarrow> bs_error + menus" where
  "dropdown_toggle E e w =
     (case dp_data w e of
        None \<Rightarrow> Inr w
      | Some i \<Rightarrow>
         (if is_disabled E (dp_page w) e then Inr w
          else if element_has ''show'' (dp_page w) (dd_menu i) then Inr (clearMenus E None w)
          else dropdown_show E True e (clearMenus E None w)))"

section \<open>Instances\<close>

definition new_Dropdown :: "dropdown_env \<Rightarrow> eid \<Rightarrow> config \<Rightarrow> menus \<Rightarrow> bs_error + menus" where
  "new_Dropdown E e config w =
     bindE (dropdown_getConfig E e config) (\<lambda>c.
       Inr (w\<lparr>dp_data := (dp_data w)(e \<mapsto> \<lparr>dd_menu = getMenuElement E (dp_page w) e None, dd_popper = None, dd_config = c,
         dd_inNavbar = detectNavbar (dp_page w) e, dd_handlers = 1\<rparr>)\<rparr>))"

datatype dropdown_arg = DropdownConfig "config option" | DropdownMethod string

definition edit_dropdown :: "eid \<Rightarrow> (dropdown \<Rightarrow> dropdown) \<Rightarrow> menus \<Rightarrow> menus" where
  "edit_dropdown e f w = w\<lparr>dp_data := (dp_data w)(e := map_option f (dp_data w e))\<rparr>"

definition dropdown_method :: "dropdown_env \<Rightarrow> string \<Rightarrow> eid \<Rightarrow> menus \<Rightarrow> bs_error + menus" where
  "dropdown_method E m e w =
     (if m = ''toggle'' then dropdown_toggle E e w
      else if m = ''show'' then dropdown_show E False e w
      else if m = ''hide'' then Inr (dropdown_hide E e w)
      else if m = ''dispose'' then Inr (dropdown_dispose e w)
      else if m = ''update'' then Inr (dropdown_update e w)
      else if m = ''_addEventListeners'' then Inr (edit_dropdown e (\<lambda>i. i\<lparr>dd_handlers := Suc (dd_handlers i)\<rparr>) w)
      else if m = ''_getMenuElement'' then
        Inr (edit_dropdown e (\<lambda>i. i\<lparr>dd_menu := getMenuElement E (dp_page w) e (dd_menu i)\<rparr>) w)
      else if m = ''_getConfig'' then bindE (dropdown_getConfig E e Map.empty) (\<lambda>_. Inr w)
      else if m \<in> {''_getPlacement'', ''_detectNavbar'', ''_getOffset'', ''_getPopperConfig''} then Inr w
      else if m \<in> {''_element'', ''_popper'', ''_config'', ''_menu'', ''_inNavbar''} then Inl (NotAFunction m)
      else Inl (NoMethod m))"

definition dropdown_jQueryInterface :: "dropdown_env \<Rightarrow> dropdown_arg \<Rightarrow> eid \<Rightarrow> menus \<Rightarrow> bs_error + menus" where
  "dropdown_jQueryInterface E arg e w =
     bindE (if dp_data w e = None
            then new_Dropdown E e (case arg of DropdownConfig (Some c) \<Rightarrow> c | _ \<Rightarrow> Map.empty) w else Inr w)
       (\<lambda>w1. case arg of DropdownConfig _ \<Rightarrow> Inr w1 | DropdownMethod m \<Rightarrow> dropdown_method E m e w1)"

section \<open>Clicks and keys\<close>

text \<open>The handlers of an instance run one after the other.\<close>

fun toggle_times :: "dropdown_env \<Rightarrow> nat \<Rightarrow> eid \<Rightarrow> menus \<Rightarrow> bs_error + menus" where
  "toggle_times E 0 e w = Inr w"
| "toggle_times E (Suc n) e w = bindE (dropdown_toggle E e w) (toggle_times E n e)"

definition form_child :: "page \<Rightarrow> eid \<Rightarrow> bool" where
  "form_child p x = (node_name p x = ''FORM'' \<and> (\<exists>a \<in> set (parents p x). hasClass ''dropdown'' p a))"

text \<open>A click travels up from its target: the nearest instance handles and stops it; otherwise the nearest
  toggle or form at the document does; otherwise all menus close.\<close>

definition dropdown_click :: "dropdown_env \<Rightarrow> nat \<Rightarrow> eid \<Rightarrow> menus \<Rightarrow> bs_error + menus" where
  "dropdown_click E which target w =
     (let p = dp_page w; path = target # parents p target
      in case find (\<lambda>x. dp_data w x \<noteq> None) path of
          Some x \<Rightarrow> (case dp_data w x of None \<Rightarrow> Inr w | Some i \<Rightarrow> toggle_times E (dd_handlers i) x w)
        | None \<Rightarrow>
           (case find (\<lambda>x. x \<in> set (toggles p) \<or> form_child p x) path of
              Some x \<Rightarrow> if x \<in> set (toggles p) then dropdown_jQueryInterface E (DropdownMethod ''toggle'') x w else Inr w
            | None \<Rightarrow> Inr (clearMenus E (Some (ClickEvent which target)) w)))"

definition dropdown_keyup :: "dropdown_env \<Rightarrow> nat \<Rightarrow> eid \<Rightarrow> menus \<Rightarrow> menus" where
  "dropdown_keyup E which target w = clearMenus E (Some (KeyUpEvent which target)) w"

text \<open>\<^verbatim>\<open>REGEXP_KEYDOWN\<close> looks for the codes anywhere in the printed code of the key.\<close>

definition keydown_code :: "nat \<Rightarrow> bool" where
  "keydown_code which = (\<exists>c \<in> {38, 40, 27}. js_contains (show_nat which) (show_nat c))"

definition menu_items :: "dropdown_env \<Rightarrow> page \<Rightarrow> eid \<Rightarrow> eid list" where
  "menu_items E p parent =
     filter (de_visible E p)
       (filter (\<lambda>x. hasClass ''dropdown-item'' p x \<and> \<not> hasClass ''disabled'' p x \<and> \<not> de_disabled E p x
            \<and> (\<exists>a \<in> set (parents p x). hasClass ''dropdown-menu'' p a))
         (descendants p parent))"

text \<open>\<^verbatim>\<open>indexOf\<close> and the index the focus moves to.\<close>

fun item_index :: "eid \<Rightarrow> eid list \<Rightarrow> int" where
  "item_index x [] = -1"
| "item_index x (y # ys) = (if x = y then 0 else (let k = item_index x ys in if k = -1 then -1 else k + 1))"

definition moved_index :: "nat \<Rightarrow> int \<Rightarrow> int \<Rightarrow> int" where
  "moved_index which n index =
     (let index1 = (if which = 38 \<and> index > 0 then index - 1 else index);
          index2 = (if which = 40 \<and> index1 < n - 1 then index1 + 1 else index1)
      in if index2 < 0 then 0 else index2)"

definition key_skipped :: "page \<Rightarrow> nat \<Rightarrow> eid \<Rightarrow> bool" where
  "key_skipped p which target =
     (if text_entry p target
      then which = 32 \<or> which \<noteq> 27 \<and> (which \<noteq> 40 \<and> which \<noteq> 38 \<or> closest p (hasClass ''dropdown-menu'' p) target \<noteq> None)
      else \<not> keydown_code which)"

text \<open>The key handler on a toggle or a menu; the second result tells whether the default action is
  prevented.\<close>

definition dataApiKeydownHandler :: "dropdown_env \<Rightarrow> eid \<Rightarrow> nat \<Rightarrow> eid \<Rightarrow> menus \<Rightarrow> (bs_error + menus) \<times> bool" where
  "dataApiKeydownHandler E this which target w =
     (let p = dp_page w; parent = getParentFromElement E p this; isActive = element_has ''show'' p parent
      in if key_skipped p which target \<or> is_disabled E p this \<or> \<not> isActive \<and> which = 27 then (Inr w, False)
         else if \<not> isActive \<or> which = 27 \<or> which = 32
         then
          (let w1 = (if which = 27
                then w\<lparr>dp_page := on_element focus (case parent of None \<Rightarrow> None
                  | Some x \<Rightarrow> find (\<lambda>y. y \<in> set (toggles p)) (descendants p x)) p\<rparr> else w)
           in (dropdown_click E 1 this w1, True))
         else
          (let items = (case parent of None \<Rightarrow> [] | Some x \<Rightarrow> menu_items E p x)
           in if items = [] then (Inr w, True)
              else (Inr (w\<lparr>dp_page := focus (items ! nat (moved_index which (int (length items)) (item_index target items))) p\<rparr>), True)))"

end
