(* ===== verification/Bs_Dropdown_Live.thy ===== *)
theory Bs_Dropdown_Live
  imports Bs_Dropdown
begin

text \<open>
  What holds of the dropdowns of a page on which every toggle has a parent and a menu of its own: menus and
  parents are marked together, a popper lives exactly as long as its menu may be open, one click leaves one
  menu open, and the arrow keys stay among the items.
\<close>

section \<open>Pages with a menu per toggle\<close>

definition menu_of :: "page \<Rightarrow> eid \<Rightarrow> eid option" where
  "menu_of p t = Option.bind (parentNode p t) (\<lambda>x. find (hasClass ''dropdown-menu'' p) (descendants p x))"

definition own_menus :: "page \<Rightarrow> bool" where
  "own_menus p \<longleftrightarrow>
     (\<forall>t \<in> set (toggles p). attribute_of p t ''data-target'' = None \<and> attribute_of p t ''href'' = None
        \<and> parentNode p t \<noteq> None \<and> menu_of p t \<noteq> None)
     \<and> inj_on (parentNode p) (set (toggles p)) \<and> inj_on (menu_of p) (set (toggles p))
     \<and> (\<forall>t \<in> set (toggles p). \<forall>u \<in> set (toggles p). menu_of p t \<noteq> parentNode p u)"

text \<open>The empty text is no selector, so the query fails on it.\<close>

definition plain_query :: "dropdown_env \<Rightarrow> bool" where
  "plain_query E \<longleftrightarrow> (\<forall>p. de_query E p [] = None)"

lemma parent_plain:
  "plain_query E \<Longrightarrow> own_menus p \<Longrightarrow> t \<in> set (toggles p) \<Longrightarrow> getParentFromElement E p t = parentNode p t"
  by (simp add: plain_query_def own_menus_def getParentFromElement_def getSelectorFromElement_def)

lemma menu_plain:
  "plain_query E \<Longrightarrow> own_menus p \<Longrightarrow> t \<in> set (toggles p) \<Longrightarrow> getMenuElement E p t None = menu_of p t"
  by (simp add: getMenuElement_def parent_plain menu_of_def split: option.splits)

text \<open>Changes of a page that keep its menus where they are.\<close>

definition same_menus :: "page \<Rightarrow> page \<Rightarrow> bool" where
  "same_menus p q \<longleftrightarrow> doc_tree q = doc_tree p \<and> hasClass ''dropdown-menu'' q = hasClass ''dropdown-menu'' p
     \<and> hasClass ''disabled'' q = hasClass ''disabled'' p
     \<and> (\<forall>x a. a \<in> {''data-toggle'', ''data-target'', ''href''} \<longrightarrow> attribute_of q x a = attribute_of p x a)"

lemma same_menus_refl [simp]: "same_menus p p"
  by (simp add: same_menus_def)

lemma same_menus_trans: "same_menus p q \<Longrightarrow> same_menus q r \<Longrightarrow> same_menus p r"
  by (simp add: same_menus_def)

lemma same_menus_ops:
  assumes "same_menus p q"
  shows "same_menus p (fire ev e q)" "same_menus p (focus e q)"
    "same_menus p (setAttribute ''aria-expanded'' v e q)"
    "c \<notin> {''dropdown-menu'', ''disabled''} \<Longrightarrow> same_menus p (addClass c e q)"
    "c \<notin> {''dropdown-menu'', ''disabled''} \<Longrightarrow> same_menus p (removeClass c e q)"
    "c \<notin> {''dropdown-menu'', ''disabled''} \<Longrightarrow> same_menus p (flipClass c e q)"
  using assms by (auto simp: same_menus_def flipClass_def fun_eq_iff)

lemma same_menus_on [intro]:
  "(\<And>e q. same_menus p q \<Longrightarrow> same_menus p (f e q)) \<Longrightarrow> same_menus p q \<Longrightarrow> same_menus p (on_element f x q)"
  by (simp add: on_element_def split: option.splits)

lemma same_menusD:
  assumes "same_menus p q"
  shows "toggles q = toggles p" "parentNode q = parentNode p" "menu_of q = menu_of p" "own_menus q = own_menus p"
proof -
  have d: "doc_tree q = doc_tree p" using assms by (simp add: same_menus_def)
  show t: "toggles q = toggles p" using assms by (simp add: same_menus_def toggles_def)
  show n: "parentNode q = parentNode p" by (rule tree_cong(5) [OF d])
  have "hasClass ''dropdown-menu'' q = hasClass ''dropdown-menu'' p" using assms by (simp add: same_menus_def)
  then show m: "menu_of q = menu_of p" unfolding menu_of_def by (simp add: n tree_cong(2) [OF d])
  show "own_menus q = own_menus p" using assms by (simp add: own_menus_def t n m same_menus_def)
qed

section \<open>The invariant\<close>

definition shown_parent :: "menus \<Rightarrow> eid \<Rightarrow> bool" where
  "shown_parent w t = element_has ''show'' (dp_page w) (parentNode (dp_page w) t)"

definition shown_menu :: "menus \<Rightarrow> eid \<Rightarrow> bool" where
  "shown_menu w t = element_has ''show'' (dp_page w) (menu_of (dp_page w) t)"

text \<open>The popper an element knows.\<close>

definition known :: "menus \<Rightarrow> eid \<Rightarrow> nat option" where
  "known w t = Option.bind (dp_data w t) dd_popper"

definition poppers_ok :: "menus \<Rightarrow> bool" where
  "poppers_ok w \<longleftrightarrow> distinct (map lp_id (dp_poppers w)) \<and> (\<forall>t k. known w t = Some k \<longrightarrow> k < dp_next w)
     \<and> (\<forall>t u k. known w t = Some k \<and> known w u = Some k \<longrightarrow> t = u)
     \<and> (\<forall>k \<in> lp_id ` set (dp_poppers w). \<exists>t. known w t = Some k \<and> shown_menu w t)"

definition menus_inv :: "menus \<Rightarrow> bool" where
  "menus_inv w \<longleftrightarrow> own_menus (dp_page w) \<and> (\<forall>t \<in> set (toggles (dp_page w)). shown_parent w t \<longleftrightarrow> shown_menu w t)
     \<and> (\<forall>t i. dp_data w t = Some i \<longrightarrow> t \<in> set (toggles (dp_page w)) \<and> dd_menu i = menu_of (dp_page w) t)
     \<and> poppers_ok w"

text \<open>A step that opens and closes nothing, and one that closes the menu of a toggle.\<close>

definition still :: "menus \<Rightarrow> menus \<Rightarrow> bool" where
  "still w v \<longleftrightarrow> same_menus (dp_page w) (dp_page v) \<and> hasClass ''show'' (dp_page v) = hasClass ''show'' (dp_page w)
     \<and> dp_data v = dp_data w \<and> dp_poppers v = dp_poppers w \<and> dp_next v = dp_next w"

definition closes :: "eid \<Rightarrow> menus \<Rightarrow> menus \<Rightarrow> bool" where
  "closes t w v \<longleftrightarrow> same_menus (dp_page w) (dp_page v)
     \<and> (\<forall>x. hasClass ''show'' (dp_page v) x \<longleftrightarrow> hasClass ''show'' (dp_page w) x
          \<and> parentNode (dp_page w) t \<noteq> Some x \<and> menu_of (dp_page w) t \<noteq> Some x)
     \<and> dp_data v = dp_data w \<and> dp_poppers v = filter (\<lambda>c. known w t \<noteq> Some (lp_id c)) (dp_poppers w) \<and> dp_next v = dp_next w"

lemma still_shown:
  assumes "still w v"
  shows "shown_parent v = shown_parent w" "shown_menu v = shown_menu w" "known v = known w"
proof -
  note D = same_menusD [of "dp_page w" "dp_page v"]
  show "shown_parent v = shown_parent w" "shown_menu v = shown_menu w" "known v = known w"
    using assms D by (auto simp: still_def shown_parent_def shown_menu_def known_def element_has_def fun_eq_iff split: option.splits)
qed

lemma still_inv: "still w v \<Longrightarrow> menus_inv w \<Longrightarrow> menus_inv v"
  using still_shown [of w v] same_menusD [of "dp_page w" "dp_page v"] by (simp add: still_def menus_inv_def poppers_ok_def)

lemma closes_shown:
  assumes "closes t w v" "menus_inv w" "t \<in> set (toggles (dp_page w))" "u \<in> set (toggles (dp_page w))"
  shows "shown_parent v u \<longleftrightarrow> u \<noteq> t \<and> shown_parent w u" "shown_menu v u \<longleftrightarrow> u \<noteq> t \<and> shown_menu w u"
proof -
  have own: "own_menus (dp_page w)" and same: "same_menus (dp_page w) (dp_page v)" and sh: "\<And>x. hasClass ''show'' (dp_page v) x \<longleftrightarrow>
      hasClass ''show'' (dp_page w) x \<and> parentNode (dp_page w) t \<noteq> Some x \<and> menu_of (dp_page w) t \<noteq> Some x"
    using assms(1,2) by (simp_all add: closes_def menus_inv_def)
  obtain x m where "parentNode (dp_page w) u = Some x" "menu_of (dp_page w) u = Some m"
    using own assms(4) by (auto simp: own_menus_def)
  moreover have "parentNode (dp_page w) t = parentNode (dp_page w) u \<longleftrightarrow> t = u" "menu_of (dp_page w) t = menu_of (dp_page w) u \<longleftrightarrow> t = u"
    "menu_of (dp_page w) t \<noteq> parentNode (dp_page w) u" "menu_of (dp_page w) u \<noteq> parentNode (dp_page w) t"
    using own assms(3,4) by (auto simp: own_menus_def inj_on_def)
  ultimately show "shown_parent v u \<longleftrightarrow> u \<noteq> t \<and> shown_parent w u" "shown_menu v u \<longleftrightarrow> u \<noteq> t \<and> shown_menu w u"
    by (auto simp: shown_parent_def shown_menu_def element_has_def sh same_menusD [OF same])
qed

lemma known_toggle: "menus_inv w \<Longrightarrow> known w t = Some k \<Longrightarrow> t \<in> set (toggles (dp_page w))"
  by (auto simp: menus_inv_def known_def bind_eq_Some_conv)

lemma closes_inv:
  assumes c: "closes t w v" and inv: "menus_inv w" and t: "t \<in> set (toggles (dp_page w))"
  shows "menus_inv v"
proof -
  have same: "same_menus (dp_page w) (dp_page v)" and data: "dp_data v = dp_data w" and nx: "dp_next v = dp_next w"
    and pops: "dp_poppers v = filter (\<lambda>c. known w t \<noteq> Some (lp_id c)) (dp_poppers w)"
    using c by (simp_all add: closes_def)
  have known: "known v = known w" by (simp add: fun_eq_iff known_def data)
  have "\<exists>u. known w u = Some k \<and> shown_menu v u" if "k \<in> lp_id ` set (dp_poppers v)" for k
  proof -
    have "k \<in> lp_id ` set (dp_poppers w)" "known w t \<noteq> Some k" using that by (auto simp: pops)
    moreover obtain u where "known w u = Some k" "shown_menu w u"
      using inv calculation(1) unfolding menus_inv_def poppers_ok_def by blast
    ultimately have u: "known w u = Some k" "shown_menu w u" "u \<noteq> t" by auto
    then show ?thesis using closes_shown(2) [OF c inv t known_toggle [OF inv u(1)]] by blast
  qed
  moreover have "distinct (map lp_id (dp_poppers v))"
    using inv by (simp add: pops menus_inv_def poppers_ok_def distinct_map_filter)
  ultimately have "poppers_ok v" using inv by (simp add: poppers_ok_def menus_inv_def known nx)
  then show ?thesis
    using inv closes_shown [OF c inv t] by (auto simp: menus_inv_def same_menusD [OF same] data)
qed

section \<open>The operations\<close>

lemma hasClass_on_element:
  "hasClass c (on_element (fire ev) x p) = hasClass c p"
  "hasClass c (on_element (addClass d) x p) y \<longleftrightarrow> hasClass c p y \<or> c = d \<and> x = Some y"
  "hasClass c (on_element (removeClass d) x p) y \<longleftrightarrow> hasClass c p y \<and> \<not> (c = d \<and> x = Some y)"
  "hasClass c (on_element (flipClass d) x p) y \<longleftrightarrow> (if c = d \<and> x = Some y then \<not> hasClass c p y else hasClass c p y)"
  by (auto simp: on_element_def flipClass_def fun_eq_iff split: option.splits)

lemma focus_on_ops [simp]:
  "focus_on (fire ev e p) = focus_on p" "focus_on (focus e p) = Some e" "focus_on (setAttribute a v e p) = focus_on p"
  "focus_on (addClass c e p) = focus_on p" "focus_on (removeClass c e p) = focus_on p" "focus_on (toggleClass c b e p) = focus_on p"
  by (simp_all add: fire_def focus_def setAttribute_def addClass_def removeClass_def toggleClass_def)

lemma same_menus_lift:
  assumes "same_menus p q"
  shows "same_menus p (on_element (fire ev) x q)" "same_menus p (on_element focus x q)"
    "same_menus p (on_element (addClass ''position-static'') x q)"
    "same_menus p (on_element (removeClass ''show'') x q)" "same_menus p (on_element (flipClass ''show'') x q)"
  using assms by (simp_all add: on_element_def same_menus_ops split: option.splits)

lemma destroy_simps [simp]:
  "dp_page (destroy_popper k w) = dp_page w" "dp_data (destroy_popper k w) = dp_data w" "dp_next (destroy_popper k w) = dp_next w"
  "dp_poppers (destroy_popper k w) = filter (\<lambda>c. k \<noteq> Some (lp_id c)) (dp_poppers w)"
  "dp_noops (destroy_popper k w) = dp_noops w"
  by (auto simp: destroy_popper_def split: option.splits intro: filter_cong)

lemma fire_still: "still w (w\<lparr>dp_page := on_element (fire ev) x (dp_page w)\<rparr>)"
  by (simp add: still_def same_menus_lift hasClass_on_element)

lemma still_refl [simp]: "still w w"
  by (simp add: still_def)

text \<open>Closing one menu, from \<^verbatim>\<open>_clearMenus\<close> and from \<^verbatim>\<open>hide\<close>.\<close>

lemma clear_menu_cases:
  assumes E: "plain_query E" and inv: "menus_inv w" and t: "t \<in> set (toggles (dp_page w))"
  shows "still w (clear_menu E event t w) \<or> closes t w (clear_menu E event t w)"
    "never_prevents (de_prevents E) ''hide.bs.dropdown'' \<Longrightarrow> event = None \<Longrightarrow> dp_data w t \<noteq> None \<Longrightarrow>
       \<not> shown_menu (clear_menu E event t w) t"
proof -
  have par: "getParentFromElement E (dp_page w) t = parentNode (dp_page w) t"
    using inv by (intro parent_plain [OF E _ t]) (simp add: menus_inv_def)
  define p1 where "p1 = on_element (fire ''hide.bs.dropdown'') (parentNode (dp_page w) t) (dp_page w)"
  define act where "act \<longleftrightarrow> dp_data w t \<noteq> None \<and> shown_parent w t \<and> \<not> stays_open (dp_page w) event (parentNode (dp_page w) t)"
  define stop where "stop \<longleftrightarrow> (case parentNode (dp_page w) t of None \<Rightarrow> False | Some x \<Rightarrow> de_prevents E ''hide.bs.dropdown'' x p1)"
  let ?w = "clear_menu E event t w"
  have idle: "still w ?w" if "\<not> act \<or> stop"
    using that fire_still [of w "''hide.bs.dropdown''" "parentNode (dp_page w) t"]
    by (auto simp: clear_menu_def par Let_def p1_def [symmetric] act_def stop_def shown_parent_def split: option.splits)
  moreover have fin: "closes t w ?w" if a: "act" "\<not> stop"
  proof -
    obtain i where i: "dp_data w t = Some i" "dd_menu i = menu_of (dp_page w) t" using a inv by (auto simp: act_def menus_inv_def)
    have "?w = (destroy_popper (dd_popper i) (w\<lparr>dp_page := p1\<rparr>))\<lparr>dp_noops := (if de_touch E then 0 else dp_noops w),
        dp_page := on_element (fire ''hidden.bs.dropdown'') (parentNode (dp_page w) t) (on_element (removeClass ''show'') (parentNode (dp_page w) t)
          (on_element (removeClass ''show'') (dd_menu i) (setAttribute ''aria-expanded'' ''false'' t p1)))\<rparr>"
      using a i by (simp add: clear_menu_def par Let_def p1_def [symmetric] act_def stop_def shown_parent_def)
    then show ?thesis
      using i by (auto simp: closes_def known_def p1_def same_menus_lift same_menus_ops hasClass_on_element)
  qed
  ultimately show "still w ?w \<or> closes t w ?w" by blast
  show "\<not> shown_menu ?w t" if "never_prevents (de_prevents E) ''hide.bs.dropdown''" "event = None" "dp_data w t \<noteq> None"
  proof (cases "shown_parent w t")
    case True
    then have "act" "\<not> stop" using that by (auto simp: act_def stop_def stays_open_def split: option.splits)
    then show ?thesis using closes_shown(2) [OF fin inv t t] by simp
  next
    case False
    then have "still w ?w" using idle by (simp add: act_def)
    then show ?thesis using False inv t still_shown(2) by (simp add: menus_inv_def)
  qed
qed

lemma less_shown:
  assumes "still w v \<or> closes t w v" "menus_inv w" "t \<in> set (toggles (dp_page w))"
  shows "menus_inv v" "same_menus (dp_page w) (dp_page v)" "dp_data v = dp_data w" "dp_next v = dp_next w"
    "u \<in> set (toggles (dp_page w)) \<Longrightarrow> shown_menu v u \<Longrightarrow> shown_menu w u"
proof -
  show "menus_inv v" using assms(1) still_inv [OF _ assms(2)] closes_inv [OF _ assms(2,3)] by blast
  show "same_menus (dp_page w) (dp_page v)" "dp_data v = dp_data w" "dp_next v = dp_next w"
    using assms(1) by (auto simp: still_def closes_def)
  show "shown_menu w u" if "u \<in> set (toggles (dp_page w))" "shown_menu v u"
    using assms(1)
  proof
    assume "still w v"
    from still_shown(2) [OF this] that show ?thesis by simp
  next
    assume "closes t w v"
    from closes_shown(2) [OF this assms(2,3) that(1)] that(2) show ?thesis by simp
  qed
qed

lemma clear_list:
  assumes "plain_query E" "menus_inv w" "set ts \<subseteq> set (toggles (dp_page w))"
  shows "menus_inv (fold (clear_menu E event) ts w)
    \<and> same_menus (dp_page w) (dp_page (fold (clear_menu E event) ts w)) \<and> dp_data (fold (clear_menu E event) ts w) = dp_data w
    \<and> (\<forall>u \<in> set (toggles (dp_page w)). shown_menu (fold (clear_menu E event) ts w) u \<longrightarrow> shown_menu w u
        \<and> (never_prevents (de_prevents E) ''hide.bs.dropdown'' \<and> event = None \<and> dp_data w u \<noteq> None \<longrightarrow> u \<notin> set ts))"
  using assms
proof (induction ts arbitrary: w)
  case Nil
  then show ?case by simp
next
  case (Cons t ts)
  have t: "t \<in> set (toggles (dp_page w))" using Cons.prems(3) by simp
  define v where "v = clear_menu E event t w"
  note less = less_shown [OF clear_menu_cases(1) [OF Cons.prems(1,2) t, of event] Cons.prems(2) t, folded v_def]
  have "toggles (dp_page v) = toggles (dp_page w)" by (rule same_menusD(1) [OF less(2)])
  then show ?case
    using Cons.IH [OF Cons.prems(1) less(1)] Cons.prems(3) less(2,3,5) same_menus_trans
      clear_menu_cases(2) [OF Cons.prems(1,2) t, of event, folded v_def]
    by (simp add: v_def [symmetric]) blast
qed

lemma clearMenus_inv:
  assumes "plain_query E" "menus_inv w"
  shows "menus_inv (clearMenus E event w)" "same_menus (dp_page w) (dp_page (clearMenus E event w))"
    "dp_data (clearMenus E event w) = dp_data w"
    "u \<in> set (toggles (dp_page w)) \<Longrightarrow> shown_menu (clearMenus E event w) u \<Longrightarrow> shown_menu w u"
    "never_prevents (de_prevents E) ''hide.bs.dropdown'' \<Longrightarrow> event = None \<Longrightarrow> u \<in> set (toggles (dp_page w)) \<Longrightarrow>
       dp_data w u \<noteq> None \<Longrightarrow> \<not> shown_menu (clearMenus E event w) u"
  using clear_list [OF assms subset_refl, of event] assms(2)
  by (cases "ignored_event event"; auto simp: clearMenus_def; simp add: ignored_event_def)+

lemma hide_cases:
  assumes E: "plain_query E" and inv: "menus_inv w"
  shows "still w (dropdown_hide E e w) \<or> e \<in> set (toggles (dp_page w)) \<and> closes e w (dropdown_hide E e w)"
proof (cases "dp_data w e")
  case None
  then show ?thesis by (simp add: dropdown_hide_def)
next
  case (Some i)
  then have e: "e \<in> set (toggles (dp_page w))" and m: "dd_menu i = menu_of (dp_page w) e" using inv by (auto simp: menus_inv_def)
  have par: "getParentFromElement E (dp_page w) e = parentNode (dp_page w) e"
    using inv by (intro parent_plain [OF E _ e]) (simp add: menus_inv_def)
  obtain x y where xy: "parentNode (dp_page w) e = Some x" "menu_of (dp_page w) e = Some y" "x \<noteq> y"
    using inv e by (fastforce simp: menus_inv_def own_menus_def)
  define p1 where "p1 = on_element (fire ''hide.bs.dropdown'') (Some x) (dp_page w)"
  define idle where "idle \<longleftrightarrow> is_disabled E (dp_page w) e \<or> \<not> shown_menu w e \<or> de_prevents E ''hide.bs.dropdown'' x p1"
  show ?thesis
  proof (cases idle)
    case True
    then show ?thesis
      using fire_still [of w "''hide.bs.dropdown''" "Some x"] Some m xy
      by (auto simp: dropdown_hide_def par idle_def p1_def [symmetric] shown_menu_def Let_def)
  next
    case False
    then have shown: "shown_menu w e" "shown_parent w e" using inv e by (auto simp: idle_def menus_inv_def)
    have on: "hasClass ''show'' (dp_page w) x" "hasClass ''show'' (dp_page w) y"
      using shown xy by (simp_all add: shown_menu_def shown_parent_def element_has_def)
    have "dropdown_hide E e w = (destroy_popper (dd_popper i) (w\<lparr>dp_page := p1\<rparr>))\<lparr>dp_page :=
        on_element (fire ''hidden.bs.dropdown'') (parentNode (dp_page w) e)
          (on_element (flipClass ''show'') (parentNode (dp_page w) e) (on_element (flipClass ''show'') (dd_menu i) p1))\<rparr>"
      using False Some m xy by (simp add: dropdown_hide_def par idle_def p1_def [symmetric] shown_menu_def Let_def)
    then have "closes e w (dropdown_hide E e w)"
      using Some m xy on by (auto simp: closes_def known_def p1_def same_menus_lift hasClass_on_element)
    then show ?thesis using e by blast
  qed
qed

text \<open>A step that opens the menu of a toggle, with a new popper or with none.\<close>

definition opens :: "eid \<Rightarrow> menus \<Rightarrow> menus \<Rightarrow> bool" where
  "opens e w v \<longleftrightarrow> same_menus (dp_page w) (dp_page v)
     \<and> (\<forall>x. hasClass ''show'' (dp_page v) x \<longleftrightarrow> hasClass ''show'' (dp_page w) x
          \<or> parentNode (dp_page w) e = Some x \<or> menu_of (dp_page w) e = Some x)
     \<and> (dp_data v = dp_data w \<and> dp_poppers v = dp_poppers w \<and> dp_next v = dp_next w
        \<or> (\<exists>i c. dp_data w e = Some i \<and> dp_data v = (dp_data w)(e \<mapsto> i\<lparr>dd_popper := Some (dp_next w)\<rparr>)
             \<and> dp_poppers v = dp_poppers w @ [c] \<and> lp_id c = dp_next w \<and> dp_next v = Suc (dp_next w)))"

lemma opens_shown:
  assumes "opens e w v" "menus_inv w" "e \<in> set (toggles (dp_page w))" "u \<in> set (toggles (dp_page w))"
  shows "shown_parent v u \<longleftrightarrow> u = e \<or> shown_parent w u" "shown_menu v u \<longleftrightarrow> u = e \<or> shown_menu w u"
proof -
  have own: "own_menus (dp_page w)" and same: "same_menus (dp_page w) (dp_page v)" and sh: "\<And>x. hasClass ''show'' (dp_page v) x \<longleftrightarrow>
      hasClass ''show'' (dp_page w) x \<or> parentNode (dp_page w) e = Some x \<or> menu_of (dp_page w) e = Some x"
    using assms(1,2) by (simp_all add: opens_def menus_inv_def)
  obtain x m where "parentNode (dp_page w) u = Some x" "menu_of (dp_page w) u = Some m"
    using own assms(4) by (auto simp: own_menus_def)
  moreover have "parentNode (dp_page w) e = parentNode (dp_page w) u \<longleftrightarrow> e = u" "menu_of (dp_page w) e = menu_of (dp_page w) u \<longleftrightarrow> e = u"
    "menu_of (dp_page w) e \<noteq> parentNode (dp_page w) u" "menu_of (dp_page w) u \<noteq> parentNode (dp_page w) e"
    using own assms(3,4) by (auto simp: own_menus_def inj_on_def)
  ultimately show "shown_parent v u \<longleftrightarrow> u = e \<or> shown_parent w u" "shown_menu v u \<longleftrightarrow> u = e \<or> shown_menu w u"
    by (auto simp: shown_parent_def shown_menu_def element_has_def sh same_menusD [OF same])
qed

lemma known_upd: "dp_data v = (dp_data w)(e \<mapsto> i) \<Longrightarrow> known v t = (if t = e then dd_popper i else known w t)"
  by (simp add: known_def)

lemma live_shown:
  "poppers_ok w \<Longrightarrow> k \<in> lp_id ` set (dp_poppers w) \<Longrightarrow> known w t = Some k \<Longrightarrow> shown_menu w t"
  by (unfold poppers_ok_def) metis

lemma live_less: "poppers_ok w \<Longrightarrow> k \<in> lp_id ` set (dp_poppers w) \<Longrightarrow> k < dp_next w"
  by (unfold poppers_ok_def) metis

lemma opens_poppers:
  assumes o: "opens e w v" and inv: "menus_inv w" and e: "e \<in> set (toggles (dp_page w))" and c: "\<not> shown_menu w e"
  shows "poppers_ok v"
proof -
  have ok: "poppers_ok w" using inv by (simp add: menus_inv_def)
  have sh: "shown_menu v u" if "known w u = Some k" "shown_menu w u" for u k
    using opens_shown(2) [OF o inv e known_toggle [OF inv that(1)]] that(2) by simp
  consider (none) "dp_data v = dp_data w" "dp_poppers v = dp_poppers w" "dp_next v = dp_next w"
    | (new) i c where "dp_data w e = Some i" "dp_data v = (dp_data w)(e \<mapsto> i\<lparr>dd_popper := Some (dp_next w)\<rparr>)"
      "dp_poppers v = dp_poppers w @ [c]" "lp_id c = dp_next w" "dp_next v = Suc (dp_next w)"
    using o by (auto simp: opens_def)
  then show ?thesis
  proof cases
    case none
    have "known v = known w" by (simp add: fun_eq_iff known_def none)
    then show ?thesis using ok sh unfolding poppers_ok_def none by metis
  next
    case new
    have kn: "known v t = (if t = e then Some (dp_next w) else known w t)" for t using known_upd [OF new(2)] by simp
    have less: "known w t = Some k \<Longrightarrow> k < dp_next w" for t k using ok by (simp add: poppers_ok_def)
    have uniq: "known w t = Some k \<Longrightarrow> known w u = Some k \<Longrightarrow> t = u" for t u k using ok by (auto simp: poppers_ok_def)
    have "\<exists>t. known v t = Some k \<and> shown_menu v t" if k: "k \<in> lp_id ` set (dp_poppers v)" for k
    proof (cases "k = dp_next w")
      case True
      then show ?thesis using kn [of e] opens_shown(2) [OF o inv e e] by auto
    next
      case False
      then have kw: "k \<in> lp_id ` set (dp_poppers w)" using k new(3,4) by auto
      then obtain t where t: "known w t = Some k" "shown_menu w t" using ok unfolding poppers_ok_def by blast
      then have "t \<noteq> e" using c by auto
      then show ?thesis using t kn [of t] sh by auto
    qed
    moreover have "distinct (map lp_id (dp_poppers v))"
      using ok live_less [OF ok] new(3,4) by (auto simp: poppers_ok_def)
    moreover have "t = u" if "known v t = Some k" "known v u = Some k" for t u k
      using that kn less uniq by (auto split: if_splits)
    moreover have "k < dp_next v" if "known v t = Some k" for t k
      using that kn [of t] less new(5) by (auto split: if_splits intro: less_SucI)
    ultimately show ?thesis unfolding poppers_ok_def by blast
  qed
qed

lemma opens_inv:
  assumes o: "opens e w v" and inv: "menus_inv w" and e: "e \<in> set (toggles (dp_page w))" and c: "\<not> shown_menu w e"
  shows "menus_inv v"
proof -
  have same: "same_menus (dp_page w) (dp_page v)" using o by (simp add: opens_def)
  have "t \<in> set (toggles (dp_page w)) \<and> dd_menu i = menu_of (dp_page w) t" if "dp_data v t = Some i" for t i
    using o inv that by (auto simp: opens_def menus_inv_def split: if_splits)
  then show ?thesis
    using inv opens_shown [OF o inv e] opens_poppers [OF assms] by (auto simp: menus_inv_def same_menusD [OF same])
qed

lemma reveal_simps [simp]:
  "dp_data (reveal E e m x w) = dp_data w" "dp_poppers (reveal E e m x w) = dp_poppers w" "dp_next (reveal E e m x w) = dp_next w"
  by (simp_all add: reveal_def Let_def)

text \<open>\<^verbatim>\<open>show\<close> on a closed menu, once the event has not been prevented.\<close>

lemma reveal_opens:
  assumes inv: "menus_inv w" and e: "e \<in> set (toggles (dp_page w))" and c: "\<not> shown_menu w e"
    and v: "same_menus (dp_page w) (dp_page v)" "hasClass ''show'' (dp_page v) = hasClass ''show'' (dp_page w)"
    and change: "dp_data v = dp_data w \<and> dp_poppers v = dp_poppers w \<and> dp_next v = dp_next w
        \<or> (\<exists>i c. dp_data w e = Some i \<and> dp_data v = (dp_data w)(e \<mapsto> i\<lparr>dd_popper := Some (dp_next w)\<rparr>)
             \<and> dp_poppers v = dp_poppers w @ [c] \<and> lp_id c = dp_next w \<and> dp_next v = Suc (dp_next w))"
  shows "opens e w (reveal E e (menu_of (dp_page w) e) (parentNode (dp_page w) e) v)"
proof -
  obtain x y where xy: "parentNode (dp_page w) e = Some x" "menu_of (dp_page w) e = Some y" "x \<noteq> y"
    using inv e by (fastforce simp: menus_inv_def own_menus_def)
  then have "\<not> hasClass ''show'' (dp_page v) x" "\<not> hasClass ''show'' (dp_page v) y"
    using inv e c v(2) by (auto simp: menus_inv_def shown_menu_def shown_parent_def element_has_def)
  then have "hasClass ''show'' (dp_page (reveal E e (Some y) (Some x) v)) z \<longleftrightarrow> hasClass ''show'' (dp_page w) z \<or> x = z \<or> y = z" for z
    using v(2) xy(3) by (auto simp: reveal_def Let_def hasClass_on_element)
  moreover have "same_menus (dp_page w) (dp_page (reveal E e (Some y) (Some x) v))"
    using v(1) by (simp add: reveal_def Let_def same_menus_lift same_menus_ops)
  ultimately show ?thesis using change by (simp add: opens_def xy)
qed

lemma open_popper_effect:
  assumes "open_popper E e i x w = Inr v"
  shows "same_menus (dp_page w) (dp_page v) \<and> hasClass ''show'' (dp_page v) = hasClass ''show'' (dp_page w)
    \<and> (\<exists>c. dp_data v = (dp_data w)(e \<mapsto> i\<lparr>dd_popper := Some (dp_next w)\<rparr>) \<and> dp_poppers v = dp_poppers w @ [c]
        \<and> lp_id c = dp_next w \<and> Some (lp_menu c) = dd_menu i \<and> dp_next v = Suc (dp_next w))"
  using assms by (auto simp: open_popper_def Let_def hasClass_on_element same_menus_lift fun_eq_iff split: if_splits option.splits)

lemma open_popper_runs:
  assumes "de_popper E" "dd_menu i = Some m" "x \<noteq> None"
  shows "\<exists>v. open_popper E e i x w = Inr v"
  using assms by (auto simp: open_popper_def popper_reference_def Let_def split: option.splits jsval.splits list.splits)

lemma show_end:
  assumes inv: "menus_inv w" and i: "dp_data w e = Some i" and c: "\<not> shown_menu w e" and x: "parentNode (dp_page w) e = Some x"
    and u: "still w u" and u2: "(if \<not> dd_inNavbar i \<and> b then open_popper E e i (Some x) u else Inr u) = Inr u2"
  shows "opens e w (reveal E e (dd_menu i) (Some x) u2)"
proof -
  have e: "e \<in> set (toggles (dp_page w))" and m: "dd_menu i = menu_of (dp_page w) e" using inv i by (auto simp: menus_inv_def)
  have "opens e w (reveal E e (menu_of (dp_page w) e) (parentNode (dp_page w) e) u2)"
  proof (rule reveal_opens [OF inv e c])
    show "same_menus (dp_page w) (dp_page u2)" "hasClass ''show'' (dp_page u2) = hasClass ''show'' (dp_page w)"
      using u2 u open_popper_effect [of E e i "Some x" u u2] same_menus_trans by (auto simp: still_def split: if_splits)
    show "dp_data u2 = dp_data w \<and> dp_poppers u2 = dp_poppers w \<and> dp_next u2 = dp_next w
      \<or> (\<exists>i c. dp_data w e = Some i \<and> dp_data u2 = (dp_data w)(e \<mapsto> i\<lparr>dd_popper := Some (dp_next w)\<rparr>)
           \<and> dp_poppers u2 = dp_poppers w @ [c] \<and> lp_id c = dp_next w \<and> dp_next u2 = Suc (dp_next w))"
      using u2 u i open_popper_effect [of E e i "Some x" u u2] by (auto simp: still_def split: if_splits)
  qed
  then show ?thesis by (simp add: m x)
qed

lemma show_cases:
  assumes E: "plain_query E" and inv: "menus_inv w" and run: "dropdown_show E b e w = Inr v"
  shows "still w v \<or> e \<in> set (toggles (dp_page w)) \<and> \<not> shown_menu w e \<and> opens e w v"
proof (cases "dp_data w e")
  case None
  then show ?thesis using run by (simp add: dropdown_show_def)
next
  case (Some i)
  then have e: "e \<in> set (toggles (dp_page w))" and m: "dd_menu i = menu_of (dp_page w) e" using inv by (auto simp: menus_inv_def)
  have par: "getParentFromElement E (dp_page w) e = parentNode (dp_page w) e"
    using inv by (intro parent_plain [OF E _ e]) (simp add: menus_inv_def)
  obtain x where x: "parentNode (dp_page w) e = Some x" using inv e by (fastforce simp: menus_inv_def own_menus_def)
  define u where "u = w\<lparr>dp_page := on_element (fire ''show.bs.dropdown'') (Some x) (dp_page w)\<rparr>"
  have u: "still w u" using fire_still by (simp add: u_def)
  show ?thesis
  proof (cases "is_disabled E (dp_page w) e \<or> shown_menu w e \<or> de_prevents E ''show.bs.dropdown'' x (dp_page u)")
    case True
    then show ?thesis
      using run Some m par x u by (auto simp: dropdown_show_def shown_menu_def u_def Let_def split: if_splits)
  next
    case False
    then have "dropdown_show E b e w = bindE (if \<not> dd_inNavbar i \<and> b then open_popper E e i (Some x) u else Inr u)
        (\<lambda>w2. Inr (reveal E e (dd_menu i) (Some x) w2))"
      using Some m par x by (simp add: dropdown_show_def shown_menu_def u_def Let_def)
    from this run have "bindE (if \<not> dd_inNavbar i \<and> b then open_popper E e i (Some x) u else Inr u)
        (\<lambda>w2. Inr (reveal E e (dd_menu i) (Some x) w2)) = Inr v" by (rule trans [OF sym])
    then obtain u2 where u2: "(if \<not> dd_inNavbar i \<and> b then open_popper E e i (Some x) u else Inr u) = Inr u2"
      and v: "v = reveal E e (dd_menu i) (Some x) u2"
      unfolding bindE_Inr_conv by auto
    then show ?thesis using show_end [OF inv Some _ x u u2] False e by (simp add: v)
  qed
qed

lemma dropdown_show_inv: "plain_query E \<Longrightarrow> menus_inv w \<Longrightarrow> dropdown_show E b e w = Inr v \<Longrightarrow> menus_inv v"
  using show_cases still_inv opens_inv by metis

lemma dropdown_hide_inv: "plain_query E \<Longrightarrow> menus_inv w \<Longrightarrow> menus_inv (dropdown_hide E e w)"
  using hide_cases still_inv closes_inv by metis

lemma dropdown_toggle_inv: "plain_query E \<Longrightarrow> menus_inv w \<Longrightarrow> dropdown_toggle E e w = Inr v \<Longrightarrow> menus_inv v"
  using clearMenus_inv(1) [of E w None] dropdown_show_inv [of E "clearMenus E None w" True e v]
  by (auto simp: dropdown_toggle_def split: option.splits if_splits)

lemma dispose_inv: "menus_inv w \<Longrightarrow> menus_inv (dropdown_dispose e w)"
proof (cases "dp_data w e")
  case (Some i)
  assume inv: "menus_inv w"
  define v where "v = dropdown_dispose e w"
  have v: "dp_page v = dp_page w" "dp_next v = dp_next w" "dp_data v = (dp_data w)(e := None)"
    "dp_poppers v = filter (\<lambda>c. dd_popper i \<noteq> Some (lp_id c)) (dp_poppers w)"
    using Some by (simp_all add: v_def dropdown_dispose_def)
  have kn: "known v t = (if t = e then None else known w t)" for t by (simp add: known_def v)
  have ok: "poppers_ok w" using inv by (simp add: menus_inv_def)
  have "\<exists>t. known v t = Some k \<and> shown_menu v t" if "k \<in> lp_id ` set (dp_poppers v)" for k
  proof -
    have "k \<in> lp_id ` set (dp_poppers w)" "known w e \<noteq> Some k" using that Some by (auto simp: v known_def)
    moreover from this obtain t where "known w t = Some k" "shown_menu w t" using ok unfolding poppers_ok_def by blast
    ultimately have "known v t = Some k \<and> shown_menu v t" using kn [of t] by (auto simp: shown_menu_def v)
    then show ?thesis by blast
  qed
  then have "poppers_ok v"
    using ok kn v by (auto simp: poppers_ok_def distinct_map_filter split: if_splits)
  then show "menus_inv (dropdown_dispose e w)"
    using inv by (auto simp: menus_inv_def v_def [symmetric] v shown_menu_def shown_parent_def split: if_splits)
qed (simp add: dropdown_dispose_def)

text \<open>Changes of an instance that keep its menu and its popper.\<close>

lemma edit_inv:
  assumes "menus_inv w" "dp_page v = dp_page w" "dp_poppers v = dp_poppers w" "dp_next v = dp_next w"
    "\<And>t. map_option (\<lambda>i. (dd_menu i, dd_popper i)) (dp_data v t) = map_option (\<lambda>i. (dd_menu i, dd_popper i)) (dp_data w t)"
  shows "menus_inv v"
proof -
  have "known v t = known w t" for t
    using assms(5) [of t] by (cases "dp_data v t"; cases "dp_data w t") (auto simp: known_def)
  then have "known v = known w" by (rule ext)
  moreover have "\<exists>j. dp_data w t = Some j \<and> dd_menu j = dd_menu i" if "dp_data v t = Some i" for t i
    using assms(5) [of t] that by (cases "dp_data w t") auto
  ultimately show ?thesis
    using assms(1-4) unfolding menus_inv_def poppers_ok_def by (fastforce simp: shown_menu_def shown_parent_def)
qed

lemma new_inv:
  assumes E: "plain_query E" and inv: "menus_inv w" and e: "e \<in> set (toggles (dp_page w))" and none: "dp_data w e = None"
    and run: "new_Dropdown E e c w = Inr v"
  shows "menus_inv v"
proof -
  obtain i where i: "v = w\<lparr>dp_data := (dp_data w)(e \<mapsto> i)\<rparr>" "dd_menu i = menu_of (dp_page w) e" "dd_popper i = None"
    using run inv menu_plain [OF E _ e] by (auto simp: new_Dropdown_def bindE_Inr_conv menus_inv_def)
  have "known v t = known w t" for t using none i by (simp add: known_def)
  then have kn: "known v = known w" by (rule ext)
  have same: "shown_menu v = shown_menu w" "shown_parent v = shown_parent w"
    by (simp_all add: fun_eq_iff shown_menu_def shown_parent_def i)
  have "poppers_ok v" using inv by (simp add: menus_inv_def poppers_ok_def kn same) (simp add: i)
  then show ?thesis using inv e i(2) by (auto simp: menus_inv_def same) (auto simp: i split: if_splits)
qed

lemma method_inv_dropdown:
  assumes E: "plain_query E" and inv: "menus_inv w" and run: "dropdown_method E m e w = Inr v"
  shows "menus_inv v"
proof -
  have edit: "menus_inv (edit_dropdown e f w)" if "\<And>i. dp_data w e = Some i \<Longrightarrow> dd_menu (f i) = dd_menu i \<and> dd_popper (f i) = dd_popper i" for f
    by (rule edit_inv [OF inv]) (use that in \<open>auto simp: edit_dropdown_def map_option_case split: option.splits\<close>)
  have menu: "dd_menu i \<noteq> None" if "dp_data w e = Some i" for i
    using inv that by (fastforce simp: menus_inv_def own_menus_def)
  have "menus_inv (dropdown_update e w)"
    by (rule edit_inv [OF inv]) (auto simp: dropdown_update_def Let_def split: option.splits)
  moreover have "menus_inv (edit_dropdown e (\<lambda>i. i\<lparr>dd_menu := getMenuElement E (dp_page w) e (dd_menu i)\<rparr>) w)"
    by (rule edit) (use menu in \<open>auto simp: getMenuElement_def\<close>)
  moreover have "menus_inv (edit_dropdown e (\<lambda>i. i\<lparr>dd_handlers := Suc (dd_handlers i)\<rparr>) w)" by (rule edit) simp
  moreover have "menus_inv (dropdown_hide E e w)" "menus_inv (dropdown_dispose e w)"
    by (rule dropdown_hide_inv [OF E inv]) (rule dispose_inv [OF inv])
  moreover have "dropdown_toggle E e w = Inr v \<Longrightarrow> menus_inv v" "dropdown_show E False e w = Inr v \<Longrightarrow> menus_inv v"
    by (rule dropdown_toggle_inv [OF E inv], assumption) (rule dropdown_show_inv [OF E inv], assumption)
  ultimately show ?thesis
    using run inv by (simp add: dropdown_method_def bindE_Inr_conv split: if_splits)
qed

lemma interface_inv_dropdown:
  assumes E: "plain_query E" and inv: "menus_inv w" and e: "e \<in> set (toggles (dp_page w))"
    and run: "dropdown_jQueryInterface E arg e w = Inr v"
  shows "menus_inv v"
proof -
  obtain u where u: "menus_inv u" "(case arg of DropdownConfig _ \<Rightarrow> Inr u | DropdownMethod m \<Rightarrow> dropdown_method E m e u) = Inr v"
    using run new_inv [OF E inv e] inv by (auto simp: dropdown_jQueryInterface_def bindE_Inr_conv split: if_splits)
  then show ?thesis using method_inv_dropdown [OF E u(1)] by (cases arg) auto
qed

lemma toggle_times_inv: "plain_query E \<Longrightarrow> menus_inv w \<Longrightarrow> toggle_times E n e w = Inr v \<Longrightarrow> menus_inv v"
  by (induction E n e w rule: toggle_times.induct) (auto simp: bindE_Inr_conv dest: dropdown_toggle_inv)

lemma dropdown_click_inv:
  assumes E: "plain_query E" and inv: "menus_inv w" and run: "dropdown_click E which target w = Inr v"
  shows "menus_inv v"
  using run toggle_times_inv [OF E inv] interface_inv_dropdown [OF E inv] clearMenus_inv(1) [OF E inv] inv
  by (auto simp: dropdown_click_def Let_def split: option.splits if_splits)

lemma focus_still: "still w (w\<lparr>dp_page := on_element focus x (dp_page w)\<rparr>)" "still w (w\<lparr>dp_page := focus e (dp_page w)\<rparr>)"
  by (auto simp: still_def same_menus_lift same_menus_ops on_element_def fun_eq_iff split: option.splits)

lemma keydown_inv:
  assumes E: "plain_query E" and inv: "menus_inv w" and run: "fst (dataApiKeydownHandler E this which target w) = Inr v"
  shows "menus_inv v"
proof -
  have f: "menus_inv (w\<lparr>dp_page := on_element focus x (dp_page w)\<rparr>)" "menus_inv (w\<lparr>dp_page := focus e (dp_page w)\<rparr>)" for x e
    using still_inv [OF focus_still(1) inv] still_inv [OF focus_still(2) inv] .
  consider (same) "v = w" | (focus) e where "v = w\<lparr>dp_page := focus e (dp_page w)\<rparr>" | (click) x where
    "dropdown_click E 1 this w = Inr v \<or> dropdown_click E 1 this (w\<lparr>dp_page := on_element focus x (dp_page w)\<rparr>) = Inr v"
    using run by (auto simp: dataApiKeydownHandler_def Let_def split: if_splits)
  then show ?thesis
  proof cases
    case click
    then show ?thesis using dropdown_click_inv [OF E inv] dropdown_click_inv [OF E f(1)] by blast
  qed (use inv f in simp_all)
qed

section \<open>Reachable states\<close>

inductive menus_reach :: "menus \<Rightarrow> bool" where
  start: "own_menus p \<Longrightarrow>
    \<forall>t \<in> set (toggles p). element_has ''show'' p (parentNode p t) = element_has ''show'' p (menu_of p t) \<Longrightarrow>
    menus_reach \<lparr>dp_page = p, dp_data = (\<lambda>_. None), dp_poppers = [], dp_next = 0, dp_scheduled = [], dp_noops = 0\<rparr>"
| interface: "menus_reach w \<Longrightarrow> plain_query E \<Longrightarrow> e \<in> set (toggles (dp_page w)) \<Longrightarrow>
    dropdown_jQueryInterface E arg e w = Inr w' \<Longrightarrow> menus_reach w'"
| click: "menus_reach w \<Longrightarrow> plain_query E \<Longrightarrow> dropdown_click E which target w = Inr w' \<Longrightarrow> menus_reach w'"
| keyup: "menus_reach w \<Longrightarrow> plain_query E \<Longrightarrow> menus_reach (dropdown_keyup E which target w)"
| keydown: "menus_reach w \<Longrightarrow> plain_query E \<Longrightarrow> fst (dataApiKeydownHandler E this which target w) = Inr w' \<Longrightarrow> menus_reach w'"

lemma menus_reach_inv: "menus_reach w \<Longrightarrow> menus_inv w"
proof (induction rule: menus_reach.induct)
  case (start p)
  then show ?case by (simp add: menus_inv_def poppers_ok_def known_def shown_parent_def shown_menu_def)
next
  case (keyup w E which target)
  then show ?case by (simp add: dropdown_keyup_def clearMenus_inv)
qed (blast intro: interface_inv_dropdown dropdown_click_inv keydown_inv)+

text \<open>C35. On a page with a parent and a menu for every toggle, a popper lives only as long as its menu is open:
  every popper that is not destroyed is the one of exactly one instance, and the menu of that instance and the
  parent of its toggle are marked as shown.\<close>

theorem popper_lives_while_menu_open:
  assumes "menus_reach w"
  shows "distinct (map lp_id (dp_poppers w)) \<and> (\<forall>c \<in> set (dp_poppers w). \<exists>!t. \<exists>i. dp_data w t = Some i
    \<and> dd_popper i = Some (lp_id c) \<and> element_has ''show'' (dp_page w) (dd_menu i)
    \<and> element_has ''show'' (dp_page w) (parentNode (dp_page w) t))"
proof -
  have inv: "menus_inv w" by (rule menus_reach_inv [OF assms])
  have ok: "poppers_ok w" using inv by (simp add: menus_inv_def)
  have "\<exists>!t. \<exists>i. dp_data w t = Some i \<and> dd_popper i = Some (lp_id c) \<and> element_has ''show'' (dp_page w) (dd_menu i)
    \<and> element_has ''show'' (dp_page w) (parentNode (dp_page w) t)" if c: "c \<in> set (dp_poppers w)" for c
  proof -
    obtain t where t: "known w t = Some (lp_id c)" "shown_menu w t" using ok c unfolding poppers_ok_def by blast
    then obtain i where i: "dp_data w t = Some i" "dd_popper i = Some (lp_id c)" by (auto simp: known_def bind_eq_Some_conv)
    have m: "dd_menu i = menu_of (dp_page w) t" "shown_parent w t" using inv i(1) t(2) by (auto simp: menus_inv_def)
    show ?thesis
    proof (rule ex1I [of _ t])
      show "\<exists>i. dp_data w t = Some i \<and> dd_popper i = Some (lp_id c) \<and> element_has ''show'' (dp_page w) (dd_menu i)
          \<and> element_has ''show'' (dp_page w) (parentNode (dp_page w) t)"
        using i m t(2) by (simp add: shown_menu_def shown_parent_def)
    next
      fix u
      assume "\<exists>i. dp_data w u = Some i \<and> dd_popper i = Some (lp_id c) \<and> element_has ''show'' (dp_page w) (dd_menu i)
          \<and> element_has ''show'' (dp_page w) (parentNode (dp_page w) u)"
      then have "known w u = Some (lp_id c)" by (auto simp: known_def)
      then show "u = t" using ok t(1) unfolding poppers_ok_def by blast
    qed
  qed
  then show ?thesis using ok by (simp add: poppers_ok_def)
qed

section \<open>One menu at a time\<close>

lemma no_shown_no_poppers:
  assumes "menus_inv w" "\<And>t. dp_data w t \<noteq> None \<Longrightarrow> \<not> shown_menu w t"
  shows "dp_poppers w = []"
proof (rule ccontr)
  assume "dp_poppers w \<noteq> []"
  then obtain c where "c \<in> set (dp_poppers w)" by (cases "dp_poppers w") auto
  then obtain t where "known w t = Some (lp_id c)" "shown_menu w t"
    using assms(1) unfolding menus_inv_def poppers_ok_def by blast
  then show False using assms(2) [of t] by (auto simp: known_def bind_eq_Some_conv)
qed

lemma cleared:
  assumes E: "plain_query E" "never_prevents (de_prevents E) ''hide.bs.dropdown''" and inv: "menus_inv w"
  shows "dp_data w t \<noteq> None \<Longrightarrow> \<not> shown_menu (clearMenus E None w) t" "dp_poppers (clearMenus E None w) = []"
proof -
  have c: "\<not> shown_menu (clearMenus E None w) t" if "dp_data w t \<noteq> None" for t
    using clearMenus_inv(5) [OF E(1) inv E(2) refl _ that] inv that by (auto simp: menus_inv_def)
  then show "dp_data w t \<noteq> None \<Longrightarrow> \<not> shown_menu (clearMenus E None w) t" .
  show "dp_poppers (clearMenus E None w) = []"
    using no_shown_no_poppers [OF clearMenus_inv(1) [OF E(1) inv], of None] c clearMenus_inv(3) [OF E(1) inv, of None] by simp
qed

lemma show_opens:
  assumes E: "plain_query E" "never_prevents (de_prevents E) ''show.bs.dropdown''" "de_popper E" and inv: "menus_inv w"
    and i: "dp_data w e = Some i" and free: "\<not> is_disabled E (dp_page w) e" "\<not> shown_menu w e"
  shows "\<exists>v. dropdown_show E True e w = Inr v \<and> opens e w v
    \<and> (if dd_inNavbar i then dp_poppers v = dp_poppers w else \<exists>c. dp_poppers v = dp_poppers w @ [c] \<and> Some (lp_menu c) = dd_menu i)
    \<and> focus_on (dp_page v) = Some e \<and> attribute_of (dp_page v) e ''aria-expanded'' = Some ''true''"
proof -
  have e: "e \<in> set (toggles (dp_page w))" and m: "dd_menu i = menu_of (dp_page w) e" using inv i by (auto simp: menus_inv_def)
  have par: "getParentFromElement E (dp_page w) e = parentNode (dp_page w) e"
    using inv by (intro parent_plain [OF E(1) _ e]) (simp add: menus_inv_def)
  obtain x y where xy: "parentNode (dp_page w) e = Some x" "menu_of (dp_page w) e = Some y"
    using inv e by (fastforce simp: menus_inv_def own_menus_def)
  define u where "u = w\<lparr>dp_page := on_element (fire ''show.bs.dropdown'') (Some x) (dp_page w)\<rparr>"
  have "\<exists>u2. (if \<not> dd_inNavbar i then open_popper E e i (Some x) u else Inr u) = Inr u2"
    using open_popper_runs [OF E(3), of i y "Some x" e u] m xy by simp
  then obtain u2 where u2: "(if \<not> dd_inNavbar i then open_popper E e i (Some x) u else Inr u) = Inr u2" ..
  define v where "v = reveal E e (dd_menu i) (Some x) u2"
  have run: "dropdown_show E True e w = Inr v"
    using i m par xy free E(2) u2
    by (cases "dd_inNavbar i") (simp_all add: dropdown_show_def shown_menu_def u_def [symmetric] v_def Let_def)
  have "opens e w v" unfolding v_def by (rule show_end [OF inv i free(2) xy(1), of u True]) (use fire_still u2 in \<open>simp_all add: u_def\<close>)
  moreover have "focus_on (dp_page v) = Some e" "attribute_of (dp_page v) e ''aria-expanded'' = Some ''true''"
    by (simp_all add: v_def reveal_def Let_def on_element_def flipClass_def split: option.splits)
  moreover have "if dd_inNavbar i then dp_poppers v = dp_poppers w else \<exists>c. dp_poppers v = dp_poppers w @ [c] \<and> Some (lp_menu c) = dd_menu i"
    using u2 open_popper_effect [of E e i "Some x" u u2] by (auto simp: v_def u_def)
  ultimately show ?thesis using run by blast
qed

text \<open>C34. With nothing prevented, \<^verbatim>\<open>toggle\<close> on a closed dropdown leaves it as the only open one: the menus of all other
  instances are closed, their poppers are destroyed, and unless it is in a navigation bar the one popper left
  is the new one of its menu. Its toggle has the focus and is marked as expanded, and a second \<^verbatim>\<open>toggle\<close>
  closes every menu again.\<close>

theorem dropdown_toggle_exclusive:
  assumes reach: "menus_reach w" and E: "plain_query E" "de_popper E" "never_prevents (de_prevents E) ''show.bs.dropdown''"
    "never_prevents (de_prevents E) ''hide.bs.dropdown''" and i: "dp_data w e = Some i"
    and closed: "\<not> element_has ''show'' (dp_page w) (dd_menu i)" and enabled: "\<forall>p. \<not> de_disabled E p e" "\<not> hasClass ''disabled'' (dp_page w) e"
  shows "\<exists>v u. dropdown_toggle E e w = Inr v
    \<and> (\<forall>t j. dp_data v t = Some j \<longrightarrow> (element_has ''show'' (dp_page v) (dd_menu j) \<longleftrightarrow> t = e))
    \<and> (if dd_inNavbar i then dp_poppers v = [] else \<exists>c. dp_poppers v = [c] \<and> Some (lp_menu c) = dd_menu i)
    \<and> focus_on (dp_page v) = Some e \<and> attribute_of (dp_page v) e ''aria-expanded'' = Some ''true''
    \<and> dropdown_toggle E e v = Inr u \<and> dp_poppers u = []
    \<and> (\<forall>t j. dp_data u t = Some j \<longrightarrow> \<not> element_has ''show'' (dp_page u) (dd_menu j))"
proof -
  have inv: "menus_inv w" by (rule menus_reach_inv [OF reach])
  have menu: "dd_menu j = menu_of (dp_page v) t" "t \<in> set (toggles (dp_page v))" if "menus_inv v" "dp_data v t = Some j" for v t j
    using that by (auto simp: menus_inv_def)
  define c where "c = clearMenus E None w"
  note ci = clearMenus_inv [OF E(1) inv, where event = None, folded c_def]
  have dc: "dp_data c e = Some i" using i ci(3) by simp
  have en: "\<not> is_disabled E (dp_page w) e" "\<not> is_disabled E (dp_page c) e"
    using enabled ci(2) by (simp_all add: is_disabled_def same_menus_def)
  have closed_c: "\<not> shown_menu c t" if "dp_data c t \<noteq> None" for t
    using cleared(1) [OF E(1,4) inv, folded c_def] that ci(3) by simp
  have none: "dp_poppers c = []" using cleared(2) [OF E(1,4) inv] by (simp add: c_def)
  have "\<not> shown_menu c e" using closed_c [of e] dc by simp
  from show_opens [OF E(1,3,2) ci(1) dc en(2) this, unfolded none append_Nil]
  obtain v where v: "dropdown_show E True e c = Inr v" "opens e c v" "focus_on (dp_page v) = Some e"
    "attribute_of (dp_page v) e ''aria-expanded'' = Some ''true''"
    "if dd_inNavbar i then dp_poppers v = [] else \<exists>q. dp_poppers v = [q] \<and> Some (lp_menu q) = dd_menu i" by blast
  have run: "dropdown_toggle E e w = Inr v" using i en(1) closed v(1) by (simp add: dropdown_toggle_def c_def)
  have inv_v: "menus_inv v" by (rule dropdown_toggle_inv [OF E(1) inv run])
  have ec: "e \<in> set (toggles (dp_page c))" by (rule menu(2) [OF ci(1) dc])
  have same: "same_menus (dp_page c) (dp_page v)" and dv: "\<exists>j. dp_data v e = Some j" using v(2) dc by (auto simp: opens_def)
  have only: "element_has ''show'' (dp_page v) (dd_menu j) \<longleftrightarrow> t = e" if j: "dp_data v t = Some j" for t j
  proof -
    have t: "t \<in> set (toggles (dp_page c))" using menu(2) [OF inv_v j] same_menusD(1) [OF same] by simp
    have "dp_data c t \<noteq> None" using j v(2) dc by (auto simp: opens_def split: if_splits)
    then show ?thesis
      using opens_shown(2) [OF v(2) ci(1) ec t] closed_c [of t] menu(1) [OF inv_v j] by (simp add: shown_menu_def)
  qed
  obtain j where j: "dp_data v e = Some j" using dv by blast
  have "\<not> is_disabled E (dp_page v) e" using en(2) enabled same by (simp add: is_disabled_def same_menus_def)
  then have again: "dropdown_toggle E e v = Inr (clearMenus E None v)" using j only [OF j] by (simp add: dropdown_toggle_def)
  have iu: "menus_inv (clearMenus E None v)" by (rule clearMenus_inv(1) [OF E(1) inv_v])
  have "\<not> element_has ''show'' (dp_page (clearMenus E None v)) (dd_menu k)" if "dp_data (clearMenus E None v) t = Some k" for t k
    using cleared(1) [OF E(1,4) inv_v, of t] that clearMenus_inv(3) [OF E(1) inv_v, of None] menu(1) [OF iu that]
    by (simp add: shown_menu_def)
  then show ?thesis using run only v(3-5) again cleared(2) [OF E(1,4) inv_v] by blast
qed

section \<open>The arrow keys\<close>

lemma item_index_nth: "distinct xs \<Longrightarrow> k < length xs \<Longrightarrow> item_index (xs ! k) xs = int k"
proof (induction xs arbitrary: k)
  case (Cons x xs)
  then show ?case by (cases k) (auto simp: Let_def)
qed simp

lemma item_index_none: "x \<notin> set xs \<Longrightarrow> item_index x xs = -1"
  by (induction xs) auto

lemma moved_down: "k < n \<Longrightarrow> moved_index 40 (int n) (int k) = int (min (Suc k) (n - 1))"
  by (auto simp: moved_index_def Let_def min_def)

lemma moved_up: "k < n \<Longrightarrow> moved_index 38 (int n) (int k) = int (k - 1)"
  by (auto simp: moved_index_def Let_def)

lemma distinct_subtree: "distinct (order t) \<Longrightarrow> s \<in> set (subtrees t) \<Longrightarrow> distinct (order s)"
proof (induction t rule: order.induct)
  case (1 e ts)
  show ?case
  proof (cases "s = Node e ts")
    case False
    then obtain u where u: "u \<in> set ts" "s \<in> set (subtrees u)" using 1(3) by auto
    have "distinct (order u)" using 1(2) u(1) by (auto simp: distinct_concat_iff)
    then show ?thesis by (rule 1(1) [OF u(1) _ u(2)])
  qed (use 1(2) in simp)
qed

lemma distinct_items: "page_wf p \<Longrightarrow> distinct (menu_items E p x)"
proof -
  assume "page_wf p"
  then have "distinct (descendants p x)"
    using distinct_subtree by (auto simp: descendants_def tree_at_def page_wf_def find_Some_iff intro!: distinct_tl split: option.splits)
  then show ?thesis by (simp add: menu_items_def)
qed

text \<open>C36. In an open menu the arrow keys move the focus from a visible, enabled item to the next or the previous
  one and stop at the ends; from anywhere else they go to the first item. Nothing else changes, and the
  default action of the key is prevented.\<close>

theorem arrow_keys_move_focus:
  assumes wf: "page_wf (dp_page w)" and parent: "getParentFromElement E (dp_page w) this = Some x" "hasClass ''show'' (dp_page w) x"
    and enabled: "\<not> is_disabled E (dp_page w) this" and target: "\<not> text_entry (dp_page w) target"
    and items: "menu_items E (dp_page w) x = items" "items \<noteq> []" and key: "which = 38 \<or> which = 40"
  shows "(\<forall>k < length items. items ! k = target \<longrightarrow> dataApiKeydownHandler E this which target w =
            (Inr (w\<lparr>dp_page := focus (items ! (if which = 38 then k - 1 else min (Suc k) (length items - 1))) (dp_page w)\<rparr>), True))
    \<and> (target \<notin> set items \<longrightarrow> dataApiKeydownHandler E this which target w =
            (Inr (w\<lparr>dp_page := focus (items ! 0) (dp_page w)\<rparr>), True))"
proof -
  have dist: "distinct items" using distinct_items [OF wf] items(1) by blast
  have code: "keydown_code 38" "keydown_code 40" by code_simp+
  have run: "dataApiKeydownHandler E this which target w =
      (Inr (w\<lparr>dp_page := focus (items ! nat (moved_index which (int (length items)) (item_index target items))) (dp_page w)\<rparr>), True)"
    using parent enabled target items key code
    by (auto simp: dataApiKeydownHandler_def key_skipped_def element_has_def Let_def)
  have "moved_index which (int (length items)) (-1) = 0" using items(2) key by (auto simp: moved_index_def Let_def)
  then show ?thesis
    using key dist item_index_nth [of items] moved_up [of _ "length items"] moved_down [of _ "length items"] item_index_none [of target items]
    by (auto simp: run)
qed

text \<open>A page with two dropdowns.\<close>

definition demo_dropdowns :: page where
  "demo_dropdowns = (bare_page (Node 0 [Node 1 [Node 2 [], Node 3 [Node 4 [], Node 5 []]], Node 6 [Node 7 [], Node 8 [Node 9 []]]]))\<lparr>
     class_list := (\<lambda>_. [])(3 := [''dropdown-menu''], 4 := [''dropdown-item''], 5 := [''dropdown-item''], 8 := [''dropdown-menu'']),
     attribute_of := (\<lambda>e a. if (e = 2 \<or> e = 7) \<and> a = ''data-toggle'' then Some ''dropdown'' else None)\<rparr>"

definition demo_dropdown_env :: dropdown_env where
  "demo_dropdown_env = \<lparr>de_prevents = (\<lambda>_ _ _. False), de_query = (\<lambda>_ _. None), de_disabled = (\<lambda>_ _. False),
     de_visible = (\<lambda>_ _. True), de_dataset = (\<lambda>_. Map.empty), de_touch = False, de_popper = True, de_override = (\<lambda>_ c. c)\<rparr>"

definition demo_no_instances :: menus where
  "demo_no_instances = \<lparr>dp_page = demo_dropdowns, dp_data = (\<lambda>_. None), dp_poppers = [], dp_next = 0, dp_scheduled = [], dp_noops = 0\<rparr>"

lemma demo_dropdowns_simps:
  "toggles demo_dropdowns = [2, 7]" "parentNode demo_dropdowns 2 = Some 1" "parentNode demo_dropdowns 7 = Some 6"
  "menu_of demo_dropdowns 2 = Some 3" "menu_of demo_dropdowns 7 = Some 8" "page_wf demo_dropdowns"
  by code_simp+

lemma demo_own_menus: "own_menus demo_dropdowns"
  by (simp add: own_menus_def demo_dropdowns_simps) (simp add: demo_dropdowns_def)

lemma demo_none_shown: "\<not> hasClass ''show'' demo_dropdowns x" "\<not> hasClass ''disabled'' demo_dropdowns x"
  by (auto simp: demo_dropdowns_def hasClass_def)

lemma demo_dropdowns_start: "menus_reach demo_no_instances"
  unfolding demo_no_instances_def
  by (rule menus_reach.start [OF demo_own_menus]) (simp add: element_has_def demo_none_shown split: option.splits)

lemma demo_plain: "plain_query demo_dropdown_env" "de_popper demo_dropdown_env"
  "never_prevents (de_prevents demo_dropdown_env) ev" "\<not> de_disabled demo_dropdown_env p e"
  by (simp_all add: plain_query_def demo_dropdown_env_def never_prevents_def)

definition demo_instance :: "eid \<Rightarrow> dropdown" where
  "demo_instance m = \<lparr>dd_menu = Some m, dd_popper = None, dd_config = dropdown_Default, dd_inNavbar = False, dd_handlers = 1\<rparr>"

definition demo_instances :: menus where
  "demo_instances = demo_no_instances\<lparr>dp_data := (\<lambda>_. None)(2 \<mapsto> demo_instance 3, 7 \<mapsto> demo_instance 8)\<rparr>"

lemma demo_new_dropdown:
  assumes "dp_page w = demo_dropdowns" "dp_data w e = None" "(e, m) \<in> {(2, 3), (7, 8)}"
  shows "dropdown_jQueryInterface demo_dropdown_env (DropdownConfig None) e w = Inr (w\<lparr>dp_data := (dp_data w)(e \<mapsto> demo_instance m)\<rparr>)"
proof -
  have types: "typeCheckConfig dropdown_Default dropdown_DefaultType = Inr ()" by code_simp
  have "extends (extends dropdown_Default (de_dataset demo_dropdown_env e)) Map.empty = dropdown_Default"
    by (simp add: extends_def demo_dropdown_env_def)
  moreover have "\<not> detectNavbar demo_dropdowns 2" "\<not> detectNavbar demo_dropdowns 7" by code_simp+
  ultimately show ?thesis
    using assms menu_plain [OF demo_plain(1) demo_own_menus, of e]
    by (auto simp: dropdown_jQueryInterface_def new_Dropdown_def dropdown_getConfig_def demo_instance_def Let_def types demo_dropdowns_simps)
qed

lemma demo_reach_new:
  assumes "menus_reach w" "dp_page w = demo_dropdowns" "dp_data w e = None" "(e, m) \<in> {(2, 3), (7, 8)}"
  shows "menus_reach (w\<lparr>dp_data := (dp_data w)(e \<mapsto> demo_instance m)\<rparr>)"
  by (rule menus_reach.interface [OF assms(1) demo_plain(1) _ demo_new_dropdown [OF assms(2-4)]])
    (use assms(2,4) in \<open>auto simp: demo_dropdowns_simps\<close>)

lemma demo_instances_reach: "menus_reach demo_instances"
proof -
  have "menus_reach (demo_no_instances\<lparr>dp_data := (dp_data demo_no_instances)(2 \<mapsto> demo_instance 3)\<rparr>)" (is "menus_reach ?w")
    by (rule demo_reach_new [OF demo_dropdowns_start]) (simp_all add: demo_no_instances_def)
  then have "menus_reach (?w\<lparr>dp_data := (dp_data ?w)(7 \<mapsto> demo_instance 8)\<rparr>)"
    by (rule demo_reach_new) (simp_all add: demo_no_instances_def)
  then show ?thesis by (simp add: demo_instances_def demo_no_instances_def)
qed

theorem popper_lives_while_menu_open_witness:
  "\<exists>w. dropdown_toggle demo_dropdown_env 2 demo_instances = Inr w \<and> map lp_id (dp_poppers w) = [0]
    \<and> (\<forall>c \<in> set (dp_poppers w). \<exists>!t. \<exists>i. dp_data w t = Some i
        \<and> dd_popper i = Some (lp_id c) \<and> element_has ''show'' (dp_page w) (dd_menu i)
        \<and> element_has ''show'' (dp_page w) (parentNode (dp_page w) t))"
proof -
  have "case dropdown_toggle demo_dropdown_env 2 demo_instances of Inr w \<Rightarrow> map lp_id (dp_poppers w) = [0] | Inl _ \<Rightarrow> False"
    by code_simp
  then obtain w where w: "dropdown_toggle demo_dropdown_env 2 demo_instances = Inr w" "map lp_id (dp_poppers w) = [0]"
    by (auto split: sum.splits)
  have "dropdown_jQueryInterface demo_dropdown_env (DropdownMethod ''toggle'') 2 demo_instances = Inr w"
    using w(1) by (simp add: dropdown_jQueryInterface_def dropdown_method_def demo_instances_def)
  then have "menus_reach w"
    by (rule menus_reach.interface [OF demo_instances_reach demo_plain(1), rotated])
      (simp add: demo_instances_def demo_no_instances_def demo_dropdowns_simps)
  then show ?thesis using w popper_lives_while_menu_open [THEN conjunct2, of w] by (intro exI [of _ w] conjI)
qed

theorem dropdown_toggle_exclusive_witness:
  "\<exists>v u. dropdown_toggle demo_dropdown_env 2 demo_instances = Inr v \<and> focus_on (dp_page v) = Some 2
    \<and> (\<exists>c. dp_poppers v = [c] \<and> lp_menu c = 3) \<and> dropdown_toggle demo_dropdown_env 2 v = Inr u \<and> dp_poppers u = []"
proof -
  have i: "dp_data demo_instances 2 = Some (demo_instance 3)" "\<not> dd_inNavbar (demo_instance 3)" "dd_menu (demo_instance 3) = Some 3"
    by (simp_all add: demo_instances_def demo_instance_def)
  have s: "\<not> element_has ''show'' (dp_page demo_instances) (dd_menu (demo_instance 3))" "\<not> hasClass ''disabled'' (dp_page demo_instances) 2"
    by (simp_all add: demo_instances_def demo_no_instances_def demo_none_shown element_has_def i)
  show ?thesis
    using dropdown_toggle_exclusive [OF demo_instances_reach demo_plain(1,2,3,3) i(1) s(1) _ s(2)] demo_plain(4) i by auto
qed

theorem arrow_keys_move_focus_witness:
  "dataApiKeydownHandler demo_dropdown_env 2 40 4 (demo_no_instances\<lparr>dp_page := addClass ''show'' 1 demo_dropdowns\<rparr>)
     = (Inr (demo_no_instances\<lparr>dp_page := focus 5 (addClass ''show'' 1 demo_dropdowns)\<rparr>), True)"
proof -
  let ?w = "demo_no_instances\<lparr>dp_page := addClass ''show'' 1 demo_dropdowns\<rparr>"
  have a: "page_wf (dp_page ?w)" "getParentFromElement demo_dropdown_env (dp_page ?w) 2 = Some 1" "hasClass ''show'' (dp_page ?w) 1"
    "\<not> is_disabled demo_dropdown_env (dp_page ?w) 2" "\<not> text_entry (dp_page ?w) 4" "menu_items demo_dropdown_env (dp_page ?w) 1 = [4, 5]"
    by code_simp+
  show ?thesis using arrow_keys_move_focus [OF a(1-6), of 40] by (auto dest!: spec [of _ 0])
qed

end
