(* ===== verification/Bs_Tooltip.thy ===== *)
theory Bs_Tooltip
  imports Bs_Util Bs_Sanitizer
begin

text \<open>
  The components \<^verbatim>\<open>Tooltip\<close> and \<^verbatim>\<open>Popover\<close> of \<^verbatim>\<open>bootstrap.js\<close>: hints that open beside
  an element on hover, focus, click or a call, after a delay and with a transition, and are placed by Popper.
  A popover is a tooltip whose class overrides a few methods, so both share one record, which knows its class.
  An element has at most one instance of each class in its jQuery data, a timer or a callback can refer to an
  instance that is no longer there, and an instance can make others, so the instances live in a heap.
\<close>

section \<open>Classes and options\<close>

datatype tip_class = TooltipClass | PopoverClass

primrec tip_NAME :: "tip_class \<Rightarrow> string" where
  "tip_NAME TooltipClass = ''tooltip''"
| "tip_NAME PopoverClass = ''popover''"

definition tip_Event :: "tip_class \<Rightarrow> string \<Rightarrow> string" where
  "tip_Event c ev = ev @ ''.bs.'' @ tip_NAME c"

definition tip_prefix :: "tip_class \<Rightarrow> string" where
  "tip_prefix c = ''bs-'' @ tip_NAME c"

text \<open>The options with what an object or a function among them holds: \<^verbatim>\<open>show\<close> and \<^verbatim>\<open>hide\<close> of a delay
  that is an object, the whitelist, and the function that replaces the sanitizer.\<close>

record tip_options =
  to_config :: config
  to_delay :: "jsval \<times> jsval"
  to_whiteList :: whitelist
  to_sanitizeFn :: "string \<Rightarrow> string"

definition no_options :: tip_options where
  "no_options = \<lparr>to_config = Map.empty, to_delay = (JUndefined, JUndefined), to_whiteList = [], to_sanitizeFn = (\<lambda>s. s)\<rparr>"

definition tip_extends :: "tip_options \<Rightarrow> tip_options \<Rightarrow> tip_options" where
  "tip_extends a b =
     \<lparr>to_config = extends (to_config a) (to_config b),
      to_delay = (if to_config b ''delay'' = None then to_delay a else to_delay b),
      to_whiteList = (if to_config b ''whiteList'' = None then to_whiteList a else to_whiteList b),
      to_sanitizeFn = (if to_config b ''sanitizeFn'' = None then to_sanitizeFn a else to_sanitizeFn b)\<rparr>"

abbreviation o_opt :: "tip_options \<Rightarrow> string \<Rightarrow> jsval" where
  "o_opt opts k \<equiv> opt (to_config opts) k"

definition set_option :: "string \<Rightarrow> jsval \<Rightarrow> tip_options \<Rightarrow> tip_options" where
  "set_option k v opts = opts\<lparr>to_config := (to_config opts)(k \<mapsto> v)\<rparr>"

definition tooltip_template :: string where
  "tooltip_template =
     ''<div class=\"tooltip\" role=\"tooltip\">'' @ ''<div class=\"arrow\"></div>'' @ ''<div class=\"tooltip-inner\"></div></div>''"

definition popover_template :: string where
  "popover_template =
     ''<div class=\"popover\" role=\"tooltip\">'' @ ''<div class=\"arrow\"></div>'' @ ''<h3 class=\"popover-header\"></h3>''
       @ ''<div class=\"popover-body\"></div></div>''"

definition tooltip_Default :: config where
  "tooltip_Default = [''animation'' \<mapsto> JBool True, ''template'' \<mapsto> JStr tooltip_template, ''trigger'' \<mapsto> JStr ''hover focus'',
     ''title'' \<mapsto> JStr [], ''delay'' \<mapsto> JNum (Some 0), ''html'' \<mapsto> JBool False, ''selector'' \<mapsto> JBool False,
     ''placement'' \<mapsto> JStr ''top'', ''offset'' \<mapsto> JNum (Some 0), ''container'' \<mapsto> JBool False,
     ''fallbackPlacement'' \<mapsto> JStr ''flip'', ''boundary'' \<mapsto> JStr ''scrollParent'', ''sanitize'' \<mapsto> JBool True,
     ''sanitizeFn'' \<mapsto> JNull, ''whiteList'' \<mapsto> JObject, ''popperConfig'' \<mapsto> JNull]"

definition popover_Default :: config where
  "popover_Default = extends tooltip_Default
     [''placement'' \<mapsto> JStr ''right'', ''trigger'' \<mapsto> JStr ''click'', ''content'' \<mapsto> JStr [], ''template'' \<mapsto> JStr popover_template]"

definition tip_Default :: "tip_class \<Rightarrow> tip_options" where
  "tip_Default c =
     \<lparr>to_config = (case c of TooltipClass \<Rightarrow> tooltip_Default | PopoverClass \<Rightarrow> popover_Default),
      to_delay = (JUndefined, JUndefined), to_whiteList = DefaultWhitelist, to_sanitizeFn = (\<lambda>s. s)\<rparr>"

definition tooltip_DefaultType :: "(string \<times> string) list" where
  "tooltip_DefaultType = [(''animation'', ''boolean''), (''template'', ''string''), (''title'', ''(string|element|function)''),
     (''trigger'', ''string''), (''delay'', ''(number|object)''), (''html'', ''boolean''), (''selector'', ''(string|boolean)''),
     (''placement'', ''(string|function)''), (''offset'', ''(number|string|function)''),
     (''container'', ''(string|element|boolean)''), (''fallbackPlacement'', ''(string|array)''),
     (''boundary'', ''(string|element)''), (''sanitize'', ''boolean''), (''sanitizeFn'', ''(null|function)''),
     (''whiteList'', ''object''), (''popperConfig'', ''(null|object)'')]"

definition popover_DefaultType :: "(string \<times> string) list" where
  "popover_DefaultType = tooltip_DefaultType @ [(''content'', ''(string|element|function)'')]"

definition tip_DefaultType :: "tip_class \<Rightarrow> (string \<times> string) list" where
  "tip_DefaultType c = (case c of TooltipClass \<Rightarrow> tooltip_DefaultType | PopoverClass \<Rightarrow> popover_DefaultType)"

definition AttachmentMap :: "(string \<times> string) list" where
  "AttachmentMap = [(''AUTO'', ''auto''), (''TOP'', ''top''), (''RIGHT'', ''right''), (''BOTTOM'', ''bottom''), (''LEFT'', ''left'')]"

section \<open>State\<close>

datatype hover = NoHover | HoverShow | HoverOut

datatype tip_trigger = ByClick | ByFocus | ByHover

text \<open>What a popper is made with. The last three tell whether the functions and the style modifier are those
  of the component, which the option \<^verbatim>\<open>popperConfig\<close> can replace.\<close>

record tip_popper_config =
  tc_placement :: "string option"
  tc_offset :: popper_offset
  tc_behavior :: jsval
  tc_boundaries :: jsval
  tc_onCreate :: bool
  tc_onUpdate :: bool
  tc_applyStyle :: bool

record tip_popper =
  tq_id :: nat
  tq_instance :: nat
  tq_reference :: eid
  tq_tip :: eid
  tq_config :: tip_popper_config

text \<open>\<^verbatim>\<open>dispose\<close> leaves neither element nor options.\<close>

record tooltip =
  tt_class :: tip_class
  tt_element :: "eid option"
  tt_options :: "tip_options option"
  tt_tip :: "eid option"
  tt_isEnabled :: bool
  tt_timeout :: "nat option"
  tt_hoverState :: hover
  tt_activeTrigger :: "tip_trigger \<Rightarrow> bool"
  tt_popper :: "tip_popper option"

datatype tip_event = Clicked | MouseEnter | MouseLeave | FocusIn | FocusOut

record tip_handler =
  th_element :: eid
  th_event :: tip_event
  th_selector :: "string option"
  th_instance :: nat

text \<open>What \<^verbatim>\<open>show\<close> and \<^verbatim>\<open>hide\<close> do at the end of a transition, with the instance and the element
  that fades out.\<close>

datatype tip_cb = ShowComplete nat | HideComplete nat eid

datatype tip_content = TextContent string | HtmlContent string | NodeContent jsval

text \<open>The tips are elements numbered from \<open>ts_fresh\<close> on, outside the tree of the page; \<open>ts_attached\<close> has
  those that are in the document with their containers, \<open>ts_slots\<close> the classes of their inner elements and
  \<open>ts_content\<close> what these hold. The poppers are those that are not destroyed.\<close>

record tips =
  ts_page :: page
  ts_heap :: "nat \<Rightarrow> tooltip option"
  ts_next :: nat
  ts_data :: "tip_class \<Rightarrow> eid \<Rightarrow> nat option"
  ts_handlers :: "tip_handler list"
  ts_modals :: "(eid \<times> nat) list"
  ts_timers :: "(nat \<times> nat \<times> hover) list"
  ts_next_timer :: nat
  ts_trans :: "tip_cb transitions"
  ts_attached :: "(eid \<times> eid) list"
  ts_clones :: "eid list"
  ts_slots :: "eid \<Rightarrow> string list"
  ts_content :: "eid \<Rightarrow> string \<Rightarrow> tip_content option"
  ts_fresh :: eid
  ts_poppers :: "tip_popper list"
  ts_created :: "nat list"
  ts_scheduled :: "nat list"
  ts_next_popper :: nat
  ts_noops :: nat

text \<open>An element made from a template: its classes and those of the elements in it.\<close>

record tip_template =
  tm_classes :: "string list"
  tm_slots :: "string list"

text \<open>What the page and the browser decide. \<open>te_call\<close> is the result of an option that is a function, on the
  element; \<open>te_applied\<close> what jQuery gets when it calls a function it was given as the content of an inner element,
  \<open>te_length0\<close> whether the \<^verbatim>\<open>length\<close> of a function, an object or an array is zero; \<open>te_string\<close> the text of a value or of an element; \<open>te_draws\<close> the random numbers for an id;
  \<open>te_place\<close> the placement Popper writes to a tip when it starts.\<close>

record tip_env =
  te_prevents :: prevents
  te_query :: query
  te_matches :: "page \<Rightarrow> string \<Rightarrow> eid \<Rightarrow> bool"
  te_dataset :: "page \<Rightarrow> eid \<Rightarrow> tip_options"
  te_body :: eid
  te_touch :: bool
  te_popper :: bool
  te_parse :: "string \<Rightarrow> html list"
  te_print :: "html list \<Rightarrow> string"
  te_template :: "string \<Rightarrow> tip_template option"
  te_string :: "jsval \<Rightarrow> string"
  te_call :: "string \<Rightarrow> eid \<Rightarrow> jsval"
  te_applied :: "string \<Rightarrow> jsval"
  te_length0 :: "jsval \<Rightarrow> bool"
  te_override :: "eid \<Rightarrow> tip_popper_config \<Rightarrow> tip_popper_config"
  te_place :: "page \<Rightarrow> eid \<Rightarrow> string"
  te_draws :: "nat \<Rightarrow> nat list"
  te_shadow_support :: bool
  te_getRootNode :: "(nat \<Rightarrow> nat) option"
  te_is_shadow :: "nat \<Rightarrow> bool"
  te_nodes_above :: "eid \<Rightarrow> nat list"

definition edit_tip :: "nat \<Rightarrow> (tooltip \<Rightarrow> tooltip) \<Rightarrow> tips \<Rightarrow> tips" where
  "edit_tip k f w = w\<lparr>ts_heap := (ts_heap w)(k := map_option f (ts_heap w k))\<rparr>"

definition on_ts_page :: "(page \<Rightarrow> page) \<Rightarrow> tips \<Rightarrow> tips" where
  "on_ts_page f w = w\<lparr>ts_page := f (ts_page w)\<rparr>"

text \<open>An instance with its element and options, unless it is disposed: then the code reads a property of
  \<^verbatim>\<open>null\<close>.\<close>

definition live_tip :: "nat \<Rightarrow> tips \<Rightarrow> (tooltip \<times> eid \<times> tip_options) option" where
  "live_tip k w =
     (case ts_heap w k of
        None \<Rightarrow> None
      | Some i \<Rightarrow> (case (tt_element i, tt_options i) of (Some e, Some opts) \<Rightarrow> Some (i, e, opts) | _ \<Rightarrow> None))"

definition with_live :: "nat \<Rightarrow> tips \<Rightarrow> (tooltip \<Rightarrow> eid \<Rightarrow> tip_options \<Rightarrow> bs_error + 'a) \<Rightarrow> bs_error + 'a" where
  "with_live k w f = (case live_tip k w of None \<Rightarrow> Inl NullReference | Some (i, e, opts) \<Rightarrow> f i e opts)"

section \<open>Configuration\<close>

definition DISALLOWED_ATTRIBUTES :: "string list" where
  "DISALLOWED_ATTRIBUTES = [''sanitize'', ''whiteList'', ''sanitizeFn'']"

definition data_options :: "tip_options \<Rightarrow> tip_options" where
  "data_options d = d\<lparr>to_config := (\<lambda>k. if k \<in> set DISALLOWED_ATTRIBUTES then None else to_config d k)\<rparr>"

definition tip_sanitize :: "tip_env \<Rightarrow> tip_options \<Rightarrow> string \<Rightarrow> string" where
  "tip_sanitize E opts s =
     sanitizeHtml (te_parse E) (te_print E) s (to_whiteList opts) (if o_opt opts ''sanitizeFn'' = JFun then Some (to_sanitizeFn opts) else None)"

definition number_to_text :: "tip_env \<Rightarrow> string \<Rightarrow> tip_options \<Rightarrow> tip_options" where
  "number_to_text E k opts = (case o_opt opts k of JNum x \<Rightarrow> set_option k (JStr (te_string E (JNum x))) opts | _ \<Rightarrow> opts)"

definition delay_to_object :: "tip_options \<Rightarrow> tip_options" where
  "delay_to_object opts =
     (case o_opt opts ''delay'' of
        JNum x \<Rightarrow> (set_option ''delay'' JObject opts)\<lparr>to_delay := (JNum x, JNum x)\<rparr>
      | _ \<Rightarrow> opts)"

definition sanitize_template :: "tip_env \<Rightarrow> tip_options \<Rightarrow> tip_options" where
  "sanitize_template E opts =
     (case o_opt opts ''template'' of
        JStr s \<Rightarrow> if truthy (o_opt opts ''sanitize'') then set_option ''template'' (JStr (tip_sanitize E opts s)) opts else opts
      | _ \<Rightarrow> opts)"

definition tip_getConfig :: "tip_env \<Rightarrow> tip_class \<Rightarrow> page \<Rightarrow> eid \<Rightarrow> tip_options \<Rightarrow> bs_error + tip_options" where
  "tip_getConfig E c p e config =
     (let merged = tip_extends (tip_extends (tip_Default c) (data_options (te_dataset E p e))) config;
          opts = number_to_text E ''content'' (number_to_text E ''title'' (delay_to_object merged))
      in bindE (typeCheckConfig (to_config opts) (tip_DefaultType c)) (\<lambda>_. Inr (sanitize_template E opts)))"

text \<open>The options that differ from the defaults. The whitelist always goes along, which makes no difference
  when it is the default one.\<close>

definition delegate_options :: "tooltip \<Rightarrow> tip_options" where
  "delegate_options i =
     (case tt_options i of
        None \<Rightarrow> no_options
      | Some opts \<Rightarrow>
         opts\<lparr>to_config := (\<lambda>k. if k \<noteq> ''whiteList'' \<and> o_opt (tip_Default (tt_class i)) k = o_opt opts k then None else to_config opts k)\<rparr>)"

section \<open>The tip\<close>

text \<open>\<^verbatim>\<open>getTitle\<close> and \<^verbatim>\<open>_getContent\<close>: an attribute that is not empty goes before the option.\<close>

definition attribute_or :: "page \<Rightarrow> eid \<Rightarrow> string \<Rightarrow> jsval \<Rightarrow> jsval" where
  "attribute_or p e a v = (case attribute_of p e a of Some (c # cs) \<Rightarrow> JStr (c # cs) | _ \<Rightarrow> v)"

definition getTitle :: "tip_env \<Rightarrow> page \<Rightarrow> eid \<Rightarrow> tip_options \<Rightarrow> jsval" where
  "getTitle E p e opts =
     attribute_or p e ''data-original-title'' (if o_opt opts ''title'' = JFun then te_call E ''title'' e else o_opt opts ''title'')"

definition popover_getContent :: "page \<Rightarrow> eid \<Rightarrow> tip_options \<Rightarrow> jsval" where
  "popover_getContent p e opts = attribute_or p e ''data-content'' (o_opt opts ''content'')"

definition isWithContent :: "tip_env \<Rightarrow> tip_class \<Rightarrow> page \<Rightarrow> eid \<Rightarrow> tip_options \<Rightarrow> bool" where
  "isWithContent E c p e opts =
     (truthy (getTitle E p e opts) \<or> c = PopoverClass \<and> truthy (popover_getContent p e opts))"

text \<open>The tip is made from the template when it is needed first; a template without an element gives none.\<close>

definition make_tip :: "nat \<Rightarrow> tip_template \<Rightarrow> tips \<Rightarrow> tips" where
  "make_tip k tm w =
     (let t = ts_fresh w;
          w1 = edit_tip k (\<lambda>i. i\<lparr>tt_tip := Some t\<rparr>) (w\<lparr>ts_fresh := Suc t\<rparr>)
      in on_ts_page (\<lambda>p. p\<lparr>class_list := (class_list p)(t := tm_classes tm)\<rparr>) (w1\<lparr>ts_slots := (ts_slots w1)(t := tm_slots tm)\<rparr>))"

definition getTipElement :: "tip_env \<Rightarrow> nat \<Rightarrow> tips \<Rightarrow> eid option \<times> tips" where
  "getTipElement E k w =
     (case live_tip k w of
        None \<Rightarrow> (None, w)
      | Some (i, e, opts) \<Rightarrow>
         (case tt_tip i of
            Some t \<Rightarrow> (Some t, w)
          | None \<Rightarrow>
             (case o_opt opts ''template'' of
                JStr s \<Rightarrow> (case te_template E s of None \<Rightarrow> (None, w) | Some tm \<Rightarrow> (Some (ts_fresh w), make_tip k tm w))
              | _ \<Rightarrow> (None, w))))"

definition put_content :: "eid \<Rightarrow> string \<Rightarrow> tip_content \<Rightarrow> tips \<Rightarrow> tips" where
  "put_content t slot c w =
     (if slot \<in> set (ts_slots w t) then w\<lparr>ts_content := (ts_content w)(t := (ts_content w t)(slot \<mapsto> c))\<rparr> else w)"

definition tip_text :: "tip_env \<Rightarrow> jsval \<Rightarrow> string" where
  "tip_text E v = (case v of JStr s \<Rightarrow> s | _ \<Rightarrow> te_string E v)"

text \<open>jQuery's \<^verbatim>\<open>html\<close> and \<^verbatim>\<open>text\<close> do nothing for \<^verbatim>\<open>undefined\<close> and call a function; \<^verbatim>\<open>html\<close>
  parses a string and appends any other value.\<close>

definition put_html :: "eid \<Rightarrow> string \<Rightarrow> jsval \<Rightarrow> tips \<Rightarrow> tips" where
  "put_html t slot v w =
     (case v of JUndefined \<Rightarrow> w | JStr s \<Rightarrow> put_content t slot (HtmlContent s) w | _ \<Rightarrow> put_content t slot (NodeContent v) w)"

definition jq_html :: "tip_env \<Rightarrow> eid \<Rightarrow> string \<Rightarrow> jsval \<Rightarrow> tips \<Rightarrow> tips" where
  "jq_html E t slot v w = put_html t slot (if v = JFun then te_applied E slot else v) w"

definition jq_text :: "tip_env \<Rightarrow> eid \<Rightarrow> string \<Rightarrow> jsval \<Rightarrow> tips \<Rightarrow> tips" where
  "jq_text E t slot v w =
     (let r = (if v = JFun then te_applied E slot else v)
      in if r = JUndefined then w else put_content t slot (TextContent (if r = JNull then [] else tip_text E r)) w)"

definition length_zero :: "tip_env \<Rightarrow> jsval \<Rightarrow> bool" where
  "length_zero E v = (case v of JStr s \<Rightarrow> s = [] | JFun \<Rightarrow> te_length0 E v | JObject \<Rightarrow> te_length0 E v | JArray \<Rightarrow> te_length0 E v | _ \<Rightarrow> False)"

text \<open>\<^verbatim>\<open>sanitizeHtml\<close> hands back a value of length zero as it is, and parses the text of any other; reading the length
  of \<^verbatim>\<open>undefined\<close> fails. A function that replaces the sanitizer is taken to read its argument as a text.\<close>

definition setElementContent :: "tip_env \<Rightarrow> tip_options \<Rightarrow> eid \<Rightarrow> string \<Rightarrow> jsval \<Rightarrow> tips \<Rightarrow> bs_error + tips" where
  "setElementContent E opts t slot content w =
     (if content = JNull then Inl NullReference
      else if (case content of JElement _ \<Rightarrow> True | JQuery _ \<Rightarrow> True | _ \<Rightarrow> False)
      then Inr (put_content t slot (if truthy (o_opt opts ''html'') then NodeContent content else TextContent (tip_text E content)) w)
      else if truthy (o_opt opts ''html'')
      then (if \<not> truthy (o_opt opts ''sanitize'') then Inr (jq_html E t slot content w)
            else if content = JUndefined then Inl NullReference
            else Inr (jq_html E t slot (if length_zero E content then content else JStr (tip_sanitize E opts (tip_text E content))) w))
      else Inr (jq_text E t slot content w))"

definition popover_content :: "tip_env \<Rightarrow> page \<Rightarrow> eid \<Rightarrow> tip_options \<Rightarrow> jsval" where
  "popover_content E p e opts =
     (let content = popover_getContent p e opts in if content = JFun then te_call E ''content'' e else content)"

definition tip_setContent :: "tip_env \<Rightarrow> tip_class \<Rightarrow> eid \<Rightarrow> tip_options \<Rightarrow> eid \<Rightarrow> tips \<Rightarrow> bs_error + tips" where
  "tip_setContent E c e opts t w =
     bindE (case c of
              TooltipClass \<Rightarrow> setElementContent E opts t ''tooltip-inner'' (getTitle E (ts_page w) e opts) w
            | PopoverClass \<Rightarrow>
                bindE (setElementContent E opts t ''popover-header'' (getTitle E (ts_page w) e opts) w) (\<lambda>w1.
                  setElementContent E opts t ''popover-body'' (popover_content E (ts_page w1) e opts) w1))
       (\<lambda>w2. Inr (on_ts_page (\<lambda>p. removeClass ''show'' t (removeClass ''fade'' t p)) w2))"

text \<open>\<^verbatim>\<open>BSCLS_PREFIX_REGEX\<close> finds the classes that go on after the prefix. The element of a template has the
  attribute \<^verbatim>\<open>class\<close>.\<close>

definition attachment_class :: "tip_class \<Rightarrow> string \<Rightarrow> bool" where
  "attachment_class c d = (take (length (tip_prefix c)) d = tip_prefix c \<and> length (tip_prefix c) < length d)"

definition cleanTipClass :: "tip_class \<Rightarrow> eid \<Rightarrow> page \<Rightarrow> page" where
  "cleanTipClass c t p = p\<lparr>class_list := (class_list p)(t := filter (\<lambda>d. \<not> attachment_class c d) (class_list p t))\<rparr>"

definition getAttachment :: "string \<Rightarrow> string option" where
  "getAttachment placement = map_of AttachmentMap (toUpperCase placement)"

definition attachment_name :: "tip_class \<Rightarrow> string option \<Rightarrow> string" where
  "attachment_name c a = tip_prefix c @ ''-'' @ (case a of None \<Rightarrow> ''undefined'' | Some s \<Rightarrow> s)"

definition addAttachmentClass :: "tip_class \<Rightarrow> string option \<Rightarrow> eid \<Rightarrow> page \<Rightarrow> page" where
  "addAttachmentClass c a t p = addClass (attachment_name c a) t p"

section \<open>Poppers\<close>

definition tip_getOffset :: "tip_options \<Rightarrow> popper_offset" where
  "tip_getOffset opts = (if o_opt opts ''offset'' = JFun then OffsetFn else OffsetValue (o_opt opts ''offset''))"

definition tip_getPopperConfig :: "tip_env \<Rightarrow> eid \<Rightarrow> tip_options \<Rightarrow> string option \<Rightarrow> tip_popper_config" where
  "tip_getPopperConfig E e opts attachment =
     (let c = \<lparr>tc_placement = attachment, tc_offset = tip_getOffset opts, tc_behavior = o_opt opts ''fallbackPlacement'',
            tc_boundaries = o_opt opts ''boundary'', tc_onCreate = True, tc_onUpdate = True, tc_applyStyle = True\<rparr>
      in if o_opt opts ''popperConfig'' = JNull then c else te_override E e c)"

text \<open>The constructor of Popper writes the placement to the tip at once, its first update comes later. To
  destroy a popper takes the placement away, also when it was destroyed before.\<close>

definition tip_new_popper :: "tip_env \<Rightarrow> nat \<Rightarrow> eid \<Rightarrow> tip_options \<Rightarrow> eid \<Rightarrow> string option \<Rightarrow> tips \<Rightarrow> tips" where
  "tip_new_popper E k e opts t attachment w =
     (let q = \<lparr>tq_id = ts_next_popper w, tq_instance = k, tq_reference = e, tq_tip = t,
            tq_config = tip_getPopperConfig E e opts attachment\<rparr>;
          w1 = edit_tip k (\<lambda>i. i\<lparr>tt_popper := Some q\<rparr>) (w\<lparr>ts_poppers := ts_poppers w @ [q], ts_next_popper := Suc (ts_next_popper w)\<rparr>)
      in if tc_applyStyle (tq_config q) then on_ts_page (\<lambda>p. setAttribute ''x-placement'' (te_place E p t) t p) w1 else w1)"

definition tip_destroy_popper :: "tip_popper option \<Rightarrow> tips \<Rightarrow> tips" where
  "tip_destroy_popper popper w =
     (case popper of
        None \<Rightarrow> w
      | Some q \<Rightarrow>
         (let w1 = w\<lparr>ts_poppers := filter (\<lambda>r. tq_id r \<noteq> tq_id q) (ts_poppers w)\<rparr>
          in if tc_applyStyle (tq_config q) then on_ts_page (unsetAttribute ''x-placement'' (tq_tip q)) w1 else w1))"

text \<open>\<^verbatim>\<open>_handlePopperPlacementChange\<close>.\<close>

definition handlePopperPlacementChange :: "tip_popper \<Rightarrow> string \<Rightarrow> tips \<Rightarrow> tips" where
  "handlePopperPlacementChange q placement w =
     (case ts_heap w (tq_instance q) of
        None \<Rightarrow> w
      | Some i \<Rightarrow>
         on_ts_page (\<lambda>p. addAttachmentClass (tt_class i) (getAttachment placement) (tq_tip q) (cleanTipClass (tt_class i) (tq_tip q) p))
           (edit_tip (tq_instance q) (\<lambda>j. j\<lparr>tt_tip := Some (tq_tip q)\<rparr>) w))"

text \<open>A popper that is not destroyed has computed a placement: the first time it calls \<^verbatim>\<open>onCreate\<close>, then
  \<^verbatim>\<open>onUpdate\<close>.\<close>

definition tip_popper_update :: "nat \<Rightarrow> string \<Rightarrow> tips \<Rightarrow> tips" where
  "tip_popper_update n placement w =
     (case find (\<lambda>q. tq_id q = n) (ts_poppers w) of
        None \<Rightarrow> w
      | Some q \<Rightarrow>
         (let w1 = (if tc_applyStyle (tq_config q) then on_ts_page (setAttribute ''x-placement'' placement (tq_tip q)) w else w);
              w2 = w1\<lparr>ts_created := n # ts_created w1\<rparr>
          in if n \<in> set (ts_created w)
             then (if tc_onUpdate (tq_config q) then handlePopperPlacementChange q placement w1 else w1)
             else (if tc_onCreate (tq_config q) \<and> tc_placement (tq_config q) \<noteq> Some placement
                   then handlePopperPlacementChange q placement w2 else w2)))"

definition tip_update :: "nat \<Rightarrow> tips \<Rightarrow> tips" where
  "tip_update k w =
     (case Option.bind (ts_heap w k) tt_popper of None \<Rightarrow> w | Some q \<Rightarrow> w\<lparr>ts_scheduled := ts_scheduled w @ [tq_id q]\<rparr>)"

section \<open>Hiding\<close>

definition tip_await :: "eid \<Rightarrow> tip_cb \<Rightarrow> tips \<Rightarrow> tips" where
  "tip_await t cb w = w\<lparr>ts_trans := await_end t cb (ts_trans w)\<rparr>"

definition detach_tip :: "eid \<Rightarrow> tips \<Rightarrow> tips" where
  "detach_tip t w = w\<lparr>ts_attached := filter (\<lambda>a. fst a \<noteq> t) (ts_attached w)\<rparr>"

definition on_tip :: "(eid \<Rightarrow> page \<Rightarrow> page) \<Rightarrow> eid option \<Rightarrow> tips \<Rightarrow> tips" where
  "on_tip f t w = (case t of None \<Rightarrow> w | Some x \<Rightarrow> on_ts_page (f x) w)"

definition hide_complete :: "nat \<Rightarrow> eid \<Rightarrow> tips \<Rightarrow> bs_error + tips" where
  "hide_complete k t w =
     with_live k w (\<lambda>i e opts.
       let w1 = (if tt_hoverState i = HoverShow then w else detach_tip t w);
           w2 = on_ts_page (\<lambda>p. fire (tip_Event (tt_class i) ''hidden'') e (unsetAttribute ''aria-describedby'' e p))
                  (on_tip (cleanTipClass (tt_class i)) (tt_tip i) w1)
       in Inr (tip_destroy_popper (tt_popper i) w2))"

definition tip_noops :: "tip_env \<Rightarrow> nat \<Rightarrow> tips \<Rightarrow> tips" where
  "tip_noops E n w = (if te_touch E then w\<lparr>ts_noops := n\<rparr> else w)"

text \<open>A tip that the template did not give has no parent to be removed from.\<close>

definition tip_hide :: "tip_env \<Rightarrow> nat \<Rightarrow> tips \<Rightarrow> bs_error + tips" where
  "tip_hide E k w =
     with_live k w (\<lambda>i e opts.
       let (tip, w1) = getTipElement E k w;
           w2 = on_ts_page (fire (tip_Event (tt_class i) ''hide'') e) w1
       in if te_prevents E (tip_Event (tt_class i) ''hide'') e (ts_page w2) then Inr w2
          else case tip of
              None \<Rightarrow> Inl NullReference
            | Some t \<Rightarrow>
               (let w3 = edit_tip k (\<lambda>j. j\<lparr>tt_activeTrigger := (\<lambda>_. False)\<rparr>) (tip_noops E 0 (on_ts_page (removeClass ''show'' t) w2))
                in bindE (if hasClass ''fade'' (ts_page w3) t then Inr (tip_await t (HideComplete k t) w3) else hide_complete k t w3)
                     (\<lambda>w4. Inr (edit_tip k (\<lambda>j. j\<lparr>tt_hoverState := NoHover\<rparr>) w4))))"

definition isWithActiveTrigger :: "tooltip \<Rightarrow> bool" where
  "isWithActiveTrigger i = (\<exists>t \<in> {ByClick, ByFocus, ByHover}. tt_activeTrigger i t)"

definition set_trigger :: "tip_trigger option \<Rightarrow> bool \<Rightarrow> nat \<Rightarrow> tips \<Rightarrow> tips" where
  "set_trigger trigger b k w =
     (case trigger of None \<Rightarrow> w | Some t \<Rightarrow> edit_tip k (\<lambda>i. i\<lparr>tt_activeTrigger := (tt_activeTrigger i)(t := b)\<rparr>) w)"

definition clear_timeout :: "nat option \<Rightarrow> tips \<Rightarrow> tips" where
  "clear_timeout timeout w = (case timeout of None \<Rightarrow> w | Some n \<Rightarrow> w\<lparr>ts_timers := filter (\<lambda>t. fst t \<noteq> n) (ts_timers w)\<rparr>)"

text \<open>A timer that shows or hides the tip if the state of the pointer is still the one it was set in.\<close>

definition set_timeout :: "nat \<Rightarrow> hover \<Rightarrow> tips \<Rightarrow> tips" where
  "set_timeout k h w =
     edit_tip k (\<lambda>i. i\<lparr>tt_timeout := Some (ts_next_timer w)\<rparr>)
       (w\<lparr>ts_timers := ts_timers w @ [(ts_next_timer w, k, h)], ts_next_timer := Suc (ts_next_timer w)\<rparr>)"

definition tip_leave :: "tip_env \<Rightarrow> nat \<Rightarrow> tip_trigger option \<Rightarrow> tips \<Rightarrow> bs_error + tips" where
  "tip_leave E k trigger w =
     (let w1 = set_trigger trigger False k w
      in with_live k w1 (\<lambda>i e opts.
           if isWithActiveTrigger i then Inr w1
           else
            (let w2 = edit_tip k (\<lambda>j. j\<lparr>tt_hoverState := HoverOut\<rparr>) (clear_timeout (tt_timeout i) w1)
             in if truthy (snd (to_delay opts)) then Inr (set_timeout k HoverOut w2) else tip_hide E k w2)))"

section \<open>Showing\<close>

text \<open>Whether the element is in the document or below a shadow root.\<close>

definition tip_in_dom :: "tip_env \<Rightarrow> page \<Rightarrow> eid \<Rightarrow> bool" where
  "tip_in_dom E p e =
     (findShadowRoot (te_shadow_support E) (te_getRootNode E) (te_is_shadow E) (te_nodes_above E e) \<noteq> None
      \<or> e \<in> set (descendants p (node_id (doc_tree p))))"

definition tip_in_document :: "tips \<Rightarrow> eid \<Rightarrow> bool" where
  "tip_in_document w t =
     (case map_of (ts_attached w) t of None \<Rightarrow> False | Some c \<Rightarrow> c \<in> set (order (doc_tree (ts_page w))))"

definition id_taken :: "tips \<Rightarrow> string \<Rightarrow> bool" where
  "id_taken w s =
     (\<exists>x \<in> set (order (doc_tree (ts_page w)) @ filter (tip_in_document w) (map fst (ts_attached w))).
        attribute_of (ts_page w) x ''id'' = Some s)"

definition tip_placement :: "tip_env \<Rightarrow> eid \<Rightarrow> tip_options \<Rightarrow> bs_error + string option" where
  "tip_placement E e opts =
     (case if o_opt opts ''placement'' = JFun then te_call E ''placement'' e else o_opt opts ''placement'' of
        JStr s \<Rightarrow> Inr (getAttachment s)
      | _ \<Rightarrow> Inl (NotAFunction ''toUpperCase''))"

definition getContainer :: "tip_env \<Rightarrow> page \<Rightarrow> tip_options \<Rightarrow> bs_error + eid list" where
  "getContainer E p opts =
     (case o_opt opts ''container'' of
        JBool False \<Rightarrow> Inr [te_body E]
      | JElement x \<Rightarrow> Inr [x]
      | JQuery xs \<Rightarrow> Inr xs
      | JStr s \<Rightarrow> (case te_query E p s of None \<Rightarrow> Inl (BadSelector s) | Some xs \<Rightarrow> Inr xs)
      | _ \<Rightarrow> Inr [])"

text \<open>jQuery's \<^verbatim>\<open>appendTo\<close> puts the tip in the last of the containers and a clone in each other one.\<close>

definition append_tip :: "eid \<Rightarrow> eid list \<Rightarrow> tips \<Rightarrow> tips" where
  "append_tip t containers w =
     (if containers = [] then w
      else w\<lparr>ts_attached := (t, last containers) # filter (\<lambda>a. fst a \<noteq> t) (ts_attached w),
             ts_clones := ts_clones w @ butlast containers\<rparr>)"

text \<open>\<^verbatim>\<open>show\<close> from the fresh id of the tip to the class \<^verbatim>\<open>show\<close>.\<close>

definition open_tip :: "tip_env \<Rightarrow> nat \<Rightarrow> tooltip \<Rightarrow> eid \<Rightarrow> tip_options \<Rightarrow> eid \<Rightarrow> tips \<Rightarrow> bs_error + tips" where
  "open_tip E k i e opts t w =
     (case getUID (id_taken w) (te_draws E (ts_next_popper w)) (tip_NAME (tt_class i)) of
        None \<Rightarrow> Inl OutOfFuel
      | Some tipId \<Rightarrow>
         bindE (tip_setContent E (tt_class i) e opts t
                 (on_ts_page (\<lambda>p. setAttribute ''aria-describedby'' tipId e (setAttribute ''id'' tipId t p)) w)) (\<lambda>w1.
         bindE (tip_placement E e opts) (\<lambda>attachment.
         bindE (getContainer E (ts_page w1) opts) (\<lambda>containers.
           let w2 = on_ts_page (\<lambda>p. addAttachmentClass (tt_class i) attachment t
                 (if truthy (o_opt opts ''animation'') then addClass ''fade'' t p else p)) w1;
               w3 = (if tip_in_document w2 t then w2 else append_tip t containers w2);
               w4 = tip_new_popper E k e opts t attachment (on_ts_page (fire (tip_Event (tt_class i) ''inserted'') e) w3)
           in Inr (tip_noops E (Suc (ts_noops w4)) (on_ts_page (addClass ''show'' t) w4))))))"

text \<open>\<^verbatim>\<open>show\<close> up to its last step; without a tip in the result it has returned before.\<close>

definition begin_tip :: "tip_env \<Rightarrow> nat \<Rightarrow> tips \<Rightarrow> bs_error + (eid option \<times> tips)" where
  "begin_tip E k w =
     with_live k w (\<lambda>i e opts.
       if css_of (ts_page w) e ''display'' = ''none'' then Inl NotVisible
       else if \<not> isWithContent E (tt_class i) (ts_page w) e opts \<or> \<not> tt_isEnabled i then Inr (None, w)
       else
        (let ev = tip_Event (tt_class i) ''show'';
             w1 = on_ts_page (fire ev e) w
         in if te_prevents E ev e (ts_page w1) \<or> \<not> tip_in_dom E (ts_page w1) e then Inr (None, w1)
            else case getTipElement E k w1 of
                (None, _) \<Rightarrow> Inl NullReference
              | (Some t, w2) \<Rightarrow> bindE (open_tip E k i e opts t w2) (\<lambda>w3. Inr (Some t, w3))))"

text \<open>\<^verbatim>\<open>complete\<close> of \<^verbatim>\<open>show\<close> after \<^verbatim>\<open>_fixTransition\<close>.\<close>

definition finish_shown :: "tip_env \<Rightarrow> nat \<Rightarrow> tips \<Rightarrow> bs_error + tips" where
  "finish_shown E k w =
     with_live k w (\<lambda>i e opts.
       let w1 = on_ts_page (fire (tip_Event (tt_class i) ''shown'') e) (edit_tip k (\<lambda>j. j\<lparr>tt_hoverState := NoHover\<rparr>) w)
       in if tt_hoverState i = HoverOut then tip_leave E k None w1 else Inr w1)"

text \<open>\<^verbatim>\<open>show\<close> with what it does when there is no transition to wait for.\<close>

definition show_then :: "tip_env \<Rightarrow> (nat \<Rightarrow> tips \<Rightarrow> bs_error + tips) \<Rightarrow> nat \<Rightarrow> tips \<Rightarrow> bs_error + tips" where
  "show_then E ending k w =
     bindE (begin_tip E k w) (\<lambda>(tip, w1).
       case tip of
         None \<Rightarrow> Inr w1
       | Some t \<Rightarrow> if hasClass ''fade'' (ts_page w1) t then Inr (tip_await t (ShowComplete k) w1) else ending k w1)"

definition set_animation :: "jsval \<Rightarrow> nat \<Rightarrow> tips \<Rightarrow> tips" where
  "set_animation v k = edit_tip k (\<lambda>i. i\<lparr>tt_options := map_option (set_option ''animation'' v) (tt_options i)\<rparr>)"

text \<open>A tip that has lost its placement is hidden and shown once more without a transition; this inner
  \<^verbatim>\<open>show\<close> does not come back here, because the animation is off.\<close>

definition fixTransition :: "tip_env \<Rightarrow> nat \<Rightarrow> tips \<Rightarrow> bs_error + tips" where
  "fixTransition E k w =
     with_live k w (\<lambda>i e opts.
       case getTipElement E k w of
         (None, _) \<Rightarrow> Inl NullReference
       | (Some t, w1) \<Rightarrow>
          (if attribute_of (ts_page w1) t ''x-placement'' \<noteq> None then Inr w1
           else bindE (tip_hide E k (set_animation (JBool False) k (on_ts_page (removeClass ''fade'' t) w1))) (\<lambda>w2.
                bindE (show_then E (finish_shown E) k w2) (\<lambda>w3.
                  Inr (set_animation (o_opt opts ''animation'') k w3)))))"

definition shown_complete :: "tip_env \<Rightarrow> nat \<Rightarrow> tips \<Rightarrow> bs_error + tips" where
  "shown_complete E k w =
     with_live k w (\<lambda>i e opts.
       bindE (if truthy (o_opt opts ''animation'') then fixTransition E k w else Inr w) (finish_shown E k))"

definition tip_show :: "tip_env \<Rightarrow> nat \<Rightarrow> tips \<Rightarrow> bs_error + tips" where
  "tip_show E = show_then E (shown_complete E)"

definition tip_shown :: "tips \<Rightarrow> eid option \<Rightarrow> bool" where
  "tip_shown w tip = (case tip of None \<Rightarrow> False | Some t \<Rightarrow> hasClass ''show'' (ts_page w) t)"

definition tip_enter :: "tip_env \<Rightarrow> nat \<Rightarrow> tip_trigger option \<Rightarrow> tips \<Rightarrow> bs_error + tips" where
  "tip_enter E k trigger w =
     (let w1 = set_trigger trigger True k w
      in with_live k w1 (\<lambda>i e opts.
           let (tip, w2) = getTipElement E k w1
           in if tip_shown w2 tip \<or> tt_hoverState i = HoverShow
              then Inr (edit_tip k (\<lambda>j. j\<lparr>tt_hoverState := HoverShow\<rparr>) w2)
              else
               (let w3 = edit_tip k (\<lambda>j. j\<lparr>tt_hoverState := HoverShow\<rparr>) (clear_timeout (tt_timeout i) w2)
                in if truthy (fst (to_delay opts)) then Inr (set_timeout k HoverShow w3) else tip_show E k w3)))"

section \<open>Instances\<close>

definition trigger_events :: "string \<Rightarrow> tip_event list" where
  "trigger_events trigger =
     (if trigger = ''click'' then [Clicked]
      else if trigger = ''manual'' then []
      else if trigger = ''hover'' then [MouseEnter, MouseLeave]
      else [FocusIn, FocusOut])"

definition fixTitle :: "eid \<Rightarrow> page \<Rightarrow> page" where
  "fixTitle e p =
     (let title = attribute_of p e ''title''
      in if title \<notin> {None, Some []} \<or> attribute_of p e ''data-original-title'' = None
         then setAttribute ''title'' [] e (setAttribute ''data-original-title'' (case title of None \<Rightarrow> [] | Some s \<Rightarrow> s) e p)
         else p)"

definition delegate_selector :: "tip_options \<Rightarrow> string option" where
  "delegate_selector opts = (case o_opt opts ''selector'' of JStr (c # cs) \<Rightarrow> Some (c # cs) | _ \<Rightarrow> None)"

definition setListeners :: "nat \<Rightarrow> eid \<Rightarrow> tip_options \<Rightarrow> tips \<Rightarrow> tips" where
  "setListeners k e opts w =
     (let triggers = (case o_opt opts ''trigger'' of JStr s \<Rightarrow> js_split CHR '' '' s | _ \<Rightarrow> []);
          handlers = map (\<lambda>ev. \<lparr>th_element = e, th_event = ev, th_selector = delegate_selector opts, th_instance = k\<rparr>)
            (concat (map trigger_events triggers));
          modals = (case closest (ts_page w) (hasClass ''modal'' (ts_page w)) e of None \<Rightarrow> [] | Some m \<Rightarrow> [(m, k)]);
          w1 = w\<lparr>ts_handlers := ts_handlers w @ handlers, ts_modals := ts_modals w @ modals\<rparr>
      in if truthy (o_opt opts ''selector'')
         then edit_tip k (\<lambda>i. i\<lparr>tt_options := Some (set_option ''selector'' (JStr []) (set_option ''trigger'' (JStr ''manual'') opts))\<rparr>) w1
         else on_ts_page (fixTitle e) w1)"

definition new_tip :: "tip_env \<Rightarrow> tip_class \<Rightarrow> eid \<Rightarrow> tip_options \<Rightarrow> tips \<Rightarrow> bs_error + (nat \<times> tips)" where
  "new_tip E c e config w =
     (if \<not> te_popper E then Inl NoPopper
      else bindE (tip_getConfig E c (ts_page w) e config) (\<lambda>opts.
        let k = ts_next w;
            w1 = w\<lparr>ts_next := Suc k, ts_heap := (ts_heap w)(k \<mapsto>
              \<lparr>tt_class = c, tt_element = Some e, tt_options = Some opts, tt_tip = None, tt_isEnabled = True, tt_timeout = None,
               tt_hoverState = NoHover, tt_activeTrigger = (\<lambda>_. False), tt_popper = None\<rparr>)\<rparr>
        in Inr (k, setListeners k e opts w1)))"

definition bind_tip :: "tip_class \<Rightarrow> eid \<Rightarrow> nat \<Rightarrow> tips \<Rightarrow> tips" where
  "bind_tip c e k w = w\<lparr>ts_data := (ts_data w)(c := (ts_data w c)(e \<mapsto> k))\<rparr>"

text \<open>\<^verbatim>\<open>dispose\<close>: jQuery's \<^verbatim>\<open>remove\<close> also drops what waits at the tip.\<close>

definition remove_tip :: "eid option \<Rightarrow> tips \<Rightarrow> tips" where
  "remove_tip tip w =
     (case tip of
        None \<Rightarrow> w
      | Some t \<Rightarrow> (detach_tip t w)\<lparr>ts_trans := (ts_trans w)\<lparr>end_handlers := filter (\<lambda>h. fst h \<noteq> t) (end_handlers (ts_trans w))\<rparr>\<rparr>)"

text \<open>The handler at the modal around the element is the last one the instance has bound there; one at a modal that
  the element has left stays.\<close>

definition off_modal :: "nat \<Rightarrow> eid option \<Rightarrow> (eid \<times> nat) list \<Rightarrow> (eid \<times> nat) list" where
  "off_modal k modal ms = (case modal of None \<Rightarrow> ms | Some m \<Rightarrow> rev (remove1 (m, k) (rev ms)))"

definition class_at :: "tips \<Rightarrow> nat \<Rightarrow> tip_class option" where
  "class_at w k = map_option tt_class (ts_heap w k)"

definition tip_dispose :: "nat \<Rightarrow> tips \<Rightarrow> tips" where
  "tip_dispose k w =
     (case live_tip k w of
        None \<Rightarrow> w
      | Some (i, e, opts) \<Rightarrow>
         (let c = tt_class i;
              w1 = clear_timeout (tt_timeout i) w;
              w2 = w1\<lparr>ts_data := (ts_data w1)(c := (ts_data w1 c)(e := None)),
                ts_handlers := filter (\<lambda>h. \<not> (th_element h = e \<and> class_at w (th_instance h) = Some c)) (ts_handlers w1),
                ts_modals := off_modal k (closest (ts_page w) (hasClass ''modal'' (ts_page w)) e) (ts_modals w1)\<rparr>
          in edit_tip k (\<lambda>j. j\<lparr>tt_element := None, tt_options := None, tt_tip := None, tt_isEnabled := False, tt_timeout := None,
                 tt_hoverState := NoHover, tt_activeTrigger := (\<lambda>_. False), tt_popper := None\<rparr>)
               (tip_destroy_popper (tt_popper i) (remove_tip (tt_tip i) w2))))"

text \<open>The instance of an element that an event came to; one that a delegating instance answers for gets its
  own.\<close>

definition context_of :: "tip_env \<Rightarrow> nat \<Rightarrow> eid \<Rightarrow> tips \<Rightarrow> bs_error + (nat \<times> tips)" where
  "context_of E k x w =
     (case ts_heap w k of
        None \<Rightarrow> Inl NullReference
      | Some i \<Rightarrow>
         (case ts_data w (tt_class i) x of
            Some c \<Rightarrow> Inr (c, w)
          | None \<Rightarrow> bindE (new_tip E (tt_class i) x (delegate_options i) w) (\<lambda>(c, w1). Inr (c, bind_tip (tt_class i) x c w1))))"

text \<open>\<^verbatim>\<open>toggle\<close> with an event and without.\<close>

definition tip_toggle_event :: "tip_env \<Rightarrow> nat \<Rightarrow> eid \<Rightarrow> tips \<Rightarrow> bs_error + tips" where
  "tip_toggle_event E k x w =
     (case ts_heap w k of
        None \<Rightarrow> Inl NullReference
      | Some i \<Rightarrow>
         (if \<not> tt_isEnabled i then Inr w
          else bindE (context_of E k x w) (\<lambda>(c, w1).
            with_live c w1 (\<lambda>j e opts.
              let w2 = set_trigger (Some ByClick) (\<not> tt_activeTrigger j ByClick) c w1
              in with_live c w2 (\<lambda>j2 e2 opts2. if isWithActiveTrigger j2 then tip_enter E c None w2 else tip_leave E c None w2)))))"

definition tip_toggle :: "tip_env \<Rightarrow> nat \<Rightarrow> tips \<Rightarrow> bs_error + tips" where
  "tip_toggle E k w =
     with_live k w (\<lambda>i e opts.
       if \<not> tt_isEnabled i then Inr w
       else (let (tip, w1) = getTipElement E k w in if tip_shown w1 tip then tip_leave E k None w1 else tip_enter E k None w1))"

section \<open>Events, timers and the jQuery interface\<close>

definition run_tip_handler :: "tip_env \<Rightarrow> tip_handler \<times> eid \<Rightarrow> tips \<Rightarrow> bs_error + tips" where
  "run_tip_handler E hx w =
     (let k = th_instance (fst hx); x = snd hx;
          on_context = (\<lambda>f. bindE (context_of E k x w) (\<lambda>(c, w1). f c w1))
      in case th_event (fst hx) of
          Clicked \<Rightarrow> tip_toggle_event E k x w
        | MouseEnter \<Rightarrow> on_context (\<lambda>c. tip_enter E c (Some ByHover))
        | MouseLeave \<Rightarrow> on_context (\<lambda>c. tip_leave E c (Some ByHover))
        | FocusIn \<Rightarrow> on_context (\<lambda>c. tip_enter E c (Some ByFocus))
        | FocusOut \<Rightarrow> on_context (\<lambda>c. tip_leave E c (Some ByFocus)))"

text \<open>The handlers that an event runs on its way up, each with its current target: on every element first those
  for elements below it, the lowest first, then its own. The pointer enters or leaves only elements it is not
  \<open>inside\<close> of before and after.\<close>

definition handler_queue :: "tip_env \<Rightarrow> tip_event \<Rightarrow> (eid \<Rightarrow> bool) \<Rightarrow> eid \<Rightarrow> tips \<Rightarrow> (tip_handler \<times> eid) list" where
  "handler_queue E ev inside target w =
     (let p = ts_page w; path = target # parents p target;
          delegated = (\<lambda>a x. map (\<lambda>h. (h, x)) (filter (\<lambda>h. th_element h = a \<and> th_event h = ev
            \<and> (case th_selector h of None \<Rightarrow> False | Some s \<Rightarrow> te_matches E p s x)) (ts_handlers w)));
          direct = (\<lambda>a. map (\<lambda>h. (h, a)) (filter (\<lambda>h. th_element h = a \<and> th_event h = ev \<and> th_selector h = None) (ts_handlers w)))
      in filter (\<lambda>hx. \<not> inside (snd hx))
           (concat (map (\<lambda>a. concat (map (delegated a) (takeWhile (\<lambda>x. x \<noteq> a) path)) @ direct a) path)))"

definition tip_event :: "tip_env \<Rightarrow> tip_event \<Rightarrow> (eid \<Rightarrow> bool) \<Rightarrow> eid \<Rightarrow> tips \<Rightarrow> bs_error + tips" where
  "tip_event E ev inside target w = foldE (run_tip_handler E) (handler_queue E ev inside target w) w"

text \<open>\<^verbatim>\<open>_hideModalHandler\<close>, when the modal around the element hides.\<close>

definition hideModalHandler :: "tip_env \<Rightarrow> nat \<Rightarrow> tips \<Rightarrow> bs_error + tips" where
  "hideModalHandler E k w = (case live_tip k w of None \<Rightarrow> Inr w | Some _ \<Rightarrow> tip_hide E k w)"

definition modal_hides :: "tip_env \<Rightarrow> eid \<Rightarrow> tips \<Rightarrow> bs_error + tips" where
  "modal_hides E m w = foldE (hideModalHandler E) (map snd (filter (\<lambda>x. fst x = m) (ts_modals w))) w"

definition tip_timer :: "tip_env \<Rightarrow> nat \<Rightarrow> tips \<Rightarrow> bs_error + tips" where
  "tip_timer E n w =
     (case map_of (ts_timers w) n of
        None \<Rightarrow> Inr w
      | Some (k, h) \<Rightarrow>
         (let w1 = clear_timeout (Some n) w
          in case ts_heap w1 k of
              None \<Rightarrow> Inr w1
            | Some i \<Rightarrow>
               if tt_hoverState i \<noteq> h then Inr w1
               else if h = HoverShow then tip_show E k w1 else tip_hide E k w1))"

definition tip_complete :: "tip_env \<Rightarrow> tip_cb \<Rightarrow> tips \<Rightarrow> bs_error + tips" where
  "tip_complete E cb = (case cb of ShowComplete k \<Rightarrow> shown_complete E k | HideComplete k t \<Rightarrow> hide_complete k t)"

definition tip_transitionend :: "tip_env \<Rightarrow> eid \<Rightarrow> tips \<Rightarrow> bs_error + tips" where
  "tip_transitionend E x w =
     (case dispatch_end x (ts_trans w) of (tr, cbs) \<Rightarrow> foldE (tip_complete E) cbs (w\<lparr>ts_trans := tr\<rparr>))"

definition tip_emulator :: "tip_env \<Rightarrow> nat \<Rightarrow> tips \<Rightarrow> bs_error + tips" where
  "tip_emulator E n w =
     (case emulator_timeout n (ts_trans w) of (tr, cbs) \<Rightarrow> foldE (tip_complete E) cbs (w\<lparr>ts_trans := tr\<rparr>))"

definition set_enabled :: "(bool \<Rightarrow> bool) \<Rightarrow> nat \<Rightarrow> tips \<Rightarrow> tips" where
  "set_enabled f k = edit_tip k (\<lambda>i. i\<lparr>tt_isEnabled := f (tt_isEnabled i)\<rparr>)"

text \<open>The methods that jQuery calls by name, without arguments. Those that only compute change nothing, those
  that need an argument fail, fields are no functions.\<close>

definition tip_method :: "tip_env \<Rightarrow> string \<Rightarrow> nat \<Rightarrow> tips \<Rightarrow> bs_error + tips" where
  "tip_method E m k w =
     with_live k w (\<lambda>i e opts.
       let c = tt_class i; (tip, w1) = getTipElement E k w
       in if m = ''toggle'' then tip_toggle E k w
          else if m = ''show'' then tip_show E k w
          else if m = ''hide'' then tip_hide E k w
          else if m = ''dispose'' then Inr (tip_dispose k w)
          else if m = ''update'' then Inr (tip_update k w)
          else if m = ''enable'' then Inr (set_enabled (\<lambda>_. True) k w)
          else if m = ''disable'' then Inr (set_enabled (\<lambda>_. False) k w)
          else if m = ''toggleEnabled'' then Inr (set_enabled Not k w)
          else if m = ''getTipElement'' then Inr w1
          else if m = ''setContent'' then (case tip of None \<Rightarrow> Inl NullReference | Some t \<Rightarrow> tip_setContent E c e opts t w1)
          else if m = ''addAttachmentClass'' then Inr (on_tip (addAttachmentClass c None) tip w1)
          else if m = ''_cleanTipClass'' then (if tip = None then Inl NullReference else Inr (on_tip (cleanTipClass c) tip w1))
          else if m = ''_fixTransition'' then fixTransition E k w
          else if m = ''_fixTitle'' then Inr (on_ts_page (fixTitle e) w)
          else if m = ''_setListeners'' then Inr (setListeners k e opts w)
          else if m = ''_hideModalHandler'' then hideModalHandler E k w
          else if m = ''_getContainer'' then bindE (getContainer E (ts_page w) opts) (\<lambda>_. Inr w)
          else if m = ''_getConfig'' then bindE (tip_getConfig E c (ts_page w) e no_options) (\<lambda>_. Inr w)
          else if m \<in> {''isWithContent'', ''getTitle'', ''_getPopperConfig'', ''_getOffset'', ''_getDelegateConfig'', ''_isWithActiveTrigger''}
            \<or> m = ''_getContent'' \<and> c = PopoverClass then Inr w
          else if m \<in> {''_enter'', ''_leave'', ''_getAttachment'', ''_handlePopperPlacementChange'', ''setElementContent''}
          then Inl NullReference
          else if m \<in> {''_isEnabled'', ''_timeout'', ''_hoverState'', ''_activeTrigger'', ''_popper'', ''element'', ''config'', ''tip''}
          then Inl (NotAFunction m)
          else Inl (NoMethod m))"

datatype tip_arg = TipOptions "tip_options option" | TipMethod string

definition tip_jQueryInterface :: "tip_env \<Rightarrow> tip_class \<Rightarrow> tip_arg \<Rightarrow> eid \<Rightarrow> tips \<Rightarrow> bs_error + tips" where
  "tip_jQueryInterface E c arg e w =
     (case ts_data w c e of
        Some k \<Rightarrow> (case arg of TipOptions _ \<Rightarrow> Inr w | TipMethod m \<Rightarrow> tip_method E m k w)
      | None \<Rightarrow>
         (case arg of
            TipOptions config \<Rightarrow>
              bindE (new_tip E c e (case config of None \<Rightarrow> no_options | Some opts \<Rightarrow> opts) w) (\<lambda>(k, w1). Inr (bind_tip c e k w1))
          | TipMethod m \<Rightarrow>
              if js_contains m ''dispose'' \<or> js_contains m ''hide'' then Inr w
              else bindE (new_tip E c e no_options w) (\<lambda>(k, w1). tip_method E m k (bind_tip c e k w1))))"

end
