(* ===== verification/Bs_Tooltip_Inv.thy ===== *)
theory Bs_Tooltip_Inv
  imports Bs_Tooltip
begin

text \<open>
  The small steps that the operations of tooltips and popovers are made of. Every operation that returns is a
  sequence of them, so what every small step keeps holds in all states that the page reaches.
\<close>

section \<open>Small steps\<close>

definition owns_tip :: "tips \<Rightarrow> nat \<Rightarrow> eid \<Rightarrow> bool" where
  "owns_tip w k t \<longleftrightarrow> (\<exists>i e opts. live_tip k w = Some (i, e, opts) \<and> tt_tip i = Some t)"

definition same_core :: "tooltip \<Rightarrow> tooltip \<Rightarrow> bool" where
  "same_core i j \<longleftrightarrow> tt_class j = tt_class i \<and> tt_element j = tt_element i \<and> tt_options j = tt_options i
     \<and> tt_tip j = tt_tip i \<and> tt_timeout j = tt_timeout i \<and> tt_popper j = tt_popper i"

text \<open>What a function without parameters gives that the function for a title or a content has returned: it goes by
  the sanitizer.\<close>

definition raw_html :: "tip_env \<Rightarrow> string set" where
  "raw_html E = {s. (\<exists>e. te_call E ''title'' e = JFun \<or> te_call E ''content'' e = JFun) \<and> te_length0 E JFun \<and> (\<exists>slot. te_applied E slot = JStr s)}"

text \<open>The parameter tells which options a script may pass.\<close>

inductive tip_step :: "tip_env \<Rightarrow> (tip_options \<Rightarrow> bool) \<Rightarrow> tips \<Rightarrow> tips \<Rightarrow> bool" for E A where
  outer: "tip_step E A w (w\<lparr>ts_page := p, ts_attached := a, ts_clones := c, ts_slots := s, ts_created := cr, ts_scheduled := sc,
    ts_noops := n\<rparr>)"
| make: "live_tip k w = Some (i, e, opts) \<Longrightarrow> tt_tip i = None \<Longrightarrow>
    tip_step E A w (edit_tip k (\<lambda>j. j\<lparr>tt_tip := Some (ts_fresh w)\<rparr>) (w\<lparr>ts_fresh := Suc (ts_fresh w)\<rparr>))"
| content: "live_tip k w = Some (i, e, opts) \<Longrightarrow>
    (\<And>s. c = HtmlContent s \<Longrightarrow> truthy (o_opt opts ''sanitize'') \<Longrightarrow> s \<in> raw_html E \<or> (\<exists>x. s = tip_sanitize E opts x)) \<Longrightarrow>
    tip_step E A w (w\<lparr>ts_content := (ts_content w)(t := (ts_content w t)(slot \<mapsto> c))\<rparr>)"
| popper: "owns_tip w k t \<Longrightarrow> tq_instance q = k \<Longrightarrow> tq_tip q = t \<Longrightarrow> tq_id q = ts_next_popper w \<Longrightarrow>
    tip_step E A w (edit_tip k (\<lambda>i. i\<lparr>tt_popper := Some q\<rparr>) (w\<lparr>ts_poppers := ts_poppers w @ [q], ts_next_popper := Suc (ts_next_popper w)\<rparr>))"
| unpopper: "ts_heap w k = Some i \<Longrightarrow> tt_popper i = Some q \<Longrightarrow>
    tip_step E A w (w\<lparr>ts_poppers := filter (\<lambda>r. tq_id r \<noteq> tq_id q) (ts_poppers w)\<rparr>)"
| core: "(\<And>i. same_core i (f i)) \<Longrightarrow> tip_step E A w (edit_tip k f w)"
| animation: "type_matches ''boolean'' (value_type v) \<Longrightarrow> tip_step E A w (set_animation v k w)"
| clear: "tip_step E A w (clear_timeout n w)"
| retime: "live_tip k w = Some (i, e, opts) \<Longrightarrow>
    tip_step E A w (set_timeout k h (edit_tip k (\<lambda>j. j\<lparr>tt_hoverState := h\<rparr>) (clear_timeout (tt_timeout i) w)))"
| await: "owns_tip w k t \<Longrightarrow> cb \<in> {ShowComplete k, HideComplete k t} \<Longrightarrow> tip_step E A w (tip_await t cb w)"
| ended: "set (end_handlers tr) \<subseteq> set (end_handlers (ts_trans w)) \<Longrightarrow> tip_step E A w (w\<lparr>ts_trans := tr\<rparr>)"
| alloc: "tip_getConfig E c p e config = Inr opts \<Longrightarrow> A config \<or> (\<exists>k i. ts_heap w k = Some i \<and> config = delegate_options i) \<Longrightarrow>
    tip_step E A w (w\<lparr>ts_next := Suc (ts_next w), ts_heap := (ts_heap w)(ts_next w \<mapsto>
      \<lparr>tt_class = c, tt_element = Some e, tt_options = Some opts, tt_tip = None, tt_isEnabled = True, tt_timeout = None,
       tt_hoverState = NoHover, tt_activeTrigger = (\<lambda>_. False), tt_popper = None\<rparr>)\<rparr>)"
| listen: "live_tip k w = Some (i, e, opts) \<Longrightarrow> \<forall>h \<in> set hs. th_instance h = k \<and> th_element h = e \<Longrightarrow> \<forall>m \<in> set ms. snd m = k \<Longrightarrow>
    tip_step E A w (w\<lparr>ts_handlers := ts_handlers w @ hs, ts_modals := ts_modals w @ ms\<rparr>)"
| delegate: "live_tip k w = Some (i, e, opts) \<Longrightarrow>
    tip_step E A w (edit_tip k (\<lambda>i. i\<lparr>tt_options := Some (set_option ''selector'' (JStr []) (set_option ''trigger'' (JStr ''manual'') opts))\<rparr>) w)"
| bind: "live_tip k w = Some (i, e, opts) \<Longrightarrow> tt_class i = c \<Longrightarrow> tip_step E A w (bind_tip c e k w)"
| dispose: "tip_step E A w (tip_dispose k w)"
| placement: "q \<in> set (ts_poppers w) \<Longrightarrow> tip_step E A w (edit_tip (tq_instance q) (\<lambda>j. j\<lparr>tt_tip := Some (tq_tip q)\<rparr>) w)"

abbreviation tip_steps :: "tip_env \<Rightarrow> (tip_options \<Rightarrow> bool) \<Rightarrow> tips \<Rightarrow> tips \<Rightarrow> bool" where
  "tip_steps E A \<equiv> (tip_step E A)\<^sup>*\<^sup>*"

section \<open>Instances in the heap\<close>

lemma heap_edit: "ts_heap (edit_tip k f w) j = (if j = k then map_option f (ts_heap w k) else ts_heap w j)"
  by (simp add: edit_tip_def)

lemma live_edit:
  assumes "\<And>i. tt_element (f i) = tt_element i" "\<And>i. tt_options (f i) = tt_options i"
  shows "live_tip j (edit_tip k f w) =
     (if j = k then map_option (\<lambda>(i, e, opts). (f i, e, opts)) (live_tip k w) else live_tip j w)"
  by (auto simp: live_tip_def heap_edit assms split: option.splits)

lemma live_cong: "ts_heap w' = ts_heap w \<Longrightarrow> live_tip k w' = live_tip k w"
  by (simp add: live_tip_def)

lemma live_fields:
  "live_tip k w = Some (i, e, opts) \<longleftrightarrow> ts_heap w k = Some i \<and> tt_element i = Some e \<and> tt_options i = Some opts"
  by (auto simp: live_tip_def split: option.splits)

lemma with_live_Inr:
  "with_live k w f = Inr r \<longleftrightarrow> (\<exists>i e opts. live_tip k w = Some (i, e, opts) \<and> f i e opts = Inr r)"
  by (auto simp: with_live_def split: option.splits)

lemma edit_fields [simp]:
  "ts_page (edit_tip k f w) = ts_page w" "ts_next (edit_tip k f w) = ts_next w" "ts_data (edit_tip k f w) = ts_data w"
  "ts_handlers (edit_tip k f w) = ts_handlers w" "ts_modals (edit_tip k f w) = ts_modals w"
  "ts_timers (edit_tip k f w) = ts_timers w" "ts_next_timer (edit_tip k f w) = ts_next_timer w"
  "ts_trans (edit_tip k f w) = ts_trans w" "ts_attached (edit_tip k f w) = ts_attached w"
  "ts_slots (edit_tip k f w) = ts_slots w" "ts_content (edit_tip k f w) = ts_content w"
  "ts_fresh (edit_tip k f w) = ts_fresh w" "ts_poppers (edit_tip k f w) = ts_poppers w"
  "ts_next_popper (edit_tip k f w) = ts_next_popper w" "ts_noops (edit_tip k f w) = ts_noops w"
  "ts_clones (edit_tip k f w) = ts_clones w" "ts_created (edit_tip k f w) = ts_created w"
  "ts_scheduled (edit_tip k f w) = ts_scheduled w"
  by (simp_all add: edit_tip_def)

section \<open>Options of the declared types\<close>

definition typed_options :: "tip_class \<Rightarrow> tip_options \<Rightarrow> bool" where
  "typed_options c opts \<longleftrightarrow> (\<forall>(k, t) \<in> set (tip_DefaultType c). type_matches t (value_type (o_opt opts k)))"

definition tips_typed :: "tips \<Rightarrow> bool" where
  "tips_typed w \<longleftrightarrow> (\<forall>k i opts. ts_heap w k = Some i \<longrightarrow> tt_options i = Some opts \<longrightarrow> typed_options (tt_class i) opts)"

lemma opt_set_option [simp]: "o_opt (set_option k v opts) j = (if j = k then v else o_opt opts j)"
  by (simp add: set_option_def opt_def)

lemma typed_set:
  assumes "typed_options c opts" "\<And>t. (k, t) \<in> set (tip_DefaultType c) \<Longrightarrow> type_matches t (value_type v)"
  shows "typed_options c (set_option k v opts)"
  using assms by (auto simp: typed_options_def)

lemma option_types:
  "(''template'', t) \<in> set (tip_DefaultType c) \<longleftrightarrow> t = ''string''"
  "(''animation'', t) \<in> set (tip_DefaultType c) \<longleftrightarrow> t = ''boolean''"
  "(''selector'', t) \<in> set (tip_DefaultType c) \<longleftrightarrow> t = ''(string|boolean)''"
  "(''trigger'', t) \<in> set (tip_DefaultType c) \<longleftrightarrow> t = ''string''"
  by (cases c; simp add: tip_DefaultType_def tooltip_DefaultType_def popover_DefaultType_def)+

lemma text_types:
  "type_matches ''string'' (value_type (JStr s))" "type_matches ''(string|boolean)'' (value_type (JStr s))"
  "type_matches ''boolean'' (value_type (JBool b))"
  by (simp_all add: value_type_def toType_def isElement_def) code_simp+

lemma typed_sanitized: "typed_options c opts \<Longrightarrow> typed_options c (sanitize_template E opts)"
  by (auto simp: sanitize_template_def option_types text_types intro: typed_set split: jsval.splits)

lemma config_typed:
  assumes "tip_getConfig E c p e config = Inr opts"
  shows "typed_options c opts"
proof -
  obtain o1 where "typeCheckConfig (to_config o1) (tip_DefaultType c) = Inr ()" and o: "opts = sanitize_template E o1"
    using assms by (auto simp: tip_getConfig_def Let_def bindE_Inr_conv)
  then have "typed_options c o1" unfolding typeCheckConfig_ok typed_options_def by blast
  then show ?thesis unfolding o by (rule typed_sanitized)
qed

section \<open>Operations are sequences of small steps\<close>

lemma step_then [trans]: "tip_step E A w v \<Longrightarrow> tip_steps E A v u \<Longrightarrow> tip_steps E A w u"
  by (rule converse_rtranclp_into_rtranclp)

lemma steps_trans [trans]: "tip_steps E A w v \<Longrightarrow> tip_steps E A v u \<Longrightarrow> tip_steps E A w u"
  by (rule rtranclp_trans)

lemma on_page_step: "tip_step E A w (on_ts_page f w)"
proof -
  have "on_ts_page f w = w\<lparr>ts_page := f (ts_page w), ts_attached := ts_attached w, ts_clones := ts_clones w, ts_slots := ts_slots w,
      ts_created := ts_created w, ts_scheduled := ts_scheduled w, ts_noops := ts_noops w\<rparr>"
    by (simp add: on_ts_page_def)
  then show ?thesis using outer by metis
qed

lemma attached_step: "tip_step E A w (w\<lparr>ts_attached := a, ts_clones := c\<rparr>)"
proof -
  have "w\<lparr>ts_attached := a, ts_clones := c\<rparr> = w\<lparr>ts_page := ts_page w, ts_attached := a, ts_clones := c, ts_slots := ts_slots w,
      ts_created := ts_created w, ts_scheduled := ts_scheduled w, ts_noops := ts_noops w\<rparr>"
    by simp
  then show ?thesis using outer by metis
qed

lemma counters_step:
  "tip_step E A w (w\<lparr>ts_slots := s, ts_created := cr, ts_scheduled := sc, ts_noops := n\<rparr>)"
proof -
  have "w\<lparr>ts_slots := s, ts_created := cr, ts_scheduled := sc, ts_noops := n\<rparr> = w\<lparr>ts_page := ts_page w, ts_attached := ts_attached w,
      ts_clones := ts_clones w, ts_slots := s, ts_created := cr, ts_scheduled := sc, ts_noops := n\<rparr>"
    by simp
  then show ?thesis using outer by metis
qed

lemma steps_step [trans]: "tip_steps E A w v \<Longrightarrow> tip_step E A v u \<Longrightarrow> tip_steps E A w u"
  by (rule rtranclp.rtrancl_into_rtrancl)

lemma page_steps [intro!]: "tip_steps E A w v \<Longrightarrow> tip_steps E A w (on_ts_page f v)"
  by (rule steps_step [OF _ on_page_step])

lemma detach_steps [intro!]: "tip_steps E A w v \<Longrightarrow> tip_steps E A w (detach_tip t v)"
  using attached_step [where w = v and a = "filter (\<lambda>a. fst a \<noteq> t) (ts_attached v)" and c = "ts_clones v"]
  by (auto simp: detach_tip_def intro: steps_step)

lemma append_steps [intro!]: "tip_steps E A w v \<Longrightarrow> tip_steps E A w (append_tip t cs v)"
  using attached_step [where w = v and a = "(t, last cs) # filter (\<lambda>a. fst a \<noteq> t) (ts_attached v)" and c = "ts_clones v @ butlast cs"]
  by (auto simp: append_tip_def intro: steps_step)

lemma noops_steps [intro!]: "tip_steps E A w v \<Longrightarrow> tip_steps E A w (tip_noops F n v)"
  using counters_step [where w = v and s = "ts_slots v" and cr = "ts_created v" and sc = "ts_scheduled v" and n = n]
  by (auto simp: tip_noops_def intro: steps_step)

lemma on_tip_steps [intro!]: "tip_steps E A w v \<Longrightarrow> tip_steps E A w (on_tip f t v)"
  by (auto simp: on_tip_def split: option.splits)

lemma core_steps: "tip_steps E A w v \<Longrightarrow> (\<And>i. same_core i (f i)) \<Longrightarrow> tip_steps E A w (edit_tip k f v)"
  by (rule steps_step [OF _ core])

lemma same_core_simps [simp]:
  "same_core i (i\<lparr>tt_hoverState := h\<rparr>)" "same_core i (i\<lparr>tt_activeTrigger := a\<rparr>)" "same_core i (i\<lparr>tt_isEnabled := b\<rparr>)"
  by (simp_all add: same_core_def)

lemma hover_steps [intro!]: "tip_steps E A w v \<Longrightarrow> tip_steps E A w (edit_tip k (\<lambda>j. j\<lparr>tt_hoverState := h\<rparr>) v)"
  by (simp add: core_steps)

lemma active_steps [intro!]: "tip_steps E A w v \<Longrightarrow> tip_steps E A w (edit_tip k (\<lambda>j. j\<lparr>tt_activeTrigger := g (tt_activeTrigger j)\<rparr>) v)"
  by (simp add: core_steps)

lemma enabled_steps [intro!]: "tip_steps E A w v \<Longrightarrow> tip_steps E A w (edit_tip k (\<lambda>j. j\<lparr>tt_isEnabled := b (tt_isEnabled j)\<rparr>) v)"
  by (simp add: core_steps)

lemma destroy_steps:
  assumes s: "tip_steps E A w v" and i: "ts_heap v k = Some i"
  shows "tip_steps E A w (tip_destroy_popper (tt_popper i) v)"
  using steps_step [OF s unpopper [OF i]] s by (cases "tt_popper i") (auto simp: tip_destroy_popper_def Let_def)

lemma slots_step: "tip_step E A w (w\<lparr>ts_slots := s\<rparr>)"
proof -
  have "w\<lparr>ts_slots := s\<rparr> = w\<lparr>ts_slots := s, ts_created := ts_created w, ts_scheduled := ts_scheduled w, ts_noops := ts_noops w\<rparr>"
    by simp
  then show ?thesis using counters_step by metis
qed

lemma make_steps:
  assumes "live_tip k w = Some (i, e, opts)" "tt_tip i = None"
  shows "tip_steps E A w (make_tip k tm w)"
  unfolding make_tip_def Let_def using make [OF assms] by (intro page_steps steps_step [OF _ slots_step]) blast

lemma getTip_cases:
  assumes "getTipElement E k w = (tip, v)"
  obtains (same) "v = w" "\<And>i e opts. live_tip k w = Some (i, e, opts) \<Longrightarrow> tt_tip i = tip"
  | (made) i e opts tm where "live_tip k w = Some (i, e, opts)" "tt_tip i = None" "tip = Some (ts_fresh w)" "v = make_tip k tm w"
  using assms by (fastforce simp: getTipElement_def split: option.splits jsval.splits)

lemma getTip_steps:
  assumes "getTipElement E k w = (tip, v)"
  shows "tip_steps E A w v"
  using assms by (cases rule: getTip_cases) (auto intro: make_steps)

lemma heap_fields [simp]:
  "ts_heap (on_ts_page f w) = ts_heap w" "ts_heap (detach_tip t w) = ts_heap w" "ts_heap (append_tip t cs w) = ts_heap w"
  "ts_heap (tip_noops E n w) = ts_heap w" "ts_heap (on_tip g t' w) = ts_heap w" "ts_heap (tip_destroy_popper q w) = ts_heap w"
  "ts_heap (tip_await t cb w) = ts_heap w" "ts_heap (clear_timeout m w) = ts_heap w" "ts_heap (put_content t slot c w) = ts_heap w"
  by (simp_all add: on_ts_page_def detach_tip_def append_tip_def tip_noops_def on_tip_def tip_destroy_popper_def Let_def tip_await_def
      clear_timeout_def put_content_def split: option.splits)

lemma heap_make: "ts_heap (make_tip k tm w) j = (if j = k then map_option (\<lambda>i. i\<lparr>tt_tip := Some (ts_fresh w)\<rparr>) (ts_heap w k) else ts_heap w j)"
  by (simp add: make_tip_def Let_def edit_tip_def)

lemma getTip_live:
  assumes "getTipElement E k w = (tip, v)" "live_tip k w = Some (i, e, opts)"
  shows "live_tip k v = Some (i\<lparr>tt_tip := tip\<rparr>, e, opts)"
  using assms(1)
proof (cases rule: getTip_cases)
  case same
  then have "i\<lparr>tt_tip := tip\<rparr> = i" using same(2) [OF assms(2)] by (cases i) auto
  then show ?thesis using same(1) assms(2) by simp
next
  case made
  then show ?thesis using assms(2) by (simp add: live_fields heap_make)
qed

lemma owns_getTip:
  "getTipElement E k w = (Some t, v) \<Longrightarrow> live_tip k w = Some (i, e, opts) \<Longrightarrow> owns_tip v k t"
  using getTip_live [of E k w "Some t" v i e opts] by (simp add: owns_tip_def)

lemma owns_cong: "ts_heap v = ts_heap w \<Longrightarrow> owns_tip v k t = owns_tip w k t"
  by (simp add: owns_tip_def live_tip_def)

lemma content_cases:
  "jq_html E t slot v w = w \<or> (\<exists>c. jq_html E t slot v w = put_content t slot c w
     \<and> (\<forall>s. c = HtmlContent s \<longrightarrow> v = JStr s \<or> v = JFun \<and> te_applied E slot = JStr s))"
  "jq_text E t slot v w = w \<or> (\<exists>s. jq_text E t slot v w = put_content t slot (TextContent s) w)"
  by (auto simp: jq_html_def put_html_def split: jsval.splits) (auto simp: jq_text_def Let_def)

lemma heap_content: "setElementContent E opts t slot v w = Inr w' \<Longrightarrow> ts_heap w' = ts_heap w"
proof -
  have "ts_heap (jq_html E t slot u w) = ts_heap w" "ts_heap (jq_text E t slot u w) = ts_heap w" for u
    using content_cases(1) [of E t slot u w] content_cases(2) [of E t slot u w] by auto
  then show "setElementContent E opts t slot v w = Inr w' \<Longrightarrow> ts_heap w' = ts_heap w"
    by (auto simp: setElementContent_def split: if_splits)
qed

lemma content_steps:
  assumes "live_tip k w = Some (i, e, opts)" "setElementContent E opts t slot v w = Inr w'"
    and f: "v = JFun \<Longrightarrow> \<exists>e. te_call E ''title'' e = JFun \<or> te_call E ''content'' e = JFun"
  shows "tip_steps E A w w'"
proof -
  let ?ok = "\<lambda>c. \<forall>s. c = HtmlContent s \<longrightarrow> truthy (o_opt opts ''sanitize'') \<longrightarrow> s \<in> raw_html E \<or> (\<exists>x. s = tip_sanitize E opts x)"
  have put: "tip_steps E A w (put_content t slot c w)" if "?ok c" for c
    using content [OF assms(1), of c] that by (auto simp: put_content_def)
  have html: "tip_steps E A w (jq_html E t slot u w)"
    if u: "\<And>s. u = JStr s \<Longrightarrow> truthy (o_opt opts ''sanitize'') \<Longrightarrow> \<exists>x. s = tip_sanitize E opts x"
      "u = JFun \<Longrightarrow> truthy (o_opt opts ''sanitize'') \<Longrightarrow> v = JFun \<and> te_length0 E JFun" for u
    using content_cases(1) [of E t slot u w]
  proof (elim disjE exE conjE)
    fix c assume c: "jq_html E t slot u w = put_content t slot c w"
      "\<forall>s. c = HtmlContent s \<longrightarrow> u = JStr s \<or> u = JFun \<and> te_applied E slot = JStr s"
    have "?ok c" using c(2) u f by (auto simp: raw_html_def)
    then show ?thesis using put c(1) by simp
  qed simp
  have plain: "tip_steps E A w (jq_text E t slot v w)"
    using content_cases(2) [of E t slot v w] put by auto
  have "tip_sanitize E opts [] = []" by (simp add: tip_sanitize_def sanitizeHtml_def)
  then have zero: "\<And>s. v = JStr s \<Longrightarrow> length_zero E v \<Longrightarrow> \<exists>x. s = tip_sanitize E opts x"
    "v = JFun \<Longrightarrow> length_zero E v \<Longrightarrow> v = JFun \<and> te_length0 E JFun" by (auto simp: length_zero_def intro: exI [of _ "[]"])
  show ?thesis
    using assms(2) put html [of v] html [of "JStr (tip_sanitize E opts (tip_text E v))"] plain zero
    by (auto simp: setElementContent_def split: if_splits)
qed

lemma content_function:
  "getTitle E p e opts = JFun \<Longrightarrow> \<exists>e. te_call E ''title'' e = JFun \<or> te_call E ''content'' e = JFun"
  "popover_content E p e opts = JFun \<Longrightarrow> \<exists>e. te_call E ''title'' e = JFun \<or> te_call E ''content'' e = JFun"
  by (auto simp: getTitle_def popover_content_def Let_def attribute_or_def split: option.splits list.splits if_splits)

lemma setContent_steps:
  assumes l: "live_tip k w = Some (i, e, opts)" and run: "tip_setContent E c e opts t w = Inr w'"
  shows "tip_steps E A w w'" "ts_heap w' = ts_heap w"
proof -
  obtain v where v: "w' = on_ts_page (\<lambda>p. removeClass ''show'' t (removeClass ''fade'' t p)) v"
    and r: "setElementContent E opts t ''tooltip-inner'' (getTitle E (ts_page w) e opts) w = Inr v
      \<or> (\<exists>u. setElementContent E opts t ''popover-header'' (getTitle E (ts_page w) e opts) w = Inr u
          \<and> setElementContent E opts t ''popover-body'' (popover_content E (ts_page u) e opts) u = Inr v)"
    using run by (cases c) (auto simp: tip_setContent_def bindE_Inr_conv)
  have "tip_steps E A w v \<and> ts_heap v = ts_heap w"
    using r
  proof (elim disjE exE conjE)
    fix u assume u: "setElementContent E opts t ''popover-header'' (getTitle E (ts_page w) e opts) w = Inr u"
      "setElementContent E opts t ''popover-body'' (popover_content E (ts_page u) e opts) u = Inr v"
    have "live_tip k u = Some (i, e, opts)" using l live_cong [OF heap_content [OF u(1)]] by simp
    then show ?thesis
      using steps_trans [OF content_steps [OF l u(1) content_function(1)] content_steps [OF _ u(2) content_function(2)]] heap_content [OF u(1)] heap_content [OF u(2)] by simp
  qed (use content_steps [OF l _ content_function(1)] heap_content in blast)
  then show "tip_steps E A w w'" "ts_heap w' = ts_heap w" using v by auto
qed

lemma new_popper_steps:
  assumes "owns_tip w k t"
  shows "tip_steps E A w (tip_new_popper F k e opts t a w)"
proof -
  define q where "q = \<lparr>tq_id = ts_next_popper w, tq_instance = k, tq_reference = e, tq_tip = t, tq_config = tip_getPopperConfig F e opts a\<rparr>"
  have "tip_steps E A w (edit_tip k (\<lambda>i. i\<lparr>tt_popper := Some q\<rparr>) (w\<lparr>ts_poppers := ts_poppers w @ [q], ts_next_popper := Suc (ts_next_popper w)\<rparr>))"
    using popper [OF assms, of q] by (auto simp: q_def)
  then show ?thesis unfolding tip_new_popper_def Let_def q_def [symmetric] by auto
qed

lemma heap_new_popper:
  "ts_heap (tip_new_popper F k e opts t a w) = (ts_heap w)(k := map_option (\<lambda>i. i\<lparr>tt_popper := Some
     \<lparr>tq_id = ts_next_popper w, tq_instance = k, tq_reference = e, tq_tip = t, tq_config = tip_getPopperConfig F e opts a\<rparr>\<rparr>) (ts_heap w k))"
  by (simp add: tip_new_popper_def Let_def edit_tip_def)

lemma open_steps:
  assumes l: "live_tip k w = Some (i, e, opts)" and t: "tt_tip i = Some t" and run: "open_tip E k j e opts t w = Inr w'"
  shows "tip_steps E A w w'" "owns_tip w' k t"
proof -
  obtain ident w1 a cs where sc: "tip_setContent E (tt_class j) e opts t
        (on_ts_page (\<lambda>p. setAttribute ''aria-describedby'' ident e (setAttribute ''id'' ident t p)) w) = Inr w1"
    and w': "w' = (let w2 = on_ts_page (\<lambda>p. addAttachmentClass (tt_class j) a t (if truthy (o_opt opts ''animation'') then addClass ''fade'' t p else p)) w1;
        w3 = (if tip_in_document w2 t then w2 else append_tip t cs w2);
        w4 = tip_new_popper E k e opts t a (on_ts_page (fire (tip_Event (tt_class j) ''inserted'') e) w3)
      in tip_noops E (Suc (ts_noops w4)) (on_ts_page (addClass ''show'' t) w4))"
    using run by (auto simp: open_tip_def bindE_Inr_conv Let_def split: option.splits)
  let ?v = "on_ts_page (\<lambda>p. setAttribute ''aria-describedby'' ident e (setAttribute ''id'' ident t p)) w"
  have lv: "live_tip k ?v = Some (i, e, opts)" using l by (simp add: live_tip_def)
  note s1 = setContent_steps [OF lv sc]
  define w3 where "w3 = (let w2 = on_ts_page (\<lambda>p. addAttachmentClass (tt_class j) a t (if truthy (o_opt opts ''animation'') then addClass ''fade'' t p else p)) w1
    in on_ts_page (fire (tip_Event (tt_class j) ''inserted'') e) (if tip_in_document w2 t then w2 else append_tip t cs w2))"
  have h3: "ts_heap w3 = ts_heap w" using s1(2) by (simp add: w3_def Let_def)
  have "tip_steps E A w w1" by (rule steps_trans [OF page_steps [OF rtranclp.rtrancl_refl] s1(1)])
  then have s3: "tip_steps E A w w3" by (auto simp: w3_def Let_def)
  have o3: "owns_tip w3 k t" using l t owns_cong [OF h3] by (simp add: owns_tip_def)
  have w4: "w' = tip_noops E (Suc (ts_noops (tip_new_popper E k e opts t a w3))) (on_ts_page (addClass ''show'' t) (tip_new_popper E k e opts t a w3))"
    by (simp add: w' w3_def Let_def)
  show "tip_steps E A w w'" unfolding w4 using steps_trans [OF s3 new_popper_steps [OF o3]] by blast
  show "owns_tip w' k t"
    using o3 by (auto simp: w4 owns_tip_def live_fields heap_new_popper)
qed

lemma begin_steps:
  assumes run: "begin_tip E k w = Inr (tip, w')"
  shows "tip_steps E A w w'" "tip = Some t \<Longrightarrow> owns_tip w' k t"
proof -
  obtain i e opts where l: "live_tip k w = Some (i, e, opts)" using run by (auto simp: begin_tip_def with_live_Inr)
  define w1 where "w1 = on_ts_page (fire (tip_Event (tt_class i) ''show'') e) w"
  have s1: "tip_steps E A w w1" by (auto simp: w1_def)
  have l1: "live_tip k w1 = Some (i, e, opts)" using l by (simp add: w1_def live_tip_def)
  have "tip = None \<and> w' \<in> {w, w1} \<or> (\<exists>t w2. getTipElement E k w1 = (Some t, w2) \<and> open_tip E k i e opts t w2 = Inr w' \<and> tip = Some t)"
    using run l by (cases "getTipElement E k w1"; cases "fst (getTipElement E k w1)")
      (auto simp: begin_tip_def with_live_Inr bindE_Inr_conv w1_def [symmetric] Let_def split: if_splits)
  then have "tip_steps E A w w' \<and> (\<forall>t. tip = Some t \<longrightarrow> owns_tip w' k t)"
  proof (elim disjE exE conjE)
    fix u w2 assume g: "getTipElement E k w1 = (Some u, w2)" "open_tip E k i e opts u w2 = Inr w'" "tip = Some u"
    have l2: "live_tip k w2 = Some (i\<lparr>tt_tip := Some u\<rparr>, e, opts)" by (rule getTip_live [OF g(1) l1])
    note o = open_steps [OF l2 _ g(2)]
    show ?thesis using steps_trans [OF s1 steps_trans [OF getTip_steps [OF g(1)] o(1)]] o(2) g(3) by simp
  qed (use s1 in auto)
  then show "tip_steps E A w w'" "tip = Some t \<Longrightarrow> owns_tip w' k t" by blast+
qed

lemma await_steps: "owns_tip w k t \<Longrightarrow> cb \<in> {ShowComplete k, HideComplete k t} \<Longrightarrow> tip_steps E A w (tip_await t cb w)"
  using await by blast

lemma hide_complete_steps:
  assumes "hide_complete k t w = Inr w'"
  shows "tip_steps E A w w'"
proof -
  obtain i e opts where l: "live_tip k w = Some (i, e, opts)"
    and w': "w' = tip_destroy_popper (tt_popper i) (on_ts_page (\<lambda>p. fire (tip_Event (tt_class i) ''hidden'') e (unsetAttribute ''aria-describedby'' e p))
      (on_tip (cleanTipClass (tt_class i)) (tt_tip i) (if tt_hoverState i = HoverShow then w else detach_tip t w)))"
    using assms by (auto simp: hide_complete_def with_live_Inr Let_def)
  show ?thesis unfolding w' by (rule destroy_steps) (use l in \<open>auto simp: live_fields\<close>)
qed

lemma owns_core: "(\<And>i. same_core i (f i)) \<Longrightarrow> owns_tip (edit_tip k f w) j t = owns_tip w j t"
  by (auto simp: owns_tip_def live_fields heap_edit same_core_def)

lemma owns_others:
  "owns_tip (on_ts_page f w) k t = owns_tip w k t" "owns_tip (tip_noops E n w) k t = owns_tip w k t"
  "owns_tip (clear_timeout m w) k t = owns_tip w k t"
  by (rule owns_cong, simp)+

lemma hide_steps:
  assumes run: "tip_hide E k w = Inr w'"
  shows "tip_steps E A w w'"
proof -
  obtain i e opts where l: "live_tip k w = Some (i, e, opts)" using run by (auto simp: tip_hide_def with_live_Inr)
  obtain tip w1 where g: "getTipElement E k w = (tip, w1)" by fastforce
  define w2 where "w2 = on_ts_page (fire (tip_Event (tt_class i) ''hide'') e) w1"
  define w3 where "w3 t = edit_tip k (\<lambda>j. j\<lparr>tt_activeTrigger := (\<lambda>_. False)\<rparr>) (tip_noops E 0 (on_ts_page (removeClass ''show'' t) w2))" for t
  have s2: "tip_steps E A w w2" using getTip_steps [OF g] by (auto simp: w2_def)
  have "w' = w2 \<or> (\<exists>t w4. tip = Some t \<and> w' = edit_tip k (\<lambda>j. j\<lparr>tt_hoverState := NoHover\<rparr>) w4
      \<and> (w4 = tip_await t (HideComplete k t) (w3 t) \<or> hide_complete k t (w3 t) = Inr w4))"
    using run l g by (cases tip)
      (auto simp: tip_hide_def with_live_Inr bindE_Inr_conv w2_def [symmetric] w3_def [symmetric] Let_def split: if_splits)
  then consider "w' = w2" | t w4 where "tip = Some t" "w' = edit_tip k (\<lambda>j. j\<lparr>tt_hoverState := NoHover\<rparr>) w4"
      "w4 = tip_await t (HideComplete k t) (w3 t) \<or> hide_complete k t (w3 t) = Inr w4" by blast
  then show ?thesis
  proof cases
    case (2 t w4)
    have s3: "tip_steps E A w (w3 t)" using s2 by (auto simp: w3_def)
    have "owns_tip w1 k t" by (rule owns_getTip [OF g [unfolded 2(1)] l])
    then have "owns_tip (w3 t) k t" by (simp add: w3_def w2_def owns_core owns_others)
    then have "tip_steps E A (w3 t) w4"
      using 2(3) await_steps [of "w3 t" k t] hide_complete_steps [of k t "w3 t" w4] by auto
    then show ?thesis using steps_trans [OF s3] 2(2) by auto
  qed (use s2 in simp)
qed

lemma clear_steps [intro!]: "tip_steps E A w v \<Longrightarrow> tip_steps E A w (clear_timeout n v)"
  by (rule steps_step [OF _ clear])

lemma trigger_steps [intro!]: "tip_steps E A w v \<Longrightarrow> tip_steps E A w (set_trigger trig b k v)"
  by (auto simp: set_trigger_def split: option.splits)

lemma leave_steps:
  assumes run: "tip_leave E k trig w = Inr w'"
  shows "tip_steps E A w w'"
proof -
  define w1 where "w1 = set_trigger trig False k w"
  have s1: "tip_steps E A w w1" by (auto simp: w1_def)
  obtain i e opts where l: "live_tip k w1 = Some (i, e, opts)"
    and r: "w' = w1 \<or> w' = set_timeout k HoverOut (edit_tip k (\<lambda>j. j\<lparr>tt_hoverState := HoverOut\<rparr>) (clear_timeout (tt_timeout i) w1))
      \<or> tip_hide E k (edit_tip k (\<lambda>j. j\<lparr>tt_hoverState := HoverOut\<rparr>) (clear_timeout (tt_timeout i) w1)) = Inr w'"
    using run by (auto simp: tip_leave_def w1_def [symmetric] with_live_Inr Let_def split: if_splits)
  have "tip_steps E A w1 (edit_tip k (\<lambda>j. j\<lparr>tt_hoverState := HoverOut\<rparr>) (clear_timeout (tt_timeout i) w1))" by auto
  then show ?thesis using r s1 steps_step [OF s1 retime [OF l]] hide_steps steps_trans by blast
qed

lemma finish_steps:
  assumes run: "finish_shown E k w = Inr w'"
  shows "tip_steps E A w w'"
proof -
  obtain i :: tooltip and e where r: "let v = on_ts_page (fire (tip_Event (tt_class i) ''shown'') e) (edit_tip k (\<lambda>j. j\<lparr>tt_hoverState := NoHover\<rparr>) w)
      in w' = v \<or> tip_leave E k None v = Inr w'"
    using run by (auto simp: finish_shown_def with_live_Inr Let_def split: if_splits)
  have "tip_steps E A w (on_ts_page (fire (tip_Event (tt_class i) ''shown'') e) (edit_tip k (\<lambda>j. j\<lparr>tt_hoverState := NoHover\<rparr>) w))"
    by auto
  then show ?thesis using r leave_steps steps_trans unfolding Let_def by blast
qed

section \<open>Typed options are kept\<close>

lemma heap_bind: "ts_heap (bind_tip c e k w) = ts_heap w"
  by (simp add: bind_tip_def)

lemma heap_dispose:
  "ts_heap (tip_dispose k w) = (if live_tip k w = None then ts_heap w
     else (ts_heap w)(k := map_option (\<lambda>j. j\<lparr>tt_element := None, tt_options := None, tt_tip := None, tt_isEnabled := False, tt_timeout := None,
                 tt_hoverState := NoHover, tt_activeTrigger := (\<lambda>_. False), tt_popper := None\<rparr>) (ts_heap w k)))"
  by (auto simp: tip_dispose_def Let_def edit_tip_def remove_tip_def split: option.splits)

lemma tips_typed_edit:
  assumes "tips_typed w" "\<And>i. tt_class (f i) = tt_class i"
    and "\<And>i opts. ts_heap w k = Some i \<Longrightarrow> tt_options (f i) = Some opts \<Longrightarrow> typed_options (tt_class i) opts"
  shows "tips_typed (edit_tip k f w)"
  using assms by (auto simp: tips_typed_def heap_edit split: if_splits)

lemma typed_step: "tip_step E A w v \<Longrightarrow> tips_typed w \<Longrightarrow> tips_typed v"
proof (induction rule: tip_step.induct)
  case (animation v k w)
  show ?case unfolding set_animation_def
    by (rule tips_typed_edit [OF animation(2)]) (use animation in \<open>auto simp: tips_typed_def option_types intro: typed_set\<close>)
next
  case (alloc c p e config opts w)
  show ?case using alloc(3) config_typed [OF alloc(1)] by (auto simp: tips_typed_def)
next
  case (delegate k w i e opts)
  have "typed_options (tt_class i) opts" using delegate by (auto simp: tips_typed_def live_fields)
  then show ?case
    by (intro tips_typed_edit [OF delegate(2)]) (use delegate(1) in \<open>auto simp: live_fields option_types text_types intro!: typed_set\<close>)
next
  case (core f w k)
  then show ?case by (intro tips_typed_edit) (auto simp: same_core_def tips_typed_def)
next
  case (dispose w k)
  then show ?case by (auto simp: tips_typed_def heap_dispose)
qed (auto simp: tips_typed_def heap_edit heap_bind set_timeout_def tip_await_def)

lemma typed_steps: "tip_steps E A w v \<Longrightarrow> tips_typed w \<Longrightarrow> tips_typed v"
  by (induction rule: rtranclp.induct) (auto dest: typed_step)

section \<open>The operations that need typed options\<close>

lemma animation_steps: "tip_steps E A w v \<Longrightarrow> type_matches ''boolean'' (value_type x) \<Longrightarrow> tip_steps E A w (set_animation x k v)"
  by (rule steps_step [OF _ animation])

lemma live_typed: "tips_typed w \<Longrightarrow> live_tip k w = Some (i, e, opts) \<Longrightarrow> typed_options (tt_class i) opts"
  by (auto simp: tips_typed_def live_fields)

lemma live_animation:
  assumes "tips_typed w" "live_tip k w = Some (i, e, opts)"
  shows "type_matches ''boolean'' (value_type (o_opt opts ''animation''))"
proof -
  have "typed_options (tt_class i) opts" by (rule live_typed [OF assms])
  moreover have "(''animation'', ''boolean'') \<in> set (tip_DefaultType (tt_class i))" by (simp only: option_types)
  ultimately show ?thesis unfolding typed_options_def by blast
qed

lemma show_then_steps:
  assumes "show_then E ending k w = Inr w'" "\<And>v. tip_steps E A w v \<Longrightarrow> ending k v = Inr w' \<Longrightarrow> tip_steps E A v w'"
  shows "tip_steps E A w w'"
proof -
  obtain tip v where b: "begin_tip E k w = Inr (tip, v)"
    and r: "w' = v \<or> ending k v = Inr w' \<or> (\<exists>t. tip = Some t \<and> w' = tip_await t (ShowComplete k) v)"
    using assms(1) by (auto simp: show_then_def bindE_Inr_conv split: option.splits if_splits)
  note s = begin_steps [OF b]
  have "tip_steps E A v (tip_await t (ShowComplete k) v)" if "tip = Some t" for t
    using await_steps [OF s(2) [OF that]] by simp
  then show ?thesis using r s(1) assms(2) [OF s(1)] steps_trans [OF s(1)] by auto
qed

lemma fix_steps:
  assumes ty: "tips_typed w" and run: "fixTransition E k w = Inr w'"
  shows "tip_steps E A w w'"
proof -
  obtain i e opts where l: "live_tip k w = Some (i, e, opts)" using run by (auto simp: fixTransition_def with_live_Inr)
  obtain tip w1 where g: "getTipElement E k w = (tip, w1)" by fastforce
  have s1: "tip_steps E A w w1" by (rule getTip_steps [OF g])
  define w2 where "w2 t = set_animation (JBool False) k (on_ts_page (removeClass ''fade'' t) w1)" for t
  have s2: "tip_steps E A w (w2 t)" for t
    unfolding w2_def by (rule animation_steps [OF _ text_types(3)]) (use s1 in auto)
  consider "w' = w1" | t u v where "tip_hide E k (w2 t) = Inr u" "show_then E (finish_shown E) k u = Inr v"
      "w' = set_animation (o_opt opts ''animation'') k v"
    using run l g by (cases tip) (auto simp: fixTransition_def with_live_Inr bindE_Inr_conv w2_def [symmetric] split: if_splits)
  then show ?thesis
  proof cases
    case (2 t u v)
    have u: "tip_steps E A w u" by (rule steps_trans [OF s2 hide_steps [OF 2(1)]])
    have "tip_steps E A u v" by (rule show_then_steps [OF 2(2) finish_steps])
    then show ?thesis unfolding 2(3) by (intro animation_steps steps_trans [OF u] live_animation [OF ty l])
  qed (use s1 in simp)
qed

lemma shown_steps:
  assumes ty: "tips_typed w" and run: "shown_complete E k w = Inr w'"
  shows "tip_steps E A w w'"
proof -
  obtain v where "v = w \<or> fixTransition E k w = Inr v" "finish_shown E k v = Inr w'"
    using run by (auto simp: shown_complete_def with_live_Inr bindE_Inr_conv split: if_splits)
  then have "tip_steps E A w v" "tip_steps E A v w'" using fix_steps [OF ty] finish_steps by auto
  then show ?thesis by (rule steps_trans)
qed

lemma show_steps:
  assumes ty: "tips_typed w" and run: "tip_show E k w = Inr w'"
  shows "tip_steps E A w w'"
  by (rule show_then_steps [OF run [unfolded tip_show_def]]) (rule shown_steps [OF typed_steps [OF _ ty]])

lemma enter_steps:
  assumes ty: "tips_typed w" and run: "tip_enter E k trig w = Inr w'"
  shows "tip_steps E A w w'"
proof -
  define w1 where "w1 = set_trigger trig True k w"
  have s1: "tip_steps E A w w1" by (auto simp: w1_def)
  obtain i e opts where l: "live_tip k w1 = Some (i, e, opts)"
    using run by (auto simp: tip_enter_def w1_def [symmetric] with_live_Inr)
  obtain tip w2 where g: "getTipElement E k w1 = (tip, w2)" by fastforce
  have s2: "tip_steps E A w w2" by (rule steps_trans [OF s1 getTip_steps [OF g]])
  define w3 where "w3 = edit_tip k (\<lambda>j. j\<lparr>tt_hoverState := HoverShow\<rparr>) (clear_timeout (tt_timeout i) w2)"
  have s3: "tip_steps E A w w3" using s2 by (auto simp: w3_def)
  have l2: "live_tip k w2 = Some (i\<lparr>tt_tip := tip\<rparr>, e, opts)" by (rule getTip_live [OF g l])
  have rt: "tip_step E A w2 (set_timeout k HoverShow w3)" using retime [OF l2, of E A HoverShow] by (simp add: w3_def)
  have r: "(if tip_shown w2 tip \<or> tt_hoverState i = HoverShow then Inr (edit_tip k (\<lambda>j. j\<lparr>tt_hoverState := HoverShow\<rparr>) w2)
      else if truthy (fst (to_delay opts)) then Inr (set_timeout k HoverShow w3) else tip_show E k w3) = Inr w'"
    using run by (simp only: tip_enter_def Let_def w1_def [symmetric] with_live_def l option.case prod.case g w3_def [symmetric])
  consider "w' = edit_tip k (\<lambda>j. j\<lparr>tt_hoverState := HoverShow\<rparr>) w2" | "w' = set_timeout k HoverShow w3" | "tip_show E k w3 = Inr w'"
    using r by (metis sum.inject(2))
  then show ?thesis
  proof cases
    case 1
    then show ?thesis using s2 by auto
  next
    case 2
    then show ?thesis using steps_step [OF s2 rt] by simp
  next
    case 3
    show ?thesis by (rule steps_trans [OF s3 show_steps [OF typed_steps [OF s3 ty] 3]])
  qed
qed

lemma toggle_steps:
  assumes ty: "tips_typed w" and run: "tip_toggle E k w = Inr w'"
  shows "tip_steps E A w w'"
proof -
  obtain tip v where g: "getTipElement E k w = (tip, v)" by fastforce
  have s: "tip_steps E A w v" by (rule getTip_steps [OF g])
  consider "w' = w" | "tip_leave E k None v = Inr w'" | "tip_enter E k None v = Inr w'"
    using run g by (auto simp: tip_toggle_def with_live_Inr split: if_splits)
  then show ?thesis
    by cases (use steps_trans [OF s leave_steps] steps_trans [OF s enter_steps [OF typed_steps [OF s ty]]] in auto)
qed

section \<open>New instances\<close>

lemma listeners_steps:
  assumes l: "live_tip k w = Some (i, e, opts)"
  shows "tip_steps E A w (setListeners k e opts w)" "live_tip k (setListeners k e opts w) \<noteq> None"
    "class_at (setListeners k e opts w) k = class_at w k"
proof -
  obtain hs ms where h: "\<forall>h \<in> set hs. th_instance h = k \<and> th_element h = e" "\<forall>m \<in> set ms. snd m = k"
    and v: "setListeners k e opts w = (let w1 = w\<lparr>ts_handlers := ts_handlers w @ hs, ts_modals := ts_modals w @ ms\<rparr> in
      if truthy (o_opt opts ''selector'')
      then edit_tip k (\<lambda>i. i\<lparr>tt_options := Some (set_option ''selector'' (JStr []) (set_option ''trigger'' (JStr ''manual'') opts))\<rparr>) w1
      else on_ts_page (fixTitle e) w1)"
  proof
    show "\<forall>h \<in> set (map (\<lambda>ev. \<lparr>th_element = e, th_event = ev, th_selector = delegate_selector opts, th_instance = k\<rparr>)
      (concat (map trigger_events (case o_opt opts ''trigger'' of JStr s \<Rightarrow> js_split CHR '' '' s | _ \<Rightarrow> [])))). th_instance h = k \<and> th_element h = e"
      by auto
    show "\<forall>m \<in> set (case closest (ts_page w) (hasClass ''modal'' (ts_page w)) e of None \<Rightarrow> [] | Some m \<Rightarrow> [(m, k)]). snd m = k"
      by (simp split: option.splits)
  qed (simp add: setListeners_def Let_def)
  let ?u = "w\<lparr>ts_handlers := ts_handlers w @ hs, ts_modals := ts_modals w @ ms\<rparr>"
  have s: "tip_steps E A w ?u" using listen [OF l h] by blast
  have lu: "live_tip k ?u = Some (i, e, opts)" using l by (simp add: live_tip_def)
  show "tip_steps E A w (setListeners k e opts w)"
    unfolding v Let_def using steps_step [OF s delegate [OF lu]] s by auto
  show "live_tip k (setListeners k e opts w) \<noteq> None" "class_at (setListeners k e opts w) k = class_at w k"
    using l by (auto simp: v Let_def live_fields heap_edit class_at_def live_tip_def split: option.splits)
qed

lemma new_tip_steps:
  assumes run: "new_tip E c e config w = Inr (k, v)" and ok: "A config \<or> (\<exists>k i. ts_heap w k = Some i \<and> config = delegate_options i)"
  shows "tip_steps E A w (bind_tip c e k v)"
proof -
  obtain opts where o: "tip_getConfig E c (ts_page w) e config = Inr opts" and k: "k = ts_next w"
    and v: "v = setListeners k e opts (w\<lparr>ts_next := Suc k, ts_heap := (ts_heap w)(k \<mapsto>
      \<lparr>tt_class = c, tt_element = Some e, tt_options = Some opts, tt_tip = None, tt_isEnabled = True, tt_timeout = None,
       tt_hoverState = NoHover, tt_activeTrigger = (\<lambda>_. False), tt_popper = None\<rparr>)\<rparr>)" (is "_ = setListeners k e opts ?w1")
    using run by (auto simp: new_tip_def bindE_Inr_conv Let_def split: if_splits)
  have s1: "tip_steps E A w ?w1" using alloc [where w = w and A = A, OF o ok] k by auto
  have l1: "live_tip k ?w1 = Some (\<lparr>tt_class = c, tt_element = Some e, tt_options = Some opts, tt_tip = None, tt_isEnabled = True,
      tt_timeout = None, tt_hoverState = NoHover, tt_activeTrigger = (\<lambda>_. False), tt_popper = None\<rparr>, e, opts)"
    by (simp add: live_tip_def)
  note s2 = listeners_steps(1) [OF l1, where E = E and A = A, folded v] listeners_steps(2,3) [OF l1, folded v]
  obtain i x o2 where l2: "live_tip k v = Some (i, x, o2)" using s2(2) by fastforce
  have c: "tt_class i = c" using s2(3) l2 by (simp add: class_at_def live_fields)
  have "x = e" using l2 by (auto simp: v setListeners_def Let_def live_fields heap_edit split: if_splits)
  then show ?thesis using steps_step [OF steps_trans [OF s1 s2(1)] bind [OF l2 c]] by simp
qed

lemma context_steps:
  assumes run: "context_of E k x w = Inr (c, v)"
  shows "tip_steps E A w v"
proof -
  obtain i where i: "ts_heap w k = Some i" using run by (auto simp: context_of_def split: option.splits)
  have "v = w \<or> (\<exists>u. new_tip E (tt_class i) x (delegate_options i) w = Inr (c, u) \<and> v = bind_tip (tt_class i) x c u)"
    using run i by (auto simp: context_of_def bindE_Inr_conv split: option.splits)
  moreover have "tip_steps E A w (bind_tip (tt_class i) x c u)" if "new_tip E (tt_class i) x (delegate_options i) w = Inr (c, u)" for u
    by (rule new_tip_steps [OF that]) (use i in blast)
  ultimately show ?thesis by blast
qed

lemma toggle_event_steps:
  assumes ty: "tips_typed w" and run: "tip_toggle_event E k x w = Inr w'"
  shows "tip_steps E A w w'"
proof -
  have "w' = w \<or> (\<exists>c v b. context_of E k x w = Inr (c, v)
      \<and> (tip_enter E c None (set_trigger (Some ByClick) b c v) = Inr w' \<or> tip_leave E c None (set_trigger (Some ByClick) b c v) = Inr w'))"
  proof (cases "context_of E k x w")
    case (Inr cv)
    obtain c v where cv: "cv = (c, v)" by (cases cv)
    show ?thesis
      using run Inr unfolding cv tip_toggle_event_def
      by (cases "ts_heap w k") (auto simp: with_live_Inr Let_def split: if_splits)
  qed (use run in \<open>auto simp: tip_toggle_event_def split: option.splits if_splits\<close>)
  then show ?thesis
  proof (elim disjE exE conjE)
    fix c v b assume c: "context_of E k x w = Inr (c, v)"
    let ?v = "set_trigger (Some ByClick) b c v"
    have s: "tip_steps E A w ?v" using context_steps [OF c] by blast
    show "tip_steps E A w w'" if "tip_enter E c None ?v = Inr w'"
      by (rule steps_trans [OF s enter_steps [OF typed_steps [OF s ty] that]])
    show "tip_steps E A w w'" if "tip_leave E c None ?v = Inr w'" by (rule steps_trans [OF s leave_steps [OF that]])
  qed simp
qed

lemma handler_steps:
  assumes ty: "tips_typed w" and run: "run_tip_handler E hx w = Inr w'"
  shows "tip_steps E A w w'"
proof -
  have "tip_toggle_event E (th_instance (fst hx)) (snd hx) w = Inr w'
    \<or> (\<exists>c v t. context_of E (th_instance (fst hx)) (snd hx) w = Inr (c, v) \<and> (tip_enter E c t v = Inr w' \<or> tip_leave E c t v = Inr w'))"
    using run by (auto simp: run_tip_handler_def Let_def bindE_Inr_conv split: tip_event.splits)
  then show ?thesis
  proof (elim disjE exE conjE)
    fix c v t assume c: "context_of E (th_instance (fst hx)) (snd hx) w = Inr (c, v)"
    have s: "tip_steps E A w v" by (rule context_steps [OF c])
    show "tip_steps E A w w'" if "tip_enter E c t v = Inr w'"
      by (rule steps_trans [OF s enter_steps [OF typed_steps [OF s ty] that]])
    show "tip_steps E A w w'" if "tip_leave E c t v = Inr w'" by (rule steps_trans [OF s leave_steps [OF that]])
  qed (rule toggle_event_steps [OF ty])
qed

lemma foldE_steps:
  assumes "\<And>x v v'. tips_typed v \<Longrightarrow> f x v = Inr v' \<Longrightarrow> tip_steps E A v v'" "tips_typed w" "foldE f xs w = Inr w'"
  shows "tip_steps E A w w'"
  using assms(2,3)
proof (induction xs arbitrary: w)
  case (Cons x xs)
  obtain v where v: "f x w = Inr v" "foldE f xs v = Inr w'" using Cons.prems by (auto simp: bindE_Inr_conv)
  have s: "tip_steps E A w v" by (rule assms(1) [OF Cons.prems(1) v(1)])
  show ?case by (rule steps_trans [OF s Cons.IH [OF typed_steps [OF s Cons.prems(1)] v(2)]])
qed simp

lemma event_steps: "tips_typed w \<Longrightarrow> tip_event E ev inside target w = Inr w' \<Longrightarrow> tip_steps E A w w'"
  unfolding tip_event_def by (rule foldE_steps [OF handler_steps])

lemma modal_handler_steps: "hideModalHandler E k w = Inr w' \<Longrightarrow> tip_steps E A w w'"
  by (auto simp: hideModalHandler_def split: option.splits intro: hide_steps)

lemma modal_steps: "tips_typed w \<Longrightarrow> modal_hides E m w = Inr w' \<Longrightarrow> tip_steps E A w w'"
  unfolding modal_hides_def by (rule foldE_steps [OF modal_handler_steps])

lemma complete_steps: "tips_typed w \<Longrightarrow> tip_complete E cb w = Inr w' \<Longrightarrow> tip_steps E A w w'"
  by (auto simp: tip_complete_def split: tip_cb.splits intro: shown_steps hide_complete_steps)

lemma ends_steps:
  assumes ty: "tips_typed w" and tr: "set (end_handlers tr) \<subseteq> set (end_handlers (ts_trans w))"
    and run: "foldE (tip_complete E) cbs (w\<lparr>ts_trans := tr\<rparr>) = Inr w'"
  shows "tip_steps E A w w'"
proof -
  have s: "tip_steps E A w (w\<lparr>ts_trans := tr\<rparr>)" using ended [OF tr] by blast
  show ?thesis by (rule steps_trans [OF s foldE_steps [OF complete_steps typed_steps [OF s ty] run]])
qed

lemma transitionend_steps: "tips_typed w \<Longrightarrow> tip_transitionend E x w = Inr w' \<Longrightarrow> tip_steps E A w w'"
  unfolding tip_transitionend_def split_beta by (rule ends_steps) simp_all

lemma emulator_steps: "tips_typed w \<Longrightarrow> tip_emulator E n w = Inr w' \<Longrightarrow> tip_steps E A w w'"
  unfolding tip_emulator_def split_beta by (rule ends_steps [OF _ emulator_runs_subset(2)])

lemma timer_steps:
  assumes ty: "tips_typed w" and run: "tip_timer E n w = Inr w'"
  shows "tip_steps E A w w'"
proof -
  have s: "tip_steps E A w (clear_timeout (Some n) w)" by auto
  have tv: "tips_typed (clear_timeout (Some n) w)" by (rule typed_steps [OF s ty])
  have r: "w' = w \<or> w' = clear_timeout (Some n) w
      \<or> (\<exists>k. tip_show E k (clear_timeout (Some n) w) = Inr w' \<or> tip_hide E k (clear_timeout (Some n) w) = Inr w')"
  proof (cases "map_of (ts_timers w) n")
    case (Some kh)
    obtain k h where "kh = (k, h)" by (cases kh)
    then show ?thesis using run Some
      by (cases "ts_heap w k") (auto simp: tip_timer_def Let_def split: if_splits)
  qed (use run in \<open>simp add: tip_timer_def\<close>)
  then show ?thesis
    using s steps_trans [OF s show_steps [OF tv]] steps_trans [OF s hide_steps] by (elim disjE exE) simp_all
qed

section \<open>Poppers and calls by name\<close>

lemma change_steps:
  assumes s: "tip_steps E A w v" and q: "q \<in> set (ts_poppers v)"
  shows "tip_steps E A w (handlePopperPlacementChange q pl v)"
  using steps_step [OF s placement [OF q]] s
  by (cases "ts_heap v (tq_instance q)") (simp_all add: handlePopperPlacementChange_def page_steps)

lemma created_step: "tip_step E A w (w\<lparr>ts_created := c\<rparr>)"
proof -
  have "w\<lparr>ts_created := c\<rparr> = w\<lparr>ts_slots := ts_slots w, ts_created := c, ts_scheduled := ts_scheduled w, ts_noops := ts_noops w\<rparr>"
    by simp
  then show ?thesis using counters_step by metis
qed

lemma scheduled_step: "tip_step E A w (w\<lparr>ts_scheduled := c\<rparr>)"
proof -
  have "w\<lparr>ts_scheduled := c\<rparr> = w\<lparr>ts_slots := ts_slots w, ts_created := ts_created w, ts_scheduled := c, ts_noops := ts_noops w\<rparr>"
    by simp
  then show ?thesis using counters_step by metis
qed

lemma popper_update_steps: "tip_steps E A w (tip_popper_update n pl w)"
proof (cases "find (\<lambda>q. tq_id q = n) (ts_poppers w)")
  case (Some q)
  then have q: "q \<in> set (ts_poppers w)" by (auto simp: find_Some_iff)
  define w1 where "w1 = (if tc_applyStyle (tq_config q) then on_ts_page (setAttribute ''x-placement'' pl (tq_tip q)) w else w)"
  define w2 where "w2 = w1\<lparr>ts_created := n # ts_created w1\<rparr>"
  have p: "ts_poppers w1 = ts_poppers w" by (simp add: w1_def on_ts_page_def)
  have s1: "tip_steps E A w w1" by (auto simp: w1_def)
  have s2: "tip_steps E A w w2" unfolding w2_def by (rule steps_step [OF s1 created_step])
  have "tip_steps E A w (handlePopperPlacementChange q pl w1)" "tip_steps E A w (handlePopperPlacementChange q pl w2)"
    using change_steps [OF s1] change_steps [OF s2] q p by (simp_all add: w2_def)
  then show ?thesis using s1 s2 Some by (simp add: tip_popper_update_def w1_def [symmetric] w2_def [symmetric] Let_def)
qed (simp add: tip_popper_update_def)

definition steps_result :: "tip_env \<Rightarrow> (tip_options \<Rightarrow> bool) \<Rightarrow> tips \<Rightarrow> bs_error + tips \<Rightarrow> bool" where
  "steps_result E A w r \<longleftrightarrow> (\<forall>w'. r = Inr w' \<longrightarrow> tip_steps E A w w')"

lemma steps_result_intros:
  "steps_result E A w x \<Longrightarrow> steps_result E A w y \<Longrightarrow> steps_result E A w (if b then x else y)"
  "steps_result E A w (Inl err)" "tip_steps E A w v \<Longrightarrow> steps_result E A w (Inr v)"
  "(\<And>v. x = Inr v \<Longrightarrow> tip_steps E A w v) \<Longrightarrow> steps_result E A w x"
  by (auto simp: steps_result_def)

lemma method_steps:
  assumes ty: "tips_typed w"
  shows "steps_result E A w (tip_method E m k w)"
proof (cases "live_tip k w")
  case (Some l)
  obtain i e opts where l: "l = (i, e, opts)" by (cases l)
  obtain tip w1 where g: "getTipElement E k w = (tip, w1)" by fastforce
  note Some = Some [unfolded l]
  have s1: "tip_steps E A w w1" by (rule getTip_steps [OF g])
  have calls: "steps_result E A w (tip_toggle E k w)" "steps_result E A w (tip_show E k w)" "steps_result E A w (tip_hide E k w)"
    "steps_result E A w (fixTransition E k w)" "steps_result E A w (hideModalHandler E k w)"
    by (simp_all add: steps_result_def toggle_steps [OF ty] show_steps [OF ty] hide_steps fix_steps [OF ty] modal_handler_steps)
  have sets: "steps_result E A w (Inr (set_enabled f k w))" "steps_result E A w (Inr (tip_update k w))"
    "steps_result E A w (Inr (tip_dispose k w))" "steps_result E A w (Inr (on_ts_page (fixTitle e) w))"
    "steps_result E A w (Inr (setListeners k e opts w))" "steps_result E A w (Inr w1)" "steps_result E A w (Inr w)"
    "steps_result E A w (Inr (on_tip h tip w1))" for f h
    using s1 listeners_steps(1) [OF Some, of E A] dispose [of E A w k] scheduled_step [of E A w]
    by (auto simp: set_enabled_def tip_update_def steps_result_def split: option.splits)
  have content: "steps_result E A w (case tip of None \<Rightarrow> Inl NullReference | Some t \<Rightarrow> tip_setContent E (tt_class i) e opts t w1)"
    using setContent_steps(1) [OF getTip_live [OF g Some]] steps_trans [OF s1] by (auto simp: steps_result_def split: option.splits)
  have pure: "steps_result E A w (bindE x (\<lambda>_. Inr w))" for x :: "bs_error + 'b"
    by (cases x) (simp_all add: steps_result_def)
  show ?thesis
    unfolding tip_method_def with_live_def Some option.case prod.case Let_def g
    by (intro steps_result_intros(1,2) calls sets content pure)
qed (simp add: tip_method_def with_live_def steps_result_def)

lemma interface_steps:
  assumes ty: "tips_typed w" and run: "tip_jQueryInterface E c arg e w = Inr w'"
    and ok: "A no_options" "\<And>opts. arg = TipOptions (Some opts) \<Longrightarrow> A opts"
  shows "tip_steps E A w w'"
proof (cases "ts_data w c e")
  case (Some k)
  then show ?thesis using run method_steps [OF ty, of E A _ k]
    by (cases arg) (auto simp: tip_jQueryInterface_def steps_result_def)
next
  case None
  have new: "tip_steps E A w (bind_tip c e k v)" if "new_tip E c e opts w = Inr (k, v)" "A opts" for opts k v
    by (rule new_tip_steps [OF that(1)]) (use that(2) in blast)
  show ?thesis
  proof (cases arg)
    case (TipOptions config)
    then obtain k v opts where "new_tip E c e opts w = Inr (k, v)" "w' = bind_tip c e k v" "A opts"
      using run None ok by (cases config) (auto simp: tip_jQueryInterface_def bindE_Inr_conv)
    then show ?thesis using new by simp
  next
    case (TipMethod m)
    then consider "w' = w" | k v where "new_tip E c e no_options w = Inr (k, v)" "tip_method E m k (bind_tip c e k v) = Inr w'"
      using run None by (auto simp: tip_jQueryInterface_def bindE_Inr_conv split: if_splits)
    then show ?thesis
    proof cases
      case (2 k v)
      have s: "tip_steps E A w (bind_tip c e k v)" by (rule new [OF 2(1) ok(1)])
      show ?thesis using steps_trans [OF s] method_steps [OF typed_steps [OF s ty], of E A m k] 2(2)
        by (auto simp: steps_result_def)
    qed simp
  qed
qed

end
