(* ===== verification/Bs_Tooltip_Live.thy ===== *)
theory Bs_Tooltip_Live
  imports Bs_Tooltip_Inv
begin

text \<open>
  The states that the tooltips and popovers of a page reach, and what holds in all of them: the options have
  the declared types, nothing that is still to come refers to an instance that is gone, and what they put
  into the page is sanitized.
\<close>

section \<open>Reachable states\<close>

definition no_tips :: "page \<Rightarrow> eid \<Rightarrow> tips" where
  "no_tips p fresh = \<lparr>ts_page = p, ts_heap = (\<lambda>_. None), ts_next = 0, ts_data = (\<lambda>_ _. None), ts_handlers = [], ts_modals = [],
     ts_timers = [], ts_next_timer = 0, ts_trans = no_transitions, ts_attached = [], ts_clones = [], ts_slots = (\<lambda>_. []),
     ts_content = (\<lambda>_ _. None), ts_fresh = fresh, ts_poppers = [], ts_created = [], ts_scheduled = [], ts_next_popper = 0, ts_noops = 0\<rparr>"

text \<open>The first parameter tells what is known of the page and the browser, the second which options a script
  passes. Between two steps the rest of the page may change in any way.\<close>

inductive tips_later :: "(tip_env \<Rightarrow> bool) \<Rightarrow> (tip_options \<Rightarrow> bool) \<Rightarrow> tips \<Rightarrow> tips \<Rightarrow> bool" for Env A w0 where
  now: "tips_later Env A w0 w0"
| page: "tips_later Env A w0 w \<Longrightarrow> tips_later Env A w0 (on_ts_page f w)"
| interface: "tips_later Env A w0 w \<Longrightarrow> Env E \<Longrightarrow> (\<forall>opts. arg = TipOptions (Some opts) \<longrightarrow> A opts) \<Longrightarrow>
    tip_jQueryInterface E c arg e w = Inr w' \<Longrightarrow> tips_later Env A w0 w'"
| event: "tips_later Env A w0 w \<Longrightarrow> Env E \<Longrightarrow> tip_event E ev inside target w = Inr w' \<Longrightarrow> tips_later Env A w0 w'"
| modal: "tips_later Env A w0 w \<Longrightarrow> Env E \<Longrightarrow> modal_hides E m w = Inr w' \<Longrightarrow> tips_later Env A w0 w'"
| timer: "tips_later Env A w0 w \<Longrightarrow> Env E \<Longrightarrow> tip_timer E n w = Inr w' \<Longrightarrow> tips_later Env A w0 w'"
| transition: "tips_later Env A w0 w \<Longrightarrow> Env E \<Longrightarrow> tip_transitionend E x w = Inr w' \<Longrightarrow> tips_later Env A w0 w'"
| emulator: "tips_later Env A w0 w \<Longrightarrow> Env E \<Longrightarrow> tip_emulator E n w = Inr w' \<Longrightarrow> tips_later Env A w0 w'"
| placed: "tips_later Env A w0 w \<Longrightarrow> tips_later Env A w0 (tip_popper_update n pl w)"

definition tips_reach :: "(tip_env \<Rightarrow> bool) \<Rightarrow> (tip_options \<Rightarrow> bool) \<Rightarrow> tips \<Rightarrow> bool" where
  "tips_reach Env A w \<longleftrightarrow> (\<exists>p fresh. tips_later Env A (no_tips p fresh) w)"

lemma tips_later_trans: "tips_later Env A v u \<Longrightarrow> tips_later Env A w v \<Longrightarrow> tips_later Env A w u"
  by (induction rule: tips_later.induct) (blast intro: tips_later.intros)+

text \<open>A fact that every small step keeps.\<close>

locale tip_kept =
  fixes Env :: "tip_env \<Rightarrow> bool" and A :: "tip_options \<Rightarrow> bool" and P :: "tips \<Rightarrow> bool"
  assumes kept_by_step: "Env E \<Longrightarrow> tip_step E A w w' \<Longrightarrow> P w \<Longrightarrow> P w'"
    and script_options: "A no_options"
    and some_env: "\<exists>E. Env E"
begin

lemma kept_by_steps: "tip_steps E A w w' \<Longrightarrow> Env E \<Longrightarrow> P w \<Longrightarrow> P w'"
  by (induction rule: rtranclp.induct) (auto dest: kept_by_step)

lemma kept: "tips_later Env A w0 w \<Longrightarrow> tips_typed w0 \<and> P w0 \<Longrightarrow> tips_typed w \<and> P w"
proof (induction rule: tips_later.induct)
  case (page w f)
  obtain E where "Env E" using some_env by blast
  then show ?case using page typed_step [OF on_page_step] kept_by_step [OF _ on_page_step] by blast
next
  case (placed w n pl)
  obtain E where "Env E" using some_env by blast
  then show ?case using placed typed_steps [OF popper_update_steps] kept_by_steps [OF popper_update_steps] by blast
next
  case (interface w E arg c e w')
  have ty: "tips_typed w" using interface by blast
  have "tip_steps E A w w'"
    by (rule interface_steps [where A = A, OF ty interface(4) script_options]) (use interface(3) in blast)
  then show ?case using interface typed_steps kept_by_steps by blast
next
  case (event w E ev inside target w')
  have "tips_typed w" using event by blast
  then have "tip_steps E A w w'" by (rule event_steps [OF _ event(3)])
  then show ?case using event typed_steps kept_by_steps by blast
next
  case (modal w E m w')
  have "tips_typed w" using modal by blast
  then have "tip_steps E A w w'" by (rule modal_steps [OF _ modal(3)])
  then show ?case using modal typed_steps kept_by_steps by blast
next
  case (timer w E n w')
  have "tips_typed w" using timer by blast
  then have "tip_steps E A w w'" by (rule timer_steps [OF _ timer(3)])
  then show ?case using timer typed_steps kept_by_steps by blast
next
  case (transition w E x w')
  have "tips_typed w" using transition by blast
  then have "tip_steps E A w w'" by (rule transitionend_steps [OF _ transition(3)])
  then show ?case using transition typed_steps kept_by_steps by blast
next
  case (emulator w E n w')
  have "tips_typed w" using emulator by blast
  then have "tip_steps E A w w'" by (rule emulator_steps [OF _ emulator(3)])
  then show ?case using emulator typed_steps kept_by_steps by blast
qed simp

end

locale tip_invariant = tip_kept +
  assumes holds_at_start: "P (no_tips p fresh)"
begin

lemma holds: "tips_reach Env A w \<Longrightarrow> P w"
proof -
  assume "tips_reach Env A w"
  then obtain p fresh where "tips_later Env A (no_tips p fresh) w" by (auto simp: tips_reach_def)
  then show "P w" using kept holds_at_start by (auto simp: tips_typed_def no_tips_def)
qed

end

interpretation typed: tip_invariant "\<lambda>_. True" "\<lambda>_. True" tips_typed
  by unfold_locales (use typed_step in \<open>auto simp: tips_typed_def no_tips_def\<close>)

section \<open>Nothing refers to an instance that is gone\<close>

text \<open>What the rest of the state relies on in an instance that is not disposed.\<close>

definition tip_view :: "tips \<Rightarrow> nat \<Rightarrow> (tip_class \<times> eid \<times> eid option \<times> nat option) option" where
  "tip_view w k = map_option (\<lambda>(i, e, opts). (tt_class i, e, tt_tip i, tt_timeout i)) (live_tip k w)"

definition tips_ok :: "tips \<Rightarrow> bool" where
  "tips_ok w \<longleftrightarrow>
     (\<forall>k. ts_next w \<le> k \<longrightarrow> ts_heap w k = None)
     \<and> (\<forall>c e k. ts_data w c e = Some k \<longrightarrow> (\<exists>t n. tip_view w k = Some (c, e, t, n)))
     \<and> (\<forall>h \<in> set (ts_handlers w). \<exists>c t n. tip_view w (th_instance h) = Some (c, th_element h, t, n))
     \<and> (\<forall>m \<in> set (ts_modals w). snd m < ts_next w)
     \<and> distinct (map fst (ts_timers w))
     \<and> (\<forall>(n, k, h) \<in> set (ts_timers w). n < ts_next_timer w \<and> (\<exists>c e t. tip_view w k = Some (c, e, t, Some n)))
     \<and> (\<forall>t cb. (t, Callback cb) \<in> set (end_handlers (ts_trans w)) \<longrightarrow>
          (\<exists>k c e n. tip_view w k = Some (c, e, Some t, n) \<and> cb \<in> {ShowComplete k, HideComplete k t}))
     \<and> (\<forall>q \<in> set (ts_poppers w). tq_instance q < ts_next w
          \<and> (\<forall>c e t n. tip_view w (tq_instance q) = Some (c, e, t, n) \<longrightarrow> t = Some (tq_tip q)))"

lemma tips_okI:
  assumes "\<And>k. ts_next w \<le> k \<Longrightarrow> ts_heap w k = None"
    and "\<And>c e k. ts_data w c e = Some k \<Longrightarrow> \<exists>t n. tip_view w k = Some (c, e, t, n)"
    and "\<And>h. h \<in> set (ts_handlers w) \<Longrightarrow> \<exists>c t n. tip_view w (th_instance h) = Some (c, th_element h, t, n)"
    and "\<And>m k. (m, k) \<in> set (ts_modals w) \<Longrightarrow> k < ts_next w"
    and "distinct (map fst (ts_timers w))"
    and "\<And>n k h. (n, k, h) \<in> set (ts_timers w) \<Longrightarrow> n < ts_next_timer w \<and> (\<exists>c e t. tip_view w k = Some (c, e, t, Some n))"
    and "\<And>t cb. (t, Callback cb) \<in> set (end_handlers (ts_trans w)) \<Longrightarrow>
      \<exists>k c e n. tip_view w k = Some (c, e, Some t, n) \<and> cb \<in> {ShowComplete k, HideComplete k t}"
    and "\<And>q. q \<in> set (ts_poppers w) \<Longrightarrow> tq_instance q < ts_next w"
    and "\<And>q c e t n. q \<in> set (ts_poppers w) \<Longrightarrow> tip_view w (tq_instance q) = Some (c, e, t, n) \<Longrightarrow> t = Some (tq_tip q)"
  shows "tips_ok w"
  unfolding tips_ok_def using assms by (intro conjI allI ballI impI) (auto simp: split_beta)

lemma tips_okD:
  assumes "tips_ok w"
  shows "ts_next w \<le> k \<Longrightarrow> ts_heap w k = None"
    and "ts_data w c e = Some k \<Longrightarrow> \<exists>t n. tip_view w k = Some (c, e, t, n)"
    and "h \<in> set (ts_handlers w) \<Longrightarrow> \<exists>c t n. tip_view w (th_instance h) = Some (c, th_element h, t, n)"
    and "(m, k) \<in> set (ts_modals w) \<Longrightarrow> k < ts_next w"
    and "distinct (map fst (ts_timers w))"
    and "(n, k, hv) \<in> set (ts_timers w) \<Longrightarrow> n < ts_next_timer w \<and> (\<exists>c e t. tip_view w k = Some (c, e, t, Some n))"
    and "(t, Callback cb) \<in> set (end_handlers (ts_trans w)) \<Longrightarrow>
      \<exists>k c e n. tip_view w k = Some (c, e, Some t, n) \<and> cb \<in> {ShowComplete k, HideComplete k t}"
    and "q \<in> set (ts_poppers w) \<Longrightarrow> tq_instance q < ts_next w"
    and "q \<in> set (ts_poppers w) \<Longrightarrow> tip_view w (tq_instance q) = Some (c, e, t', m') \<Longrightarrow> t' = Some (tq_tip q)"
  using assms unfolding tips_ok_def by fastforce+

lemma view_cong: "ts_heap v = ts_heap w \<Longrightarrow> tip_view v = tip_view w"
  by (simp add: tip_view_def live_tip_def fun_eq_iff)

lemma view_live: "live_tip k w = Some (i, e, opts) \<Longrightarrow> tip_view w k = Some (tt_class i, e, tt_tip i, tt_timeout i)"
  by (simp add: tip_view_def)

lemma view_Some: "tip_view w k = Some v \<longleftrightarrow>
   (\<exists>i e opts. live_tip k w = Some (i, e, opts) \<and> v = (tt_class i, e, tt_tip i, tt_timeout i))"
  by (auto simp: tip_view_def)

lemma view_None: "ts_heap w k = None \<Longrightarrow> tip_view w k = None"
  by (simp add: tip_view_def live_tip_def)

text \<open>An edit that leaves class, element, tip and timer alone is not seen.\<close>

lemma view_edit_same:
  assumes "\<And>i. ts_heap w k = Some i \<Longrightarrow> tt_class (f i) = tt_class i \<and> tt_element (f i) = tt_element i
    \<and> (tt_options (f i) = None \<longleftrightarrow> tt_options i = None)
    \<and> (tt_element i \<noteq> None \<longrightarrow> tt_options i \<noteq> None \<longrightarrow> tt_tip (f i) = tt_tip i) \<and> tt_timeout (f i) = tt_timeout i"
  shows "tip_view (edit_tip k f w) = tip_view w"
proof
  fix j
  show "tip_view (edit_tip k f w) j = tip_view w j"
  proof (cases "j = k")
    case True
    then show ?thesis using assms
      by (cases "ts_heap w k") (auto simp: tip_view_def live_tip_def heap_edit split: option.splits)
  qed (simp add: tip_view_def live_tip_def heap_edit)
qed

lemma ok_cong:
  assumes "tips_ok w" "tip_view v = tip_view w" "ts_next v = ts_next w" "\<And>k. ts_heap w k = None \<Longrightarrow> ts_heap v k = None"
    and "ts_data v = ts_data w" "set (ts_handlers v) \<subseteq> set (ts_handlers w)" "set (ts_modals v) \<subseteq> set (ts_modals w)"
    and "set (ts_timers v) \<subseteq> set (ts_timers w)" "distinct (map fst (ts_timers v))" "ts_next_timer v = ts_next_timer w"
    and "set (end_handlers (ts_trans v)) \<subseteq> set (end_handlers (ts_trans w))" "set (ts_poppers v) \<subseteq> set (ts_poppers w)"
  shows "tips_ok v"
proof (rule tips_okI, unfold assms(2,3,5,10))
  note d = tips_okD [OF assms(1)]
  show "ts_heap v k = None" if "ts_next w \<le> k" for k using d(1) [OF that] assms(4) by blast
  show "\<exists>t n. tip_view w k = Some (c, e, t, n)" if "ts_data w c e = Some k" for c e k by (rule d(2) [OF that])
  show "\<exists>c t n. tip_view w (th_instance h) = Some (c, th_element h, t, n)" if "h \<in> set (ts_handlers v)" for h
    using d(3) that assms(6) by blast
  show "k < ts_next w" if "(m, k) \<in> set (ts_modals v)" for m k using d(4) that assms(7) by blast
  show "n < ts_next_timer w \<and> (\<exists>c e t. tip_view w k = Some (c, e, t, Some n))" if "(n, k, h) \<in> set (ts_timers v)" for n k h
    using d(6) that assms(8) by blast
  show "\<exists>k c e n. tip_view w k = Some (c, e, Some t, n) \<and> cb \<in> {ShowComplete k, HideComplete k t}"
    if "(t, Callback cb) \<in> set (end_handlers (ts_trans v))" for t cb using d(7) that assms(11) by blast
  show "tq_instance q < ts_next w" if "q \<in> set (ts_poppers v)" for q using d(8) that assms(12) by blast
  show "t = Some (tq_tip q)" if "q \<in> set (ts_poppers v)" "tip_view w (tq_instance q) = Some (c, e, t, n)" for q c e t n
    using d(9) [OF _ that(2)] that(1) assms(12) by blast
qed (rule assms(9))

lemma ok_edit:
  assumes "tips_ok w" "tip_view (edit_tip k f w) = tip_view w"
  shows "tips_ok (edit_tip k f w)"
  by (rule ok_cong [OF assms]) (use tips_okD(5) [OF assms(1)] in \<open>auto simp: heap_edit\<close>)

lemma ok_same_heap:
  assumes "tips_ok w" "ts_heap v = ts_heap w" "ts_next v = ts_next w" "ts_data v = ts_data w" "set (ts_handlers v) \<subseteq> set (ts_handlers w)"
    and "set (ts_modals v) \<subseteq> set (ts_modals w)" "set (ts_timers v) \<subseteq> set (ts_timers w)" "distinct (map fst (ts_timers v))"
    and "ts_next_timer v = ts_next_timer w" "set (end_handlers (ts_trans v)) \<subseteq> set (end_handlers (ts_trans w))"
    and "set (ts_poppers v) \<subseteq> set (ts_poppers w)"
  shows "tips_ok v"
  by (rule ok_cong [OF assms(1) view_cong [OF assms(2)] assms(3)]) (use assms in simp_all)

lemma view_edit:
  "tip_view (edit_tip k f w) j = (if j = k then
     map_option (\<lambda>(i, e, opts). (tt_class i, e, tt_tip i, tt_timeout i)) (live_tip k (edit_tip k f w)) else tip_view w j)"
  by (simp add: tip_view_def live_tip_def heap_edit)

lemma ok_make:
  assumes ok: "tips_ok w" and l: "live_tip k w = Some (i, e, opts)" "tt_tip i = None"
  shows "tips_ok (edit_tip k (\<lambda>j. j\<lparr>tt_tip := Some t\<rparr>) (w\<lparr>ts_fresh := n\<rparr>))" (is "tips_ok ?v")
proof -
  have v: "tip_view ?v j = (if j = k then Some (tt_class i, e, Some t, tt_timeout i) else tip_view w j)" for j
    using l by (auto simp: tip_view_def live_tip_def heap_edit split: option.splits)
  note vk = view_live [OF l(1)] and d = tips_okD [OF ok]
  show ?thesis
  proof (rule tips_okI)
    show "\<exists>x n. tip_view ?v j = Some (c, y, x, n)" if "ts_data ?v c y = Some j" for c y j
      using d(2) [of c y j] that vk by (auto simp: v)
    show "\<exists>c t n. tip_view ?v (th_instance h) = Some (c, th_element h, t, n)" if "h \<in> set (ts_handlers ?v)" for h
      using d(3) [of h] that vk by (auto simp: v)
    show "n < ts_next_timer ?v \<and> (\<exists>c e t. tip_view ?v j = Some (c, e, t, Some n))" if "(n, j, h) \<in> set (ts_timers ?v)" for n j h
      using d(6) [of n j h] that vk by (auto simp: v)
    show "\<exists>k c e n. tip_view ?v k = Some (c, e, Some x, n) \<and> cb \<in> {ShowComplete k, HideComplete k x}"
      if cb: "(x, Callback cb) \<in> set (end_handlers (ts_trans ?v))" for x cb
    proof -
      obtain j c y n where j: "tip_view w j = Some (c, y, Some x, n)" "cb \<in> {ShowComplete j, HideComplete j x}"
        using d(7) [of x cb] cb by auto
      then have "j \<noteq> k" using vk l(2) by auto
      then show ?thesis using j by (intro exI [of _ j]) (auto simp: v)
    qed
    show "j < ts_next ?v" if "(m, j) \<in> set (ts_modals ?v)" for m j using d(4) [of m j] that by simp
    show "x = Some (tq_tip q)" if "q \<in> set (ts_poppers ?v)" "tip_view ?v (tq_instance q) = Some (c, y, x, n)" for q c y x n
      using d(9) [of q] that vk l(2) by (auto simp: v split: if_splits)
  qed (use d(1,5,8) in \<open>auto simp: heap_edit\<close>)
qed

lemma ok_popper:
  assumes ok: "tips_ok w" and own: "owns_tip w k t" and q: "tq_instance q = k" "tq_tip q = t"
  shows "tips_ok (edit_tip k (\<lambda>i. i\<lparr>tt_popper := Some q\<rparr>) (w\<lparr>ts_poppers := ts_poppers w @ [q], ts_next_popper := n\<rparr>))" (is "tips_ok ?v")
proof -
  let ?u = "w\<lparr>ts_poppers := ts_poppers w @ [q], ts_next_popper := n\<rparr>"
  have u: "tip_view ?u = tip_view w" by (rule view_cong) simp
  have vk: "\<exists>c e n. tip_view w k = Some (c, e, Some t, n)" using own by (auto simp: owns_tip_def tip_view_def)
  note d = tips_okD [OF ok]
  have "tips_ok ?u"
  proof (rule tips_okI, unfold u)
    show "x = Some (tq_tip r)" if "r \<in> set (ts_poppers ?u)" "tip_view w (tq_instance r) = Some (c, y, x, n)" for r c y x n
      using d(9) [of r] that vk q by auto
    show "tq_instance r < ts_next ?u" if "r \<in> set (ts_poppers ?u)" for r
    proof (cases "r = q")
      case True
      have "ts_heap w k \<noteq> None" using vk view_None by fastforce
      then show ?thesis using True q(1) d(1) [of k] by fastforce
    qed (use that d(8) [of r] in simp)
  qed (use d(1-7) in auto)
  then show ?thesis by (rule ok_edit) (rule view_edit_same, simp)
qed

lemma ok_retime:
  assumes ok: "tips_ok w" and l: "live_tip k w = Some (i, e, opts)"
  shows "tips_ok (set_timeout k h (edit_tip k (\<lambda>j. j\<lparr>tt_hoverState := h\<rparr>) (clear_timeout (tt_timeout i) w)))" (is "tips_ok ?v")
proof -
  have v: "tip_view ?v j = (if j = k then Some (tt_class i, e, tt_tip i, Some (ts_next_timer w)) else tip_view w j)" for j
    using l by (auto simp: tip_view_def live_tip_def heap_edit set_timeout_def clear_timeout_def split: option.splits)
  note vk = view_live [OF l] and d = tips_okD [OF ok]
  have old: "set (ts_timers ?v) = {t \<in> set (ts_timers w). tt_timeout i \<noteq> Some (fst t)} \<union> {(ts_next_timer w, k, h)}"
    "ts_timers ?v = ts_timers (clear_timeout (tt_timeout i) w) @ [(ts_next_timer w, k, h)]"
    by (auto simp: set_timeout_def clear_timeout_def split: option.splits)
  have fields: "ts_data ?v = ts_data w" "ts_handlers ?v = ts_handlers w" "ts_modals ?v = ts_modals w" "ts_trans ?v = ts_trans w"
    "ts_poppers ?v = ts_poppers w" "ts_next ?v = ts_next w" "ts_next_timer ?v = Suc (ts_next_timer w)"
    by (simp_all add: set_timeout_def clear_timeout_def split: option.splits)
  have new: "j \<noteq> k" if "(n, j, g) \<in> set (ts_timers w)" "tt_timeout i \<noteq> Some n" for n j g
    using d(6) [OF that(1)] that(2) vk by auto
  show ?thesis
  proof (rule tips_okI)
    show "distinct (map fst (ts_timers ?v))"
      using d(5) d(6) unfolding old(2)
      by (fastforce simp: clear_timeout_def distinct_map_filter split: option.splits)
    show "n < ts_next_timer ?v \<and> (\<exists>c e t. tip_view ?v j = Some (c, e, t, Some n))" if "(n, j, g) \<in> set (ts_timers ?v)" for n j g
      using that d(6) [of n j g] new [of n j g] unfolding old(1) fields by (auto simp: v)
    show "ts_heap ?v j = None" if "ts_next ?v \<le> j" for j
      using that d(1) [of j] by (auto simp: fields) (auto simp: set_timeout_def heap_edit)
    show "\<exists>x n. tip_view ?v j = Some (c, y, x, n)" if "ts_data ?v c y = Some j" for c y j
      using d(2) [of c y j] that vk by (auto simp: v fields)
    show "\<exists>c t n. tip_view ?v (th_instance hd) = Some (c, th_element hd, t, n)" if "hd \<in> set (ts_handlers ?v)" for hd
      using d(3) [of hd] that vk by (auto simp: v fields)
    show "j < ts_next ?v" if "(m, j) \<in> set (ts_modals ?v)" for m j using d(4) [of m j] that by (simp add: fields)
    show "\<exists>k c e n. tip_view ?v k = Some (c, e, Some x, n) \<and> cb \<in> {ShowComplete k, HideComplete k x}"
      if "(x, Callback cb) \<in> set (end_handlers (ts_trans ?v))" for x cb
      using d(7) [of x cb] that vk by (auto simp: v fields) (metis option.inject prod.inject)+
    show "tq_instance q < ts_next ?v" if "q \<in> set (ts_poppers ?v)" for q using d(8) that by (simp add: fields)
    show "x = Some (tq_tip q)" if "q \<in> set (ts_poppers ?v)" "tip_view ?v (tq_instance q) = Some (c, y, x, n)" for q c y x n
      using d(9) [of q] that vk by (auto simp: v fields split: if_splits)
  qed
qed

lemma ok_alloc:
  assumes ok: "tips_ok w" and i: "tt_element i = Some e" "tt_options i = Some opts"
  shows "tips_ok (w\<lparr>ts_next := Suc (ts_next w), ts_heap := (ts_heap w)(ts_next w \<mapsto> i)\<rparr>)" (is "tips_ok ?v")
proof -
  note d = tips_okD [OF ok]
  have n: "tip_view w (ts_next w) = None" by (rule view_None) (simp add: d(1))
  have v: "tip_view ?v j = (if j = ts_next w then Some (tt_class i, e, tt_tip i, tt_timeout i) else tip_view w j)" for j
    using i by (simp add: tip_view_def live_tip_def)
  have old: "tip_view ?v j = Some x" if "tip_view w j = Some x" for j x using that n by (auto simp: v)
  show ?thesis
  proof (rule tips_okI)
    show "j < ts_next ?v" if "(m, j) \<in> set (ts_modals ?v)" for m j using d(4) [of m j] that by simp
    show "tq_instance q < ts_next ?v" if "q \<in> set (ts_poppers ?v)" for q using d(8) [of q] that by simp
    show "x = Some (tq_tip q)" if "q \<in> set (ts_poppers ?v)" "tip_view ?v (tq_instance q) = Some (c, y, x, n)" for q c y x n
      using d(8,9) [of q] that by (auto simp: v split: if_splits)
    show "\<exists>k c e n. tip_view ?v k = Some (c, e, Some x, n) \<and> cb \<in> {ShowComplete k, HideComplete k x}"
      if "(x, Callback cb) \<in> set (end_handlers (ts_trans ?v))" for x cb using d(7) [of x cb] old that by simp blast
    show "n < ts_next_timer ?v \<and> (\<exists>c e t. tip_view ?v j = Some (c, e, t, Some n))" if "(n, j, g) \<in> set (ts_timers ?v)" for n j g
      using d(6) [of n j g] old that by simp blast
    show "\<exists>x n. tip_view ?v j = Some (c, y, x, n)" if "ts_data ?v c y = Some j" for c y j using d(2) [of c y j] old that by simp blast
    show "\<exists>c t n. tip_view ?v (th_instance h) = Some (c, th_element h, t, n)" if "h \<in> set (ts_handlers ?v)" for h
      using d(3) [of h] old that by simp blast
  qed (use d(1,5) in auto)
qed

lemma ok_listen:
  assumes ok: "tips_ok w" and l: "live_tip k w = Some (i, e, opts)"
    and hs: "\<forall>h \<in> set hs. th_instance h = k \<and> th_element h = e" "\<forall>m \<in> set ms. snd m = k"
  shows "tips_ok (w\<lparr>ts_handlers := ts_handlers w @ hs, ts_modals := ts_modals w @ ms\<rparr>)" (is "tips_ok ?v")
proof -
  have v: "tip_view ?v = tip_view w" by (rule view_cong) simp
  note d = tips_okD [OF ok]
  show ?thesis
  proof (rule tips_okI, unfold v)
    show "\<exists>c t n. tip_view w (th_instance h) = Some (c, th_element h, t, n)" if "h \<in> set (ts_handlers ?v)" for h
      using d(3) [of h] that hs(1) view_live [OF l] by auto
    have "k < ts_next w" using d(1) [of k] l by (fastforce simp: live_fields)
    then show "j < ts_next ?v" if "(m, j) \<in> set (ts_modals ?v)" for m j
      using d(4) [of m j] that hs(2) by auto
  qed (use d in auto)
qed

lemma ok_bind:
  assumes ok: "tips_ok w" and l: "live_tip k w = Some (i, e, opts)"
  shows "tips_ok (bind_tip (tt_class i) e k w)" (is "tips_ok ?v")
proof -
  have v: "tip_view ?v = tip_view w" by (rule view_cong) (simp add: heap_bind)
  note d = tips_okD [OF ok]
  have f: "ts_next ?v = ts_next w" "ts_handlers ?v = ts_handlers w" "ts_modals ?v = ts_modals w" "ts_timers ?v = ts_timers w"
    "ts_next_timer ?v = ts_next_timer w" "ts_trans ?v = ts_trans w" "ts_poppers ?v = ts_poppers w" by (simp_all add: bind_tip_def)
  show ?thesis
  proof (rule tips_okI, unfold v f heap_bind)
    show "\<exists>t n. tip_view w j = Some (c, y, t, n)" if "ts_data ?v c y = Some j" for c y j
      using that d(2) [of c y j] view_live [OF l] by (auto simp: bind_tip_def split: if_splits)
  qed (use d in auto)
qed

lemma ok_await:
  assumes ok: "tips_ok w" and own: "owns_tip w k t" and cb: "cb \<in> {ShowComplete k, HideComplete k t}"
  shows "tips_ok (tip_await t cb w)" (is "tips_ok ?v")
proof -
  have v: "tip_view ?v = tip_view w" by (rule view_cong) simp
  note d = tips_okD [OF ok]
  have f: "ts_next ?v = ts_next w" "ts_handlers ?v = ts_handlers w" "ts_modals ?v = ts_modals w" "ts_timers ?v = ts_timers w"
    "ts_next_timer ?v = ts_next_timer w" "ts_data ?v = ts_data w" "ts_poppers ?v = ts_poppers w" "ts_heap ?v = ts_heap w"
    by (simp_all add: tip_await_def)
  show ?thesis
  proof (rule tips_okI, unfold v f)
    show "\<exists>k c e n. tip_view w k = Some (c, e, Some x, n) \<and> cb' \<in> {ShowComplete k, HideComplete k x}"
      if h: "(x, Callback cb') \<in> set (end_handlers (ts_trans ?v))" for x cb'
    proof (cases "(x, Callback cb') \<in> set (end_handlers (ts_trans w))")
      case False
      then have "x = t" "cb' = cb" using h by (auto simp: tip_await_def await_end_def transitionEndEmulator_def)
      then show ?thesis using own cb by (auto simp: owns_tip_def tip_view_def)
    qed (rule d(7))
  qed (use d in auto)
qed

lemma off_modal_subset: "set (off_modal k m ms) \<subseteq> set ms"
  using set_remove1_subset [of _ "rev ms"] by (auto simp: off_modal_def split: option.splits dest: subsetD)

lemma ok_dispose:
  assumes ok: "tips_ok w"
  shows "tips_ok (tip_dispose k w)"
proof (cases "live_tip k w")
  case (Some l)
  obtain i e opts where l: "live_tip k w = Some (i, e, opts)" using Some by (cases l) auto
  let ?v = "tip_dispose k w"
  note vk = view_live [OF l] and d = tips_okD [OF ok]
  have v: "tip_view ?v j = (if j = k then None else tip_view w j)" for j
    using l by (auto simp: tip_view_def live_tip_def heap_dispose split: option.splits)
  have f: "ts_next ?v = ts_next w" "ts_next_timer ?v = ts_next_timer w"
    "ts_data ?v = (ts_data w)(tt_class i := (ts_data w (tt_class i))(e := None))"
    "ts_handlers ?v = filter (\<lambda>h. \<not> (th_element h = e \<and> class_at w (th_instance h) = Some (tt_class i))) (ts_handlers w)"
    "set (ts_modals ?v) \<subseteq> set (ts_modals w)" "ts_timers ?v = ts_timers (clear_timeout (tt_timeout i) w)"
    "set (ts_poppers ?v) \<subseteq> set (ts_poppers w)"
    "end_handlers (ts_trans ?v) = filter (\<lambda>h. tt_tip i \<noteq> Some (fst h)) (end_handlers (ts_trans w))"
    using l by (auto simp: tip_dispose_def Let_def clear_timeout_def remove_tip_def detach_tip_def tip_destroy_popper_def on_ts_page_def
        intro!: filter_cong split: option.splits dest: subsetD [OF off_modal_subset])
  have t: "set (ts_timers ?v) = {x \<in> set (ts_timers w). tt_timeout i \<noteq> Some (fst x)}"
    by (auto simp: f clear_timeout_def split: option.splits)
  show ?thesis
  proof (rule tips_okI)
    show "\<exists>x n. tip_view ?v j = Some (c, y, x, n)" if "ts_data ?v c y = Some j" for c y j
      using that d(2) [of c y j] vk by (auto simp: v f split: if_splits)
    show "\<exists>c t n. tip_view ?v (th_instance h) = Some (c, th_element h, t, n)" if "h \<in> set (ts_handlers ?v)" for h
    proof -
      have h: "h \<in> set (ts_handlers w)" "\<not> (th_element h = e \<and> class_at w (th_instance h) = Some (tt_class i))"
        using that by (auto simp: f)
      then have "th_instance h \<noteq> k" using d(3) [of h] vk l by (auto simp: class_at_def live_fields)
      then show ?thesis using d(3) [OF h(1)] by (simp add: v)
    qed
    show "j < ts_next ?v" if "(m, j) \<in> set (ts_modals ?v)" for m j using d(4) [of m j] that by (auto simp: f(1) dest: subsetD [OF f(5)])
    show "n < ts_next_timer ?v \<and> (\<exists>c e t. tip_view ?v j = Some (c, e, t, Some n))" if "(n, j, g) \<in> set (ts_timers ?v)" for n j g
      using that d(6) [of n j g] vk unfolding t by (auto simp: v f(2))
    show "\<exists>k c e n. tip_view ?v k = Some (c, e, Some x, n) \<and> cb \<in> {ShowComplete k, HideComplete k x}"
      if h: "(x, Callback cb) \<in> set (end_handlers (ts_trans ?v))" for x cb
    proof -
      obtain j c y n where j: "tip_view w j = Some (c, y, Some x, n)" "cb \<in> {ShowComplete j, HideComplete j x}"
        using d(7) [of x cb] h by (auto simp: f)
      then have "j \<noteq> k" using vk h by (auto simp: f)
      then show ?thesis using j by (intro exI [of _ j]) (auto simp: v)
    qed
    show "distinct (map fst (ts_timers ?v))" using d(5) by (auto simp: f clear_timeout_def distinct_map_filter split: option.splits)
    show "x = Some (tq_tip q)" if "q \<in> set (ts_poppers ?v)" "tip_view ?v (tq_instance q) = Some (c, y, x, n)" for q c y x n
      using d(9) [of q] that f(7) by (auto simp: v split: if_splits)
    show "tq_instance q < ts_next ?v" if "q \<in> set (ts_poppers ?v)" for q using d(8) [of q] that f(1,7) by auto
    show "ts_heap ?v j = None" if "ts_next ?v \<le> j" for j using d(1) [of j] that by (auto simp: f(1) heap_dispose)
  qed
qed (use ok in \<open>simp add: tip_dispose_def\<close>)

lemma ok_step: "tip_step E A w v \<Longrightarrow> tips_ok w \<Longrightarrow> tips_ok v"
proof (induction rule: tip_step.induct)
  case (outer w p a c s cr sc n)
  show ?case by (rule ok_same_heap [OF outer]) (use tips_okD(5) [OF outer] in simp_all)
next
  case (content k w i e opts c t slot)
  show ?case by (rule ok_same_heap [OF content(3)]) (use tips_okD(5) [OF content(3)] in simp_all)
next
  case (unpopper w k i q)
  show ?case by (rule ok_same_heap [OF unpopper(3)]) (use tips_okD(5) [OF unpopper(3)] in auto)
next
  case (core f k w)
  show ?case by (rule ok_edit [OF core(2) view_edit_same]) (use core(1) in \<open>simp add: same_core_def\<close>)
next
  case (animation v k w)
  show ?case unfolding set_animation_def by (rule ok_edit [OF animation(2) view_edit_same]) simp
next
  case (clear n w)
  show ?case
    by (rule ok_same_heap [OF clear]) (use tips_okD(5) [OF clear] in \<open>auto simp: clear_timeout_def distinct_map_filter split: option.splits\<close>)
next
  case (ended tr w)
  show ?case by (rule ok_same_heap [OF ended(2)]) (use tips_okD(5) [OF ended(2)] ended(1) in simp_all)
next
  case (delegate k w i e opts)
  show ?case by (rule ok_edit [OF delegate(2) view_edit_same]) (use delegate(1) in \<open>simp add: live_fields\<close>)
next
  case (placement q w)
  show ?case
  proof (rule ok_edit [OF placement(2) view_edit_same])
    fix i assume i: "ts_heap w (tq_instance q) = Some i"
    have "tt_tip i = Some (tq_tip q)" if "tt_element i = Some e" "tt_options i = Some opts" for e opts
      using tips_okD(9) [OF placement(2,1)] view_live [of "tq_instance q" w i e opts] i that by (simp add: live_fields)
    then show "tt_class (i\<lparr>tt_tip := Some (tq_tip q)\<rparr>) = tt_class i \<and> tt_element (i\<lparr>tt_tip := Some (tq_tip q)\<rparr>) = tt_element i
      \<and> (tt_options (i\<lparr>tt_tip := Some (tq_tip q)\<rparr>) = None \<longleftrightarrow> tt_options i = None)
      \<and> (tt_element i \<noteq> None \<longrightarrow> tt_options i \<noteq> None \<longrightarrow> tt_tip (i\<lparr>tt_tip := Some (tq_tip q)\<rparr>) = tt_tip i)
      \<and> tt_timeout (i\<lparr>tt_tip := Some (tq_tip q)\<rparr>) = tt_timeout i" by auto
  qed
next
  case (make k w i e opts)
  show ?case by (rule ok_make [OF make(3,1,2)])
next
  case (popper w k t q)
  show ?case by (rule ok_popper [OF popper(5,1,2,3)])
next
  case (retime k w i e opts h)
  show ?case by (rule ok_retime [OF retime(2,1)])
next
  case (await w k t cb)
  show ?case by (rule ok_await [OF await(3,1,2)])
next
  case (alloc c p e config opts w)
  show ?case by (rule ok_alloc [OF alloc(3)]) simp_all
next
  case (listen k w i e opts hs ms)
  show ?case by (rule ok_listen [OF listen(4,1,2,3)])
next
  case (bind k w i e opts c)
  show ?case using ok_bind [OF bind(3,1)] bind(2) by simp
next
  case (dispose w k)
  show ?case by (rule ok_dispose [OF dispose])
qed

interpretation ok: tip_invariant "\<lambda>_. True" "\<lambda>_. True" tips_ok
proof unfold_locales
  show "tips_ok (no_tips p fresh)" for p fresh by (rule tips_okI) (simp_all add: no_tips_def no_transitions_def)
qed (simp_all add: ok_step)

section \<open>What is put into the page is sanitized\<close>

definition safe_options :: "(html list \<Rightarrow> string) \<Rightarrow> tip_options \<Rightarrow> bool" where
  "safe_options pr opts \<longleftrightarrow> truthy (o_opt opts ''sanitize'') \<and> to_whiteList opts = DefaultWhitelist \<and> o_opt opts ''sanitizeFn'' \<noteq> JFun
     \<and> (\<forall>s. o_opt opts ''template'' = JStr s \<longrightarrow> s = [] \<or> (\<exists>out. s = pr out \<and> safe_html out))"

definition tips_safe :: "(html list \<Rightarrow> string) \<Rightarrow> tips \<Rightarrow> bool" where
  "tips_safe pr w \<longleftrightarrow>
     (\<forall>k i opts. ts_heap w k = Some i \<longrightarrow> tt_options i = Some opts \<longrightarrow> safe_options pr opts)
     \<and> (\<forall>t slot s. ts_content w t slot = Some (HtmlContent s) \<longrightarrow> s = [] \<or> (\<exists>out. s = pr out \<and> safe_html out))"

text \<open>Options of a script that leave the sanitizer as it is; an environment in which no function for a title or
  a content returns a function.\<close>

definition plain_options :: "tip_options \<Rightarrow> bool" where
  "plain_options opts \<longleftrightarrow> (\<forall>k \<in> set DISALLOWED_ATTRIBUTES. to_config opts k = None)"

definition html_env :: "(html list \<Rightarrow> string) \<Rightarrow> tip_env \<Rightarrow> bool" where
  "html_env pr E \<longleftrightarrow> te_print E = pr \<and> (\<forall>s. html_wf (te_parse E s)) \<and> (\<forall>e. te_call E ''title'' e \<noteq> JFun \<and> te_call E ''content'' e \<noteq> JFun)"

lemma sanitized_text:
  assumes E: "html_env pr E" and "to_whiteList opts = DefaultWhitelist" "o_opt opts ''sanitizeFn'' \<noteq> JFun"
  shows "tip_sanitize E opts s = [] \<or> (\<exists>out. tip_sanitize E opts s = pr out \<and> safe_html out)"
proof (cases "s = []")
  case False
  then have "tip_sanitize E opts s = pr (clean DefaultWhitelist (te_parse E s))"
    using assms by (simp add: tip_sanitize_def sanitizeHtml_def html_env_def sanitize_body_clean)
  then show ?thesis using clean_safe by blast
qed (simp add: tip_sanitize_def sanitizeHtml_def)

lemma safe_set:
  "safe_options pr opts \<Longrightarrow> k \<notin> {''sanitize'', ''sanitizeFn'', ''template''} \<Longrightarrow> safe_options pr (set_option k v opts)"
  by (auto simp: safe_options_def) (simp add: set_option_def)

text \<open>Options that cannot switch the sanitizer off when they are merged in.\<close>

definition harmless :: "tip_options \<Rightarrow> bool" where
  "harmless config \<longleftrightarrow> (\<forall>v. to_config config ''sanitize'' = Some v \<longrightarrow> truthy v) \<and> to_config config ''sanitizeFn'' \<noteq> Some JFun
     \<and> (to_config config ''whiteList'' \<noteq> None \<longrightarrow> to_whiteList config = DefaultWhitelist)"

lemma harmless_plain: "plain_options config \<Longrightarrow> harmless config"
  by (simp add: harmless_def plain_options_def DISALLOWED_ATTRIBUTES_def)

lemma harmless_delegate:
  assumes "\<And>opts. tt_options i = Some opts \<Longrightarrow> safe_options pr opts"
  shows "harmless (delegate_options i)"
proof (cases "tt_options i")
  case None
  then show ?thesis by (simp add: harmless_def delegate_options_def no_options_def)
next
  case (Some opts)
  then show ?thesis using assms [OF Some] by (auto simp: harmless_def delegate_options_def safe_options_def opt_def)
qed

lemma default_sanitizes:
  "o_opt (tip_Default c) ''sanitize'' = JBool True" "o_opt (tip_Default c) ''sanitizeFn'' = JNull"
  "to_whiteList (tip_Default c) = DefaultWhitelist"
  by (cases c; simp add: tip_Default_def tooltip_Default_def popover_Default_def opt_def extends_def)+

lemma merged_sanitizes:
  fixes c d
  assumes "harmless config"
  defines "m \<equiv> tip_extends (tip_extends (tip_Default c) (data_options d)) config"
  shows "truthy (o_opt m ''sanitize'')" "o_opt m ''sanitizeFn'' \<noteq> JFun" "to_whiteList m = DefaultWhitelist"
proof -
  have k: "o_opt m k = (case to_config config k of None \<Rightarrow> o_opt (tip_Default c) k | Some v \<Rightarrow> v)" if "k \<in> set DISALLOWED_ATTRIBUTES" for k
    using that by (auto simp: m_def tip_extends_def extends_def opt_def data_options_def map_add_def split: option.splits)
  show "truthy (o_opt m ''sanitize'')" using assms(1)
    by (auto simp: k DISALLOWED_ATTRIBUTES_def default_sanitizes truthy_def harmless_def split: option.splits)
  show "o_opt m ''sanitizeFn'' \<noteq> JFun" using assms(1)
    by (auto simp: k DISALLOWED_ATTRIBUTES_def default_sanitizes harmless_def split: option.splits)
  show "to_whiteList m = DefaultWhitelist" using assms(1)
    by (auto simp: m_def tip_extends_def data_options_def DISALLOWED_ATTRIBUTES_def default_sanitizes harmless_def)
qed

lemma texts_keep:
  "to_whiteList (number_to_text E k opts) = to_whiteList opts" "to_whiteList (delay_to_object opts) = to_whiteList opts"
  "j \<noteq> k \<Longrightarrow> o_opt (number_to_text E k opts) j = o_opt opts j" "j \<noteq> ''delay'' \<Longrightarrow> o_opt (delay_to_object opts) j = o_opt opts j"
  by (simp_all add: number_to_text_def delay_to_object_def set_option_def opt_def split: jsval.splits)

lemma config_safe:
  assumes E: "html_env pr E" and run: "tip_getConfig E c p e config = Inr opts" and h: "harmless config"
  shows "safe_options pr opts"
proof -
  obtain o1 where o: "opts = sanitize_template E o1" and s: "truthy (o_opt o1 ''sanitize'')" "o_opt o1 ''sanitizeFn'' \<noteq> JFun"
      "to_whiteList o1 = DefaultWhitelist"
    using run merged_sanitizes [OF h] by (auto simp: tip_getConfig_def Let_def bindE_Inr_conv texts_keep)
  show ?thesis
    unfolding o using s sanitized_text [OF E s(3,2)]
    by (auto simp: sanitize_template_def safe_options_def split: jsval.splits) (simp_all add: set_option_def)
qed

lemma safe_edit:
  assumes "tips_safe pr w" "\<And>i opts. ts_heap w k = Some i \<Longrightarrow> tt_options (f i) = Some opts \<Longrightarrow> safe_options pr opts"
  shows "tips_safe pr (edit_tip k f w)"
  using assms by (auto simp: tips_safe_def heap_edit split: if_splits)

lemma safe_cong:
  "tips_safe pr w \<Longrightarrow> ts_heap v = ts_heap w \<Longrightarrow> ts_content v = ts_content w \<Longrightarrow> tips_safe pr v"
  by (simp add: tips_safe_def)

lemma safe_step: "tip_step E plain_options w v \<Longrightarrow> html_env pr E \<Longrightarrow> tips_safe pr w \<Longrightarrow> tips_safe pr v"
proof (induction rule: tip_step.induct)
  case (outer w p a c s cr sc n)
  show ?case by (rule safe_cong [OF outer(2)]) simp_all
next
  case (unpopper w k i q)
  show ?case by (rule safe_cong [OF unpopper(4)]) simp_all
next
  case (clear n w)
  show ?case by (rule safe_cong [OF clear(2)]) (simp_all add: clear_timeout_def split: option.splits)
next
  case (ended tr w)
  show ?case by (rule safe_cong [OF ended(3)]) simp_all
next
  case (listen k w i e opts hs ms)
  show ?case by (rule safe_cong [OF listen(5)]) simp_all
next
  case (bind k w i e opts c)
  show ?case by (rule safe_cong [OF bind(4)]) (simp_all add: bind_tip_def)
next
  case (await w k t cb)
  show ?case by (rule safe_cong [OF await(4)]) (simp_all add: tip_await_def)
next
  case (content k w i e opts c t slot)
  have "safe_options pr opts" using content(1,4) by (auto simp: tips_safe_def live_fields)
  then have s: "truthy (o_opt opts ''sanitize'')" "to_whiteList opts = DefaultWhitelist" "o_opt opts ''sanitizeFn'' \<noteq> JFun"
    by (auto simp: safe_options_def)
  have "x = [] \<or> (\<exists>out. x = pr out \<and> safe_html out)" if "c = HtmlContent x" for x
    using content(2) [OF that s(1)] sanitized_text [OF content(3) s(2,3)] content(3) by (auto simp: raw_html_def html_env_def)
  then show ?case using content(4) by (auto simp: tips_safe_def)
next
  case (core f k w)
  show ?case by (rule safe_edit [OF core(3)]) (use core(1,3) in \<open>auto simp: same_core_def tips_safe_def\<close>)
next
  case (animation v k w)
  show ?case unfolding set_animation_def
    by (rule safe_edit [OF animation(3)]) (use animation(3) in \<open>auto simp: tips_safe_def intro!: safe_set\<close>)
next
  case (delegate k w i e opts)
  have "safe_options pr opts" using delegate(1,3) by (auto simp: tips_safe_def live_fields)
  then show ?case by (intro safe_edit [OF delegate(3)]) (auto intro!: safe_set)
next
  case (placement q w)
  show ?case by (rule safe_edit [OF placement(3)]) (use placement(3) in \<open>auto simp: tips_safe_def\<close>)
next
  case (make k w i e opts)
  have "tips_safe pr (w\<lparr>ts_fresh := Suc (ts_fresh w)\<rparr>)" by (rule safe_cong [OF make(4)]) simp_all
  then show ?case by (rule safe_edit) (use make(4) in \<open>auto simp: tips_safe_def\<close>)
next
  case (popper w k t q)
  have "tips_safe pr (w\<lparr>ts_poppers := ts_poppers w @ [q], ts_next_popper := Suc (ts_next_popper w)\<rparr>)" by (rule safe_cong [OF popper(6)]) simp_all
  then show ?case by (rule safe_edit) (use popper(6) in \<open>auto simp: tips_safe_def\<close>)
next
  case (retime k w i e opts h)
  have s: "tips_safe pr (clear_timeout (tt_timeout i) w)"
    by (rule safe_cong [OF retime(3)]) (simp_all add: clear_timeout_def split: option.splits)
  have "tips_safe pr (edit_tip k (\<lambda>j. j\<lparr>tt_hoverState := h\<rparr>) (clear_timeout (tt_timeout i) w))" (is "tips_safe pr ?u")
    by (rule safe_edit [OF s]) (use s in \<open>auto simp: tips_safe_def\<close>)
  then have u: "tips_safe pr (?u\<lparr>ts_timers := ts_timers ?u @ [(ts_next_timer ?u, k, h)], ts_next_timer := Suc (ts_next_timer ?u)\<rparr>)"
    by (rule safe_cong) simp_all
  show ?case unfolding set_timeout_def by (rule safe_edit [OF u]) (use u in \<open>auto simp: tips_safe_def\<close>)
next
  case (alloc c p e config opts w)
  have "harmless config" using alloc(2,4) harmless_plain harmless_delegate unfolding tips_safe_def by metis
  then show ?case using config_safe [OF alloc(3,1)] alloc(4) by (auto simp: tips_safe_def)
next
  case (dispose w k)
  have "ts_content (tip_dispose k w) = ts_content w"
    by (auto simp: tip_dispose_def Let_def clear_timeout_def remove_tip_def detach_tip_def tip_destroy_popper_def on_ts_page_def split: option.splits)
  then show ?case using dispose(2) by (auto simp: tips_safe_def heap_dispose split: if_splits)
qed

interpretation safe: tip_invariant "html_env pr" plain_options "tips_safe pr" for pr
proof unfold_locales
  show "tips_safe pr (no_tips p fresh)" for p fresh by (simp add: tips_safe_def no_tips_def)
  show "plain_options no_options" by (simp add: plain_options_def no_options_def)
  show "\<exists>E. html_env pr E"
    by (rule exI [of _ "undefined\<lparr>te_print := pr, te_parse := (\<lambda>_. []), te_call := (\<lambda>_ _. JUndefined)\<rparr>"]) (simp add: html_env_def html_wf_def)
qed (rule safe_step)

end
