(* ===== verification/Bs_Tooltip_Demo.thy ===== *)
theory Bs_Tooltip_Demo
  imports Bs_Tooltip_Live
begin

text \<open>
  A page with one tooltip, on which the properties of tooltips and popovers are tried: how it is made, and what
  a call of \<^verbatim>\<open>show\<close> does to it each time.
\<close>

section \<open>The page\<close>

definition demo_tip_env :: tip_env where
  "demo_tip_env = \<lparr>te_prevents = (\<lambda>_ _ _. False), te_query = (\<lambda>_ _. None), te_matches = (\<lambda>_ _ _. False), te_dataset = (\<lambda>_ _. no_options),
     te_body = 0, te_touch = False, te_popper = True, te_parse = (\<lambda>s. [Text s]),
     te_print = (\<lambda>hs. concat (map (\<lambda>h. case h of Text s \<Rightarrow> s | _ \<Rightarrow> []) hs)),
     te_template = (\<lambda>s. Some \<lparr>tm_classes = [''tooltip''], tm_slots = [''tooltip-inner'']\<rparr>), te_string = (\<lambda>_. []), te_call = (\<lambda>_ _. JUndefined),
     te_applied = (\<lambda>_. JUndefined), te_length0 = (\<lambda>_. False),
     te_override = (\<lambda>_ c. c), te_place = (\<lambda>_ _. ''top''), te_draws = (\<lambda>n. [n]), te_shadow_support = False, te_getRootNode = None,
     te_is_shadow = (\<lambda>_. False), te_nodes_above = (\<lambda>_. [])\<rparr>"

definition demo_tip_page :: page where
  "demo_tip_page = setAttribute ''title'' ''Help'' 1 (bare_page (Node 0 [Node 1 [], Node 2 []]))"

text \<open>The tooltip is made with options of a script, then the pointer comes or goes.\<close>

definition demo_html :: tip_options where
  "demo_html = set_option ''html'' (JBool True) no_options"

definition demo_delay :: tip_options where
  "demo_delay = set_option ''delay'' (JNum (Some 100)) no_options"

definition demo_made :: "tip_options \<Rightarrow> bs_error + tips" where
  "demo_made opts = tip_jQueryInterface demo_tip_env TooltipClass (TipOptions (Some opts)) 1 (no_tips demo_tip_page 3)"

definition demo_pointer :: "bool \<Rightarrow> tips \<Rightarrow> bs_error + tips" where
  "demo_pointer comes = tip_event demo_tip_env (if comes then MouseEnter else MouseLeave) (\<lambda>_. False) 1"

definition demo_call :: "string \<Rightarrow> tips \<Rightarrow> bs_error + tips" where
  "demo_call m = tip_jQueryInterface demo_tip_env TooltipClass (TipMethod m) 1"

definition got :: "'e + 'a \<Rightarrow> ('a \<Rightarrow> bool) \<Rightarrow> bool" where
  "got r P = (case r of Inl _ \<Rightarrow> False | Inr x \<Rightarrow> P x)"


lemma gotE: "got r P \<Longrightarrow> (\<And>x. r = Inr x \<Longrightarrow> P x \<Longrightarrow> thesis) \<Longrightarrow> thesis"
  by (auto simp: got_def split: sum.splits)

lemma reach_later: "tips_reach Env A w \<Longrightarrow> tips_later Env A w v \<Longrightarrow> tips_reach Env A v"
  unfolding tips_reach_def using tips_later_trans by blast

lemma demo_made_reach:
  assumes "demo_made opts = Inr w" "Env demo_tip_env" "A opts"
  shows "tips_reach Env A w"
proof -
  have "tips_later Env A (no_tips demo_tip_page 3) w"
    by (rule tips_later.interface [where Env = Env and A = A, OF tips_later.now assms(2) _ assms(1) [unfolded demo_made_def]]) (simp add: assms(3))
  then show ?thesis unfolding tips_reach_def by blast
qed

lemma demo_call_later: "demo_call m w = Inr v \<Longrightarrow> Env demo_tip_env \<Longrightarrow> tips_later Env A w v"
  unfolding demo_call_def by (rule tips_later.interface [OF tips_later.now]) simp_all

lemma demo_pointer_later: "demo_pointer b w = Inr v \<Longrightarrow> Env demo_tip_env \<Longrightarrow> tips_later Env A w v"
  unfolding demo_pointer_def by (rule tips_later.event [OF tips_later.now])

definition demo_opts :: tip_options where
  "demo_opts = sanitize_template demo_tip_env (number_to_text demo_tip_env ''content'' (number_to_text demo_tip_env ''title''
     (delay_to_object (tip_extends (tip_extends (tip_Default TooltipClass) (data_options no_options)) demo_html))))"

lemma demo_tip_config: "tip_getConfig demo_tip_env TooltipClass p e demo_html = Inr demo_opts"
proof -
  have "typeCheckConfig (to_config (number_to_text demo_tip_env ''content'' (number_to_text demo_tip_env ''title''
     (delay_to_object (tip_extends (tip_extends (tip_Default TooltipClass) (data_options no_options)) demo_html))))) (tip_DefaultType TooltipClass) = Inr ()"
    by code_simp
  then show ?thesis by (simp add: tip_getConfig_def Let_def demo_opts_def demo_tip_env_def bindE_def)
qed

lemma demo_opt:
  "o_opt demo_opts ''selector'' = JBool False"
  "o_opt demo_opts ''title'' = JStr []"
  "o_opt demo_opts ''animation'' = JBool True"
  "\<exists>s. o_opt demo_opts ''template'' = JStr s"
  "o_opt demo_opts ''trigger'' = JStr ''hover focus''"
  "o_opt demo_opts ''html'' = JBool True"
  "o_opt demo_opts ''sanitize'' = JBool True"
  "o_opt demo_opts ''placement'' = JStr ''top''"
  "o_opt demo_opts ''container'' = JBool False"
  subgoal by code_simp
  subgoal by code_simp
  subgoal by code_simp
  subgoal
  proof -
    have "case o_opt demo_opts ''template'' of JStr _ \<Rightarrow> True | _ \<Rightarrow> False" by code_simp
    then show ?thesis by (auto split: jsval.splits)
  qed
  subgoal by code_simp
  subgoal by code_simp
  subgoal by code_simp
  subgoal by code_simp
  subgoal by code_simp
  done

section \<open>A call of show\<close>

text \<open>The tooltip can be shown, and what one more call of \<^verbatim>\<open>show\<close> does.\<close>

definition demo_ready :: "tips \<Rightarrow> bool" where
  "demo_ready w \<longleftrightarrow> ts_data w TooltipClass 1 = Some 0 \<and> doc_tree (ts_page w) = Node 0 [Node 1 [], Node 2 []]
     \<and> css_of (ts_page w) 1 ''display'' = [] \<and> attribute_of (ts_page w) 1 ''data-original-title'' = Some ''Help''
     \<and> (\<exists>i. live_tip 0 w = Some (i, 1, demo_opts) \<and> tt_class i = TooltipClass \<and> tt_isEnabled i)"


lemma demo_getTip:
  assumes "live_tip 0 w = Some (i, 1, demo_opts)"
  shows "\<exists>t v c. getTipElement demo_tip_env 0 w = (Some t, v) \<and> live_tip 0 v = Some (i\<lparr>tt_tip := Some t\<rparr>, 1, demo_opts)
    \<and> ts_page v = (ts_page w)\<lparr>class_list := c\<rparr> \<and> ts_data v = ts_data w \<and> ts_poppers v = ts_poppers w \<and> ts_next_popper v = ts_next_popper w"
proof -
  have "\<exists>t v. getTipElement demo_tip_env 0 w = (Some t, v) \<and> (v = w \<or> (\<exists>tm. v = make_tip 0 tm w))"
  proof (cases "tt_tip i")
    case None
    then show ?thesis using assms demo_opt(4) by (auto simp: getTipElement_def demo_tip_env_def)
  next
    case (Some t)
    then show ?thesis using assms by (simp add: getTipElement_def)
  qed
  then obtain t v where r: "getTipElement demo_tip_env 0 w = (Some t, v)" "v = w \<or> (\<exists>tm. v = make_tip 0 tm w)" by blast
  have page: "\<exists>c. ts_page v = (ts_page w)\<lparr>class_list := c\<rparr>" using r(2)
  proof
    assume "v = w"
    then show ?thesis by (intro exI [of _ "class_list (ts_page w)"]) simp
  next
    assume "\<exists>tm. v = make_tip 0 tm w"
    then show ?thesis by (auto simp: make_tip_def Let_def on_ts_page_def)
  qed
  have "ts_data v = ts_data w \<and> ts_poppers v = ts_poppers w \<and> ts_next_popper v = ts_next_popper w"
    using r(2) by (auto simp: make_tip_def Let_def on_ts_page_def)
  then show ?thesis using getTip_live [OF r(1) assms] r(1) page by blast
qed

lemma put_fields [simp]:
  "ts_page (put_content t slot c w) = ts_page w" "ts_data (put_content t slot c w) = ts_data w"
  "ts_poppers (put_content t slot c w) = ts_poppers w" "ts_next_popper (put_content t slot c w) = ts_next_popper w"
  by (simp_all add: put_content_def)

lemma append_fields [simp]:
  "ts_page (append_tip t cs w) = ts_page w" "ts_data (append_tip t cs w) = ts_data w"
  "ts_poppers (append_tip t cs w) = ts_poppers w" "ts_next_popper (append_tip t cs w) = ts_next_popper w"
  by (simp_all add: append_tip_def)

lemma page_fields [simp]:
  "ts_page (on_ts_page f w) = f (ts_page w)" "ts_data (on_ts_page f w) = ts_data w"
  "ts_poppers (on_ts_page f w) = ts_poppers w" "ts_next_popper (on_ts_page f w) = ts_next_popper w"
  by (simp_all add: on_ts_page_def)

lemma demo_env_fields [simp]:
  "te_prevents demo_tip_env ev e p = False" "te_draws demo_tip_env n = [n]" "te_touch demo_tip_env = False" "te_body demo_tip_env = 0"
  "te_override demo_tip_env e c = c"
  by (simp_all add: demo_tip_env_def)

lemma demo_open:
  assumes "demo_ready w" "tt_class i = TooltipClass" "\<forall>x. attribute_of (ts_page w) x ''id'' \<noteq> Some (''tooltip'' @ show_nat (ts_next_popper w))"
  shows "\<exists>v q. open_tip demo_tip_env 0 i 1 demo_opts t w = Inr v \<and> demo_ready v \<and> hasClass ''fade'' (ts_page v) t
    \<and> ts_next_popper v = Suc (ts_next_popper w) \<and> tq_id q = ts_next_popper w \<and> ts_poppers v = ts_poppers w @ [q]
    \<and> map_option tt_popper (ts_heap v 0) = Some (Some q)
    \<and> (\<forall>x s. attribute_of (ts_page v) x ''id'' = Some s \<longrightarrow> attribute_of (ts_page w) x ''id'' = Some s \<or> s = ''tooltip'' @ show_nat (ts_next_popper w))"
proof -
  have uid: "getUID (id_taken w) [ts_next_popper w] (tip_NAME TooltipClass) = Some (''tooltip'' @ show_nat (ts_next_popper w))"
    using assms(3) by (simp add: id_taken_def)
  define s where "s = ''tooltip'' @ show_nat (ts_next_popper w)"
  obtain j where j: "live_tip 0 w = Some (j, 1, demo_opts)" "tt_class j = TooltipClass" "tt_isEnabled j"
    using assms(1) by (auto simp: demo_ready_def)
  define w0 where "w0 = on_ts_page (\<lambda>p. setAttribute ''aria-describedby'' s 1 (setAttribute ''id'' s t p)) w"
  have t: "getTitle demo_tip_env (ts_page w0) 1 demo_opts = JStr ''Help''"
    using assms(1) by (auto simp: getTitle_def attribute_or_def w0_def setAttribute_def demo_ready_def demo_opt)
  define w1 where "w1 = on_ts_page (\<lambda>p. removeClass ''show'' t (removeClass ''fade'' t p))
      (put_content t ''tooltip-inner'' (HtmlContent (tip_sanitize demo_tip_env demo_opts ''Help'')) w0)"
  have sc: "tip_setContent demo_tip_env TooltipClass 1 demo_opts t w0 = Inr w1"
    by (simp add: tip_setContent_def t [unfolded One_nat_def] t setElementContent_def jq_html_def put_html_def length_zero_def demo_opt
        truthy_def tip_text_def bindE_def w1_def)
  define w2 where "w2 = on_ts_page (\<lambda>p. addAttachmentClass TooltipClass (Some ''top'') t (addClass ''fade'' t p)) w1"
  have up: "getAttachment ''top'' = Some ''top''" by code_simp
  define w3 where "w3 = on_ts_page (fire (tip_Event TooltipClass ''inserted'') 1) (if tip_in_document w2 t then w2 else append_tip t [0] w2)"
  define w4 where "w4 = on_ts_page (addClass ''show'' t) (tip_new_popper demo_tip_env 0 1 demo_opts t (Some ''top'') w3)"
  have run: "open_tip demo_tip_env 0 i 1 demo_opts t w = Inr w4"
    unfolding open_tip_def assms(2) demo_env_fields uid option.case s_def [symmetric] w0_def [symmetric] sc bindE_def sum.case
    by (simp add: tip_placement_def demo_opt up getContainer_def Let_def truthy_def w4_def w3_def w2_def tip_noops_def)
  define q where "q = \<lparr>tq_id = ts_next_popper w3, tq_instance = 0, tq_reference = 1, tq_tip = t,
    tq_config = tip_getPopperConfig demo_tip_env 1 demo_opts (Some ''top'')\<rparr>"
  have h: "ts_heap w3 = ts_heap w" "ts_data w3 = ts_data w" "ts_poppers w3 = ts_poppers w" "ts_next_popper w3 = ts_next_popper w"
    by (simp_all add: w3_def w2_def w1_def w0_def)
  have hv: "ts_heap w4 = (ts_heap w)(0 \<mapsto> j\<lparr>tt_popper := Some q\<rparr>)" using j(1)
    by (simp add: w4_def heap_new_popper h q_def live_fields)
  have pv: "ts_poppers w4 = ts_poppers w @ [q]" "ts_next_popper w4 = Suc (ts_next_popper w)" "ts_data w4 = ts_data w"
    by (simp_all add: w4_def tip_new_popper_def Let_def h q_def)
  have sa: "doc_tree (setAttribute a x y p) = doc_tree p" "css_of (setAttribute a x y p) = css_of p" "class_list (setAttribute a x y p) = class_list p"
    "attribute_of (setAttribute a x y p) z b = (if z = y \<and> b = a then Some x else attribute_of p z b)" for a x y z b p
    by (simp_all add: setAttribute_def)
  have cl: "doc_tree (addClass d y p) = doc_tree p" "css_of (addClass d y p) = css_of p" "attribute_of (addClass d y p) = attribute_of p"
    "hasClass f (addClass d y p) z \<longleftrightarrow> hasClass f p z \<or> f = d \<and> z = y"
    "doc_tree (removeClass d y p) = doc_tree p" "css_of (removeClass d y p) = css_of p" "attribute_of (removeClass d y p) = attribute_of p"
    "doc_tree (fire ev y p) = doc_tree p" "css_of (fire ev y p) = css_of p" "attribute_of (fire ev y p) = attribute_of p"
    "hasClass f (fire ev y p) z = hasClass f p z" "hasClass f (setAttribute a x y p) z = hasClass f p z" for d y p f z ev a x
    by (auto simp: addClass_def removeClass_def fire_def hasClass_def setAttribute_def)
  have p3: "ts_page w3 = fire (tip_Event TooltipClass ''inserted'') 1 (ts_page w2)" by (simp add: w3_def)
  have p4: "ts_page w4 = addClass ''show'' t (setAttribute ''x-placement'' (te_place demo_tip_env (ts_page w3) t) t (ts_page w3))"
    by (simp add: w4_def tip_new_popper_def Let_def tip_getPopperConfig_def)
  have p2: "ts_page w2 = addClass (attachment_name TooltipClass (Some ''top'')) t (addClass ''fade'' t (removeClass ''show'' t (removeClass ''fade'' t
      (setAttribute ''aria-describedby'' s 1 (setAttribute ''id'' s t (ts_page w))))))"
    by (simp add: w2_def w1_def w0_def addAttachmentClass_def)
  have pg: "doc_tree (ts_page w4) = doc_tree (ts_page w)" "css_of (ts_page w4) = css_of (ts_page w)"
      "attribute_of (ts_page w4) 1 ''data-original-title'' = attribute_of (ts_page w) 1 ''data-original-title''"
      "attribute_of (ts_page w4) x ''id'' = (if x = t then Some s else attribute_of (ts_page w) x ''id'')"
      "hasClass ''fade'' (ts_page w4) t" for x
    by (simp_all only: p4 p3 p2 sa cl) simp_all
  have "live_tip 0 w4 = Some (j\<lparr>tt_popper := Some q\<rparr>, 1, demo_opts)" using j(1) by (simp add: live_fields hv)
  then have "demo_ready w4" using assms(1) j(2,3) by (simp add: demo_ready_def pv(3) pg(1,2) pg(3) [unfolded One_nat_def])
  moreover have "tq_id q = ts_next_popper w" by (simp add: q_def h)
  moreover have "\<forall>x u. attribute_of (ts_page w4) x ''id'' = Some u \<longrightarrow> attribute_of (ts_page w) x ''id'' = Some u \<or> u = s" by (simp add: pg(4))
  ultimately show ?thesis using run pv(1,2) pg(5) hv unfolding s_def by (intro exI [of _ w4] exI [of _ q]) simp
qed

lemma demo_show:
  assumes "demo_ready w" "\<forall>x. attribute_of (ts_page w) x ''id'' \<noteq> Some (''tooltip'' @ show_nat (ts_next_popper w))"
  shows "\<exists>v q. demo_call ''show'' w = Inr v \<and> demo_ready v
    \<and> ts_next_popper v = Suc (ts_next_popper w) \<and> tq_id q = ts_next_popper w \<and> ts_poppers v = ts_poppers w @ [q]
    \<and> map_option tt_popper (ts_heap v 0) = Some (Some q)
    \<and> (\<forall>x s. attribute_of (ts_page v) x ''id'' = Some s \<longrightarrow> attribute_of (ts_page w) x ''id'' = Some s \<or> s = ''tooltip'' @ show_nat (ts_next_popper w))"
proof -
  obtain j where j: "live_tip 0 w = Some (j, 1, demo_opts)" "tt_class j = TooltipClass" "tt_isEnabled j"
    using assms(1) by (auto simp: demo_ready_def)
  define w1 where "w1 = on_ts_page (fire (tip_Event TooltipClass ''show'') 1) w"
  have "live_tip 0 w1 = Some (j, 1, demo_opts)" using j(1) by (simp add: w1_def live_tip_def)
  from demo_getTip [OF this] obtain t w2 c where g: "getTipElement demo_tip_env 0 w1 = (Some t, w2)"
      "live_tip 0 w2 = Some (j\<lparr>tt_tip := Some t\<rparr>, 1, demo_opts)" "ts_page w2 = (ts_page w1)\<lparr>class_list := c\<rparr>" "ts_data w2 = ts_data w1"
      "ts_poppers w2 = ts_poppers w1" "ts_next_popper w2 = ts_next_popper w1" by blast
  have "demo_ready w2" using assms(1) g j by (auto simp: demo_ready_def w1_def fire_def)
  moreover have "\<forall>x. attribute_of (ts_page w2) x ''id'' \<noteq> Some (''tooltip'' @ show_nat (ts_next_popper w2))"
    using assms(2) g by (simp add: w1_def fire_def)
  ultimately obtain v q where o: "open_tip demo_tip_env 0 j 1 demo_opts t w2 = Inr v" "demo_ready v" "hasClass ''fade'' (ts_page v) t"
      "ts_next_popper v = Suc (ts_next_popper w2)" "tq_id q = ts_next_popper w2" "ts_poppers v = ts_poppers w2 @ [q]"
      "map_option tt_popper (ts_heap v 0) = Some (Some q)"
      "\<forall>x s. attribute_of (ts_page v) x ''id'' = Some s \<longrightarrow> attribute_of (ts_page w2) x ''id'' = Some s \<or> s = ''tooltip'' @ show_nat (ts_next_popper w2)"
    using demo_open [OF _ j(2)] by metis
  have r: "css_of (ts_page w) 1 ''display'' \<noteq> ''none''" "isWithContent demo_tip_env TooltipClass (ts_page w) 1 demo_opts"
      "tip_in_dom demo_tip_env (ts_page w1) 1"
    using assms(1) by (auto simp: demo_ready_def isWithContent_def getTitle_def attribute_or_def truthy_def tip_in_dom_def w1_def fire_def
        descendants_def tree_at_def)
  have b: "begin_tip demo_tip_env 0 w = Inr (Some t, v)"
    using r(1,2) r(3) [unfolded w1_def] j g(1) [unfolded w1_def] o(1) by (simp add: begin_tip_def with_live_def Let_def bindE_def)
  have "tip_show demo_tip_env 0 w = Inr (tip_await t (ShowComplete 0) v)"
    by (simp add: tip_show_def show_then_def b bindE_def o(3))
  then have "demo_call ''show'' w = Inr (tip_await t (ShowComplete 0) v)"
    using assms(1) j(1) by (simp add: demo_call_def tip_jQueryInterface_def demo_ready_def tip_method_def with_live_def Let_def case_prod_beta)
  moreover have "demo_ready (tip_await t (ShowComplete 0) v)" using o(2) by (simp add: demo_ready_def tip_await_def live_tip_def)
  ultimately show ?thesis using o(4-8) g by (intro exI [of _ "tip_await t (ShowComplete 0) v"] exI [of _ q]) (simp add: tip_await_def w1_def fire_def)
qed

lemma demo_first: "\<exists>w. demo_made demo_html = Inr w \<and> demo_ready w \<and> ts_poppers w = [] \<and> ts_next_popper w = 0
    \<and> (\<forall>x. attribute_of (ts_page w) x ''id'' = None)"
proof -
  define w where "w = on_ts_page (fixTitle 1) ((no_tips demo_tip_page 3)\<lparr>ts_next := 1, ts_heap := [0 \<mapsto>
      \<lparr>tt_class = TooltipClass, tt_element = Some 1, tt_options = Some demo_opts, tt_tip = None, tt_isEnabled = True, tt_timeout = None,
       tt_hoverState = NoHover, tt_activeTrigger = (\<lambda>_. False), tt_popper = None\<rparr>],
     ts_handlers := map (\<lambda>ev. \<lparr>th_element = 1, th_event = ev, th_selector = None, th_instance = 0\<rparr>) [MouseEnter, MouseLeave, FocusIn, FocusOut]\<rparr>)"
  have m: "closest demo_tip_page (hasClass ''modal'' demo_tip_page) 1 = None" by code_simp
  have tr: "js_split CHR '' '' ''hover focus'' = [''hover'', ''focus'']" by code_simp
  have "demo_made demo_html = Inr (bind_tip TooltipClass 1 0 w)"
    using m [unfolded One_nat_def]
    by (simp add: demo_made_def tip_jQueryInterface_def new_tip_def demo_tip_config bindE_def setListeners_def Let_def demo_opt truthy_def tr
        delegate_selector_def no_tips_def trigger_events_def w_def) (simp add: demo_tip_env_def)
  moreover have "demo_ready (bind_tip TooltipClass 1 0 w)"
    by (simp add: demo_ready_def bind_tip_def w_def no_tips_def live_tip_def demo_tip_page_def setAttribute_def fixTitle_def bare_page_def)
  moreover have "attribute_of (ts_page w) x ''id'' = None" for x
    by (simp add: w_def no_tips_def demo_tip_page_def setAttribute_def fixTitle_def)
  moreover have "ts_poppers w = []" "ts_next_popper w = 0" by (simp_all add: w_def no_tips_def on_ts_page_def)
  ultimately show ?thesis by (intro exI [of _ "bind_tip TooltipClass 1 0 w"]) (simp add: bind_tip_def)
qed

end
