(* ===== verification/Bs_Tooltip_Hover.thy ===== *)
theory Bs_Tooltip_Hover
  imports Bs_Tooltip_Demo
begin

text \<open>
  The properties of tooltips and popovers: what the invariants say in all reachable states, what the delays
  do when the pointer only passes, what hiding leaves behind, and the popper that is forgotten when a tip is
  shown again before it is hidden.
\<close>

section \<open>In all reachable states\<close>

text \<open>C39. In every state the page reaches, the options of every tooltip and popover have the types that the
  class declares, whatever options, data attributes and events came before.\<close>

theorem tip_options_typed:
  assumes "tips_reach (\<lambda>_. True) (\<lambda>_. True) w" "ts_heap w k = Some i" "tt_options i = Some opts"
    and "(key, expected) \<in> set (tip_DefaultType (tt_class i))"
  shows "type_matches expected (value_type (o_opt opts key))"
proof -
  have "typed_options (tt_class i) opts" using typed.holds [OF assms(1)] assms(2,3) by (simp add: tips_typed_def)
  then show ?thesis using assms(4) unfolding typed_options_def by blast
qed

theorem tip_options_typed_witness:
  "\<exists>w i opts. demo_made demo_delay = Inr w \<and> ts_heap w 0 = Some i \<and> tt_options i = Some opts
     \<and> o_opt opts ''delay'' = JObject \<and> type_matches ''(number|object)'' (value_type (o_opt opts ''delay''))"
proof -
  have "got (demo_made demo_delay) (\<lambda>w. case ts_heap w 0 of None \<Rightarrow> False | Some i \<Rightarrow> tt_class i = TooltipClass
      \<and> (case tt_options i of None \<Rightarrow> False | Some opts \<Rightarrow> o_opt opts ''delay'' = JObject))"
    by code_simp
  then obtain w i opts where w: "demo_made demo_delay = Inr w" and i: "ts_heap w 0 = Some i" "tt_class i = TooltipClass"
      "tt_options i = Some opts" "o_opt opts ''delay'' = JObject"
    by (elim gotE) (auto split: option.splits)
  have r: "tips_reach (\<lambda>_. True) (\<lambda>_. True) w" by (rule demo_made_reach [OF w]) simp_all
  have "(''delay'', ''(number|object)'') \<in> set (tip_DefaultType (tt_class i))"
    by (simp add: i(2) tip_DefaultType_def tooltip_DefaultType_def)
  then show ?thesis using tip_options_typed [OF r i(1,3)] w i by blast
qed

text \<open>C37. In every state the page reaches, what is still to come concerns only instances that are not
  disposed: the instance of every element in the data, the handlers bound to elements, the one timer an instance
  knows, and the callbacks at the end of transitions, each of which waits at the tip of its instance. No later
  event, timer or transition can make a disposed tooltip read its element.\<close>

theorem tips_refer_to_live:
  assumes "tips_reach (\<lambda>_. True) (\<lambda>_. True) w"
  shows "(\<forall>c e k. ts_data w c e = Some k \<longrightarrow> (\<exists>i opts. live_tip k w = Some (i, e, opts) \<and> tt_class i = c))
    \<and> (\<forall>h \<in> set (ts_handlers w). \<exists>i opts. live_tip (th_instance h) w = Some (i, th_element h, opts))
    \<and> (\<forall>n k h. (n, k, h) \<in> set (ts_timers w) \<longrightarrow> (\<exists>i e opts. live_tip k w = Some (i, e, opts) \<and> tt_timeout i = Some n))
    \<and> (\<forall>t cb. (t, Callback cb) \<in> set (end_handlers (ts_trans w)) \<longrightarrow>
          (\<exists>k i e opts. live_tip k w = Some (i, e, opts) \<and> tt_tip i = Some t \<and> cb \<in> {ShowComplete k, HideComplete k t}))"
proof -
  note d = tips_okD [OF ok.holds [OF assms]]
  show ?thesis
  proof (intro conjI allI ballI impI)
    show "\<exists>i opts. live_tip k w = Some (i, e, opts) \<and> tt_class i = c" if "ts_data w c e = Some k" for c e k
      using d(2) [OF that] by (auto simp: view_Some)
    show "\<exists>i opts. live_tip (th_instance h) w = Some (i, th_element h, opts)" if "h \<in> set (ts_handlers w)" for h
      using d(3) [OF that] by (auto simp: view_Some)
    show "\<exists>i e opts. live_tip k w = Some (i, e, opts) \<and> tt_timeout i = Some n" if "(n, k, h) \<in> set (ts_timers w)" for n k h
      using d(6) [OF that] by (auto simp: view_Some)
    show "\<exists>k i e opts. live_tip k w = Some (i, e, opts) \<and> tt_tip i = Some t \<and> cb \<in> {ShowComplete k, HideComplete k t}"
      if "(t, Callback cb) \<in> set (end_handlers (ts_trans w))" for t cb
      using d(7) [OF that] by (auto simp: view_Some)
  qed
qed

theorem tips_refer_to_live_witness:
  "\<exists>w. bindE (demo_made demo_delay) (demo_pointer True) = Inr w \<and> ts_timers w = [(0, 0, HoverShow)]
     \<and> (\<forall>n k h. (n, k, h) \<in> set (ts_timers w) \<longrightarrow> (\<exists>i e opts. live_tip k w = Some (i, e, opts) \<and> tt_timeout i = Some n))"
proof -
  have "got (bindE (demo_made demo_delay) (demo_pointer True)) (\<lambda>w. ts_timers w = [(0, 0, HoverShow)])" by code_simp
  then obtain w where w: "bindE (demo_made demo_delay) (demo_pointer True) = Inr w" "ts_timers w = [(0, 0, HoverShow)]" by (elim gotE)
  then obtain u where u: "demo_made demo_delay = Inr u" "demo_pointer True u = Inr w" by (auto simp: bindE_Inr_conv)
  have "tips_reach (\<lambda>_. True) (\<lambda>_. True) w"
    by (rule reach_later [OF demo_made_reach [OF u(1)] demo_pointer_later [OF u(2)]]) simp_all
  from tips_refer_to_live [OF this, THEN conjunct2, THEN conjunct2, THEN conjunct1]
  show ?thesis using w by (intro exI [of _ w] conjI)
qed

text \<open>C38. As long as scripts pass no options that concern the sanitizer and no function for a title or a content
  returns a function, every text that a tooltip or popover puts into the page as HTML is the print of safe HTML, and
  so is every template, whatever data attributes, titles and contents the page has: the data attributes for the
  sanitizer are ignored. The result of a returned function would go by the sanitizer.\<close>

theorem tip_html_sanitized:
  assumes "tips_reach (html_env pr) plain_options w"
  shows "(\<forall>t slot s. ts_content w t slot = Some (HtmlContent s) \<longrightarrow> s = [] \<or> (\<exists>out. s = pr out \<and> safe_html out))
    \<and> (\<forall>k i opts s. ts_heap w k = Some i \<longrightarrow> tt_options i = Some opts \<longrightarrow> o_opt opts ''template'' = JStr s \<longrightarrow>
          s = [] \<or> (\<exists>out. s = pr out \<and> safe_html out))"
proof -
  have "tips_safe pr w" by (rule safe.holds [OF assms])
  then show ?thesis unfolding tips_safe_def safe_options_def by blast
qed

text \<open>The way round the sanitizer: it hands back a function without parameters as an empty text, and jQuery calls
  it.\<close>

theorem returned_function_unsanitized:
  assumes "truthy (o_opt opts ''html'')" "truthy (o_opt opts ''sanitize'')" "te_length0 E JFun" "te_applied E slot = JStr s"
  shows "setElementContent E opts t slot JFun w = Inr (put_content t slot (HtmlContent s) w)"
  using assms by (simp add: setElementContent_def length_zero_def jq_html_def put_html_def)

theorem tip_html_sanitized_witness:
  "\<exists>u w. demo_made demo_html = Inr u \<and> demo_call ''setContent'' u = Inr w
     \<and> ts_content w 3 ''tooltip-inner'' = Some (HtmlContent ''Help'') \<and> (\<exists>out. ''Help'' = te_print demo_tip_env out \<and> safe_html out)"
proof -
  have "got (demo_made demo_html) (\<lambda>u. got (demo_call ''setContent'' u) (\<lambda>w. ts_content w 3 ''tooltip-inner'' = Some (HtmlContent ''Help'')))"
    by code_simp
  then obtain u w where w: "demo_made demo_html = Inr u" "demo_call ''setContent'' u = Inr w"
      "ts_content w 3 ''tooltip-inner'' = Some (HtmlContent ''Help'')" by (elim gotE)
  have E: "html_env (te_print demo_tip_env) demo_tip_env" by (simp add: html_env_def demo_tip_env_def html_wf_def)
  have A: "plain_options demo_html"
    by (simp add: plain_options_def demo_html_def DISALLOWED_ATTRIBUTES_def set_option_def no_options_def)
  have "tips_reach (html_env (te_print demo_tip_env)) plain_options w"
    by (rule reach_later [OF demo_made_reach [where Env = "html_env (te_print demo_tip_env)" and A = plain_options, OF w(1) E A]
          demo_call_later [where Env = "html_env (te_print demo_tip_env)" and A = plain_options, OF w(2) E]])
  from tip_html_sanitized [OF this, THEN conjunct1, rule_format, OF w(3)]
  show ?thesis using w by (intro exI [of _ u] exI [of _ w] conjI) simp_all
qed

section \<open>A popper that is forgotten\<close>

definition popper_ids :: "tips \<Rightarrow> bool" where
  "popper_ids w \<longleftrightarrow> (\<forall>k i r. ts_heap w k = Some i \<longrightarrow> tt_popper i = Some r \<longrightarrow> tq_id r < ts_next_popper w
     \<and> (\<forall>j i' r'. ts_heap w j = Some i' \<longrightarrow> tt_popper i' = Some r' \<longrightarrow> tq_id r' = tq_id r \<longrightarrow> j = k))"

definition forgotten :: "tip_popper \<Rightarrow> tips \<Rightarrow> bool" where
  "forgotten q w \<longleftrightarrow> q \<in> set (ts_poppers w) \<and> tq_id q < ts_next_popper w
     \<and> (\<forall>k i r. ts_heap w k = Some i \<longrightarrow> tt_popper i = Some r \<longrightarrow> tq_id r \<noteq> tq_id q)"

lemma poppers_dispose:
  "live_tip k w = None \<Longrightarrow> tip_dispose k w = w"
  "live_tip k w = Some (i, e, opts) \<Longrightarrow> ts_next_popper (tip_dispose k w) = ts_next_popper w"
  "live_tip k w = Some (i, e, opts) \<Longrightarrow> ts_poppers (tip_dispose k w) =
     (case tt_popper i of None \<Rightarrow> ts_poppers w | Some q \<Rightarrow> filter (\<lambda>r. tq_id r \<noteq> tq_id q) (ts_poppers w))"
proof -
  have others: "ts_next_popper (clear_timeout m u) = ts_next_popper u" "ts_poppers (clear_timeout m u) = ts_poppers u"
    "ts_next_popper (remove_tip t u) = ts_next_popper u" "ts_poppers (remove_tip t u) = ts_poppers u"
    "ts_next_popper (tip_destroy_popper p u) = ts_next_popper u"
    "ts_poppers (tip_destroy_popper p u) = (case p of None \<Rightarrow> ts_poppers u | Some q \<Rightarrow> filter (\<lambda>r. tq_id r \<noteq> tq_id q) (ts_poppers u))" for m t u p
    by (simp_all add: clear_timeout_def remove_tip_def detach_tip_def tip_destroy_popper_def on_ts_page_def Let_def split: option.splits)
  show "live_tip k w = None \<Longrightarrow> tip_dispose k w = w" by (simp add: tip_dispose_def)
  assume "live_tip k w = Some (i, e, opts)"
  then show "ts_next_popper (tip_dispose k w) = ts_next_popper w" "ts_poppers (tip_dispose k w) =
     (case tt_popper i of None \<Rightarrow> ts_poppers w | Some q \<Rightarrow> filter (\<lambda>r. tq_id r \<noteq> tq_id q) (ts_poppers w))"
    by (simp_all add: tip_dispose_def Let_def others split: option.split)
qed

text \<open>Steps that leave poppers and the poppers of instances alone.\<close>

definition same_poppers :: "tips \<Rightarrow> tips \<Rightarrow> bool" where
  "same_poppers w v \<longleftrightarrow> ts_poppers v = ts_poppers w \<and> ts_next_popper v = ts_next_popper w
     \<and> (\<forall>k i r. ts_heap v k = Some i \<longrightarrow> tt_popper i = Some r \<longrightarrow> (\<exists>i'. ts_heap w k = Some i' \<and> tt_popper i' = Some r))"

lemma popper_step_cases:
  assumes "tip_step E A w v"
  obtains (same) "same_poppers w v"
  | (new) k q where "tq_id q = ts_next_popper w" "ts_poppers v = ts_poppers w @ [q]" "ts_next_popper v = Suc (ts_next_popper w)"
      "ts_heap v = (ts_heap w)(k := map_option (\<lambda>i. i\<lparr>tt_popper := Some q\<rparr>) (ts_heap w k))"
  | (destroyed) k i q where "ts_heap w k = Some i" "tt_popper i = Some q" "ts_next_popper v = ts_next_popper w"
      "ts_poppers v = filter (\<lambda>r. tq_id r \<noteq> tq_id q) (ts_poppers w)"
      "\<And>j i r. ts_heap v j = Some i \<Longrightarrow> tt_popper i = Some r \<Longrightarrow> \<exists>i'. ts_heap w j = Some i' \<and> tt_popper i' = Some r"
  using assms
proof cases
  case (core k f)
  then show ?thesis by (intro same) (auto simp: same_poppers_def heap_edit same_core_def split: if_splits)
next
  case (popper k t q)
  then show ?thesis by (intro new [of q k]) (simp_all add: edit_tip_def)
next
  case (unpopper k i q)
  then show ?thesis by (intro destroyed [of k i q]) auto
next
  case (dispose k)
  show ?thesis
  proof (cases "live_tip k w")
    case None
    then show ?thesis by (intro same) (auto simp: dispose same_poppers_def poppers_dispose(1))
  next
    case (Some l)
    obtain i e opts where l: "live_tip k w = Some (i, e, opts)" using Some by (cases l) auto
    have heap: "\<exists>i'. ts_heap w j = Some i' \<and> tt_popper i' = Some r" if "ts_heap v j = Some x" "tt_popper x = Some r" for j x r
      using that l by (auto simp: dispose heap_dispose split: if_splits)
    show ?thesis
    proof (cases "tt_popper i")
      case None
      then show ?thesis using heap by (intro same) (auto simp: dispose same_poppers_def poppers_dispose(2,3) [OF l])
    next
      case (Some q)
      show ?thesis
        by (rule destroyed [of k i q]) (use l Some heap in \<open>auto simp: dispose poppers_dispose(2,3) [OF l] live_fields\<close>)
    qed
  qed
qed (auto intro!: same simp: same_poppers_def heap_edit heap_bind set_timeout_def tip_await_def clear_timeout_def set_animation_def
      bind_tip_def split: if_splits option.splits)

lemma popper_ids_step:
  assumes "tip_step E A w v" "popper_ids w"
  shows "popper_ids v"
  using assms(1)
proof (cases rule: popper_step_cases)
  case same
  show ?thesis using assms(2) same unfolding popper_ids_def same_poppers_def by metis
next
  case (destroyed k i q)
  show ?thesis using assms(2) destroyed(3,5) unfolding popper_ids_def by metis
next
  case (new k q)
  have heap: "ts_heap v j = Some i \<Longrightarrow> tt_popper i = Some r \<Longrightarrow> (if j = k then r = q else \<exists>i'. ts_heap w j = Some i' \<and> tt_popper i' = Some r)" for j i r
    using new(4) by (auto split: if_splits)
  have old: "tq_id r < ts_next_popper w" if "ts_heap w j = Some i" "tt_popper i = Some r" for j i r
    using assms(2) that unfolding popper_ids_def by blast
  show ?thesis unfolding popper_ids_def
  proof (intro allI impI conjI)
    fix j i r assume r: "ts_heap v j = Some i" "tt_popper i = Some r"
    show "tq_id r < ts_next_popper v"
    proof (cases "j = k")
      case True
      then show ?thesis using heap [OF r] new(1,3) by simp
    next
      case False
      then obtain i1 where "ts_heap w j = Some i1" "tt_popper i1 = Some r" using heap [OF r] by auto
      then show ?thesis using old new(3) less_SucI by metis
    qed
    fix j' i' r' assume r': "ts_heap v j' = Some i'" "tt_popper i' = Some r'" "tq_id r' = tq_id r"
    show "j' = j"
    proof -
      have lt: "tq_id x < tq_id q" if "ts_heap v n = Some y" "tt_popper y = Some x" "n \<noteq> k" for n y x
        using heap [OF that(1,2)] that(3) old new(1) by auto
      have eq: "n = k" if "ts_heap v n = Some y" "tt_popper y = Some x" "tq_id x = tq_id q" for n y x
        using lt [OF that(1,2)] that(3) by fastforce
      have "j = k \<longleftrightarrow> j' = k" using heap [OF r] heap [OF r'(1,2)] eq [OF r] eq [OF r'(1,2)] r'(3) by metis
      then consider "j = k" "j' = k" | "j \<noteq> k" "j' \<noteq> k" by blast
      then show ?thesis
      proof cases
      case 2
      then obtain i1 i2 where "ts_heap w j = Some i1" "tt_popper i1 = Some r" "ts_heap w j' = Some i2" "tt_popper i2 = Some r'"
        using heap [OF r] heap [OF r'(1,2)] by auto
      then show ?thesis using assms(2) r'(3) unfolding popper_ids_def by blast
      qed simp
    qed
  qed
qed

interpretation ids: tip_invariant "\<lambda>_. True" "\<lambda>_. True" popper_ids
  by unfold_locales (use popper_ids_step in \<open>auto simp: popper_ids_def no_tips_def\<close>)

lemma forgotten_step:
  assumes "tip_step E A w v" "forgotten q w"
  shows "forgotten q v"
  using assms(1)
proof (cases rule: popper_step_cases)
  case same
  show ?thesis using assms(2) same unfolding forgotten_def same_poppers_def by metis
next
  case (destroyed k i r)
  have "tq_id r \<noteq> tq_id q" using assms(2) destroyed(1,2) unfolding forgotten_def by blast
  then have "q \<in> set (ts_poppers v)" using assms(2) destroyed(4) by (simp add: forgotten_def)
  moreover have "tq_id x \<noteq> tq_id q" if "ts_heap v j = Some i" "tt_popper i = Some x" for j i x
    using destroyed(5) [OF that] assms(2) unfolding forgotten_def by blast
  ultimately show ?thesis using assms(2) destroyed(3) by (simp add: forgotten_def)
next
  case (new k r)
  have "tq_id x \<noteq> tq_id q" if "ts_heap v j = Some i" "tt_popper i = Some x" for j i x
  proof (cases "j = k")
    case True
    then show ?thesis using that new(1,4) assms(2) by (auto simp: forgotten_def)
  next
    case False
    then show ?thesis using that new(4) assms(2) unfolding forgotten_def by fastforce
  qed
  then show ?thesis using assms(2) new(2,3) by (simp add: forgotten_def)
qed

interpretation forgotten: tip_kept "\<lambda>_. True" "\<lambda>_. True" "forgotten q" for q
  by unfold_locales (use forgotten_step in auto)

text \<open>Showing leaves the poppers alone until the new one is made.\<close>

definition pop_view :: "tips \<Rightarrow> tip_popper list \<times> nat \<times> (nat \<Rightarrow> tip_popper option option)" where
  "pop_view w = (ts_poppers w, ts_next_popper w, \<lambda>k. map_option tt_popper (ts_heap w k))"

lemma pop_view_keeps [simp]:
  "pop_view (on_ts_page f w) = pop_view w" "pop_view (append_tip t cs w) = pop_view w" "pop_view (put_content t slot c w) = pop_view w"
  "pop_view (tip_noops E n w) = pop_view w" "pop_view (make_tip k tm w) = pop_view w"
  by (auto simp: pop_view_def on_ts_page_def append_tip_def put_content_def tip_noops_def make_tip_def Let_def edit_tip_def option.map_comp
      o_def fun_eq_iff)

lemma pop_view_getTip: "getTipElement E k w = (tip, v) \<Longrightarrow> pop_view v = pop_view w"
  by (cases rule: getTip_cases) auto

lemma pop_view_content: "setElementContent E opts t slot c w = Inr v \<Longrightarrow> pop_view v = pop_view w"
  by (auto simp: setElementContent_def jq_html_def jq_text_def put_html_def Let_def split: if_splits jsval.splits)

lemma pop_view_setContent: "tip_setContent E c e opts t w = Inr v \<Longrightarrow> pop_view v = pop_view w"
  by (auto simp: tip_setContent_def bindE_Inr_conv pop_view_content split: tip_class.splits)

lemma pop_view_new_popper:
  "live_tip k w = Some (i, e', opts') \<Longrightarrow>
   \<exists>r. tq_id r = ts_next_popper w \<and> pop_view (tip_new_popper E k e opts t a w) =
      (ts_poppers w @ [r], Suc (ts_next_popper w), (\<lambda>j. map_option tt_popper (ts_heap w j))(k \<mapsto> Some r))"
  by (intro exI [of _ "\<lparr>tq_id = ts_next_popper w, tq_instance = k, tq_reference = e, tq_tip = t, tq_config = tip_getPopperConfig E e opts a\<rparr>"])
    (auto simp: pop_view_def tip_new_popper_def Let_def edit_tip_def on_ts_page_def live_fields fun_eq_iff)

lemma pop_view_open:
  assumes l: "live_tip k w = Some (i, e, opts)" and run: "open_tip E k j e opts t w = Inr w'"
  shows "\<exists>r. tq_id r = ts_next_popper w \<and> pop_view w' =
      (ts_poppers w @ [r], Suc (ts_next_popper w), (\<lambda>j. map_option tt_popper (ts_heap w j))(k \<mapsto> Some r))"
proof -
  obtain ident w1 a cs where sc: "tip_setContent E (tt_class j) e opts t
        (on_ts_page (\<lambda>p. setAttribute ''aria-describedby'' ident e (setAttribute ''id'' ident t p)) w) = Inr w1"
    and w': "w' = (let w2 = on_ts_page (\<lambda>p. addAttachmentClass (tt_class j) a t (if truthy (o_opt opts ''animation'') then addClass ''fade'' t p else p)) w1;
        w3 = (if tip_in_document w2 t then w2 else append_tip t cs w2);
        w4 = tip_new_popper E k e opts t a (on_ts_page (fire (tip_Event (tt_class j) ''inserted'') e) w3)
      in tip_noops E (Suc (ts_noops w4)) (on_ts_page (addClass ''show'' t) w4))"
    using run by (auto simp: open_tip_def bindE_Inr_conv Let_def split: option.splits)
  define w3 where "w3 = (let w2 = on_ts_page (\<lambda>p. addAttachmentClass (tt_class j) a t (if truthy (o_opt opts ''animation'') then addClass ''fade'' t p else p)) w1
    in on_ts_page (fire (tip_Event (tt_class j) ''inserted'') e) (if tip_in_document w2 t then w2 else append_tip t cs w2))"
  have v3: "pop_view w3 = pop_view w" using pop_view_setContent [OF sc] by (simp add: w3_def Let_def)
  have "ts_heap w3 = ts_heap w" using setContent_steps(2) [OF _ sc] l by (simp add: w3_def Let_def live_tip_def)
  then have l3: "live_tip k w3 = Some (i, e, opts)" using l by (simp add: live_tip_def)
  have "pop_view w' = pop_view (tip_new_popper E k e opts t a w3)" by (simp add: w' w3_def Let_def)
  then show ?thesis using pop_view_new_popper [OF l3, of E e opts t a] v3 by (simp add: pop_view_def)
qed

lemma pop_view_begin:
  assumes run: "begin_tip E k w = Inr (tip, v)" and l: "live_tip k w = Some (i, e, opts)"
  shows "if tip = None then pop_view v = pop_view w else \<exists>r. tq_id r = ts_next_popper w \<and> pop_view v =
      (ts_poppers w @ [r], Suc (ts_next_popper w), (\<lambda>j. map_option tt_popper (ts_heap w j))(k \<mapsto> Some r))"
proof -
  define w1 where "w1 = on_ts_page (fire (tip_Event (tt_class i) ''show'') e) w"
  have "tip = None \<and> pop_view v = pop_view w
      \<or> (\<exists>t w2. tip = Some t \<and> getTipElement E k w1 = (Some t, w2) \<and> open_tip E k i e opts t w2 = Inr v)"
    using run l by (auto simp: w1_def begin_tip_def with_live_def Let_def bindE_Inr_conv split: if_splits option.splits prod.splits)
  then consider "tip = None" "pop_view v = pop_view w"
    | t w2 where "tip = Some t" "getTipElement E k w1 = (Some t, w2)" "open_tip E k i e opts t w2 = Inr v" by blast
  then show ?thesis
  proof cases
    case 2
    have "live_tip k w1 = Some (i, e, opts)" using l by (simp add: w1_def live_tip_def)
    then have "live_tip k w2 = Some (i\<lparr>tt_tip := Some t\<rparr>, e, opts)" by (rule getTip_live [OF 2(2)])
    from pop_view_open [OF this 2(3)] show ?thesis
      using pop_view_getTip [OF 2(2)] 2(1) by (simp add: pop_view_def w1_def on_ts_page_def)
  qed simp
qed

lemma begin_forgets:
  assumes run: "begin_tip E k w = Inr (Some t, v)" and l: "live_tip k w = Some (i, e, opts)" and ids: "popper_ids w"
    and q: "tt_popper i = Some q" "q \<in> set (ts_poppers w)"
  shows "forgotten q v"
proof -
  obtain r where r: "tq_id r = ts_next_popper w"
    "pop_view v = (ts_poppers w @ [r], Suc (ts_next_popper w), (\<lambda>j. map_option tt_popper (ts_heap w j))(k \<mapsto> Some r))"
    using pop_view_begin [OF run l] by auto
  have heap: "map_option tt_popper (ts_heap v j) = (if j = k then Some (Some r) else map_option tt_popper (ts_heap w j))" for j
    using r(2) by (auto simp: pop_view_def dest: fun_cong [of _ _ j])
  have id: "tq_id q < ts_next_popper w" "\<And>j i' r'. ts_heap w j = Some i' \<Longrightarrow> tt_popper i' = Some r' \<Longrightarrow> tq_id r' = tq_id q \<Longrightarrow> j = k"
    using ids l q(1) unfolding popper_ids_def live_fields by blast+
  have "tq_id x \<noteq> tq_id q" if x: "ts_heap v j = Some i'" "tt_popper i' = Some x" for j i' x
  proof (cases "j = k")
    case True
    then have "x = r" using heap [of j] x by simp
    then show ?thesis using r(1) id(1) by simp
  next
    case False
    then have "map_option tt_popper (ts_heap w j) = Some (Some x)" using heap [of j] x by simp
    then show ?thesis using id(2) False by auto
  qed
  then show ?thesis using q(2) id(1) r(2) by (simp add: forgotten_def pop_view_def)
qed

lemma show_forgets:
  assumes "tips_reach (\<lambda>_. True) (\<lambda>_. True) w" and l: "live_tip k w = Some (i, e, opts)"
    and q: "tt_popper i = Some q" "q \<in> set (ts_poppers w)"
    and run: "tip_show E k w = Inr v" and new: "ts_next_popper w < ts_next_popper v"
  shows "tips_typed v \<and> forgotten q v"
proof -
  have ty: "tips_typed w" by (rule typed.holds [OF assms(1)])
  obtain tip u where b: "begin_tip E k w = Inr (tip, u)"
    and r0: "(case tip of None \<Rightarrow> Inr u
      | Some t \<Rightarrow> if hasClass ''fade'' (ts_page u) t then Inr (tip_await t (ShowComplete k) u) else shown_complete E k u) = Inr v"
    using run by (auto simp: tip_show_def show_then_def bindE_Inr_conv)
  have r: "case tip of None \<Rightarrow> v = u | Some t \<Rightarrow> v = tip_await t (ShowComplete k) u \<or> shown_complete E k u = Inr v"
    using r0 by (cases tip) (auto split: if_splits)
  have tyu: "tips_typed u" by (rule typed_steps [OF begin_steps(1) [where A = "\<lambda>_. True", OF b] ty])
  obtain t where t: "tip = Some t" using r new pop_view_begin [OF b l] by (cases tip) (auto simp: pop_view_def)
  have f: "forgotten q u" by (rule begin_forgets [OF b [unfolded t] l ids.holds [OF assms(1)] q])
  have "forgotten q v" using r t
  proof (auto)
    show "forgotten q (tip_await t (ShowComplete k) u)" using f by (simp add: forgotten_def tip_await_def)
    assume "shown_complete E k u = Inr v"
    then show "forgotten q v" using forgotten.kept_by_steps [OF shown_steps [where A = "\<lambda>_. True", OF tyu] TrueI f] by blast
  qed
  then show ?thesis using typed_steps [OF show_steps [where A = "\<lambda>_. True", OF ty run] ty] by blast
qed

text \<open>C40. When a tooltip or popover is shown again while its popper is still there, for instance when the pointer
  comes back before the tip has faded out or when \<^verbatim>\<open>show\<close> is called twice, the instance forgets its popper for
  the new one, and no later hiding, disposing or event ever destroys the old popper, which goes on listening to
  the page.\<close>

theorem reshown_tip_leaks_popper:
  assumes "tips_reach (\<lambda>_. True) (\<lambda>_. True) w" "live_tip k w = Some (i, e, opts)" "tt_popper i = Some q" "q \<in> set (ts_poppers w)"
    and "tip_show E k w = Inr v" "ts_next_popper w < ts_next_popper v" "tips_later (\<lambda>_. True) (\<lambda>_. True) v u"
  shows "q \<in> set (ts_poppers u)"
  using forgotten.kept [OF assms(7) show_forgets [OF assms(1-6)]] by (simp add: forgotten_def)

theorem reshown_tip_leaks_popper_witness:
  "\<exists>a b c q. demo_made demo_html = Inr a \<and> demo_call ''show'' a = Inr b \<and> demo_call ''show'' b = Inr c \<and> ts_poppers b = [q]
     \<and> (\<forall>u. tips_later (\<lambda>_. True) (\<lambda>_. True) c u \<longrightarrow> q \<in> set (ts_poppers u))"
proof -
  obtain a where a: "demo_made demo_html = Inr a" "demo_ready a" "ts_poppers a = []" "ts_next_popper a = 0"
      "\<forall>x. attribute_of (ts_page a) x ''id'' = None" using demo_first by blast
  obtain b q where b: "demo_call ''show'' a = Inr b" "demo_ready b" "ts_next_popper b = 1" "ts_poppers b = [q]"
      "map_option tt_popper (ts_heap b 0) = Some (Some q)"
      "\<forall>x s. attribute_of (ts_page b) x ''id'' = Some s \<longrightarrow> s = ''tooltip'' @ show_nat 0"
    using demo_show [OF a(2)] a(3-5) by auto
  have "show_nat 0 \<noteq> show_nat 1" by code_simp
  then have ids: "\<forall>x. attribute_of (ts_page b) x ''id'' \<noteq> Some (''tooltip'' @ show_nat (ts_next_popper b))" using b(3,6) by fastforce
  obtain c where c: "demo_call ''show'' b = Inr c" "ts_next_popper c = 2" using demo_show [OF b(2) ids] b(3) by auto
  obtain i where i: "live_tip 0 b = Some (i, 1, demo_opts)" "tt_popper i = Some q"
    using b(2,5) by (auto simp: demo_ready_def live_fields)
  have "ts_data b TooltipClass 1 = Some 0" using b(2) by (simp add: demo_ready_def)
  then have run: "tip_show demo_tip_env 0 b = Inr c"
    using c(1) i(1) by (simp add: demo_call_def tip_jQueryInterface_def tip_method_def with_live_def Let_def case_prod_beta)
  have "tips_reach (\<lambda>_. True) (\<lambda>_. True) b"
    by (rule reach_later [OF demo_made_reach [OF a(1)] demo_call_later [OF b(1)]]) simp_all
  then have "q \<in> set (ts_poppers u)" if "tips_later (\<lambda>_. True) (\<lambda>_. True) c u" for u
    by (rule reshown_tip_leaks_popper [OF _ i(1,2) _ run _ that]) (simp_all add: b(3,4) c(2))
  then show ?thesis using a(1) b(1,4) c(1) by blast
qed

end
