(* ===== verification/Torrent_Db.thy ===== *)
theory Torrent_Db
  imports Torrent
begin

text \<open>
  All torrents of the tracker: \<^verbatim>\<open>hefur/torrent-db.cc\<close> and \<^verbatim>\<open>torrent-db.hh\<close>, with the scrape request
  and response, and the white list that fills it from a directory (\<^verbatim>\<open>fs-tree-white-list.cc\<close>). A
  \<^verbatim>\<open>Torrent::Ptr\<close> is an address of the heap of torrents; the index of torrents is a trie of mimosa, whose laws
  the locale \<open>tracker_laws\<close> adds to those a single torrent needs. Locks are left out: each operation holds the lock
  of the database throughout.
\<close>

section \<open>State\<close>

record ('d, 'i, 'j) tracker_lib =
  tl_mimosa :: "('d, 'i) mimosa"
  tl_db :: "(bytes, nat, 'j) trie_ops"

record ('d, 'i, 'j) torrent_db =
  td_torrents :: 'j
  td_heap :: "nat \<Rightarrow> ('d, 'i) torrent option"
  td_fresh :: nat

definition TorrentDb_new :: "('d, 'i, 'j) tracker_lib \<Rightarrow> ('d, 'i, 'j) torrent_db" where
  "TorrentDb_new L = \<lparr>td_torrents = tr_empty (tl_db L), td_heap = (\<lambda>_. None), td_fresh = 0\<rparr>"

definition torrentKey :: "('d, 'i) torrent \<Rightarrow> bytes" where
  "torrentKey t = take 20 (Torrent_key t)"

record scrape_item =
  si_info_hash :: info_hash
  si_nleechers :: "32 word"
  si_nseeders :: "32 word"
  si_ndownloaded :: "32 word"

record scrape_response =
  sr_error :: bool
  sr_error_msg :: string
  sr_interval :: "32 word"
  sr_items :: "scrape_item list"

section \<open>Operations\<close>

text \<open>The counters of an error response are not initialised.\<close>

definition error_response :: "string \<Rightarrow> announce_response" where
  "error_response msg = \<lparr>rp_error = True, rp_error_msg = msg, rp_nleechers = None, rp_nseeders = None, rp_ncompleted = None,
     rp_interval = None, rp_addrs = []\<rparr>"

definition db_announce ::
  "('d, 'i, 'j) tracker_lib \<Rightarrow> options \<Rightarrow> int \<Rightarrow> announce_request \<Rightarrow> ('d, 'i, 'j) torrent_db
   \<Rightarrow> (('d, 'i, 'j) torrent_db \<times> announce_response) option" where
  "db_announce L opt now rq db =
     (case tr_find (tl_db L) (td_torrents db) (hash_bytes (rq_info_hash rq)) of
        None \<Rightarrow> Some (db, error_response ''torrent not found'')
      | Some k \<Rightarrow> do {
          t \<leftarrow> td_heap db k;
          (t', rp) \<leftarrow> announce (tl_mimosa L) opt now rq t;
          Some (db\<lparr>td_heap := (td_heap db)(k \<mapsto> t')\<rparr>, rp\<lparr>rp_interval := Some (ANNOUNCE_INTERVAL opt * 60)\<rparr>)
        })"

definition scrape_item_of :: "info_hash \<Rightarrow> ('d, 'i) torrent \<Rightarrow> scrape_item" where
  "scrape_item_of h t = \<lparr>si_info_hash = h, si_nleechers = t_leechers t, si_nseeders = t_seeders t, si_ndownloaded = t_completed t\<rparr>"

fun scrape_items :: "('d, 'i, 'j) tracker_lib \<Rightarrow> ('d, 'i, 'j) torrent_db \<Rightarrow> info_hash list \<Rightarrow> scrape_item list option" where
  "scrape_items L db [] = Some []"
| "scrape_items L db (h # hs) =
     (case tr_find (tl_db L) (td_torrents db) (hash_bytes h) of
        None \<Rightarrow> scrape_items L db hs
      | Some k \<Rightarrow> do { t \<leftarrow> td_heap db k; items \<leftarrow> scrape_items L db hs; Some (scrape_item_of h t # items) })"

definition db_scrape ::
  "('d, 'i, 'j) tracker_lib \<Rightarrow> options \<Rightarrow> info_hash list \<Rightarrow> ('d, 'i, 'j) torrent_db \<Rightarrow> scrape_response option" where
  "db_scrape L opt hs db =
     do { items \<leftarrow> scrape_items L db hs;
          Some \<lparr>sr_error = False, sr_error_msg = [], sr_interval = SCRAPE_INTERVAL opt * 60, sr_items = items\<rparr> }"

fun cleanup_each :: "('d, 'i) mimosa \<Rightarrow> int \<Rightarrow> nat list \<Rightarrow> ('d, 'i, 'j) torrent_db \<Rightarrow> ('d, 'i, 'j) torrent_db option" where
  "cleanup_each M now [] db = Some db"
| "cleanup_each M now (k # ks) db =
     do { t \<leftarrow> td_heap db k; t' \<leftarrow> cleanup M now t; cleanup_each M now ks (db\<lparr>td_heap := (td_heap db)(k \<mapsto> t')\<rparr>) }"

definition db_cleanup :: "('d, 'i, 'j) tracker_lib \<Rightarrow> int \<Rightarrow> ('d, 'i, 'j) torrent_db \<Rightarrow> ('d, 'i, 'j) torrent_db option" where
  "db_cleanup L now db = cleanup_each (tl_mimosa L) now (tr_values (tl_db L) (td_torrents db)) db"

text \<open>A torrent whose key is taken already is dropped by the trie.\<close>

definition addTorrent ::
  "('d, 'i, 'j) tracker_lib \<Rightarrow> ('d, 'i) torrent option \<Rightarrow> ('d, 'i, 'j) torrent_db \<Rightarrow> ('d, 'i, 'j) torrent_db" where
  "addTorrent L torrent db =
     (case torrent of
        None \<Rightarrow> db
      | Some t \<Rightarrow>
         db\<lparr>td_torrents := tr_insert (tl_db L) (torrentKey t) (td_fresh db) (td_torrents db),
            td_heap := (td_heap db)(td_fresh db \<mapsto> t), td_fresh := Suc (td_fresh db)\<rparr>)"

definition removeTorrent :: "('d, 'i, 'j) tracker_lib \<Rightarrow> bytes \<Rightarrow> ('d, 'i, 'j) torrent_db \<Rightarrow> ('d, 'i, 'j) torrent_db" where
  "removeTorrent L h db = db\<lparr>td_torrents := tr_erase (tl_db L) h (td_torrents db)\<rparr>"

section \<open>The white list\<close>

text \<open>A file that the scan of the directory visits: its path, whether it matches the pattern for torrents, and what
  the parser of mimosa makes of it.\<close>

record torrent_desc =
  ds_hash_v1 :: bytes
  ds_hash_v2 :: bytes
  ds_name :: string
  ds_length :: "64 word"

record scan_file =
  sf_path :: string
  sf_matches :: bool
  sf_parsed :: "torrent_desc option"

definition add_parsed ::
  "('d, 'i, 'j) tracker_lib \<Rightarrow> string \<Rightarrow> torrent_desc \<Rightarrow> ('d, 'i, 'j) torrent_db \<Rightarrow> ('d, 'i, 'j) torrent_db" where
  "add_parsed L path d db =
     addTorrent L (Some (Torrent_new (tl_mimosa L) (InfoHash_new SHA256 (ds_hash_v2 d)) (ds_name d) path (ds_length d)))
       (addTorrent L (Some (Torrent_new (tl_mimosa L) (InfoHash_new SHA1 (ds_hash_v1 d)) (ds_name d) path (ds_length d))) db)"

fun scan_files ::
  "('d, 'i, 'j) tracker_lib \<Rightarrow> 32 word \<Rightarrow> 32 word \<Rightarrow> scan_file list \<Rightarrow> ('d, 'i, 'j) torrent_db \<Rightarrow> ('d, 'i, 'j) torrent_db" where
  "scan_files L max_inodes n [] db = db"
| "scan_files L max_inodes n (f # fs) db =
     (if n + 1 > max_inodes then db
      else if \<not> sf_matches f then scan_files L max_inodes (n + 1) fs db
      else (case sf_parsed f of
              None \<Rightarrow> scan_files L max_inodes (n + 1) fs db
            | Some d \<Rightarrow> scan_files L max_inodes (n + 1) fs (add_parsed L (sf_path f) d db)))"

definition scan :: "('d, 'i, 'j) tracker_lib \<Rightarrow> 32 word \<Rightarrow> scan_file list \<Rightarrow> ('d, 'i, 'j) torrent_db \<Rightarrow> ('d, 'i, 'j) torrent_db" where
  "scan L max_inodes files db = scan_files L max_inodes 0 files db"

text \<open>\<open>gone\<close> tells for which paths \<^verbatim>\<open>stat\<close> fails with \<^verbatim>\<open>ENOENT\<close>.\<close>

definition checkTorrent :: "string \<Rightarrow> (string \<Rightarrow> bool) \<Rightarrow> ('d, 'i) torrent \<Rightarrow> bytes list" where
  "checkTorrent dir gone t =
     (if take (length dir) (t_path t) \<noteq> dir then []
      else if gone (t_path t) then [Torrent_key t] else [])"

fun vanished_keys :: "string \<Rightarrow> (string \<Rightarrow> bool) \<Rightarrow> nat list \<Rightarrow> ('d, 'i, 'j) torrent_db \<Rightarrow> bytes list option" where
  "vanished_keys dir gone [] db = Some []"
| "vanished_keys dir gone (k # ks) db =
     do { t \<leftarrow> td_heap db k; keys \<leftarrow> vanished_keys dir gone ks db; Some (checkTorrent dir gone t @ keys) }"

definition check ::
  "('d, 'i, 'j) tracker_lib \<Rightarrow> string \<Rightarrow> (string \<Rightarrow> bool) \<Rightarrow> ('d, 'i, 'j) torrent_db \<Rightarrow> ('d, 'i, 'j) torrent_db option" where
  "check L dir gone db =
     do { keys \<leftarrow> vanished_keys dir gone (tr_values (tl_db L) (td_torrents db)) db;
          Some (fold (removeTorrent L) keys db) }"

section \<open>Reachable databases\<close>

text \<open>A torrent of the database: found under the first twenty bytes of its hash, and itself consistent.\<close>

definition torrent_at :: "('d, 'i, 'j) tracker_lib \<Rightarrow> ('d, 'i, 'j) torrent_db \<Rightarrow> bytes \<Rightarrow> ('d, 'i) torrent option" where
  "torrent_at L db h = Option.bind (tr_find (tl_db L) (td_torrents db) h) (td_heap db)"

definition hash_ok :: "info_hash \<Rightarrow> bool" where
  "hash_ok h \<longleftrightarrow> ih_type h \<in> {SHA1, SHA256} \<and> length (ih_bytes h) = 32"

definition db_inv :: "('d, 'i, 'j) tracker_lib \<Rightarrow> options \<Rightarrow> int \<Rightarrow> ('d, 'i, 'j) torrent_db \<Rightarrow> bool" where
  "db_inv L opt now db \<longleftrightarrow>
     (\<forall>h k. tr_find (tl_db L) (td_torrents db) h = Some k \<longrightarrow> k < td_fresh db
        \<and> (\<exists>t. td_heap db k = Some t \<and> h = torrentKey t \<and> hash_ok (t_info_hash t) \<and> torrent_inv (tl_mimosa L) opt now t))"

inductive db_step ::
  "('d, 'i, 'j) tracker_lib \<Rightarrow> options \<Rightarrow> int \<times> ('d, 'i, 'j) torrent_db \<Rightarrow> int \<times> ('d, 'i, 'j) torrent_db \<Rightarrow> bool"
  for L opt where
  announced: "now \<le> now' \<Longrightarrow> db_announce L opt now' rq db = Some (db', rp) \<Longrightarrow> db_step L opt (now, db) (now', db')"
| cleaned: "now \<le> now' \<Longrightarrow> db_cleanup L now' db = Some db' \<Longrightarrow> db_step L opt (now, db) (now', db')"
| scanned: "now \<le> now' \<Longrightarrow> (\<forall>f d. f \<in> set files \<longrightarrow> sf_parsed f = Some d \<longrightarrow> length (ds_hash_v1 d) = 20 \<and> length (ds_hash_v2 d) = 32) \<Longrightarrow>
    db_step L opt (now, db) (now', scan L max_inodes files db)"
| checked: "now \<le> now' \<Longrightarrow> check L dir gone db = Some db' \<Longrightarrow> db_step L opt (now, db) (now', db')"
| removed: "now \<le> now' \<Longrightarrow> db_step L opt (now, db) (now', removeTorrent L h db)"

inductive db_reach :: "('d, 'i, 'j) tracker_lib \<Rightarrow> options \<Rightarrow> int \<times> ('d, 'i, 'j) torrent_db \<Rightarrow> bool" for L opt where
  fresh: "db_reach L opt (now, TorrentDb_new L)"
| later: "db_reach L opt s \<Longrightarrow> db_step L opt s s' \<Longrightarrow> db_reach L opt s'"

section \<open>A torrent keeps its hash and path\<close>

definition same_torrent :: "('d, 'i) torrent \<Rightarrow> ('d, 'i) torrent \<Rightarrow> bool" where
  "same_torrent t t' \<longleftrightarrow> t_info_hash t' = t_info_hash t \<and> t_path t' = t_path t"

lemma same_torrent_refl [simp]: "same_torrent t t" by (simp add: same_torrent_def)

lemma same_torrent_trans: "same_torrent t u \<Longrightarrow> same_torrent u v \<Longrightarrow> same_torrent t v" by (simp add: same_torrent_def)

lemma removePeer_same: "removePeer M p t = Some t' \<Longrightarrow> same_torrent t t'"
  by (auto simp: removePeer_def Let_def same_torrent_def split: option.splits)

lemma updateTimeout_same: "updateTimeout M opt now p b t = Some t' \<Longrightarrow> same_torrent t t'"
  by (auto simp: updateTimeout_def Let_def same_torrent_def split: option.splits)

lemma create_same: "createOrUpdatePeer M opt now rq peer t = Some (p, t') \<Longrightarrow> same_torrent t t'"
  by (auto simp: createOrUpdatePeer_def Let_def same_torrent_def bind_eq_Some_conv dest!: updateTimeout_same
      split: option.splits if_splits prod.splits)

lemma announce_same:
  assumes "announce M opt now rq t = Some (t', rp)"
  shows "same_torrent t t'"
  using assms
  by (auto simp: announce_def Let_def bind_eq_Some_conv same_torrent_def split: if_splits option.splits prod.splits
      dest!: removePeer_same create_same)

lemma cleanup_same:
  assumes "cleanup M now t = Some t'"
  shows "same_torrent t t'"
  using _ assms
proof (rule cleanup.raw_induct [where P = "\<lambda>M now t t'. same_torrent t t'"], goal_cases)
  case (1 rec M now t t')
  then show ?case
    by (auto split: if_splits simp: bind_eq_Some_conv dest!: removePeer_same intro: same_torrent_trans)
qed

section \<open>Every operation keeps the database consistent\<close>

lemma torrent_at_Some:
  "torrent_at L db h = Some t \<longleftrightarrow> (\<exists>k. tr_find (tl_db L) (td_torrents db) h = Some k \<and> td_heap db k = Some t)"
  by (auto simp: torrent_at_def bind_eq_Some_conv)

lemma db_invD:
  assumes "db_inv L opt now db" "tr_find (tl_db L) (td_torrents db) h = Some k"
  obtains t where "k < td_fresh db" "td_heap db k = Some t" "h = torrentKey t" "hash_ok (t_info_hash t)" "torrent_inv (tl_mimosa L) opt now t"
  using assms unfolding db_inv_def by blast

lemma db_inv_at:
  assumes "db_inv L opt now db" "tr_find (tl_db L) (td_torrents db) h = Some k" "td_heap db k = Some t"
  shows "h = torrentKey t" "hash_ok (t_info_hash t)" "torrent_inv (tl_mimosa L) opt now t" "k < td_fresh db"
  using db_invD [OF assms(1,2)] assms(3) by auto

lemma torrentKey_length: "hash_ok (t_info_hash t) \<Longrightarrow> length (torrentKey t) = 20"
  by (auto simp: hash_ok_def torrentKey_def Torrent_key_def hash_bytes_def hashSize_def)

lemma same_key: "same_torrent t t' \<Longrightarrow> torrentKey t' = torrentKey t"
  by (simp add: same_torrent_def torrentKey_def Torrent_key_def)

locale tracker_laws = mimosa_laws "tl_mimosa L" + db: trie_laws "tl_db L" for L :: "('d, 'i, 'j) tracker_lib"
begin

lemma inv_later:
  assumes "torrent_inv (tl_mimosa L) opt now t" "now \<le> now'"
  shows "torrent_inv (tl_mimosa L) opt now' t"
  using assms by (force simp: torrent_inv_def torrent_timed_def deadline_def)

lemma db_inv_later: "db_inv L opt now db \<Longrightarrow> now \<le> now' \<Longrightarrow> db_inv L opt now' db"
  unfolding db_inv_def using inv_later by blast

text \<open>One torrent of the database is replaced by a later state of it.\<close>

lemma db_inv_update:
  assumes inv: "db_inv L opt now db" and k: "tr_find (tl_db L) (td_torrents db) h = Some k" "td_heap db k = Some t"
    and t': "same_torrent t t'" "torrent_inv (tl_mimosa L) opt now t'"
  shows "db_inv L opt now (db\<lparr>td_heap := (td_heap db)(k \<mapsto> t')\<rparr>)"
proof -
  have "h' = torrentKey t' \<and> hash_ok (t_info_hash t') \<and> k < td_fresh db" if "tr_find (tl_db L) (td_torrents db) h' = Some k" for h'
    using db_inv_at [OF inv that k(2)] same_key [OF t'(1)] t'(1) by (simp add: same_torrent_def)
  then show ?thesis using inv t'(2) unfolding db_inv_def by auto
qed

lemma db_announce_inv:
  assumes inv: "db_inv L opt now0 db" and "now0 \<le> now" "peers_limit_ok opt"
  shows "\<exists>db' rp. db_announce L opt now rq db = Some (db', rp) \<and> db_inv L opt now db'"
proof (cases "tr_find (tl_db L) (td_torrents db) (hash_bytes (rq_info_hash rq))")
  case None
  then show ?thesis using db_inv_later [OF assms(1,2)] by (simp add: db_announce_def)
next
  case (Some k)
  obtain t where t: "td_heap db k = Some t" "torrent_inv (tl_mimosa L) opt now0 t" using db_invD [OF inv Some] by blast
  obtain t' rp where r: "announce (tl_mimosa L) opt now rq t = Some (t', rp)" "torrent_inv (tl_mimosa L) opt now t'"
    using announce_inv [OF t(2) assms(2,3)] by blast
  then show ?thesis
    using db_inv_update [OF db_inv_later [OF assms(1,2)] Some t(1) announce_same [OF r(1)] r(2)] Some t(1) by (simp add: db_announce_def)
qed

lemma scrape_items_defined: "db_inv L opt now db \<Longrightarrow> \<exists>items. scrape_items L db hs = Some items"
proof (induction hs)
  case (Cons h hs)
  then show ?case by (cases "tr_find (tl_db L) (td_torrents db) (hash_bytes h)") (auto elim: db_invD)
qed simp

lemma cleanup_each_inv:
  assumes "db_inv L opt now db" "set ks \<subseteq> set (tr_values (tl_db L) (td_torrents db))"
  shows "\<exists>db'. cleanup_each (tl_mimosa L) now ks db = Some db' \<and> db_inv L opt now db'"
  using assms
proof (induction ks arbitrary: db)
  case (Cons k ks)
  then obtain h where h: "tr_find (tl_db L) (td_torrents db) h = Some k" using db.set_values by auto
  obtain t where t: "td_heap db k = Some t" "torrent_inv (tl_mimosa L) opt now t" using db_invD [OF Cons.prems(1) h] by blast
  obtain t' where t': "cleanup (tl_mimosa L) now t = Some t'" "torrent_inv (tl_mimosa L) opt now t'" using cleanup_inv [OF t(2)] by blast
  have "db_inv L opt now (db\<lparr>td_heap := (td_heap db)(k \<mapsto> t')\<rparr>)"
    by (rule db_inv_update [OF Cons.prems(1) h t(1) cleanup_same [OF t'(1)] t'(2)])
  then show ?case using Cons.IH Cons.prems(2) t(1) t'(1) by simp
qed simp

lemma db_cleanup_inv:
  assumes "db_inv L opt now0 db" "now0 \<le> now"
  shows "\<exists>db'. db_cleanup L now db = Some db' \<and> db_inv L opt now db'"
  unfolding db_cleanup_def by (rule cleanup_each_inv [OF db_inv_later [OF assms] subset_refl])

lemma addTorrent_inv:
  assumes inv: "db_inv L opt now db" and h: "hash_ok h"
  shows "db_inv L opt now (addTorrent L (Some (Torrent_new (tl_mimosa L) h name path len)) db)" (is "db_inv L opt now ?db")
  unfolding db_inv_def
proof (intro allI impI)
  let ?t = "Torrent_new (tl_mimosa L) h name path len"
  fix h' k assume k: "tr_find (tl_db L) (td_torrents ?db) h' = Some k"
  have "tr_find (tl_db L) (td_torrents db) h' = Some k \<or> h' = torrentKey ?t \<and> k = td_fresh db"
    using k by (auto simp: addTorrent_def db.find_insert split: if_splits option.splits)
  then show "k < td_fresh ?db \<and> (\<exists>t. td_heap ?db k = Some t \<and> h' = torrentKey t \<and> hash_ok (t_info_hash t) \<and> torrent_inv (tl_mimosa L) opt now t)"
  proof
    assume "tr_find (tl_db L) (td_torrents db) h' = Some k"
    then show ?thesis by (rule db_invD [OF inv]) (auto simp: addTorrent_def)
  next
    assume "h' = torrentKey ?t \<and> k = td_fresh db"
    then show ?thesis using h torrent_inv_new by (auto simp: addTorrent_def) (simp add: Torrent_new_def)
  qed
qed

lemma removeTorrent_inv: "db_inv L opt now db \<Longrightarrow> db_inv L opt now (removeTorrent L h db)"
  by (auto simp: db_inv_def removeTorrent_def db.find_erase split: if_splits)

lemma hash_ok_new: "length bs = hashSize ty \<Longrightarrow> ty \<in> {SHA1, SHA256} \<Longrightarrow> hash_ok (InfoHash_new ty bs)"
  by (auto simp: hash_ok_def InfoHash_new_def hashSize_def)

lemma scan_inv:
  assumes "db_inv L opt now db"
    and "\<forall>f d. f \<in> set files \<longrightarrow> sf_parsed f = Some d \<longrightarrow> length (ds_hash_v1 d) = 20 \<and> length (ds_hash_v2 d) = 32"
  shows "db_inv L opt now (scan_files L max_inodes n files db)"
  using assms
proof (induction files arbitrary: n db)
  case (Cons f fs)
  have "db_inv L opt now (add_parsed L (sf_path f) d db)" if "sf_parsed f = Some d" for d
  proof -
    have "hash_ok (InfoHash_new SHA1 (ds_hash_v1 d))" "hash_ok (InfoHash_new SHA256 (ds_hash_v2 d))"
      using Cons.prems(2) that by (auto intro!: hash_ok_new simp: hashSize_def)
    then show ?thesis unfolding add_parsed_def by (intro addTorrent_inv Cons.prems(1))
  qed
  then show ?case using Cons by (auto split: option.splits)
qed simp

lemma vanished_defined:
  assumes "db_inv L opt now db" "set ks \<subseteq> set (tr_values (tl_db L) (td_torrents db))"
  shows "\<exists>keys. vanished_keys dir gone ks db = Some keys
    \<and> set keys = (\<Union>k \<in> set ks. case td_heap db k of None \<Rightarrow> {} | Some t \<Rightarrow> set (checkTorrent dir gone t))"
  using assms(2)
proof (induction ks)
  case (Cons k ks)
  obtain h where h: "tr_find (tl_db L) (td_torrents db) h = Some k" using Cons.prems db.set_values by auto
  obtain t where "td_heap db k = Some t" using db_invD [OF assms(1) h] by blast
  then show ?case using Cons by auto
qed simp

lemma find_erased:
  "tr_find (tl_db L) (td_torrents (fold (removeTorrent L) keys db)) h = (if h \<in> set keys then None else tr_find (tl_db L) (td_torrents db) h)"
  by (induction keys arbitrary: db) (auto simp: removeTorrent_def db.find_erase)

lemma heap_erased: "td_heap (fold (removeTorrent L) keys db) = td_heap db" "td_fresh (fold (removeTorrent L) keys db) = td_fresh db"
  by (induction keys arbitrary: db) (simp_all add: removeTorrent_def)

lemma erased_inv: "db_inv L opt now db \<Longrightarrow> db_inv L opt now (fold (removeTorrent L) keys db)"
  by (induction keys arbitrary: db) (simp_all add: removeTorrent_inv)

lemma check_inv:
  assumes "db_inv L opt now0 db" "now0 \<le> now"
  shows "\<exists>db'. check L dir gone db = Some db' \<and> db_inv L opt now db'"
  using vanished_defined [OF assms(1) subset_refl, of dir gone] erased_inv [OF db_inv_later [OF assms]] by (auto simp: check_def)

lemma db_step_inv:
  assumes "db_step L opt s s'" "db_inv L opt (fst s) (snd s)" "peers_limit_ok opt"
  shows "db_inv L opt (fst s') (snd s')"
  using assms
proof (cases rule: db_step.cases)
  case (announced now now' rq db db' rp)
  then show ?thesis using db_announce_inv [of opt now db now' rq] assms(2,3) by auto
next
  case (cleaned now now' db db')
  then show ?thesis using db_cleanup_inv [of opt now db now'] assms(2) by auto
next
  case (scanned now now' files max_inodes db)
  then show ?thesis using scan_inv [OF db_inv_later] assms(2) by (simp add: scan_def)
next
  case (checked now now' dir gone db db')
  then show ?thesis using check_inv [of opt now db now' dir gone] assms(2) by auto
next
  case (removed now now' h db)
  then show ?thesis using removeTorrent_inv [OF db_inv_later] assms(2) by simp
qed

lemma db_reach_inv: "db_reach L opt s \<Longrightarrow> peers_limit_ok opt \<Longrightarrow> db_inv L opt (fst s) (snd s)"
proof (induction rule: db_reach.induct)
  case (fresh now)
  then show ?case by (simp add: db_inv_def TorrentDb_new_def db.find_empty)
next
  case (later s s')
  then show ?case using db_step_inv by blast
qed

end

section \<open>The database at work\<close>

definition ref_lib :: "(nat list, (bytes \<times> nat) list, (bytes \<times> nat) list) tracker_lib" where
  "ref_lib = \<lparr>tl_mimosa = ref_mimosa, tl_db = ref_trie\<rparr>"

interpretation ref_lib: tracker_laws ref_lib
  by (intro tracker_laws.intro) (simp_all add: ref_lib_def ref.mimosa_laws_axioms ref_trie.trie_laws_axioms)

definition demo_file :: scan_file where
  "demo_file = \<lparr>sf_path = ''/srv/demo.torrent'', sf_matches = True,
     sf_parsed = Some \<lparr>ds_hash_v1 = replicate 20 7, ds_hash_v2 = replicate 32 9, ds_name = ''demo'', ds_length = 4096\<rparr>\<rparr>"

definition demo_db :: "(nat list, (bytes \<times> nat) list, (bytes \<times> nat) list) torrent_db" where
  "demo_db = scan ref_lib 1000 [demo_file] (TorrentDb_new ref_lib)"

lemma demo_db_reach: "db_reach ref_lib opt (5, demo_db)"
  unfolding demo_db_def
  by (rule db_reach.later [OF db_reach.fresh [where now = 5]], rule db_step.scanned) (simp_all add: demo_file_def)

lemma demo_db_torrents:
  "torrent_at ref_lib demo_db (replicate 20 7) =
     Some (Torrent_new ref_mimosa (InfoHash_new SHA1 (replicate 20 7)) ''demo'' ''/srv/demo.torrent'' 4096)"
  "torrent_at ref_lib demo_db (replicate 20 9) =
     Some (Torrent_new ref_mimosa (InfoHash_new SHA256 (replicate 32 9)) ''demo'' ''/srv/demo.torrent'' 4096)"
proof -
  have k: "torrentKey (Torrent_new M (InfoHash_new SHA1 (replicate 20 7)) n p l) = replicate 20 7"
    "torrentKey (Torrent_new M (InfoHash_new SHA256 (replicate 32 9)) n p l) = replicate 20 9" for M n p l
    by (simp_all add: torrentKey_def Torrent_key_def Torrent_new_def hash_bytes_def InfoHash_new_def hashSize_def)
  have ne: "replicate 20 (7 :: byte) \<noteq> replicate 20 9" by (simp add: replicate_eq_replicate)
  show "torrent_at ref_lib demo_db (replicate 20 7) =
      Some (Torrent_new ref_mimosa (InfoHash_new SHA1 (replicate 20 7)) ''demo'' ''/srv/demo.torrent'' 4096)"
    "torrent_at ref_lib demo_db (replicate 20 9) =
      Some (Torrent_new ref_mimosa (InfoHash_new SHA256 (replicate 32 9)) ''demo'' ''/srv/demo.torrent'' 4096)"
    using ne
    by (simp_all add: torrent_at_def demo_db_def scan_def demo_file_def add_parsed_def addTorrent_def k ref_lib_def TorrentDb_new_def
        ref_trie_def alist_insert_def)
qed

section \<open>In all reachable databases\<close>

text \<open>C6. In every state the database reaches by announces, cleanups, scans of the directory and removals, each
  torrent is found under the first twenty bytes of its hash and is itself consistent; every further announce, scrape,
  cleanup and check of the directory runs to its end without following a dangling pointer.\<close>

theorem tracker_reachable_consistent:
  assumes "tracker_laws L" and "peers_limit_ok opt" and "db_reach L opt (now, db)" and "now \<le> now'"
  shows "(\<forall>h t. torrent_at L db h = Some t \<longrightarrow>
        h = take 20 (hash_bytes (t_info_hash t)) \<and> length h = 20 \<and> torrent_inv (tl_mimosa L) opt now t)
    \<and> (\<forall>rq. \<exists>db' rp. db_announce L opt now' rq db = Some (db', rp)) \<and> (\<forall>hs. \<exists>rp. db_scrape L opt hs db = Some rp)
    \<and> (\<exists>db'. db_cleanup L now' db = Some db') \<and> (\<forall>dir gone. \<exists>db'. check L dir gone db = Some db')"
proof (intro conjI allI impI)
  note laws = assms(1)
  have inv: "db_inv L opt now db" using tracker_laws.db_reach_inv [OF assms(1,3,2)] by simp
  show "\<exists>db' rp. db_announce L opt now' rq db = Some (db', rp)" for rq
    using tracker_laws.db_announce_inv [OF laws inv assms(4,2)] by blast
  show "\<exists>rp. db_scrape L opt hs db = Some rp" for hs
    using tracker_laws.scrape_items_defined [OF laws inv, of hs] by (auto simp: db_scrape_def)
  show "\<exists>db'. db_cleanup L now' db = Some db'" using tracker_laws.db_cleanup_inv [OF laws inv assms(4)] by blast
  show "\<exists>db'. check L dir gone db = Some db'" for dir gone using tracker_laws.check_inv [OF laws inv order_refl] by blast
  fix h t assume "torrent_at L db h = Some t"
  then obtain k where k: "tr_find (tl_db L) (td_torrents db) h = Some k" "td_heap db k = Some t" by (auto simp: torrent_at_Some)
  show "h = take 20 (hash_bytes (t_info_hash t))" "length h = 20" "torrent_inv (tl_mimosa L) opt now t"
    using db_inv_at [OF inv k] torrentKey_length [of t] by (simp_all add: torrentKey_def Torrent_key_def)
qed

theorem tracker_reachable_consistent_witness:
  "torrent_inv ref_mimosa default_options 5 (Torrent_new ref_mimosa (InfoHash_new SHA1 (replicate 20 7)) ''demo'' ''/srv/demo.torrent'' 4096)
    \<and> (\<exists>db' rp. db_announce ref_lib default_options 9 (demo_rq 1 kStarted 100) demo_db = Some (db', rp))"
  using tracker_reachable_consistent [OF ref_lib.tracker_laws_axioms default_limit_ok demo_db_reach, of 9] demo_db_torrents(1)
  by (auto simp: ref_lib_def)

text \<open>An announce changes at most the torrent it names by its hash: the answer is that of the torrent with the
  configured interval in seconds, all other torrents stay as they are; for a hash that is not known the answer is an
  error and the database is left alone.\<close>

lemma db_announce_at:
  assumes "tracker_laws L" and "peers_limit_ok opt" and "db_reach L opt (now, db)" and "now \<le> now'"
  shows "\<exists>db' rp. db_announce L opt now' rq db = Some (db', rp)
    \<and> (case torrent_at L db (hash_bytes (rq_info_hash rq)) of
        None \<Rightarrow> db' = db \<and> rp_error rp \<and> rp_error_msg rp = ''torrent not found''
      | Some t \<Rightarrow> \<exists>t' rp'. announce (tl_mimosa L) opt now' rq t = Some (t', rp')
          \<and> rp = rp'\<lparr>rp_interval := Some (ANNOUNCE_INTERVAL opt * 60)\<rparr>
          \<and> torrent_at L db' = (torrent_at L db)(hash_bytes (rq_info_hash rq) \<mapsto> t'))"
proof -
  let ?h = "hash_bytes (rq_info_hash rq)"
  have inv: "db_inv L opt now db" using tracker_laws.db_reach_inv [OF assms(1,3,2)] by simp
  obtain db' rp where r: "db_announce L opt now' rq db = Some (db', rp)"
    using tracker_laws.db_announce_inv [OF assms(1) inv assms(4,2)] by blast
  show ?thesis
  proof (cases "tr_find (tl_db L) (td_torrents db) ?h")
    case None
    then show ?thesis by (simp add: db_announce_def torrent_at_def error_response_def)
  next
    case (Some k)
    obtain t where t: "td_heap db k = Some t" "?h = torrentKey t" using db_invD [OF inv Some] by blast
    obtain t' rp' where a: "announce (tl_mimosa L) opt now' rq t = Some (t', rp')"
      "db' = db\<lparr>td_heap := (td_heap db)(k \<mapsto> t')\<rparr>" "rp = rp'\<lparr>rp_interval := Some (ANNOUNCE_INTERVAL opt * 60)\<rparr>"
      using r Some t(1) by (auto simp: db_announce_def bind_eq_Some_conv)
    have other: "h = ?h" if "tr_find (tl_db L) (td_torrents db) h = Some k" for h
      using db_inv_at(1) [OF inv that t(1)] t(2) by simp
    have "torrent_at L db' h = ((torrent_at L db)(?h \<mapsto> t')) h" for h
    proof (cases "tr_find (tl_db L) (td_torrents db) h")
      case None
      then show ?thesis using Some by (auto simp: a(2) torrent_at_def)
    next
      case (Some j)
      then show ?thesis using other [of h] \<open>tr_find (tl_db L) (td_torrents db) ?h = Some k\<close> by (auto simp: a(2) torrent_at_def)
    qed
    then have "torrent_at L db' = (torrent_at L db)(?h \<mapsto> t')" by blast
    then show ?thesis using r a Some t(1) by (simp add: torrent_at_def)
  qed
qed

lemma db_announce_at_example:
  "\<exists>db' rp t' rp'. db_announce ref_lib default_options 9 (demo_rq 1 kStarted 100) demo_db = Some (db', rp)
    \<and> announce ref_mimosa default_options 9 (demo_rq 1 kStarted 100)
        (Torrent_new ref_mimosa (InfoHash_new SHA1 (replicate 20 7)) ''demo'' ''/srv/demo.torrent'' 4096) = Some (t', rp')
    \<and> rp = rp'\<lparr>rp_interval := Some 900\<rparr> \<and> torrent_at ref_lib db' = (torrent_at ref_lib demo_db)(replicate 20 7 \<mapsto> t')"
proof -
  have h: "hash_bytes (rq_info_hash (demo_rq 1 kStarted 100)) = replicate 20 7"
    by (simp add: demo_rq_def hash_bytes_def InfoHash_new_def hashSize_def)
  have i: "ANNOUNCE_INTERVAL default_options * 60 = 900" by (simp add: default_options_def)
  show ?thesis
    using db_announce_at [OF ref_lib.tracker_laws_axioms default_limit_ok demo_db_reach, of 9 "demo_rq 1 kStarted 100"]
    unfolding h i demo_db_torrents by (auto simp: ref_lib_def)
qed

text \<open>C7. The check of the directory removes the torrents of version one whose file has vanished and no others: a
  torrent of version two stays, because its key in the index is cut to twenty bytes and the erased key is not.\<close>

theorem check_removes_vanished_v1:
  assumes "tracker_laws L" and "peers_limit_ok opt" and "db_reach L opt (now, db)"
  shows "\<exists>db'. check L dir gone db = Some db' \<and> (\<forall>h. torrent_at L db' h =
    (case torrent_at L db h of
       None \<Rightarrow> None
     | Some t \<Rightarrow> if ih_type (t_info_hash t) = SHA1 \<and> take (length dir) (t_path t) = dir \<and> gone (t_path t) then None else Some t))"
proof -
  have inv: "db_inv L opt now db" using tracker_laws.db_reach_inv [OF assms(1,3,2)] by simp
  obtain keys where keys: "vanished_keys dir gone (tr_values (tl_db L) (td_torrents db)) db = Some keys"
    "set keys = (\<Union>k \<in> set (tr_values (tl_db L) (td_torrents db)). case td_heap db k of None \<Rightarrow> {} | Some t \<Rightarrow> set (checkTorrent dir gone t))"
    using tracker_laws.vanished_defined [OF assms(1) inv subset_refl] by blast
  let ?db = "fold (removeTorrent L) keys db"
  have "torrent_at L ?db h = (case torrent_at L db h of None \<Rightarrow> None
     | Some t \<Rightarrow> if ih_type (t_info_hash t) = SHA1 \<and> take (length dir) (t_path t) = dir \<and> gone (t_path t) then None else Some t)" for h
  proof (cases "tr_find (tl_db L) (td_torrents db) h")
    case None
    then show ?thesis by (simp add: torrent_at_def tracker_laws.find_erased [OF assms(1)])
  next
    case (Some k)
    obtain t where t: "td_heap db k = Some t" "h = torrentKey t" "hash_ok (t_info_hash t)" using db_invD [OF inv Some] by blast
    have "h \<in> set keys \<longleftrightarrow> ih_type (t_info_hash t) = SHA1 \<and> take (length dir) (t_path t) = dir \<and> gone (t_path t)"
    proof
      assume "h \<in> set keys"
      then obtain j u where u: "td_heap db j = Some u" "h \<in> set (checkTorrent dir gone u)" "j \<in> set (tr_values (tl_db L) (td_torrents db))"
        using keys(2) by (auto split: option.splits)
      then obtain g where g: "tr_find (tl_db L) (td_torrents db) g = Some j"
        using trie_laws.set_values tracker_laws.axioms(2) [OF assms(1)] by metis
      have ok: "g = torrentKey u" "hash_ok (t_info_hash u)" using db_inv_at [OF inv g u(1)] by simp_all
      have key: "h = Torrent_key u" "take (length dir) (t_path u) = dir" "gone (t_path u)"
        using u(2) by (auto simp: checkTorrent_def split: if_splits)
      have "length h = 20" using torrentKey_length [OF t(3)] t(2) by simp
      then have ty: "ih_type (t_info_hash u) = SHA1"
        using key(1) ok(2) by (auto simp: hash_ok_def Torrent_key_def hash_bytes_def hashSize_def)
      have "g = h" using key(1) ok(1) \<open>length h = 20\<close> by (simp add: torrentKey_def)
      then have "u = t" using g u(1) Some t(1) by simp
      then show "ih_type (t_info_hash t) = SHA1 \<and> take (length dir) (t_path t) = dir \<and> gone (t_path t)" using ty key by simp
    next
      assume v: "ih_type (t_info_hash t) = SHA1 \<and> take (length dir) (t_path t) = dir \<and> gone (t_path t)"
      then have "Torrent_key t = h"
        using t(2,3) by (simp add: torrentKey_def Torrent_key_def hash_bytes_def hashSize_def)
      moreover have "k \<in> set (tr_values (tl_db L) (td_torrents db))"
        using Some trie_laws.set_values tracker_laws.axioms(2) [OF assms(1)] by metis
      ultimately show "h \<in> set keys" using keys(2) t(1) v by (fastforce simp: checkTorrent_def)
    qed
    then show ?thesis
      using Some t(1) by (simp add: torrent_at_def tracker_laws.find_erased [OF assms(1)] tracker_laws.heap_erased [OF assms(1)])
  qed
  then show ?thesis using keys(1) by (auto simp: check_def)
qed

theorem check_removes_vanished_v1_witness:
  "\<exists>db'. check ref_lib ''/srv'' (\<lambda>_. True) demo_db = Some db' \<and> torrent_at ref_lib db' (replicate 20 7) = None
     \<and> torrent_at ref_lib db' (replicate 20 9) \<noteq> None"
proof -
  obtain db' where db': "check ref_lib ''/srv'' (\<lambda>_. True) demo_db = Some db'"
    "\<And>h. torrent_at ref_lib db' h = (case torrent_at ref_lib demo_db h of None \<Rightarrow> None
       | Some t \<Rightarrow> if ih_type (t_info_hash t) = SHA1 \<and> take (length ''/srv'') (t_path t) = ''/srv'' \<and> True then None else Some t)"
    using check_removes_vanished_v1 [OF ref_lib.tracker_laws_axioms default_limit_ok demo_db_reach, of "''/srv''" "\<lambda>_. True"] by blast
  then show ?thesis by (simp add: demo_db_torrents Torrent_new_def InfoHash_new_def)
qed

end
