(* ===== verification/Udp_Server.thy ===== *)
theory Udp_Server
  imports Torrent_Db
begin

text \<open>
  The UDP tracker: \<^verbatim>\<open>hefur/udp-server.cc\<close> and \<^verbatim>\<open>udp-server.hh\<close>. A datagram is a list of bytes and
  the packed structures are its parts at fixed places; numbers are big-endian, but for the connection id, which is
  read and written as the host stores it. The secrets that \<^verbatim>\<open>gnutls_rnd\<close> draws, what \<^verbatim>\<open>poll\<close> and
  \<^verbatim>\<open>sendto\<close> answer, the datagrams that wait in the socket and the clock are arguments. The database is part of
  the state, because other threads change it between two steps; \<^verbatim>\<open>calloc\<close> is taken to succeed.
\<close>

section \<open>Numbers and fields\<close>

definition be :: "nat \<Rightarrow> 'a::len word \<Rightarrow> bytes" where
  "be n w = map (\<lambda>i. ucast (drop_bit (8 * (n - 1 - i)) w)) [0..<n]"

definition unbe :: "bytes \<Rightarrow> 'a::len word" where
  "unbe bs = foldl (\<lambda>acc b. or (push_bit 8 acc) (ucast b)) 0 bs"

definition host64 :: "bool \<Rightarrow> 64 word \<Rightarrow> bytes" where
  "host64 little w = (if little then rev (be 8 w) else be 8 w)"

definition unhost64 :: "bool \<Rightarrow> bytes \<Rightarrow> 64 word" where
  "unhost64 little bs = unbe (if little then rev bs else bs)"

definition field :: "nat \<Rightarrow> nat \<Rightarrow> bytes \<Rightarrow> bytes" where
  "field pos n p = take n (drop pos p)"

section \<open>State\<close>

record udp_config =
  uc_little :: bool
  uc_second :: int
  uc_millisecond :: int
  uc_junk :: bytes

record ('d, 'i, 'j) udp =
  us_secrets :: "bytes list"
  us_sbufs :: "(sockaddr \<times> bytes) list"
  us_next_timeout :: int
  us_db :: "('d, 'i, 'j) torrent_db option"

definition UdpServer_new :: "('d, 'i, 'j) torrent_db option \<Rightarrow> ('d, 'i, 'j) udp" where
  "UdpServer_new db = \<lparr>us_secrets = replicate 3 (replicate 32 0), us_sbufs = [], us_next_timeout = 0, us_db = db\<rparr>"

definition push :: "sockaddr \<Rightarrow> bytes \<Rightarrow> ('d, 'i, 'j) udp \<Rightarrow> ('d, 'i, 'j) udp" where
  "push addr data s = s\<lparr>us_sbufs := us_sbufs s @ [(addr, data)]\<rparr>"

section \<open>Secrets and connection ids\<close>

definition genSecret :: "udp_config \<Rightarrow> int \<Rightarrow> bytes \<Rightarrow> ('d, 'i, 'j) udp \<Rightarrow> ('d, 'i, 'j) udp" where
  "genSecret U now new s = s\<lparr>us_secrets := new # take 2 (us_secrets s), us_next_timeout := now + uc_second U\<rparr>"

definition connection_sum :: "nat \<Rightarrow> bytes \<Rightarrow> bytes \<Rightarrow> 64 word" where
  "connection_sum n secret ip =
     sum_list (map (\<lambda>j. xor (ucast (ip ! j) * ucast (secret ! j)) (ucast (secret ! Suc j))) [0..<n])"

definition connectionId :: "bytes \<Rightarrow> sockaddr \<Rightarrow> 64 word" where
  "connectionId secret addr =
     (case addr of
        Sockaddr_in p ip \<Rightarrow> connection_sum 4 secret ip
      | Sockaddr_in6 p ip \<Rightarrow> connection_sum 16 secret ip
      | Sockaddr_other \<Rightarrow> 42)"

definition checkConnectionId :: "64 word \<Rightarrow> sockaddr \<Rightarrow> ('d, 'i, 'j) udp \<Rightarrow> bool" where
  "checkConnectionId c addr s =
     (c = connectionId (us_secrets s ! 0) addr \<or> c = connectionId (us_secrets s ! 1) addr \<or> c = connectionId (us_secrets s ! 2) addr)"

definition connection_id_of :: "udp_config \<Rightarrow> bytes \<Rightarrow> 64 word" where
  "connection_id_of U p = unhost64 (uc_little U) (field 0 8 p)"

section \<open>Handlers\<close>

definition handleConnect :: "udp_config \<Rightarrow> sockaddr \<Rightarrow> bytes \<Rightarrow> ('d, 'i, 'j) udp \<Rightarrow> ('d, 'i, 'j) udp" where
  "handleConnect U addr p s =
     (if length p < 16 then s
      else push addr (be 4 (0 :: 32 word) @ field 12 4 p @ host64 (uc_little U) (connectionId (us_secrets s ! 0) addr)) s)"

definition failure_packet :: "bytes \<Rightarrow> string \<Rightarrow> bytes" where
  "failure_packet transaction msg = be 4 (3 :: 32 word) @ transaction @ map (\<lambda>c. word_of_nat (of_char c)) msg"

definition sendFailure :: "bytes \<Rightarrow> sockaddr \<Rightarrow> string \<Rightarrow> ('d, 'i, 'j) udp \<Rightarrow> ('d, 'i, 'j) udp" where
  "sendFailure p addr msg s = push addr (failure_packet (field 12 4 p) msg) s"

definition convert :: "32 word \<Rightarrow> event" where
  "convert e = (if e = 1 then kCompleted else if e = 2 then kStarted else if e = 3 then kStopped else kNone)"

text \<open>The request copies the bytes of the hash and leaves its type as the constructor set it.\<close>

definition announce_request_of :: "options \<Rightarrow> udp_config \<Rightarrow> sockaddr \<Rightarrow> bytes \<Rightarrow> announce_request" where
  "announce_request_of opt U addr p =
     (let none = Address_new (uc_junk U);
          peer = (if ALLOW_PROXY opt then none\<lparr>a_family := AF_INET, a_store := field 84 4 p @ drop 4 (uc_junk U)\<rparr>
                  else assign (Some addr) none)
      in \<lparr>rq_peerid = field 36 20 p,
          rq_info_hash = InfoHash_default\<lparr>ih_bytes := field 16 20 p @ drop 20 (ih_bytes InfoHash_default)\<rparr>,
          rq_num_want = unbe (field 92 4 p), rq_event = convert (unbe (field 80 4 p)), rq_downloaded = unbe (field 56 8 p),
          rq_uploaded = unbe (field 72 8 p), rq_left = unbe (field 64 8 p), rq_addr = setPort (unbe (field 96 2 p)) peer,
          rq_skip_ipv6 = True\<rparr>)"

definition peer_entry :: "address \<Rightarrow> bytes" where
  "peer_entry a = (if a_family a = AF_INET then in_addr a @ in_port a else replicate 6 0)"

text \<open>A counter that is not initialised gives no result.\<close>

definition announce_packet :: "bytes \<Rightarrow> announce_response \<Rightarrow> bytes option" where
  "announce_packet transaction rp =
     do { interval \<leftarrow> rp_interval rp; leechers \<leftarrow> rp_nleechers rp; seeders \<leftarrow> rp_nseeders rp;
          Some (be 4 (1 :: 32 word) @ transaction @ be 4 interval @ be 4 leechers @ be 4 seeders @ concat (map peer_entry (rp_addrs rp))) }"

definition handleAnnounce ::
  "('d, 'i, 'j) tracker_lib \<Rightarrow> options \<Rightarrow> udp_config \<Rightarrow> int \<Rightarrow> sockaddr \<Rightarrow> bytes \<Rightarrow> ('d, 'i, 'j) udp \<Rightarrow> ('d, 'i, 'j) udp option" where
  "handleAnnounce L opt U now addr p s =
     (if length p < 98 \<or> \<not> checkConnectionId (connection_id_of U p) addr s then Some s
      else (case us_db s of
              None \<Rightarrow> Some s
            | Some db \<Rightarrow> do {
                (db', rp) \<leftarrow> db_announce L opt now (announce_request_of opt U addr p) db;
                let s1 = s\<lparr>us_db := Some db'\<rparr>;
                if rp_error rp then Some (sendFailure p addr (rp_error_msg rp) s1)
                else do { data \<leftarrow> announce_packet (field 12 4 p) rp; Some (push addr data s1) }
              }))"

definition scrape_hashes :: "bytes \<Rightarrow> info_hash list" where
  "scrape_hashes p = map (\<lambda>i. InfoHash_new SHA1 (field (16 + 20 * i) 20 p)) [0..<(length p - 16) div 20]"

definition scrape_entry :: "scrape_item \<Rightarrow> bytes" where
  "scrape_entry i = be 4 (si_nseeders i) @ be 4 (si_ndownloaded i) @ be 4 (si_nleechers i)"

definition handleScrape ::
  "('d, 'i, 'j) tracker_lib \<Rightarrow> options \<Rightarrow> udp_config \<Rightarrow> sockaddr \<Rightarrow> bytes \<Rightarrow> ('d, 'i, 'j) udp \<Rightarrow> ('d, 'i, 'j) udp option" where
  "handleScrape L opt U addr p s =
     (if length p < 16 \<or> \<not> checkConnectionId (connection_id_of U p) addr s then Some s
      else (case us_db s of
              None \<Rightarrow> Some s
            | Some db \<Rightarrow> do {
                rp \<leftarrow> db_scrape L opt (scrape_hashes p) db;
                if sr_error rp then Some (sendFailure p addr (sr_error_msg rp) s)
                else Some (push addr (be 4 (2 :: 32 word) @ field 12 4 p @ concat (map scrape_entry (sr_items rp))) s)
              }))"

definition handle ::
  "('d, 'i, 'j) tracker_lib \<Rightarrow> options \<Rightarrow> udp_config \<Rightarrow> int \<Rightarrow> sockaddr \<Rightarrow> bytes \<Rightarrow> ('d, 'i, 'j) udp \<Rightarrow> ('d, 'i, 'j) udp option" where
  "handle L opt U now addr p s =
     (if length p < 16 then Some s
      else (let action = unbe (field 8 4 p) :: 32 word
            in if action = 0 then Some (handleConnect U addr p s)
               else if action = 1 then handleAnnounce L opt U now addr p s
               else if action = 2 then handleScrape L opt U addr p s
               else Some s))"

section \<open>The loop\<close>

text \<open>\<^verbatim>\<open>receive\<close> takes datagrams while fewer than 64 answers wait, and leaves the rest in the socket; the buffer
  has 4096 bytes.\<close>

fun receive ::
  "('d, 'i, 'j) tracker_lib \<Rightarrow> options \<Rightarrow> udp_config \<Rightarrow> int \<Rightarrow> (sockaddr \<times> bytes) list \<Rightarrow> ('d, 'i, 'j) udp
   \<Rightarrow> ((sockaddr \<times> bytes) list \<times> ('d, 'i, 'j) udp) option" where
  "receive L opt U now [] s = Some ([], s)"
| "receive L opt U now (d # ds) s =
     (if 64 \<le> length (us_sbufs s) then Some (d # ds, s)
      else do { s' \<leftarrow> handle L opt U now (fst d) (take 4096 (snd d)) s; receive L opt U now ds s' })"

datatype send_result = Sent | Later | Failed

text \<open>The datagrams that go out, and the state after it; a list of results that ends means that the socket is full.\<close>

fun send :: "send_result list \<Rightarrow> ('d, 'i, 'j) udp \<Rightarrow> (sockaddr \<times> bytes) list \<times> ('d, 'i, 'j) udp" where
  "send [] s = ([], s)"
| "send (r # rs) s =
     (case us_sbufs s of
        [] \<Rightarrow> ([], s)
      | d # ds \<Rightarrow>
         (case r of
            Later \<Rightarrow> ([], s)
          | Failed \<Rightarrow> send rs (s\<lparr>us_sbufs := ds\<rparr>)
          | Sent \<Rightarrow> (let (out, s') = send rs (s\<lparr>us_sbufs := ds\<rparr>) in (d # out, s'))))"

datatype poll_result = PollError | PollTimeout | PollOut "send_result list" | PollIn "(sockaddr \<times> bytes) list"

definition start :: "udp_config \<Rightarrow> int \<Rightarrow> bytes \<times> bytes \<times> bytes \<Rightarrow> ('d, 'i, 'j) udp \<Rightarrow> ('d, 'i, 'j) udp" where
  "start U now new s = (case new of (a, b, c) \<Rightarrow> genSecret U now c (genSecret U now b (genSecret U now a s)))"

definition run_once ::
  "('d, 'i, 'j) tracker_lib \<Rightarrow> options \<Rightarrow> udp_config \<Rightarrow> int \<Rightarrow> bytes \<Rightarrow> poll_result \<Rightarrow> ('d, 'i, 'j) udp
   \<Rightarrow> ((sockaddr \<times> bytes) list \<times> ('d, 'i, 'j) udp) option" where
  "run_once L opt U now new r s =
     (if (us_next_timeout s - now) div uc_millisecond U \<le> 0 then Some ([], genSecret U now new s)
      else (case r of
              PollError \<Rightarrow> Some ([], s)
            | PollTimeout \<Rightarrow> Some ([], genSecret U now new s)
            | PollOut results \<Rightarrow> Some (send results s)
            | PollIn ds \<Rightarrow> map_option (\<lambda>(rest, s'). ([], s')) (receive L opt U now ds s)))"

text \<open>Between two iterations other threads announce, clean up and scan.\<close>

inductive udp_reach ::
  "('d, 'i, 'j) tracker_lib \<Rightarrow> options \<Rightarrow> udp_config \<Rightarrow> int \<times> ('d, 'i, 'j) udp \<Rightarrow> bool" for L opt U where
  started: "db_reach L opt (now, db) \<Longrightarrow> udp_reach L opt U (now, start U now new (UdpServer_new (Some db)))"
| ran: "udp_reach L opt U (now, s) \<Longrightarrow> now \<le> now' \<Longrightarrow> run_once L opt U now' new r s = Some (out, s') \<Longrightarrow>
    udp_reach L opt U (now', s')"
| others: "udp_reach L opt U (now, s) \<Longrightarrow> us_db s = Some db \<Longrightarrow> db_step L opt (now, db) (now', db') \<Longrightarrow>
    udp_reach L opt U (now', s\<lparr>us_db := Some db'\<rparr>)"

section \<open>Numbers read back\<close>

lemma length_be [simp]: "length (be n w) = n"
  by (simp add: be_def)

lemma length_host64 [simp]: "length (host64 little w) = 8"
  by (simp add: host64_def)

lemma be_Suc: "be (Suc n) w = be n (drop_bit 8 w) @ [ucast w]"
proof -
  have "8 * (n - 1 - i) + 8 = 8 * (n - i)" if "i < n" for i using that by (simp add: algebra_simps)
  then show ?thesis by (simp add: be_def drop_bit_drop_bit add.commute)
qed

lemma unbe_be: "unbe (be n w) = take_bit (8 * n) (w :: 'a::len word)"
proof (induction n arbitrary: w)
  case 0
  then show ?case by (simp add: be_def unbe_def)
next
  case (Suc n)
  have "unbe (be (Suc n) w) = or (push_bit 8 (take_bit (8 * n) (drop_bit 8 w))) (ucast (ucast w :: byte))"
    using Suc [of "drop_bit 8 w"] by (simp add: be_Suc unbe_def)
  also have "\<dots> = take_bit (8 * Suc n) w"
    by (rule bit_eqI) (auto simp: bit_simps)
  finally show ?case .
qed

lemma unhost64_host64 [simp]: "unhost64 little (host64 little w) = w"
proof -
  have "unbe (be 8 w) = w" unfolding unbe_be by (rule bit_eqI) (auto simp: bit_simps)
  then show ?thesis by (simp add: unhost64_def host64_def)
qed

section \<open>Answers\<close>

lemma announce_response_parts:
  "announce M opt now rq t = Some (t', rp) \<Longrightarrow> \<not> rp_error rp \<and> rp_nleechers rp = Some (t_leechers t) \<and> rp_nseeders rp = Some (t_seeders t)"
  by (auto simp: announce_def Let_def bind_eq_Some_conv split: if_splits option.splits prod.splits)

lemma db_announce_parts:
  assumes "db_announce L opt now rq db = Some (db', rp)"
  shows "rp_error rp \<or> (\<exists>data. announce_packet tr rp = Some data)"
  using assms announce_response_parts
  by (fastforce simp: db_announce_def announce_packet_def error_response_def bind_eq_Some_conv split: option.splits)

text \<open>What a handler may do: keep the secrets and answer at most once.\<close>

definition answers_once :: "('d, 'i, 'j) udp \<Rightarrow> ('d, 'i, 'j) udp \<Rightarrow> bool" where
  "answers_once s s' \<longleftrightarrow> us_secrets s' = us_secrets s \<and> length (us_sbufs s') \<le> Suc (length (us_sbufs s))"

lemma answers_push: "us_secrets s1 = us_secrets s \<Longrightarrow> us_sbufs s1 = us_sbufs s \<Longrightarrow> answers_once s (push a d s1)"
  by (simp add: answers_once_def push_def)

lemma answers_once_refl: "answers_once s s"
  by (simp add: answers_once_def)

definition udp_inv :: "('d, 'i, 'j) tracker_lib \<Rightarrow> options \<Rightarrow> int \<Rightarrow> ('d, 'i, 'j) udp \<Rightarrow> bool" where
  "udp_inv L opt now s \<longleftrightarrow> length (us_secrets s) = 3 \<and> length (us_sbufs s) \<le> 64 \<and> (\<forall>db. us_db s = Some db \<longrightarrow> db_inv L opt now db)"

lemma udp_inv_genSecret: "udp_inv L opt now s \<Longrightarrow> udp_inv L opt now (genSecret U now' new s)"
  by (simp add: udp_inv_def genSecret_def)

lemma send_shrinks:
  "length (us_sbufs (snd (send rs s))) \<le> length (us_sbufs s) \<and> us_secrets (snd (send rs s)) = us_secrets s \<and> us_db (snd (send rs s)) = us_db s"
proof (induction rs s rule: send.induct)
  case (2 r rs s)
  then show ?case by (fastforce split: list.splits send_result.splits prod.splits)
qed simp

context tracker_laws begin

lemma handleAnnounce_keeps:
  assumes "\<forall>db. us_db s = Some db \<longrightarrow> db_inv L opt now0 db" "now0 \<le> now" "peers_limit_ok opt"
  shows "\<exists>s'. handleAnnounce L opt U now addr p s = Some s' \<and> answers_once s s' \<and> (\<forall>db. us_db s' = Some db \<longrightarrow> db_inv L opt now db)"
proof (cases "length p < 98 \<or> \<not> checkConnectionId (connection_id_of U p) addr s \<or> us_db s = None")
  case True
  then show ?thesis using assms(1,2) db_inv_later by (auto simp: handleAnnounce_def answers_once_def split: option.splits)
next
  case False
  then obtain db where db: "us_db s = Some db" by auto
  obtain db' rp where r: "db_announce L opt now (announce_request_of opt U addr p) db = Some (db', rp)" "db_inv L opt now db'"
    using db_announce_inv [OF _ assms(2,3)] assms(1) db by blast
  consider "rp_error rp" | data where "\<not> rp_error rp" "announce_packet (field 12 4 p) rp = Some data"
    using db_announce_parts [OF r(1)] by blast
  then show ?thesis
  proof cases
    case 1
    then show ?thesis using False db r by (auto simp: handleAnnounce_def sendFailure_def answers_push) (simp add: push_def)
  next
    case 2
    then show ?thesis using False db r by (auto simp: handleAnnounce_def answers_push) (simp add: push_def)
  qed
qed

lemma handleScrape_keeps:
  assumes "\<forall>db. us_db s = Some db \<longrightarrow> db_inv L opt now0 db"
  shows "\<exists>s'. handleScrape L opt U addr p s = Some s' \<and> answers_once s s' \<and> us_db s' = us_db s"
proof (cases "us_db s")
  case None
  then show ?thesis by (simp add: handleScrape_def answers_once_refl)
next
  case (Some db)
  then obtain items where "scrape_items L db (scrape_hashes p) = Some items" using scrape_items_defined assms by blast
  then show ?thesis using Some
    by (auto simp: handleScrape_def db_scrape_def answers_push answers_once_refl) (simp add: push_def)
qed

lemma handle_keeps:
  assumes "\<forall>db. us_db s = Some db \<longrightarrow> db_inv L opt now0 db" "now0 \<le> now" "peers_limit_ok opt"
  shows "\<exists>s'. handle L opt U now addr p s = Some s' \<and> answers_once s s' \<and> (\<forall>db. us_db s' = Some db \<longrightarrow> db_inv L opt now db)"
proof -
  have "answers_once s (handleConnect U addr p s) \<and> us_db (handleConnect U addr p s) = us_db s"
    by (simp add: handleConnect_def answers_push answers_once_refl) (simp add: push_def)
  then show ?thesis
    using handleAnnounce_keeps [OF assms, of U addr p] handleScrape_keeps [OF assms(1), of U addr p] assms(1,2) db_inv_later
    by (auto simp: handle_def Let_def answers_once_refl)
qed

lemma receive_keeps:
  assumes "udp_inv L opt now s" "peers_limit_ok opt"
  shows "\<exists>rest s'. receive L opt U now ds s = Some (rest, s') \<and> udp_inv L opt now s'"
  using assms(1)
proof (induction ds arbitrary: s)
  case (Cons d ds)
  show ?case
  proof (cases "64 \<le> length (us_sbufs s)")
    case False
    obtain s' where s': "handle L opt U now (fst d) (take 4096 (snd d)) s = Some s'" "answers_once s s'" "\<forall>db. us_db s' = Some db \<longrightarrow> db_inv L opt now db"
      using handle_keeps [OF _ order_refl assms(2)] Cons.prems unfolding udp_inv_def by blast
    have "udp_inv L opt now s'" using s'(2,3) Cons.prems False by (simp add: udp_inv_def answers_once_def)
    then show ?thesis using Cons.IH s'(1) False by simp
  qed (use Cons.prems in simp)
qed simp

lemma run_keeps:
  assumes "udp_inv L opt now0 s" "now0 \<le> now" "peers_limit_ok opt"
  shows "\<exists>out s'. run_once L opt U now new r s = Some (out, s') \<and> udp_inv L opt now s'"
proof -
  have inv: "udp_inv L opt now s" using assms(1,2) db_inv_later by (auto simp: udp_inv_def)
  show ?thesis
  proof (cases r)
    case (PollOut results)
    have "udp_inv L opt now (snd (send results s))" using send_shrinks [of results s] inv by (auto simp: udp_inv_def)
    then show ?thesis using PollOut udp_inv_genSecret [OF inv] by (cases "send results s") (auto simp: run_once_def)
  next
    case (PollIn ds)
    then show ?thesis using receive_keeps [OF inv assms(3), of U ds] udp_inv_genSecret [OF inv] by (auto simp: run_once_def)
  qed (use inv udp_inv_genSecret [OF inv] in \<open>auto simp: run_once_def\<close>)
qed

lemma udp_reach_inv: "udp_reach L opt U s \<Longrightarrow> peers_limit_ok opt \<Longrightarrow> udp_inv L opt (fst s) (snd s)"
proof (induction rule: udp_reach.induct)
  case (started now db new)
  then show ?case using db_reach_inv [OF started(1)]
    by (cases new) (simp add: udp_inv_def start_def UdpServer_new_def genSecret_def)
next
  case (ran now s now' new r out s')
  then show ?case using run_keeps [of opt now s now' U new r] by auto
next
  case (others now s db now' db')
  then show ?case using db_step_inv [OF others(3)] by (auto simp: udp_inv_def)
qed

end

section \<open>In all reachable states of the server\<close>

text \<open>C10. In every state the UDP server reaches, whatever datagrams come and whatever the other threads do to the
  database in between, at most 64 answers wait, and one more iteration of the loop returns, without following a
  dangling pointer or reading a counter that is not set.\<close>

theorem udp_queue_bounded:
  assumes "tracker_laws L" and "peers_limit_ok opt" and "udp_reach L opt U (now, s)" and "now \<le> now'"
  shows "length (us_sbufs s) \<le> 64 \<and> length (us_secrets s) = 3 \<and> (\<exists>out s'. run_once L opt U now' new r s = Some (out, s'))"
  using tracker_laws.udp_reach_inv [OF assms(1,3,2)] tracker_laws.run_keeps [OF assms(1) _ assms(4,2)]
  by (fastforce simp: udp_inv_def)

definition demo_udp_config :: udp_config where
  "demo_udp_config = \<lparr>uc_little = True, uc_second = 1000, uc_millisecond = 1, uc_junk = replicate 18 0\<rparr>"

definition demo_udp :: "(nat list, (bytes \<times> nat) list, (bytes \<times> nat) list) udp" where
  "demo_udp = start demo_udp_config 5 (replicate 32 1, replicate 32 2, replicate 32 3) (UdpServer_new (Some demo_db))"

definition demo_sender :: sockaddr where
  "demo_sender = Sockaddr_in [26, 225] [10, 0, 0, 1]"

text \<open>A datagram with the connection id of the sender, an action and further bytes.\<close>

definition demo_datagram :: "byte \<Rightarrow> bytes \<Rightarrow> bytes" where
  "demo_datagram action rest = [35, 0, 0, 0, 0, 0, 0, 0] @ [0, 0, 0, action] @ [1, 2, 3, 4] @ rest"

lemma demo_udp_reach: "udp_reach ref_lib opt demo_udp_config (5, demo_udp)"
  unfolding demo_udp_def by (rule udp_reach.started [OF demo_db_reach])

lemma demo_udp_state:
  "us_secrets demo_udp = [replicate 32 3, replicate 32 2, replicate 32 1]" "us_db demo_udp = Some demo_db" "us_sbufs demo_udp = []"
  by (simp_all add: demo_udp_def start_def genSecret_def UdpServer_new_def)

lemma demo_connection: "checkConnectionId (connection_id_of demo_udp_config (demo_datagram a rest)) demo_sender demo_udp"
proof -
  have "connectionId (replicate 32 3) demo_sender = 35" by code_simp
  moreover have "unbe [0, 0, 0, 0, 0, 0, 0, 35] = (35 :: 64 word)" by code_simp
  ultimately show ?thesis
    by (simp add: checkConnectionId_def demo_udp_state connection_id_of_def demo_udp_config_def demo_datagram_def field_def unhost64_def)
qed

theorem udp_queue_bounded_witness:
  "\<exists>out s'. run_once ref_lib default_options demo_udp_config 9 (replicate 32 4) (PollIn [(demo_sender, demo_datagram 0 [])]) demo_udp = Some (out, s')"
  using udp_queue_bounded [OF ref_lib.tracker_laws_axioms default_limit_ok demo_udp_reach, of 9] by simp

text \<open>The answer to a connect carries a connection id, and a later datagram of the same address that begins with
  these bytes is accepted as long as fewer than three new secrets have been drawn since; after that only if one
  of the three last secrets happens to give the same number.\<close>

theorem connection_id_lifetime:
  assumes "length (us_secrets s) = 3" and "16 \<le> length p"
    and "us_sbufs (handleConnect U addr p s) = us_sbufs s @ [(addr, be 4 (0 :: 32 word) @ field 12 4 p @ field 0 8 q)]"
  shows "checkConnectionId (connection_id_of U q) addr (fold (\<lambda>(now, new). genSecret U now new) news s) \<longleftrightarrow>
    length news < 3 \<or> (\<exists>x \<in> set (take 3 (rev (map snd news))). connectionId (us_secrets s ! 0) addr = connectionId x addr)"
proof -
  have q: "field 0 8 q = host64 (uc_little U) (connectionId (us_secrets s ! 0) addr)"
    using assms(2,3) by (simp add: handleConnect_def push_def)
  obtain a b c where abc: "us_secrets s = [a, b, c]" using assms(1) by (auto simp: numeral_3_eq_3 length_Suc_conv)
  have secrets: "us_secrets (fold (\<lambda>(now, new). genSecret U now new) news s) = take 3 (rev (map snd news) @ us_secrets s)" if "length (us_secrets s) = 3" for s
    using that
  proof (induction news arbitrary: s)
    case (Cons n news)
    have "us_secrets ((\<lambda>(now, new). genSecret U now new) n s) = snd n # take 2 (us_secrets s)" by (cases n) (simp add: genSecret_def)
    then show ?case using Cons.IH [of "(\<lambda>(now, new). genSecret U now new) n s"] Cons.prems
      by (cases "3 - length news") (auto simp: take_Cons' min_def)
  qed simp
  have check: "checkConnectionId k addr t \<longleftrightarrow> (\<exists>x \<in> set (us_secrets t). k = connectionId x addr)" if "length (us_secrets t) = 3" for k t
    using that by (auto simp: checkConnectionId_def numeral_3_eq_3 length_Suc_conv)
  have l3: "length (us_secrets (fold (\<lambda>(now, new). genSecret U now new) news s)) = 3" by (simp add: secrets assms(1))
  have "checkConnectionId (connection_id_of U q) addr (fold (\<lambda>(now, new). genSecret U now new) news s) \<longleftrightarrow>
      (\<exists>x \<in> set (take 3 (rev (map snd news) @ us_secrets s)). connectionId a addr = connectionId x addr)"
    unfolding connection_id_of_def q check [OF l3] secrets [OF assms(1)] using abc by simp
  also have "\<dots> \<longleftrightarrow> length news < 3 \<or> (\<exists>x \<in> set (take 3 (rev (map snd news))). connectionId a addr = connectionId x addr)"
  proof (cases "length news < 3")
    case True
    then have "a \<in> set (take 3 (rev (map snd news) @ us_secrets s))" using abc by (cases "3 - length news") auto
    then show ?thesis using True by blast
  qed simp
  finally show ?thesis using abc by simp
qed

theorem connection_id_lifetime_witness:
  "checkConnectionId (connection_id_of demo_udp_config (demo_datagram 1 [])) demo_sender
     (fold (\<lambda>(now, new). genSecret demo_udp_config now new) [(1005, replicate 32 4), (2005, replicate 32 5)] demo_udp)"
proof -
  have "connectionId (replicate 32 3) demo_sender = 35" by code_simp
  moreover have "host64 True 35 = [35, 0, 0, 0, 0, 0, 0, 0]" by code_simp
  ultimately have "us_sbufs (handleConnect demo_udp_config demo_sender (demo_datagram 0 []) demo_udp) = us_sbufs demo_udp
      @ [(demo_sender, be 4 (0 :: 32 word) @ field 12 4 (demo_datagram 0 []) @ field 0 8 (demo_datagram 1 []))]"
    by (simp add: handleConnect_def push_def demo_datagram_def demo_udp_state demo_udp_config_def field_def)
  from connection_id_lifetime [OF _ _ this, of "[(1005, replicate 32 4), (2005, replicate 32 5)]"]
  show ?thesis by (simp add: demo_udp_state demo_datagram_def)
qed

text \<open>A sender without a valid connection id changes nothing in the database and gets no more bytes than it has
  sent: at most the sixteen bytes that answer a connect.\<close>

theorem udp_no_amplification:
  assumes "\<not> checkConnectionId (connection_id_of U p) addr s" and "handle L opt U now addr p s = Some s'"
  shows "us_db s' = us_db s \<and> (us_sbufs s' = us_sbufs s
    \<or> (\<exists>data. us_sbufs s' = us_sbufs s @ [(addr, data)] \<and> length data = 16 \<and> length data \<le> length p))"
  using assms by (auto simp: handle_def Let_def handleConnect_def handleAnnounce_def handleScrape_def push_def field_def split: if_splits)

theorem udp_no_amplification_witness:
  "\<exists>s'. handle ref_lib default_options demo_udp_config 9 demo_sender (replicate 16 0) demo_udp = Some s' \<and> us_db s' = us_db demo_udp"
proof -
  have "\<not> checkConnectionId (connection_id_of demo_udp_config (replicate 16 0)) demo_sender demo_udp"
    unfolding checkConnectionId_def demo_udp_state by code_simp
  moreover have "unbe (field 8 4 (replicate 16 0)) = (0 :: 32 word)" by code_simp
  then have "handle ref_lib default_options demo_udp_config 9 demo_sender (replicate 16 0) demo_udp
      = Some (handleConnect demo_udp_config demo_sender (replicate 16 0) demo_udp)" by (simp add: handle_def)
  ultimately show ?thesis using udp_no_amplification by blast
qed

text \<open>C8. Every announce over UDP that is accepted is answered with the error that the torrent is not found, whatever
  torrents the tracker has: the request leaves the type of its hash unset, so the hash it is looked up by has no
  bytes. The database stays as it is.\<close>

theorem udp_announce_never_found:
  assumes "tracker_laws L" and "peers_limit_ok opt" and "udp_reach L opt U (now, s)" and "us_db s = Some db"
    and "98 \<le> length p" and "unbe (field 8 4 p) = (1 :: 32 word)" and "checkConnectionId (connection_id_of U p) addr s"
  shows "handle L opt U now' addr p s =
    Some (s\<lparr>us_sbufs := us_sbufs s @ [(addr, failure_packet (field 12 4 p) ''torrent not found'')]\<rparr>)"
proof -
  have inv: "db_inv L opt now db" using tracker_laws.udp_reach_inv [OF assms(1,3,2)] assms(4) by (simp add: udp_inv_def)
  have "tr_find (tl_db L) (td_torrents db) [] = None"
  proof (rule ccontr)
    assume "tr_find (tl_db L) (td_torrents db) [] \<noteq> None"
    then obtain k where k: "tr_find (tl_db L) (td_torrents db) [] = Some k" by auto
    show False by (rule db_invD [OF inv k]) (use torrentKey_length in fastforce)
  qed
  moreover have "hash_bytes (rq_info_hash (announce_request_of opt U addr p)) = []"
    by (simp add: announce_request_of_def Let_def hash_bytes_def InfoHash_default_def hashSize_def)
  ultimately show ?thesis
    using assms(4-7) by (simp add: handle_def handleAnnounce_def db_announce_def error_response_def sendFailure_def push_def)
qed

theorem udp_announce_never_found_witness:
  "torrent_at ref_lib demo_db (replicate 20 7) \<noteq> None
    \<and> handle ref_lib default_options demo_udp_config 9 demo_sender (demo_datagram 1 (replicate 20 7 @ replicate 62 0)) demo_udp =
      Some (demo_udp\<lparr>us_sbufs := [(demo_sender, failure_packet [1, 2, 3, 4] ''torrent not found'')]\<rparr>)"
proof -
  have "unbe [0, 0, 0, 1] = (1 :: 32 word)" by code_simp
  then have a: "unbe (field 8 4 (demo_datagram 1 rest)) = (1 :: 32 word)" for rest by (simp add: field_def demo_datagram_def)
  have "field 12 4 (demo_datagram 1 rest) = [1, 2, 3, 4]" for rest by (simp add: field_def demo_datagram_def)
  then show ?thesis
    using udp_announce_never_found [OF ref_lib.tracker_laws_axioms default_limit_ok demo_udp_reach demo_udp_state(2) _ a demo_connection]
    by (simp add: demo_datagram_def demo_udp_state demo_db_torrents)
qed

text \<open>C9. An accepted scrape is answered with the seeders, completions and leechers of the torrents asked for, in the
  order of the request. A hash that is not known leaves no entry, so the entries after it stand at the place of another hash.\<close>

theorem udp_scrape_answer:
  assumes "tracker_laws L" and "peers_limit_ok opt" and "udp_reach L opt U (now, s)" and "us_db s = Some db"
    and "16 \<le> length p" and "unbe (field 8 4 p) = (2 :: 32 word)" and "checkConnectionId (connection_id_of U p) addr s"
  shows "handle L opt U now' addr p s = Some (s\<lparr>us_sbufs := us_sbufs s @ [(addr, be 4 (2 :: 32 word) @ field 12 4 p @
    concat (map (\<lambda>i. case torrent_at L db (field (16 + 20 * i) 20 p) of
        None \<Rightarrow> []
      | Some t \<Rightarrow> be 4 (t_seeders t) @ be 4 (t_completed t) @ be 4 (t_leechers t)) [0..<(length p - 16) div 20]))]\<rparr>)"
proof -
  have inv: "db_inv L opt now db" using tracker_laws.udp_reach_inv [OF assms(1,3,2)] assms(4) by (simp add: udp_inv_def)
  have items: "\<exists>items. scrape_items L db hs = Some items \<and> concat (map scrape_entry items) =
      concat (map (\<lambda>h. case torrent_at L db (hash_bytes h) of None \<Rightarrow> []
        | Some t \<Rightarrow> be 4 (t_seeders t) @ be 4 (t_completed t) @ be 4 (t_leechers t)) hs)" for hs
  proof (induction hs)
    case (Cons h hs)
    show ?case
    proof (cases "tr_find (tl_db L) (td_torrents db) (hash_bytes h)")
      case None
      then show ?thesis using Cons by (simp add: torrent_at_def)
    next
      case (Some k)
      obtain t where "td_heap db k = Some t" using db_invD [OF inv Some] by blast
      then show ?thesis using Cons Some by (auto simp: torrent_at_def scrape_entry_def scrape_item_of_def)
    qed
  qed simp
  have h: "hash_bytes (InfoHash_new SHA1 bs) = take 20 bs @ take (20 - length bs) (replicate 12 0)" for bs
    by (simp add: hash_bytes_def InfoHash_new_def hashSize_def)
  have hb: "hash_bytes (InfoHash_new SHA1 (field (16 + 20 * i) 20 p)) = field (16 + 20 * i) 20 p" if "i < (length p - 16) div 20" for i
  proof -
    have "20 * Suc i \<le> 20 * ((length p - 16) div 20)" using that by (intro mult_le_mono2) simp
    also have "\<dots> \<le> length p - 16" by (rule times_div_less_eq_dividend)
    finally have "16 + 20 * i + 20 \<le> length p" using assms(5) by simp
    then show ?thesis by (simp add: h field_def)
  qed
  let ?entry = "\<lambda>bs. case torrent_at L db bs of None \<Rightarrow> [] | Some t \<Rightarrow> be 4 (t_seeders t) @ be 4 (t_completed t) @ be 4 (t_leechers t)"
  have "map (\<lambda>h. ?entry (hash_bytes h)) (scrape_hashes p) = map (\<lambda>i. ?entry (field (16 + 20 * i) 20 p)) [0..<(length p - 16) div 20]"
    unfolding scrape_hashes_def map_map o_def by (rule map_cong [OF refl]) (simp only: hb set_upt atLeastLessThan_iff)
  then obtain items where "scrape_items L db (scrape_hashes p) = Some items"
      "concat (map scrape_entry items) = concat (map (\<lambda>i. ?entry (field (16 + 20 * i) 20 p)) [0..<(length p - 16) div 20])"
    using items [of "scrape_hashes p"] by auto
  then show ?thesis using assms(4-7) by (simp add: handle_def handleScrape_def db_scrape_def push_def)
qed

theorem udp_scrape_answer_witness:
  "\<exists>s'. handle ref_lib default_options demo_udp_config 9 demo_sender (demo_datagram 2 (replicate 20 1 @ replicate 20 7)) demo_udp = Some s'
     \<and> us_sbufs s' = [(demo_sender, [0, 0, 0, 2] @ [1, 2, 3, 4] @ replicate 12 0)]"
proof -
  let ?p = "demo_datagram 2 (replicate 20 1 @ replicate 20 7)"
  have "unbe [0, 0, 0, 2] = (2 :: 32 word)" by code_simp
  then have a: "unbe (field 8 4 ?p) = (2 :: 32 word)" by (simp add: field_def demo_datagram_def)
  have n: "[0..<(length ?p - 16) div 20] = [0, 1]" by (simp add: demo_datagram_def upt_rec)
  have f: "field (16 + 20 * 0) 20 ?p = replicate 20 1" "field (16 + 20 * 1) 20 ?p = replicate 20 7" "field 12 4 ?p = [1, 2, 3, 4]"
    by (simp_all add: field_def demo_datagram_def)
  have t: "torrent_at ref_lib demo_db (replicate 20 1) = None"
    by code_simp
  have b: "be 4 (2 :: 32 word) = [0, 0, 0, 2]" "be 4 (0 :: 32 word) = replicate 4 0" by code_simp+
  have l: "16 \<le> length ?p" by (simp add: demo_datagram_def)
  have blocks: "concat (map (\<lambda>i. case torrent_at ref_lib demo_db (field (16 + 20 * i) 20 ?p) of
        None \<Rightarrow> [] | Some t \<Rightarrow> be 4 (t_seeders t) @ be 4 (t_completed t) @ be 4 (t_leechers t)) [0, 1]) = replicate 12 0"
    unfolding list.map concat.simps f t demo_db_torrents by (simp add: b Torrent_new_def replicate_add [symmetric])
  show ?thesis
    using udp_scrape_answer [OF ref_lib.tracker_laws_axioms default_limit_ok demo_udp_reach demo_udp_state(2) l a demo_connection, of 9]
    unfolding n blocks f b by (simp add: demo_udp_state)
qed

end
