(* ===== verification/Http_Handlers.thy ===== *)
theory Http_Handlers
  imports Torrent_Db
begin

text \<open>
  The HTTP front end as far as it decides something: \<^verbatim>\<open>announce-handler.cc\<close>, \<^verbatim>\<open>scrape-handler.cc\<close>,
  \<^verbatim>\<open>file-handler.cc\<close>, and what \<^verbatim>\<open>peers-handler.cc\<close> and \<^verbatim>\<open>stat-handler.cc\<close> read from the database.
  The parser of queries, the bencode encoder and the templates belong to mimosa: a query is the function that gives the
  values of a name in their order, an answer is the list of calls of the encoder, a page the values that the template
  gets.
\<close>

section \<open>Requests\<close>

type_synonym query = "string \<Rightarrow> bytes list"

definition queryGet :: "query \<Rightarrow> string \<Rightarrow> bytes" where
  "queryGet q name = (case q name of [] \<Rightarrow> [] | v # vs \<Rightarrow> v)"

definition c_digit :: "byte \<Rightarrow> bool" where
  "c_digit b \<longleftrightarrow> 48 \<le> b \<and> b \<le> 57"

text \<open>\<^verbatim>\<open>atoi\<close> and \<^verbatim>\<open>atoll\<close>: white space, a sign, digits. What happens to a value that does not fit is left
  open by the language; here it is as in the usual libraries, the nearest value of 64 bits, of which \<^verbatim>\<open>atoi\<close> keeps the low half.\<close>

definition c_ato :: "bytes \<Rightarrow> int" where
  "c_ato s =
     (let t = dropWhile (\<lambda>b. b = 32 \<or> 9 \<le> b \<and> b \<le> 13) s;
          number = (\<lambda>ds. foldl (\<lambda>n b. 10 * n + (uint b - 48)) 0 (takeWhile c_digit ds));
          value = (case t of [] \<Rightarrow> 0 | c # cs \<Rightarrow> if c = 45 then - number cs else if c = 43 then number cs else number t)
      in max (- (2 ^ 63)) (min (2 ^ 63 - 1) value))"

definition bytes_of :: "string \<Rightarrow> bytes" where
  "bytes_of s = map (\<lambda>c. word_of_nat (of_char c)) s"

definition string_of :: "bytes \<Rightarrow> string" where
  "string_of bs = map (\<lambda>b. char_of (unat b)) bs"

text \<open>The machine: \<^verbatim>\<open>inet_pton\<close> and \<^verbatim>\<open>inet_ntop\<close>, the address of the channel, and what
  uninitialised memory holds.\<close>

record http_env =
  he_pton4 :: "bytes \<Rightarrow> bytes option"
  he_pton6 :: "bytes \<Rightarrow> bytes option"
  he_ipStr :: "address \<Rightarrow> bytes"
  he_remote :: "sockaddr option"
  he_port :: bytes
  he_junk :: bytes

section \<open>Answers\<close>

datatype ben = StartDict | StartList | End | PushData bytes | PushInt int

datatype http_result = NotHandled | Unavailable | Answer "ben list"

definition failure_answer :: "string \<Rightarrow> http_result" where
  "failure_answer msg = Answer [StartDict, PushData (bytes_of ''failure reason''), PushData (bytes_of msg), End]"

section \<open>Announce\<close>

definition http_num_want :: "options \<Rightarrow> query \<Rightarrow> 32 word" where
  "http_num_want opt q =
     (case q ''numwant'' of
        [] \<Rightarrow> MIN_NUMWANT opt
      | v # vs \<Rightarrow> (let n = word_of_int (c_ato v) in if sint (MAX_NUMWANT opt) < sint n then MAX_NUMWANT opt else n))"

text \<open>An address given by the client that does not parse leaves the one of the request without a family.\<close>

definition http_peer_addr :: "http_env \<Rightarrow> options \<Rightarrow> query \<Rightarrow> address" where
  "http_peer_addr E opt q =
     (let ip = queryGet q ''ip''; none = Address_new (he_junk E)
      in if ALLOW_PROXY opt \<and> ip \<noteq> []
         then (case he_pton4 E ip of
                 Some a \<Rightarrow> assign (Some (Sockaddr_in (he_port E) a)) none
               | None \<Rightarrow> (case he_pton6 E ip of Some a \<Rightarrow> assign (Some (Sockaddr_in6 (he_port E) a)) none | None \<Rightarrow> none))
         else assign (he_remote E) none)"

definition http_request :: "http_env \<Rightarrow> options \<Rightarrow> query \<Rightarrow> announce_request" where
  "http_request E opt q =
     \<lparr>rq_peerid = queryGet q ''peer_id'', rq_info_hash = InfoHash_new SHA1 (queryGet q ''info_hash''),
      rq_num_want = http_num_want opt q, rq_event = parseEvent (string_of (queryGet q ''event'')),
      rq_downloaded = word_of_int (c_ato (queryGet q ''downloaded'')), rq_uploaded = word_of_int (c_ato (queryGet q ''uploaded'')),
      rq_left = word_of_int (c_ato (queryGet q ''left'')),
      rq_addr = setPort (word_of_int (c_ato (queryGet q ''port''))) (http_peer_addr E opt q), rq_skip_ipv6 = False\<rparr>"

definition compact_peers :: "address list \<Rightarrow> bytes" where
  "compact_peers addrs = concat (map (\<lambda>a. if a_family a = AF_INET then in_addr a @ in_port a else []) addrs)"

definition compact_peers6 :: "address list \<Rightarrow> bytes" where
  "compact_peers6 addrs = concat (map (\<lambda>a. if a_family a = AF_INET6 then in6_addr a @ in6_port a else []) addrs)"

definition peers_answer :: "http_env \<Rightarrow> bool \<Rightarrow> address list \<Rightarrow> ben list" where
  "peers_answer E short addrs =
     (if short
      then [PushData (bytes_of ''peers''), PushData (compact_peers addrs), PushData (bytes_of ''peers6''), PushData (compact_peers6 addrs)]
      else [PushData (bytes_of ''peers''), StartList]
        @ concat (map (\<lambda>a. [StartDict, PushData (bytes_of ''ip''), PushData (he_ipStr E a), PushData (bytes_of ''port''), PushInt (uint (port a)), End]) addrs)
        @ [End])"

text \<open>The state is the database, if there is one; an interval that is not set gives no result.\<close>

definition http_announce ::
  "http_env \<Rightarrow> ('d, 'i, 'j) tracker_lib \<Rightarrow> options \<Rightarrow> int \<Rightarrow> query \<Rightarrow> ('d, 'i, 'j) torrent_db option
   \<Rightarrow> (('d, 'i, 'j) torrent_db option \<times> http_result) option" where
  "http_announce E L opt now q tdb =
     (if length (queryGet q ''peer_id'') \<noteq> 20 \<or> length (queryGet q ''info_hash'') \<noteq> 20 then Some (tdb, NotHandled)
      else (case tdb of
              None \<Rightarrow> Some (tdb, Unavailable)
            | Some db \<Rightarrow> do {
                (db', rp) \<leftarrow> db_announce L opt now (http_request E opt q) db;
                if rp_error rp then Some (Some db', failure_answer (rp_error_msg rp))
                else do {
                  interval \<leftarrow> rp_interval rp;
                  Some (Some db', Answer ([StartDict, PushData (bytes_of ''interval''), PushInt (uint interval)]
                    @ peers_answer E (q ''compact'' \<noteq> []) (rp_addrs rp) @ [End]))
                }
              }))"

section \<open>Scrape\<close>

definition http_scrape_hashes :: "query \<Rightarrow> info_hash list" where
  "http_scrape_hashes q = map (InfoHash_new SHA1) (filter (\<lambda>v. length v = 20) (q ''info_hash''))"

definition scrape_calls :: "scrape_item \<Rightarrow> ben list" where
  "scrape_calls i =
     [PushData (take 20 (ih_bytes (si_info_hash i))), StartDict, PushData (bytes_of ''complete''), PushInt (uint (si_nseeders i)),
      PushData (bytes_of ''incomplete''), PushInt (uint (si_nleechers i)), PushData (bytes_of ''downloaded''),
      PushInt (uint (si_ndownloaded i)), End]"

definition http_scrape ::
  "('d, 'i, 'j) tracker_lib \<Rightarrow> options \<Rightarrow> query \<Rightarrow> ('d, 'i, 'j) torrent_db option \<Rightarrow> http_result option" where
  "http_scrape L opt q tdb =
     (case tdb of
        None \<Rightarrow> Some Unavailable
      | Some db \<Rightarrow> do {
          rp \<leftarrow> db_scrape L opt (http_scrape_hashes q) db;
          if sr_error rp then Some (failure_answer (sr_error_msg rp))
          else Some (Answer ([StartDict, PushData (bytes_of ''flags''), StartDict, PushData (bytes_of ''min_request_interval''),
                 PushInt (uint (sr_interval rp)), End, PushData (bytes_of ''files''), StartDict]
               @ concat (map scrape_calls (sr_items rp)) @ [End, End]))
        })"

section \<open>Pages\<close>

datatype page_result = BadRequest | NotFound | NoService | File string

text \<open>The page that serves a torrent file; the argument is the decoded hash.\<close>

definition file_page ::
  "('d, 'i, 'j) tracker_lib \<Rightarrow> bytes \<Rightarrow> ('d, 'i, 'j) torrent_db option \<Rightarrow> page_result option" where
  "file_page L info_hash tdb =
     (if isValidHashSize (int (length info_hash)) then Some BadRequest
      else (case tdb of
              None \<Rightarrow> Some NoService
            | Some db \<Rightarrow>
               (case tr_find (tl_db L) (td_torrents db) info_hash of
                  None \<Rightarrow> Some NotFound
                | Some k \<Rightarrow> map_option (\<lambda>t. File (t_path t)) (td_heap db k))))"

record peer_row =
  pr_addr :: address
  pr_peerid :: bytes
  pr_downloaded :: "64 word"
  pr_uploaded :: "64 word"
  pr_left :: "64 word"

datatype peers_result = PeersNotFound | PeersNoService | Peers "peer_row list"

fun peer_rows :: "(nat \<Rightarrow> peer option) \<Rightarrow> nat list \<Rightarrow> peer_row list option" where
  "peer_rows h [] = Some []"
| "peer_rows h (p # ps) =
     do { pr \<leftarrow> h p; rows \<leftarrow> peer_rows h ps;
          Some (\<lparr>pr_addr = p_addr pr, pr_peerid = p_peerid pr, pr_downloaded = p_downloaded pr, pr_uploaded = p_uploaded pr,
                 pr_left = p_left pr\<rparr> # rows) }"

definition peers_page ::
  "('d, 'i, 'j) tracker_lib \<Rightarrow> bytes \<Rightarrow> ('d, 'i, 'j) torrent_db option \<Rightarrow> peers_result option" where
  "peers_page L info_hash tdb =
     (if length info_hash \<noteq> 20 \<and> length info_hash \<noteq> 32 then Some PeersNotFound
      else (case tdb of
              None \<Rightarrow> Some PeersNoService
            | Some db \<Rightarrow>
               (case tr_find (tl_db L) (td_torrents db) (take 20 info_hash) of
                  None \<Rightarrow> Some PeersNotFound
                | Some k \<Rightarrow> do {
                    t \<leftarrow> td_heap db k;
                    rows \<leftarrow> peer_rows (t_heap t) (dl_list (m_dl (tl_mimosa L)) (t_timeouts t));
                    Some (Peers rows)
                  })))"

text \<open>The rows and the totals of the statistics page.\<close>

record stat_row =
  sw_name :: string
  sw_length :: "64 word"
  sw_version :: int
  sw_info_hash :: bytes
  sw_leechers :: "32 word"
  sw_seeders :: "32 word"
  sw_completed :: "32 word"

record stat_totals =
  st_leechers :: "64 word"
  st_seeders :: "64 word"
  st_length :: "64 word"
  st_completed :: "64 word"

definition stat_row_of :: "('d, 'i) torrent \<Rightarrow> stat_row option" where
  "stat_row_of t = map_option (\<lambda>v. \<lparr>sw_name = t_name t, sw_length = t_length t, sw_version = v, sw_info_hash = Torrent_key t,
     sw_leechers = t_leechers t, sw_seeders = t_seeders t, sw_completed = t_completed t\<rparr>) (version t)"

definition add_totals :: "('d, 'i) torrent \<Rightarrow> stat_totals \<Rightarrow> stat_totals" where
  "add_totals t s = \<lparr>st_leechers = st_leechers s + ucast (t_leechers t), st_seeders = st_seeders s + ucast (t_seeders t),
     st_length = st_length s + t_length t, st_completed = st_completed s + ucast (t_completed t)\<rparr>"

fun stat_rows ::
  "('d, 'i, 'j) torrent_db \<Rightarrow> nat list \<Rightarrow> stat_totals \<Rightarrow> (stat_row list \<times> stat_totals) option" where
  "stat_rows db [] s = Some ([], s)"
| "stat_rows db (k # ks) s =
     do { t \<leftarrow> td_heap db k; row \<leftarrow> stat_row_of t; (rows, s') \<leftarrow> stat_rows db ks (add_totals t s); Some (row # rows, s') }"

definition stat_page ::
  "('d, 'i, 'j) tracker_lib \<Rightarrow> ('d, 'i, 'j) torrent_db \<Rightarrow> (stat_row list \<times> stat_totals) option" where
  "stat_page L db = stat_rows db (tr_values (tl_db L) (td_torrents db)) \<lparr>st_leechers = 0, st_seeders = 0, st_length = 0, st_completed = 0\<rparr>"

section \<open>What the handlers answer\<close>

lemma hash_bytes_sha1: "length bs = 20 \<Longrightarrow> hash_bytes (InfoHash_new SHA1 bs) = bs"
  by (simp add: hash_bytes_def InfoHash_new_def hashSize_def)

definition demo_http_env :: http_env where
  "demo_http_env = \<lparr>he_pton4 = (\<lambda>_. None), he_pton6 = (\<lambda>_. None), he_ipStr = (\<lambda>_. []), he_remote = Some (Sockaddr_in [26, 225] [10, 0, 0, 1]),
     he_port = [0, 0], he_junk = replicate 18 0\<rparr>"

definition demo_query :: query where
  "demo_query = (\<lambda>_. [])(''peer_id'' := [replicate 20 1], ''info_hash'' := [replicate 20 7], ''port'' := [bytes_of ''6881''],
     ''left'' := [bytes_of ''100''], ''compact'' := [bytes_of ''1''])"

text \<open>C11. An HTTP announce for a torrent of the tracker that is no stop is answered with the interval in seconds and
  the peers of that torrent: the others that have announced, the latest first, without the asking one, as many as
  wanted between the two limits. The torrent is left as its own announce leaves it, the other torrents are not touched.\<close>

theorem http_announce_answer:
  assumes "tracker_laws L" and "peers_limit_ok opt" and "db_reach L opt (now, db)" and "now \<le> now'"
    and "length (queryGet q ''peer_id'') = 20" and "length (queryGet q ''info_hash'') = 20"
    and "torrent_at L db (queryGet q ''info_hash'') = Some t" and "rq_event (http_request E opt q) \<noteq> kStopped"
  shows "\<exists>db' t' rp. http_announce E L opt now' q (Some db) = Some (Some db',
        Answer ([StartDict, PushData (bytes_of ''interval''), PushInt (uint (ANNOUNCE_INTERVAL opt * 60))]
          @ peers_answer E (q ''compact'' \<noteq> []) (rp_addrs rp) @ [End]))
    \<and> announce (tl_mimosa L) opt now' (http_request E opt q) t = Some (t', rp)
    \<and> torrent_at L db' = (torrent_at L db)(queryGet q ''info_hash'' \<mapsto> t')
    \<and> rp_addrs rp = take (unat (clamp_int (http_num_want opt q) (MIN_NUMWANT opt) (MAX_NUMWANT opt)))
       (map p_addr (filter (\<lambda>pr. p_peerid pr \<noteq> queryGet q ''peer_id'' \<and> key (p_addr pr) \<noteq> key (rq_addr (http_request E opt q))
             \<and> \<not> (a_family (rq_addr (http_request E opt q)) = AF_INET \<and> a_family (p_addr pr) = AF_INET6))
          (map (peer_at t) (rev (peer_ids (tl_mimosa L) t)))))"
proof -
  let ?rq = "http_request E opt q"
  have inv: "db_inv L opt now db" using tracker_laws.db_reach_inv [OF assms(1,3,2)] by simp
  obtain k where k: "tr_find (tl_db L) (td_torrents db) (queryGet q ''info_hash'') = Some k" "td_heap db k = Some t"
    using assms(7) by (auto simp: torrent_at_Some)
  have h: "hash_bytes (rq_info_hash ?rq) = queryGet q ''info_hash''" by (simp add: http_request_def hash_bytes_sha1 assms(6))
  obtain t' rp where a: "announce (tl_mimosa L) opt now' ?rq t = Some (t', rp)" and addrs: "rp_addrs rp =
      take (unat (clamp_int (rq_num_want ?rq) (MIN_NUMWANT opt) (MAX_NUMWANT opt)))
       (map p_addr (filter (\<lambda>pr. p_peerid pr \<noteq> rq_peerid ?rq \<and> key (p_addr pr) \<noteq> key (rq_addr ?rq)
             \<and> \<not> ((a_family (rq_addr ?rq) = AF_INET \<or> rq_skip_ipv6 ?rq) \<and> a_family (p_addr pr) = AF_INET6))
          (map (peer_at t) (rev (peer_ids (tl_mimosa L) t)))))" and err: "\<not> rp_error rp"
    using other_peers [OF _ db_inv_at(3) [OF inv k] assms(4,2,8)] assms(1) by (auto simp: tracker_laws_def first_response_def)
  obtain db' rp2 where d: "db_announce L opt now' ?rq db = Some (db', rp2)" "rp2 = rp\<lparr>rp_interval := Some (ANNOUNCE_INTERVAL opt * 60)\<rparr>"
      "torrent_at L db' = (torrent_at L db)(queryGet q ''info_hash'' \<mapsto> t')"
    using db_announce_at [OF assms(1-4), of ?rq] a assms(7) by (auto simp: h)
  have "http_announce E L opt now' q (Some db) = Some (Some db',
        Answer ([StartDict, PushData (bytes_of ''interval''), PushInt (uint (ANNOUNCE_INTERVAL opt * 60))]
          @ peers_answer E (q ''compact'' \<noteq> []) (rp_addrs rp) @ [End]))"
    using assms(5,6) d(1,2) err by (simp add: http_announce_def)
  then show ?thesis using a d(3) addrs by (auto simp: http_request_def)
qed

lemma demo_query_facts:
  "queryGet demo_query ''peer_id'' = replicate 20 1" "queryGet demo_query ''info_hash'' = replicate 20 7" "demo_query ''compact'' \<noteq> []"
  "rq_event (http_request demo_http_env opt demo_query) = kNone"
  by (simp_all add: queryGet_def demo_query_def http_request_def string_of_def parseEvent_def)

theorem http_announce_answer_witness:
  "\<exists>db'. http_announce demo_http_env ref_lib default_options 9 demo_query (Some demo_db) = Some (Some db',
      Answer ([StartDict, PushData (bytes_of ''interval''), PushInt 900] @ peers_answer demo_http_env True [] @ [End]))"
proof -
  have m: "uint (ANNOUNCE_INTERVAL default_options * 60) = 900" "tl_mimosa ref_lib = ref_mimosa"
    by (simp_all add: default_options_def ref_lib_def)
  have q: "length (queryGet demo_query ''peer_id'') = 20" "length (queryGet demo_query ''info_hash'') = 20"
      "rq_event (http_request demo_http_env default_options demo_query) \<noteq> kStopped"
    by (simp_all add: demo_query_facts)
  obtain db' where "http_announce demo_http_env ref_lib default_options 9 demo_query (Some demo_db) = Some (Some db',
        Answer ([StartDict, PushData (bytes_of ''interval''), PushInt (uint (ANNOUNCE_INTERVAL default_options * 60))]
          @ peers_answer demo_http_env (demo_query ''compact'' \<noteq> []) [] @ [End]))"
    using http_announce_answer [OF ref_lib.tracker_laws_axioms default_limit_ok demo_db_reach _ q(1,2) _ q(3), of 9
        "Torrent_new ref_mimosa (InfoHash_new SHA1 (replicate 20 7)) ''demo'' ''/srv/demo.torrent'' 4096"]
    unfolding m(2) demo_query_facts demo_db_torrents(1) ref.peer_ids_new by fastforce
  then show ?thesis by (simp add: m(1) demo_query_facts)
qed

text \<open>C12. The page for torrent files serves none: a hash of a valid size is refused as a bad request, because the
  test is the wrong way round, and one of any other size is the key of no torrent.\<close>

theorem file_page_never_serves:
  assumes "tracker_laws L" and "peers_limit_ok opt" and "db_reach L opt (now, db)"
  shows "file_page L h (Some db) = Some (if length h \<in> {20, 32} then BadRequest else NotFound)"
proof (cases "length h \<in> {20, 32}")
  case False
  have inv: "db_inv L opt now db" using tracker_laws.db_reach_inv [OF assms(1,3,2)] by simp
  have "tr_find (tl_db L) (td_torrents db) h = None"
  proof (rule ccontr)
    assume "tr_find (tl_db L) (td_torrents db) h \<noteq> None"
    then obtain k where k: "tr_find (tl_db L) (td_torrents db) h = Some k" by auto
    show False by (rule db_invD [OF inv k]) (use torrentKey_length False in blast)
  qed
  moreover have "\<not> isValidHashSize (int (length h))" using False by (auto simp: isValidHashSize_def)
  ultimately show ?thesis using False by (simp add: file_page_def)
qed (auto simp: file_page_def isValidHashSize_def)

theorem file_page_never_serves_witness:
  "torrent_at ref_lib demo_db (replicate 20 7) \<noteq> None \<and> file_page ref_lib (replicate 20 7) (Some demo_db) = Some BadRequest
    \<and> file_page ref_lib [] (Some demo_db) = Some NotFound"
  using file_page_never_serves [OF ref_lib.tracker_laws_axioms default_limit_ok demo_db_reach, of "replicate 20 7"]
    file_page_never_serves [OF ref_lib.tracker_laws_axioms default_limit_ok demo_db_reach, of "[]"]
  by (simp add: demo_db_torrents)

text \<open>The page of the peers shows those of the torrent in the order of their timeouts, for the hashes of both
  versions.\<close>

theorem peers_page_rows:
  assumes "tracker_laws L" and "peers_limit_ok opt" and "db_reach L opt (now, db)" and "length h \<in> {20, 32}"
  shows "peers_page L h (Some db) = Some (case torrent_at L db (take 20 h) of
      None \<Rightarrow> PeersNotFound
    | Some t \<Rightarrow> Peers (map (\<lambda>p. let pr = peer_at t p in \<lparr>pr_addr = p_addr pr, pr_peerid = p_peerid pr, pr_downloaded = p_downloaded pr,
        pr_uploaded = p_uploaded pr, pr_left = p_left pr\<rparr>) (peer_ids (tl_mimosa L) t)))"
proof (cases "tr_find (tl_db L) (td_torrents db) (take 20 h)")
  case None
  then show ?thesis using assms(4) by (auto simp: peers_page_def torrent_at_def)
next
  case (Some k)
  have inv: "db_inv L opt now db" using tracker_laws.db_reach_inv [OF assms(1,3,2)] by simp
  obtain t where t: "td_heap db k = Some t" "torrent_inv (tl_mimosa L) opt now t" using db_invD [OF inv Some] by blast
  have wf: "torrent_wf (tl_mimosa L) t" using t(2) by (simp add: torrent_inv_def)
  have "set ps \<subseteq> set (peer_ids (tl_mimosa L) t) \<Longrightarrow> peer_rows (t_heap t) ps = Some (map (\<lambda>p. let pr = peer_at t p in
      \<lparr>pr_addr = p_addr pr, pr_peerid = p_peerid pr, pr_downloaded = p_downloaded pr, pr_uploaded = p_uploaded pr, pr_left = p_left pr\<rparr>) ps)" for ps
    by (induction ps) (auto simp: torrent_wf_heap [OF wf] Let_def)
  from this [OF subset_refl] show ?thesis
    using assms(4) Some t(1) by (auto simp: peers_page_def torrent_at_def peer_ids_def)
qed

theorem peers_page_rows_witness:
  "peers_page ref_lib (replicate 32 9) (Some demo_db) = Some (Peers [])"
proof -
  have "tl_mimosa ref_lib = ref_mimosa" by (simp add: ref_lib_def)
  then show ?thesis
    using peers_page_rows [OF ref_lib.tracker_laws_axioms default_limit_ok demo_db_reach, of "replicate 32 9"]
    by (simp add: demo_db_torrents ref.peer_ids_new)
qed

text \<open>The totals of the statistics page are the sums of its rows, and every torrent has a row.\<close>

theorem stat_page_totals:
  assumes "tracker_laws L" and "peers_limit_ok opt" and "db_reach L opt (now, db)"
  shows "\<exists>rows totals. stat_page L db = Some (rows, totals)
    \<and> length rows = length (tr_values (tl_db L) (td_torrents db))
    \<and> st_leechers totals = sum_list (map (\<lambda>r. ucast (sw_leechers r)) rows)
    \<and> st_seeders totals = sum_list (map (\<lambda>r. ucast (sw_seeders r)) rows)
    \<and> st_length totals = sum_list (map sw_length rows)
    \<and> st_completed totals = sum_list (map (\<lambda>r. ucast (sw_completed r)) rows)"
proof -
  have inv: "db_inv L opt now db" using tracker_laws.db_reach_inv [OF assms(1,3,2)] by simp
  have "set ks \<subseteq> set (tr_values (tl_db L) (td_torrents db)) \<Longrightarrow> \<exists>rows totals. stat_rows db ks s = Some (rows, totals)
    \<and> length rows = length ks
    \<and> st_leechers totals = st_leechers s + sum_list (map (\<lambda>r. ucast (sw_leechers r)) rows)
    \<and> st_seeders totals = st_seeders s + sum_list (map (\<lambda>r. ucast (sw_seeders r)) rows)
    \<and> st_length totals = st_length s + sum_list (map sw_length rows)
    \<and> st_completed totals = st_completed s + sum_list (map (\<lambda>r. ucast (sw_completed r)) rows)" for ks s
  proof (induction ks arbitrary: s)
    case (Cons k ks)
    obtain h where h: "tr_find (tl_db L) (td_torrents db) h = Some k"
      using Cons.prems trie_laws.set_values [OF tracker_laws.axioms(2) [OF assms(1)]] by auto
    obtain t where t: "td_heap db k = Some t" "hash_ok (t_info_hash t)" using db_invD [OF inv h] by blast
    obtain v where "version t = Some v" using t(2) by (auto simp: hash_ok_def version_def)
    then show ?case using Cons.IH [of "add_totals t s"] Cons.prems t(1)
      by (auto simp: stat_row_of_def add_totals_def algebra_simps)
  qed simp
  from this [OF subset_refl] show ?thesis by (fastforce simp: stat_page_def)
qed

theorem stat_page_totals_witness: "\<exists>rows totals. stat_page ref_lib demo_db = Some (rows, totals)"
  using stat_page_totals [OF ref_lib.tracker_laws_axioms default_limit_ok demo_db_reach] by blast

end
