(* ===== verification/Spec2Isabelle.thy ===== *)
theory Spec2Isabelle
  imports Table_Sorter Torrent Popper_Lifecycle Bs_Sanitizer Bs_Toast Bs_Tab Bs_ScrollSpy Bs_Carousel_Live Bs_Button Bs_Alert Bs_Collapse_Live Bs_Modal_Live Bs_Dropdown_Live Bs_Tooltip_Hover
    Udp_Server Http_Handlers
begin

text \<open>
  A verification library for the BitTorrent tracker hefur and for the scripts of its web pages. Paths
  below are relative to the directory \<^verbatim>\<open>src\<close> of the repository.

  \<^bold>\<open>The program.\<close> hefur answers the announces of BitTorrent clients. A torrent
  (\<^verbatim>\<open>hefur/torrent.cc\<close>) keeps its peers in an index by address and in a list by age; an announce
  adds, refreshes or removes the asking peer and answers with other peers, a cleanup drops those whose time is
  over. The statistics pages are HTML with three scripts under \<^verbatim>\<open>www/js\<close>:
  \<^verbatim>\<open>table-sorter.js\<close> sorts a table by a clicked column; \<^verbatim>\<open>bootstrap.js\<close> and
  \<^verbatim>\<open>bootstrap.bundle.js\<close> are the components of Bootstrap 4.5.2, and the bundle adds Popper 1.16,
  which places a floating element beside its reference. Scripts make up most of the code, and most of this
  development.

  \<^bold>\<open>How the code is modelled.\<close> A class is a record, one function takes and returns it per method, and a
  throw is \<^term>\<open>Inl\<close> of an error (or \<^term>\<open>None\<close> where nothing tells errors apart). A method that waits for
  the end of a CSS transition leaves a callback in the record \<open>transitions\<close> of \<open>Bs_Util\<close>; the event and the timer
  that stands in for it are operations of their own, so all orders in which calls, events and timers can come
  are orders of steps. A page (\<open>Bs_Page\<close>) is a tree of numbered elements with classes, attributes and the
  events fired so far. Every definition computes.

  \<^bold>\<open>The theories.\<close>
  \<^item> \<open>Hefur_Prelude\<close>, \<open>Js_Base\<close>, \<open>Js_Double\<close>: the rule collections, JavaScript numbers, strings, comparators and
    the stable sort, with the locale \<open>comparator_on\<close> of comparison functions; the rounding of numbers to doubles
    and how \<^verbatim>\<open>parseInt\<close> reads a double.
  \<^item> \<open>Table_Sorter\<close>: \<^verbatim>\<open>table-sorter.js\<close>, all of it. Sorting gives a stable sorted permutation, an error in a
    comparison leaves the table alone, printed sizes are read back as long as their numbers are exact doubles below
    \<open>10 ^ 21\<close>.
  \<^item> \<open>Mimosa\<close>: the containers of the mimosa submodule, which is not in the repository, as records of functions
    with their documented laws in the locales \<open>trie_laws\<close>, \<open>dlist_laws\<close> and \<open>mimosa_laws\<close>, interpreted
    on association lists and lists.
  \<^item> \<open>Address\<close>: \<^verbatim>\<open>hefur/address.cc\<close>, \<^verbatim>\<open>address.hh\<close>, \<^verbatim>\<open>address.hxx\<close> and the info hashes.
    Addresses are equal exactly when their index keys are.
  \<^item> \<open>Torrent\<close>: \<^verbatim>\<open>hefur/torrent.cc\<close>, \<^verbatim>\<open>torrent.hh\<close>, \<^verbatim>\<open>peer.hh\<close> and the request and response
    structures. In every reachable state index, list, allocated peers and counters agree; seen as a map from
    addresses to peers an announce is an update; the answer, a stop, the counter of completions and the cleanup
    are described exactly. Counters are 32-bit words.
  \<^item> \<open>Torrent_Db\<close>: \<^verbatim>\<open>hefur/torrent-db.cc\<close> and \<^verbatim>\<open>fs-tree-white-list.cc\<close>, all torrents in a trie by their hash, in
    the locale \<open>tracker_laws\<close>. In every reachable database each torrent stands under its own key and is consistent;
    the check of the directory removes vanished torrents of version one only.
  \<^item> \<open>Udp_Server\<close>: \<^verbatim>\<open>hefur/udp-server.cc\<close>. Datagrams are lists of bytes; the queue of answers is bounded, a sender
    without connection id gets no more than it sent, a scrape is answered byte by byte, an announce never succeeds.
  \<^item> \<open>Http_Handlers\<close>: the handlers under \<^verbatim>\<open>hefur\<close> for announces, scrapes, torrent files, peers and statistics, as
    far as they decide something; answers are the calls of the encoder, pages the values given to the templates.
  \<^item> \<open>Popper_Dom\<close>, \<open>Popper_Layout\<close>: how Popper reads the document and computes rectangles, boundaries and
    automatic placements. Walks along the document are partial functions with values in \<open>option\<close>, and are
    shown to end on every well-formed document.
  \<^item> \<open>Popper_Modifiers\<close>, \<open>Popper_Run\<close>: the ten modifiers and the loop that runs them. The nested run inside
    \<^verbatim>\<open>flip\<close> takes depth 2, which is enough because the modifiers before \<^verbatim>\<open>flip\<close> nest no further.
  \<^item> \<open>Popper_Core\<close>, \<open>Popper_Update\<close>, \<open>Popper_Lifecycle\<close>: the class \<^verbatim>\<open>Popper\<close>. An update with the default
    modifiers runs to its end, \<^verbatim>\<open>flip\<close> changes the side exactly when the popper has no room, listeners are
    balanced over the life of an instance, a destroyed one is inert.
  \<^item> \<open>Bs_Page\<close>, \<open>Bs_Util\<close>, \<open>Bs_Sanitizer\<close>: the page, \<^verbatim>\<open>Util\<close> with the ends of transitions, and the sanitizer
    of \<^verbatim>\<open>bootstrap.js\<close>. A waiting callback has a timer that runs it; sanitized HTML has no script or
    handler, and no unsafe scheme in the attributes the code holds for addresses; \<^verbatim>\<open>srcset\<close> is not one of them.
  \<^item> \<open>Bs_Toast\<close>, \<open>Bs_Tab\<close>, \<open>Bs_ScrollSpy\<close>, \<open>Bs_Button\<close>, \<open>Bs_Alert\<close>: the components of those names. A toast
    that hides itself has a timer to do so. The tabs of a page share the callbacks that wait on the panes; a click leaves
    one tab and one pane active unless an earlier click still waits. The links of the section scrolled to are the active
    ones, one button of a radio group is active, a closed alert is gone.
  \<^item> \<open>Bs_Carousel\<close> with \<open>Bs_Carousel_Inv\<close> and \<open>Bs_Carousel_Live\<close>: one item is active in all reachable states and
    every operation returns. Calls of \<^verbatim>\<open>to\<close> that wait for the end of a slide run one another; the fuel of that
    chain is one more than the number of waiting calls, and running out of it is shown not to happen.
  \<^item> \<open>Bs_Collapse\<close> with \<open>Bs_Collapse_Inv\<close> and \<open>Bs_Collapse_Live\<close>: many instances on one page in a heap of
    instances; panels come to rest, an accordion has one open panel.
  \<^item> \<open>Bs_Modal\<close> with \<open>Bs_Modal_Inv\<close> and \<open>Bs_Modal_Live\<close>: opening and closing around the backdrop, the listeners,
    the paddings for the scroll bar, and two ways into a state nothing leads out of. The model has one instance; on a page
    with several, hiding one drops the resize handlers of all.
  \<^item> \<open>Bs_Dropdown\<close> with \<open>Bs_Dropdown_Live\<close>: the menus of a page; a popper lives only while its menu is open,
    toggling leaves one menu open, arrow keys stay among the items.
  \<^item> \<open>Bs_Tooltip\<close> with \<open>Bs_Tooltip_Inv\<close>, \<open>Bs_Tooltip_Live\<close>, \<open>Bs_Tooltip_Demo\<close> and \<open>Bs_Tooltip_Hover\<close>: tooltips and
    popovers. Every operation is a sequence of small steps, which gives the invariants of the locale
    \<open>tip_invariant\<close>: the options have their types, nothing still to come reads a disposed instance, what is put
    into the page as HTML is sanitized, unless a function given as title or content returns a function. A tip shown again before it is hidden loses track of its popper.

  \<^bold>\<open>Parameters.\<close> What the browser, jQuery and the page decide is an argument of the definitions: the elements a
  selector finds (\<open>query\<close>), whether a handler prevents an event (\<open>prevents\<close>), data attributes, measured sizes and
  positions, the parser and printer of HTML, and random draws. The property statements hold for all of them, with
  the laws they need as named hypotheses. JavaScript numbers are exact rationals with \<^term>\<open>None\<close> for
  \<^verbatim>\<open>NaN\<close>: rounding is left out, except in \<open>Table_Sorter\<close>, which reads numbers of any size. Handlers of a page may prevent events and,
  where a theory says so, edit the page between two steps; they do not call back into the component in the
  middle of one of its methods.

  \<^bold>\<open>Not modelled.\<close> The parser of queries, the bencode encoder, the page templates and the routing of the HTTP server
  belong to the mimosa submodule, which is not in the repository, and the control service to generated code; start-up,
  logging, sockets and threads only call the system; locks are left out, since each operation of a torrent or of the
  database holds its mutex throughout; the minified scripts are generated, and the
  copies of the Bootstrap components inside \<^verbatim>\<open>bootstrap.bundle.js\<close> repeat \<^verbatim>\<open>bootstrap.js\<close>.
\<close>

end
